(* ===== verification/Prelude.thy ===== *)
theory Prelude
  imports Main
begin

text \<open>
  Shared material: the error values of the program, the result type and its sequencing
  operator, the error-propagating list traversal that most Go loops of the program are
  instances of, and the collections of simplification rules.

  \<^item> \<open>go_error\<close>: an \<open>error\<close> value. The code builds its errors with
    \<open>errors.New("...")\<close> (\<open>Msg\<close>) and with three \<open>fmt.Errorf\<close> formats:
    \<open>"invalid %s"\<close>, \<open>"invalid %s: %q"\<close> and
    \<open>"invalid %s: too many entries"\<close>. The constructors keep the arguments of the
    format, so that two errors are equal exactly when their texts are built alike.
  \<^item> \<open>'a result\<close>: the Go pair \<open>(value, error)\<close> where the code uses one
    or the other.
\<close>

datatype go_error =
    Msg string
  | InvalidField string
  | InvalidEntry string string
  | TooManyEntries string

type_synonym 'a result = "go_error + 'a"

named_theorems result_simps "rewriting of results and of their sequencing"
named_theorems step_defs "definitions of the operations that are unfolded in case analyses"

named_theorems eval_simps "definitions that evaluate on a concrete input"

lemma replicate_num [eval_simps]:
  "replicate (numeral k) x = x # replicate (pred_numeral k) x"
  by (simp add: numeral_eq_Suc)

definition bind_res :: "'e + 'a \<Rightarrow> ('a \<Rightarrow> 'e + 'b) \<Rightarrow> 'e + 'b" where
  "bind_res r f = (case r of Inl e \<Rightarrow> Inl e | Inr v \<Rightarrow> f v)"

lemma bind_res_simps [simp]:
  "bind_res (Inl e) f = Inl e"
  "bind_res (Inr v) f = f v"
  by (simp_all add: bind_res_def)

lemma bind_res_Inr_iff [result_simps]:
  "bind_res r f = Inr y \<longleftrightarrow> (\<exists>v. r = Inr v \<and> f v = Inr y)"
  by (cases r) simp_all

lemma bind_res_Inl_iff [result_simps]:
  "bind_res r f = Inl e \<longleftrightarrow> r = Inl e \<or> (\<exists>v. r = Inr v \<and> f v = Inl e)"
  by (cases r) auto

lemma if_Inl_eq_Inr [result_simps]:
  "(if P then Inl e else r) = Inr y \<longleftrightarrow> \<not> P \<and> r = Inr y"
  by simp

definition ok_res :: "'e + 'a \<Rightarrow> bool" where
  "ok_res r = (case r of Inl _ \<Rightarrow> False | Inr _ \<Rightarrow> True)"

lemma ok_res_simps [simp]: "\<not> ok_res (Inl e)" "ok_res (Inr v)"
  by (simp_all add: ok_res_def)

lemma ok_res_iff: "ok_res r \<longleftrightarrow> (\<exists>v. r = Inr v)"
  by (cases r) simp_all

text \<open>
  The loop \<open>for _, x := range xs { y, err := f(x); if err != nil { return nil, err };
  out = append(out, y) }\<close>: the first failing element decides the error.
\<close>

fun map_res :: "('a \<Rightarrow> 'e + 'b) \<Rightarrow> 'a list \<Rightarrow> 'e + 'b list" where
  "map_res f [] = Inr []"
| "map_res f (x # xs) = bind_res (f x) (\<lambda>y. bind_res (map_res f xs) (\<lambda>ys. Inr (y # ys)))"

lemma map_res_Inr_iff:
  "map_res f xs = Inr ys \<longleftrightarrow> list_all2 (\<lambda>x y. f x = Inr y) xs ys"
proof (induction xs arbitrary: ys)
  case Nil
  then show ?case by (auto simp: list_all2_Nil)
next
  case (Cons x xs)
  then show ?case by (cases ys) (auto simp: bind_res_Inr_iff)
qed

lemma map_res_length: "map_res f xs = Inr ys \<Longrightarrow> length ys = length xs"
  by (auto simp: map_res_Inr_iff list_all2_lengthD)

lemma map_res_range: "map_res f xs = Inr ys \<Longrightarrow> y \<in> set ys \<Longrightarrow> \<exists>x \<in> set xs. f x = Inr y"
  by (induction xs arbitrary: ys) (auto simp: result_simps)

lemma map_res_domain: "map_res f xs = Inr ys \<Longrightarrow> x \<in> set xs \<Longrightarrow> \<exists>y \<in> set ys. f x = Inr y"
  by (induction xs arbitrary: ys) (auto simp: result_simps)

lemma map_res_InrI:
  assumes "\<And>x. x \<in> set xs \<Longrightarrow> f x = Inr (g x)"
  shows "map_res f xs = Inr (map g xs)"
  using assms by (induction xs) auto

lemma map_res_ok_iff: "ok_res (map_res f xs) \<longleftrightarrow> (\<forall>x \<in> set xs. ok_res (f x))"
  by (induction xs) (auto simp: ok_res_iff result_simps)

lemma map_res_Inl_first:
  "map_res f xs = Inl e \<Longrightarrow>
     \<exists>us x vs. xs = us @ x # vs \<and> (\<forall>u \<in> set us. ok_res (f u)) \<and> f x = Inl e"
proof (induction xs)
  case Nil
  then show ?case by simp
next
  case (Cons a xs)
  show ?case
  proof (cases "f a")
    case (Inl e')
    with Cons.prems have "a # xs = [] @ a # xs \<and> (\<forall>u \<in> set []. ok_res (f u)) \<and> f a = Inl e"
      by simp
    then show ?thesis by blast
  next
    case (Inr b)
    with Cons.prems have "map_res f xs = Inl e" by (auto simp: result_simps)
    then obtain us x vs where "xs = us @ x # vs" "\<forall>u \<in> set us. ok_res (f u)" "f x = Inl e"
      using Cons.IH by blast
    with Inr have "a # xs = (a # us) @ x # vs \<and> (\<forall>u \<in> set (a # us). ok_res (f u)) \<and> f x = Inl e"
      by simp
    then show ?thesis by blast
  qed
qed

subsection \<open>Lists and maps\<close>

lemma distinct_map_filter_other:
  "distinct (map f xs) \<Longrightarrow> distinct (map f (filter P xs))"
  by (induction xs) auto

lemma card_dom_upd_new:
  "finite (dom m) \<Longrightarrow> k \<notin> dom m \<Longrightarrow> card (dom (m(k \<mapsto> v))) = Suc (card (dom m))"
  by simp

text \<open>The members of a list that is written out, one at a time.\<close>

lemma list_memberE: "x \<in> set (y # ys) \<Longrightarrow> (x = y \<Longrightarrow> P) \<Longrightarrow> (x \<in> set ys \<Longrightarrow> P) \<Longrightarrow> P" "x \<in> set [] \<Longrightarrow> P"
  by auto

end
