(* ===== verification/TunnelLimits.thy ===== *)
theory TunnelLimits
  imports Prelude
begin

text \<open>
  \<open>internal/server/limits.go\<close>: the number of live tunnels per token. \<open>TryAcquire\<close>
  returns a closure that gives the slot back once; a closure is a lease here, the number of an
  entry of \<open>lim_leases\<close>, which holds the closure's captured token id and its
  \<open>released\<close> flag. \<open>NoLease\<close> is the empty closure of an unlimited token. Acquiring
  and releasing hold the mutex for their whole effect.
\<close>

record limiter =
  lim_active :: "int \<rightharpoonup> int"
  lim_leases :: "(int \<times> bool) list"

datatype lease = NoLease | Lease nat

definition newTokenTunnelLimiter :: limiter where
  "newTokenTunnelLimiter = \<lparr>lim_active = (\<lambda>_. None), lim_leases = []\<rparr>"

text \<open>Reading a missing key of a Go map gives zero.\<close>

definition active_of :: "limiter \<Rightarrow> int \<Rightarrow> int" where
  "active_of l tokenID = (case lim_active l tokenID of None \<Rightarrow> 0 | Some n \<Rightarrow> n)"

definition TryAcquire :: "limiter option \<Rightarrow> int \<Rightarrow> int \<Rightarrow> lease option \<times> limiter option" where
  "TryAcquire lo tokenID maxActive =
     (case lo of
        None \<Rightarrow> (Some NoLease, None)
      | Some l \<Rightarrow>
          if maxActive \<le> 0 \<or> tokenID \<le> 0 then (Some NoLease, Some l)
          else if active_of l tokenID \<ge> maxActive then (None, Some l)
          else (Some (Lease (length (lim_leases l))),
                Some \<lparr>lim_active = (lim_active l)(tokenID \<mapsto> active_of l tokenID + 1),
                      lim_leases = lim_leases l @ [(tokenID, False)]\<rparr>))"

definition release_slot :: "limiter \<Rightarrow> int \<Rightarrow> int \<rightharpoonup> int" where
  "release_slot l tokenID =
     (let n = active_of l tokenID in
      if n \<le> 1 then (lim_active l)(tokenID := None) else (lim_active l)(tokenID \<mapsto> n - 1))"

fun release :: "lease \<Rightarrow> limiter option \<Rightarrow> limiter option" where
  "release NoLease lo = lo"
| "release (Lease i) None = None"
| "release (Lease i) (Some l) =
     (if i < length (lim_leases l) then
        (case lim_leases l ! i of
           (tokenID, True) \<Rightarrow> Some l
         | (tokenID, False) \<Rightarrow>
             Some \<lparr>lim_active = release_slot l tokenID, lim_leases = (lim_leases l)[i := (tokenID, True)]\<rparr>)
      else Some l)"

subsection \<open>The invariant\<close>

text \<open>The counter of a token is the number of its leases that have not been released.\<close>

definition open_leases :: "limiter \<Rightarrow> int \<Rightarrow> nat" where
  "open_leases l tokenID = length (filter (\<lambda>p. p = (tokenID, False)) (lim_leases l))"

definition limiter_inv :: "limiter \<Rightarrow> bool" where
  "limiter_inv l \<longleftrightarrow>
     (\<forall>t. lim_active l t = (if open_leases l t = 0 then None else Some (int (open_leases l t))))"

lemma limiter_inv_new: "limiter_inv newTokenTunnelLimiter"
  by (simp add: limiter_inv_def newTokenTunnelLimiter_def open_leases_def)

lemma active_of_inv: "limiter_inv l \<Longrightarrow> active_of l t = int (open_leases l t)"
  by (simp add: limiter_inv_def active_of_def)

lemma filter_list_update:
  "i < length xs \<Longrightarrow> P (xs ! i) \<Longrightarrow> \<not> P y \<Longrightarrow> Suc (length (filter P (xs[i := y]))) = length (filter P xs)"
  by (induction xs arbitrary: i) (auto split: nat.splits simp: nth_Cons')

lemma filter_list_update_same:
  "i < length xs \<Longrightarrow> P (xs ! i) = P y \<Longrightarrow> length (filter P (xs[i := y])) = length (filter P xs)"
  by (induction xs arbitrary: i) (auto split: nat.splits simp: nth_Cons')

lemma open_leases_acquire:
  "open_leases \<lparr>lim_active = m, lim_leases = lim_leases l @ [(tokenID, False)]\<rparr> t =
     (if t = tokenID then Suc (open_leases l t) else open_leases l t)"
  by (simp add: open_leases_def)

lemma open_leases_release:
  assumes "i < length (lim_leases l)" and "lim_leases l ! i = (tokenID, False)"
  shows "open_leases \<lparr>lim_active = m, lim_leases = (lim_leases l)[i := (tokenID, True)]\<rparr> t =
     (if t = tokenID then open_leases l t - 1 else open_leases l t)"
    and "open_leases l tokenID > 0"
proof -
  let ?P = "\<lambda>p. p = (tokenID, False)"
  have "Suc (length (filter ?P ((lim_leases l)[i := (tokenID, True)]))) = length (filter ?P (lim_leases l))"
    using assms by (intro filter_list_update) simp_all
  then show "open_leases l tokenID > 0" by (auto simp: open_leases_def)
  show "open_leases \<lparr>lim_active = m, lim_leases = (lim_leases l)[i := (tokenID, True)]\<rparr> t =
     (if t = tokenID then open_leases l t - 1 else open_leases l t)"
  proof (cases "t = tokenID")
    case True
    then show ?thesis
      using \<open>Suc _ = _\<close> by (simp add: open_leases_def)
  next
    case False
    have "length (filter (\<lambda>p. p = (t, False)) ((lim_leases l)[i := (tokenID, True)]))
        = length (filter (\<lambda>p. p = (t, False)) (lim_leases l))"
      using assms False by (intro filter_list_update_same) simp_all
    with False show ?thesis by (simp add: open_leases_def)
  qed
qed

lemma TryAcquire_inv:
  assumes "limiter_inv l" and "TryAcquire (Some l) t m = (r, Some l')"
  shows "limiter_inv l'"
proof (cases "m \<le> 0 \<or> t \<le> 0 \<or> active_of l t \<ge> m")
  case True
  with assms show ?thesis by (auto simp: TryAcquire_def split: if_splits)
next
  case False
  with assms(2) have l': "l' = \<lparr>lim_active = (lim_active l)(t \<mapsto> active_of l t + 1),
      lim_leases = lim_leases l @ [(t, False)]\<rparr>"
    by (simp add: TryAcquire_def)
  have "lim_active l' u = (if open_leases l' u = 0 then None else Some (int (open_leases l' u)))" for u
    using assms(1) active_of_inv [OF assms(1), of t]
    unfolding l' open_leases_acquire by (simp add: limiter_inv_def)
  then show ?thesis unfolding limiter_inv_def by blast
qed

lemma release_inv:
  assumes "limiter_inv l" and "release x (Some l) = Some l'"
  shows "limiter_inv l'"
proof (cases "\<exists>i t. x = Lease i \<and> i < length (lim_leases l) \<and> lim_leases l ! i = (t, False)")
  case False
  with assms have "l' = l"
    by (cases x) (auto split: if_splits bool.splits prod.splits)
  with assms(1) show ?thesis by simp
next
  case True
  then obtain i t where i: "x = Lease i" "i < length (lim_leases l)" "lim_leases l ! i = (t, False)" by blast
  with assms(2) have l': "l' = \<lparr>lim_active = release_slot l t, lim_leases = (lim_leases l)[i := (t, True)]\<rparr>"
    by simp
  note count = open_leases_release [OF i(2,3)]
  have "lim_active l' u = (if open_leases l' u = 0 then None else Some (int (open_leases l' u)))" for u
    using assms(1) active_of_inv [OF assms(1), of t] count(2)
    unfolding l' count(1) by (auto simp: limiter_inv_def release_slot_def Let_def)
  then show ?thesis unfolding limiter_inv_def by blast
qed

subsection \<open>Arbitrary interleavings\<close>

text \<open>
  The connections of the server acquire and release in any order: a step is one of the two
  operations, with any token, limit and lease.
\<close>

inductive limiter_step :: "limiter \<Rightarrow> limiter \<Rightarrow> bool" where
  acquire: "TryAcquire (Some l) tokenID maxActive = (r, Some l') \<Longrightarrow> limiter_step l l'"
| release: "release x (Some l) = Some l' \<Longrightarrow> limiter_step l l'"

inductive_cases limiter_stepE: "limiter_step l l'"

lemma limiter_reachable_inv: "limiter_step\<^sup>*\<^sup>* newTokenTunnelLimiter l \<Longrightarrow> limiter_inv l"
  by (induction rule: rtranclp_induct)
    (auto simp: limiter_inv_new elim!: limiter_stepE dest: TryAcquire_inv release_inv)

lemma release_idem: "release x (release x lo) = release x lo"
  by (cases x; cases lo) (auto split: prod.splits bool.splits)

lemma release_other_lease:
  "i \<noteq> j \<Longrightarrow> j < length (lim_leases l) \<Longrightarrow> release (Lease i) (Some l) = Some l' \<Longrightarrow>
     lim_leases l' ! j = lim_leases l ! j"
  by (auto split: if_splits prod.splits bool.splits)

text \<open>the tunnel limit holds under every interleaving. In any state reached from an empty
  limiter, acquiring a slot under a positive limit succeeds exactly when the token has fewer open
  leases than the limit, the token then has at most as many as the limit, and the new lease is
  one more than before; a refused acquisition changes nothing; and releasing a lease a second
  time changes nothing.\<close>

theorem tunnel_limit_enforced:
  assumes "limiter_step\<^sup>*\<^sup>* newTokenTunnelLimiter l" and "tokenID > 0" and "maxActive > 0"
  shows "(case TryAcquire (Some l) tokenID maxActive of
      (Some x, Some l') \<Rightarrow> int (open_leases l tokenID) < maxActive
        \<and> open_leases l' tokenID = open_leases l tokenID + 1 \<and> int (open_leases l' tokenID) \<le> maxActive
        \<and> (\<forall>t. t \<noteq> tokenID \<longrightarrow> open_leases l' t = open_leases l t)
        \<and> open_leases (the (release x (Some l'))) tokenID = open_leases l tokenID
        \<and> release x (release x (Some l')) = release x (Some l')
    | (None, lo) \<Rightarrow> int (open_leases l tokenID) \<ge> maxActive \<and> lo = Some l
    | _ \<Rightarrow> False)"
proof -
  have act: "active_of l tokenID = int (open_leases l tokenID)"
    using active_of_inv limiter_reachable_inv [OF assms(1)] by blast
  show ?thesis
  proof (cases "active_of l tokenID \<ge> maxActive")
    case True
    with assms act show ?thesis by (simp add: TryAcquire_def)
  next
    case False
    let ?l' = "\<lparr>lim_active = (lim_active l)(tokenID \<mapsto> active_of l tokenID + 1),
      lim_leases = lim_leases l @ [(tokenID, False)]\<rparr>"
    have "open_leases (the (release (Lease (length (lim_leases l))) (Some ?l'))) tokenID = open_leases l tokenID"
      by (simp add: nth_append open_leases_def)
    moreover have "TryAcquire (Some l) tokenID maxActive = (Some (Lease (length (lim_leases l))), Some ?l')"
      using False assms by (simp add: TryAcquire_def)
    ultimately show ?thesis
      using False act release_idem [of "Lease (length (lim_leases l))" "Some ?l'"]
      by (simp add: open_leases_acquire del: release.simps)
  qed
qed

theorem tunnel_limit_enforced_witness:
  "fst (TryAcquire (snd (TryAcquire (snd (TryAcquire (Some newTokenTunnelLimiter) 7 2)) 7 2)) 7 2) = None"
proof -
  define l1 where "l1 = \<lparr>lim_active = [7 \<mapsto> 1], lim_leases = [(7, False)]\<rparr>"
  define l2 where "l2 = \<lparr>lim_active = [7 \<mapsto> 2], lim_leases = [(7, False), (7, False)]\<rparr>"
  have t1: "TryAcquire (Some newTokenTunnelLimiter) 7 2 = (Some (Lease 0), Some l1)"
    by (simp add: TryAcquire_def newTokenTunnelLimiter_def active_of_def l1_def)
  have t2: "TryAcquire (Some l1) 7 2 = (Some (Lease 1), Some l2)"
    by (simp add: TryAcquire_def active_of_def l1_def l2_def)
  have reach: "limiter_step\<^sup>*\<^sup>* newTokenTunnelLimiter l2"
    using limiter_step.acquire [OF t1] limiter_step.acquire [OF t2]
    by (meson converse_rtranclp_into_rtranclp r_into_rtranclp)
  have "open_leases l2 7 = 2" by (simp add: open_leases_def l2_def)
  with tunnel_limit_enforced [OF reach, of 7 2] have "fst (TryAcquire (Some l2) 7 2) = None"
    by (auto split: prod.splits option.splits)
  then show ?thesis using t1 t2 by simp
qed

end
