(* ===== verification/RateLimit.thy ===== *)
theory RateLimit
  imports Complex_Main Prelude
begin

text \<open>
  \<open>internal/server/rate_limit.go\<close>: one token bucket per token id. Times are
  nanoseconds, and the clock reading of a call is its argument. \<open>float64\<close> values are
  rationals and every floating-point operation is followed by the rounding function
  \<open>rnd\<close>, an argument; the bounds on the bucket hold for every monotone rounding that
  keeps 0 and the capacity, the bound on the number of admitted calls for exact arithmetic.
\<close>

record bucket =
  bk_tokens :: rat
  bk_last :: int

type_synonym buckets = "int \<rightharpoonup> bucket"

definition minFloat64 :: "rat \<Rightarrow> rat \<Rightarrow> rat" where
  "minFloat64 a b = (if a < b then a else b)"

text \<open>\<open>Time.Sub\<close> saturates at the limits of an int64 duration; \<open>Duration.Seconds\<close>
  converts the whole seconds and the remaining nanoseconds separately.\<close>

definition sat64 :: "int \<Rightarrow> int" where
  "sat64 d = max (- (2 ^ 63)) (min (2 ^ 63 - 1) d)"

definition trunc_div :: "int \<Rightarrow> int \<Rightarrow> int" where
  "trunc_div a b = (if a < 0 then - ((- a) div b) else a div b)"

definition Seconds :: "(rat \<Rightarrow> rat) \<Rightarrow> int \<Rightarrow> rat" where
  "Seconds rnd d =
     (let sec = trunc_div d 1000000000; nsec = d - sec * 1000000000
      in rnd (rnd (of_int sec) + rnd (rnd (of_int nsec) / 1000000000)))"

definition refill_bucket :: "(rat \<Rightarrow> rat) \<Rightarrow> int \<Rightarrow> int \<Rightarrow> bucket \<Rightarrow> bucket" where
  "refill_bucket rnd limitPerMinute now b =
     (let capacity = rnd (of_int limitPerMinute);
          refillPerSecond = rnd (capacity / 60);
          elapsed = Seconds rnd (sat64 (now - bk_last b))
      in if elapsed > 0 then
           b\<lparr>bk_tokens := minFloat64 capacity (rnd (bk_tokens b + rnd (elapsed * refillPerSecond))),
             bk_last := now\<rparr>
         else if elapsed < 0 then b\<lparr>bk_last := now\<rparr>
         else b)"

definition take_token :: "(rat \<Rightarrow> rat) \<Rightarrow> bucket \<Rightarrow> bool \<times> bucket" where
  "take_token rnd b =
     (if bk_tokens b < 1 then (False, b) else (True, b\<lparr>bk_tokens := rnd (bk_tokens b - 1)\<rparr>))"

definition Allow :: "(rat \<Rightarrow> rat) \<Rightarrow> int \<Rightarrow> buckets option \<Rightarrow> int \<Rightarrow> int \<Rightarrow> bool \<times> buckets option" where
  "Allow rnd now lo tokenID limitPerMinute =
     (case lo of
        None \<Rightarrow> (True, None)
      | Some bs \<Rightarrow>
          if limitPerMinute \<le> 0 \<or> tokenID \<le> 0 then (True, Some bs)
          else
            (let b = (case bs tokenID of
                        None \<Rightarrow> \<lparr>bk_tokens = rnd (of_int limitPerMinute), bk_last = now\<rparr>
                      | Some b \<Rightarrow> b)
             in case take_token rnd (refill_bucket rnd limitPerMinute now b) of
                  (ok, b') \<Rightarrow> (ok, Some (bs(tokenID \<mapsto> b')))))"

definition newTokenRateLimiter :: buckets where
  "newTokenRateLimiter = (\<lambda>_. None)"

subsection \<open>Bounds on a bucket\<close>

definition rounding :: "(rat \<Rightarrow> rat) \<Rightarrow> int \<Rightarrow> bool" where
  "rounding rnd L \<longleftrightarrow> mono rnd \<and> rnd 0 = 0 \<and> rnd (of_int L) = of_int L"

definition bucket_ok :: "int \<Rightarrow> bucket \<Rightarrow> bool" where
  "bucket_ok L b \<longleftrightarrow> 0 \<le> bk_tokens b \<and> bk_tokens b \<le> of_int L"

lemma rounding_nonneg: "rounding rnd L \<Longrightarrow> 0 \<le> x \<Longrightarrow> 0 \<le> rnd x"
  by (metis rounding_def monoD)

lemma refill_bucket_ok:
  assumes r: "rounding rnd L" and "L > 0" and b: "bucket_ok L b"
  shows "bucket_ok L (refill_bucket rnd L now b)"
proof -
  let ?e = "Seconds rnd (sat64 (now - bk_last b))"
  have cap: "rnd (of_int L) = of_int L" using r by (simp add: rounding_def)
  have "0 \<le> rnd (bk_tokens b + rnd (?e * rnd (of_int L / 60)))" if "?e > 0"
  proof -
    have "0 \<le> rnd (of_int L / 60)" using assms(2) by (intro rounding_nonneg [OF r]) simp
    then have "0 \<le> rnd (?e * rnd (of_int L / 60))" using that by (intro rounding_nonneg [OF r]) simp
    then show ?thesis using b by (intro rounding_nonneg [OF r]) (simp add: bucket_ok_def)
  qed
  then show ?thesis
    using b assms(2) by (auto simp: refill_bucket_def Let_def cap bucket_ok_def minFloat64_def)
qed

lemma take_token_ok:
  assumes "rounding rnd L" and "bucket_ok L b"
  shows "bucket_ok L (snd (take_token rnd b))"
proof (cases "bk_tokens b < 1")
  case True
  with assms show ?thesis by (simp add: take_token_def)
next
  case False
  then have "0 \<le> rnd (bk_tokens b - 1)" by (intro rounding_nonneg [OF assms(1)]) simp
  moreover have "rnd (bk_tokens b - 1) \<le> rnd (of_int L)"
    using assms by (intro monoD [of rnd]) (auto simp: rounding_def bucket_ok_def)
  ultimately show ?thesis
    using False assms(1) by (simp add: take_token_def bucket_ok_def rounding_def)
qed

text \<open>a bucket never holds fewer than zero or more than a minute's worth of tokens, whatever
  the clock does (including going backwards) and for every monotone rounding; a call is admitted
  exactly when the refilled bucket holds a whole token; and other tokens' buckets are untouched.\<close>

theorem bucket_bounds:
  assumes "rounding rnd L" and "L > 0" and "tokenID > 0"
    and "case bs tokenID of None \<Rightarrow> True | Some b \<Rightarrow> bucket_ok L b"
  shows "\<exists>ok b'. Allow rnd now (Some bs) tokenID L = (ok, Some (bs(tokenID \<mapsto> b'))) \<and> bucket_ok L b'
    \<and> (bs tokenID = None \<longrightarrow> ok)"
proof -
  let ?b = "case bs tokenID of None \<Rightarrow> \<lparr>bk_tokens = rnd (of_int L), bk_last = now\<rparr> | Some b \<Rightarrow> b"
  let ?b' = "snd (take_token rnd (refill_bucket rnd L now ?b))"
  have cap: "rnd (of_int L) = of_int L" using assms(1) by (simp add: rounding_def)
  have "bucket_ok L ?b"
    using assms(2,4) by (auto simp: bucket_ok_def cap split: option.splits)
  then have ok: "bucket_ok L ?b'" using assms by (intro take_token_ok refill_bucket_ok)
  have allow: "Allow rnd now (Some bs) tokenID L
      = (fst (take_token rnd (refill_bucket rnd L now ?b)), Some (bs(tokenID \<mapsto> ?b')))"
    using assms(2,3) by (simp add: Allow_def Let_def split: prod.splits)
  have "fst (take_token rnd (refill_bucket rnd L now ?b))" if "bs tokenID = None"
  proof -
    have "sat64 (now - now) = 0" by (simp add: sat64_def)
    moreover have "Seconds rnd 0 = 0"
      using assms(1) by (simp add: Seconds_def trunc_div_def rounding_def Let_def)
    ultimately have "refill_bucket rnd L now ?b = ?b"
      using that by (simp add: refill_bucket_def Let_def)
    moreover have "(1::rat) \<le> of_int L" using assms(2) by simp
    ultimately show ?thesis using that by (simp add: take_token_def cap)
  qed
  with allow ok show ?thesis
    by (intro exI [of _ "fst (take_token rnd (refill_bucket rnd L now ?b))"] exI [of _ ?b'] conjI impI)
qed

theorem bucket_bounds_witness:
  "\<exists>ok b'. Allow (\<lambda>x. x) 500 (Some [3 \<mapsto> \<lparr>bk_tokens = 1, bk_last = 900\<rparr>]) 3 2
      = (ok, Some ([3 \<mapsto> \<lparr>bk_tokens = 1, bk_last = 900\<rparr>](3 \<mapsto> b'))) \<and> bucket_ok 2 b'"
proof -
  have "rounding (\<lambda>x. x) 2" by (simp add: rounding_def mono_def)
  moreover have "case [3 \<mapsto> \<lparr>bk_tokens = 1, bk_last = 900\<rparr>] (3::int) of
      None \<Rightarrow> True | Some b \<Rightarrow> bucket_ok 2 b"
    by (simp add: bucket_ok_def)
  ultimately show ?thesis
    using bucket_bounds [of "\<lambda>x. x" 2 3 "[3 \<mapsto> \<lparr>bk_tokens = 1, bk_last = 900\<rparr>]" 500] by fastforce
qed

subsection \<open>The number of admitted calls\<close>

text \<open>The calls of one token, by their clock readings; the number of those that are admitted.\<close>

fun allowed_calls :: "(rat \<Rightarrow> rat) \<Rightarrow> int \<Rightarrow> int \<Rightarrow> int list \<Rightarrow> buckets \<Rightarrow> nat" where
  "allowed_calls rnd tokenID L [] bs = 0"
| "allowed_calls rnd tokenID L (now # ts) bs =
     (case Allow rnd now (Some bs) tokenID L of
        (ok, bs') \<Rightarrow> (if ok then 1 else 0) + allowed_calls rnd tokenID L ts (the bs'))"

text \<open>The time that passes: backward jumps of the clock do not count.\<close>

fun forward_ns :: "int \<Rightarrow> int list \<Rightarrow> int" where
  "forward_ns prev [] = 0"
| "forward_ns prev (now # ts) = max 0 (now - prev) + forward_ns now ts"

lemma Seconds_exact: "Seconds (\<lambda>x. x) d = of_int d / 1000000000"
proof -
  have "of_int (trunc_div d 1000000000) + of_int (d - trunc_div d 1000000000 * 1000000000) / 1000000000
      = (of_int d / 1000000000 :: rat)"
    by (simp add: field_simps)
  then show ?thesis by (simp add: Seconds_def Let_def)
qed

lemma sat64_sign: "sat64 d > 0 \<longleftrightarrow> d > 0" "sat64 d < 0 \<longleftrightarrow> d < 0" "d \<ge> 0 \<Longrightarrow> sat64 d \<le> d"
  by (auto simp: sat64_def)

lemma refill_exact:
  assumes "L > 0"
  shows "bk_last (refill_bucket (\<lambda>x. x) L now b) = now"
    and "bk_tokens (refill_bucket (\<lambda>x. x) L now b)
      \<le> bk_tokens b + of_int L * of_int (max 0 (now - bk_last b)) / 60000000000"
proof -
  let ?d = "sat64 (now - bk_last b)"
  show "bk_last (refill_bucket (\<lambda>x. x) L now b) = now"
    using sat64_sign [of "now - bk_last b"]
    by (auto simp: refill_bucket_def Let_def Seconds_exact)
  show "bk_tokens (refill_bucket (\<lambda>x. x) L now b)
      \<le> bk_tokens b + of_int L * of_int (max 0 (now - bk_last b)) / 60000000000"
  proof (cases "now - bk_last b > 0")
    case True
    then have d: "?d > 0" "?d \<le> now - bk_last b" by (simp_all add: sat64_sign)
    have "bk_tokens (refill_bucket (\<lambda>x. x) L now b) \<le> bk_tokens b + of_int ?d / 1000000000 * (of_int L / 60)"
      using d(1) by (simp add: refill_bucket_def Let_def Seconds_exact minFloat64_def)
    also have "\<dots> = bk_tokens b + of_int L * of_int ?d / 60000000000" by simp
    also have "\<dots> \<le> bk_tokens b + of_int L * of_int (now - bk_last b) / 60000000000"
    proof -
      have "(of_int ?d :: rat) \<le> of_int (now - bk_last b)" using d(2) by (simp only: of_int_le_iff)
      then have "of_int L * (of_int ?d :: rat) \<le> of_int L * of_int (now - bk_last b)"
        using assms by (intro mult_left_mono) simp_all
      then show ?thesis by (simp add: divide_right_mono)
    qed
    finally show ?thesis using True by simp
  next
    case False
    then have "\<not> Seconds (\<lambda>x. x) ?d > 0" by (simp add: Seconds_exact sat64_sign)
    with False show ?thesis by (simp add: refill_bucket_def Let_def)
  qed
qed

lemma allowed_calls_bound:
  assumes "L > 0" and "tokenID > 0" and "bs tokenID = Some b" and "0 \<le> bk_tokens b"
  shows "of_nat (allowed_calls (\<lambda>x. x) tokenID L ts bs)
    \<le> bk_tokens b + of_int L * of_int (forward_ns (bk_last b) ts) / 60000000000"
  using assms(3,4)
proof (induction ts arbitrary: bs b)
  case Nil
  then show ?case by simp
next
  case (Cons now ts)
  let ?r = "refill_bucket (\<lambda>x. x) L now b"
  obtain ok b' where t: "take_token (\<lambda>x. x) ?r = (ok, b')" by fastforce
  have allow: "Allow (\<lambda>x. x) now (Some bs) tokenID L = (ok, Some (bs(tokenID \<mapsto> b')))"
    using assms(1,2) Cons.prems t by (simp add: Allow_def)
  have r: "bk_last b' = now" "bk_tokens b' = bk_tokens ?r - (if ok then 1 else 0)"
    using t refill_exact(1) [OF assms(1), of now b] by (auto simp: take_token_def split: if_splits)
  have ge: "0 \<le> bk_tokens ?r"
  proof -
    have "0 \<le> Seconds (\<lambda>x. x) (sat64 (now - bk_last b)) * (of_int L / 60 :: rat)"
      if "Seconds (\<lambda>x. x) (sat64 (now - bk_last b)) > 0"
      using that assms(1) by simp
    then show ?thesis
      using Cons.prems(2) assms(1) by (auto simp: refill_bucket_def Let_def minFloat64_def)
  qed
  have "0 \<le> bk_tokens b'" using t ge by (auto simp: take_token_def split: if_splits)
  then have "of_nat (allowed_calls (\<lambda>x. x) tokenID L ts (bs(tokenID \<mapsto> b')))
      \<le> bk_tokens b' + of_int L * of_int (forward_ns now ts) / 60000000000"
    using Cons.IH [of "bs(tokenID \<mapsto> b')" b'] r(1) by (simp del: fun_upd_apply add: fun_upd_same)
  moreover have "bk_tokens ?r \<le> bk_tokens b + of_int L * of_int (max 0 (now - bk_last b)) / 60000000000"
    by (rule refill_exact(2) [OF assms(1)])
  ultimately show ?case
    using allow r(2)
    by (cases ok; simp add: distrib_left add_divide_distrib del: max.absorb1 max.absorb2; linarith?)
qed

text \<open>C22: the rate limit, in exact arithmetic. Of the calls a token makes on a new limiter, at any
  clock readings, at most a full bucket plus \<open>limitPerMinute\<close> per minute of forward clock
  movement are admitted.\<close>

theorem rate_limit_enforced:
  assumes "L > 0" and "tokenID > 0"
  shows "of_nat (allowed_calls (\<lambda>x. x) tokenID L (start # ts) newTokenRateLimiter)
    \<le> of_int L + (of_int L * of_int (forward_ns start ts) / 60000000000 :: rat)"
proof -
  let ?b = "\<lparr>bk_tokens = of_int L - 1, bk_last = start\<rparr>"
  have L1: "(1::rat) \<le> of_int L" using assms(1) by simp
  have "Seconds (\<lambda>x. x) (sat64 0) = 0" by (simp add: Seconds_exact sat64_def)
  then have "Allow (\<lambda>x. x) start (Some newTokenRateLimiter) tokenID L
      = (True, Some (newTokenRateLimiter(tokenID \<mapsto> ?b)))"
    using assms L1 by (simp add: Allow_def newTokenRateLimiter_def refill_bucket_def take_token_def)
  moreover have "of_nat (allowed_calls (\<lambda>x. x) tokenID L ts (newTokenRateLimiter(tokenID \<mapsto> ?b)))
      \<le> of_int L - 1 + (of_int L * of_int (forward_ns start ts) / 60000000000 :: rat)"
    using allowed_calls_bound [of L tokenID "newTokenRateLimiter(tokenID \<mapsto> ?b)" ?b ts] assms L1 by simp
  ultimately show ?thesis by simp
qed

theorem rate_limit_enforced_witness:
  "allowed_calls (\<lambda>x. x) 1 2 [0, 1, 2, 3] newTokenRateLimiter \<le> 2"
proof -
  have "of_nat (allowed_calls (\<lambda>x. x) 1 2 (0 # [1, 2, 3]) newTokenRateLimiter)
      \<le> of_int 2 + (of_int 2 * of_int (forward_ns 0 [1, 2, 3]) / 60000000000 :: rat)"
    by (rule rate_limit_enforced) simp_all
  then have "(of_nat (allowed_calls (\<lambda>x. x) 1 2 [0, 1, 2, 3] newTokenRateLimiter) :: rat) < of_nat 3"
    by simp
  then show ?thesis by (simp only: of_nat_less_iff)
qed

end
