(* ===== verification/GoStrings.thy ===== *)
theory GoStrings
  imports Prelude "HOL-Library.Sublist" "HOL-Library.Char_ord"
begin

text \<open>
  The part of Go's standard library for text that the program uses (packages
  \<open>strings\<close>, \<open>bytes\<close>, \<open>strconv\<close>, \<open>net\<close>), on byte strings: a Go
  string is a sequence of bytes and \<^typ>\<open>string\<close> is a list of 8-bit characters, so
  lengths and indices agree. \<open>TrimSpace\<close> knows every Unicode space by its UTF-8
  bytes. \<open>ToLower\<close>, \<open>ToUpper\<close> and \<open>EqualFold\<close> map the ASCII letters and
  leave every other byte alone.
\<close>

subsection \<open>Bytes\<close>

definition byte :: "char \<Rightarrow> nat" where
  "byte c = of_char c"

lemma byte_less [simp]: "byte c < 256"
  by (simp add: byte_def)

lemma byte_literal [simp]:
  "byte (Char b0 b1 b2 b3 b4 b5 b6 b7) = of_char (Char b0 b1 b2 b3 b4 b5 b6 b7)"
  by (simp add: byte_def)

lemma char_of_numeral [eval_simps]:
  "char_of (numeral k :: nat) =
     Char (bit (numeral k :: nat) 0) (bit (numeral k :: nat) 1) (bit (numeral k :: nat) 2)
       (bit (numeral k :: nat) 3) (bit (numeral k :: nat) 4) (bit (numeral k :: nat) 5)
       (bit (numeral k :: nat) 6) (bit (numeral k :: nat) 7)"
  by (simp add: char_of_def bit_0)

lemma bit_one_zero [eval_simps]: "bit (Suc 0) 0"
  by (simp add: bit_0)

lemma byte_eq_iff: "byte c = byte d \<longleftrightarrow> c = d"
  by (simp add: byte_def)

lemma char_of_byte [simp]: "char_of (byte c) = c"
  by (simp add: byte_def)

lemma byte_char_of: "n < 256 \<Longrightarrow> byte (char_of n) = n"
  by (simp add: byte_def)

definition is_digit :: "char \<Rightarrow> bool" where
  "is_digit c \<longleftrightarrow> 48 \<le> byte c \<and> byte c \<le> 57"

definition is_lower :: "char \<Rightarrow> bool" where
  "is_lower c \<longleftrightarrow> 97 \<le> byte c \<and> byte c \<le> 122"

definition is_upper :: "char \<Rightarrow> bool" where
  "is_upper c \<longleftrightarrow> 65 \<le> byte c \<and> byte c \<le> 90"

definition lower_byte :: "char \<Rightarrow> char" where
  "lower_byte c = (if is_upper c then char_of (byte c + 32) else c)"

definition upper_byte :: "char \<Rightarrow> char" where
  "upper_byte c = (if is_lower c then char_of (byte c - 32) else c)"

lemma byte_lower_byte: "byte (lower_byte c) = (if is_upper c then byte c + 32 else byte c)"
  by (simp add: lower_byte_def is_upper_def byte_char_of)

lemma byte_upper_byte: "byte (upper_byte c) = (if is_lower c then byte c - 32 else byte c)"
  by (auto simp: upper_byte_def is_lower_def intro!: byte_char_of)

lemma not_upper_lower_byte [simp]: "\<not> is_upper (lower_byte c)"
  unfolding is_upper_def byte_lower_byte by (auto simp: is_upper_def)

lemma not_lower_upper_byte [simp]: "\<not> is_lower (upper_byte c)"
  unfolding is_lower_def byte_upper_byte by (auto simp: is_lower_def)

lemma lower_byte_idem [simp]: "lower_byte (lower_byte c) = lower_byte c"
  by (simp add: lower_byte_def [of "lower_byte c"])

lemma upper_byte_idem [simp]: "upper_byte (upper_byte c) = upper_byte c"
  by (simp add: upper_byte_def [of "upper_byte c"])

definition ToLower :: "string \<Rightarrow> string" where
  "ToLower s = map lower_byte s"

definition ToUpper :: "string \<Rightarrow> string" where
  "ToUpper s = map upper_byte s"

definition EqualFold :: "string \<Rightarrow> string \<Rightarrow> bool" where
  "EqualFold s t \<longleftrightarrow> ToLower s = ToLower t"

lemma ToLower_idem [simp]: "ToLower (ToLower s) = ToLower s"
  by (simp add: ToLower_def)

lemma ToUpper_idem [simp]: "ToUpper (ToUpper s) = ToUpper s"
  by (simp add: ToUpper_def)

lemma ToLower_append [simp]: "ToLower (s @ t) = ToLower s @ ToLower t"
  by (simp add: ToLower_def)

lemma ToLower_Nil [simp]: "ToLower [] = []" "ToLower s = [] \<longleftrightarrow> s = []"
  by (simp_all add: ToLower_def)

lemma length_ToLower [simp]: "length (ToLower s) = length s"
  by (simp add: ToLower_def)

lemma length_ToUpper [simp]: "length (ToUpper s) = length s"
  by (simp add: ToUpper_def)

lemma ToLower_fixed: "(\<And>c. c \<in> set s \<Longrightarrow> \<not> is_upper c) \<Longrightarrow> ToLower s = s"
  by (induction s) (auto simp: ToLower_def lower_byte_def)

subsection \<open>Prefixes, suffixes, searching\<close>

definition HasPrefix :: "string \<Rightarrow> string \<Rightarrow> bool" where
  "HasPrefix s p \<longleftrightarrow> prefix p s"

definition HasSuffix :: "string \<Rightarrow> string \<Rightarrow> bool" where
  "HasSuffix s p \<longleftrightarrow> suffix p s"

definition TrimPrefix :: "string \<Rightarrow> string \<Rightarrow> string" where
  "TrimPrefix s p = (if HasPrefix s p then drop (length p) s else s)"

definition TrimSuffix :: "string \<Rightarrow> string \<Rightarrow> string" where
  "TrimSuffix s p = (if HasSuffix s p then take (length s - length p) s else s)"

lemma HasSuffix_append [simp]: "HasSuffix (s @ p) p"
  by (simp add: HasSuffix_def suffix_def)

lemma HasPrefix_append [simp]: "HasPrefix (p @ s) p"
  by (simp add: HasPrefix_def)

lemma TrimSuffix_append [simp]: "TrimSuffix (s @ p) p = s"
  by (simp add: TrimSuffix_def)

lemma TrimPrefix_append [simp]: "TrimPrefix (p @ s) p = s"
  by (simp add: TrimPrefix_def)

lemma HasSuffix_conv: "HasSuffix s p \<longleftrightarrow> s = TrimSuffix s p @ p"
  by (auto simp: HasSuffix_def TrimSuffix_def suffix_def)

lemma HasPrefix_conv: "HasPrefix s p \<longleftrightarrow> s = p @ TrimPrefix s p"
  by (auto simp: HasPrefix_def TrimPrefix_def prefix_def)

text \<open>\<open>strings.Index\<close>: the first position of a substring.\<close>

fun Index :: "string \<Rightarrow> string \<Rightarrow> nat option" where
  "Index [] sub = (if sub = [] then Some 0 else None)"
| "Index (c # s) sub =
     (if prefix sub (c # s) then Some 0 else map_option Suc (Index s sub))"

definition Contains :: "string \<Rightarrow> string \<Rightarrow> bool" where
  "Contains s sub \<longleftrightarrow> Index s sub \<noteq> None"

definition ContainsAny :: "string \<Rightarrow> string \<Rightarrow> bool" where
  "ContainsAny s cs \<longleftrightarrow> list_ex (\<lambda>c. c \<in> set cs) s"

text \<open>\<open>strings.Cut\<close>: (before, after, found).\<close>

definition Cut :: "string \<Rightarrow> string \<Rightarrow> string \<times> string \<times> bool" where
  "Cut s sep = (case Index s sep of
       None \<Rightarrow> (s, [], False)
     | Some i \<Rightarrow> (take i s, drop (i + length sep) s, True))"

lemma Index_Some: "Index s sub = Some i \<Longrightarrow> s = take i s @ sub @ drop (i + length sub) s"
proof (induction s arbitrary: i)
  case Nil
  then show ?case by (auto split: if_splits)
next
  case (Cons c s)
  show ?case
  proof (cases "prefix sub (c # s)")
    case True
    with Cons.prems show ?thesis by (auto simp: prefix_def)
  next
    case False
    with Cons.prems obtain j where j: "Index s sub = Some j" "i = Suc j" by auto
    from Cons.IH [OF j(1)] j(2) show ?thesis by simp
  qed
qed

lemma Index_NoneD: "Index s sub = None \<Longrightarrow> s \<noteq> u @ sub @ v"
proof (induction s arbitrary: u)
  case Nil
  then show ?case by (auto split: if_splits)
next
  case (Cons c s)
  show ?case
  proof
    assume eq: "c # s = u @ sub @ v"
    from Cons.prems have np: "\<not> prefix sub (c # s)" and n: "Index s sub = None"
      by (auto split: if_splits)
    from np eq have "u \<noteq> []" by (auto simp: prefix_def)
    with eq obtain u' where "s = u' @ sub @ v" by (cases u) auto
    with Cons.IH [OF n] show False by blast
  qed
qed

lemma Index_char_None_iff [simp]: "Index s [c] = None \<longleftrightarrow> c \<notin> set s"
  by (induction s) auto

lemma Contains_char [simp]: "Contains s [c] \<longleftrightarrow> c \<in> set s"
  by (simp add: Contains_def)

lemma Contains_iff: "Contains s sub \<longleftrightarrow> (\<exists>u v. s = u @ sub @ v)"
  unfolding Contains_def by (metis Index_NoneD Index_Some option.exhaust)

lemma Index_char_first: "c \<notin> set u \<Longrightarrow> Index (u @ c # v) [c] = Some (length u)"
  by (induction u) auto

lemma Cut_char: "c \<notin> set u \<Longrightarrow> Cut (u @ c # v) [c] = (u, v, True)"
  by (simp add: Cut_def Index_char_first)

lemma Cut_found: "Cut s sep = (u, v, True) \<Longrightarrow> s = u @ sep @ v"
  by (auto simp: Cut_def split: option.splits dest: Index_Some)

lemma Cut_not_found: "Cut s sep = (u, v, False) \<Longrightarrow> u = s \<and> v = [] \<and> \<not> Contains s sep"
  by (auto simp: Cut_def Contains_def split: option.splits)

text \<open>\<open>strings.Split\<close> with a one-byte separator.\<close>

fun Split_char :: "char \<Rightarrow> string \<Rightarrow> string list" where
  "Split_char c [] = [[]]"
| "Split_char c (d # s) =
     (if d = c then [] # Split_char c s
      else (case Split_char c s of [] \<Rightarrow> [[d]] | p # ps \<Rightarrow> (d # p) # ps))"

lemma Split_char_not_Nil [simp]: "Split_char c s \<noteq> []"
  by (induction s) (auto split: list.splits)

lemma Split_char_no_sep: "p \<in> set (Split_char c s) \<Longrightarrow> c \<notin> set p"
  by (induction s arbitrary: p) (auto split: if_splits list.splits)

lemma Split_char_fresh: "c \<notin> set s \<Longrightarrow> Split_char c s = [s]"
  by (induction s) auto

lemma Split_char_append: "c \<notin> set u \<Longrightarrow> Split_char c (u @ c # v) = u # Split_char c v"
  by (induction u) auto

fun Join_char :: "char \<Rightarrow> string list \<Rightarrow> string" where
  "Join_char c [] = []"
| "Join_char c [p] = p"
| "Join_char c (p # q # ps) = p @ c # Join_char c (q # ps)"

lemma Join_char_Cons: "ps \<noteq> [] \<Longrightarrow> Join_char c ((d # p) # ps) = d # Join_char c (p # ps)"
  by (cases ps) simp_all

lemma Join_Split_char [simp]: "Join_char c (Split_char c s) = s"
proof (induction s)
  case Nil
  then show ?case by simp
next
  case (Cons d s)
  obtain p ps where split: "Split_char c s = p # ps"
    by (cases "Split_char c s") auto
  with Cons show ?case
    by (cases ps) (auto simp: Join_char_Cons)
qed

lemma Split_char_append_end: "c \<notin> set v \<Longrightarrow> Split_char c (u @ v) = butlast (Split_char c u) @ [List.last (Split_char c u) @ v]"
proof (induction u)
  case Nil
  then show ?case by (simp add: Split_char_fresh)
next
  case (Cons d u)
  then show ?case by (cases "Split_char c u") (auto split: list.splits)
qed

lemma Split_Join_char: "ps \<noteq> [] \<Longrightarrow> (\<And>p. p \<in> set ps \<Longrightarrow> c \<notin> set p) \<Longrightarrow> Split_char c (Join_char c ps) = ps"
proof (induction ps)
  case Nil
  then show ?case by simp
next
  case (Cons p ps)
  then show ?case by (cases ps) (simp_all add: Split_char_fresh Split_char_append)
qed

subsection \<open>TrimSpace\<close>

text \<open>
  The UTF-8 encodings of the runes \<open>unicode.IsSpace\<close> accepts: the six ASCII ones,
  U+0085, U+00A0, U+1680, U+2000 to U+200A, U+2028, U+2029, U+202F, U+205F and U+3000.
  A string starts (ends) with such a rune exactly when one of these is a prefix (suffix).
\<close>

definition space_runes :: "string list" where
  "space_runes =
     [[CHR 0x09], [CHR 0x0A], [CHR 0x0B], [CHR 0x0C], [CHR 0x0D], [CHR 0x20],
      [CHR 0xC2, CHR 0x85], [CHR 0xC2, CHR 0xA0], [CHR 0xE1, CHR 0x9A, CHR 0x80],
      [CHR 0xE2, CHR 0x80, CHR 0x80], [CHR 0xE2, CHR 0x80, CHR 0x81],
      [CHR 0xE2, CHR 0x80, CHR 0x82], [CHR 0xE2, CHR 0x80, CHR 0x83],
      [CHR 0xE2, CHR 0x80, CHR 0x84], [CHR 0xE2, CHR 0x80, CHR 0x85],
      [CHR 0xE2, CHR 0x80, CHR 0x86], [CHR 0xE2, CHR 0x80, CHR 0x87],
      [CHR 0xE2, CHR 0x80, CHR 0x88], [CHR 0xE2, CHR 0x80, CHR 0x89],
      [CHR 0xE2, CHR 0x80, CHR 0x8A], [CHR 0xE2, CHR 0x80, CHR 0xA8],
      [CHR 0xE2, CHR 0x80, CHR 0xA9], [CHR 0xE2, CHR 0x80, CHR 0xAF],
      [CHR 0xE2, CHR 0x81, CHR 0x9F], [CHR 0xE3, CHR 0x80, CHR 0x80]]"

definition starts_with_any :: "string list \<Rightarrow> string \<Rightarrow> string option" where
  "starts_with_any rs s = find (\<lambda>r. r \<noteq> [] \<and> prefix r s) rs"

function trim_front :: "string list \<Rightarrow> string \<Rightarrow> string" where
  "trim_front rs s =
     (case starts_with_any rs s of None \<Rightarrow> s | Some r \<Rightarrow> trim_front rs (drop (length r) s))"
  by pat_completeness auto
termination
  by (relation "measure (\<lambda>(rs, s). length s)")
    (auto simp: starts_with_any_def find_Some_iff dest!: prefix_length_le nth_mem,
      metis diff_less length_greater_0_conv less_le_trans)

declare trim_front.simps [simp del]

definition TrimSpace :: "string \<Rightarrow> string" where
  "TrimSpace s = rev (trim_front (map rev space_runes) (rev (trim_front space_runes s)))"

lemma starts_with_any_Some:
  "starts_with_any rs s = Some r \<Longrightarrow> r \<in> set rs \<and> r \<noteq> [] \<and> prefix r s"
  by (auto simp: starts_with_any_def find_Some_iff)

lemma starts_with_any_None:
  "starts_with_any rs s = None \<longleftrightarrow> (\<forall>r \<in> set rs. r \<noteq> [] \<longrightarrow> \<not> prefix r s)"
  by (auto simp: starts_with_any_def find_None_iff)

lemma trim_front_id: "starts_with_any rs s = None \<Longrightarrow> trim_front rs s = s"
  by (subst trim_front.simps) simp

lemma trim_front_clean: "starts_with_any rs (trim_front rs s) = None"
proof (induction rs s rule: trim_front.induct)
  case (1 rs s)
  then show ?case
    by (subst trim_front.simps) (auto split: option.splits)
qed

lemma trim_front_suffix: "suffix (trim_front rs s) s"
proof (induction rs s rule: trim_front.induct)
  case (1 rs s)
  show ?case
  proof (cases "starts_with_any rs s")
    case None
    then show ?thesis by (simp add: trim_front_id)
  next
    case (Some r)
    with 1 have "suffix (trim_front rs (drop (length r) s)) (drop (length r) s)" by simp
    moreover from Some have "trim_front rs s = trim_front rs (drop (length r) s)"
      by (subst trim_front.simps) simp
    ultimately show ?thesis by (metis suffix_drop suffix_order.trans)
  qed
qed

lemma TrimSpace_alt:
  "TrimSpace s = rev (trim_front (map rev space_runes) (rev (trim_front space_runes s)))"
  by (simp add: TrimSpace_def)

lemma TrimSpace_clean:
  "starts_with_any space_runes (TrimSpace s) = None"
  "starts_with_any (map rev space_runes) (rev (TrimSpace s)) = None"
proof -
  let ?f = "trim_front space_runes s"
  have "prefix (TrimSpace s) ?f"
    unfolding TrimSpace_def
    by (metis rev_rev_ident suffix_to_prefix trim_front_suffix)
  then have "prefix r (TrimSpace s) \<Longrightarrow> prefix r ?f" for r
    by (metis prefix_order.trans)
  then show "starts_with_any space_runes (TrimSpace s) = None"
    using trim_front_clean [of space_runes s] unfolding starts_with_any_None by blast
  show "starts_with_any (map rev space_runes) (rev (TrimSpace s)) = None"
    by (simp add: TrimSpace_def trim_front_clean)
qed

lemma TrimSpace_id:
  "starts_with_any space_runes s = None \<Longrightarrow>
   starts_with_any (map rev space_runes) (rev s) = None \<Longrightarrow> TrimSpace s = s"
  by (simp add: TrimSpace_def trim_front_id)

lemma TrimSpace_idem [simp]: "TrimSpace (TrimSpace s) = TrimSpace s"
  by (rule TrimSpace_id) (rule TrimSpace_clean)+

lemma TrimSpace_parts: "\<exists>u v. s = u @ TrimSpace s @ v"
proof -
  obtain u where u: "s = u @ trim_front space_runes s"
    using trim_front_suffix by (auto simp: suffix_def)
  have "prefix (TrimSpace s) (trim_front space_runes s)"
    unfolding TrimSpace_def by (metis rev_rev_ident suffix_to_prefix trim_front_suffix)
  then obtain v where "trim_front space_runes s = TrimSpace s @ v" by (auto simp: prefix_def)
  with u show ?thesis by metis
qed

lemma set_TrimSpace: "set (TrimSpace s) \<subseteq> set s"
  by (metis TrimSpace_parts Un_iff set_append subsetI)

lemma length_TrimSpace: "length (TrimSpace s) \<le> length s"
  by (metis TrimSpace_parts le_add1 le_add2 le_trans length_append)

lemma TrimSpace_Nil [simp]: "TrimSpace [] = []"
  using length_TrimSpace [of "[]"] by simp

definition graphic :: "char \<Rightarrow> bool" where
  "graphic c \<longleftrightarrow> 33 \<le> byte c \<and> byte c \<le> 126"

lemma space_runes_hd: "r \<in> set space_runes \<Longrightarrow> r \<noteq> [] \<and> \<not> graphic (hd r) \<and> \<not> graphic (last r)"
  by (auto simp: space_runes_def graphic_def byte_def)

lemma TrimSpace_graphic_ends:
  assumes "s \<noteq> []" "graphic (hd s)" "graphic (last s)"
  shows "TrimSpace s = s"
proof (rule TrimSpace_id)
  show "starts_with_any space_runes s = None"
    using assms(1,2) space_runes_hd
    by (fastforce simp: starts_with_any_None prefix_def hd_append)
  show "starts_with_any (map rev space_runes) (rev s) = None"
    unfolding starts_with_any_None
  proof (intro ballI impI notI)
    fix r assume "r \<in> set (map rev space_runes)" "r \<noteq> []" "prefix r (rev s)"
    then obtain q where q: "q \<in> set space_runes" "q \<noteq> []" "suffix q s"
      by (auto simp: suffix_to_prefix)
    then have "last s = last q" by (auto simp: suffix_def)
    with q assms(3) space_runes_hd show False by simp
  qed
qed

lemma TrimSpace_graphic: "(\<And>c. c \<in> set s \<Longrightarrow> graphic c) \<Longrightarrow> TrimSpace s = s"
  by (cases "s = []") (auto intro: TrimSpace_graphic_ends)

lemma graphic_lower_byte [simp]: "graphic (lower_byte c) = graphic c"
  unfolding graphic_def byte_lower_byte by (auto simp: is_upper_def)

lemma graphic_upper_byte [simp]: "graphic (upper_byte c) = graphic c"
  unfolding graphic_def byte_upper_byte by (auto simp: is_lower_def)

subsection \<open>Trimming and lower case\<close>

lemma prefix_ToLower:
  "list_all (\<lambda>c. \<not> is_upper c \<and> \<not> is_lower c) r \<Longrightarrow> prefix r (ToLower s) = prefix r s"
proof (induction r arbitrary: s)
  case Nil
  then show ?case by simp
next
  case (Cons c r)
  have "lower_byte d = c \<longleftrightarrow> d = c" for d
    using Cons.prems by (auto simp: lower_byte_def is_upper_def is_lower_def byte_char_of)
  then show ?case using Cons by (cases s) (simp_all add: ToLower_def eq_commute [of c])
qed

lemma trim_front_ToLower:
  "\<forall>r\<in>set rs. list_all (\<lambda>c. \<not> is_upper c \<and> \<not> is_lower c) r \<Longrightarrow> trim_front rs (ToLower s) = ToLower (trim_front rs s)"
proof (induction rs s rule: trim_front.induct)
  case (1 rs s)
  have same: "starts_with_any rs (ToLower s) = starts_with_any rs s"
    unfolding starts_with_any_def using 1(2) by (intro find_cong) (auto simp: prefix_ToLower)
  show ?case
  proof (cases "starts_with_any rs s")
    case None
    then show ?thesis using same by (simp add: trim_front_id)
  next
    case (Some r)
    have "trim_front rs (drop (length r) (ToLower s)) = ToLower (trim_front rs (drop (length r) s))"
      using 1(1) [OF Some 1(2)] by (simp add: ToLower_def drop_map)
    then show ?thesis using same Some by (simp add: trim_front.simps [of rs s] trim_front.simps [of rs "ToLower s"])
  qed
qed

lemma space_runes_caseless: "\<forall>r\<in>set space_runes. list_all (\<lambda>c. \<not> is_upper c \<and> \<not> is_lower c) r"
  by (simp add: space_runes_def is_upper_def is_lower_def)

lemma TrimSpace_ToLower: "TrimSpace (ToLower s) = ToLower (TrimSpace s)"
proof -
  have "\<forall>r\<in>set (map rev space_runes). list_all (\<lambda>c. \<not> is_upper c \<and> \<not> is_lower c) r"
    using space_runes_caseless by (auto simp: list_all_iff)
  then show ?thesis
    using trim_front_ToLower [OF space_runes_caseless, of s]
      trim_front_ToLower [of "map rev space_runes" "rev (trim_front space_runes s)"]
    by (simp add: TrimSpace_def ToLower_def rev_map)
qed

lemma HasSuffix_rev [eval_simps]: "HasSuffix s p \<longleftrightarrow> prefix (rev p) (rev s)"
  by (simp add: HasSuffix_def suffix_to_prefix)

lemmas [eval_simps] =
  is_digit_def is_lower_def is_upper_def lower_byte_def upper_byte_def ToLower_def ToUpper_def
  EqualFold_def HasPrefix_def TrimPrefix_def TrimSuffix_def Contains_def
  ContainsAny_def Cut_def space_runes_def starts_with_any_def trim_front.simps TrimSpace_def
  graphic_def Let_def

end
