(* ===== verification/GoStrconv.thy ===== *)
theory GoStrconv
  imports GoStrings
begin

text \<open>
  The number and byte encodings of Go's standard library the program uses: decimal integers
  (\<open>strconv.Atoi\<close>, \<open>ParseInt\<close> with base 10 and 64 bits, \<open>Itoa\<close>,
  \<open>FormatInt\<close>), \<open>encoding/hex\<close>, \<open>encoding/base32\<close> without padding.
  Go's \<open>int\<close> and \<open>int64\<close> are both 64 bits wide on the supported platforms:
  parsing rejects what does not fit.
\<close>

subsection \<open>Decimal integers\<close>

definition digit_val :: "char \<Rightarrow> nat" where
  "digit_val c = byte c - 48"

definition dec_val :: "string \<Rightarrow> nat" where
  "dec_val s = foldl (\<lambda>a c. 10 * a + digit_val c) 0 s"

definition int64_range :: "int \<Rightarrow> bool" where
  "int64_range i \<longleftrightarrow> - (2 ^ 63) \<le> i \<and> i < 2 ^ 63"

definition split_sign :: "string \<Rightarrow> bool \<times> string" where
  "split_sign s = (case s of
       [] \<Rightarrow> (False, [])
     | c # cs \<Rightarrow> if c = CHR ''-'' then (True, cs)
                 else if c = CHR ''+'' then (False, cs) else (False, s))"

definition ParseInt :: "string \<Rightarrow> int option" where
  "ParseInt s =
     (let (neg, ds) = split_sign s;
          v = (if neg then - int (dec_val ds) else int (dec_val ds))
      in if ds = [] \<or> \<not> list_all is_digit ds \<or> \<not> int64_range v then None else Some v)"

definition Atoi :: "string \<Rightarrow> int option" where
  "Atoi s = ParseInt s"

fun dec_digits :: "nat \<Rightarrow> string" where
  "dec_digits n =
     (if n < 10 then [char_of (48 + n)] else dec_digits (n div 10) @ [char_of (48 + n mod 10)])"

declare dec_digits.simps [simp del]

definition Itoa :: "int \<Rightarrow> string" where
  "Itoa i = (if i < 0 then CHR ''-'' # dec_digits (nat (- i)) else dec_digits (nat i))"

lemma dec_val_append: "dec_val (s @ [c]) = 10 * dec_val s + digit_val c"
  by (simp add: dec_val_def)

lemma digit_char: "n < 10 \<Longrightarrow> is_digit (char_of (48 + n)) \<and> digit_val (char_of (48 + n)) = n"
  by (simp add: is_digit_def digit_val_def byte_char_of)

lemma dec_digits_props:
  "dec_digits n \<noteq> [] \<and> list_all is_digit (dec_digits n) \<and> dec_val (dec_digits n) = n"
proof (induction n rule: dec_digits.induct)
  case (1 n)
  show ?case
  proof (cases "n < 10")
    case True
    then show ?thesis
      using digit_char [OF True] by (subst (1 2 3) dec_digits.simps) (simp add: dec_val_def)
  next
    case False
    have "n mod 10 < 10" by simp
    note d = digit_char [OF this]
    from False 1 d show ?thesis
      by (subst (1 2 3) dec_digits.simps) (simp add: dec_val_append)
  qed
qed

lemma dec_digits_not_Nil [simp]: "dec_digits n \<noteq> []"
  and dec_digits_digit: "c \<in> set (dec_digits n) \<Longrightarrow> is_digit c"
  and dec_val_dec_digits [simp]: "dec_val (dec_digits n) = n"
  using dec_digits_props [of n] by (auto simp: list_all_iff)

lemma is_digit_not_sign: "is_digit c \<Longrightarrow> c \<noteq> CHR ''-'' \<and> c \<noteq> CHR ''+''"
  by (auto simp: is_digit_def byte_def)

lemma split_sign_dec_digits: "split_sign (dec_digits n) = (False, dec_digits n)"
proof (cases "dec_digits n")
  case Nil
  then show ?thesis by simp
next
  case (Cons c cs)
  then have "is_digit c" using dec_digits_digit [of c n] by simp
  with Cons show ?thesis by (simp add: split_sign_def is_digit_not_sign)
qed

theorem Atoi_Itoa: "int64_range i \<Longrightarrow> Atoi (Itoa i) = Some i"
  using dec_digits_props
  by (auto simp: Atoi_def ParseInt_def Itoa_def split_sign_dec_digits)
    (auto simp: split_sign_def Let_def)

lemma Atoi_range: "Atoi s = Some v \<Longrightarrow> int64_range v"
  by (auto simp: Atoi_def ParseInt_def Let_def split: prod.splits if_splits)

lemma Itoa_inj: "int64_range i \<Longrightarrow> int64_range j \<Longrightarrow> Itoa i = Itoa j \<longleftrightarrow> i = j"
  by (metis Atoi_Itoa option.inject)

text \<open>\<open>strconv.ParseBool\<close>.\<close>

definition ParseBool :: "string \<Rightarrow> bool option" where
  "ParseBool s =
     (if s \<in> set [''1'', ''t'', ''T'', ''true'', ''TRUE'', ''True''] then Some True
      else if s \<in> set [''0'', ''f'', ''F'', ''false'', ''FALSE'', ''False''] then Some False
      else None)"

subsection \<open>Hexadecimal\<close>

definition hex_digit :: "nat \<Rightarrow> char" where
  "hex_digit n = (if n < 10 then char_of (48 + n) else char_of (87 + n))"

definition hex_val :: "char \<Rightarrow> nat option" where
  "hex_val c =
     (let b = byte c in
      if 48 \<le> b \<and> b \<le> 57 then Some (b - 48)
      else if 97 \<le> b \<and> b \<le> 102 then Some (b - 87)
      else if 65 \<le> b \<and> b \<le> 70 then Some (b - 55)
      else None)"

definition hex_EncodeToString :: "string \<Rightarrow> string" where
  "hex_EncodeToString s = concat (map (\<lambda>c. [hex_digit (byte c div 16), hex_digit (byte c mod 16)]) s)"

fun hex_DecodeString :: "string \<Rightarrow> string option" where
  "hex_DecodeString [] = Some []"
| "hex_DecodeString [c] = None"
| "hex_DecodeString (a # b # s) =
     (case (hex_val a, hex_val b, hex_DecodeString s) of
        (Some x, Some y, Some t) \<Rightarrow> Some (char_of (16 * x + y) # t)
      | _ \<Rightarrow> None)"

lemma hex_val_hex_digit: "n < 16 \<Longrightarrow> hex_val (hex_digit n) = Some n"
  by (auto simp: hex_val_def hex_digit_def byte_char_of Let_def)

theorem hex_roundtrip: "hex_DecodeString (hex_EncodeToString s) = Some s"
proof (induction s)
  case Nil
  then show ?case by (simp add: hex_EncodeToString_def)
next
  case (Cons c s)
  have "byte c div 16 < 16" using byte_less [of c] by linarith
  with Cons show ?case
    by (simp add: hex_EncodeToString_def hex_val_hex_digit)
qed

lemma hex_EncodeToString_inj: "hex_EncodeToString s = hex_EncodeToString t \<longleftrightarrow> s = t"
  by (metis hex_roundtrip option.inject)

subsection \<open>Base 32 without padding\<close>

text \<open>
  \<open>base32.StdEncoding.WithPadding(NoPadding)\<close>: the bits of the bytes, five at a time,
  each group a letter of the alphabet A-Z2-7; the last group is filled with zero bits.
\<close>

definition byte_bits :: "char \<Rightarrow> bool list" where
  "byte_bits c = map (\<lambda>i. (byte c div 2 ^ i) mod 2 = 1) [7, 6, 5, 4, 3, 2, 1, 0]"

definition bits_val :: "bool list \<Rightarrow> nat" where
  "bits_val bs = foldl (\<lambda>a b. 2 * a + (if b then 1 else 0)) 0 bs"

definition base32_char :: "nat \<Rightarrow> char" where
  "base32_char n = (if n < 26 then char_of (65 + n) else char_of (24 + n))"

fun base32_groups :: "bool list \<Rightarrow> string" where
  "base32_groups (a # b # c # d # e # bs) = base32_char (bits_val [a, b, c, d, e]) # base32_groups bs"
| "base32_groups [] = []"
| "base32_groups bs = [base32_char (bits_val (take 5 (bs @ replicate 5 False)))]"

definition base32_EncodeToString :: "string \<Rightarrow> string" where
  "base32_EncodeToString s = base32_groups (concat (map byte_bits s))"

lemma length_base32_groups: "length (base32_groups bs) = (length bs + 4) div 5"
  by (induction bs rule: base32_groups.induct) auto

lemma length_base32: "length (base32_EncodeToString s) = (8 * length s + 4) div 5"
proof -
  have "length (concat (map byte_bits s)) = 8 * length s"
    by (induction s) (auto simp: byte_bits_def)
  then show ?thesis by (simp add: base32_EncodeToString_def length_base32_groups)
qed

lemma bits_val_5: "length bs = 5 \<Longrightarrow> bits_val bs < 32"
  by (auto simp: bits_val_def numeral_eq_Suc length_Suc_conv)

definition base32_byte :: "char \<Rightarrow> bool" where
  "base32_byte c \<longleftrightarrow> is_upper c \<or> (50 \<le> byte c \<and> byte c \<le> 55)"

lemma base32_char_byte: "n < 32 \<Longrightarrow> base32_byte (base32_char n)"
  by (auto simp: base32_byte_def base32_char_def is_upper_def byte_char_of)

lemma base32_groups_bytes: "c \<in> set (base32_groups bs) \<Longrightarrow> base32_byte c"
  by (induction bs rule: base32_groups.induct)
    (auto intro!: base32_char_byte bits_val_5 simp: numeral_eq_Suc)

lemma base32_bytes: "c \<in> set (base32_EncodeToString s) \<Longrightarrow> base32_byte c"
  by (auto simp: base32_EncodeToString_def dest: base32_groups_bytes)

lemmas [eval_simps] =
  digit_val_def dec_val_def int64_range_def split_sign_def ParseInt_def Atoi_def Itoa_def ParseBool_def
  dec_digits.simps hex_digit_def hex_val_def hex_EncodeToString_def byte_bits_def bits_val_def
  base32_char_def base32_EncodeToString_def

end
