(* ===== verification/Auth.thy ===== *)
theory Auth
  imports Prelude GoStrconv "HOL-Library.List_Lexorder"
begin

text \<open>
  Package \<open>internal/auth\<close>: the token and reservation store. The SQLite tables of
  \<open>ensureSchema\<close> are lists of rows with the meaning of their constraints: an
  AUTOINCREMENT key, UNIQUE and PRIMARY KEY columns, and foreign keys (which the DSN switches on).
  The store is one connection (\<open>SetMaxOpenConns(1)\<close>), so each statement is atomic; a
  statement may fail before or after it took effect (\<open>fault\<close>: a cancelled context, an
  I/O error), which is an argument of every operation. A store is an optional database, the
  missing one being Go's nil store. Times are Unix seconds and arguments (\<open>time.Now\<close>);
  SHA-256 is an argument, and random bytes are an argument of \<open>CreateToken\<close>. A Go result
  \<open>(id, ok, err)\<close> is an error or an optional id.
\<close>

subsection \<open>Tables\<close>

record token_row =
  tr_id :: int
  tr_label :: string
  tr_hash :: string
  tr_prefix :: string
  tr_created :: int
  tr_revoked :: "int option"

record 'k reservation =
  rs_key :: 'k
  rs_token :: int
  rs_created :: int

record auth_db =
  db_tokens :: "token_row list"
  db_token_seq :: int
  db_subdomains :: "string reservation list"
  db_ports :: "int reservation list"

type_synonym store = "auth_db option"

definition empty_db :: auth_db where
  "empty_db = \<lparr>db_tokens = [], db_token_seq = 0, db_subdomains = [], db_ports = []\<rparr>"

datatype fault = NoFault | FailBefore string | FailAfter string

definition exec_sql :: "fault \<Rightarrow> (auth_db \<Rightarrow> 'a result \<times> auth_db) \<Rightarrow> auth_db \<Rightarrow> 'a result \<times> auth_db" where
  "exec_sql flt f db = (case flt of
       NoFault \<Rightarrow> f db
     | FailBefore e \<Rightarrow> (Inl (Msg e), db)
     | FailAfter e \<Rightarrow> (Inl (Msg e), snd (f db)))"

definition query_sql :: "fault \<Rightarrow> (auth_db \<Rightarrow> 'a) \<Rightarrow> auth_db \<Rightarrow> 'a result" where
  "query_sql flt f db = (case flt of
       NoFault \<Rightarrow> Inr (f db)
     | FailBefore e \<Rightarrow> Inl (Msg e)
     | FailAfter e \<Rightarrow> Inl (Msg e))"

text \<open>\<open>if s == nil || s.db == nil { return ..., errors.New("nil store") }\<close>\<close>

definition with_store :: "store \<Rightarrow> (auth_db \<Rightarrow> 'a result \<times> auth_db) \<Rightarrow> 'a result \<times> store" where
  "with_store s f = (case s of
       None \<Rightarrow> (Inl (Msg ''nil store''), None)
     | Some db \<Rightarrow> (case f db of (r, db') \<Rightarrow> (r, Some db')))"

definition with_store_q :: "store \<Rightarrow> (auth_db \<Rightarrow> 'a result) \<Rightarrow> 'a result" where
  "with_store_q s f = (case s of None \<Rightarrow> Inl (Msg ''nil store'') | Some db \<Rightarrow> f db)"

text \<open>The driver's error texts for a violated constraint.\<close>

definition unique_error :: "string \<Rightarrow> go_error" where
  "unique_error column = Msg (''constraint failed: UNIQUE constraint failed: '' @ column)"

definition foreign_key_error :: go_error where
  "foreign_key_error = Msg ''constraint failed: FOREIGN KEY constraint failed (787)''"

definition table_full_error :: go_error where
  "table_full_error = Msg ''database or disk is full (13)''"

subsection \<open>Tokens (store.go)\<close>

record token =
  tok_id :: int
  tok_label :: string
  tok_prefix :: string
  tok_created :: int
  tok_revoked :: "int option"

definition tokenPrefix :: "string \<Rightarrow> string" where
  "tokenPrefix token =
     (let token = TrimSpace token in
      if token = [] then [] else if length token \<le> 12 then token else take 12 token)"

definition hashToken :: "(string \<Rightarrow> string) \<Rightarrow> string \<Rightarrow> string" where
  "hashToken sha256 token = hex_EncodeToString (sha256 token)"

text \<open>\<open>rnd\<close> is what \<open>rand.Read\<close> put into the 32-byte buffer, or its error.\<close>

definition generateToken :: "string result \<Rightarrow> string result" where
  "generateToken rnd = bind_res rnd (\<lambda>b. Inr (''eos_'' @ ToLower (base32_EncodeToString b)))"

fun isUniqueViolation :: "go_error option \<Rightarrow> bool" where
  "isUniqueViolation None = False"
| "isUniqueViolation (Some (Msg s)) = Contains (ToLower s) ''unique constraint failed''"
| "isUniqueViolation (Some _) = False"

text \<open>The INSERT: the next key of the sequence, unless the hash exists or the keys run out.\<close>

definition sql_insert_token :: "string \<Rightarrow> string \<Rightarrow> string \<Rightarrow> int \<Rightarrow> auth_db \<Rightarrow> int result \<times> auth_db" where
  "sql_insert_token label hash pre createdAt db =
     (if list_ex (\<lambda>r. tr_hash r = hash) (db_tokens db)
      then (Inl (unique_error ''authtokens.token_hash (2067)''), db)
      else if db_token_seq db \<ge> 2 ^ 63 - 1 then (Inl table_full_error, db)
      else
        (let tid = db_token_seq db + 1;
             row = \<lparr>tr_id = tid, tr_label = label, tr_hash = hash, tr_prefix = pre,
                    tr_created = createdAt, tr_revoked = None\<rparr>
         in (Inr tid, db\<lparr>db_tokens := db_tokens db @ [row], db_token_seq := tid\<rparr>)))"

definition insertToken ::
  "(string \<Rightarrow> string) \<Rightarrow> fault \<Rightarrow> int \<Rightarrow> string \<Rightarrow> string \<Rightarrow> auth_db \<Rightarrow> token result \<times> auth_db" where
  "insertToken sha256 flt now token label db =
     (let hash = hashToken sha256 token; pre = tokenPrefix token in
      case exec_sql flt (sql_insert_token (TrimSpace label) hash pre now) db of
        (Inl e, db') \<Rightarrow> (Inl e, db')
      | (Inr tid, db') \<Rightarrow>
          (Inr \<lparr>tok_id = tid, tok_label = TrimSpace label, tok_prefix = pre,
                tok_created = now, tok_revoked = None\<rparr>, db'))"

definition CreateToken ::
  "(string \<Rightarrow> string) \<Rightarrow> fault \<Rightarrow> int \<Rightarrow> string result \<Rightarrow> store \<Rightarrow> string \<Rightarrow> (token \<times> string) result \<times> store" where
  "CreateToken sha256 flt now rnd s label =
     with_store s (\<lambda>db. case generateToken rnd of
         Inl e \<Rightarrow> (Inl e, db)
       | Inr plain \<Rightarrow>
           (case insertToken sha256 flt now plain label db of
              (Inl e, db') \<Rightarrow> (Inl e, db')
            | (Inr rec, db') \<Rightarrow> (Inr (rec, plain), db')))"

definition EnsureToken ::
  "(string \<Rightarrow> string) \<Rightarrow> fault \<Rightarrow> int \<Rightarrow> store \<Rightarrow> string \<Rightarrow> string \<Rightarrow> unit result \<times> store" where
  "EnsureToken sha256 flt now s token label =
     with_store s (\<lambda>db.
       (let token = TrimSpace token in
        if token = [] then (Inl (Msg ''empty token''), db)
        else
          (case insertToken sha256 flt now token label db of
             (Inl e, db') \<Rightarrow> if isUniqueViolation (Some e) then (Inr (), db') else (Inl e, db')
           | (Inr _, db') \<Rightarrow> (Inr (), db'))))"

definition row_token :: "token_row \<Rightarrow> token" where
  "row_token r = \<lparr>tok_id = tr_id r, tok_label = tr_label r, tok_prefix = tr_prefix r,
     tok_created = tr_created r, tok_revoked = tr_revoked r\<rparr>"

definition ListTokens :: "fault \<Rightarrow> store \<Rightarrow> token list result" where
  "ListTokens flt s = with_store_q s
     (query_sql flt (\<lambda>db. map row_token (sort_key tr_id (db_tokens db))))"

definition sql_revoke :: "int \<Rightarrow> int \<Rightarrow> auth_db \<Rightarrow> unit result \<times> auth_db" where
  "sql_revoke now tid db =
     (Inr (), db\<lparr>db_tokens :=
        map (\<lambda>r. if tr_id r = tid \<and> tr_revoked r = None then r\<lparr>tr_revoked := Some now\<rparr> else r)
          (db_tokens db)\<rparr>)"

definition RevokeToken :: "fault \<Rightarrow> int \<Rightarrow> store \<Rightarrow> int \<Rightarrow> unit result \<times> store" where
  "RevokeToken flt now s tid =
     with_store s (\<lambda>db.
       if tid \<le> 0 then (Inl (Msg ''invalid token id''), db)
       else exec_sql flt (sql_revoke now tid) db)"

text \<open>\<open>SELECT ... WHERE token_hash = ? AND revoked_at IS NULL LIMIT 1\<close>\<close>

definition active_row :: "string \<Rightarrow> auth_db \<Rightarrow> token_row option" where
  "active_row hash db = find (\<lambda>r. tr_hash r = hash \<and> tr_revoked r = None) (db_tokens db)"

definition ValidateToken :: "(string \<Rightarrow> string) \<Rightarrow> fault \<Rightarrow> store \<Rightarrow> string \<Rightarrow> bool result" where
  "ValidateToken sha256 flt s token =
     with_store_q s (\<lambda>db.
       (let token = TrimSpace token in
        if token = [] then Inr False
        else query_sql flt (\<lambda>db. active_row (hashToken sha256 token) db \<noteq> None) db))"

definition TokenID :: "(string \<Rightarrow> string) \<Rightarrow> fault \<Rightarrow> store \<Rightarrow> string \<Rightarrow> int option result" where
  "TokenID sha256 flt s token =
     with_store_q s (\<lambda>db.
       (let token = TrimSpace token in
        if token = [] then Inr None
        else query_sql flt (\<lambda>db. map_option tr_id (active_row (hashToken sha256 token) db)) db))"


subsection \<open>Reservations (reservations.go, tcp_ports.go)\<close>

definition subdomain_byte :: "char \<Rightarrow> bool" where
  "subdomain_byte c \<longleftrightarrow> is_lower c \<or> is_digit c \<or> c = CHR ''-''"

definition normalizeSubdomain :: "string \<Rightarrow> string result" where
  "normalizeSubdomain s =
     (let s = ToLower (TrimSpace s) in
      if s = [] then Inl (Msg ''empty subdomain'')
      else if Contains s ''.'' then Inl (Msg ''invalid subdomain'')
      else if length s > 63 then Inl (Msg ''subdomain too long'')
      else if s ! 0 = CHR ''-'' \<or> s ! (length s - 1) = CHR ''-'' then Inl (Msg ''invalid subdomain'')
      else if list_all subdomain_byte s then Inr s
      else Inl (Msg ''invalid subdomain''))"

text \<open>
  The statements on a table whose primary key is the reserved name or port and whose
  \<open>token_id\<close> references a token.
\<close>

definition insert_row ::
  "string \<Rightarrow> token_row list \<Rightarrow> int \<Rightarrow> 'k \<Rightarrow> int \<Rightarrow> 'k reservation list \<Rightarrow> 'k reservation list result" where
  "insert_row column tokens tid k now rows =
     (if list_ex (\<lambda>r. rs_key r = k) rows then Inl (unique_error column)
      else if \<not> list_ex (\<lambda>t. tr_id t = tid) tokens then Inl foreign_key_error
      else Inr (rows @ [\<lparr>rs_key = k, rs_token = tid, rs_created = now\<rparr>]))"

definition delete_row :: "'k \<Rightarrow> 'k reservation list \<Rightarrow> 'k reservation list" where
  "delete_row k rows = filter (\<lambda>r. rs_key r \<noteq> k) rows"

definition select_row :: "'k \<Rightarrow> 'k reservation list \<Rightarrow> int option" where
  "select_row k rows = map_option rs_token (find (\<lambda>r. rs_key r = k) rows)"

text \<open>\<open>JOIN authtokens t ON t.id = r.token_id ... ORDER BY\<close> the key.\<close>

definition joined_rows ::
  "token_row list \<Rightarrow> ('k::linorder) reservation list \<Rightarrow> ('k \<times> int \<times> string \<times> int) list" where
  "joined_rows tokens rows =
     sort_key fst (concat (map (\<lambda>r. map (\<lambda>t. (rs_key r, rs_token r, tr_prefix t, rs_created r))
       (filter (\<lambda>t. tr_id t = rs_token r) tokens)) rows))"

definition sql_insert_subdomain :: "int \<Rightarrow> string \<Rightarrow> int \<Rightarrow> auth_db \<Rightarrow> unit result \<times> auth_db" where
  "sql_insert_subdomain tid k now db =
     (case insert_row ''reserved_subdomains.subdomain (1555)'' (db_tokens db) tid k now (db_subdomains db) of
        Inl e \<Rightarrow> (Inl e, db)
      | Inr rows \<Rightarrow> (Inr (), db\<lparr>db_subdomains := rows\<rparr>))"

definition sql_insert_port :: "int \<Rightarrow> int \<Rightarrow> int \<Rightarrow> auth_db \<Rightarrow> unit result \<times> auth_db" where
  "sql_insert_port tid k now db =
     (case insert_row ''reserved_tcp_ports.port (1555)'' (db_tokens db) tid k now (db_ports db) of
        Inl e \<Rightarrow> (Inl e, db)
      | Inr rows \<Rightarrow> (Inr (), db\<lparr>db_ports := rows\<rparr>))"

definition ReserveSubdomain :: "fault \<Rightarrow> int \<Rightarrow> store \<Rightarrow> int \<Rightarrow> string \<Rightarrow> unit result \<times> store" where
  "ReserveSubdomain flt now s tokenID subdomain =
     with_store s (\<lambda>db.
       if tokenID \<le> 0 then (Inl (Msg ''invalid token id''), db)
       else
         (case normalizeSubdomain subdomain of
            Inl e \<Rightarrow> (Inl e, db)
          | Inr norm \<Rightarrow> exec_sql flt (sql_insert_subdomain tokenID norm now) db))"

definition ListReservedSubdomains :: "fault \<Rightarrow> store \<Rightarrow> (string \<times> int \<times> string \<times> int) list result" where
  "ListReservedSubdomains flt s = with_store_q s
     (query_sql flt (\<lambda>db. joined_rows (db_tokens db) (db_subdomains db)))"

definition UnreserveSubdomain :: "fault \<Rightarrow> store \<Rightarrow> string \<Rightarrow> unit result \<times> store" where
  "UnreserveSubdomain flt s subdomain =
     with_store s (\<lambda>db.
       case normalizeSubdomain subdomain of
         Inl e \<Rightarrow> (Inl e, db)
       | Inr norm \<Rightarrow> exec_sql flt
           (\<lambda>db. (Inr (), db\<lparr>db_subdomains := delete_row norm (db_subdomains db)\<rparr>)) db)"

definition ReservedSubdomainTokenID :: "fault \<Rightarrow> store \<Rightarrow> string \<Rightarrow> int option result" where
  "ReservedSubdomainTokenID flt s subdomain =
     with_store_q s (\<lambda>db.
       case normalizeSubdomain subdomain of
         Inl e \<Rightarrow> Inl e
       | Inr norm \<Rightarrow> query_sql flt (\<lambda>db. select_row norm (db_subdomains db)) db)"

definition valid_port :: "int \<Rightarrow> bool" where
  "valid_port p \<longleftrightarrow> \<not> (p \<le> 0 \<or> p > 65535)"

definition ReserveTCPPort :: "fault \<Rightarrow> int \<Rightarrow> store \<Rightarrow> int \<Rightarrow> int \<Rightarrow> unit result \<times> store" where
  "ReserveTCPPort flt now s tokenID port =
     with_store s (\<lambda>db.
       if tokenID \<le> 0 then (Inl (Msg ''invalid token id''), db)
       else if \<not> valid_port port then (Inl (Msg ''invalid port''), db)
       else exec_sql flt (sql_insert_port tokenID port now) db)"

definition UnreserveTCPPort :: "fault \<Rightarrow> store \<Rightarrow> int \<Rightarrow> unit result \<times> store" where
  "UnreserveTCPPort flt s port =
     with_store s (\<lambda>db.
       if \<not> valid_port port then (Inl (Msg ''invalid port''), db)
       else exec_sql flt (\<lambda>db. (Inr (), db\<lparr>db_ports := delete_row port (db_ports db)\<rparr>)) db)"

definition ListReservedTCPPorts :: "fault \<Rightarrow> store \<Rightarrow> (int \<times> int \<times> string \<times> int) list result" where
  "ListReservedTCPPorts flt s = with_store_q s
     (query_sql flt (\<lambda>db. joined_rows (db_tokens db) (db_ports db)))"

definition ReservedTCPPortTokenID :: "fault \<Rightarrow> store \<Rightarrow> int \<Rightarrow> int option result" where
  "ReservedTCPPortTokenID flt s port =
     with_store_q s (\<lambda>db.
       if \<not> valid_port port then Inl (Msg ''invalid port'')
       else query_sql flt (\<lambda>db. select_row port (db_ports db)) db)"

subsection \<open>Opening the store\<close>

text \<open>
  The tables a database file holds; \<open>None\<close> is a table that does not exist yet. The two
  CREATE INDEX statements change no table. \<open>ensureSchema\<close> stops at the first failing
  statement: \<open>flts\<close> are the outcomes of the six statements.
\<close>

record db_file =
  file_tokens :: "(token_row list \<times> int) option"
  file_subdomains :: "string reservation list option"
  file_ports :: "int reservation list option"

definition create_if_absent :: "'a \<Rightarrow> 'a option \<Rightarrow> 'a option" where
  "create_if_absent x t = (case t of None \<Rightarrow> Some x | Some y \<Rightarrow> Some y)"

definition schema_statements :: "(db_file \<Rightarrow> db_file) list" where
  "schema_statements =
     [file_tokens_update (create_if_absent ([], 0)), (\<lambda>f. f),
      file_subdomains_update (create_if_absent []), (\<lambda>f. f),
      file_ports_update (create_if_absent []), (\<lambda>f. f)]"

fun run_statements :: "(db_file \<Rightarrow> db_file) list \<Rightarrow> fault list \<Rightarrow> db_file \<Rightarrow> unit result \<times> db_file" where
  "run_statements [] flts f = (Inr (), f)"
| "run_statements (st # sts) flts f =
     (case flts of
        FailBefore e # _ \<Rightarrow> (Inl (Msg e), f)
      | FailAfter e # _ \<Rightarrow> (Inl (Msg e), st f)
      | NoFault # flts' \<Rightarrow> run_statements sts flts' (st f)
      | [] \<Rightarrow> run_statements sts [] (st f))"

definition ensureSchema :: "fault list \<Rightarrow> db_file \<Rightarrow> unit result \<times> db_file" where
  "ensureSchema flts f = run_statements schema_statements flts f"

definition pragma_suffix :: string where
  "pragma_suffix = ''_pragma=busy_timeout(5000)&_pragma=journal_mode(WAL)&_pragma=foreign_keys(ON)''"

definition open_dsn :: "string \<Rightarrow> string result" where
  "open_dsn dbPath =
     (let dbPath = TrimSpace dbPath in
      if dbPath = [] then Inl (Msg ''empty db path'')
      else
        (let dsn = (if \<not> HasPrefix dbPath ''file:'' \<and> dbPath \<noteq> '':memory:''
                    then ''file:'' @ dbPath else dbPath);
             dsn = (if Contains dsn ''?'' then dsn @ ''&'' else dsn @ ''?'')
         in Inr (dsn @ pragma_suffix)))"

fun file_db :: "db_file \<Rightarrow> auth_db option" where
  "file_db f = (case (file_tokens f, file_subdomains f, file_ports f) of
       (Some (ts, n), Some subs, Some ports) \<Rightarrow>
         Some \<lparr>db_tokens = ts, db_token_seq = n, db_subdomains = subs, db_ports = ports\<rparr>
     | _ \<Rightarrow> None)"

text \<open>
  \<open>disk\<close> is the file a DSN names; \<open>conn\<close> is the outcome of \<open>sql.Open\<close> and
  of the ping.
\<close>

definition Open :: "unit result \<Rightarrow> fault list \<Rightarrow> (string \<Rightarrow> db_file) \<Rightarrow> string \<Rightarrow> store result" where
  "Open conn flts disk dbPath =
     bind_res (open_dsn dbPath) (\<lambda>dsn. bind_res conn (\<lambda>_.
       (case ensureSchema flts (disk dsn) of
          (Inl e, _) \<Rightarrow> Inl e
        | (Inr _, f) \<Rightarrow> Inr (file_db f))))"


lemmas [eval_simps] =
  empty_db_def exec_sql_def query_sql_def with_store_def with_store_q_def unique_error_def
  foreign_key_error_def table_full_error_def tokenPrefix_def hashToken_def generateToken_def
  sql_insert_token_def insertToken_def CreateToken_def EnsureToken_def row_token_def
  ListTokens_def sql_revoke_def RevokeToken_def active_row_def ValidateToken_def TokenID_def
  subdomain_byte_def normalizeSubdomain_def insert_row_def delete_row_def select_row_def
  joined_rows_def sql_insert_subdomain_def sql_insert_port_def ReserveSubdomain_def
  ListReservedSubdomains_def UnreserveSubdomain_def ReservedSubdomainTokenID_def valid_port_def
  ReserveTCPPort_def UnreserveTCPPort_def ListReservedTCPPorts_def ReservedTCPPortTokenID_def

subsection \<open>Every operation that changes the store\<close>

datatype auth_op =
    OpCreate fault int "string result" string
  | OpEnsure fault int string string
  | OpRevoke fault int int
  | OpReserveSubdomain fault int int string
  | OpUnreserveSubdomain fault string
  | OpReservePort fault int int int
  | OpUnreservePort fault int

fun auth_exec :: "(string \<Rightarrow> string) \<Rightarrow> auth_op \<Rightarrow> store \<Rightarrow> store" where
  "auth_exec sha (OpCreate flt now rnd label) s = snd (CreateToken sha flt now rnd s label)"
| "auth_exec sha (OpEnsure flt now token label) s = snd (EnsureToken sha flt now s token label)"
| "auth_exec sha (OpRevoke flt now tid) s = snd (RevokeToken flt now s tid)"
| "auth_exec sha (OpReserveSubdomain flt now tid sub) s = snd (ReserveSubdomain flt now s tid sub)"
| "auth_exec sha (OpUnreserveSubdomain flt sub) s = snd (UnreserveSubdomain flt s sub)"
| "auth_exec sha (OpReservePort flt now tid port) s = snd (ReserveTCPPort flt now s tid port)"
| "auth_exec sha (OpUnreservePort flt port) s = snd (UnreserveTCPPort flt s port)"

definition auth_run :: "(string \<Rightarrow> string) \<Rightarrow> auth_op list \<Rightarrow> store \<Rightarrow> store" where
  "auth_run sha ops s = fold (auth_exec sha) ops s"

text \<open>
  Each operation is the identity or one statement on the database. The proofs below go through
  this characterisation: an invariant of the statements is an invariant of the operations.
\<close>

datatype db_change =
    InsertToken string string string int
  | Revoke int int
  | InsertSubdomain int string int
  | DeleteSubdomain string
  | InsertPort int int int
  | DeletePort int

fun db_apply :: "db_change \<Rightarrow> auth_db \<Rightarrow> auth_db" where
  "db_apply (InsertToken label hash pre now) db = snd (sql_insert_token label hash pre now db)"
| "db_apply (Revoke now tid) db = snd (sql_revoke now tid db)"
| "db_apply (InsertSubdomain tid k now) db = snd (sql_insert_subdomain tid k now db)"
| "db_apply (DeleteSubdomain k) db = db\<lparr>db_subdomains := delete_row k (db_subdomains db)\<rparr>"
| "db_apply (InsertPort tid k now) db = snd (sql_insert_port tid k now db)"
| "db_apply (DeletePort k) db = db\<lparr>db_ports := delete_row k (db_ports db)\<rparr>"

text \<open>The changes an operation may make.\<close>

fun op_changes :: "(string \<Rightarrow> string) \<Rightarrow> auth_op \<Rightarrow> db_change set" where
  "op_changes sha (OpCreate flt now rnd label) =
     {c. \<exists>b. rnd = Inr b \<and> c = (let plain = ''eos_'' @ ToLower (base32_EncodeToString b) in
        InsertToken (TrimSpace label) (hashToken sha plain) (tokenPrefix plain) now)}"
| "op_changes sha (OpEnsure flt now token label) =
     {InsertToken (TrimSpace label) (hashToken sha (TrimSpace token)) (tokenPrefix (TrimSpace token)) now}"
| "op_changes sha (OpRevoke flt now tid) = {Revoke now tid}"
| "op_changes sha (OpReserveSubdomain flt now tid sub) =
     {c. \<exists>norm. normalizeSubdomain sub = Inr norm \<and> c = InsertSubdomain tid norm now}"
| "op_changes sha (OpUnreserveSubdomain flt sub) =
     {c. \<exists>norm. normalizeSubdomain sub = Inr norm \<and> c = DeleteSubdomain norm}"
| "op_changes sha (OpReservePort flt now tid port) = {c. valid_port port \<and> c = InsertPort tid port now}"
| "op_changes sha (OpUnreservePort flt port) = {DeletePort port}"

lemma snd_exec_sql: "snd (exec_sql flt f db) = (case flt of FailBefore e \<Rightarrow> db | _ \<Rightarrow> snd (f db))"
  by (cases flt) (simp_all add: exec_sql_def)

lemma exec_sql_cases: "snd (exec_sql flt f db) = db \<or> snd (exec_sql flt f db) = snd (f db)"
  by (cases flt) (simp_all add: exec_sql_def)

lemma snd_insertToken:
  "snd (insertToken sha flt now token label db) =
     snd (exec_sql flt (sql_insert_token (TrimSpace label) (hashToken sha token) (tokenPrefix token) now) db)"
  by (simp add: insertToken_def Let_def split: prod.splits sum.splits)

lemma snd_with_store_Some: "snd (with_store (Some db) f) = Some (snd (f db))"
  by (simp add: with_store_def split: prod.splits)

lemma snd_with_store_None [simp]: "snd (with_store None f) = None"
  by (simp add: with_store_def)

lemma auth_exec_None [simp]: "auth_exec sha op None = None"
  by (cases op) (simp_all add: CreateToken_def EnsureToken_def RevokeToken_def ReserveSubdomain_def
      UnreserveSubdomain_def ReserveTCPPort_def UnreserveTCPPort_def)

lemma create_changes:
  "\<exists>db'. snd (CreateToken sha flt now rnd (Some db) label) = Some db' \<and>
     (db' = db \<or> (\<exists>c \<in> op_changes sha (OpCreate flt now rnd label). db' = db_apply c db))"
proof (cases rnd)
  case (Inl e)
  then show ?thesis by (simp add: CreateToken_def snd_with_store_Some generateToken_def)
next
  case (Inr b)
  let ?plain = "''eos_'' @ ToLower (base32_EncodeToString b)"
  have "snd (CreateToken sha flt now rnd (Some db) label)
      = Some (snd (insertToken sha flt now ?plain label db))"
    using Inr by (simp add: CreateToken_def snd_with_store_Some generateToken_def split: prod.splits sum.splits)
  then show ?thesis
    using Inr exec_sql_cases [of flt "sql_insert_token (TrimSpace label) (hashToken sha ?plain) (tokenPrefix ?plain) now" db]
    unfolding snd_insertToken by (auto simp: Let_def)
qed

lemma ensure_changes:
  "\<exists>db'. snd (EnsureToken sha flt now (Some db) token label) = Some db' \<and>
     (db' = db \<or> (\<exists>c \<in> op_changes sha (OpEnsure flt now token label). db' = db_apply c db))"
proof (cases "TrimSpace token = []")
  case True
  then show ?thesis by (simp add: EnsureToken_def snd_with_store_Some)
next
  case False
  then have "snd (EnsureToken sha flt now (Some db) token label)
      = Some (snd (insertToken sha flt now (TrimSpace token) label db))"
    by (simp add: EnsureToken_def snd_with_store_Some Let_def split: prod.splits sum.splits)
  then show ?thesis
    using exec_sql_cases [of flt "sql_insert_token (TrimSpace label) (hashToken sha (TrimSpace token))
        (tokenPrefix (TrimSpace token)) now" db]
    unfolding snd_insertToken by auto
qed

lemma auth_exec_changes:
  "\<exists>db'. auth_exec sha op (Some db) = Some db' \<and>
     (db' = db \<or> (\<exists>c \<in> op_changes sha op. db' = db_apply c db))"
proof (cases op)
  case (OpCreate flt now rnd label)
  then show ?thesis using create_changes by simp
next
  case (OpEnsure flt now token label)
  then show ?thesis using ensure_changes [of sha flt now db token label] by simp
next
  case (OpRevoke flt now tid)
  then show ?thesis using exec_sql_cases [of flt "sql_revoke now tid" db]
    by (auto simp: RevokeToken_def snd_with_store_Some)
next
  case (OpReserveSubdomain flt now tid sub)
  then show ?thesis
    using exec_sql_cases [of flt "sql_insert_subdomain tid (projr (normalizeSubdomain sub)) now" db]
    by (cases "normalizeSubdomain sub") (auto simp: ReserveSubdomain_def snd_with_store_Some)
next
  case (OpUnreserveSubdomain flt sub)
  then show ?thesis
    by (cases "normalizeSubdomain sub"; cases flt)
      (auto simp: UnreserveSubdomain_def snd_with_store_Some exec_sql_def)
next
  case (OpReservePort flt now tid port)
  then show ?thesis using exec_sql_cases [of flt "sql_insert_port tid port now" db]
    by (auto simp: ReserveTCPPort_def snd_with_store_Some)
next
  case (OpUnreservePort flt port)
  then show ?thesis
    by (cases flt) (auto simp: UnreserveTCPPort_def snd_with_store_Some exec_sql_def)
qed

text \<open>Induction over runs: what every change of the run's operations keeps, the run keeps.\<close>

lemma auth_run_invariant:
  assumes "P db" and "\<And>op c db. op \<in> set ops \<Longrightarrow> c \<in> op_changes sha op \<Longrightarrow> P db \<Longrightarrow> P (db_apply c db)"
  shows "\<exists>db'. auth_run sha ops (Some db) = Some db' \<and> P db'"
  using assms
proof (induction ops arbitrary: db)
  case Nil
  then show ?case by (simp add: auth_run_def)
next
  case (Cons op ops)
  obtain db' where step: "auth_exec sha op (Some db) = Some db'"
    "db' = db \<or> (\<exists>c \<in> op_changes sha op. db' = db_apply c db)"
    using auth_exec_changes by blast
  then have "P db'" using Cons.prems(1) Cons.prems(2) [of op] by auto
  then have "\<exists>db''. auth_run sha ops (Some db') = Some db'' \<and> P db''"
    by (rule Cons.IH) (rule Cons.prems(2), simp_all)
  with step(1) show ?case by (simp add: auth_run_def)
qed


subsection \<open>The invariant of the database\<close>

definition table_inv :: "token_row list \<Rightarrow> 'k reservation list \<Rightarrow> bool" where
  "table_inv tokens rows \<longleftrightarrow>
     distinct (map rs_key rows) \<and> (\<forall>r \<in> set rows. rs_token r \<in> tr_id ` set tokens)"

definition tokens_inv :: "token_row list \<Rightarrow> int \<Rightarrow> bool" where
  "tokens_inv rows n \<longleftrightarrow>
     distinct (map tr_id rows) \<and> distinct (map tr_hash rows)
     \<and> (\<forall>i \<in> tr_id ` set rows. 0 < i \<and> i \<le> n) \<and> 0 \<le> n \<and> int64_range n"

definition valid_label :: "string \<Rightarrow> bool" where
  "valid_label s \<longleftrightarrow> s \<noteq> [] \<and> length s \<le> 63 \<and> hd s \<noteq> CHR ''-'' \<and> last s \<noteq> CHR ''-''
     \<and> list_all subdomain_byte s"

definition auth_inv :: "auth_db \<Rightarrow> bool" where
  "auth_inv db \<longleftrightarrow> tokens_inv (db_tokens db) (db_token_seq db)
     \<and> table_inv (db_tokens db) (db_subdomains db) \<and> table_inv (db_tokens db) (db_ports db)
     \<and> (\<forall>r \<in> set (db_subdomains db). valid_label (rs_key r))
     \<and> (\<forall>r \<in> set (db_ports db). valid_port (rs_key r))"

lemma auth_inv_empty: "auth_inv empty_db"
  by (simp add: auth_inv_def empty_db_def tokens_inv_def table_inv_def int64_range_def)

lemma table_inv_more_tokens:
  "table_inv tokens rows \<Longrightarrow> tr_id ` set tokens \<subseteq> tr_id ` set tokens' \<Longrightarrow> table_inv tokens' rows"
  unfolding table_inv_def by blast

lemma insert_row_Inr:
  "insert_row col tokens tid k now rows = Inr rows' \<longleftrightarrow>
     k \<notin> rs_key ` set rows \<and> tid \<in> tr_id ` set tokens
     \<and> rows @ [\<lparr>rs_key = k, rs_token = tid, rs_created = now\<rparr>] = rows'"
  unfolding insert_row_def if_Inl_eq_Inr sum.inject by (auto simp: list_ex_iff image_iff)

lemma insert_row_inv:
  "insert_row col tokens tid k now rows = Inr rows' \<Longrightarrow> table_inv tokens rows \<Longrightarrow> table_inv tokens rows'"
  by (auto simp: insert_row_Inr table_inv_def)

lemma delete_row_inv: "table_inv tokens rows \<Longrightarrow> table_inv tokens (delete_row k rows)"
  by (auto simp: table_inv_def delete_row_def distinct_map_filter_other)

lemma set_delete_row: "set (delete_row k rows) \<subseteq> set rows"
  by (auto simp: delete_row_def)

lemma sql_insert_subdomain_db:
  "snd (sql_insert_subdomain tid k now db) = db \<or>
   (\<exists>rows. insert_row ''reserved_subdomains.subdomain (1555)'' (db_tokens db) tid k now (db_subdomains db) = Inr rows
      \<and> snd (sql_insert_subdomain tid k now db) = db\<lparr>db_subdomains := rows\<rparr>)"
  by (auto simp: sql_insert_subdomain_def split: sum.splits)

lemma sql_insert_port_db:
  "snd (sql_insert_port tid k now db) = db \<or>
   (\<exists>rows. insert_row ''reserved_tcp_ports.port (1555)'' (db_tokens db) tid k now (db_ports db) = Inr rows
      \<and> snd (sql_insert_port tid k now db) = db\<lparr>db_ports := rows\<rparr>)"
  by (auto simp: sql_insert_port_def split: sum.splits)

lemma sql_insert_token_db:
  "snd (sql_insert_token label hash pre now db) = db \<or>
   (hash \<notin> tr_hash ` set (db_tokens db) \<and> db_token_seq db < 2 ^ 63 - 1 \<and>
    snd (sql_insert_token label hash pre now db) =
      db\<lparr>db_tokens := db_tokens db @ [\<lparr>tr_id = db_token_seq db + 1, tr_label = label, tr_hash = hash,
           tr_prefix = pre, tr_created = now, tr_revoked = None\<rparr>],
         db_token_seq := db_token_seq db + 1\<rparr>)"
  by (auto simp: sql_insert_token_def Let_def list_ex_iff image_iff)

text \<open>Revoking keeps every column but \<open>revoked_at\<close>.\<close>

lemma revoke_columns [simp]:
  "map tr_id (db_tokens (snd (sql_revoke now tid db))) = map tr_id (db_tokens db)"
  "map tr_hash (db_tokens (snd (sql_revoke now tid db))) = map tr_hash (db_tokens db)"
  by (auto simp: sql_revoke_def)

lemma revoke_ids: "tr_id ` set (db_tokens (snd (sql_revoke now tid db))) = tr_id ` set (db_tokens db)"
  using revoke_columns(1) [of now tid db] by (metis list.set_map)

lemma revoke_other_fields [simp]:
  "db_token_seq (snd (sql_revoke now tid db)) = db_token_seq db"
  "db_subdomains (snd (sql_revoke now tid db)) = db_subdomains db"
  "db_ports (snd (sql_revoke now tid db)) = db_ports db"
  by (simp_all add: sql_revoke_def)

definition change_ok :: "db_change \<Rightarrow> bool" where
  "change_ok c = (case c of InsertSubdomain _ k _ \<Rightarrow> valid_label k | InsertPort _ k _ \<Rightarrow> valid_port k | _ \<Rightarrow> True)"

lemma tokens_inv_insert:
  assumes "tokens_inv rows n" and "tr_hash r \<notin> tr_hash ` set rows" and "n < 9223372036854775807"
    and "tr_id r = n + 1"
  shows "tokens_inv (rows @ [r]) (n + 1)"
proof -
  have "\<forall>x \<in> set rows. tr_id x < n + 1 \<and> tr_id x \<le> n + 1 \<and> 0 < tr_id x"
    using assms(1) unfolding tokens_inv_def by fastforce
  then have "n + 1 \<notin> tr_id ` set rows" by fastforce
  with \<open>\<forall>x \<in> set rows. _\<close> assms show ?thesis
    by (auto simp: tokens_inv_def int64_range_def)
qed

lemma db_apply_inv:
  assumes "auth_inv db" and "change_ok c"
  shows "auth_inv (db_apply c db)"
proof (cases c)
  case (InsertToken label hash pre now)
  let ?row = "\<lparr>tr_id = db_token_seq db + 1, tr_label = label, tr_hash = hash,
    tr_prefix = pre, tr_created = now, tr_revoked = None\<rparr>"
  have "hash \<notin> tr_hash ` set (db_tokens db) \<Longrightarrow> db_token_seq db < 9223372036854775807 \<Longrightarrow>
      tokens_inv (db_tokens db @ [?row]) (db_token_seq db + 1)"
    using tokens_inv_insert [of "db_tokens db" "db_token_seq db" ?row] assms(1)
    unfolding auth_inv_def by simp
  moreover have "table_inv (db_tokens db @ [?row]) (db_subdomains db)"
    "table_inv (db_tokens db @ [?row]) (db_ports db)"
    using assms(1) by (auto simp: auth_inv_def table_inv_def)
  ultimately have "snd (sql_insert_token label hash pre now db) \<noteq> db \<Longrightarrow>
      auth_inv (snd (sql_insert_token label hash pre now db))"
    using assms(1) sql_insert_token_db [of label hash pre now db] by (simp add: auth_inv_def)
  then show ?thesis
    using assms(1) InsertToken by (cases "snd (sql_insert_token label hash pre now db) = db") simp_all
next
  case (Revoke now tid)
  show ?thesis
    using assms(1) unfolding Revoke db_apply.simps auth_inv_def tokens_inv_def table_inv_def
      revoke_columns revoke_other_fields revoke_ids .
next
  case (InsertSubdomain tid k now)
  then show ?thesis
    using assms sql_insert_subdomain_db [of tid k now db]
    by (auto simp: auth_inv_def change_ok_def insert_row_inv) (auto simp: insert_row_Inr)
next
  case (InsertPort tid k now)
  then show ?thesis
    using assms sql_insert_port_db [of tid k now db]
    by (auto simp: auth_inv_def change_ok_def insert_row_inv) (auto simp: insert_row_Inr)
qed (use assms(1) set_delete_row in \<open>fastforce simp: auth_inv_def delete_row_inv\<close>)+

lemma normalizeSubdomain_Inr:
  "normalizeSubdomain s = Inr t \<longleftrightarrow> valid_label (ToLower (TrimSpace s)) \<and> ToLower (TrimSpace s) = t"
proof -
  let ?t = "ToLower (TrimSpace s)"
  have "CHR ''.'' \<in> set ?t \<Longrightarrow> \<not> list_all subdomain_byte ?t"
    unfolding list_all_iff by (rule notI) (drule (1) bspec, simp add: eval_simps)
  moreover have "?t \<noteq> [] \<Longrightarrow> ?t ! 0 = hd ?t \<and> ?t ! (length ?t - 1) = last ?t"
    by (simp add: hd_conv_nth last_conv_nth)
  ultimately show ?thesis
    unfolding normalizeSubdomain_def Let_def if_Inl_eq_Inr valid_label_def Contains_char
    by (cases "?t = []") (auto simp: not_less)
qed

lemma subdomain_byte_lower: "subdomain_byte c \<Longrightarrow> \<not> is_upper c \<and> graphic c"
  by (auto simp: subdomain_byte_def is_upper_def is_lower_def is_digit_def graphic_def)

lemma valid_label_normal: "valid_label s \<Longrightarrow> ToLower (TrimSpace s) = s"
  by (simp add: valid_label_def list_all_iff TrimSpace_graphic ToLower_fixed subdomain_byte_lower)

lemma op_changes_ok: "c \<in> op_changes sha op \<Longrightarrow> change_ok c"
  by (cases op) (auto simp: change_ok_def normalizeSubdomain_Inr valid_label_normal Let_def)


lemma op_changes_inv: "c \<in> op_changes sha op \<Longrightarrow> auth_inv db \<Longrightarrow> auth_inv (db_apply c db)"
  by (rule db_apply_inv) (simp_all add: op_changes_ok)

subsection \<open>Exclusive reservations\<close>

text \<open>
  What a reservation table promises its clients: a reserved key belongs to one token until it is
  released, whatever else is reserved or released meanwhile, and a reservation by anyone else
  fails. \<open>norm\<close> is the key an argument names.
\<close>

datatype 'a table_op = Reserve fault int int 'a | Release fault 'a

locale reservation_table =
  fixes owner :: "store \<Rightarrow> 'k \<Rightarrow> int option"
    and reserve :: "fault \<Rightarrow> int \<Rightarrow> store \<Rightarrow> int \<Rightarrow> 'a \<Rightarrow> unit result \<times> store"
    and release :: "fault \<Rightarrow> store \<Rightarrow> 'a \<Rightarrow> unit result \<times> store"
    and norm :: "'a \<Rightarrow> 'k option"
  assumes reserve_keeps: "owner s k = Some t \<Longrightarrow> owner (snd (reserve flt now s t' a)) k = Some t"
    and reserve_new: "fst (reserve flt now s t a) = Inr () \<Longrightarrow>
      \<exists>k. norm a = Some k \<and> owner s k = None \<and> owner (snd (reserve flt now s t a)) k = Some t"
    and release_other: "norm a \<noteq> Some k \<Longrightarrow> owner (snd (release flt s a)) k = owner s k"
    and release_ok: "fst (release flt s a) = Inr () \<Longrightarrow>
      \<exists>k. norm a = Some k \<and> owner (snd (release flt s a)) k = None"
begin

fun apply_op :: "'a table_op \<Rightarrow> store \<Rightarrow> store" where
  "apply_op (Reserve flt now t a) s = snd (reserve flt now s t a)"
| "apply_op (Release flt a) s = snd (release flt s a)"

fun releases :: "'k \<Rightarrow> 'a table_op \<Rightarrow> bool" where
  "releases k (Reserve flt now t a) = False"
| "releases k (Release flt a) = (norm a = Some k)"

lemma owner_stable:
  "owner s k = Some t \<Longrightarrow> (\<And>op. op \<in> set ops \<Longrightarrow> \<not> releases k op) \<Longrightarrow>
   owner (fold apply_op ops s) k = Some t"
proof (induction ops arbitrary: s)
  case Nil
  then show ?case by simp
next
  case (Cons op ops)
  from Cons.prems(1) Cons.prems(2) [of op] have "owner (apply_op op s) k = Some t"
    by (cases op) (auto simp: reserve_keeps release_other)
  with Cons show ?case by simp
qed

lemma no_second_owner:
  assumes "owner s k = Some t" and "norm a = Some k"
  shows "fst (reserve flt now s t' a) \<noteq> Inr ()"
  using reserve_new [of flt now s t' a] assms by auto

lemma reserved_until_released:
  assumes "fst (reserve flt now s t a) = Inr ()" and "norm a = Some k"
    and "\<And>op. op \<in> set ops \<Longrightarrow> \<not> releases k op"
    and "norm a' = Some k"
  defines "s' \<equiv> fold apply_op ops (snd (reserve flt now s t a))"
  shows "owner s' k = Some t \<and> fst (reserve flt' now' s' t' a') \<noteq> Inr ()"
  unfolding s'_def
  using owner_stable [OF _ assms(3)] reserve_new [OF assms(1)] assms(2,4) no_second_owner
  by force

end

definition subdomain_owner :: "store \<Rightarrow> string \<Rightarrow> int option" where
  "subdomain_owner s k = (case s of None \<Rightarrow> None | Some db \<Rightarrow> select_row k (db_subdomains db))"

definition port_owner :: "store \<Rightarrow> int \<Rightarrow> int option" where
  "port_owner s k = (case s of None \<Rightarrow> None | Some db \<Rightarrow> select_row k (db_ports db))"

definition subdomain_key :: "string \<Rightarrow> string option" where
  "subdomain_key s = (case normalizeSubdomain s of Inl _ \<Rightarrow> None | Inr k \<Rightarrow> Some k)"

definition port_key :: "int \<Rightarrow> int option" where
  "port_key p = (if valid_port p then Some p else None)"

lemma find_append: "find P (xs @ ys) = (case find P xs of None \<Rightarrow> find P ys | Some x \<Rightarrow> Some x)"
  by (induction xs) auto

lemma find_filter: "find P (filter Q xs) = find (\<lambda>x. P x \<and> Q x) xs"
  by (induction xs) auto

lemma select_append:
  "select_row k (rows @ [r]) =
     (case select_row k rows of Some t \<Rightarrow> Some t | None \<Rightarrow> if rs_key r = k then Some (rs_token r) else None)"
  by (simp add: select_row_def find_append split: option.splits)

lemma select_delete: "select_row k' (delete_row k rows) = (if k = k' then None else select_row k' rows)"
proof (cases "k = k'")
  case True
  then show ?thesis by (simp add: select_row_def delete_row_def find_filter find_None_iff)
next
  case False
  then have "find (\<lambda>r. rs_key r = k' \<and> rs_key r \<noteq> k) rows = find (\<lambda>r. rs_key r = k') rows"
    by (intro arg_cong [of _ _ "\<lambda>P. find P rows"]) auto
  with False show ?thesis by (simp add: select_row_def delete_row_def find_filter)
qed

lemma select_None: "select_row k rows = None \<longleftrightarrow> k \<notin> rs_key ` set rows"
  by (auto simp: select_row_def find_None_iff)

lemma insert_row_select:
  "insert_row col tokens tid k now rows = Inr rows' \<Longrightarrow>
     select_row k rows = None \<and> select_row k' rows' = (if k' = k then Some tid else select_row k' rows)"
  by (auto simp: insert_row_Inr select_append select_None split: option.splits)
    (auto simp: select_None [symmetric])

lemmas table_simps = with_store_def exec_sql_def subdomain_owner_def port_owner_def
  subdomain_key_def port_key_def

interpretation subdomains: reservation_table subdomain_owner ReserveSubdomain UnreserveSubdomain subdomain_key
proof (unfold_locales, goal_cases)
  case (1 s k t flt now t' a)
  then show ?case
    by (cases flt) (auto simp: table_simps ReserveSubdomain_def sql_insert_subdomain_def insert_row_select
        split: option.splits sum.splits if_splits)
next
  case (2 flt now s t a)
  then show ?case
    by (cases flt) (auto simp: table_simps ReserveSubdomain_def sql_insert_subdomain_def insert_row_select
        split: option.splits sum.splits if_splits)
next
  case (3 a k flt s)
  then show ?case
    by (cases flt) (auto simp: table_simps UnreserveSubdomain_def select_delete
        split: option.splits sum.splits if_splits)
next
  case (4 flt s a)
  then show ?case
    by (cases flt) (auto simp: table_simps UnreserveSubdomain_def select_delete
        split: option.splits sum.splits if_splits)
qed

interpretation ports: reservation_table port_owner ReserveTCPPort UnreserveTCPPort port_key
proof (unfold_locales, goal_cases)
  case (1 s k t flt now t' a)
  then show ?case
    by (cases flt) (auto simp: table_simps ReserveTCPPort_def sql_insert_port_def insert_row_select
        split: option.splits sum.splits if_splits)
next
  case (2 flt now s t a)
  then show ?case
    by (cases flt) (auto simp: table_simps ReserveTCPPort_def sql_insert_port_def insert_row_select
        split: option.splits sum.splits if_splits)
next
  case (3 a k flt s)
  then show ?case
    by (cases flt) (auto simp: table_simps UnreserveTCPPort_def select_delete
        split: option.splits sum.splits if_splits)
next
  case (4 flt s a)
  then show ?case
    by (cases flt) (auto simp: table_simps UnreserveTCPPort_def select_delete
        split: option.splits sum.splits if_splits)
qed


subsection \<open>Tokens over time\<close>

text \<open>A hash is revoked when its row is: the row stays, so the hash never becomes active again.\<close>

definition hash_revoked :: "string \<Rightarrow> auth_db \<Rightarrow> bool" where
  "hash_revoked h db \<longleftrightarrow> (\<exists>r \<in> set (db_tokens db). tr_hash r = h \<and> tr_revoked r \<noteq> None)"

definition hash_active :: "string \<Rightarrow> int \<Rightarrow> auth_db \<Rightarrow> bool" where
  "hash_active h i db \<longleftrightarrow>
     (\<exists>r \<in> set (db_tokens db). tr_hash r = h \<and> tr_id r = i \<and> tr_revoked r = None)"

lemma active_row_None: "active_row h db = None \<longleftrightarrow> (\<forall>r \<in> set (db_tokens db). tr_hash r = h \<longrightarrow> tr_revoked r \<noteq> None)"
  by (auto simp: active_row_def find_None_iff)

lemma active_row_Some: "active_row h db = Some r \<Longrightarrow> r \<in> set (db_tokens db) \<and> tr_hash r = h \<and> tr_revoked r = None"
  by (auto simp: active_row_def find_Some_iff)

lemma same_hash_row:
  "auth_inv db \<Longrightarrow> r \<in> set (db_tokens db) \<Longrightarrow> r' \<in> set (db_tokens db) \<Longrightarrow> tr_hash r = tr_hash r' \<Longrightarrow> r = r'"
  by (auto simp: auth_inv_def tokens_inv_def distinct_map inj_on_def)

lemma same_id_row:
  "auth_inv db \<Longrightarrow> r \<in> set (db_tokens db) \<Longrightarrow> r' \<in> set (db_tokens db) \<Longrightarrow> tr_id r = tr_id r' \<Longrightarrow> r = r'"
  by (auto simp: auth_inv_def tokens_inv_def distinct_map inj_on_def)

lemma revoked_not_active: "auth_inv db \<Longrightarrow> hash_revoked h db \<Longrightarrow> active_row h db = None"
  unfolding hash_revoked_def active_row_None by (metis same_hash_row)

lemma active_row_id: "auth_inv db \<Longrightarrow> hash_active h i db \<Longrightarrow> map_option tr_id (active_row h db) = Some i"
  unfolding hash_active_def
  by (cases "active_row h db") (auto simp: active_row_None dest!: active_row_Some dest: same_hash_row)

lemma db_apply_revoked: "hash_revoked h db \<Longrightarrow> hash_revoked h (db_apply c db)"
proof (cases c)
  case (InsertToken label hash pre now)
  then show "hash_revoked h db \<Longrightarrow> ?thesis"
    using sql_insert_token_db [of label hash pre now db] by (auto simp: hash_revoked_def)
next
  case (Revoke now tid)
  then show "hash_revoked h db \<Longrightarrow> ?thesis"
    by (auto simp: hash_revoked_def sql_revoke_def)
next
  case (InsertSubdomain tid k now)
  then show "hash_revoked h db \<Longrightarrow> ?thesis"
    using sql_insert_subdomain_db [of tid k now db] by (auto simp: hash_revoked_def)
next
  case (InsertPort tid k now)
  then show "hash_revoked h db \<Longrightarrow> ?thesis"
    using sql_insert_port_db [of tid k now db] by (auto simp: hash_revoked_def)
qed (auto simp: hash_revoked_def)

fun revokes :: "int \<Rightarrow> db_change \<Rightarrow> bool" where
  "revokes i (Revoke now tid) = (tid = i)"
| "revokes i _ = False"

lemma db_apply_active:
  assumes "hash_active h i db" and "\<not> revokes i c"
  shows "hash_active h i (db_apply c db)"
proof (cases c)
  case (InsertToken label hash pre now)
  then show ?thesis
    using assms(1) sql_insert_token_db [of label hash pre now db] by (auto simp: hash_active_def)
next
  case (Revoke now tid)
  then show ?thesis
    using assms by (force simp: hash_active_def sql_revoke_def)
next
  case (InsertSubdomain tid k now)
  then show ?thesis
    using assms(1) sql_insert_subdomain_db [of tid k now db] by (auto simp: hash_active_def)
next
  case (InsertPort tid k now)
  then show ?thesis
    using assms(1) sql_insert_port_db [of tid k now db] by (auto simp: hash_active_def)
qed (use assms in \<open>auto simp: hash_active_def\<close>)

lemma base32_byte_graphic: "base32_byte c \<Longrightarrow> graphic c"
  by (auto simp: base32_byte_def graphic_def is_upper_def)

lemma base32_lower_graphic: "c \<in> set (ToLower (base32_EncodeToString b)) \<Longrightarrow> graphic c"
  by (auto simp: ToLower_def base32_byte_graphic dest!: base32_bytes)

lemma TrimSpace_generated: "TrimSpace (''eos_'' @ ToLower (base32_EncodeToString b)) = ''eos_'' @ ToLower (base32_EncodeToString b)"
  by (rule TrimSpace_graphic) (use base32_lower_graphic in \<open>auto simp: graphic_def\<close>)

lemma generateToken_Inr:
  "generateToken rnd = Inr plain \<longleftrightarrow> (\<exists>b. rnd = Inr b \<and> plain = ''eos_'' @ ToLower (base32_EncodeToString b))"
  by (auto simp: generateToken_def result_simps)

lemma insertToken_Inr:
  assumes "insertToken sha flt now token label db = (Inr rec, db')"
  shows "hash_active (hashToken sha token) (tok_id rec) db' \<and> tok_prefix rec = tokenPrefix token
    \<and> (\<forall>r \<in> set (db_tokens db). tr_hash r \<noteq> hashToken sha token) \<and> db_token_seq db < tok_id rec"
  using assms
  by (auto simp: insertToken_def Let_def exec_sql_def sql_insert_token_def hash_active_def list_ex_iff
      split: prod.splits sum.splits fault.splits if_splits)

lemma TokenID_active:
  "auth_inv db \<Longrightarrow> hash_active (hashToken sha (TrimSpace token)) i db \<Longrightarrow> TrimSpace token \<noteq> [] \<Longrightarrow>
     TokenID sha NoFault (Some db) token = Inr (Some i)"
  by (simp add: TokenID_def with_store_q_def query_sql_def active_row_id Let_def)

lemma ValidateToken_TokenID:
  "ValidateToken sha flt s token = Inr b \<longleftrightarrow>
     (\<exists>r. TokenID sha flt s token = Inr r \<and> b = (r \<noteq> None))"
  by (cases s; cases flt)
    (auto simp: ValidateToken_def TokenID_def with_store_q_def query_sql_def Let_def)


text \<open>A successful creation and a successful revocation, in terms of the rows.\<close>

lemma created_token_active:
  assumes "auth_inv db" and "CreateToken sha flt now rnd (Some db) label = (Inr (rec, plain), s')"
  shows "\<exists>b db'. rnd = Inr b \<and> plain = ''eos_'' @ ToLower (base32_EncodeToString b) \<and> s' = Some db'
    \<and> auth_inv db' \<and> hash_active (hashToken sha plain) (tok_id rec) db'
    \<and> tok_prefix rec = tokenPrefix plain \<and> db_token_seq db < tok_id rec"
proof -
  let ?h = "hashToken sha plain"
  obtain b where plain: "rnd = Inr b" "plain = ''eos_'' @ ToLower (base32_EncodeToString b)"
    using assms(2) generateToken_Inr [of rnd plain]
    by (auto simp: CreateToken_def with_store_def split: prod.splits sum.splits)
  obtain db' where ins: "insertToken sha flt now plain label db = (Inr rec, db')" and s': "s' = Some db'"
    using assms(2) by (auto simp: CreateToken_def with_store_def split: prod.splits sum.splits)
  have "auth_inv db'"
    using snd_insertToken [of sha flt now plain label db] ins assms(1)
      exec_sql_cases [of flt "sql_insert_token (TrimSpace label) ?h (tokenPrefix plain) now" db]
      db_apply_inv [OF assms(1), of "InsertToken (TrimSpace label) ?h (tokenPrefix plain) now"]
    by (auto simp: change_ok_def)
  with plain s' insertToken_Inr [OF ins] show ?thesis by blast
qed

lemma revoke_active:
  assumes "auth_inv db" and "hash_active h i db" and "RevokeToken flt now (Some db) i = (Inr (), s')"
  shows "\<exists>db'. s' = Some db' \<and> auth_inv db' \<and> hash_revoked h db'"
proof -
  obtain r where r: "r \<in> set (db_tokens db)" "tr_hash r = h" "tr_id r = i" "tr_revoked r = None"
    using assms(2) by (auto simp: hash_active_def)
  let ?db = "snd (sql_revoke now i db)"
  have s': "s' = Some ?db"
    using assms(3) by (auto simp: RevokeToken_def with_store_def exec_sql_def split: if_splits prod.splits fault.splits)
  have "r\<lparr>tr_revoked := Some now\<rparr> \<in> set (db_tokens ?db)"
    using r by (force simp: sql_revoke_def)
  then have "hash_revoked h ?db"
    unfolding hash_revoked_def by (rule bexI [rotated]) (simp add: r(2))
  moreover have "auth_inv ?db"
    using db_apply_inv [OF assms(1), of "Revoke now i"] by (simp add: change_ok_def)
  ultimately show ?thesis using s' by blast
qed

lemma TokenID_revoked:
  "auth_inv db \<Longrightarrow> hash_revoked (hashToken sha (TrimSpace token)) db \<Longrightarrow>
     TokenID sha NoFault (Some db) token = Inr None"
  by (simp add: TokenID_def with_store_q_def query_sql_def revoked_not_active Let_def)

fun unreserves_subdomain :: "string \<Rightarrow> auth_op \<Rightarrow> bool" where
  "unreserves_subdomain k (OpUnreserveSubdomain flt sub) = (normalizeSubdomain sub = Inr k)"
| "unreserves_subdomain k _ = False"

fun unreserves_port :: "int \<Rightarrow> auth_op \<Rightarrow> bool" where
  "unreserves_port k (OpUnreservePort flt port) = (port = k)"
| "unreserves_port k _ = False"

fun touches_tokens :: "db_change \<Rightarrow> bool" where
  "touches_tokens (InsertToken label hash pre now) = True"
| "touches_tokens (Revoke now tid) = True"
| "touches_tokens _ = False"

lemma token_changes_keep_tables:
  "touches_tokens c \<Longrightarrow> db_subdomains (db_apply c db) = db_subdomains db \<and> db_ports (db_apply c db) = db_ports db"
  by (cases c) (auto simp: sql_insert_token_def sql_revoke_def Let_def)

lemma port_ops_keep_subdomains:
  "db_subdomains (db_apply (InsertPort tid k now) db) = db_subdomains db"
  "db_subdomains (db_apply (DeletePort k) db) = db_subdomains db"
  by (auto simp: sql_insert_port_def split: sum.splits)

lemma subdomain_ops_keep_ports:
  "db_ports (db_apply (InsertSubdomain tid l now) db) = db_ports db"
  "db_ports (db_apply (DeleteSubdomain l) db) = db_ports db"
  by (auto simp: sql_insert_subdomain_def split: sum.splits)

fun on_subdomains :: "auth_op \<Rightarrow> bool" where
  "on_subdomains (OpReserveSubdomain flt now tid sub) = True"
| "on_subdomains (OpUnreserveSubdomain flt sub) = True"
| "on_subdomains _ = False"

fun on_ports :: "auth_op \<Rightarrow> bool" where
  "on_ports (OpReservePort flt now tid port) = True"
| "on_ports (OpUnreservePort flt port) = True"
| "on_ports _ = False"

lemma auth_exec_same_subdomains:
  assumes "\<not> on_subdomains op"
  shows "subdomain_owner (auth_exec sha op (Some db)) k = subdomain_owner (Some db) k"
proof -
  have "c \<in> op_changes sha op \<Longrightarrow> db_subdomains (db_apply c db) = db_subdomains db" for c
    using assms by (cases op)
      (auto simp: token_changes_keep_tables port_ops_keep_subdomains Let_def simp del: db_apply.simps)
  then show ?thesis using auth_exec_changes [of sha op db] by (auto simp: subdomain_owner_def)
qed

lemma auth_exec_same_ports:
  assumes "\<not> on_ports op"
  shows "port_owner (auth_exec sha op (Some db)) k = port_owner (Some db) k"
proof -
  have "c \<in> op_changes sha op \<Longrightarrow> db_ports (db_apply c db) = db_ports db" for c
    using assms by (cases op)
      (auto simp: token_changes_keep_tables subdomain_ops_keep_ports Let_def simp del: db_apply.simps)
  then show ?thesis using auth_exec_changes [of sha op db] by (auto simp: port_owner_def)
qed

lemma auth_exec_subdomain_owner:
  assumes "subdomain_owner s k = Some t" and "\<not> unreserves_subdomain k op"
  shows "subdomain_owner (auth_exec sha op s) k = Some t"
proof -
  obtain db where s: "s = Some db" using assms(1) by (cases s) (auto simp: subdomain_owner_def)
  show ?thesis
  proof (cases op)
    case (OpReserveSubdomain flt now tid sub)
    then show ?thesis using subdomains.reserve_keeps [OF assms(1)] by simp
  next
    case (OpUnreserveSubdomain flt sub)
    with assms(2) have "subdomain_key sub \<noteq> Some k"
      by (auto simp: subdomain_key_def split: sum.splits)
    from subdomains.release_other [OF this] OpUnreserveSubdomain assms(1) show ?thesis by simp
  qed (use assms(1) s auth_exec_same_subdomains [of op sha db k] in simp_all)
qed

lemma auth_exec_port_owner:
  assumes "port_owner s k = Some t" and "\<not> unreserves_port k op"
  shows "port_owner (auth_exec sha op s) k = Some t"
proof -
  obtain db where s: "s = Some db" using assms(1) by (cases s) (auto simp: port_owner_def)
  show ?thesis
  proof (cases op)
    case (OpReservePort flt now tid port)
    then show ?thesis using ports.reserve_keeps [OF assms(1)] by simp
  next
    case (OpUnreservePort flt port)
    with assms(2) have "port_key port \<noteq> Some k" by (auto simp: port_key_def)
    from ports.release_other [OF this] OpUnreservePort assms(1) show ?thesis by simp
  qed (use assms(1) s auth_exec_same_ports [of op sha db k] in simp_all)
qed

lemma auth_run_subdomain_owner:
  "subdomain_owner s k = Some t \<Longrightarrow> \<forall>op \<in> set ops. \<not> unreserves_subdomain k op \<Longrightarrow>
     subdomain_owner (auth_run sha ops s) k = Some t"
  unfolding auth_run_def by (induction ops arbitrary: s) (auto simp: auth_exec_subdomain_owner)

lemma auth_run_port_owner:
  "port_owner s k = Some t \<Longrightarrow> \<forall>op \<in> set ops. \<not> unreserves_port k op \<Longrightarrow>
     port_owner (auth_run sha ops s) k = Some t"
  unfolding auth_run_def by (induction ops arbitrary: s) (auto simp: auth_exec_port_owner)


subsection \<open>Properties\<close>

text \<open>C1: whatever sequence of operations runs on a new database, with whatever statement
  failures, the tables stay well formed: ids and hashes are unique and ids lie between 1 and the
  sequence number, each subdomain and each port is reserved once, by a token that exists, every
  reserved name is a DNS label and every reserved port a port number.\<close>

theorem auth_run_inv: "\<exists>db. auth_run sha ops (Some empty_db) = Some db \<and> auth_inv db"
  by (rule auth_run_invariant) (simp_all add: auth_inv_empty op_changes_inv)

text \<open>a subdomain belongs to the token that reserved it until it is unreserved. After a
  successful reservation, and after any further operations that do not unreserve that name, the
  store names that token as the owner and every reservation of a spelling of the name fails.\<close>

theorem subdomain_exclusive:
  assumes "ReserveSubdomain flt now s t sub = (Inr (), s')" and "normalizeSubdomain sub = Inr k"
    and "\<forall>op \<in> set ops. \<not> unreserves_subdomain k op" and "normalizeSubdomain sub' = Inr k"
  shows "ReservedSubdomainTokenID NoFault (auth_run sha ops s') sub' = Inr (Some t)
    \<and> (\<exists>e. fst (ReserveSubdomain flt' now' (auth_run sha ops s') t' sub') = Inl e)"
proof -
  let ?s = "auth_run sha ops s'"
  have "subdomain_owner s' k = Some t"
    using subdomains.reserve_new [of flt now s t sub] assms(1,2)
    by (auto simp: subdomain_key_def)
  then have own: "subdomain_owner ?s k = Some t"
    using auth_run_subdomain_owner assms(3) by blast
  then have "fst (ReserveSubdomain flt' now' ?s t' sub') \<noteq> Inr ()"
    using subdomains.no_second_owner assms(4) by (simp add: subdomain_key_def)
  then have "\<exists>e. fst (ReserveSubdomain flt' now' ?s t' sub') = Inl e"
    by (cases "fst (ReserveSubdomain flt' now' ?s t' sub')") auto
  with own assms(4) show ?thesis
    by (auto simp: ReservedSubdomainTokenID_def subdomain_owner_def with_store_q_def query_sql_def
        split: option.splits)
qed

definition demo_db :: auth_db where
  "demo_db = empty_db\<lparr>db_tokens := [\<lparr>tr_id = 1, tr_label = ''ci'', tr_hash = ''6162'', tr_prefix = ''eos_ab'',
     tr_created = 5, tr_revoked = None\<rparr>], db_token_seq := 1\<rparr>"

theorem subdomain_exclusive_witness:
  "ReservedSubdomainTokenID NoFault
     (auth_run (\<lambda>s. s) [OpRevoke NoFault 9 1, OpUnreserveSubdomain NoFault ''other'']
       (snd (ReserveSubdomain NoFault 7 (Some demo_db) 1 '' My-App ''))) ''MY-APP'' = Inr (Some 1)"
proof -
  have "ReserveSubdomain NoFault 7 (Some demo_db) 1 '' My-App ''
      = (Inr (), snd (ReserveSubdomain NoFault 7 (Some demo_db) 1 '' My-App ''))"
    "normalizeSubdomain '' My-App '' = Inr ''my-app''" "normalizeSubdomain ''MY-APP'' = Inr ''my-app''"
    "normalizeSubdomain ''other'' = Inr ''other''"
    by (simp_all add: eval_simps demo_db_def)
  from subdomain_exclusive [OF this(1,2) _ this(3), of "[OpRevoke NoFault 9 1, OpUnreserveSubdomain NoFault ''other'']"] this(4)
  show ?thesis by simp
qed

text \<open>a TCP port belongs to the token that reserved it until it is unreserved, with the same
  meaning.\<close>

theorem port_exclusive:
  assumes "ReserveTCPPort flt now s t port = (Inr (), s')" and "\<forall>op \<in> set ops. \<not> unreserves_port port op"
  shows "ReservedTCPPortTokenID NoFault (auth_run sha ops s') port = Inr (Some t)
    \<and> (\<exists>e. fst (ReserveTCPPort flt' now' (auth_run sha ops s') t' port) = Inl e)"
proof -
  let ?s = "auth_run sha ops s'"
  have port: "valid_port port" "port_owner s' port = Some t"
    using ports.reserve_new [of flt now s t port] assms(1)
    by (auto simp: port_key_def split: if_splits)
  then have own: "port_owner ?s port = Some t"
    using auth_run_port_owner assms(2) by blast
  then have "fst (ReserveTCPPort flt' now' ?s t' port) \<noteq> Inr ()"
    using ports.no_second_owner port by (simp add: port_key_def)
  then have "\<exists>e. fst (ReserveTCPPort flt' now' ?s t' port) = Inl e"
    by (cases "fst (ReserveTCPPort flt' now' ?s t' port)") auto
  with own port show ?thesis
    by (auto simp: ReservedTCPPortTokenID_def port_owner_def with_store_q_def query_sql_def
        split: option.splits)
qed

theorem port_exclusive_witness:
  "ReservedTCPPortTokenID NoFault (auth_run (\<lambda>s. s) [OpRevoke NoFault 9 1]
     (snd (ReserveTCPPort NoFault 7 (Some demo_db) 1 20005))) 20005 = Inr (Some 1)"
proof -
  have "ReserveTCPPort NoFault 7 (Some demo_db) 1 20005
      = (Inr (), snd (ReserveTCPPort NoFault 7 (Some demo_db) 1 20005))"
    by (simp add: eval_simps demo_db_def)
  from port_exclusive [OF this, of "[OpRevoke NoFault 9 1]"] show ?thesis by simp
qed


text \<open>C12: a revoked token stays revoked. After the token with the id of an authtoken was revoked,
  no later sequence of operations (creating tokens, ensuring the same token again, reserving)
  makes the authtoken valid or resolvable again.\<close>

theorem revoked_for_ever:
  assumes "auth_inv db" and "TokenID sha NoFault (Some db) token = Inr (Some i)"
    and "RevokeToken NoFault now (Some db) i = (Inr (), s')"
  shows "TokenID sha NoFault (auth_run sha ops s') token = Inr None
    \<and> ValidateToken sha flt (auth_run sha ops s') token \<noteq> Inr True"
proof -
  let ?h = "hashToken sha (TrimSpace token)"
  have ne: "TrimSpace token \<noteq> []" and act: "map_option tr_id (active_row ?h db) = Some i"
    using assms(2) by (auto simp: TokenID_def with_store_q_def query_sql_def Let_def split: if_splits)
  then have "hash_active ?h i db" by (auto simp: hash_active_def dest: active_row_Some)
  then obtain db1 where s': "s' = Some db1" "auth_inv db1" "hash_revoked ?h db1"
    using revoke_active [OF assms(1) _ assms(3)] by blast
  then obtain db' where db': "auth_run sha ops s' = Some db'" "auth_inv db'" "hash_revoked ?h db'"
    using auth_run_invariant [of "\<lambda>d. auth_inv d \<and> hash_revoked ?h d" db1 ops sha]
      op_changes_inv db_apply_revoked by blast
  have "ValidateToken sha flt (Some db') token \<noteq> Inr True"
    using db' ne
    by (cases flt) (auto simp: ValidateToken_def with_store_q_def query_sql_def revoked_not_active Let_def)
  then show ?thesis using db' TokenID_revoked by simp
qed

theorem revoked_for_ever_witness:
  "TokenID (\<lambda>s. s) NoFault
     (auth_run (\<lambda>s. s) [OpEnsure NoFault 9 ''ab'' ''again'']
       (snd (RevokeToken NoFault 8 (Some demo_db) 1))) ''ab'' = Inr None"
proof -
  have "auth_inv demo_db"
    by (simp add: auth_inv_def demo_db_def empty_db_def tokens_inv_def table_inv_def int64_range_def)
  moreover have "TokenID (\<lambda>s. s) NoFault (Some demo_db) ''ab'' = Inr (Some 1)"
    "RevokeToken NoFault 8 (Some demo_db) 1 = (Inr (), snd (RevokeToken NoFault 8 (Some demo_db) 1))"
    by (simp_all add: eval_simps demo_db_def)
  ultimately show ?thesis
    using revoked_for_ever [of demo_db "\<lambda>s. s" "''ab''" 1 8 _ "[OpEnsure NoFault 9 ''ab'' ''again'']"] by blast
qed

text \<open>a created token works until it is revoked. The plaintext \<open>CreateToken\<close> returns is
  \<open>eos_\<close> and the base-32 text of the random bytes, it is shown by its first twelve bytes only,
  and after any operations that do not revoke the new id it resolves to that id and validates.\<close>

theorem created_token_valid:
  assumes "auth_inv db" and "CreateToken sha flt now (Inr b) (Some db) label = (Inr (rec, plain), s')"
    and "\<forall>op \<in> set ops. \<forall>flt' now'. op \<noteq> OpRevoke flt' now' (tok_id rec)"
  shows "plain = ''eos_'' @ ToLower (base32_EncodeToString b)
    \<and> (length b = 32 \<longrightarrow> length plain = 56 \<and> tok_prefix rec = take 12 plain)
    \<and> (\<forall>r \<in> set (db_tokens db). tr_id r \<noteq> tok_id rec)
    \<and> TokenID sha NoFault (auth_run sha ops s') plain = Inr (Some (tok_id rec))
    \<and> ValidateToken sha NoFault (auth_run sha ops s') plain = Inr True"
proof -
  let ?h = "hashToken sha plain"
  obtain db' where plain: "plain = ''eos_'' @ ToLower (base32_EncodeToString b)" and s': "s' = Some db'"
    and "auth_inv db'" and new: "hash_active ?h (tok_id rec) db'" "tok_prefix rec = tokenPrefix plain"
      "db_token_seq db < tok_id rec"
    using created_token_active [OF assms(1,2)] by auto
  then have trim: "TrimSpace plain = plain" by (simp only: TrimSpace_generated)
  have keep: "auth_inv (db_apply c d) \<and> hash_active ?h (tok_id rec) (db_apply c d)"
    if "op \<in> set ops" "c \<in> op_changes sha op" "auth_inv d \<and> hash_active ?h (tok_id rec) d" for op c d
  proof -
    have "op \<noteq> OpRevoke flt' now' (tok_id rec)" for flt' now' using that(1) assms(3) by blast
    then have "\<not> revokes (tok_id rec) c" using that(2) by (cases op) (auto simp: Let_def)
    then show ?thesis using that db_apply_active op_changes_inv by blast
  qed
  obtain d where d: "auth_run sha ops s' = Some d" "auth_inv d" "hash_active ?h (tok_id rec) d"
    using auth_run_invariant [of "\<lambda>d. auth_inv d \<and> hash_active ?h (tok_id rec) d" db' ops sha]
      \<open>auth_inv db'\<close> new s' keep by blast
  then have tid: "TokenID sha NoFault (Some d) plain = Inr (Some (tok_id rec))"
    using TokenID_active [of d sha plain] trim plain by simp
  moreover have "\<forall>r \<in> set (db_tokens db). tr_id r \<noteq> tok_id rec"
    using assms(1) new by (fastforce simp: auth_inv_def tokens_inv_def)
  moreover have "length b = 32 \<longrightarrow> length plain = 56 \<and> tok_prefix rec = take 12 plain"
    using new trim plain by (simp add: length_base32 tokenPrefix_def Let_def)
  moreover have "ValidateToken sha NoFault (Some d) plain = Inr True"
    using tid by (simp add: ValidateToken_TokenID)
  ultimately show ?thesis using plain d(1) by simp
qed

theorem created_token_valid_witness:
  "TokenID (\<lambda>s. s) NoFault
     (auth_run (\<lambda>s. s) [OpRevoke NoFault 9 1]
       (snd (CreateToken (\<lambda>s. s) NoFault 7 (Inr ''xyzzy'') (Some demo_db) '' box ''))) ''eos_pb4xu6tz''
     = Inr (Some 2)"
proof -
  have "auth_inv demo_db"
    by (simp add: auth_inv_def demo_db_def empty_db_def tokens_inv_def table_inv_def int64_range_def)
  moreover have "CreateToken (\<lambda>s. s) NoFault 7 (Inr ''xyzzy'') (Some demo_db) '' box ''
      = (Inr (\<lparr>tok_id = 2, tok_label = ''box'', tok_prefix = ''eos_pb4xu6tz'', tok_created = 7,
            tok_revoked = None\<rparr>, ''eos_pb4xu6tz''),
         snd (CreateToken (\<lambda>s. s) NoFault 7 (Inr ''xyzzy'') (Some demo_db) '' box ''))"
    by (simp add: eval_simps demo_db_def)
  ultimately show ?thesis
    using created_token_valid [of demo_db "\<lambda>s. s" NoFault 7 "''xyzzy''" "'' box ''" _ "''eos_pb4xu6tz''" _
        "[OpRevoke NoFault 9 1]"] by fastforce
qed

text \<open>subdomain normalisation accepts exactly the DNS labels. A spelling is accepted when,
  trimmed and in lower case, it is 1 to 63 letters, digits and hyphens without a hyphen at either
  end; the result is that text, and normalising it again changes nothing.\<close>

theorem normalizeSubdomain_exact:
  "(\<exists>t. normalizeSubdomain s = Inr t) = valid_label (ToLower (TrimSpace s))
   \<and> (\<forall>t. normalizeSubdomain s = Inr t \<longrightarrow> t = ToLower (TrimSpace s) \<and> normalizeSubdomain t = Inr t)"
  by (auto simp: normalizeSubdomain_Inr valid_label_normal)

theorem normalizeSubdomain_exact_witness:
  "normalizeSubdomain ''my-app'' = Inr ''my-app'' \<and> normalizeSubdomain ''-x'' = Inl (Msg ''invalid subdomain'')"
proof -
  have "normalizeSubdomain '' My-App'' = Inr ''my-app''" by (simp add: eval_simps)
  with normalizeSubdomain_exact [of "'' My-App''"] have "normalizeSubdomain ''my-app'' = Inr ''my-app''"
    by blast
  then show ?thesis by (simp add: eval_simps)
qed

text \<open>the prefix column, which the listings show, is the whole token when the token has at
  most twelve bytes: a short bootstrap token is stored and listed in clear.\<close>

theorem short_token_in_clear:
  assumes "EnsureToken sha NoFault now (Some db) token label = (Inr (), Some db')"
    and "length (TrimSpace token) \<le> 12"
    and "hashToken sha (TrimSpace token) \<notin> tr_hash ` set (db_tokens db)"
  shows "\<exists>toks. ListTokens NoFault (Some db') = Inr toks \<and> (\<exists>t \<in> set toks. tok_prefix t = TrimSpace token)"
proof -
  have ne: "TrimSpace token \<noteq> []"
    using assms(1) by (auto simp: EnsureToken_def with_store_def Let_def split: if_splits)
  have full: "\<not> isUniqueViolation (Some table_full_error)"
    by (simp add: eval_simps)
  have fresh: "\<not> list_ex (\<lambda>r. tr_hash r = hashToken sha (TrimSpace token)) (db_tokens db)"
    using assms(3) unfolding list_ex_iff by (metis imageI)
  have "tokenPrefix (TrimSpace token) = TrimSpace token"
    using assms(2) by (simp add: tokenPrefix_def Let_def)
  moreover have "\<exists>r \<in> set (db_tokens db'). tr_prefix r = tokenPrefix (TrimSpace token)"
    using assms(1) ne fresh full
    by (cases "db_token_seq db \<ge> 2 ^ 63 - 1")
      (auto simp: EnsureToken_def with_store_def Let_def insertToken_def exec_sql_def
        sql_insert_token_def simp del: isUniqueViolation.simps)
  ultimately have "\<exists>r \<in> set (db_tokens db'). tr_prefix r = TrimSpace token" by simp
  then show ?thesis
    by (force simp: ListTokens_def with_store_q_def query_sql_def row_token_def)
qed


theorem short_token_in_clear_witness:
  "\<exists>toks. ListTokens NoFault (snd (EnsureToken (\<lambda>s. s) NoFault 3 (Some empty_db) ''hunter2'' ''boot'')) = Inr toks
     \<and> (\<exists>t \<in> set toks. tok_prefix t = ''hunter2'')"
proof -
  let ?db = "\<lparr>db_tokens = [\<lparr>tr_id = 1, tr_label = ''boot'', tr_hash = ''68756e74657232'',
      tr_prefix = ''hunter2'', tr_created = 3, tr_revoked = None\<rparr>], db_token_seq = 1,
      db_subdomains = [], db_ports = []\<rparr>"
  have run: "EnsureToken (\<lambda>s. s) NoFault 3 (Some empty_db) ''hunter2'' ''boot'' = (Inr (), Some ?db)"
    by (simp add: eval_simps)
  have trim: "TrimSpace ''hunter2'' = ''hunter2''" by (simp add: eval_simps)
  have "hashToken (\<lambda>s. s) (TrimSpace ''hunter2'') \<notin> tr_hash ` set (db_tokens empty_db)"
    by (simp add: empty_db_def)
  from short_token_in_clear [OF run _ this] run trim show ?thesis by simp
qed

end
