(* ===== verification/Netip.thy ===== *)
theory Netip
  imports GoStrconv "HOL-Library.Word"
begin

text \<open>
  The part of \<open>net/netip\<close> the program uses: addresses and prefixes, their text forms,
  and membership. An address is an IPv4 word or an IPv6 word with a zone (empty for none).
  Every prefix the program builds has a number of bits within its family's width: the
  predicate \<open>valid_prefix\<close> records it.
\<close>

datatype addr = V4 "32 word" | V6 "128 word" string

datatype ipprefix = Prefix addr nat

fun BitLen :: "addr \<Rightarrow> nat" where
  "BitLen (V4 _) = 32"
| "BitLen (V6 _ _) = 128"

fun Is4 :: "addr \<Rightarrow> bool" where
  "Is4 (V4 _) = True"
| "Is4 (V6 _ _) = False"

fun has_zone :: "addr \<Rightarrow> bool" where
  "has_zone (V4 _) = False"
| "has_zone (V6 _ z) = (z \<noteq> [])"

fun without_zone :: "addr \<Rightarrow> addr" where
  "without_zone (V4 w) = V4 w"
| "without_zone (V6 w z) = V6 w []"

text \<open>IPv4-mapped IPv6 addresses, \<open>::ffff:a.b.c.d\<close>.\<close>

fun Is4In6 :: "addr \<Rightarrow> bool" where
  "Is4In6 (V4 _) = False"
| "Is4In6 (V6 w _) = (drop_bit 32 w = 0xFFFF)"

fun Unmap :: "addr \<Rightarrow> addr" where
  "Unmap (V4 w) = V4 w"
| "Unmap (V6 w z) = (if drop_bit 32 w = 0xFFFF then V4 (ucast w) else V6 w z)"

lemma Unmap_idem [simp]: "Unmap (Unmap a) = Unmap a"
  by (cases a) auto

lemma Unmap_not_mapped [simp]: "\<not> Is4In6 (Unmap a)"
  by (cases a) auto

definition PrefixFrom :: "addr \<Rightarrow> nat \<Rightarrow> ipprefix" where
  "PrefixFrom a b = Prefix (without_zone a) b"

fun valid_prefix :: "ipprefix \<Rightarrow> bool" where
  "valid_prefix (Prefix a b) = (b \<le> BitLen a \<and> \<not> has_zone a)"

definition high_bits :: "nat \<Rightarrow> 'a::len word \<Rightarrow> 'a word" where
  "high_bits n w = push_bit (LENGTH('a) - n) (drop_bit (LENGTH('a) - n) w)"

fun Masked :: "ipprefix \<Rightarrow> ipprefix" where
  "Masked (Prefix (V4 w) b) = Prefix (V4 (high_bits b w)) b"
| "Masked (Prefix (V6 w z) b) = Prefix (V6 (high_bits b w) []) b"

fun prefix_Contains :: "ipprefix \<Rightarrow> addr \<Rightarrow> bool" where
  "prefix_Contains (Prefix (V4 w) b) (V4 v) = (drop_bit (32 - b) w = drop_bit (32 - b) v)"
| "prefix_Contains (Prefix (V6 w z) b) (V6 v y) =
     (y = [] \<and> drop_bit (128 - b) w = drop_bit (128 - b) v)"
| "prefix_Contains _ _ = False"

lemma drop_bit_high_bits:
  fixes w :: "'a::len word"
  shows "drop_bit (LENGTH('a) - n) (high_bits n w) = drop_bit (LENGTH('a) - n) w"
proof (rule bit_word_eqI)
  fix i
  assume "i < LENGTH('a)"
  then show "bit (drop_bit (LENGTH('a) - n) (high_bits n w)) i = bit (drop_bit (LENGTH('a) - n) w) i"
    by (auto simp: high_bits_def bit_simps dest: bit_imp_le_length)
qed

theorem Masked_Contains: "prefix_Contains (Masked p) a = prefix_Contains p a"
proof (cases p)
  case (Prefix b n)
  then show ?thesis
    by (cases a; cases b)
      (simp_all add: drop_bit_high_bits [where 'a = 32, simplified]
        drop_bit_high_bits [where 'a = 128, simplified])
qed

lemma Masked_idem [simp]: "Masked (Masked p) = Masked p"
  by (cases p rule: Masked.cases)
    (simp_all add: high_bits_def [of _ "high_bits _ _"]
      drop_bit_high_bits [where 'a = 32, simplified] drop_bit_high_bits [where 'a = 128, simplified],
      simp_all add: high_bits_def)

lemma valid_Masked [simp]: "valid_prefix p \<Longrightarrow> valid_prefix (Masked p)"
  by (cases p rule: Masked.cases) auto

text \<open>A prefix over all the bits of a family contains its own address only.\<close>

lemma Contains_full:
  "\<not> has_zone a \<Longrightarrow> prefix_Contains (PrefixFrom a (BitLen a)) b \<longleftrightarrow> b = a"
  by (cases a; cases b) (auto simp: PrefixFrom_def)

text \<open>No prefix of one family contains an address of the other.\<close>

lemma Contains_family: "prefix_Contains (Prefix a n) b \<Longrightarrow> Is4 a = Is4 b"
  by (cases a; cases b) auto

subsection \<open>Text forms\<close>

definition v4_octet :: "string \<Rightarrow> nat option" where
  "v4_octet s =
     (if s = [] \<or> \<not> list_all is_digit s \<or> (length s > 1 \<and> hd s = CHR ''0'') \<or> dec_val s > 255
      then None else Some (dec_val s))"

definition v4_fields :: "string \<Rightarrow> (nat \<times> nat \<times> nat \<times> nat) option" where
  "v4_fields s = (case map v4_octet (Split_char CHR ''.'' s) of
       [Some a, Some b, Some c, Some d] \<Rightarrow> Some (a, b, c, d)
     | _ \<Rightarrow> None)"

definition parseIPv4 :: "string \<Rightarrow> addr option" where
  "parseIPv4 s = map_option
     (\<lambda>(a, b, c, d). V4 (word_of_nat (((a * 256 + b) * 256 + c) * 256 + d))) (v4_fields s)"

definition is_hex :: "char \<Rightarrow> bool" where
  "is_hex c \<longleftrightarrow> hex_val c \<noteq> None"

definition hex16 :: "string \<Rightarrow> nat" where
  "hex16 s = foldl (\<lambda>a c. 16 * a + the (hex_val c)) 0 s"

text \<open>
  The end of \<open>parseIPv6\<close>: all eight groups without an ellipsis, or fewer with one, which
  is expanded to at least one zero group.
\<close>

definition v6_finish :: "nat list \<Rightarrow> nat option \<Rightarrow> nat list option" where
  "v6_finish gs ell =
     (if length gs < 8
      then (case ell of
              None \<Rightarrow> None
            | Some e \<Rightarrow> Some (take e gs @ replicate (8 - length gs) 0 @ drop e gs))
      else if ell \<noteq> None then None else Some gs)"

text \<open>
  The loop of \<open>parseIPv6\<close>: hexadecimal groups followed by colons, with at most one
  ellipsis (its position) and an IPv4 address in the place of the last two groups. One
  iteration either ends the parse or goes on with a shorter text.
\<close>

datatype v6_next = V6Done "nat list option" | V6More "nat list" "nat option" string

definition v6_after_colon :: "nat list \<Rightarrow> nat option \<Rightarrow> string \<Rightarrow> v6_next" where
  "v6_after_colon gs ell s = (case s of
       [] \<Rightarrow> V6Done None
     | d # s' \<Rightarrow>
         if d \<noteq> CHR '':'' then V6More gs ell s
         else if ell \<noteq> None then V6Done None
         else if s' = [] then V6Done (v6_finish gs (Some (length gs)))
         else V6More gs (Some (length gs)) s')"

definition v6_step :: "nat list \<Rightarrow> nat option \<Rightarrow> string \<Rightarrow> v6_next" where
  "v6_step gs ell s =
     (let hex = takeWhile is_hex s; rest = dropWhile is_hex s; gs' = gs @ [hex16 hex] in
      if length gs \<ge> 8 then V6Done (if s = [] then v6_finish gs ell else None)
      else if hex = [] \<or> length hex > 4 then V6Done None
      else if rest = [] then V6Done (v6_finish gs' ell)
      else if hd rest = CHR ''.'' then
        V6Done (if (ell = None \<and> length gs \<noteq> 6) \<or> length gs > 6 then None
          else (case v4_fields s of
                  None \<Rightarrow> None
                | Some (a, b, c, d) \<Rightarrow> v6_finish (gs @ [a * 256 + b, c * 256 + d]) ell))
      else if hd rest \<noteq> CHR '':'' then V6Done None
      else v6_after_colon gs' ell (tl rest))"

lemma v6_after_colon_shorter:
  "v6_after_colon gs ell s = V6More gs' ell' s' \<Longrightarrow> length s' \<le> length s"
  by (auto simp: v6_after_colon_def split: list.splits if_splits)

lemma v6_step_shorter:
  assumes "v6_step gs ell s = V6More gs' ell' s'"
  shows "length s' < length s"
proof -
  let ?rest = "dropWhile is_hex s"
  have "v6_after_colon (gs @ [hex16 (takeWhile is_hex s)]) ell (tl ?rest) = V6More gs' ell' s'"
    and ne: "?rest \<noteq> []"
    using assms by (auto simp: v6_step_def Let_def split: if_splits)
  then have "length s' \<le> length (tl ?rest)" by (blast dest: v6_after_colon_shorter)
  also have "\<dots> < length ?rest" using ne by simp
  also have "\<dots> \<le> length s" by (rule length_dropWhile_le)
  finally show ?thesis .
qed

function v6_loop :: "nat list \<Rightarrow> nat option \<Rightarrow> string \<Rightarrow> nat list option" where
  "v6_loop gs ell s = (case v6_step gs ell s of
       V6Done r \<Rightarrow> r
     | V6More gs' ell' s' \<Rightarrow> v6_loop gs' ell' s')"
  by pat_completeness auto
termination
  by (relation "measure (\<lambda>(gs, ell, s). length s)") (auto dest: v6_step_shorter)

declare v6_loop.simps [simp del]

definition v6_word :: "nat list \<Rightarrow> 128 word" where
  "v6_word gs = word_of_nat (foldl (\<lambda>a g. a * 65536 + g) 0 gs)"

definition parseIPv6 :: "string \<Rightarrow> addr option" where
  "parseIPv6 s = (case Cut s ''%'' of (t, zone, found) \<Rightarrow>
     if found \<and> zone = [] then None
     else if HasPrefix t ''::'' then
       (if length t = 2 then Some (V6 0 zone)
        else map_option (\<lambda>gs. V6 (v6_word gs) zone) (v6_loop [] (Some 0) (drop 2 t)))
     else map_option (\<lambda>gs. V6 (v6_word gs) zone) (v6_loop [] None t))"

text \<open>The first of the three bytes \<open>.\<close>, \<open>:\<close>, \<open>%\<close> decides the family.\<close>

definition ParseAddr :: "string \<Rightarrow> addr option" where
  "ParseAddr s = (case dropWhile (\<lambda>c. c \<notin> set [CHR ''.'', CHR '':'', CHR ''%'']) s of
       [] \<Rightarrow> None
     | c # _ \<Rightarrow> if c = CHR ''.'' then parseIPv4 s
                else if c = CHR '':'' then parseIPv6 s else None)"

definition ParsePrefix :: "string \<Rightarrow> ipprefix option" where
  "ParsePrefix s = (case Cut (rev s) ''/'' of (b, a, found) \<Rightarrow>
     if \<not> found then None
     else (case ParseAddr (rev a) of
         None \<Rightarrow> None
       | Some ip \<Rightarrow>
           (let bits = rev b in
            if has_zone ip then None
            else if length bits > 1 \<and> \<not> (is_digit (hd bits) \<and> hd bits \<noteq> CHR ''0'') then None
            else (case Atoi bits of
                None \<Rightarrow> None
              | Some n \<Rightarrow> if n < 0 \<or> n > int (BitLen ip) then None
                          else Some (PrefixFrom ip (nat n))))))"

lemma BitLen_without_zone [simp]: "BitLen (without_zone a) = BitLen a"
  by (cases a) auto

lemma has_zone_without_zone [simp]: "\<not> has_zone (without_zone a)"
  by (cases a) auto

lemma valid_ParsePrefix: "ParsePrefix s = Some p \<Longrightarrow> valid_prefix p"
  by (auto simp: ParsePrefix_def PrefixFrom_def Let_def split: prod.splits option.splits if_splits)

lemmas [eval_simps] =
  PrefixFrom_def high_bits_def v4_octet_def v4_fields_def parseIPv4_def is_hex_def hex16_def
  v6_finish_def v6_after_colon_def v6_step_def v6_loop.simps v6_word_def parseIPv6_def
  ParseAddr_def ParsePrefix_def

end
