(* ===== verification/Registry.thy ===== *)
theory Registry
  imports Auth Netip
begin

text \<open>
  \<open>internal/server/registry.go\<close>: the table of live HTTP tunnels and the allocation of
  random tunnel ids. Go's map is a partial function; a session is the number of a control
  connection and \<open>None\<close> is Go's nil session. Every operation holds the mutex for its
  whole effect, except \<open>AllocateID\<close>, which takes the lock once per attempt: attempt
  \<open>i\<close> sees the table \<open>tables i\<close>.
\<close>

record credential =
  cred_username :: string
  cred_password :: string

record header_add =
  ha_name :: string
  ha_value :: string

record http_tunnel_options =
  opt_basic_auth :: "credential option"
  opt_allow_cidrs :: "ipprefix list"
  opt_deny_cidrs :: "ipprefix list"
  opt_allow_methods :: "string list"
  opt_allow_paths :: "string list"
  opt_allow_path_prefixes :: "string list"
  opt_request_header_add :: "header_add list"
  opt_request_header_remove :: "string list"
  opt_response_header_add :: "header_add list"
  opt_response_header_remove :: "string list"

record http_tunnel_entry =
  ent_session :: nat
  ent_basic_auth :: "credential option"
  ent_allow_cidrs :: "ipprefix list"
  ent_deny_cidrs :: "ipprefix list"
  ent_allow_methods :: "string list"
  ent_allow_paths :: "string list"
  ent_allow_path_prefixes :: "string list"
  ent_request_header_add :: "header_add list"
  ent_request_header_remove :: "string list"
  ent_response_header_add :: "header_add list"
  ent_response_header_remove :: "string list"

type_synonym registry = "string \<rightharpoonup> http_tunnel_entry"

definition NewTunnelRegistry :: registry where
  "NewTunnelRegistry = (\<lambda>_. None)"

definition registry_key :: "string \<Rightarrow> string" where
  "registry_key i = TrimSpace (ToLower i)"

definition make_entry :: "nat \<Rightarrow> http_tunnel_options \<Rightarrow> http_tunnel_entry" where
  "make_entry session opts =
     \<lparr>ent_session = session, ent_basic_auth = opt_basic_auth opts,
      ent_allow_cidrs = opt_allow_cidrs opts, ent_deny_cidrs = opt_deny_cidrs opts,
      ent_allow_methods = opt_allow_methods opts, ent_allow_paths = opt_allow_paths opts,
      ent_allow_path_prefixes = opt_allow_path_prefixes opts,
      ent_request_header_add = opt_request_header_add opts,
      ent_request_header_remove = opt_request_header_remove opts,
      ent_response_header_add = opt_response_header_add opts,
      ent_response_header_remove = opt_response_header_remove opts\<rparr>"

definition RegisterHTTPTunnel ::
  "registry \<Rightarrow> string \<Rightarrow> nat option \<Rightarrow> http_tunnel_options \<Rightarrow> unit result \<times> registry" where
  "RegisterHTTPTunnel reg i session opts =
     (let i = registry_key i in
      if i = [] then (Inl (Msg ''empty tunnel id''), reg)
      else
        (case session of
           None \<Rightarrow> (Inl (Msg ''nil session''), reg)
         | Some c \<Rightarrow>
             (if reg i \<noteq> None then (Inl (Msg ''tunnel id already exists''), reg)
              else (Inr (), reg(i \<mapsto> make_entry c opts)))))"

definition GetHTTPTunnel :: "registry \<Rightarrow> string \<Rightarrow> http_tunnel_entry option" where
  "GetHTTPTunnel reg i = (let i = registry_key i in if i = [] then None else reg i)"

definition UnregisterHTTPTunnel :: "registry \<Rightarrow> string \<Rightarrow> registry" where
  "UnregisterHTTPTunnel reg i = (let i = registry_key i in if i = [] then reg else reg(i := None))"

subsection \<open>Random ids\<close>

text \<open>\<open>rnd n\<close> is the outcome of \<open>rand.Read\<close> on a buffer of \<open>n\<close> bytes.\<close>

definition randomBase32Lower :: "(nat \<Rightarrow> string result) \<Rightarrow> int \<Rightarrow> string result" where
  "randomBase32Lower rnd n =
     (if n \<le> 0 then Inl (Msg ''invalid length'')
      else
        (let nbytes = nat ((n * 5 + 7) div 8) in
         bind_res (rnd nbytes) (\<lambda>b.
           (let s = ToLower (base32_EncodeToString b) in
            if int (length s) < n then Inl (Msg ''internal error: short id'')
            else Inr (take (nat n) s)))))"

fun allocate_loop :: "nat \<Rightarrow> nat \<Rightarrow> (nat \<Rightarrow> nat \<Rightarrow> string result) \<Rightarrow> (nat \<Rightarrow> registry) \<Rightarrow> string result" where
  "allocate_loop 0 i rnds tables = Inl (Msg ''failed to allocate unique id'')"
| "allocate_loop (Suc n) i rnds tables =
     bind_res (randomBase32Lower (rnds i) 8) (\<lambda>s.
       if tables i s = None then Inr s else allocate_loop n (Suc i) rnds tables)"

definition AllocateID :: "(nat \<Rightarrow> nat \<Rightarrow> string result) \<Rightarrow> (nat \<Rightarrow> registry) \<Rightarrow> string result" where
  "AllocateID rnds tables = allocate_loop 10 0 rnds tables"

lemma allocate_loop_num [eval_simps]:
  "allocate_loop (numeral k) i rnds tables =
     bind_res (randomBase32Lower (rnds i) 8) (\<lambda>s.
       if tables i s = None then Inr s else allocate_loop (pred_numeral k) (Suc i) rnds tables)"
  by (simp add: numeral_eq_Suc)

lemmas [eval_simps] =
  NewTunnelRegistry_def registry_key_def make_entry_def RegisterHTTPTunnel_def GetHTTPTunnel_def
  UnregisterHTTPTunnel_def randomBase32Lower_def AllocateID_def

subsection \<open>The table as an interface\<close>

text \<open>
  What the control handler (which registers and unregisters) and the proxy (which looks up) rely
  on. \<open>key\<close> is the id a spelling names and \<open>mk\<close> the entry a registration makes.
\<close>

datatype 'a tunnel_op = Register string 'a | Unregister string

locale tunnel_table =
  fixes lookup :: "'t \<Rightarrow> string \<Rightarrow> 'e option"
    and register :: "'t \<Rightarrow> string \<Rightarrow> 'a \<Rightarrow> unit result \<times> 't"
    and unregister :: "'t \<Rightarrow> string \<Rightarrow> 't"
    and key :: "string \<Rightarrow> string"
    and mk :: "'a \<Rightarrow> 'e"
  assumes lookup_key: "key i = key j \<Longrightarrow> lookup t i = lookup t j"
    and register_ok: "register t i a = (Inr (), t') \<Longrightarrow> lookup t i = None \<and> lookup t' i = Some (mk a)"
    and register_other: "key j \<noteq> key i \<Longrightarrow> lookup (snd (register t i a)) j = lookup t j"
    and register_taken: "lookup t i \<noteq> None \<Longrightarrow> \<exists>x. register t i a = (Inl x, t)"
    and unregister_this: "lookup (unregister t i) i = None"
    and unregister_other: "key j \<noteq> key i \<Longrightarrow> lookup (unregister t i) j = lookup t j"
begin

fun apply_op :: "'a tunnel_op \<Rightarrow> 't \<Rightarrow> 't" where
  "apply_op (Register i a) t = snd (register t i a)"
| "apply_op (Unregister i) t = unregister t i"

fun removes :: "string \<Rightarrow> 'a tunnel_op \<Rightarrow> bool" where
  "removes i (Register j a) = False"
| "removes i (Unregister j) = (key j = key i)"

text \<open>A registered id keeps its entry whatever else is registered and unregistered.\<close>

lemma entry_kept:
  assumes "lookup t i = Some e" and "\<not> removes i op"
  shows "lookup (apply_op op t) i = Some e"
proof (cases op)
  case (Register j a)
  show ?thesis
  proof (cases "key j = key i")
    case True
    then obtain x where "register t j a = (Inl x, t)"
      using register_taken [of t j a] lookup_key [of j i t] assms(1) by auto
    with Register assms(1) show ?thesis by simp
  next
    case False
    then show ?thesis using Register assms(1) register_other [of i j t a] by simp
  qed
next
  case (Unregister j)
  then show ?thesis using assms unregister_other [of i j t] by auto
qed

lemma entry_kept_run:
  "lookup t i = Some e \<Longrightarrow> \<forall>op \<in> set ops. \<not> removes i op \<Longrightarrow> lookup (fold apply_op ops t) i = Some e"
  by (induction ops arbitrary: t) (auto simp: entry_kept)

lemma registered_until_removed:
  assumes "register t i a = (Inr (), t')" and "\<forall>op \<in> set ops. \<not> removes i op" and "key j = key i"
  shows "lookup (fold apply_op ops t') j = Some (mk a)
    \<and> (\<exists>x. register (fold apply_op ops t') j b = (Inl x, fold apply_op ops t'))"
proof -
  have "lookup (fold apply_op ops t') i = Some (mk a)"
    using register_ok [OF assms(1)] entry_kept_run assms(2) by blast
  then have "lookup (fold apply_op ops t') j = Some (mk a)"
    using lookup_key [OF assms(3)] by simp
  then show ?thesis using register_taken by blast
qed

end

definition register_live :: "registry \<Rightarrow> string \<Rightarrow> nat \<times> http_tunnel_options \<Rightarrow> unit result \<times> registry" where
  "register_live reg i a = RegisterHTTPTunnel reg i (Some (fst a)) (snd a)"

definition live_entry :: "nat \<times> http_tunnel_options \<Rightarrow> http_tunnel_entry" where
  "live_entry a = make_entry (fst a) (snd a)"

interpretation tunnels: tunnel_table GetHTTPTunnel register_live UnregisterHTTPTunnel registry_key live_entry
  by unfold_locales
    (auto simp: GetHTTPTunnel_def register_live_def RegisterHTTPTunnel_def UnregisterHTTPTunnel_def
      live_entry_def Let_def split: if_splits)

subsection \<open>Allocated ids\<close>

definition id_byte :: "char \<Rightarrow> bool" where
  "id_byte c \<longleftrightarrow> is_lower c \<or> (50 \<le> byte c \<and> byte c \<le> 55)"

lemma lower_base32_byte: "base32_byte c \<Longrightarrow> id_byte (lower_byte c)"
  unfolding id_byte_def base32_byte_def is_lower_def byte_lower_byte is_upper_def by auto

lemma randomBase32Lower_Inr:
  assumes "randomBase32Lower rnd n = Inr s"
  shows "int (length s) = n \<and> (\<forall>c \<in> set s. id_byte c)"
proof -
  have bytes: "\<forall>c \<in> set (ToLower (base32_EncodeToString b)). id_byte c" for b
    by (auto simp: ToLower_def dest: base32_bytes lower_base32_byte)
  then show ?thesis
    using assms in_set_takeD
    by (fastforce simp: randomBase32Lower_def Let_def result_simps split: if_splits)
qed

lemma id_byte_subdomain: "id_byte c \<Longrightarrow> subdomain_byte c \<and> c \<noteq> CHR ''-''"
  by (auto simp: id_byte_def subdomain_byte_def is_lower_def is_digit_def)

lemma id_valid_label:
  assumes "length s = 8" and "\<forall>c \<in> set s. id_byte c"
  shows "valid_label s"
proof -
  have "s \<noteq> []" using assms(1) by auto
  then have "hd s \<in> set s" "last s \<in> set s" by simp_all
  then show ?thesis
    using assms \<open>s \<noteq> []\<close> id_byte_subdomain by (auto simp: valid_label_def list_all_iff)
qed

lemma valid_label_key: "valid_label s \<Longrightarrow> registry_key s = s"
  by (simp add: registry_key_def valid_label_def list_all_iff ToLower_fixed TrimSpace_graphic
      subdomain_byte_lower)

lemma allocate_loop_Inr:
  "allocate_loop n i rnds tables = Inr s \<Longrightarrow>
     length s = 8 \<and> (\<forall>c \<in> set s. id_byte c) \<and> (\<exists>j. i \<le> j \<and> j < i + n \<and> tables j s = None)"
proof (induction n arbitrary: i)
  case 0
  then show ?case by simp
next
  case (Suc n)
  then obtain t where t: "randomBase32Lower (rnds i) 8 = Inr t"
    "(if tables i t = None then Inr t else allocate_loop n (Suc i) rnds tables) = Inr s"
    by (auto simp: result_simps)
  show ?case
  proof (cases "tables i t = None")
    case True
    then have "s = t" using t(2) by simp
    then show ?thesis using True randomBase32Lower_Inr [OF t(1)] by (auto intro!: exI [of _ i])
  next
    case False
    then have "allocate_loop n (Suc i) rnds tables = Inr s"
      using t(2) by (simp only: if_False not_False_eq_True)
    from Suc.IH [OF this] show ?thesis by (auto intro: Suc_leD)
  qed
qed


lemma randomBase32Lower_8:
  "rnd 5 = Inr b \<Longrightarrow> length b = 5 \<Longrightarrow> randomBase32Lower rnd 8 = Inr (ToLower (base32_EncodeToString b))"
  by (simp add: randomBase32Lower_def length_base32 Let_def)

lemma allocate_loop_returns:
  assumes "\<And>j. i \<le> j \<Longrightarrow> j < i + n \<Longrightarrow> rnds j 5 = Inr (bs j) \<and> length (bs j) = 5"
    and "i \<le> k" and "k < i + n" and "tables k (ToLower (base32_EncodeToString (bs k))) = None"
  shows "\<exists>s. allocate_loop n i rnds tables = Inr s"
  using assms
proof (induction n arbitrary: i)
  case 0
  then show ?case by simp
next
  case (Suc n)
  let ?s = "ToLower (base32_EncodeToString (bs i))"
  have draw: "randomBase32Lower (rnds i) 8 = Inr ?s"
    using Suc.prems(1) [of i] by (simp add: randomBase32Lower_8)
  show ?case
  proof (cases "tables i ?s = None")
    case True
    with draw show ?thesis by simp
  next
    case False
    then have "k \<noteq> i" using Suc.prems(4) by auto
    then have "\<exists>s. allocate_loop n (Suc i) rnds tables = Inr s"
      using Suc.prems by (intro Suc.IH) auto
    with draw False show ?thesis by auto
  qed
qed

subsection \<open>Properties\<close>

type_synonym registry_op = "(nat \<times> http_tunnel_options) tunnel_op"

fun registry_exec :: "registry_op \<Rightarrow> registry \<Rightarrow> registry" where
  "registry_exec (Register i a) reg = snd (RegisterHTTPTunnel reg i (Some (fst a)) (snd a))"
| "registry_exec (Unregister i) reg = UnregisterHTTPTunnel reg i"

fun unregisters :: "string \<Rightarrow> registry_op \<Rightarrow> bool" where
  "unregisters i (Register j a) = False"
| "unregisters i (Unregister j) = (registry_key j = registry_key i)"

lemma registry_exec_apply: "registry_exec op reg = tunnels.apply_op op reg"
  by (cases op) (simp_all add: register_live_def)

lemma unregisters_removes: "unregisters i op = tunnels.removes i op"
  by (cases op) simp_all

text \<open>a registered tunnel id is routed to its session until that id is unregistered. After a
  successful registration, and after any registrations and unregistrations of other ids, a lookup
  under any spelling of the id gives the entry with that session and those options, and
  registering the id again fails and changes nothing.\<close>

theorem registry_exclusive:
  assumes "RegisterHTTPTunnel reg i (Some c) opts = (Inr (), reg')"
    and "\<forall>op \<in> set ops. \<not> unregisters i op" and "registry_key j = registry_key i"
  shows "GetHTTPTunnel (fold registry_exec ops reg') j = Some (make_entry c opts)
    \<and> (\<exists>e. RegisterHTTPTunnel (fold registry_exec ops reg') j (Some c') opts'
          = (Inl e, fold registry_exec ops reg'))"
proof -
  have "fold registry_exec ops reg' = fold tunnels.apply_op ops reg'"
    by (rule fold_cong) (simp_all add: registry_exec_apply fun_eq_iff)
  moreover have "register_live reg i (c, opts) = (Inr (), reg')"
    using assms(1) by (simp add: register_live_def)
  ultimately show ?thesis
    using tunnels.registered_until_removed [of reg i "(c, opts)" reg' ops j "(c', opts')"] assms(2,3)
    by (simp add: live_entry_def register_live_def unregisters_removes)
qed

definition no_options :: http_tunnel_options where
  "no_options = \<lparr>opt_basic_auth = None, opt_allow_cidrs = [], opt_deny_cidrs = [], opt_allow_methods = [],
     opt_allow_paths = [], opt_allow_path_prefixes = [], opt_request_header_add = [],
     opt_request_header_remove = [], opt_response_header_add = [], opt_response_header_remove = []\<rparr>"

theorem registry_exclusive_witness:
  "GetHTTPTunnel (fold registry_exec [Register ''other'' (9, no_options), Unregister ''other'']
     (snd (RegisterHTTPTunnel NewTunnelRegistry ''my-app'' (Some 4) no_options))) ''My-App ''
   = Some (make_entry 4 no_options)"
proof -
  have reg: "RegisterHTTPTunnel NewTunnelRegistry ''my-app'' (Some 4) no_options
      = (Inr (), snd (RegisterHTTPTunnel NewTunnelRegistry ''my-app'' (Some 4) no_options))"
    by (simp add: eval_simps)
  have key: "registry_key ''My-App '' = registry_key ''my-app''"
    "registry_key ''other'' \<noteq> registry_key ''my-app''"
    by (simp_all add: eval_simps)
  show ?thesis
    by (rule conjunct1 [OF registry_exclusive [OF reg _ key(1)]]) (use key(2) in simp)
qed

text \<open>an allocated tunnel id is a fresh DNS label: eight lower-case base-32 letters, its own
  registry key, and absent from the table at the attempt that chose it. Only a failing random
  source or ten collisions make the allocation fail.\<close>

theorem AllocateID_fresh:
  assumes "\<And>i. i < 10 \<Longrightarrow> rnds i 5 = Inr (bs i) \<and> length (bs i) = 5"
  shows "case AllocateID rnds tables of
      Inr s \<Rightarrow> length s = 8 \<and> valid_label s \<and> registry_key s = s \<and> (\<exists>i<10. tables i s = None)
    | Inl e \<Rightarrow> \<forall>i<10. tables i (ToLower (base32_EncodeToString (bs i))) \<noteq> None"
proof (cases "AllocateID rnds tables")
  case (Inr s)
  then have "length s = 8" "\<forall>c \<in> set s. id_byte c" "\<exists>i<10. tables i s = None"
    using allocate_loop_Inr [of 10 0 rnds tables s] by (auto simp: AllocateID_def)
  with Inr show ?thesis by (simp add: id_valid_label valid_label_key)
next
  case (Inl e)
  have "tables i (ToLower (base32_EncodeToString (bs i))) \<noteq> None" if "i < 10" for i
    using allocate_loop_returns [of 0 10 rnds bs i tables] assms that Inl by (auto simp: AllocateID_def)
  with Inl show ?thesis by simp
qed

theorem AllocateID_fresh_witness:
  "AllocateID (\<lambda>i n. Inr (if i = 0 then replicate n (CHR 0x00) else ''hello''))
      (\<lambda>i. [''aaaaaaaa'' \<mapsto> make_entry 1 no_options]) = Inr ''nbswy3dp''
    \<and> valid_label ''nbswy3dp''"
proof -
  let ?rnds = "\<lambda>i n. Inr (if i = (0::nat) then replicate n (CHR 0x00) else ''hello'')"
  let ?bs = "\<lambda>i. if i = (0::nat) then replicate 5 (CHR 0x00) else ''hello''"
  let ?tables = "\<lambda>i::nat. [''aaaaaaaa'' \<mapsto> make_entry 1 no_options]"
  have "AllocateID ?rnds ?tables = Inr ''nbswy3dp''"
    by (simp add: eval_simps)
  with AllocateID_fresh [of ?rnds ?bs ?tables] show ?thesis by simp
qed

end
