(* ===== verification/GoNet.thy ===== *)
theory GoNet
  imports GoStrconv
begin

text \<open>
  The parts of \<open>net\<close> and \<open>net/http\<close> the program uses: \<open>SplitHostPort\<close>,
  \<open>JoinHostPort\<close>, canonical header keys, the operations of \<open>http.Header\<close> (a
  map from canonical keys to lists of values; Go's nil slice and empty slice of values are
  one value here), \<open>encoding/base64\<close> and \<open>Request.BasicAuth\<close>.
\<close>

subsection \<open>host:port\<close>

text \<open>The parts before and after the last occurrence of a byte.\<close>

definition cut_last :: "char \<Rightarrow> string \<Rightarrow> (string \<times> string) option" where
  "cut_last c s = (case Cut (rev s) [c] of (a, b, found) \<Rightarrow>
     if found then Some (rev b, rev a) else None)"

lemma cut_last_Some: "cut_last c s = Some (u, v) \<Longrightarrow> s = u @ c # v"
  by (auto simp: cut_last_def split: prod.splits if_splits dest!: Cut_found)
    (metis append_Cons append_Nil append_assoc rev_append rev_rev_ident rev_singleton_conv)

lemma cut_last_append: "c \<notin> set v \<Longrightarrow> cut_last c (u @ c # v) = Some (u, v)"
  using Cut_char [of c "rev v" "rev u"] by (simp add: cut_last_def)

lemma cut_last_None: "cut_last c s = None \<longleftrightarrow> c \<notin> set s"
  by (auto simp: cut_last_def Cut_def split: option.splits)
    (metis Index_char_None_iff option.distinct(1) set_rev)+

definition SplitHostPort :: "string \<Rightarrow> (string \<times> string) option" where
  "SplitHostPort hostport = (case cut_last CHR '':'' hostport of
       None \<Rightarrow> None
     | Some (before, port) \<Rightarrow>
         (if HasPrefix before ''['' then
            (case Cut (tl before) '']'' of (host, after, found) \<Rightarrow>
               if \<not> found \<or> after \<noteq> [] then None
               else if CHR ''['' \<in> set host \<or> CHR ''['' \<in> set port then None
               else if CHR '']'' \<in> set port then None
               else Some (host, port))
          else if CHR '':'' \<in> set before then None
          else if CHR ''['' \<in> set hostport then None
          else if CHR '']'' \<in> set hostport then None
          else Some (before, port)))"

definition JoinHostPort :: "string \<Rightarrow> string \<Rightarrow> string" where
  "JoinHostPort host port =
     (if CHR '':'' \<in> set host then ''['' @ host @ '']:'' @ port else host @ '':'' @ port)"

definition plain_host :: "string \<Rightarrow> bool" where
  "plain_host h \<longleftrightarrow> CHR ''['' \<notin> set h \<and> CHR '']'' \<notin> set h"

theorem SplitHostPort_Join:
  assumes "plain_host h" and "plain_host p" and "CHR '':'' \<notin> set p"
  shows "SplitHostPort (JoinHostPort h p) = Some (h, p)"
proof (cases "CHR '':'' \<in> set h")
  case True
  have "JoinHostPort h p = CHR ''['' # h @ CHR '']'' # CHR '':'' # p"
    using True by (simp add: JoinHostPort_def)
  moreover have "cut_last CHR '':'' (CHR ''['' # h @ CHR '']'' # CHR '':'' # p)
      = Some (CHR ''['' # h @ '']'', p)"
    using cut_last_append [OF assms(3), of "CHR ''['' # h @ '']''"] by simp
  moreover have "Cut (h @ '']'') '']'' = (h, [], True)"
    using Cut_char [of "CHR '']''" h "[]"] assms(1) by (simp add: plain_host_def)
  ultimately show ?thesis
    using assms(1,2)
    by (simp add: SplitHostPort_def HasPrefix_def plain_host_def)
next
  case False
  have "\<not> HasPrefix h ''[''"
    using assms(1) by (auto simp: HasPrefix_def plain_host_def prefix_def)
  then show ?thesis
    using False cut_last_append [OF assms(3)] assms
    by (simp add: SplitHostPort_def JoinHostPort_def plain_host_def)
qed

lemma SplitHostPort_colon: "SplitHostPort s = Some (h, p) \<Longrightarrow> CHR '':'' \<in> set s"
  by (auto simp: SplitHostPort_def split: option.splits dest: cut_last_Some)

lemma SplitHostPort_no_colon: "CHR '':'' \<notin> set s \<Longrightarrow> SplitHostPort s = None"
  using SplitHostPort_colon [of s] by (cases "SplitHostPort s") auto

lemma set_SplitHostPort:
  assumes "SplitHostPort s = Some (h, p)"
  shows "set h \<subseteq> set s" and "set p \<subseteq> set s"
proof -
  obtain u where u: "cut_last CHR '':'' s = Some (u, p)" and hu: "set h \<subseteq> set u"
    using assms unfolding SplitHostPort_def
    by (fastforce split: option.splits prod.splits if_splits
        dest!: Cut_found list.set_sel(2) [rotated] simp: HasPrefix_def prefix_def)
  from cut_last_Some [OF u] hu show "set h \<subseteq> set s" "set p \<subseteq> set s" by auto
qed

subsection \<open>Header keys\<close>

text \<open>\<open>validHeaderFieldByte\<close> of \<open>net/textproto\<close>: the token bytes of RFC 7230.\<close>

definition token_byte :: "char \<Rightarrow> bool" where
  "token_byte c \<longleftrightarrow> is_digit c \<or> is_lower c \<or> is_upper c
     \<or> c \<in> set [CHR ''!'', CHR ''#'', CHR ''$'', CHR ''%'', CHR ''&'', CHR 0x27, CHR ''*'', CHR ''+'',
                CHR ''-'', CHR ''.'', CHR ''^'', CHR ''_'', CHR 0x60, CHR ''|'', CHR ''~'']"

fun canon_key :: "bool \<Rightarrow> string \<Rightarrow> string" where
  "canon_key up [] = []"
| "canon_key up (c # cs) =
     (let c' = (if up then upper_byte c else lower_byte c) in c' # canon_key (c' = CHR ''-'') cs)"

definition CanonicalHeaderKey :: "string \<Rightarrow> string" where
  "CanonicalHeaderKey s = (if list_all token_byte s then canon_key True s else s)"

lemma token_byte_upper_byte [simp]: "token_byte (upper_byte c) = token_byte c"
proof (cases "is_lower c")
  case True
  then have "is_upper (upper_byte c)"
    by (auto simp: is_upper_def byte_upper_byte is_lower_def)
  with True show ?thesis by (auto simp: token_byte_def)
qed (simp add: upper_byte_def)

lemma token_byte_lower_byte [simp]: "token_byte (lower_byte c) = token_byte c"
proof (cases "is_upper c")
  case True
  then have "is_lower (lower_byte c)"
    by (auto simp: is_upper_def byte_lower_byte is_lower_def)
  with True show ?thesis by (auto simp: token_byte_def)
qed (simp add: lower_byte_def)

lemma token_canon_key [simp]: "list_all token_byte (canon_key b s) = list_all token_byte s"
  by (induction b s rule: canon_key.induct) (auto simp: Let_def)

lemma canon_key_idem [simp]: "canon_key b (canon_key b s) = canon_key b s"
  by (induction b s rule: canon_key.induct) (auto simp: Let_def)

lemma CanonicalHeaderKey_idem [simp]:
  "CanonicalHeaderKey (CanonicalHeaderKey s) = CanonicalHeaderKey s"
  by (simp add: CanonicalHeaderKey_def)

lemma length_canon_key [simp]: "length (canon_key b s) = length s"
  by (induction b s rule: canon_key.induct) (auto simp: Let_def)

lemma CanonicalHeaderKey_Nil [simp]: "CanonicalHeaderKey s = [] \<longleftrightarrow> s = []"
  by (metis CanonicalHeaderKey_def length_0_conv length_canon_key)

lemma canon_key_lower: "ToLower s = ToLower t \<Longrightarrow> canon_key b s = canon_key b t"
proof (induction s arbitrary: t b)
  case Nil
  then show ?case by (simp add: ToLower_def)
next
  case (Cons c s)
  then obtain d t' where t: "t = d # t'" "lower_byte c = lower_byte d" "ToLower s = ToLower t'"
    by (cases t) (auto simp: ToLower_def)
  have "upper_byte c = upper_byte d"
    by (rule iffD1 [OF byte_eq_iff])
      (use arg_cong [OF t(2), of byte] in \<open>auto simp: byte_upper_byte byte_lower_byte is_lower_def is_upper_def split: if_splits\<close>)
  with Cons.IH [OF t(3)] t show ?case by (simp add: Let_def)
qed

text \<open>Two spellings of a token that differ in the case of letters have one key.\<close>

lemma CanonicalHeaderKey_EqualFold:
  assumes "EqualFold s t" and "list_all token_byte s"
  shows "CanonicalHeaderKey s = CanonicalHeaderKey t"
proof -
  have eq: "ToLower s = ToLower t" using assms(1) by (simp add: EqualFold_def)
  have "list_all token_byte (ToLower u) = list_all token_byte u" for u
    by (simp add: ToLower_def list_all_iff)
  with eq assms(2) have "list_all token_byte t" by metis
  with assms(2) canon_key_lower [OF eq] show ?thesis by (simp add: CanonicalHeaderKey_def)
qed

subsection \<open>http.Header\<close>

type_synonym header = "string \<rightharpoonup> string list"

definition hdr_values :: "header \<Rightarrow> string \<Rightarrow> string list" where
  "hdr_values h k = (case h (CanonicalHeaderKey k) of None \<Rightarrow> [] | Some vs \<Rightarrow> vs)"

definition hdr_Get :: "header \<Rightarrow> string \<Rightarrow> string" where
  "hdr_Get h k = (case hdr_values h k of [] \<Rightarrow> [] | v # _ \<Rightarrow> v)"

definition hdr_Set :: "string \<Rightarrow> string \<Rightarrow> header \<Rightarrow> header" where
  "hdr_Set k v h = h(CanonicalHeaderKey k \<mapsto> [v])"

definition hdr_Del :: "string \<Rightarrow> header \<Rightarrow> header" where
  "hdr_Del k h = h(CanonicalHeaderKey k := None)"

lemma hdr_Set_apply [simp]:
  "hdr_Set k v h j = (if j = CanonicalHeaderKey k then Some [v] else h j)"
  by (simp add: hdr_Set_def)

lemma hdr_Del_apply [simp]:
  "hdr_Del k h j = (if j = CanonicalHeaderKey k then None else h j)"
  by (simp add: hdr_Del_def)

lemma hdr_Get_Set [simp]:
  "hdr_Get (hdr_Set k v h) j =
     (if CanonicalHeaderKey j = CanonicalHeaderKey k then v else hdr_Get h j)"
  by (simp add: hdr_Get_def hdr_values_def)

lemma hdr_Get_Del [simp]:
  "hdr_Get (hdr_Del k h) j =
     (if CanonicalHeaderKey j = CanonicalHeaderKey k then [] else hdr_Get h j)"
  by (simp add: hdr_Get_def hdr_values_def)

subsection \<open>Base 64 and basic authentication\<close>

definition b64_char :: "nat \<Rightarrow> char" where
  "b64_char n = (if n < 26 then char_of (65 + n) else if n < 52 then char_of (71 + n)
     else if n < 62 then char_of (n - 4) else if n = 62 then CHR ''+'' else CHR ''/'')"

definition b64_val :: "char \<Rightarrow> nat option" where
  "b64_val c = (let b = byte c in
     if is_upper c then Some (b - 65) else if is_lower c then Some (b - 71)
     else if is_digit c then Some (b + 4) else if c = CHR ''+'' then Some 62
     else if c = CHR ''/'' then Some 63 else None)"

fun b64_encode :: "string \<Rightarrow> string" where
  "b64_encode [] = []"
| "b64_encode [a] =
     [b64_char (byte a div 4), b64_char (byte a mod 4 * 16), CHR ''='', CHR ''='']"
| "b64_encode [a, b] =
     [b64_char (byte a div 4), b64_char (byte a mod 4 * 16 + byte b div 16),
      b64_char (byte b mod 16 * 4), CHR ''='']"
| "b64_encode (a # b # c # s) =
     b64_char (byte a div 4) # b64_char (byte a mod 4 * 16 + byte b div 16)
     # b64_char (byte b mod 16 * 4 + byte c div 64) # b64_char (byte c mod 64) # b64_encode s"

text \<open>
  \<open>StdEncoding.DecodeString\<close>: padding is required, only the last group may be padded,
  the unused bits of a padded group are ignored (the decoder is not strict), and the two
  newline bytes are skipped.
\<close>

fun b64_groups :: "string \<Rightarrow> string option" where
  "b64_groups [] = Some []"
| "b64_groups (a # b # c # d # s) =
     (if c = CHR ''='' \<and> d = CHR ''='' \<and> s = [] then
        (case (b64_val a, b64_val b) of
           (Some w, Some x) \<Rightarrow> Some [char_of (w * 4 + x div 16)]
         | _ \<Rightarrow> None)
      else if d = CHR ''='' \<and> s = [] then
        (case (b64_val a, b64_val b, b64_val c) of
           (Some w, Some x, Some y) \<Rightarrow>
             Some [char_of (w * 4 + x div 16), char_of (x mod 16 * 16 + y div 4)]
         | _ \<Rightarrow> None)
      else
        (case (b64_val a, b64_val b, b64_val c, b64_val d, b64_groups s) of
           (Some w, Some x, Some y, Some z, Some t) \<Rightarrow>
             Some (char_of (w * 4 + x div 16) # char_of (x mod 16 * 16 + y div 4)
                   # char_of (y mod 4 * 64 + z) # t)
         | _ \<Rightarrow> None))"
| "b64_groups _ = None"

definition b64_decode :: "string \<Rightarrow> string option" where
  "b64_decode s = b64_groups (filter (\<lambda>c. c \<noteq> CHR 0x0A \<and> c \<noteq> CHR 0x0D) s)"

text \<open>
  \<open>Request.BasicAuth\<close>: the scheme is matched without case, the rest is decoded and cut
  at the first colon.
\<close>

definition BasicAuth :: "header \<Rightarrow> (string \<times> string) option" where
  "BasicAuth h =
     (let auth = hdr_Get h ''Authorization'' in
      if length auth < 6 \<or> \<not> EqualFold (take 6 auth) ''Basic '' then None
      else (case b64_decode (drop 6 auth) of
              None \<Rightarrow> None
            | Some c \<Rightarrow> (case Cut c '':'' of (user, pass, ok) \<Rightarrow>
                           if ok then Some (user, pass) else None)))"

lemma b64_char_props:
  assumes "n < 64"
  shows "b64_val (b64_char n) = Some n" and "b64_char n \<noteq> CHR ''=''"
    and "b64_char n \<noteq> CHR 0x0A" and "b64_char n \<noteq> CHR 0x0D"
proof -
  consider "n < 26" | "26 \<le> n" "n < 52" | "52 \<le> n" "n < 62" | "n = 62" | "n = 63"
    using assms by linarith
  then have "b64_val (b64_char n) = Some n"
    by cases (auto simp: b64_val_def b64_char_def byte_char_of is_upper_def is_lower_def is_digit_def Let_def)
  moreover have "b64_val CHR ''='' = None" "b64_val CHR 0x0A = None" "b64_val CHR 0x0D = None"
    by code_simp+
  ultimately show "b64_val (b64_char n) = Some n" "b64_char n \<noteq> CHR ''=''"
    "b64_char n \<noteq> CHR 0x0A" "b64_char n \<noteq> CHR 0x0D"
    by auto
qed

lemma nat_eq_byte_of: "char_of n = c \<longleftrightarrow> n = byte c" if "n < 256"
  using that by (metis byte_char_of char_of_byte)

lemma div_mod_pack: "y < k \<Longrightarrow> (x * k + y) div k = x \<and> (x * k + y) mod k = (y :: nat)"
  by (simp add: div_add1_eq)

lemma b64_group3:
  assumes "a < 256" and "b < 256" and "c < (256::nat)"
  shows "a div 4 < 64 \<and> a mod 4 * 16 + b div 16 < 64 \<and> b mod 16 * 4 + c div 64 < 64 \<and> c mod 64 < 64
    \<and> a div 4 * 4 + (a mod 4 * 16 + b div 16) div 16 = a
    \<and> (a mod 4 * 16 + b div 16) mod 16 * 16 + (b mod 16 * 4 + c div 64) div 4 = b
    \<and> (b mod 16 * 4 + c div 64) mod 4 * 64 + c mod 64 = c"
proof -
  have lt: "a div 4 < 64" "b div 16 < 16" "c div 64 < 4" "a mod 4 < 4" "b mod 16 < 16"
    using assms by simp_all
  from lt have "a mod 4 * 16 + b div 16 < 64" "b mod 16 * 4 + c div 64 < 64" by linarith+
  with lt div_mod_pack [of "b div 16" 16 "a mod 4"] div_mod_pack [of "c div 64" 4 "b mod 16"]
  show ?thesis by simp
qed

theorem b64_roundtrip: "b64_decode (b64_encode s) = Some s"
proof -
  have nl: "filter (\<lambda>c. c \<noteq> CHR 0x0A \<and> c \<noteq> CHR 0x0D) (b64_encode s) = b64_encode s"
  proof (induction s rule: b64_encode.induct)
    case (4 a b c s)
    then show ?case
      using b64_group3 [of "byte a" "byte b" "byte c"] by (simp add: b64_char_props)
  next
    case (3 a b)
    then show ?case
      using b64_group3 [of "byte a" "byte b" 0] by (simp add: b64_char_props)
  next
    case (2 a)
    then show ?case
      using b64_group3 [of "byte a" 0 0] by (simp add: b64_char_props)
  qed simp
  have "b64_groups (b64_encode s) = Some s"
  proof (induction s rule: b64_encode.induct)
    case (4 a b c s)
    then show ?case
      using b64_group3 [of "byte a" "byte b" "byte c"] by (simp add: b64_char_props)
  next
    case (3 a b)
    then show ?case
      using b64_group3 [of "byte a" "byte b" 0] by (simp add: b64_char_props)
  next
    case (2 a)
    then show ?case
      using b64_group3 [of "byte a" 0 0] by (simp add: b64_char_props)
  qed simp
  with nl show ?thesis by (simp add: b64_decode_def)
qed

text \<open>What a client sends for a user without a colon is what \<open>BasicAuth\<close> reads.\<close>

definition basic_header :: "string \<Rightarrow> string \<Rightarrow> string" where
  "basic_header user pass = ''Basic '' @ b64_encode (user @ '':'' @ pass)"

lemma BasicAuth_basic_header:
  assumes "hdr_Get h ''Authorization'' = basic_header user pass" and "CHR '':'' \<notin> set user"
  shows "BasicAuth h = Some (user, pass)"
  using assms Cut_char [of "CHR '':''" user pass]
  by (simp add: BasicAuth_def basic_header_def EqualFold_def b64_roundtrip)

lemmas [eval_simps] =
  cut_last_def SplitHostPort_def JoinHostPort_def token_byte_def CanonicalHeaderKey_def
  BasicAuth_def b64_decode_def b64_val_def b64_char_def
  hdr_values_def hdr_Get_def hdr_Set_def hdr_Del_def

end
