(* ===== verification/Control.thy ===== *)
theory Control
  imports GoNet Netip
begin

text \<open>
  Package \<open>internal/control\<close>: the messages of the control protocol and the validation of
  what they carry, which the command line, the configuration file and the server share. Each
  list parser is the loop of the code with its body as a definition of its own; the list of
  results keeps the order of the entries. \<open>WriteJSON\<close> is the write loop over a writer
  that may fail or write part of the buffer; \<open>json.Marshal\<close> is its argument.
\<close>

subsection \<open>Messages (protocol.go)\<close>

record create_tcp_request =
  tcp_type :: string
  tcp_authtoken :: string
  tcp_remote_port :: int

record create_tcp_response =
  tcp_resp_type :: string
  tcp_resp_remote_port :: int
  tcp_resp_error :: string

record header_kv =
  kv_name :: string
  kv_value :: string

record create_http_request =
  http_type :: string
  http_authtoken :: string
  http_subdomain :: string
  http_domain :: string
  http_basic_auth :: string
  http_allow_method :: "string list"
  http_allow_path :: "string list"
  http_allow_path_prefix :: "string list"
  http_allow_cidr :: "string list"
  http_deny_cidr :: "string list"
  http_request_header_add :: "header_kv list"
  http_request_header_remove :: "string list"
  http_response_header_add :: "header_kv list"
  http_response_header_remove :: "string list"

record create_http_response =
  http_resp_type :: string
  http_resp_id :: string
  http_resp_url :: string
  http_resp_error :: string

subsection \<open>Header names and values (headers.go)\<close>

definition MaxHeaderValueBytes :: nat where
  "MaxHeaderValueBytes = 8 * 1024"

text \<open>The character class is the one of \<open>net/textproto\<close>, byte for byte.\<close>

definition isValidHeaderToken :: "string \<Rightarrow> bool" where
  "isValidHeaderToken s \<longleftrightarrow>
     list_all (\<lambda>c. is_digit c \<or> is_lower c \<or> is_upper c
       \<or> c \<in> set [CHR ''!'', CHR ''#'', CHR ''$'', CHR ''%'', CHR ''&'', CHR 0x27, CHR ''*'',
                  CHR ''+'', CHR ''-'', CHR ''.'', CHR ''^'', CHR ''_'', CHR 0x60, CHR ''|'',
                  CHR ''~'']) s"

definition safe_value_byte :: "char \<Rightarrow> bool" where
  "safe_value_byte c \<longleftrightarrow>
     \<not> (c = CHR 0x0D \<or> c = CHR 0x0A \<or> c = CHR 0x00)
     \<and> \<not> (byte c < 0x20 \<and> c \<noteq> CHR 0x09) \<and> c \<noteq> CHR 0x7F"

definition isSafeHeaderValue :: "string \<Rightarrow> bool" where
  "isSafeHeaderValue s \<longleftrightarrow> list_all safe_value_byte s"

definition disallowed_names :: "string list" where
  "disallowed_names =
     [''Connection'', ''Proxy-Connection'', ''Keep-Alive'', ''Proxy-Authenticate'',
      ''Proxy-Authorization'', ''Te'', ''Trailer'', ''Transfer-Encoding'', ''Upgrade'',
      ''Content-Length'', ''Host'']"

definition isDisallowedTransformedHeader :: "string \<Rightarrow> bool" where
  "isDisallowedTransformedHeader name \<longleftrightarrow> CanonicalHeaderKey name \<in> set disallowed_names"

definition NormalizeHeaderName :: "string \<Rightarrow> string \<Rightarrow> string result" where
  "NormalizeHeaderName field raw =
     (let s = TrimSpace raw in
      if s = [] \<or> \<not> isValidHeaderToken s then Inl (InvalidEntry field raw)
      else
        (let s = CanonicalHeaderKey s in
         if isDisallowedTransformedHeader s then Inl (InvalidEntry field raw) else Inr s))"

definition ValidateHeaderValue :: "string \<Rightarrow> string \<Rightarrow> string \<Rightarrow> string result" where
  "ValidateHeaderValue field raw value =
     (let v = TrimSpace value in
      if length v > MaxHeaderValueBytes \<or> \<not> isSafeHeaderValue v
      then Inl (InvalidEntry field raw) else Inr v)"

lemma isValidHeaderToken_alt: "isValidHeaderToken s \<longleftrightarrow> list_all token_byte s"
  by (simp add: isValidHeaderToken_def token_byte_def list_all_iff)

lemma token_byte_graphic: "token_byte c \<Longrightarrow> graphic c"
  by (auto simp: token_byte_def graphic_def is_digit_def is_lower_def is_upper_def)

lemma token_byte_not_sep: "token_byte c \<Longrightarrow> c \<notin> {CHR '':'', CHR '' '', CHR 0x0A, CHR 0x0D, CHR 0x00}"
  by (auto simp: token_byte_def is_digit_def is_lower_def is_upper_def)

lemma safe_value_byte_no_break: "safe_value_byte c \<Longrightarrow> c \<notin> {CHR 0x0A, CHR 0x0D, CHR 0x00}"
  by (auto simp: safe_value_byte_def)

lemma TrimSpace_token: "list_all token_byte s \<Longrightarrow> TrimSpace s = s"
  by (rule TrimSpace_graphic) (auto simp: list_all_iff token_byte_graphic)

lemma NormalizeHeaderName_Inr:
  "NormalizeHeaderName field raw = Inr s \<longleftrightarrow>
     TrimSpace raw \<noteq> [] \<and> list_all token_byte (TrimSpace raw)
     \<and> CanonicalHeaderKey (TrimSpace raw) \<notin> set disallowed_names
     \<and> CanonicalHeaderKey (TrimSpace raw) = s"
  unfolding NormalizeHeaderName_def Let_def isValidHeaderToken_alt isDisallowedTransformedHeader_def
    CanonicalHeaderKey_idem if_Inl_eq_Inr sum.inject by blast

lemma CanonicalHeaderKey_token [simp]: "list_all token_byte s \<Longrightarrow> list_all token_byte (CanonicalHeaderKey s)"
  by (simp add: CanonicalHeaderKey_def)

lemma NormalizeHeaderName_idem:
  "NormalizeHeaderName field raw = Inr s \<Longrightarrow> NormalizeHeaderName field' s = Inr s"
  by (auto simp: NormalizeHeaderName_Inr TrimSpace_token)

lemma ValidateHeaderValue_Inr:
  "ValidateHeaderValue field raw value = Inr v \<longleftrightarrow>
     length (TrimSpace value) \<le> 8192 \<and> list_all safe_value_byte (TrimSpace value)
     \<and> TrimSpace value = v"
  unfolding ValidateHeaderValue_def Let_def MaxHeaderValueBytes_def isSafeHeaderValue_def
    if_Inl_eq_Inr sum.inject by (simp add: not_less)

lemma ValidateHeaderValue_idem:
  "ValidateHeaderValue field raw value = Inr v \<Longrightarrow> ValidateHeaderValue field' raw' v = Inr v"
  by (auto simp: ValidateHeaderValue_Inr)

subsection \<open>Allowlists (allowlist.go)\<close>

definition line_bytes :: string where
  "line_bytes = [CHR 0x0D, CHR 0x0A, CHR 0x00]"

text \<open>The loop bodies; \<open>too_many\<close> is the guard the list parsers share.\<close>

definition too_many :: "int \<Rightarrow> 'a list \<Rightarrow> bool" where
  "too_many maxEntries values \<longleftrightarrow> maxEntries > 0 \<and> int (length values) > maxEntries"

definition method_entry :: "string \<Rightarrow> string \<Rightarrow> string result" where
  "method_entry field raw =
     (if ContainsAny raw line_bytes then Inl (InvalidEntry field raw)
      else
        (let s = TrimSpace raw in
         if s = [] \<or> \<not> isValidHeaderToken s then Inl (InvalidEntry field raw)
         else Inr (ToUpper s)))"

definition ParseHTTPMethodList :: "string \<Rightarrow> string list \<Rightarrow> int \<Rightarrow> string list result" where
  "ParseHTTPMethodList field values maxEntries =
     (if values = [] then Inr []
      else if too_many maxEntries values then Inl (TooManyEntries field)
      else map_res (method_entry field) values)"

definition isSafePathValue :: "string \<Rightarrow> bool" where
  "isSafePathValue s \<longleftrightarrow>
     list_all (\<lambda>c. \<not> (c = CHR 0x0D \<or> c = CHR 0x0A \<or> c = CHR 0x00)
                 \<and> \<not> (byte c \<le> 0x20 \<or> c = CHR 0x7F)) s"

definition path_entry :: "string \<Rightarrow> string \<Rightarrow> string result" where
  "path_entry field raw =
     (if ContainsAny raw line_bytes then Inl (InvalidEntry field raw)
      else
        (let s = TrimSpace raw in
         if s = [] \<or> \<not> HasPrefix s ''/'' then Inl (InvalidEntry field raw)
         else if ContainsAny s ''?#'' then Inl (InvalidEntry field raw)
         else if \<not> isSafePathValue s then Inl (InvalidEntry field raw)
         else Inr s))"

definition ParsePathList :: "string \<Rightarrow> string list \<Rightarrow> int \<Rightarrow> string list result" where
  "ParsePathList field values maxEntries =
     (if values = [] then Inr []
      else if too_many maxEntries values then Inl (TooManyEntries field)
      else map_res (path_entry field) values)"

subsection \<open>CIDR lists (cidr.go)\<close>

definition cidr_entry :: "string \<Rightarrow> string \<Rightarrow> ipprefix result" where
  "cidr_entry field v =
     (let s = TrimSpace v in
      if s = [] then Inl (InvalidField field)
      else bind_res
        (if Contains s ''/'' then
           (case ParsePrefix s of None \<Rightarrow> Inl (InvalidEntry field v) | Some parsed \<Rightarrow> Inr parsed)
         else
           (case ParseAddr s of
              None \<Rightarrow> Inl (InvalidEntry field v)
            | Some a \<Rightarrow>
                (let a = Unmap a; bits = (if Is4 a then 32 else 128) in Inr (PrefixFrom a bits))))
        (\<lambda>p. Inr (Masked p)))"

definition ParseCIDRList :: "string \<Rightarrow> string list \<Rightarrow> int \<Rightarrow> ipprefix list result" where
  "ParseCIDRList field values maxEntries =
     (if values = [] then Inr []
      else if too_many maxEntries values then Inl (TooManyEntries field)
      else map_res (cidr_entry field) values)"

lemmas [eval_simps] =
  MaxHeaderValueBytes_def isValidHeaderToken_def safe_value_byte_def isSafeHeaderValue_def
  disallowed_names_def isDisallowedTransformedHeader_def NormalizeHeaderName_def
  ValidateHeaderValue_def line_bytes_def too_many_def method_entry_def ParseHTTPMethodList_def
  isSafePathValue_def path_entry_def ParsePathList_def cidr_entry_def ParseCIDRList_def

text \<open>
  The three list parsers are one scheme: an empty list, a limit, a traversal by the entry
  parser. What they share is proved once over the scheme.
\<close>

locale list_parser =
  fixes parse :: "string \<Rightarrow> 'a list \<Rightarrow> int \<Rightarrow> 'b list result"
    and entry :: "string \<Rightarrow> 'a \<Rightarrow> 'b result"
  assumes parse_eq: "parse field values n =
     (if values = [] then Inr []
      else if too_many n values then Inl (TooManyEntries field) else map_res (entry field) values)"
begin

lemma accepts_iff:
  "parse field values n = Inr out \<longleftrightarrow>
     \<not> too_many n values \<and> list_all2 (\<lambda>x y. entry field x = Inr y) values out"
  by (auto simp: parse_eq map_res_Inr_iff too_many_def)

lemma entry_range:
  "parse field values n = Inr out \<Longrightarrow> y \<in> set out \<Longrightarrow> \<exists>x \<in> set values. entry field x = Inr y"
  by (auto simp: parse_eq map_res_range split: if_splits)

lemma same_length: "parse field values n = Inr out \<Longrightarrow> length out = length values"
  by (auto simp: accepts_iff list_all2_lengthD)

lemma within_limit: "parse field values n = Inr out \<Longrightarrow> n > 0 \<Longrightarrow> int (length out) \<le> n"
  by (auto simp: accepts_iff too_many_def list_all2_lengthD)

end

text \<open>An entry parser whose results are entries that stand for themselves.\<close>

locale stable_list_parser = list_parser parse entry
  for parse :: "string \<Rightarrow> 'a list \<Rightarrow> int \<Rightarrow> 'a list result"
    and entry :: "string \<Rightarrow> 'a \<Rightarrow> 'a result" +
  assumes entry_stable: "entry field x = Inr y \<Longrightarrow> entry field' y = Inr y"
begin

lemma reparse:
  assumes "parse field values n = Inr out"
  shows "parse field' out n = Inr out"
proof -
  have "\<not> too_many n out"
    using assms by (auto simp: accepts_iff too_many_def list_all2_lengthD)
  moreover have "list_all2 (\<lambda>x y. entry field' x = Inr y) out out"
    unfolding list_all2_same using entry_range [OF assms] entry_stable by blast
  ultimately show ?thesis by (simp add: accepts_iff)
qed

end

lemma method_entry_Inr:
  "method_entry field raw = Inr s \<longleftrightarrow>
     \<not> ContainsAny raw line_bytes \<and> TrimSpace raw \<noteq> [] \<and> list_all token_byte (TrimSpace raw)
     \<and> ToUpper (TrimSpace raw) = s"
  unfolding method_entry_def Let_def isValidHeaderToken_alt if_Inl_eq_Inr sum.inject by blast

lemma ContainsAny_token: "list_all token_byte s \<Longrightarrow> \<not> ContainsAny s line_bytes"
  by (fastforce simp: ContainsAny_def list_all_iff list_ex_iff line_bytes_def dest: token_byte_not_sep)

lemma token_ToUpper [simp]: "list_all token_byte (ToUpper s) = list_all token_byte s"
  by (simp add: ToUpper_def list_all_iff)

lemma ToUpper_Nil [simp]: "ToUpper s = [] \<longleftrightarrow> s = []"
  by (simp add: ToUpper_def)

lemma method_entry_stable:
  "method_entry field x = Inr y \<Longrightarrow> method_entry field' y = Inr y"
  by (auto simp: method_entry_Inr TrimSpace_token ContainsAny_token)

lemma isSafePathValue_alt: "isSafePathValue s \<longleftrightarrow> (\<forall>c \<in> set s. byte c > 32 \<and> byte c \<noteq> 127)"
proof -
  have del: "byte c = 127 \<longleftrightarrow> c = CHR 0x7F" for c
    using byte_eq_iff [of c "CHR 0x7F"] by simp
  have ctl: "byte c > 32 \<Longrightarrow> c \<noteq> CHR 0x0D \<and> c \<noteq> CHR 0x0A \<and> c \<noteq> CHR 0x00" for c
    by auto
  have "(\<not> (c = CHR 0x0D \<or> c = CHR 0x0A \<or> c = CHR 0x00) \<and> \<not> (byte c \<le> 0x20 \<or> c = CHR 0x7F))
      = (byte c > 32 \<and> byte c \<noteq> 127)" for c
    using ctl [of c] del [of c] by linarith
  then show ?thesis unfolding isSafePathValue_def list_all_iff by simp
qed

lemma path_entry_Inr:
  "path_entry field raw = Inr s \<longleftrightarrow>
     \<not> ContainsAny raw line_bytes \<and> HasPrefix (TrimSpace raw) ''/''
     \<and> \<not> ContainsAny (TrimSpace raw) ''?#'' \<and> isSafePathValue (TrimSpace raw) \<and> TrimSpace raw = s"
  unfolding path_entry_def Let_def if_Inl_eq_Inr sum.inject by (auto simp: HasPrefix_def)

lemma path_entry_stable: "path_entry field x = Inr y \<Longrightarrow> path_entry field' y = Inr y"
  using set_TrimSpace [of x] by (auto simp: path_entry_Inr ContainsAny_def list_ex_iff)

interpretation methods: stable_list_parser ParseHTTPMethodList method_entry
  by unfold_locales (auto simp: ParseHTTPMethodList_def dest: method_entry_stable)

interpretation paths: stable_list_parser ParsePathList path_entry
  by unfold_locales (auto simp: ParsePathList_def dest: path_entry_stable)

interpretation cidrs: list_parser ParseCIDRList cidr_entry
  by unfold_locales (simp add: ParseCIDRList_def)


subsection \<open>What an entry of a CIDR list denotes\<close>

definition cidr_denotes :: "string \<Rightarrow> addr \<Rightarrow> bool" where
  "cidr_denotes v a =
     (if CHR ''/'' \<in> set (TrimSpace v)
      then (case ParsePrefix (TrimSpace v) of None \<Rightarrow> False | Some p \<Rightarrow> prefix_Contains p a)
      else (case ParseAddr (TrimSpace v) of None \<Rightarrow> False | Some b \<Rightarrow> a = without_zone (Unmap b)))"

lemma PrefixFrom_full_Contains:
  "Is4 a \<Longrightarrow> prefix_Contains (PrefixFrom a 32) b \<longleftrightarrow> b = without_zone a"
  "\<not> Is4 a \<Longrightarrow> prefix_Contains (PrefixFrom a 128) b \<longleftrightarrow> b = without_zone a"
  by (cases a; cases b; force simp: PrefixFrom_def)+

lemma valid_PrefixFrom_full:
  "Is4 a \<Longrightarrow> valid_prefix (PrefixFrom a 32)" "\<not> Is4 a \<Longrightarrow> valid_prefix (PrefixFrom a 128)"
  by (cases a; simp add: PrefixFrom_def)+

lemma cidr_entry_props:
  assumes "cidr_entry field v = Inr p"
  shows "valid_prefix p \<and> Masked p = p \<and> (\<forall>a. prefix_Contains p a \<longleftrightarrow> cidr_denotes v a)"
  using assms
  by (auto simp: cidr_entry_def Let_def cidr_denotes_def result_simps Masked_Contains
      PrefixFrom_full_Contains valid_ParsePrefix valid_PrefixFrom_full
      split: if_splits option.splits)

text \<open>An IPv4-mapped prefix of at least 96 bits holds IPv4-mapped addresses only.\<close>

lemma drop_bit_more:
  fixes w v :: "'a::len word"
  assumes "m \<le> n" and "drop_bit m w = drop_bit m v"
  shows "drop_bit n w = drop_bit n v"
proof -
  have "drop_bit n x = drop_bit (n - m) (drop_bit m x)" for x :: "'a word"
    using assms(1) by simp
  then show ?thesis using assms(2) by metis
qed

lemma mapped_prefix_members:
  assumes "prefix_Contains (Prefix (V6 w z) b) a" and "b \<ge> 96" and "Is4In6 (V6 w z)"
  shows "Is4In6 a"
proof (cases a)
  case (V4 v)
  with assms show ?thesis by simp
next
  case (V6 v y)
  then have "drop_bit 32 w = drop_bit 32 v"
    using assms(1,2) by (auto intro: drop_bit_more [of "128 - b" 32])
  with V6 assms(3) show ?thesis by simp
qed

subsection \<open>Writing a message (json.go)\<close>

text \<open>
  A writer takes a buffer and returns the number of bytes written, an error and its new
  state. The loop stops on an error, on an empty rest, or when \<open>b[n:]\<close> is out of range;
  it does not return when the writer makes no progress for ever.
\<close>

type_synonym 'w writer = "'w \<Rightarrow> string \<Rightarrow> nat \<times> go_error option \<times> 'w"

datatype 'w write_end = Wrote 'w | WriteErr go_error 'w | WritePanic 'w

partial_function (option) write_loop :: "'w writer \<Rightarrow> string \<Rightarrow> 'w \<Rightarrow> 'w write_end option" where
  "write_loop wr b w =
     (if b = [] then Some (Wrote w)
      else (case wr w b of (n, err, w') \<Rightarrow>
        (case err of
           Some e \<Rightarrow> Some (WriteErr e w')
         | None \<Rightarrow> if n > length b then Some (WritePanic w') else write_loop wr (drop n b) w')))"

definition WriteJSON :: "('v \<Rightarrow> string result) \<Rightarrow> 'w writer \<Rightarrow> 'w \<Rightarrow> 'v \<Rightarrow> 'w write_end option" where
  "WriteJSON marshal wr w v =
     (case marshal v of
        Inl e \<Rightarrow> Some (WriteErr e w)
      | Inr b \<Rightarrow> write_loop wr (b @ [CHR 0x0A]) w)"

text \<open>
  What \<open>io.Writer\<close> documents: \<open>0 <= n <= len(p)\<close>, and an error when \<open>n < len(p)\<close>.
  A weaker law is enough for the loop: without an error some byte was written.
\<close>

definition io_writer :: "'w writer \<Rightarrow> bool" where
  "io_writer wr \<longleftrightarrow> (\<forall>w b. case wr w b of (n, err, w') \<Rightarrow> n \<le> length b \<and> (n < length b \<longrightarrow> err \<noteq> None))"

definition progress_writer :: "'w writer \<Rightarrow> ('w \<Rightarrow> string) \<Rightarrow> bool" where
  "progress_writer wr sent \<longleftrightarrow> (\<forall>w b. b \<noteq> [] \<longrightarrow> (case wr w b of (n, err, w') \<Rightarrow>
     n \<le> length b \<and> sent w' = sent w @ take n b \<and> (err = None \<longrightarrow> n > 0)))"

lemma write_loop_progress:
  assumes "progress_writer wr sent"
  shows "(\<exists>w'. write_loop wr b w = Some (Wrote w') \<and> sent w' = sent w @ b)
    \<or> (\<exists>e w' n. write_loop wr b w = Some (WriteErr e w') \<and> sent w' = sent w @ take n b)"
proof (induction b arbitrary: w rule: measure_induct_rule [of length])
  case (less b)
  show ?case
  proof (cases "b = []")
    case True
    then have "write_loop wr b w = Some (Wrote w)" by (subst write_loop.simps) simp
    with True show ?thesis by simp
  next
    case False
    obtain n err w' where wr: "wr w b = (n, err, w')" by (cases "wr w b") auto
    have "case wr w b of (n, err, w') \<Rightarrow>
        n \<le> length b \<and> sent w' = sent w @ take n b \<and> (err = None \<longrightarrow> n > 0)"
      using assms False unfolding progress_writer_def by (elim allE [of _ w] allE [of _ b]) simp
    then have p: "n \<le> length b" "sent w' = sent w @ take n b" "err = None \<longrightarrow> n > 0"
      by (simp_all add: wr)
    show ?thesis
    proof (cases err)
      case (Some e)
      then have "write_loop wr b w = Some (WriteErr e w')"
        using False wr by (subst write_loop.simps) simp
      with p(2) show ?thesis by blast
    next
      case None
      then have eq: "write_loop wr b w = write_loop wr (drop n b) w'"
        using False wr p(1) by (subst write_loop.simps) simp
      have "length (drop n b) < length b" using False p(3) None by simp
      from less.IH [OF this, of w'] show ?thesis
      proof (elim disjE exE conjE)
        fix u assume "write_loop wr (drop n b) w' = Some (Wrote u)" "sent u = sent w' @ drop n b"
        then show ?thesis unfolding eq p(2) by simp
      next
        fix e u m
        assume "write_loop wr (drop n b) w' = Some (WriteErr e u)" "sent u = sent w' @ take m (drop n b)"
        then show ?thesis unfolding eq p(2) append_assoc take_add [symmetric] by blast
      qed
    qed
  qed
qed


subsection \<open>Properties\<close>

text \<open>header transforms cannot inject headers. A header name the validation accepts is a
  non-empty token in canonical form that is not one of the hop-by-hop names, an accepted value has
  at most 8192 bytes and no line break or NUL, and both validations leave their own results
  alone, so that the server accepts what the client validated.\<close>

theorem header_transform_entries_safe:
  assumes "NormalizeHeaderName field raw = Inr name"
    and "ValidateHeaderValue field raw value = Inr v"
  shows "name \<noteq> [] \<and> (\<forall>c \<in> set name. c \<notin> {CHR '':'', CHR '' '', CHR 0x0A, CHR 0x0D, CHR 0x00})
    \<and> CanonicalHeaderKey name = name \<and> \<not> isDisallowedTransformedHeader name
    \<and> length v \<le> 8192 \<and> (\<forall>c \<in> set v. c \<notin> {CHR 0x0A, CHR 0x0D, CHR 0x00})
    \<and> NormalizeHeaderName field' name = Inr name
    \<and> ValidateHeaderValue field' raw' v = Inr v"
proof -
  have tok: "list_all token_byte name" and name: "name \<noteq> []" "CanonicalHeaderKey name = name"
    "\<not> isDisallowedTransformedHeader name"
    using assms(1) by (auto simp: NormalizeHeaderName_Inr isDisallowedTransformedHeader_def)
  have val: "length v \<le> 8192" "list_all safe_value_byte v"
    using assms(2) by (auto simp: ValidateHeaderValue_Inr)
  have "\<forall>c \<in> set name. c \<notin> {CHR '':'', CHR '' '', CHR 0x0A, CHR 0x0D, CHR 0x00}"
    using tok token_byte_not_sep by (simp add: list_all_iff)
  moreover have "\<forall>c \<in> set v. c \<notin> {CHR 0x0A, CHR 0x0D, CHR 0x00}"
    using val(2) safe_value_byte_no_break by (simp add: list_all_iff)
  ultimately show ?thesis
    using name val(1) NormalizeHeaderName_idem [OF assms(1)] ValidateHeaderValue_idem [OF assms(2)]
    by (simp only: simp_thms)
qed

theorem header_transform_entries_safe_witness:
  "CanonicalHeaderKey ''X-Env'' = ''X-Env'' \<and> NormalizeHeaderName ''f'' ''X-Env'' = Inr ''X-Env''
    \<and> ValidateHeaderValue ''f'' ''r'' ''a b'' = Inr ''a b''"
proof -
  have "NormalizeHeaderName ''f'' '' x-env '' = Inr ''X-Env''"
    "ValidateHeaderValue ''f'' '' x-env '' '' a b '' = Inr ''a b''"
    by (simp_all add: eval_simps)
  from header_transform_entries_safe [OF this, of "''f''" "''r''"] show ?thesis by blast
qed

text \<open>the method and path lists of a tunnel keep their meaning on the way from the command
  line to the server: parsing the result of an accepted list accepts it and gives it back, every
  method is an upper-case token and every path starts with a slash and has no query, fragment,
  space or control byte.\<close>

theorem allowlists_reparse:
  assumes "ParseHTTPMethodList field methods n = Inr ms" and "ParsePathList field' paths n = Inr ps"
  shows "ParseHTTPMethodList field'' ms n = Inr ms \<and> ParsePathList field'' ps n = Inr ps
    \<and> (\<forall>m \<in> set ms. m \<noteq> [] \<and> list_all token_byte m \<and> ToUpper m = m)
    \<and> (\<forall>p \<in> set ps. HasPrefix p ''/'' \<and> CHR ''?'' \<notin> set p \<and> CHR ''#'' \<notin> set p
        \<and> (\<forall>c \<in> set p. byte c > 32 \<and> byte c \<noteq> 127))"
proof -
  have "\<forall>m \<in> set ms. m \<noteq> [] \<and> list_all token_byte m \<and> ToUpper m = m"
    using methods.entry_range [OF assms(1)] by (fastforce simp: method_entry_Inr)
  moreover have "\<forall>p \<in> set ps. HasPrefix p ''/'' \<and> CHR ''?'' \<notin> set p \<and> CHR ''#'' \<notin> set p
      \<and> (\<forall>c \<in> set p. byte c > 32 \<and> byte c \<noteq> 127)"
    using paths.entry_range [OF assms(2)]
    by (fastforce simp: path_entry_Inr isSafePathValue_alt ContainsAny_def list_ex_iff)
  ultimately show ?thesis
    using methods.reparse [OF assms(1)] paths.reparse [OF assms(2)] by blast
qed

theorem allowlists_reparse_witness:
  "ParseHTTPMethodList ''g'' [''GET'', ''POST''] 2 = Inr [''GET'', ''POST'']
    \<and> ParsePathList ''g'' [''/api/v1''] 2 = Inr [''/api/v1'']"
proof -
  have "ParseHTTPMethodList ''f'' [''get'', '' Post''] 2 = Inr [''GET'', ''POST'']"
    "ParsePathList ''f'' [''/api/v1 ''] 2 = Inr [''/api/v1'']"
    by (simp_all add: eval_simps)
  from allowlists_reparse [OF this, of "''g''"] show ?thesis by blast
qed

text \<open>a parsed CIDR list means what its entries say. The list has one prefix per entry, in
  order and within the limit; each is valid and has its host bits cleared; and it contains
  exactly the addresses its entry denotes: the members of a written prefix, or the one address
  written, with an IPv4-mapped address standing for the IPv4 address.\<close>

theorem ParseCIDRList_denotes:
  assumes "ParseCIDRList field vs n = Inr ps"
  shows "list_all2 (\<lambda>v p. valid_prefix p \<and> Masked p = p
            \<and> (\<forall>a. prefix_Contains p a \<longleftrightarrow> cidr_denotes v a)) vs ps
    \<and> (n > 0 \<longrightarrow> int (length ps) \<le> n)"
proof -
  have "list_all2 (\<lambda>v p. cidr_entry field v = Inr p) vs ps"
    using assms by (simp add: cidrs.accepts_iff)
  then show ?thesis
    using cidrs.within_limit [OF assms]
    by (auto elim!: list_all2_mono dest: cidr_entry_props)
qed

theorem ParseCIDRList_denotes_witness:
  "list_all2 (\<lambda>v p. valid_prefix p \<and> Masked p = p
        \<and> (\<forall>a. prefix_Contains p a \<longleftrightarrow> cidr_denotes v a))
      [''10.1.2.3/8'', ''::ffff:1.2.3.4''] [Prefix (V4 0x0A000000) 8, Prefix (V4 0x01020304) 32]"
proof -
  have "ParseCIDRList ''f'' [''10.1.2.3/8'', ''::ffff:1.2.3.4''] 64
      = Inr [Prefix (V4 0x0A000000) 8, Prefix (V4 0x01020304) 32]"
    by (simp add: eval_simps)
  from ParseCIDRList_denotes [OF this] show ?thesis by blast
qed

text \<open>a CIDR entry written as an IPv4-mapped prefix of 96 bits or more (such as
  \<open>::ffff:1.2.3.0/120\<close>) is accepted and kept in the IPv6 family, so it contains no
  unmapped address: as a deny rule it never applies to an IPv4 client.\<close>

theorem mapped_cidr_matches_no_client:
  assumes "cidr_entry field v = Inr p" and "ParsePrefix (TrimSpace v) = Some (Prefix (V6 w z) b)"
    and "Is4In6 (V6 w z)" and "b \<ge> 96"
  shows "\<not> prefix_Contains p (Unmap a)"
proof -
  have "CHR ''/'' \<in> set (TrimSpace v)"
    using assms(2) by (auto simp: ParsePrefix_def Cut_def split: option.splits if_splits)
      (metis Index_char_None_iff option.distinct(1) set_rev)
  then have "prefix_Contains p (Unmap a) \<longleftrightarrow> prefix_Contains (Prefix (V6 w z) b) (Unmap a)"
    using cidr_entry_props [OF assms(1)] assms(2) by (simp add: cidr_denotes_def)
  then show ?thesis
    using mapped_prefix_members [of w z b "Unmap a"] assms(3,4) Unmap_not_mapped [of a] by blast
qed

theorem mapped_cidr_matches_no_client_witness:
  "\<not> prefix_Contains (Prefix (V6 0xffff01020300 []) 120) (Unmap (V4 0x01020304))"
proof -
  have "cidr_entry ''deny_cidr'' ''::ffff:1.2.3.0/120'' = Inr (Prefix (V6 0xffff01020300 []) 120)"
    "ParsePrefix (TrimSpace ''::ffff:1.2.3.0/120'') = Some (Prefix (V6 0xffff01020300 []) 120)"
    by (simp_all add: eval_simps)
  from mapped_cidr_matches_no_client [OF this, of "V4 0x01020304"] show ?thesis by simp
qed

text \<open>C33: writing a control message terminates and loses nothing. With a writer that either
  fails or makes progress, the loop returns; when it returns without an error the bytes sent are
  the marshalled message and its newline, and on an error they are a prefix of them.\<close>

theorem WriteJSON_complete:
  assumes "progress_writer wr sent"
  shows "\<exists>r. WriteJSON marshal wr w v = Some r \<and>
    (case r of
       Wrote w' \<Rightarrow> (\<exists>b. marshal v = Inr b \<and> sent w' = sent w @ b @ [CHR 0x0A])
     | WriteErr e w' \<Rightarrow> marshal v = Inl e \<and> w' = w
         \<or> (\<exists>b n. marshal v = Inr b \<and> sent w' = sent w @ take n (b @ [CHR 0x0A]))
     | WritePanic w' \<Rightarrow> False)"
proof (cases "marshal v")
  case (Inl e)
  then show ?thesis by (simp add: WriteJSON_def)
next
  case (Inr b)
  with write_loop_progress [OF assms, of "b @ [CHR 0x0A]" w] show ?thesis
    by (auto simp: WriteJSON_def simp del: take_append)
qed

theorem WriteJSON_complete_witness:
  "\<exists>r. WriteJSON (\<lambda>s. Inr (CHR 0x22 # s @ [CHR 0x22]))
      (\<lambda>out b. if length out < 9 then (min 2 (length b), None, out @ take 2 b)
        else (min 1 (length b), Some (Msg ''closed''), out @ take 1 b))
      [] ''tunnel'' = Some r"
  (is "\<exists>r. WriteJSON ?m ?w [] _ = Some r")
proof -
  have "progress_writer (\<lambda>out b. if length out < 9 then (min 2 (length b), None, out @ take 2 b)
      else (min 1 (length b), Some (Msg ''closed''), out @ take 1 b)) (\<lambda>out. out)"
    by (auto simp: progress_writer_def min_def)
  from WriteJSON_complete [OF this, of ?m "[]" "''tunnel''"] show ?thesis by blast
qed

end
