(* ===== verification/GoHttp.thy ===== *)
theory GoHttp
  imports GoNet "HOL-Library.List_Lexorder" "HOL-Library.Char_ord"
begin

text \<open>
  The part of \<open>net/http\<close>, \<open>net/url\<close> and \<open>net/http/httputil\<close> the server rests on, as
  Go 1.23 has it: requests and responses, the request multiplexer (cleaned paths, exact and
  subtree patterns, the redirect to a trailing slash), percent decoding, query parsing, and what
  \<open>ReverseProxy\<close> does to the headers of a request around its \<open>Rewrite\<close> hook.
  Response bodies are texts, JSON values (the argument of the encoder) or the name of an
  embedded asset; \<open>JNum\<close> is a JSON number that is not written as an integer.
\<close>

subsection \<open>Requests and responses\<close>

record http_request =
  rq_method :: string
  rq_host :: string
  rq_path :: string
  rq_escaped_path :: string
  rq_raw_query :: string
  rq_header :: header
  rq_remote_addr :: string
  rq_tls :: bool

datatype json =
    JNull
  | JBool bool
  | JInt int
  | JNum string
  | JStr string
  | JArr "json list"
  | JObj "(string \<times> json) list"

datatype body = NoBody | Text string | Json json | Asset string

record http_response =
  rs_status :: int
  rs_header :: header
  rs_body :: body

definition no_header :: header where
  "no_header = (\<lambda>_. None)"

text \<open>\<open>http.Error\<close> on a writer whose headers so far are \<open>h\<close>; \<open>http.NotFound\<close>.\<close>

definition http_Error :: "header \<Rightarrow> string \<Rightarrow> int \<Rightarrow> http_response" where
  "http_Error h msg code =
     \<lparr>rs_status = code,
      rs_header = hdr_Set ''X-Content-Type-Options'' ''nosniff''
        (hdr_Set ''Content-Type'' ''text/plain; charset=utf-8'' (hdr_Del ''Content-Length'' h)),
      rs_body = Text (msg @ [CHR 0x0A])\<rparr>"

definition http_NotFound :: http_response where
  "http_NotFound = http_Error no_header ''404 page not found'' 404"

definition status_only :: "int \<Rightarrow> http_response" where
  "status_only code = \<lparr>rs_status = code, rs_header = no_header, rs_body = NoBody\<rparr>"

subsection \<open>Percent decoding and queries\<close>

fun pct_decode :: "bool \<Rightarrow> string \<Rightarrow> string option" where
  "pct_decode sp [] = Some []"
| "pct_decode sp (c # s) =
     (if c = CHR ''%'' then
        (case s of
           a # b # s' \<Rightarrow>
             (case (hex_val a, hex_val b) of
                (Some x, Some y) \<Rightarrow> map_option ((#) (char_of (16 * x + y))) (pct_decode sp s')
              | _ \<Rightarrow> None)
         | _ \<Rightarrow> None)
      else map_option ((#) (if sp \<and> c = CHR ''+'' then CHR '' '' else c)) (pct_decode sp s))"

definition PathUnescape :: "string \<Rightarrow> string option" where
  "PathUnescape s = pct_decode False s"

definition QueryUnescape :: "string \<Rightarrow> string option" where
  "QueryUnescape s = pct_decode True s"

text \<open>\<open>url.ParseQuery\<close>: empty pairs and pairs with a semicolon or a bad escape are dropped.\<close>

definition query_pair :: "string \<Rightarrow> (string \<times> string) option" where
  "query_pair p =
     (if p = [] \<or> CHR '';'' \<in> set p then None
      else (case Cut p ''='' of (k, v, _) \<Rightarrow>
        (case (QueryUnescape k, QueryUnescape v) of (Some k', Some v') \<Rightarrow> Some (k', v') | _ \<Rightarrow> None)))"

definition ParseQuery :: "string \<Rightarrow> (string \<times> string) list" where
  "ParseQuery q = List.map_filter query_pair (Split_char CHR ''&'' q)"

definition query_Get :: "string \<Rightarrow> string \<Rightarrow> string" where
  "query_Get q key = (case filter (\<lambda>p. fst p = key) (ParseQuery q) of [] \<Rightarrow> [] | p # _ \<Rightarrow> snd p)"

text \<open>\<open>url.QueryEscape\<close> and \<open>Values.Encode\<close>: the pairs by key, keys in order.\<close>

definition upper_hex :: "nat \<Rightarrow> char" where
  "upper_hex n = (if n < 10 then char_of (48 + n) else char_of (55 + n))"

definition query_plain :: "char \<Rightarrow> bool" where
  "query_plain c \<longleftrightarrow> is_lower c \<or> is_upper c \<or> is_digit c
     \<or> c \<in> set [CHR ''-'', CHR ''_'', CHR ''.'', CHR ''~'']"

definition escape_byte :: "char \<Rightarrow> string" where
  "escape_byte c =
     (if query_plain c then [c] else if c = CHR '' '' then ''+''
      else [CHR ''%'', upper_hex (byte c div 16), upper_hex (byte c mod 16)])"

definition QueryEscape :: "string \<Rightarrow> string" where
  "QueryEscape s = concat (map escape_byte s)"

definition Encode :: "(string \<times> string) list \<Rightarrow> string" where
  "Encode ps = Join_char CHR ''&''
     (map (\<lambda>(k, v). QueryEscape k @ ''='' @ QueryEscape v) (sort_key fst ps))"

text \<open>\<open>cleanQueryParams\<close> of the reverse proxy: a query that \<open>ParseQuery\<close> does not read
  completely is replaced by what it does read.\<close>

fun query_clean :: "string \<Rightarrow> bool" where
  "query_clean [] = True"
| "query_clean (c # s) =
     (if c = CHR '';'' then False
      else if c = CHR ''%'' then
        (case s of a # b # s' \<Rightarrow> hex_val a \<noteq> None \<and> hex_val b \<noteq> None \<and> query_clean s' | _ \<Rightarrow> False)
      else query_clean s)"

definition cleanQueryParams :: "string \<Rightarrow> string" where
  "cleanQueryParams s = (if query_clean s then s else Encode (ParseQuery s))"

lemma pct_decode_plain:
  "CHR ''%'' \<notin> set s \<Longrightarrow> \<not> sp \<or> CHR ''+'' \<notin> set s \<Longrightarrow> pct_decode sp s = Some s"
  by (induction s) auto

subsection \<open>Paths\<close>

text \<open>\<open>path.Clean\<close> on a rooted path, by its segments.\<close>

fun clean_segments :: "string list \<Rightarrow> string list \<Rightarrow> string list" where
  "clean_segments out [] = out"
| "clean_segments out (s # ss) =
     (if s = [] \<or> s = ''.'' then clean_segments out ss
      else if s = ''..'' then clean_segments (butlast out) ss
      else clean_segments (out @ [s]) ss)"

definition clean_rooted :: "string \<Rightarrow> string" where
  "clean_rooted p = CHR ''/'' # Join_char CHR ''/'' (clean_segments [] (Split_char CHR ''/'' p))"

text \<open>\<open>cleanPath\<close> of the multiplexer keeps a trailing slash.\<close>

definition cleanPath :: "string \<Rightarrow> string" where
  "cleanPath p =
     (if p = [] then ''/''
      else
        (let p = (if hd p \<noteq> CHR ''/'' then CHR ''/'' # p else p);
             np = clean_rooted p
         in if last p = CHR ''/'' \<and> np \<noteq> ''/'' then np @ ''/'' else np))"

lemma clean_segments_clean:
  assumes "\<And>s. s \<in> set out \<Longrightarrow> s \<noteq> [] \<and> s \<noteq> ''.'' \<and> s \<noteq> ''..''"
  shows "s \<in> set (clean_segments out ss) \<Longrightarrow> s \<noteq> [] \<and> s \<noteq> ''.'' \<and> s \<noteq> ''..''"
  using assms
proof (induction out ss rule: clean_segments.induct)
  case (1 out)
  then show ?case by simp
next
  case (2 out s' ss)
  have "t \<in> set (butlast out) \<Longrightarrow> t \<noteq> [] \<and> t \<noteq> ''.'' \<and> t \<noteq> ''..''" for t
    using 2(5) in_set_butlastD by fastforce
  with 2 show ?case by (auto split: if_splits)
qed

subsection \<open>The multiplexer\<close>

text \<open>
  A pattern is a path (\<open>Exact\<close>) or a path with a trailing slash (\<open>Subtree\<close>), by its
  segments. The path of a request is split at its slashes and each segment is unescaped; an
  ill-formed escape leaves the segment as it is. An exact pattern wins over subtrees and a
  longer subtree over a shorter one.
\<close>

datatype mux_pattern = Exact "string list" | Subtree "string list"

definition mux_parts :: "string \<Rightarrow> string list" where
  "mux_parts p =
     map (\<lambda>s. case PathUnescape s of None \<Rightarrow> s | Some t \<Rightarrow> t) (Split_char CHR ''/'' (drop 1 p))"

fun pattern_matches :: "string list \<Rightarrow> mux_pattern \<Rightarrow> bool" where
  "pattern_matches parts (Exact segs) = (parts = segs)"
| "pattern_matches parts (Subtree segs) = (prefix segs parts \<and> length segs < length parts)"

fun pattern_rank :: "mux_pattern \<Rightarrow> nat" where
  "pattern_rank (Exact segs) = 2 * length segs + 1"
| "pattern_rank (Subtree segs) = 2 * length segs"

fun better :: "(mux_pattern \<times> 'h) \<Rightarrow> (mux_pattern \<times> 'h) option \<Rightarrow> (mux_pattern \<times> 'h) option" where
  "better a None = Some a"
| "better a (Some b) = (if pattern_rank (fst b) \<ge> pattern_rank (fst a) then Some b else Some a)"

definition mux_match :: "(mux_pattern \<times> 'h) list \<Rightarrow> string \<Rightarrow> (mux_pattern \<times> 'h) option" where
  "mux_match routes p =
     (if p = [] then None
      else foldr better (filter (\<lambda>r. pattern_matches (mux_parts p) (fst r)) routes) None)"

fun exact_match :: "(mux_pattern \<times> 'h) option \<Rightarrow> string \<Rightarrow> bool" where
  "exact_match None p = False"
| "exact_match (Some (Exact segs, h)) p = True"
| "exact_match (Some (Subtree segs, h)) p =
     ((p = [] \<or> last p = CHR ''/'') \<and> length segs + 1 = length (filter (\<lambda>c. c = CHR ''/'') p))"

text \<open>
  The outcome: a handler, a redirect (to a path, with the query of the request) or 404. The
  redirect to a trailing slash comes before the one to the cleaned path.
\<close>

datatype 'h mux_result = MuxHandler 'h | MuxRedirect string string | MuxNotFound

definition slash_redirect :: "(mux_pattern \<times> 'h) list \<Rightarrow> string \<Rightarrow> bool" where
  "slash_redirect routes p \<longleftrightarrow>
     \<not> exact_match (mux_match routes p) p \<and> p \<noteq> [] \<and> last p \<noteq> CHR ''/''
     \<and> exact_match (mux_match routes (p @ ''/'')) (p @ ''/'')"

definition mux_handler :: "(mux_pattern \<times> 'h) list \<Rightarrow> http_request \<Rightarrow> 'h mux_result" where
  "mux_handler routes r =
     (let esc = rq_escaped_path r;
          p = (if rq_method r = ''CONNECT'' then esc else cleanPath esc)
      in if slash_redirect routes p then MuxRedirect (cleanPath (rq_path r) @ ''/'') (rq_raw_query r)
         else if p \<noteq> esc then MuxRedirect p (rq_raw_query r)
         else (case mux_match routes p of None \<Rightarrow> MuxNotFound | Some (_, h) \<Rightarrow> MuxHandler h))"

subsection \<open>The reverse proxy\<close>

definition hop_headers :: "string list" where
  "hop_headers = [''Connection'', ''Proxy-Connection'', ''Keep-Alive'', ''Proxy-Authenticate'',
     ''Proxy-Authorization'', ''Te'', ''Trailer'', ''Transfer-Encoding'', ''Upgrade'']"

text \<open>\<open>textproto.TrimString\<close> and the tokens of a comma-separated header.\<close>

definition ascii_space :: "char \<Rightarrow> bool" where
  "ascii_space c \<longleftrightarrow> c \<in> set [CHR '' '', CHR 0x09, CHR 0x0A, CHR 0x0D]"

definition TrimString :: "string \<Rightarrow> string" where
  "TrimString s = rev (dropWhile ascii_space (rev (dropWhile ascii_space s)))"

definition header_tokens :: "string list \<Rightarrow> string list" where
  "header_tokens vs = filter (\<lambda>s. s \<noteq> []) (map TrimString (concat (map (Split_char CHR '','') vs)))"

definition hdr_Del_all :: "string list \<Rightarrow> header \<Rightarrow> header" where
  "hdr_Del_all ks h = fold hdr_Del ks h"

definition removeHopByHopHeaders :: "header \<Rightarrow> header" where
  "removeHopByHopHeaders h = hdr_Del_all hop_headers (hdr_Del_all (header_tokens (hdr_values h ''Connection'')) h)"

definition contains_token :: "string list \<Rightarrow> string \<Rightarrow> bool" where
  "contains_token vs t \<longleftrightarrow> list_ex (\<lambda>s. EqualFold s t) (header_tokens vs)"

definition upgradeType :: "header \<Rightarrow> string" where
  "upgradeType h = (if contains_token (hdr_values h ''Connection'') ''Upgrade'' then hdr_Get h ''Upgrade'' else [])"

text \<open>The outgoing headers before the \<open>Rewrite\<close> hook runs.\<close>

definition proxy_out_header :: "header \<Rightarrow> header" where
  "proxy_out_header h =
     (let out = removeHopByHopHeaders h;
          out = (if contains_token (hdr_values h ''Te'') ''trailers'' then hdr_Set ''Te'' ''trailers'' out else out);
          out = (if upgradeType h \<noteq> [] then hdr_Set ''Upgrade'' (upgradeType h) (hdr_Set ''Connection'' ''Upgrade'' out)
                 else out)
      in hdr_Del_all [''Forwarded'', ''X-Forwarded-For'', ''X-Forwarded-Host'', ''X-Forwarded-Proto''] out)"

definition SetXForwarded :: "http_request \<Rightarrow> header \<Rightarrow> header" where
  "SetXForwarded r out =
     (let out = (case SplitHostPort (rq_remote_addr r) of
                   None \<Rightarrow> hdr_Del ''X-Forwarded-For'' out
                 | Some (ip, _) \<Rightarrow>
                     hdr_Set ''X-Forwarded-For''
                       (concat (map (\<lambda>v. v @ '', '') (hdr_values out ''X-Forwarded-For'')) @ ip) out);
          out = hdr_Set ''X-Forwarded-Host'' (rq_host r) out
      in hdr_Set ''X-Forwarded-Proto'' (if rq_tls r then ''https'' else ''http'') out)"


lemmas [eval_simps] =
  no_header_def http_Error_def http_NotFound_def status_only_def PathUnescape_def QueryUnescape_def
  query_pair_def ParseQuery_def query_Get_def List.map_filter_def upper_hex_def query_plain_def
  escape_byte_def QueryEscape_def Encode_def cleanQueryParams_def clean_rooted_def cleanPath_def
  mux_parts_def mux_match_def slash_redirect_def mux_handler_def hop_headers_def ascii_space_def
  TrimString_def header_tokens_def hdr_Del_all_def removeHopByHopHeaders_def contains_token_def
  upgradeType_def proxy_out_header_def SetXForwarded_def

subsection \<open>Deleting and setting several headers\<close>

lemma hdr_Del_all_apply:
  "hdr_Del_all ks h j = (if j \<in> CanonicalHeaderKey ` set ks then None else h j)"
  unfolding hdr_Del_all_def by (induction ks arbitrary: h) (auto simp: image_iff)

lemma hdr_Del_all_other: "j \<notin> CanonicalHeaderKey ` set ks \<Longrightarrow> hdr_Del_all ks h j = h j"
  by (simp add: hdr_Del_all_apply)

text \<open>The canonical forms of the header names the program writes.\<close>

lemma canonical_names [simp]:
  "CanonicalHeaderKey ''Authorization'' = ''Authorization''"
  "CanonicalHeaderKey ''Forwarded'' = ''Forwarded''"
  "CanonicalHeaderKey ''X-Forwarded-For'' = ''X-Forwarded-For''"
  "CanonicalHeaderKey ''X-Forwarded-Host'' = ''X-Forwarded-Host''"
  "CanonicalHeaderKey ''X-Forwarded-Proto'' = ''X-Forwarded-Proto''"
  "CanonicalHeaderKey ''X-Forwarded-Port'' = ''X-Forwarded-Port''"
  "CanonicalHeaderKey ''X-Real-IP'' = ''X-Real-Ip''"
  "CanonicalHeaderKey ''X-Real-Ip'' = ''X-Real-Ip''"
  "CanonicalHeaderKey ''Connection'' = ''Connection''"
  "CanonicalHeaderKey ''Upgrade'' = ''Upgrade''"
  "CanonicalHeaderKey ''Te'' = ''Te''"
  "CanonicalHeaderKey ''Content-Type'' = ''Content-Type''"
  "CanonicalHeaderKey ''Content-Length'' = ''Content-Length''"
  "CanonicalHeaderKey ''Cache-Control'' = ''Cache-Control''"
  "CanonicalHeaderKey ''WWW-Authenticate'' = ''Www-Authenticate''"
  "CanonicalHeaderKey ''X-Content-Type-Options'' = ''X-Content-Type-Options''"
  by (simp_all add: eval_simps)

end
