(* ===== verification/TunnelProxy.thy ===== *)
theory TunnelProxy
  imports Registry Control GoHttp
begin

text \<open>
  \<open>internal/server/http_tunnel.go\<close>: routing a public request to a tunnel by its host, the
  access rules of the tunnel (methods, paths, CIDR lists, basic authentication), and the headers
  of the request and the response on their way through the reverse proxy. The transport (a new
  stream of the tunnel's session) is the argument \<open>upstream\<close>: the response of session
  \<open>c\<close> to a request, or a failure.
\<close>

record config =
  cfg_base_domain :: string
  cfg_tunnel_domain :: string
  cfg_trust_proxy_headers :: bool
  cfg_tcp_port_range_start :: int
  cfg_tcp_port_range_end :: int
  cfg_metrics_token :: string
  cfg_admin_token :: string
  cfg_max_tunnels_per_token :: int
  cfg_max_tunnel_creates_per_minute :: int
  cfg_db_path :: string
  cfg_auth_token :: string
  cfg_deploy_status_path :: string

subsection \<open>Hosts\<close>

definition strip_port :: "string \<Rightarrow> string" where
  "strip_port h =
     (if CHR '':'' \<in> set h then (case SplitHostPort h of Some (host, _) \<Rightarrow> host | None \<Rightarrow> h) else h)"

definition normalizeDomain :: "string \<Rightarrow> string" where
  "normalizeDomain domain = strip_port (ToLower (TrimSuffix (TrimSpace domain) ''.''))"

definition tunnelIDFromHost :: "string \<Rightarrow> string \<Rightarrow> string option" where
  "tunnelIDFromHost host tunnelDomain =
     (let h = normalizeDomain host; td = normalizeDomain tunnelDomain in
      if td = [] then None
      else
        (let sfx = ''.'' @ td in
         if \<not> HasSuffix h sfx then None
         else
           (let pre = TrimSuffix h sfx in
            if pre = [] then None
            else if Contains pre ''.'' then None
            else Some pre)))"

definition isBaseDomainHost :: "string \<Rightarrow> string \<Rightarrow> bool" where
  "isBaseDomainHost host baseDomain =
     (let base = normalizeDomain baseDomain in if base = [] then False else normalizeDomain host = base)"

subsection \<open>The client address\<close>

definition parseNetipAddr :: "string \<Rightarrow> addr option" where
  "parseNetipAddr s =
     (let s = TrimSuffix (TrimPrefix (TrimSpace s) ''['') '']'' in
      if s = [] then None else map_option Unmap (ParseAddr s))"

definition remote_ip :: "string \<Rightarrow> addr option" where
  "remote_ip remoteAddr =
     (let host = TrimSpace remoteAddr in
      if host = [] then None else parseNetipAddr (strip_port host))"

definition forwarded_ip :: "header \<Rightarrow> addr option" where
  "forwarded_ip h =
     (let v = TrimSpace (hdr_Get h ''X-Forwarded-For'') in
      case (if v \<noteq> [] then parseNetipAddr (TrimSpace (Split_char CHR '','' v ! 0)) else None) of
        Some ip \<Rightarrow> Some ip
      | None \<Rightarrow>
          (let v = TrimSpace (hdr_Get h ''X-Real-IP'') in if v \<noteq> [] then parseNetipAddr v else None))"

definition requestClientIP :: "http_request \<Rightarrow> bool \<Rightarrow> addr option" where
  "requestClientIP r trustProxyHeaders =
     (case (if trustProxyHeaders then forwarded_ip (rq_header r) else None) of
        Some ip \<Rightarrow> Some ip
      | None \<Rightarrow> remote_ip (rq_remote_addr r))"

definition cidrListContains :: "ipprefix list \<Rightarrow> addr \<Rightarrow> bool" where
  "cidrListContains ps ip = list_ex (\<lambda>p. prefix_Contains p (Unmap ip)) ps"

subsection \<open>Headers\<close>

definition applyHeaderTransforms :: "header \<Rightarrow> string list \<Rightarrow> header_add list \<Rightarrow> header" where
  "applyHeaderTransforms h remove add =
     fold (\<lambda>kv h. let k = TrimSpace (ha_name kv) in if k = [] then h else hdr_Set k (ha_value kv) h) add
       (fold (\<lambda>k h. let k = TrimSpace k in if k = [] then h else hdr_Del k h) remove h)"

definition copyProxyForwardedHeaders :: "header \<Rightarrow> header \<Rightarrow> header" where
  "copyProxyForwardedHeaders dst src =
     fold (\<lambda>k dst. case src k of Some v \<Rightarrow> dst(k \<mapsto> v) | None \<Rightarrow> dst)
       [''Forwarded'', ''X-Forwarded-For'', ''X-Forwarded-Host'', ''X-Forwarded-Proto''] dst"

definition stripForwardedHeaders :: "header \<Rightarrow> header" where
  "stripForwardedHeaders h = hdr_Del_all
     [''Forwarded'', ''X-Forwarded-For'', ''X-Forwarded-Host'', ''X-Forwarded-Proto'',
      ''X-Forwarded-Port'', ''X-Real-IP''] h"

subsection \<open>The access rules\<close>

definition method_allowed :: "http_tunnel_entry \<Rightarrow> http_request \<Rightarrow> bool" where
  "method_allowed e r =
     (if ent_allow_methods e \<noteq> []
      then list_ex (\<lambda>m. ToUpper (TrimSpace (rq_method r)) = ToUpper (TrimSpace m)) (ent_allow_methods e)
      else True)"

definition path_allowed :: "http_tunnel_entry \<Rightarrow> http_request \<Rightarrow> bool" where
  "path_allowed e r =
     (if ent_allow_paths e \<noteq> [] \<or> ent_allow_path_prefixes e \<noteq> []
      then list_ex (\<lambda>p. rq_path r = TrimSpace p) (ent_allow_paths e)
        \<or> list_ex (\<lambda>p. TrimSpace p \<noteq> [] \<and> HasPrefix (rq_path r) (TrimSpace p)) (ent_allow_path_prefixes e)
      else True)"

definition address_allowed :: "config \<Rightarrow> http_tunnel_entry \<Rightarrow> http_request \<Rightarrow> bool" where
  "address_allowed cfg e r =
     (if ent_allow_cidrs e \<noteq> [] \<or> ent_deny_cidrs e \<noteq> []
      then (case requestClientIP r (cfg_trust_proxy_headers cfg) of
              None \<Rightarrow> False
            | Some ip \<Rightarrow>
                if cidrListContains (ent_deny_cidrs e) ip then False
                else if ent_allow_cidrs e \<noteq> [] \<and> \<not> cidrListContains (ent_allow_cidrs e) ip then False
                else True)
      else True)"

definition credentials_ok :: "http_tunnel_entry \<Rightarrow> http_request \<Rightarrow> bool" where
  "credentials_ok e r =
     (case ent_basic_auth e of
        None \<Rightarrow> True
      | Some c \<Rightarrow>
          (case BasicAuth (rq_header r) of
             None \<Rightarrow> False
           | Some (user, pass) \<Rightarrow> user = cred_username c \<and> pass = cred_password c))"

definition unauthorized_response :: http_response where
  "unauthorized_response =
     http_Error (hdr_Set ''WWW-Authenticate'' ''Basic realm=\"EosRift\"'' no_header) ''unauthorized'' 401"

definition forbidden_response :: http_response where
  "forbidden_response = http_Error no_header ''forbidden'' 403"

text \<open>
  The handler up to the proxy: a response, or the tunnel's entry and the request that is handed
  to the reverse proxy (without its Authorization header when the tunnel has credentials).
\<close>

definition tunnel_access :: "config \<Rightarrow> registry \<Rightarrow> http_request \<Rightarrow> http_response + http_tunnel_entry \<times> http_request" where
  "tunnel_access cfg reg r =
     (case tunnelIDFromHost (rq_host r) (cfg_tunnel_domain cfg) of
        None \<Rightarrow> Inl http_NotFound
      | Some i \<Rightarrow>
          (case GetHTTPTunnel reg i of
             None \<Rightarrow> Inl http_NotFound
           | Some e \<Rightarrow>
               if \<not> method_allowed e r then Inl http_NotFound
               else if \<not> path_allowed e r then Inl http_NotFound
               else if \<not> address_allowed cfg e r then Inl forbidden_response
               else if \<not> credentials_ok e r then Inl unauthorized_response
               else if ent_basic_auth e \<noteq> None
                 then Inr (e, r\<lparr>rq_header := hdr_Del ''Authorization'' (rq_header r)\<rparr>)
               else Inr (e, r)))"

subsection \<open>The reverse proxy\<close>

text \<open>The \<open>Rewrite\<close> hook on the headers the proxy prepared.\<close>

definition rewrite_header :: "config \<Rightarrow> http_tunnel_entry \<Rightarrow> http_request \<Rightarrow> header \<Rightarrow> header" where
  "rewrite_header cfg e r out =
     (let out = (if cfg_trust_proxy_headers cfg then copyProxyForwardedHeaders out (rq_header r)
                 else SetXForwarded r (stripForwardedHeaders out))
      in applyHeaderTransforms out (ent_request_header_remove e) (ent_request_header_add e))"

definition outgoing_request :: "config \<Rightarrow> http_tunnel_entry \<Rightarrow> http_request \<Rightarrow> http_request" where
  "outgoing_request cfg e r =
     r\<lparr>rq_raw_query := cleanQueryParams (rq_raw_query r),
       rq_header := rewrite_header cfg e r (proxy_out_header (rq_header r))\<rparr>"

definition modify_response :: "http_tunnel_entry \<Rightarrow> http_response \<Rightarrow> http_response" where
  "modify_response e resp =
     resp\<lparr>rs_header := applyHeaderTransforms
       (if rs_status resp = 101 then rs_header resp else removeHopByHopHeaders (rs_header resp))
       (ent_response_header_remove e) (ent_response_header_add e)\<rparr>"

definition ascii_print :: "string \<Rightarrow> bool" where
  "ascii_print s \<longleftrightarrow> list_all (\<lambda>c. 32 \<le> byte c \<and> byte c \<le> 126) s"

definition bad_gateway :: http_response where
  "bad_gateway = http_Error no_header ''bad gateway'' 502"

text \<open>The switch to another protocol, \<open>handleUpgradeResponse\<close> of the reverse proxy: the upstream's 101 is passed on only
  when it switches, in print, to what the request it was given asks for. The proxy looks at the response after the
  tunnel's transforms.\<close>

definition switches_protocol :: "http_request \<Rightarrow> http_response \<Rightarrow> bool" where
  "switches_protocol out resp \<longleftrightarrow>
     ascii_print (upgradeType (rs_header resp)) \<and> EqualFold (upgradeType (rq_header out)) (upgradeType (rs_header resp))"

definition proxied_response :: "http_tunnel_entry \<Rightarrow> http_request \<Rightarrow> http_response \<Rightarrow> http_response" where
  "proxied_response e out resp =
     (let resp' = modify_response e resp in
      if rs_status resp = 101 \<and> \<not> switches_protocol out resp' then bad_gateway else resp')"

type_synonym upstream = "nat \<Rightarrow> http_request \<Rightarrow> http_response result"

definition httpTunnelProxyHandler :: "config \<Rightarrow> registry \<Rightarrow> upstream \<Rightarrow> http_request \<Rightarrow> http_response" where
  "httpTunnelProxyHandler cfg reg upstream r =
     (case tunnel_access cfg reg r of
        Inl resp \<Rightarrow> resp
      | Inr (e, r') \<Rightarrow>
          if \<not> ascii_print (upgradeType (rq_header r')) then bad_gateway
          else
            (case upstream (ent_session e) (outgoing_request cfg e r') of
               Inl _ \<Rightarrow> bad_gateway
             | Inr resp \<Rightarrow> proxied_response e (outgoing_request cfg e r') resp))"

lemmas [eval_simps] =
  strip_port_def normalizeDomain_def tunnelIDFromHost_def isBaseDomainHost_def parseNetipAddr_def
  remote_ip_def forwarded_ip_def requestClientIP_def cidrListContains_def applyHeaderTransforms_def
  copyProxyForwardedHeaders_def stripForwardedHeaders_def method_allowed_def path_allowed_def
  address_allowed_def credentials_ok_def unauthorized_response_def forbidden_response_def
  tunnel_access_def rewrite_header_def outgoing_request_def modify_response_def ascii_print_def
  bad_gateway_def switches_protocol_def proxied_response_def httpTunnelProxyHandler_def


subsection \<open>Hosts and ids\<close>

lemma TrimSuffix_eq: "HasSuffix h s \<Longrightarrow> TrimSuffix h s = p \<longleftrightarrow> h = p @ s"
  using HasSuffix_conv [of h s] by (metis append_same_eq)

lemma tunnelIDFromHost_iff:
  "tunnelIDFromHost host td = Some i \<longleftrightarrow>
     normalizeDomain td \<noteq> [] \<and> i \<noteq> [] \<and> CHR ''.'' \<notin> set i
     \<and> normalizeDomain host = i @ ''.'' @ normalizeDomain td"
proof -
  let ?h = "normalizeDomain host" and ?s = "''.'' @ normalizeDomain td"
  show ?thesis
  proof (cases "HasSuffix ?h ?s")
    case True
    then have "TrimSuffix ?h ?s = p \<longleftrightarrow> ?h = p @ ?s" for p by (rule TrimSuffix_eq)
    then have "TrimSuffix ?h ?s = i \<longleftrightarrow> ?h = i @ ?s" by blast
    then show ?thesis
      using True unfolding tunnelIDFromHost_def Let_def Contains_char by auto
  next
    case False
    then have "?h \<noteq> i @ ?s" by (metis HasSuffix_append)
    with False show ?thesis by (simp add: tunnelIDFromHost_def Let_def)
  qed
qed

text \<open>A configured domain: lower-case labels, with a dot neither at the end nor repeated there.\<close>

definition domain_byte :: "char \<Rightarrow> bool" where
  "domain_byte c \<longleftrightarrow> subdomain_byte c \<or> c = CHR ''.''"

definition domain_name :: "string \<Rightarrow> bool" where
  "domain_name d \<longleftrightarrow> d \<noteq> [] \<and> list_all domain_byte d \<and> last d \<noteq> CHR ''.''"

lemma list_all_not_in: "list_all P xs \<Longrightarrow> \<not> P x \<Longrightarrow> x \<notin> set xs"
  by (auto simp: list_all_iff)

lemma domain_byte_props: "domain_byte c \<Longrightarrow> graphic c \<and> \<not> is_upper c"
  by (auto simp: domain_byte_def subdomain_byte_def graphic_def is_lower_def is_upper_def is_digit_def)

lemma digit_props: "is_digit c \<Longrightarrow> graphic c \<and> \<not> is_upper c"
  by (auto simp: graphic_def is_upper_def is_digit_def)

lemma not_domain_bytes: "\<not> domain_byte CHR '':''" "\<not> domain_byte CHR ''[''" "\<not> domain_byte CHR '']''"
  by (simp_all add: domain_byte_def subdomain_byte_def is_lower_def is_digit_def)

lemma not_digits: "\<not> is_digit CHR '':''" "\<not> is_digit CHR ''[''" "\<not> is_digit CHR '']''" "\<not> is_digit CHR ''.''"
  by (simp_all add: is_digit_def)

lemma domain_chars:
  assumes "list_all domain_byte d"
  shows "list_all graphic d" "list_all (\<lambda>c. \<not> is_upper c) d" "CHR '':'' \<notin> set d" "plain_host d"
  using domain_byte_props list_all_not_in [OF assms] not_domain_bytes
  by (simp_all add: list.pred_mono_strong [OF assms] plain_host_def)

lemma digit_chars:
  assumes "list_all is_digit d"
  shows "list_all graphic d" "list_all (\<lambda>c. \<not> is_upper c) d" "CHR '':'' \<notin> set d" "plain_host d" "CHR ''.'' \<notin> set d"
  using digit_props list_all_not_in [OF assms] not_digits
  by (simp_all add: list.pred_mono_strong [OF assms] plain_host_def)

lemma dot_colon:
  "graphic CHR ''.''" "graphic CHR '':''" "\<not> is_upper CHR ''.''" "\<not> is_upper CHR '':''"
  by (simp_all add: graphic_def is_upper_def)

lemma TrimSpace_graphic_list: "list_all graphic s \<Longrightarrow> TrimSpace s = s"
  by (rule TrimSpace_graphic) (simp add: list_all_iff)

lemma ToLower_fixed_list: "list_all (\<lambda>c. \<not> is_upper c) s \<Longrightarrow> ToLower s = s"
  by (rule ToLower_fixed) (simp add: list_all_iff)

lemma TrimSuffix_no: "s \<noteq> [] \<Longrightarrow> last s \<noteq> c \<Longrightarrow> TrimSuffix s [c] = s"
  by (auto simp: TrimSuffix_def HasSuffix_def suffix_def)

lemma normalizeDomain_domain:
  assumes "domain_name d"
  shows "normalizeDomain d = d"
proof -
  have d: "list_all domain_byte d" "d \<noteq> []" "last d \<noteq> CHR ''.''"
    using assms unfolding domain_name_def by blast+
  show ?thesis
    using TrimSuffix_no [OF d(2,3)] domain_chars [OF d(1)]
    by (simp add: normalizeDomain_def strip_port_def TrimSpace_graphic_list ToLower_fixed_list)
qed

lemma normalizeDomain_dot:
  assumes "domain_name d"
  shows "normalizeDomain (d @ ''.'') = d"
proof -
  have d: "list_all domain_byte d"
    using assms unfolding domain_name_def by blast
  have "TrimSpace (d @ ''.'') = d @ ''.''"
    by (rule TrimSpace_graphic_list) (simp add: domain_chars [OF d] dot_colon)
  then show ?thesis
    using domain_chars [OF d]
    by (simp add: normalizeDomain_def strip_port_def ToLower_fixed_list)
qed

lemma plain_port_host:
  assumes "list_all domain_byte h" and "p \<noteq> []" and "list_all is_digit p"
  shows "normalizeDomain (h @ '':'' @ p) = h"
proof -
  let ?s = "h @ '':'' @ p"
  note h = domain_chars [OF assms(1)] and p = digit_chars [OF assms(3)]
  have trim: "TrimSpace ?s = ?s" by (rule TrimSpace_graphic_list) (simp add: h p dot_colon)
  have "last ?s \<in> set p" using assms(2) by simp
  then have "last ?s \<noteq> CHR ''.''" using p(5) by metis
  then have dot: "TrimSuffix ?s ''.'' = ?s" by (intro TrimSuffix_no) simp_all
  have low: "ToLower ?s = ?s" by (rule ToLower_fixed_list) (simp add: h p dot_colon)
  have "SplitHostPort (JoinHostPort h p) = Some (h, p)"
    by (rule SplitHostPort_Join) (simp_all add: h p)
  then have "SplitHostPort ?s = Some (h, p)" using h(3) by (simp add: JoinHostPort_def)
  then show ?thesis
    unfolding normalizeDomain_def trim dot low by (simp add: strip_port_def)
qed

lemma valid_label_domain: "valid_label i \<Longrightarrow> domain_name d \<Longrightarrow> domain_name (i @ ''.'' @ d)"
  by (auto simp: valid_label_def domain_name_def domain_byte_def list_all_iff)

lemma valid_label_no_dot: "valid_label i \<Longrightarrow> CHR ''.'' \<notin> set i"
  by (auto simp: valid_label_def list_all_iff subdomain_byte_def is_lower_def is_digit_def)

lemma host_routes_back:
  assumes "valid_label i" and "domain_name d" and "td = d \<or> td = d @ ''.''"
    and "h = i @ ''.'' @ d \<or> h = i @ ''.'' @ d @ ''.'' \<or> (\<exists>p. p \<noteq> [] \<and> list_all is_digit p \<and> h = i @ ''.'' @ d @ '':'' @ p)"
  shows "tunnelIDFromHost h td = Some i"
proof -
  let ?n = "i @ ''.'' @ d"
  have n: "domain_name ?n" using assms(1,2) by (rule valid_label_domain)
  have "normalizeDomain h = ?n"
    using assms(4) normalizeDomain_domain [OF n] normalizeDomain_dot [OF n] plain_port_host [of ?n] n
    by (auto simp: domain_name_def)
  moreover have "normalizeDomain td = d"
    using assms(2,3) normalizeDomain_domain normalizeDomain_dot by blast
  ultimately show ?thesis
    using assms(1,2) valid_label_no_dot by (auto simp: tunnelIDFromHost_iff domain_name_def valid_label_def)
qed

subsection \<open>Header lemmas\<close>

definition add_for :: "string \<Rightarrow> header_add \<Rightarrow> bool" where
  "add_for j kv \<longleftrightarrow> TrimSpace (ha_name kv) \<noteq> [] \<and> CanonicalHeaderKey (TrimSpace (ha_name kv)) = j"

definition remove_for :: "string \<Rightarrow> string \<Rightarrow> bool" where
  "remove_for j k \<longleftrightarrow> TrimSpace k \<noteq> [] \<and> CanonicalHeaderKey (TrimSpace k) = j"

lemma remove_fold:
  "fold (\<lambda>k h. let k = TrimSpace k in if k = [] then h else hdr_Del k h) ks h j =
     (if \<exists>k \<in> set ks. remove_for j k then None else h j)"
  by (induction ks arbitrary: h) (auto simp: remove_for_def Let_def)

lemma add_fold:
  "fold (\<lambda>kv h. let k = TrimSpace (ha_name kv) in if k = [] then h else hdr_Set k (ha_value kv) h) kvs h j =
     (case find (add_for j) (rev kvs) of Some kv \<Rightarrow> Some [ha_value kv] | None \<Rightarrow> h j)"
  by (induction kvs arbitrary: h) (auto simp: add_for_def Let_def find_append split: option.splits)

lemma transforms_apply:
  "applyHeaderTransforms h remove add j =
     (case find (add_for j) (rev add) of
        Some kv \<Rightarrow> Some [ha_value kv]
      | None \<Rightarrow> if \<exists>k \<in> set remove. remove_for j k then None else h j)"
  unfolding applyHeaderTransforms_def add_fold remove_fold by (rule refl)

lemma find_SomeD: "find P xs = Some x \<Longrightarrow> P x \<and> x \<in> set xs"
  by (auto simp: find_Some_iff)

lemma transforms_other:
  "\<forall>kv \<in> set add. \<not> add_for j kv \<Longrightarrow> \<forall>k \<in> set remove. \<not> remove_for j k \<Longrightarrow>
     applyHeaderTransforms h remove add j = h j"
  unfolding transforms_apply by (simp add: find_None_iff split: option.splits) (metis find_None_iff option.distinct(1) set_rev)

text \<open>The names the edge owns when proxy headers are not trusted.\<close>

definition forwarding_names :: "string list" where
  "forwarding_names = [''Forwarded'', ''X-Forwarded-For'', ''X-Forwarded-Host'', ''X-Forwarded-Proto'',
     ''X-Forwarded-Port'', ''X-Real-Ip'']"

lemma strip_forwarding: "j \<in> set forwarding_names \<Longrightarrow> stripForwardedHeaders h j = None"
  unfolding stripForwardedHeaders_def hdr_Del_all_apply by (auto simp: forwarding_names_def)

lemma SetXForwarded_stripped:
  "SetXForwarded r (stripForwardedHeaders h) j =
     (if j = ''X-Forwarded-Proto'' then Some [if rq_tls r then ''https'' else ''http'']
      else if j = ''X-Forwarded-Host'' then Some [rq_host r]
      else if j = ''X-Forwarded-For''
        then (case SplitHostPort (rq_remote_addr r) of None \<Rightarrow> None | Some (ip, _) \<Rightarrow> Some [ip])
      else stripForwardedHeaders h j)"
proof -
  have "hdr_values (stripForwardedHeaders h) ''X-Forwarded-For'' = []"
    by (simp add: hdr_values_def strip_forwarding forwarding_names_def)
  then show ?thesis by (auto simp: SetXForwarded_def Let_def split: option.splits)
qed


subsection \<open>Properties\<close>

text \<open>The rules of a tunnel, as its owner wrote them.\<close>

definition permitted :: "config \<Rightarrow> http_tunnel_entry \<Rightarrow> http_request \<Rightarrow> bool" where
  "permitted cfg e r \<longleftrightarrow>
     (ent_allow_methods e = [] \<or>
        (\<exists>m \<in> set (ent_allow_methods e). ToUpper (TrimSpace m) = ToUpper (TrimSpace (rq_method r))))
   \<and> (ent_allow_paths e = [] \<and> ent_allow_path_prefixes e = [] \<or>
        (\<exists>p \<in> set (ent_allow_paths e). TrimSpace p = rq_path r) \<or>
        (\<exists>p \<in> set (ent_allow_path_prefixes e). TrimSpace p \<noteq> [] \<and> prefix (TrimSpace p) (rq_path r)))
   \<and> (ent_allow_cidrs e = [] \<and> ent_deny_cidrs e = [] \<or>
        (\<exists>ip. requestClientIP r (cfg_trust_proxy_headers cfg) = Some ip
           \<and> (\<forall>p \<in> set (ent_deny_cidrs e). \<not> prefix_Contains p (Unmap ip))
           \<and> (ent_allow_cidrs e = [] \<or> (\<exists>p \<in> set (ent_allow_cidrs e). prefix_Contains p (Unmap ip)))))
   \<and> (\<forall>c. ent_basic_auth e = Some c \<longrightarrow> BasicAuth (rq_header r) = Some (cred_username c, cred_password c))"

lemma permitted_conv:
  "permitted cfg e r \<longleftrightarrow>
     method_allowed e r \<and> path_allowed e r \<and> address_allowed cfg e r \<and> credentials_ok e r"
proof -
  have m: "method_allowed e r \<longleftrightarrow> ent_allow_methods e = [] \<or>
      (\<exists>m \<in> set (ent_allow_methods e). ToUpper (TrimSpace m) = ToUpper (TrimSpace (rq_method r)))"
    unfolding method_allowed_def list_ex_iff by metis
  have p: "path_allowed e r \<longleftrightarrow> ent_allow_paths e = [] \<and> ent_allow_path_prefixes e = [] \<or>
      (\<exists>p \<in> set (ent_allow_paths e). TrimSpace p = rq_path r) \<or>
      (\<exists>p \<in> set (ent_allow_path_prefixes e). TrimSpace p \<noteq> [] \<and> prefix (TrimSpace p) (rq_path r))"
    unfolding path_allowed_def list_ex_iff HasPrefix_def eq_commute [of "rq_path r"]
    by (cases "ent_allow_paths e = [] \<and> ent_allow_path_prefixes e = []") auto
  have a: "address_allowed cfg e r \<longleftrightarrow> ent_allow_cidrs e = [] \<and> ent_deny_cidrs e = [] \<or>
      (\<exists>ip. requestClientIP r (cfg_trust_proxy_headers cfg) = Some ip
         \<and> (\<forall>p \<in> set (ent_deny_cidrs e). \<not> prefix_Contains p (Unmap ip))
         \<and> (ent_allow_cidrs e = [] \<or> (\<exists>p \<in> set (ent_allow_cidrs e). prefix_Contains p (Unmap ip))))"
    by (auto simp: address_allowed_def cidrListContains_def list_ex_iff split: option.splits)
  have c: "credentials_ok e r \<longleftrightarrow>
      (\<forall>c. ent_basic_auth e = Some c \<longrightarrow> BasicAuth (rq_header r) = Some (cred_username c, cred_password c))"
    by (auto simp: credentials_ok_def split: option.splits)
  show ?thesis unfolding permitted_def m p a c by blast
qed

lemma tunnel_access_Inr:
  "tunnel_access cfg reg r = Inr x \<longleftrightarrow>
     (\<exists>i e. tunnelIDFromHost (rq_host r) (cfg_tunnel_domain cfg) = Some i \<and> GetHTTPTunnel reg i = Some e
        \<and> permitted cfg e r
        \<and> (e, if ent_basic_auth e = None then r
              else r\<lparr>rq_header := hdr_Del ''Authorization'' (rq_header r)\<rparr>) = x)"
  unfolding permitted_conv by (auto simp: tunnel_access_def split: option.splits if_splits)

lemma tunnel_access_Inl_status:
  "tunnel_access cfg reg r = Inl resp \<Longrightarrow> rs_status resp \<in> {401, 403, 404}"
  by (auto simp: tunnel_access_def http_NotFound_def http_Error_def forbidden_response_def
      unauthorized_response_def split: option.splits if_splits)

lemma handler_Inr:
  assumes "tunnel_access cfg reg r = Inr (e, r')"
  shows "httpTunnelProxyHandler cfg reg up r =
      (if \<not> ascii_print (upgradeType (rq_header r)) then bad_gateway
       else (case up (ent_session e) (outgoing_request cfg e r') of
               Inl _ \<Rightarrow> bad_gateway | Inr resp \<Rightarrow> proxied_response e (outgoing_request cfg e r') resp))"
proof -
  have "r' = r \<or> r' = r\<lparr>rq_header := hdr_Del ''Authorization'' (rq_header r)\<rparr>"
    using assms unfolding tunnel_access_Inr by (auto split: if_splits)
  then have "upgradeType (rq_header r') = upgradeType (rq_header r)"
    by (auto simp: upgradeType_def hdr_values_def hdr_Get_def)
  then show ?thesis using assms by (simp add: httpTunnelProxyHandler_def)
qed

lemma proxied_plain [simp]: "rs_status resp \<noteq> 101 \<Longrightarrow> proxied_response e out resp = modify_response e resp"
  by (simp add: proxied_response_def Let_def)

text \<open>Without an Authorization header from the client none goes out but the tunnel's own.\<close>

lemma authorization_dropped:
  assumes "rq_header r ''Authorization'' = None" and "\<forall>kv \<in> set (ent_request_header_add e). \<not> add_for ''Authorization'' kv"
  shows "rq_header (outgoing_request cfg e r) ''Authorization'' = None"
proof -
  have del: "hdr_Del_all ks h ''Authorization'' = None" if "h ''Authorization'' = None" for ks h
    using that by (simp add: hdr_Del_all_apply)
  have out: "proxy_out_header (rq_header r) ''Authorization'' = None"
    unfolding proxy_out_header_def removeHopByHopHeaders_def Let_def
    by (intro del) (simp add: assms(1) hdr_Del_all_apply)
  have "copyProxyForwardedHeaders h h' ''Authorization'' = h ''Authorization''" for h h'
    by (simp add: copyProxyForwardedHeaders_def split: option.splits)
  moreover have "stripForwardedHeaders h ''Authorization'' = None" if "h ''Authorization'' = None" for h
    using that by (simp add: stripForwardedHeaders_def del)
  ultimately have "(if cfg_trust_proxy_headers cfg
      then copyProxyForwardedHeaders (proxy_out_header (rq_header r)) (rq_header r)
      else SetXForwarded r (stripForwardedHeaders (proxy_out_header (rq_header r)))) ''Authorization'' = None"
    using out by (simp add: SetXForwarded_stripped)
  then have "rewrite_header cfg e r (proxy_out_header (rq_header r)) ''Authorization'' = None"
    using assms(2) unfolding rewrite_header_def Let_def transforms_apply
    by (auto simp: find_None_iff split: option.splits dest!: find_SomeD)
  then show ?thesis by (simp add: outgoing_request_def)
qed

text \<open>The response depends on the upstreams only behind an access.\<close>

lemma gate_difference:
  assumes "httpTunnelProxyHandler cfg reg up r \<noteq> httpTunnelProxyHandler cfg reg up' r"
  shows "\<exists>e r'. tunnel_access cfg reg r = Inr (e, r')
    \<and> up (ent_session e) (outgoing_request cfg e r') \<noteq> up' (ent_session e) (outgoing_request cfg e r')"
proof (cases "tunnel_access cfg reg r")
  case (Inl resp)
  with assms show ?thesis by (simp add: httpTunnelProxyHandler_def)
next
  case (Inr x)
  obtain e r' where x: "x = (e, r')" by (cases x)
  have "up (ent_session e) (outgoing_request cfg e r') \<noteq> up' (ent_session e) (outgoing_request cfg e r')"
    using assms unfolding handler_Inr [OF Inr [unfolded x]] by (auto split: if_splits)
  then show ?thesis using Inr x by blast
qed

text \<open>C7: a request reaches a tunnel only when every rule of that tunnel permits it. If what the
  upstreams would answer makes any difference to the response, then the host names a registered
  tunnel, the request satisfies its methods, its paths, its deny and allow lists (deny first) and
  its credentials, and the difference is in that tunnel's own session.\<close>

theorem tunnel_gate_sound:
  assumes "httpTunnelProxyHandler cfg reg up r \<noteq> httpTunnelProxyHandler cfg reg up' r"
  shows "\<exists>i e q. tunnelIDFromHost (rq_host r) (cfg_tunnel_domain cfg) = Some i
    \<and> GetHTTPTunnel reg i = Some e \<and> permitted cfg e r \<and> up (ent_session e) q \<noteq> up' (ent_session e) q"
proof -
  obtain e r' where acc: "tunnel_access cfg reg r = Inr (e, r')"
    and "up (ent_session e) (outgoing_request cfg e r') \<noteq> up' (ent_session e) (outgoing_request cfg e r')"
    using gate_difference [OF assms] by blast
  moreover obtain i where "tunnelIDFromHost (rq_host r) (cfg_tunnel_domain cfg) = Some i"
    "GetHTTPTunnel reg i = Some e" "permitted cfg e r"
    using acc unfolding tunnel_access_Inr by auto
  ultimately show ?thesis by blast
qed

text \<open>The request the reverse proxy hands to the session: the visitor's, its credentials taken away when the
  tunnel asks for some, with the outgoing query and headers.\<close>

definition forwarded_request :: "config \<Rightarrow> http_tunnel_entry \<Rightarrow> http_request \<Rightarrow> http_request" where
  "forwarded_request cfg e r = outgoing_request cfg e
     (if ent_basic_auth e = None then r else r\<lparr>rq_header := hdr_Del ''Authorization'' (rq_header r)\<rparr>)"

text \<open>C8: a permitted request is answered by its tunnel. When the host names a registered tunnel whose rules permit
  the request (and an upgrade, if it asks for one, is printable), the request given to the tunnel's session is
  the visitor's own: same method, host and path, its query cleaned, its headers those of the proxy and the tunnel's
  transforms, without the Authorization header when the tunnel has credentials (unless its transforms add one). The
  response is the session's answer to that very request with the response transforms of the tunnel; it is 502 when
  the session fails, and when it answers 101 but switches to a protocol that is unprintable or not the one asked
  for. A request that is not permitted gets a 401, 403 or 404.\<close>

theorem tunnel_gate_complete:
  assumes "tunnelIDFromHost (rq_host r) (cfg_tunnel_domain cfg) = Some i" and "GetHTTPTunnel reg i = Some e"
    and "ascii_print (upgradeType (rq_header r))" and "q = forwarded_request cfg e r"
  shows "(if permitted cfg e r
      then httpTunnelProxyHandler cfg reg up r =
        (case up (ent_session e) q of
           Inl _ \<Rightarrow> bad_gateway
         | Inr resp \<Rightarrow>
             if rs_status resp = 101 \<and> \<not> (ascii_print (upgradeType (rs_header (modify_response e resp)))
                 \<and> EqualFold (upgradeType (rq_header q)) (upgradeType (rs_header (modify_response e resp))))
             then bad_gateway else modify_response e resp)
      else rs_status (httpTunnelProxyHandler cfg reg up r) \<in> {401, 403, 404})
    \<and> rq_method q = rq_method r \<and> rq_host q = rq_host r \<and> rq_path q = rq_path r
    \<and> rq_escaped_path q = rq_escaped_path r \<and> rq_raw_query q = cleanQueryParams (rq_raw_query r)
    \<and> (ent_basic_auth e \<noteq> None \<and> (\<forall>kv \<in> set (ent_request_header_add e). \<not> add_for ''Authorization'' kv)
        \<longrightarrow> rq_header q ''Authorization'' = None)"
proof -
  have line: "rq_method q = rq_method r" "rq_host q = rq_host r" "rq_path q = rq_path r"
    "rq_escaped_path q = rq_escaped_path r" "rq_raw_query q = cleanQueryParams (rq_raw_query r)"
    by (simp_all add: assms(4) forwarded_request_def outgoing_request_def)
  have authz: "rq_header q ''Authorization'' = None"
    if "ent_basic_auth e \<noteq> None" "\<forall>kv \<in> set (ent_request_header_add e). \<not> add_for ''Authorization'' kv"
    using that unfolding assms(4) forwarded_request_def by (intro authorization_dropped) auto
  have gate: "if permitted cfg e r
      then httpTunnelProxyHandler cfg reg up r =
        (case up (ent_session e) q of Inl _ \<Rightarrow> bad_gateway | Inr resp \<Rightarrow> proxied_response e q resp)
      else rs_status (httpTunnelProxyHandler cfg reg up r) \<in> {401, 403, 404}"
  proof (cases "tunnel_access cfg reg r")
    case (Inl resp)
    have "\<not> permitted cfg e r"
    proof
      assume "permitted cfg e r"
      then have "\<exists>x. tunnel_access cfg reg r = Inr x"
        using assms(1,2) unfolding tunnel_access_Inr by blast
      with Inl show False by simp
    qed
    moreover have "rs_status (httpTunnelProxyHandler cfg reg up r) \<in> {401, 403, 404}"
      using tunnel_access_Inl_status [OF Inl] Inl by (simp add: httpTunnelProxyHandler_def)
    ultimately show ?thesis by simp
  next
    case (Inr x)
    obtain e' r' where x: "x = (e', r')" by (cases x)
    with Inr assms(1,2) have "e' = e" "permitted cfg e r" "outgoing_request cfg e r' = q"
      unfolding tunnel_access_Inr assms(4) forwarded_request_def by auto
    with handler_Inr [OF Inr [unfolded x]] assms(3) show ?thesis by auto
  qed
  show ?thesis
    using gate [unfolded proxied_response_def switches_protocol_def Let_def] line authz by blast
qed

definition demo_cfg :: config where
  "demo_cfg = \<lparr>cfg_base_domain = ''example.com'', cfg_tunnel_domain = ''tunnel.example.com'',
     cfg_trust_proxy_headers = False, cfg_tcp_port_range_start = 20000, cfg_tcp_port_range_end = 20002,
     cfg_metrics_token = [], cfg_admin_token = [], cfg_max_tunnels_per_token = 0,
     cfg_max_tunnel_creates_per_minute = 0, cfg_db_path = [], cfg_auth_token = [], cfg_deploy_status_path = []\<rparr>"

definition demo_request :: "string \<Rightarrow> string \<Rightarrow> string \<Rightarrow> http_request" where
  "demo_request method host path =
     \<lparr>rq_method = method, rq_host = host, rq_path = path, rq_escaped_path = path, rq_raw_query = [],
      rq_header = no_header, rq_remote_addr = ''10.0.0.7:5123'', rq_tls = True\<rparr>"

definition demo_entry :: http_tunnel_entry where
  "demo_entry = make_entry 4 (no_options\<lparr>opt_allow_methods := [''GET''],
     opt_deny_cidrs := [Prefix (V4 0x0A010000) 16]\<rparr>)"

lemmas demo_simps = demo_cfg_def demo_request_def demo_entry_def make_entry_def no_options_def no_header_def

lemma demo_gate:
  "tunnelIDFromHost ''app.tunnel.example.com:443'' ''tunnel.example.com'' = Some ''app''"
  "GetHTTPTunnel [''app'' \<mapsto> demo_entry] ''app'' = Some demo_entry"
  "upgradeType no_header = []"
  "permitted demo_cfg demo_entry (demo_request ''get'' ''app.tunnel.example.com:443'' ''/x'')"
  unfolding permitted_conv by (simp_all add: demo_simps eval_simps)

theorem tunnel_gate_sound_witness:
  "\<exists>i e q. tunnelIDFromHost ''app.tunnel.example.com:443'' ''tunnel.example.com'' = Some i
    \<and> GetHTTPTunnel [''app'' \<mapsto> demo_entry] i = Some e
    \<and> permitted demo_cfg e (demo_request ''get'' ''app.tunnel.example.com:443'' ''/x'')
    \<and> Inr (status_only 200) \<noteq> (Inl (Msg q) :: http_response result)"
proof -
  let ?r = "demo_request ''get'' ''app.tunnel.example.com:443'' ''/x''"
  let ?reg = "[''app'' \<mapsto> demo_entry]"
  have acc: "tunnel_access demo_cfg ?reg ?r = Inr (demo_entry, ?r)"
    using demo_gate by (auto simp: tunnel_access_Inr demo_simps)
  have up: "upgradeType (rq_header ?r) = []" using demo_gate(3) by (simp add: demo_request_def)
  have "rs_status (httpTunnelProxyHandler demo_cfg ?reg (\<lambda>_ _. Inr (status_only 200)) ?r) = 200"
    "rs_status (httpTunnelProxyHandler demo_cfg ?reg (\<lambda>_ _. Inl (Msg [])) ?r) = 502"
    unfolding handler_Inr [OF acc] up
    by (simp_all add: ascii_print_def modify_response_def status_only_def bad_gateway_def http_Error_def)
  then have "httpTunnelProxyHandler demo_cfg ?reg (\<lambda>_ _. Inr (status_only 200)) ?r
      \<noteq> httpTunnelProxyHandler demo_cfg ?reg (\<lambda>_ _. Inl (Msg [])) ?r"
    by (metis numeral_eq_iff semiring_norm(85) semiring_norm(88) num.distinct(1) num.inject(1,2))
  from tunnel_gate_sound [OF this] show ?thesis by (auto simp: demo_request_def demo_cfg_def)
qed

theorem tunnel_gate_complete_witness:
  "httpTunnelProxyHandler demo_cfg [''app'' \<mapsto> demo_entry]
      (\<lambda>c q. if c = 4 \<and> rq_path q = ''/x'' then Inr (status_only 200) else Inl (Msg []))
      (demo_request ''get'' ''app.tunnel.example.com:443'' ''/x'')
    = modify_response demo_entry (status_only 200)"
proof -
  let ?r = "demo_request ''get'' ''app.tunnel.example.com:443'' ''/x''"
  have host: "tunnelIDFromHost (rq_host ?r) (cfg_tunnel_domain demo_cfg) = Some ''app''"
    "ascii_print (upgradeType (rq_header ?r))"
    using demo_gate(1,3) by (simp_all add: demo_request_def demo_cfg_def ascii_print_def)
  have entry: "ent_session demo_entry = 4" "rq_path ?r = ''/x''" by (simp_all add: demo_simps)
  show ?thesis
    using tunnel_gate_complete [OF host(1) demo_gate(2) host(2) refl,
        of "\<lambda>c q. if c = 4 \<and> rq_path q = ''/x'' then Inr (status_only 200) else Inl (Msg [])"] demo_gate(4) entry
    by (simp add: status_only_def)
qed

text \<open>C11: without trusted proxy headers a client cannot spoof the forwarding headers. Whatever
  headers it sends (a Connection header naming them included), the upstream sees no Forwarded,
  X-Forwarded-Port and X-Real-IP, the client's own address as X-Forwarded-For, its Host, and the
  scheme of its connection, provided the tunnel's own transforms do not set those names.\<close>

theorem forwarding_headers_not_spoofed:
  assumes "\<not> cfg_trust_proxy_headers cfg"
    and "\<forall>kv \<in> set (ent_request_header_add e). \<forall>j \<in> set forwarding_names. \<not> add_for j kv"
    and "\<forall>k \<in> set (ent_request_header_remove e). \<forall>j \<in> set forwarding_names. \<not> remove_for j k"
  shows "\<forall>j \<in> set forwarding_names. rq_header (outgoing_request cfg e r) j =
     (if j = ''X-Forwarded-Proto'' then Some [if rq_tls r then ''https'' else ''http'']
      else if j = ''X-Forwarded-Host'' then Some [rq_host r]
      else if j = ''X-Forwarded-For''
        then (case SplitHostPort (rq_remote_addr r) of None \<Rightarrow> None | Some (ip, _) \<Rightarrow> Some [ip])
      else None)"
proof
  fix j assume j: "j \<in> set forwarding_names"
  let ?out = "SetXForwarded r (stripForwardedHeaders (proxy_out_header (rq_header r)))"
  have "rq_header (outgoing_request cfg e r) j
      = applyHeaderTransforms ?out (ent_request_header_remove e) (ent_request_header_add e) j"
    using assms(1) by (simp add: outgoing_request_def rewrite_header_def)
  also have "\<dots> = ?out j" by (rule transforms_other) (use assms(2,3) j in simp_all)
  also have "\<dots> = (if j = ''X-Forwarded-Proto'' then Some [if rq_tls r then ''https'' else ''http'']
      else if j = ''X-Forwarded-Host'' then Some [rq_host r]
      else if j = ''X-Forwarded-For''
        then (case SplitHostPort (rq_remote_addr r) of None \<Rightarrow> None | Some (ip, _) \<Rightarrow> Some [ip])
      else None)"
    unfolding SetXForwarded_stripped strip_forwarding [OF j] by (rule refl)
  finally show "rq_header (outgoing_request cfg e r) j = \<dots>" .
qed

theorem forwarding_headers_not_spoofed_witness:
  "rq_header (outgoing_request demo_cfg demo_entry
      (demo_request ''GET'' ''app.tunnel.example.com'' ''/''
        \<lparr>rq_header := [''X-Forwarded-For'' \<mapsto> [''6.6.6.6''], ''Connection'' \<mapsto> [''X-Forwarded-For'']]\<rparr>))
      ''X-Forwarded-For'' = Some [''10.0.0.7'']"
proof -
  let ?r = "demo_request ''GET'' ''app.tunnel.example.com'' ''/''
    \<lparr>rq_header := [''X-Forwarded-For'' \<mapsto> [''6.6.6.6''], ''Connection'' \<mapsto> [''X-Forwarded-For'']]\<rparr>"
  have "\<forall>j \<in> set forwarding_names. rq_header (outgoing_request demo_cfg demo_entry ?r) j =
     (if j = ''X-Forwarded-Proto'' then Some [if rq_tls ?r then ''https'' else ''http'']
      else if j = ''X-Forwarded-Host'' then Some [rq_host ?r]
      else if j = ''X-Forwarded-For''
        then (case SplitHostPort (rq_remote_addr ?r) of None \<Rightarrow> None | Some (ip, _) \<Rightarrow> Some [ip])
      else None)"
    by (rule forwarding_headers_not_spoofed) (simp_all add: demo_simps)
  moreover have "''X-Forwarded-For'' \<in> set forwarding_names" by (simp add: forwarding_names_def)
  moreover have "SplitHostPort (rq_remote_addr ?r) = Some (''10.0.0.7'', ''5123'')"
    by (simp add: demo_request_def eval_simps)
  ultimately show ?thesis by simp
qed

text \<open>header transforms remove, then add. Of each header name, the outgoing value is the last
  added one; without an added one it is absent when the name is on the remove list, and otherwise
  what it was. Names are compared in canonical form and blank names are ignored.\<close>

theorem header_transforms_meaning:
  "applyHeaderTransforms h remove add j =
     (case find (add_for j) (rev add) of
        Some kv \<Rightarrow> Some [ha_value kv]
      | None \<Rightarrow> if \<exists>k \<in> set remove. remove_for j k then None else h j)"
  by (rule transforms_apply)

text \<open>host routing is exact. A host names the tunnel id exactly when, normalised, it is that
  non-empty id without dots, a dot, and the normalised tunnel domain.\<close>

theorem tunnelIDFromHost_exact:
  "tunnelIDFromHost host td = Some i \<longleftrightarrow>
     normalizeDomain td \<noteq> [] \<and> i \<noteq> [] \<and> CHR ''.'' \<notin> set i
     \<and> normalizeDomain host = i @ ''.'' @ normalizeDomain td"
  by (rule tunnelIDFromHost_iff)

text \<open>with credentials on a tunnel, a request is only permitted with exactly those
  credentials, and the Authorization header that carried them does not reach the upstream unless
  the tunnel's own transforms add one.\<close>

theorem credentials_not_forwarded:
  assumes "tunnel_access cfg reg r = Inr (e, r')" and "ent_basic_auth e = Some c"
    and "\<forall>kv \<in> set (ent_request_header_add e). \<not> add_for ''Authorization'' kv"
  shows "BasicAuth (rq_header r) = Some (cred_username c, cred_password c)
    \<and> rq_header (outgoing_request cfg e r') ''Authorization'' = None"
proof -
  have r': "r' = r\<lparr>rq_header := hdr_Del ''Authorization'' (rq_header r)\<rparr>" and p: "permitted cfg e r"
    using assms(1,2) unfolding tunnel_access_Inr by auto
  have "rq_header r' ''Authorization'' = None" by (simp add: r')
  then show ?thesis
    using p assms(2) authorization_dropped [OF _ assms(3)] by (simp add: permitted_def)
qed


definition demo_credentials :: http_tunnel_entry where
  "demo_credentials = make_entry 4 (no_options\<lparr>opt_basic_auth :=
     Some \<lparr>cred_username = ''u'', cred_password = ''p''\<rparr>\<rparr>)"

theorem credentials_not_forwarded_witness:
  "rq_header (outgoing_request demo_cfg demo_credentials
      (demo_request ''GET'' ''app.tunnel.example.com'' ''/''
        \<lparr>rq_header := hdr_Del ''Authorization'' [''Authorization'' \<mapsto> [basic_header ''u'' ''p'']]\<rparr>))
      ''Authorization'' = None"
proof -
  let ?r = "demo_request ''GET'' ''app.tunnel.example.com'' ''/''
    \<lparr>rq_header := [''Authorization'' \<mapsto> [basic_header ''u'' ''p'']]\<rparr>"
  have host: "tunnelIDFromHost ''app.tunnel.example.com'' ''tunnel.example.com'' = Some ''app''"
    "GetHTTPTunnel [''app'' \<mapsto> demo_credentials] ''app'' = Some demo_credentials"
    by (simp_all add: eval_simps)
  have auth: "BasicAuth (rq_header ?r) = Some (''u'', ''p'')"
    by (rule BasicAuth_basic_header) (simp_all add: hdr_Get_def hdr_values_def)
  then have "permitted demo_cfg demo_credentials ?r"
    by (simp add: permitted_def demo_credentials_def make_entry_def no_options_def)
  then have "tunnel_access demo_cfg [''app'' \<mapsto> demo_credentials] ?r
      = Inr (demo_credentials, ?r\<lparr>rq_header := hdr_Del ''Authorization'' (rq_header ?r)\<rparr>)"
    using host unfolding tunnel_access_Inr
    by (intro exI [of _ "''app''"] exI [of _ demo_credentials])
      (simp add: demo_request_def demo_cfg_def demo_credentials_def make_entry_def)
  from credentials_not_forwarded [OF this, of "\<lparr>cred_username = ''u'', cred_password = ''p''\<rparr>"]
  show ?thesis by (simp add: demo_credentials_def make_entry_def no_options_def)
qed

text \<open>without trusted proxy headers the address rules look at the connection only: changing a
  request's headers never changes their outcome. With a denied address the response is a 403
  (or an earlier 404) whatever the allow list says; an address that cannot be parsed is refused
  as soon as the tunnel has any address rule.\<close>

theorem address_rules:
  assumes "\<not> cfg_trust_proxy_headers cfg" and "ent_allow_cidrs e \<noteq> [] \<or> ent_deny_cidrs e \<noteq> []"
  shows "address_allowed cfg e (r\<lparr>rq_header := h\<rparr>) = address_allowed cfg e r
    \<and> address_allowed cfg e r =
        (case remote_ip (rq_remote_addr r) of
           None \<Rightarrow> False
         | Some ip \<Rightarrow> (\<forall>p \<in> set (ent_deny_cidrs e). \<not> prefix_Contains p (Unmap ip))
             \<and> (ent_allow_cidrs e = [] \<or> (\<exists>p \<in> set (ent_allow_cidrs e). prefix_Contains p (Unmap ip))))
    \<and> (tunnelIDFromHost (rq_host r) (cfg_tunnel_domain cfg) = Some i \<and> GetHTTPTunnel reg i = Some e
         \<and> \<not> address_allowed cfg e r \<longrightarrow> rs_status (httpTunnelProxyHandler cfg reg up r) \<in> {403, 404})"
proof -
  have "address_allowed cfg e (r\<lparr>rq_header := h\<rparr>) = address_allowed cfg e r"
    using assms(1) by (simp add: address_allowed_def requestClientIP_def)
  moreover have "address_allowed cfg e r =
      (case remote_ip (rq_remote_addr r) of
         None \<Rightarrow> False
       | Some ip \<Rightarrow> (\<forall>p \<in> set (ent_deny_cidrs e). \<not> prefix_Contains p (Unmap ip))
           \<and> (ent_allow_cidrs e = [] \<or> (\<exists>p \<in> set (ent_allow_cidrs e). prefix_Contains p (Unmap ip))))"
    using assms by (auto simp: address_allowed_def requestClientIP_def cidrListContains_def list_ex_iff
        split: option.splits)
  moreover have "rs_status (httpTunnelProxyHandler cfg reg up r) \<in> {403, 404}"
    if "tunnelIDFromHost (rq_host r) (cfg_tunnel_domain cfg) = Some i" "GetHTTPTunnel reg i = Some e"
      "\<not> address_allowed cfg e r"
    using that by (simp add: httpTunnelProxyHandler_def tunnel_access_def http_NotFound_def
        forbidden_response_def http_Error_def)
  ultimately show ?thesis by blast
qed

theorem address_rules_witness:
  "address_allowed demo_cfg demo_entry (demo_request ''GET'' ''app.tunnel.example.com'' ''/''
     \<lparr>rq_header := [''X-Forwarded-For'' \<mapsto> [''10.1.0.9'']]\<rparr>)"
proof -
  let ?r = "demo_request ''GET'' ''app.tunnel.example.com'' ''/''"
  have "remote_ip (rq_remote_addr ?r) = Some (V4 0x0A000007)"
    by (simp add: demo_request_def eval_simps)
  moreover have "\<not> cfg_trust_proxy_headers demo_cfg" "ent_deny_cidrs demo_entry = [Prefix (V4 0x0A010000) 16]"
    "ent_allow_cidrs demo_entry = []"
    by (simp_all add: demo_simps)
  ultimately show ?thesis
    using address_rules [where cfg = demo_cfg and e = demo_entry and r = ?r
        and h = "[''X-Forwarded-For'' \<mapsto> [''10.1.0.9'']]"] by simp
qed

text \<open>a path prefix rule compares the text of the decoded path. A path that starts with the
  prefix is permitted even when its dot segments lead outside it.\<close>

theorem path_prefix_admits_dot_segments:
  assumes "p \<in> set (ent_allow_path_prefixes e)" and "TrimSpace p = p" and "p \<noteq> []"
    and "rq_path r = p @ ''../'' @ rest"
  shows "path_allowed e r"
proof -
  have "TrimSpace p \<noteq> [] \<and> HasPrefix (rq_path r) (TrimSpace p)"
    using assms by simp
  then have "list_ex (\<lambda>p. TrimSpace p \<noteq> [] \<and> HasPrefix (rq_path r) (TrimSpace p)) (ent_allow_path_prefixes e)"
    using assms(1) unfolding list_ex_iff by blast
  then show ?thesis by (simp add: path_allowed_def)
qed

theorem path_prefix_admits_dot_segments_witness:
  "path_allowed (make_entry 1 (no_options\<lparr>opt_allow_path_prefixes := [''/public/'']\<rparr>))
     (demo_request ''GET'' ''app.tunnel.example.com'' ''/public/../admin'')
   \<and> cleanPath ''/public/../admin'' = ''/admin''
   \<and> PathUnescape ''/public/%2e%2e/admin'' = Some ''/public/../admin''
   \<and> cleanPath ''/public/%2e%2e/admin'' = ''/public/%2e%2e/admin''"
proof -
  have "TrimSpace ''/public/'' = ''/public/''" by (simp add: eval_simps)
  then have "path_allowed (make_entry 1 (no_options\<lparr>opt_allow_path_prefixes := [''/public/'']\<rparr>))
     (demo_request ''GET'' ''app.tunnel.example.com'' ''/public/../admin'')"
    by (intro path_prefix_admits_dot_segments [of "''/public/''" _ _ "''admin''"])
      (simp_all add: make_entry_def demo_request_def)
  moreover have "cleanPath ''/public/../admin'' = ''/admin''" by (simp add: eval_simps)
  moreover have "PathUnescape ''/public/%2e%2e/admin'' = Some ''/public/../admin''"
    "cleanPath ''/public/%2e%2e/admin'' = ''/public/%2e%2e/admin''" by (simp_all add: eval_simps)
  ultimately show ?thesis by blast
qed

text \<open>a fully qualified host with a port is not routed. The trailing dot is stripped before the
  port, so the host of \<open>https://id.domain.:443\<close> keeps its dot and names no tunnel, while
  the same host without the port names one.\<close>

theorem trailing_dot_before_port:
  assumes "valid_label i" and "domain_name d" and "p \<noteq> []" and "list_all is_digit p"
  shows "tunnelIDFromHost (i @ ''.'' @ d @ ''.'') d = Some i
    \<and> tunnelIDFromHost (i @ ''.'' @ d @ '':'' @ p) d = Some i
    \<and> tunnelIDFromHost (i @ ''.'' @ d @ ''.:'' @ p) d = None"
proof -
  have n: "domain_name (i @ ''.'' @ d)" using assms(1,2) by (rule valid_label_domain)
  then have "list_all domain_byte ((i @ ''.'' @ d) @ ''.'')"
    by (simp add: domain_name_def domain_byte_def)
  from plain_port_host [OF this assms(3,4)]
  have h: "normalizeDomain (i @ ''.'' @ d @ ''.:'' @ p) = (i @ ''.'' @ d) @ ''.''" by simp
  have "last d \<noteq> CHR ''.''" "d \<noteq> []" using assms(2) by (auto simp: domain_name_def)
  then have "(i @ ''.'' @ d) @ ''.'' \<noteq> j @ ''.'' @ d" for j
    by (metis append_is_Nil_conv last_appendR last_snoc)
  then have "tunnelIDFromHost (i @ ''.'' @ d @ ''.:'' @ p) d = None"
    unfolding not_Some_eq [symmetric] tunnelIDFromHost_iff h normalizeDomain_domain [OF assms(2)] by blast
  then show ?thesis
    using host_routes_back [OF assms(1,2), of d] assms(3,4) by blast
qed

theorem trailing_dot_before_port_witness:
  "tunnelIDFromHost ''app.example.com.:443'' ''example.com'' = None"
proof -
  have "valid_label ''app''" "domain_name ''example.com''" "list_all is_digit ''443''"
    by (simp_all add: valid_label_def domain_name_def domain_byte_def eval_simps)
  from trailing_dot_before_port [OF this(1,2) _ this(3)] show ?thesis by simp
qed

end
