(* ===== verification/Metrics.thy ===== *)
theory Metrics
  imports RateLimit TunnelProxy
begin

text \<open>
  \<open>internal/server/metrics.go\<close>: the counters of control connections and tunnels, their
  text form, and the handler that shows them to the holder of the metrics token. The closures
  that undo a gauge are the \<open>untrack\<close> functions; counters are integers (no run reaches
  2^63 connections).
\<close>

record metrics =
  mt_started :: int
  mt_active_control :: int
  mt_active_http :: int
  mt_active_tcp :: int
  mt_total_http :: int
  mt_total_tcp :: int

definition newMetrics :: "int \<Rightarrow> metrics" where
  "newMetrics now = \<lparr>mt_started = now, mt_active_control = 0, mt_active_http = 0, mt_active_tcp = 0,
     mt_total_http = 0, mt_total_tcp = 0\<rparr>"

definition trackControlConn :: "metrics \<Rightarrow> metrics" where
  "trackControlConn m = m\<lparr>mt_active_control := mt_active_control m + 1\<rparr>"

definition untrackControlConn :: "metrics \<Rightarrow> metrics" where
  "untrackControlConn m = m\<lparr>mt_active_control := mt_active_control m - 1\<rparr>"

definition trackHTTPTunnel :: "metrics \<Rightarrow> metrics" where
  "trackHTTPTunnel m = m\<lparr>mt_total_http := mt_total_http m + 1, mt_active_http := mt_active_http m + 1\<rparr>"

definition untrackHTTPTunnel :: "metrics \<Rightarrow> metrics" where
  "untrackHTTPTunnel m = m\<lparr>mt_active_http := mt_active_http m - 1\<rparr>"

definition trackTCPTunnel :: "metrics \<Rightarrow> metrics" where
  "trackTCPTunnel m = m\<lparr>mt_total_tcp := mt_total_tcp m + 1, mt_active_tcp := mt_active_tcp m + 1\<rparr>"

definition untrackTCPTunnel :: "metrics \<Rightarrow> metrics" where
  "untrackTCPTunnel m = m\<lparr>mt_active_tcp := mt_active_tcp m - 1\<rparr>"

lemmas track_defs = trackControlConn_def untrackControlConn_def trackHTTPTunnel_def
  untrackHTTPTunnel_def trackTCPTunnel_def untrackTCPTunnel_def

definition metric_lines :: "string \<Rightarrow> string \<Rightarrow> string \<Rightarrow> int \<Rightarrow> string" where
  "metric_lines type name help value =
     ''# HELP '' @ name @ '' '' @ help @ [CHR 0x0A]
     @ ''# TYPE '' @ name @ '' '' @ type @ [CHR 0x0A]
     @ name @ '' '' @ Itoa value @ [CHR 0x0A]"

definition trunc_rat :: "rat \<Rightarrow> int" where
  "trunc_rat x = (if x < 0 then \<lceil>x\<rceil> else \<lfloor>x\<rfloor>)"

definition writePrometheus :: "(rat \<Rightarrow> rat) \<Rightarrow> int \<Rightarrow> metrics \<Rightarrow> http_response" where
  "writePrometheus rnd now m =
     \<lparr>rs_status = 200,
      rs_header = hdr_Set ''Content-Type'' ''text/plain; version=0.0.4; charset=utf-8'' no_header,
      rs_body = Text (
        metric_lines ''gauge'' ''eosrift_uptime_seconds'' ''Process uptime in seconds.''
          (trunc_rat (Seconds rnd (sat64 (now - mt_started m))))
        @ metric_lines ''gauge'' ''eosrift_active_control_connections''
            ''Active /control websocket connections.'' (mt_active_control m)
        @ metric_lines ''gauge'' ''eosrift_active_http_tunnels'' ''Active HTTP tunnels.'' (mt_active_http m)
        @ metric_lines ''gauge'' ''eosrift_active_tcp_tunnels'' ''Active TCP tunnels.'' (mt_active_tcp m)
        @ metric_lines ''counter'' ''eosrift_http_tunnels_total'' ''Total HTTP tunnels created.'' (mt_total_http m)
        @ metric_lines ''counter'' ''eosrift_tcp_tunnels_total'' ''Total TCP tunnels created.'' (mt_total_tcp m))\<rparr>"

definition metricsHandler ::
  "(rat \<Rightarrow> rat) \<Rightarrow> int \<Rightarrow> string \<Rightarrow> string \<Rightarrow> metrics \<Rightarrow> http_request \<Rightarrow> http_response" where
  "metricsHandler rnd now baseDomain token m r =
     (let baseDomain = TrimSpace baseDomain; token = TrimSpace token in
      if token = [] then http_NotFound
      else if \<not> isBaseDomainHost (rq_host r) baseDomain then http_NotFound
      else
        (let auth = TrimSpace (hdr_Get (rq_header r) ''Authorization'');
             ok = (HasPrefix auth ''Bearer '' \<and> TrimSpace (TrimPrefix auth ''Bearer '') = token)
         in if \<not> ok then http_NotFound else writePrometheus rnd now m))"

text \<open>metrics are shown to the token's holder only. A response of the metrics handler that
  depends on the counters was given on the base domain to a request whose Authorization header is
  \<open>Bearer\<close> and the configured token, and a token is configured.\<close>

theorem metrics_need_token:
  assumes "metricsHandler rnd now base token m r \<noteq> metricsHandler rnd now base token m' r"
  shows "TrimSpace token \<noteq> [] \<and> isBaseDomainHost (rq_host r) (TrimSpace base)
    \<and> (\<exists>t. TrimSpace (hdr_Get (rq_header r) ''Authorization'') = ''Bearer '' @ t \<and> TrimSpace t = TrimSpace token)"
proof -
  let ?auth = "TrimSpace (hdr_Get (rq_header r) ''Authorization'')"
  have ok: "TrimSpace token \<noteq> []" "isBaseDomainHost (rq_host r) (TrimSpace base)"
    "HasPrefix ?auth ''Bearer ''" "TrimSpace (TrimPrefix ?auth ''Bearer '') = TrimSpace token"
    using assms by (auto simp: metricsHandler_def Let_def split: if_splits)
  have "?auth = ''Bearer '' @ TrimPrefix ?auth ''Bearer ''"
    using ok(3) HasPrefix_conv by blast
  with ok show ?thesis by blast
qed

theorem metrics_need_token_witness:
  "TrimSpace ''s3cret'' = ''s3cret'' \<and> isBaseDomainHost ''example.com'' ''example.com''"
proof -
  let ?r = "demo_request ''GET'' ''example.com'' ''/metrics''
      \<lparr>rq_header := [''Authorization'' \<mapsto> [''Bearer s3cret'']]\<rparr>"
  let ?m = "newMetrics 0" and ?m' = "trackControlConn (newMetrics 0)"
  have "TrimSpace ''s3cret'' = ''s3cret''" "TrimSpace ''example.com'' = ''example.com''"
    "TrimSpace ''Bearer s3cret'' = ''Bearer s3cret''"
    "isBaseDomainHost ''example.com'' ''example.com''" by (simp_all add: eval_simps)
  then have run: "metricsHandler (\<lambda>x. x) 0 ''example.com'' ''s3cret'' m ?r = writePrometheus (\<lambda>x. x) 0 m" for m
    by (simp add: metricsHandler_def demo_request_def hdr_Get_def hdr_values_def TrimPrefix_def HasPrefix_def)
  have "Itoa 0 = ''0''" "Itoa 1 = ''1''" by (simp_all add: eval_simps)
  then have "writePrometheus (\<lambda>x. x) 0 ?m \<noteq> writePrometheus (\<lambda>x. x) 0 ?m'"
    by (simp add: writePrometheus_def newMetrics_def trackControlConn_def metric_lines_def)
  then have "metricsHandler (\<lambda>x. x) 0 ''example.com'' ''s3cret'' ?m ?r
      \<noteq> metricsHandler (\<lambda>x. x) 0 ''example.com'' ''s3cret'' ?m' ?r"
    by (simp only: run) simp
  from metrics_need_token [OF this] show ?thesis
    using \<open>TrimSpace ''s3cret'' = ''s3cret''\<close> \<open>TrimSpace ''example.com'' = ''example.com''\<close>
    by (simp add: demo_request_def)
qed

end
