(* ===== verification/GoUrl.thy ===== *)
theory GoUrl
  imports GoHttp
begin

text \<open>
  \<open>net/url\<close> of Go 1.23 as far as the program uses it: \<open>Parse\<close> and
  \<open>ParseRequestURI\<close> with the scheme, the authority (user, host, port), the path, the query
  and the fragment, and \<open>Hostname\<close> and \<open>Port\<close>. Errors are \<open>None\<close>: the code
  only asks whether there was one.
\<close>

record url =
  u_scheme :: string
  u_opaque :: string
  u_user :: "string option"
  u_host :: string
  u_omit_host :: bool
  u_path :: string
  u_raw_path :: string
  u_force_query :: bool
  u_raw_query :: string
  u_fragment :: string
  u_raw_fragment :: string

definition empty_url :: url where
  "empty_url = \<lparr>u_scheme = [], u_opaque = [], u_user = None, u_host = [], u_omit_host = False, u_path = [], u_raw_path = [],
     u_force_query = False, u_raw_query = [], u_fragment = [], u_raw_fragment = []\<rparr>"

definition is_letter :: "char \<Rightarrow> bool" where
  "is_letter c \<longleftrightarrow> is_lower c \<or> is_upper c"

text \<open>\<open>getScheme\<close>: the scheme (empty for none) and the rest; an error for a leading colon.\<close>

fun scheme_loop :: "bool \<Rightarrow> string \<Rightarrow> nat option option" where
  "scheme_loop first [] = Some None"
| "scheme_loop first (c # s) =
     (if is_letter c then
        (case scheme_loop False s of Some (Some n) \<Rightarrow> Some (Some (Suc n)) | r \<Rightarrow> r)
      else if is_digit c \<or> c = CHR ''+'' \<or> c = CHR ''-'' \<or> c = CHR ''.'' then
        (if first then Some None
         else (case scheme_loop False s of Some (Some n) \<Rightarrow> Some (Some (Suc n)) | r \<Rightarrow> r))
      else if c = CHR '':'' then (if first then None else Some (Some 0))
      else Some None)"

definition getScheme :: "string \<Rightarrow> (string \<times> string) option" where
  "getScheme s = (case scheme_loop True s of
       None \<Rightarrow> None
     | Some None \<Rightarrow> Some ([], s)
     | Some (Some n) \<Rightarrow> Some (take n s, drop (Suc n) s))"

definition validOptionalPort :: "string \<Rightarrow> bool" where
  "validOptionalPort p \<longleftrightarrow> p = [] \<or> (hd p = CHR '':'' \<and> list_all is_digit (tl p))"

text \<open>The bytes a host may hold unescaped.\<close>

definition host_byte :: "char \<Rightarrow> bool" where
  "host_byte c \<longleftrightarrow> query_plain c \<or> byte c \<ge> 128
     \<or> c \<in> set [CHR ''!'', CHR ''$'', CHR ''&'', CHR 0x27, CHR ''('', CHR '')'', CHR ''*'', CHR ''+'',
                CHR '','', CHR '';'', CHR ''='', CHR '':'', CHR ''['', CHR '']'', CHR ''<'', CHR ''>'', CHR 0x22]"

fun host_unescape :: "bool \<Rightarrow> string \<Rightarrow> string option" where
  "host_unescape zone [] = Some []"
| "host_unescape zone (c # s) =
     (if c = CHR ''%'' then
        (case s of
           a # b # s' \<Rightarrow>
             (case (hex_val a, hex_val b) of
                (Some x, Some y) \<Rightarrow>
                  (let d = char_of (16 * x + y); pct25 = (a = CHR ''2'' \<and> b = CHR ''5'') in
                   if \<not> zone \<and> x < 8 \<and> \<not> pct25 then None
                   else if zone \<and> \<not> pct25 \<and> d \<noteq> CHR '' '' \<and> \<not> host_byte d then None
                   else map_option ((#) d) (host_unescape zone s'))
              | _ \<Rightarrow> None)
         | _ \<Rightarrow> None)
      else if \<not> host_byte c then None
      else map_option ((#) c) (host_unescape zone s))"

definition parseHost :: "string \<Rightarrow> string option" where
  "parseHost host =
     (if HasPrefix host ''['' then
        (case cut_last CHR '']'' host of
           None \<Rightarrow> None
         | Some (before, colonPort) \<Rightarrow>
             if \<not> validOptionalPort colonPort then None
             else
               (case Index before ''%25'' of
                  Some z \<Rightarrow>
                    (case (host_unescape False (take z before), host_unescape True (drop z before),
                           host_unescape False ('']'' @ colonPort)) of
                       (Some h1, Some h2, Some h3) \<Rightarrow> Some (h1 @ h2 @ h3)
                     | _ \<Rightarrow> None)
                | None \<Rightarrow> host_unescape False host))
      else
        (case cut_last CHR '':'' host of
           Some (_, p) \<Rightarrow> if \<not> validOptionalPort (CHR '':'' # p) then None else host_unescape False host
         | None \<Rightarrow> host_unescape False host))"

definition user_byte :: "char \<Rightarrow> bool" where
  "user_byte c \<longleftrightarrow> is_letter c \<or> is_digit c
     \<or> c \<in> set [CHR ''-'', CHR ''.'', CHR ''_'', CHR '':'', CHR ''~'', CHR ''!'', CHR ''$'', CHR ''&'',
                CHR 0x27, CHR ''('', CHR '')'', CHR ''*'', CHR ''+'', CHR '','', CHR '';'', CHR ''='',
                CHR ''%'', CHR ''@'']"

definition parseAuthority :: "string \<Rightarrow> (string option \<times> string) option" where
  "parseAuthority authority =
     (case cut_last CHR ''@'' authority of
        None \<Rightarrow> map_option (\<lambda>h. (None, h)) (parseHost authority)
      | Some (user, host) \<Rightarrow>
          (case parseHost host of
             None \<Rightarrow> None
           | Some h \<Rightarrow>
               if \<not> list_all user_byte user then None
               else (case PathUnescape user of None \<Rightarrow> None | Some _ \<Rightarrow> Some (Some user, h))))"

definition set_path :: "string \<Rightarrow> url \<Rightarrow> url option" where
  "set_path p u = map_option (\<lambda>q. u\<lparr>u_path := q, u_raw_path := p\<rparr>) (PathUnescape p)"

definition ctl_byte :: "char \<Rightarrow> bool" where
  "ctl_byte c \<longleftrightarrow> byte c < 32 \<or> byte c = 127"

text \<open>The rest before the query, whether a lone question mark ends it, and the query.\<close>

definition split_query :: "string \<Rightarrow> string \<times> bool \<times> string" where
  "split_query rest =
     (if HasSuffix rest ''?'' \<and> length (filter (\<lambda>c. c = CHR ''?'') rest) = 1 then (TrimSuffix rest ''?'', True, [])
      else (case Cut rest ''?'' of (a, q, _) \<Rightarrow> (a, False, q)))"

definition url_rest :: "bool \<Rightarrow> url \<Rightarrow> string \<Rightarrow> url option" where
  "url_rest viaRequest u rest =
     (if \<not> HasPrefix rest ''/'' \<and> u_scheme u \<noteq> [] then Some (u\<lparr>u_opaque := rest\<rparr>)
      else if \<not> HasPrefix rest ''/'' \<and> viaRequest then None
      else if \<not> HasPrefix rest ''/'' \<and> CHR '':'' \<in> set (fst (Cut rest ''/'')) then None
      else if (u_scheme u \<noteq> [] \<or> (\<not> viaRequest \<and> \<not> HasPrefix rest ''///'')) \<and> HasPrefix rest ''//'' then
        (let a = drop 2 rest;
             authority = takeWhile (\<lambda>c. c \<noteq> CHR ''/'') a;
             path = dropWhile (\<lambda>c. c \<noteq> CHR ''/'') a
         in case parseAuthority authority of
              None \<Rightarrow> None
            | Some (user, host) \<Rightarrow> set_path path (u\<lparr>u_user := user, u_host := host\<rparr>))
      else set_path rest (u\<lparr>u_omit_host := (u_scheme u \<noteq> [] \<and> HasPrefix rest ''/'')\<rparr>))"

definition url_parse :: "bool \<Rightarrow> string \<Rightarrow> url option" where
  "url_parse viaRequest s =
     (if list_ex ctl_byte s then None
      else if s = [] \<and> viaRequest then None
      else if s = ''*'' then Some (empty_url\<lparr>u_path := ''*'', u_raw_path := ''*''\<rparr>)
      else
        (case getScheme s of
           None \<Rightarrow> None
         | Some (scheme, rest) \<Rightarrow>
             (case split_query rest of (rest', force, q) \<Rightarrow>
                url_rest viaRequest
                  (empty_url\<lparr>u_scheme := ToLower scheme, u_force_query := force, u_raw_query := q\<rparr>) rest')))"

definition url_Parse :: "string \<Rightarrow> url option" where
  "url_Parse s =
     (case Cut s ''#'' of (a, frag, _) \<Rightarrow>
        (case url_parse False a of
           None \<Rightarrow> None
         | Some u \<Rightarrow> map_option (\<lambda>f. u\<lparr>u_fragment := f, u_raw_fragment := frag\<rparr>) (PathUnescape frag)))"

definition url_ParseRequestURI :: "string \<Rightarrow> url option" where
  "url_ParseRequestURI s = url_parse True s"

definition url_split_host_port :: "string \<Rightarrow> string \<times> string" where
  "url_split_host_port hp =
     (let (host, port) = (case cut_last CHR '':'' hp of
            Some (h, p) \<Rightarrow> if list_all is_digit p then (h, p) else (hp, [])
          | None \<Rightarrow> (hp, []))
      in (if HasPrefix host ''['' \<and> HasSuffix host '']'' then butlast (tl host) else host, port))"

definition url_Hostname :: "url \<Rightarrow> string" where
  "url_Hostname u = fst (url_split_host_port (u_host u))"

definition url_Port :: "url \<Rightarrow> string" where
  "url_Port u = snd (url_split_host_port (u_host u))"

text \<open>The escaped form of a path, \<open>EscapedPath\<close> and \<open>RequestURI\<close>.\<close>

definition path_plain :: "char \<Rightarrow> bool" where
  "path_plain c \<longleftrightarrow> query_plain c \<or> c \<in> set [CHR ''$'', CHR ''&'', CHR ''+'', CHR '','', CHR ''/'', CHR '':'',
     CHR '';'', CHR ''='', CHR ''@'']"

definition escape_path :: "string \<Rightarrow> string" where
  "escape_path p = concat (map (\<lambda>c. if path_plain c then [c]
     else [CHR ''%'', upper_hex (byte c div 16), upper_hex (byte c mod 16)]) p)"

definition encoded_path_byte :: "char \<Rightarrow> bool" where
  "encoded_path_byte c \<longleftrightarrow> path_plain c
     \<or> c \<in> set [CHR ''!'', CHR 0x27, CHR ''('', CHR '')'', CHR ''*'', CHR ''['', CHR '']'', CHR ''%'']"

definition url_EscapedPath :: "url \<Rightarrow> string" where
  "url_EscapedPath u =
     (if u_raw_path u \<noteq> [] \<and> list_all encoded_path_byte (u_raw_path u)
         \<and> PathUnescape (u_raw_path u) = Some (u_path u)
      then u_raw_path u
      else if u_path u = ''*'' then ''*''
      else escape_path (u_path u))"

definition url_RequestURI :: "url \<Rightarrow> string" where
  "url_RequestURI u =
     (let p = (if u_opaque u = [] then (if url_EscapedPath u = [] then ''/'' else url_EscapedPath u)
               else if HasPrefix (u_opaque u) ''//'' then u_scheme u @ '':'' @ u_opaque u
               else u_opaque u)
      in if u_force_query u \<or> u_raw_query u \<noteq> [] then p @ ''?'' @ u_raw_query u else p)"

text \<open>\<open>URL.String\<close>.\<close>

definition percent_byte :: "char \<Rightarrow> string" where
  "percent_byte c = [CHR ''%'', upper_hex (byte c div 16), upper_hex (byte c mod 16)]"

definition escape_host :: "string \<Rightarrow> string" where
  "escape_host h = concat (map (\<lambda>c. if host_byte c \<and> byte c < 128 then [c] else percent_byte c) h)"

definition escape_user :: "string \<Rightarrow> string" where
  "escape_user s = concat (map (\<lambda>c. if query_plain c \<or> c \<in> set ''$&+,;='' then [c] else percent_byte c) s)"

text \<open>The user part is kept as it was written; \<open>String\<close> decodes its two parts and encodes them again.\<close>

definition user_string :: "string \<Rightarrow> string" where
  "user_string raw =
     (let enc = (\<lambda>s. case PathUnescape s of Some t \<Rightarrow> escape_user t | None \<Rightarrow> s) in
      case Cut raw '':'' of (user, pass, has) \<Rightarrow> if has then enc user @ '':'' @ enc pass else enc user)"

definition fragment_plain :: "char \<Rightarrow> bool" where
  "fragment_plain c \<longleftrightarrow> path_plain c \<or> c \<in> set ''?!()*''"

definition url_EscapedFragment :: "url \<Rightarrow> string" where
  "url_EscapedFragment u =
     (if u_raw_fragment u \<noteq> [] \<and> list_all (\<lambda>c. fragment_plain c \<or> encoded_path_byte c) (u_raw_fragment u)
         \<and> PathUnescape (u_raw_fragment u) = Some (u_fragment u)
      then u_raw_fragment u
      else concat (map (\<lambda>c. if fragment_plain c then [c] else percent_byte c) (u_fragment u)))"

definition url_String :: "url \<Rightarrow> string" where
  "url_String u =
     (let scheme = (if u_scheme u \<noteq> [] then u_scheme u @ '':'' else []);
          host = (if u_scheme u = [] \<and> u_host u = [] \<and> u_user u = None then []
                  else if u_omit_host u \<and> u_host u = [] \<and> u_user u = None then []
                  else (if u_host u \<noteq> [] \<or> u_path u \<noteq> [] \<or> u_user u \<noteq> None then ''//'' else [])
                    @ (case u_user u of None \<Rightarrow> [] | Some s \<Rightarrow> user_string s @ ''@'')
                    @ escape_host (u_host u));
          path = url_EscapedPath u;
          slash = (if path \<noteq> [] \<and> hd path \<noteq> CHR ''/'' \<and> u_host u \<noteq> [] then ''/'' else []);
          dot = (if scheme @ host @ slash = [] \<and> CHR '':'' \<in> set (fst (Cut path ''/'')) then ''./'' else []);
          main = (if u_opaque u \<noteq> [] then scheme @ u_opaque u else scheme @ host @ slash @ dot @ path);
          q = (if u_force_query u \<or> u_raw_query u \<noteq> [] then ''?'' @ u_raw_query u else []);
          f = (if u_fragment u \<noteq> [] then ''#'' @ url_EscapedFragment u else [])
      in main @ q @ f)"

lemmas [eval_simps] =
  percent_byte_def escape_host_def escape_user_def user_string_def fragment_plain_def
  url_EscapedFragment_def url_String_def
  path_plain_def escape_path_def encoded_path_byte_def url_EscapedPath_def url_RequestURI_def
  empty_url_def is_letter_def getScheme_def validOptionalPort_def host_byte_def parseHost_def
  user_byte_def parseAuthority_def set_path_def ctl_byte_def split_query_def url_rest_def
  url_parse_def url_Parse_def url_ParseRequestURI_def url_split_host_port_def url_Hostname_def url_Port_def

end
