(* ===== verification/ControlHandler.thy ===== *)
theory ControlHandler
  imports TunnelLimits Metrics GoUrl
begin

text \<open>
  \<open>internal/server/control.go\<close>: a control connection, from the request on its first stream
  to the reply and the live tunnel. The handler of the code is cut where it waits: the stages
  below are the code between two waits, each atomic on the server's shared state, and the
  connections interleave between them (theory Sessions). The store calls inside a stage are
  separate statements: \<open>env_others i\<close> is what other users of the store do before call
  \<open>i\<close>. The interfaces of \<open>Dependencies\<close> are records of functions over the state of
  the store; a missing one is Go's nil. JSON decoding is done before: a request is a
  \<open>base_request\<close> or undecodable.
\<close>

subsection \<open>Requests, replies, dependencies\<close>

record base_request =
  bq_type :: string
  bq_authtoken :: string
  bq_remote_port :: int
  bq_subdomain :: string
  bq_domain :: string
  bq_basic_auth :: string
  bq_allow_method :: "string list"
  bq_allow_path :: "string list"
  bq_allow_path_prefix :: "string list"
  bq_allow_cidr :: "string list"
  bq_deny_cidr :: "string list"
  bq_request_header_add :: "header_kv list"
  bq_request_header_remove :: "string list"
  bq_response_header_add :: "header_kv list"
  bq_response_header_remove :: "string list"

datatype control_reply =
    TcpError go_error
  | TcpCreated int
  | HttpError go_error
  | HttpCreated string string

record 'db reservation_store =
  rsv_subdomain_owner :: "nat \<Rightarrow> 'db \<Rightarrow> string \<Rightarrow> int option result"
  rsv_reserve_subdomain :: "nat \<Rightarrow> 'db \<Rightarrow> int \<Rightarrow> string \<Rightarrow> unit result \<times> 'db"
  rsv_port_owner :: "nat \<Rightarrow> 'db \<Rightarrow> int \<Rightarrow> int option result"
  rsv_reserve_port :: "nat \<Rightarrow> 'db \<Rightarrow> int \<Rightarrow> int \<Rightarrow> unit result \<times> 'db"

record 'db dependencies =
  dep_validate :: "('db \<Rightarrow> string \<Rightarrow> bool result) option"
  dep_token_id :: "('db \<Rightarrow> string \<Rightarrow> int option result) option"
  dep_reservations :: "'db reservation_store option"

text \<open>What the stages of one connection read from outside.\<close>

record 'db environment =
  env_between :: "'db \<Rightarrow> 'db"
  env_now :: int
  env_rounding :: "rat \<Rightarrow> rat"
  env_others :: "nat \<Rightarrow> 'db \<Rightarrow> 'db"
  env_free_port :: "int \<Rightarrow> bool"
  env_random :: "nat \<Rightarrow> nat \<Rightarrow> string result"
  env_tables :: "nat \<Rightarrow> registry"

definition maxCIDREntries :: int where "maxCIDREntries = 64"
definition maxHeaderTransformEntries :: int where "maxHeaderTransformEntries = 64"
definition maxAllowlistEntries :: int where "maxAllowlistEntries = 64"

subsection \<open>Options of an HTTP tunnel\<close>

definition parseBasicAuthCredential :: "string \<Rightarrow> credential option result" where
  "parseBasicAuthCredential s =
     (let s = TrimSpace s in
      if s = [] then Inr None
      else
        (case Cut s '':'' of (user, pass, ok) \<Rightarrow>
           if \<not> ok then Inl (Msg ''invalid basic_auth'')
           else
             (let user = TrimSpace user in
              if user = [] then Inl (Msg ''invalid basic_auth'')
              else Inr (Some \<lparr>cred_username = user, cred_password = pass\<rparr>))))"

definition parseHeaderNameList :: "string \<Rightarrow> string list \<Rightarrow> string list result" where
  "parseHeaderNameList field values =
     (if values = [] then Inr []
      else if int (length values) > maxHeaderTransformEntries then Inl (TooManyEntries field)
      else map_res (NormalizeHeaderName field) values)"

definition header_kv_entry :: "string \<Rightarrow> header_kv \<Rightarrow> header_add result" where
  "header_kv_entry field kv =
     bind_res (NormalizeHeaderName field (kv_name kv)) (\<lambda>name.
     bind_res (ValidateHeaderValue field (kv_name kv) (kv_value kv)) (\<lambda>val.
       Inr \<lparr>ha_name = name, ha_value = val\<rparr>))"

definition parseHeaderKVList :: "string \<Rightarrow> header_kv list \<Rightarrow> header_add list result" where
  "parseHeaderKVList field values =
     (if values = [] then Inr []
      else if int (length values) > maxHeaderTransformEntries then Inl (TooManyEntries field)
      else map_res (header_kv_entry field) values)"

text \<open>The middle of \<open>handleHTTPControl\<close>: every option is parsed, the first error is the reply.\<close>

definition parse_options :: "create_http_request \<Rightarrow> http_tunnel_options result" where
  "parse_options req =
     bind_res (parseBasicAuthCredential (http_basic_auth req)) (\<lambda>basicAuth.
     bind_res (ParseCIDRList ''allow_cidr'' (http_allow_cidr req) maxCIDREntries) (\<lambda>allowCIDRs.
     bind_res (ParseCIDRList ''deny_cidr'' (http_deny_cidr req) maxCIDREntries) (\<lambda>denyCIDRs.
     bind_res (ParseHTTPMethodList ''allow_method'' (http_allow_method req) maxAllowlistEntries) (\<lambda>methods.
     bind_res (ParsePathList ''allow_path'' (http_allow_path req) maxAllowlistEntries) (\<lambda>paths.
     bind_res (ParsePathList ''allow_path_prefix'' (http_allow_path_prefix req) maxAllowlistEntries) (\<lambda>pathPrefixes.
     bind_res (parseHeaderNameList ''request_header_remove'' (http_request_header_remove req)) (\<lambda>reqRemove.
     bind_res (parseHeaderKVList ''request_header_add'' (http_request_header_add req)) (\<lambda>reqAdd.
     bind_res (parseHeaderNameList ''response_header_remove'' (http_response_header_remove req)) (\<lambda>respRemove.
     bind_res (parseHeaderKVList ''response_header_add'' (http_response_header_add req)) (\<lambda>respAdd.
       Inr \<lparr>opt_basic_auth = basicAuth, opt_allow_cidrs = allowCIDRs, opt_deny_cidrs = denyCIDRs,
            opt_allow_methods = methods, opt_allow_paths = paths, opt_allow_path_prefixes = pathPrefixes,
            opt_request_header_add = reqAdd, opt_request_header_remove = reqRemove,
            opt_response_header_add = respAdd, opt_response_header_remove = respRemove\<rparr>))))))))))"

subsection \<open>Authentication\<close>

definition refuse :: "string \<Rightarrow> string \<Rightarrow> control_reply" where
  "refuse reqType msg = (if reqType = ''http'' then HttpError (Msg msg) else TcpError (Msg msg))"

text \<open>
  The validator reads the store at \<open>db\<close> and the resolver, later, at \<open>db'\<close>. The token
  id is 0 when no resolver knows the token.
\<close>

definition authenticate :: "config \<Rightarrow> 'db dependencies \<Rightarrow> 'db \<Rightarrow> 'db \<Rightarrow> string \<Rightarrow> string + int" where
  "authenticate cfg deps db db' token =
     (case (case dep_validate deps of
              Some validate \<Rightarrow>
                (case validate db token of
                   Inl _ \<Rightarrow> Inl ''auth error''
                 | Inr ok \<Rightarrow> if \<not> ok then Inl ''unauthorized'' else Inr ())
            | None \<Rightarrow>
                if cfg_auth_token cfg \<noteq> [] \<and> TrimSpace token \<noteq> cfg_auth_token cfg
                then Inl ''unauthorized'' else Inr ()) of
        Inl msg \<Rightarrow> Inl msg
      | Inr _ \<Rightarrow>
          (case dep_token_id deps of
             None \<Rightarrow> Inr 0
           | Some resolve \<Rightarrow>
               (case resolve db' token of
                  Inl _ \<Rightarrow> Inl ''auth error''
                | Inr None \<Rightarrow> Inr 0
                | Inr (Some i) \<Rightarrow> Inr i)))"

subsection \<open>Claiming a reservation\<close>

text \<open>
  Both kinds of tunnels claim a key the same way: look the owner up; reserve the key when it has
  none; when the reservation fails, look again, since another connection may have won.
\<close>

datatype claim = Claimed | LookupFailed | NotOwner | ReserveFailed

definition claim_key ::
  "(nat \<Rightarrow> 'db \<Rightarrow> 'k \<Rightarrow> int option result) \<Rightarrow> (nat \<Rightarrow> 'db \<Rightarrow> int \<Rightarrow> 'k \<Rightarrow> unit result \<times> 'db)
    \<Rightarrow> (nat \<Rightarrow> 'db \<Rightarrow> 'db) \<Rightarrow> int \<Rightarrow> 'k \<Rightarrow> 'db \<Rightarrow> claim \<times> 'db" where
  "claim_key owner reserve others tokenID k db =
     (let db1 = others 0 db in
      case owner 0 db1 k of
        Inl _ \<Rightarrow> (LookupFailed, db1)
      | Inr (Some t) \<Rightarrow> (if t \<noteq> tokenID then NotOwner else Claimed, db1)
      | Inr None \<Rightarrow>
          (case reserve 1 (others 1 db1) tokenID k of
             (Inr _, db2) \<Rightarrow> (Claimed, db2)
           | (Inl _, db2) \<Rightarrow>
               (let db3 = others 2 db2 in
                case owner 2 db3 k of
                  Inr (Some t) \<Rightarrow> (if t = tokenID then Claimed else NotOwner, db3)
                | _ \<Rightarrow> (ReserveFailed, db3))))"

definition claim_port ::
  "config \<Rightarrow> 'db reservation_store \<Rightarrow> (nat \<Rightarrow> 'db \<Rightarrow> 'db) \<Rightarrow> int \<Rightarrow> int \<Rightarrow> 'db \<Rightarrow> string option \<times> 'db" where
  "claim_port cfg rsv others tokenID port db =
     (if port < cfg_tcp_port_range_start cfg \<or> port > cfg_tcp_port_range_end cfg
      then (Some ''requested port out of range'', db)
      else
        (case claim_key (rsv_port_owner rsv) (rsv_reserve_port rsv) others tokenID port db of
           (Claimed, db') \<Rightarrow> (None, db')
         | (LookupFailed, db') \<Rightarrow> (Some ''invalid requested port'', db')
         | (NotOwner, db') \<Rightarrow> (Some ''unauthorized'', db')
         | (ReserveFailed, db') \<Rightarrow> (Some ''failed to reserve port'', db')))"

text \<open>The host a \<open>domain\<close> option names: of a URL its host, otherwise the text itself.\<close>

definition domain_host :: "string \<Rightarrow> string option" where
  "domain_host domain =
     (if Contains domain ''://'' then map_option u_host (url_Parse domain) else Some domain)"

definition desired_id :: "config \<Rightarrow> string \<Rightarrow> string \<Rightarrow> string option" where
  "desired_id cfg domain subdomain =
     (if domain \<noteq> [] then
        (case domain_host domain of None \<Rightarrow> None | Some host \<Rightarrow> tunnelIDFromHost host (cfg_tunnel_domain cfg))
      else Some subdomain)"

text \<open>The first function literal of \<open>handleHTTPControl\<close>: the id of the tunnel, or the error.\<close>

definition resolve_tunnel_id ::
  "config \<Rightarrow> 'db dependencies \<Rightarrow> 'db environment \<Rightarrow> int \<Rightarrow> create_http_request \<Rightarrow> 'db \<Rightarrow> string result \<times> 'db" where
  "resolve_tunnel_id cfg deps env tokenID req db =
     (let domain = TrimSpace (http_domain req); subdomain = TrimSpace (http_subdomain req) in
      if domain = [] \<and> subdomain = [] then
        (case AllocateID (env_random env) (env_tables env) of
           Inl _ \<Rightarrow> (Inl (Msg ''failed to allocate id''), db)
         | Inr i \<Rightarrow> (Inr i, db))
      else if domain \<noteq> [] \<and> subdomain \<noteq> [] then (Inl (Msg ''invalid request''), db)
      else
        (case dep_reservations deps of
           None \<Rightarrow> (Inl (Msg ''unauthorized''), db)
         | Some rsv \<Rightarrow>
             if tokenID \<le> 0 then (Inl (Msg ''unauthorized''), db)
             else
               (case desired_id cfg domain subdomain of
                  None \<Rightarrow> (Inl (Msg ''invalid domain''), db)
                | Some desired \<Rightarrow>
                    (case claim_key (rsv_subdomain_owner rsv) (rsv_reserve_subdomain rsv) (env_others env)
                            tokenID desired db of
                       (Claimed, db') \<Rightarrow> (Inr desired, db')
                     | (LookupFailed, db') \<Rightarrow> (Inl (Msg ''invalid subdomain''), db')
                     | (NotOwner, db') \<Rightarrow> (Inl (Msg ''unauthorized''), db')
                     | (ReserveFailed, db') \<Rightarrow> (Inl (Msg ''failed to reserve subdomain''), db')))))"

subsection \<open>TCP listeners\<close>

text \<open>
  \<open>free p\<close>: \<open>net.Listen\<close> on port \<open>p\<close> succeeds. The loop over the range is a
  recursion on the distance to its end.
\<close>

function first_free :: "(int \<Rightarrow> bool) \<Rightarrow> int \<Rightarrow> int \<Rightarrow> int option" where
  "first_free free port hi =
     (if port > hi then None else if free port then Some port else first_free free (port + 1) hi)"
  by pat_completeness auto
termination
  by (relation "measure (\<lambda>(free, port, hi). nat (hi + 1 - port))") auto

declare first_free.simps [simp del]

definition allocateTCPListener :: "config \<Rightarrow> (int \<Rightarrow> bool) \<Rightarrow> int \<Rightarrow> int result" where
  "allocateTCPListener cfg free requestedPort =
     (if requestedPort \<noteq> 0 then
        (if requestedPort < cfg_tcp_port_range_start cfg \<or> requestedPort > cfg_tcp_port_range_end cfg
         then Inl (Msg ''requested port out of range'')
         else if \<not> free requestedPort then Inl (Msg ''requested port unavailable'')
         else Inr requestedPort)
      else
        (let start = cfg_tcp_port_range_start cfg; end' = cfg_tcp_port_range_end cfg in
         if start \<le> 0 \<or> end' \<le> 0 \<or> end' < start then Inl (Msg ''invalid tcp port range'')
         else (case first_free free start end' of
                 Some port \<Rightarrow> Inr port
               | None \<Rightarrow> Inl (Msg ''no ports available''))))"


subsection \<open>Replies\<close>

text \<open>The error text of a reply; \<open>quote\<close> is the formatting of \<open>%q\<close>.\<close>

fun error_text :: "(string \<Rightarrow> string) \<Rightarrow> go_error \<Rightarrow> string" where
  "error_text quote (Msg s) = s"
| "error_text quote (InvalidField f) = ''invalid '' @ f"
| "error_text quote (InvalidEntry f raw) = ''invalid '' @ f @ '': '' @ quote raw"
| "error_text quote (TooManyEntries f) = ''invalid '' @ f @ '': too many entries''"

fun reply_message :: "(string \<Rightarrow> string) \<Rightarrow> control_reply \<Rightarrow> create_tcp_response + create_http_response" where
  "reply_message quote (TcpError e) =
     Inl \<lparr>tcp_resp_type = ''tcp'', tcp_resp_remote_port = 0, tcp_resp_error = error_text quote e\<rparr>"
| "reply_message quote (TcpCreated port) =
     Inl \<lparr>tcp_resp_type = ''tcp'', tcp_resp_remote_port = port, tcp_resp_error = []\<rparr>"
| "reply_message quote (HttpError e) =
     Inr \<lparr>http_resp_type = ''http'', http_resp_id = [], http_resp_url = [], http_resp_error = error_text quote e\<rparr>"
| "reply_message quote (HttpCreated i u) =
     Inr \<lparr>http_resp_type = ''http'', http_resp_id = i, http_resp_url = u, http_resp_error = []\<rparr>"

subsection \<open>The stages of a connection\<close>

record 'db server =
  sv_db :: 'db
  sv_registry :: registry
  sv_limiter :: limiter
  sv_buckets :: buckets
  sv_metrics :: metrics
  sv_listening :: "int set"

text \<open>
  The first stage, after the request arrived: authentication, then the limits. The result is the
  token id and the lease of its slot. A refusal by the rate limit still holds the slot taken just
  before: the release is deferred, so it runs when the handler returns (the step \<open>finish\<close> of \<open>Sessions\<close>).
\<close>

type_synonym slot = "(int \<times> lease) option"

definition request_type :: "base_request \<Rightarrow> string" where
  "request_type req = ToLower (TrimSpace (bq_type req))"

definition acquire_slot :: "config \<Rightarrow> int \<Rightarrow> 'db server \<Rightarrow> lease option \<times> 'db server" where
  "acquire_slot cfg tokenID sv =
     (if cfg_max_tunnels_per_token cfg > 0 \<and> tokenID > 0 then
        (case TryAcquire (Some (sv_limiter sv)) tokenID (cfg_max_tunnels_per_token cfg) of
           (r, Some l) \<Rightarrow> (r, sv\<lparr>sv_limiter := l\<rparr>)
         | (r, None) \<Rightarrow> (r, sv))
      else (Some NoLease, sv))"

definition release_lease :: "lease \<Rightarrow> 'db server \<Rightarrow> 'db server" where
  "release_lease x sv =
     (case release x (Some (sv_limiter sv)) of Some l \<Rightarrow> sv\<lparr>sv_limiter := l\<rparr> | None \<Rightarrow> sv)"

definition check_rate :: "config \<Rightarrow> 'db environment \<Rightarrow> int \<Rightarrow> 'db server \<Rightarrow> bool \<times> 'db server" where
  "check_rate cfg env tokenID sv =
     (if cfg_max_tunnel_creates_per_minute cfg > 0 \<and> tokenID > 0 then
        (case Allow (env_rounding env) (env_now env) (Some (sv_buckets sv)) tokenID
                (cfg_max_tunnel_creates_per_minute cfg) of
           (ok, Some b) \<Rightarrow> (ok, sv\<lparr>sv_buckets := b\<rparr>)
         | (ok, None) \<Rightarrow> (ok, sv))
      else (True, sv))"

definition admit ::
  "config \<Rightarrow> 'db dependencies \<Rightarrow> 'db environment \<Rightarrow> base_request option \<Rightarrow> 'db server
    \<Rightarrow> ((control_reply \<times> slot) + base_request \<times> int \<times> lease) \<times> 'db server" where
  "admit cfg deps env msg sv =
     (case msg of
        None \<Rightarrow> (Inl (TcpError (Msg ''invalid request''), None), sv)
      | Some req \<Rightarrow>
          (let sv1 = sv\<lparr>sv_db := env_between env (sv_db sv)\<rparr> in
           case authenticate cfg deps (sv_db sv) (sv_db sv1) (bq_authtoken req) of
             Inl msg \<Rightarrow> (Inl (refuse (request_type req) msg, None), sv1)
           | Inr tokenID \<Rightarrow>
               (case acquire_slot cfg tokenID sv1 of
                  (None, sv2) \<Rightarrow> (Inl (refuse (request_type req) ''too many active tunnels'', None), sv2)
                | (Some x, sv2) \<Rightarrow>
                    (case check_rate cfg env tokenID sv2 of
                       (False, sv3) \<Rightarrow>
                         (Inl (refuse (request_type req) ''rate limit exceeded'', Some (tokenID, x)), sv3)
                     | (True, sv3) \<Rightarrow> (Inr (req, tokenID, x), sv3)))))"

text \<open>The second stage: the tunnel itself, a listener or an entry of the registry.\<close>

datatype tunnel = TcpTunnel int | HttpTunnel string

definition establish_tcp ::
  "config \<Rightarrow> 'db dependencies \<Rightarrow> 'db environment \<Rightarrow> base_request \<Rightarrow> int \<Rightarrow> 'db server
    \<Rightarrow> (control_reply \<times> tunnel option) \<times> 'db server" where
  "establish_tcp cfg deps env req tokenID sv =
     (case (case dep_reservations deps of
              Some rsv \<Rightarrow>
                if bq_remote_port req \<noteq> 0 \<and> tokenID > 0
                then claim_port cfg rsv (env_others env) tokenID (bq_remote_port req) (sv_db sv)
                else (None, sv_db sv)
            | None \<Rightarrow> (None, sv_db sv)) of
        (Some msg, db) \<Rightarrow> ((TcpError (Msg msg), None), sv\<lparr>sv_db := db\<rparr>)
      | (None, db) \<Rightarrow>
          (case allocateTCPListener cfg (\<lambda>p. env_free_port env p \<and> p \<notin> sv_listening sv) (bq_remote_port req) of
             Inl e \<Rightarrow> ((TcpError e, None), sv\<lparr>sv_db := db\<rparr>)
           | Inr port \<Rightarrow>
               ((TcpCreated port, Some (TcpTunnel port)),
                sv\<lparr>sv_db := db, sv_listening := insert port (sv_listening sv),
                   sv_metrics := trackTCPTunnel (sv_metrics sv)\<rparr>)))"

definition http_request_of :: "base_request \<Rightarrow> create_http_request" where
  "http_request_of req =
     \<lparr>http_type = ''http'', http_authtoken = bq_authtoken req, http_subdomain = bq_subdomain req,
      http_domain = bq_domain req, http_basic_auth = bq_basic_auth req,
      http_allow_method = bq_allow_method req, http_allow_path = bq_allow_path req,
      http_allow_path_prefix = bq_allow_path_prefix req, http_allow_cidr = bq_allow_cidr req,
      http_deny_cidr = bq_deny_cidr req, http_request_header_add = bq_request_header_add req,
      http_request_header_remove = bq_request_header_remove req,
      http_response_header_add = bq_response_header_add req,
      http_response_header_remove = bq_response_header_remove req\<rparr>"

definition tunnel_url :: "config \<Rightarrow> string \<Rightarrow> string" where
  "tunnel_url cfg i = ''https://'' @ i @ ''.'' @ TrimSuffix (cfg_tunnel_domain cfg) ''.''"

definition establish_http ::
  "config \<Rightarrow> 'db dependencies \<Rightarrow> 'db environment \<Rightarrow> nat \<Rightarrow> base_request \<Rightarrow> int \<Rightarrow> 'db server
    \<Rightarrow> (control_reply \<times> tunnel option) \<times> 'db server" where
  "establish_http cfg deps env conn req tokenID sv =
     (case resolve_tunnel_id cfg deps env tokenID (http_request_of req) (sv_db sv) of
        (Inl e, db) \<Rightarrow> ((HttpError e, None), sv\<lparr>sv_db := db\<rparr>)
      | (Inr i, db) \<Rightarrow>
          (case parse_options (http_request_of req) of
             Inl e \<Rightarrow> ((HttpError e, None), sv\<lparr>sv_db := db\<rparr>)
           | Inr opts \<Rightarrow>
               (case RegisterHTTPTunnel (sv_registry sv) i (Some conn) opts of
                  (Inl _, reg) \<Rightarrow>
                    ((HttpError (Msg ''failed to register tunnel''), None), sv\<lparr>sv_db := db, sv_registry := reg\<rparr>)
                | (Inr _, reg) \<Rightarrow>
                    ((HttpCreated i (tunnel_url cfg i), Some (HttpTunnel i)),
                     sv\<lparr>sv_db := db, sv_registry := reg, sv_metrics := trackHTTPTunnel (sv_metrics sv)\<rparr>))))"

definition establish ::
  "config \<Rightarrow> 'db dependencies \<Rightarrow> 'db environment \<Rightarrow> nat \<Rightarrow> base_request \<Rightarrow> int \<Rightarrow> 'db server
    \<Rightarrow> (control_reply \<times> tunnel option) \<times> 'db server" where
  "establish cfg deps env conn req tokenID sv =
     (if request_type req = ''tcp'' then establish_tcp cfg deps env req tokenID sv
      else if request_type req = ''http'' then establish_http cfg deps env conn req tokenID sv
      else ((TcpError (Msg ''unsupported tunnel type''), None), sv))"

text \<open>The deferred calls of the handlers, run when a connection ends in any stage.\<close>

fun close_tunnel :: "tunnel option \<Rightarrow> 'db server \<Rightarrow> 'db server" where
  "close_tunnel None sv = sv"
| "close_tunnel (Some (TcpTunnel port)) sv =
     sv\<lparr>sv_listening := sv_listening sv - {port}, sv_metrics := untrackTCPTunnel (sv_metrics sv)\<rparr>"
| "close_tunnel (Some (HttpTunnel i)) sv =
     sv\<lparr>sv_registry := UnregisterHTTPTunnel (sv_registry sv) i, sv_metrics := untrackHTTPTunnel (sv_metrics sv)\<rparr>"

definition begin_connection :: "'db server \<Rightarrow> 'db server" where
  "begin_connection sv = sv\<lparr>sv_metrics := trackControlConn (sv_metrics sv)\<rparr>"

definition end_connection :: "tunnel option \<Rightarrow> lease \<Rightarrow> 'db server \<Rightarrow> 'db server" where
  "end_connection tun x sv =
     (let sv' = release_lease x (close_tunnel tun sv)
      in sv'\<lparr>sv_metrics := untrackControlConn (sv_metrics sv')\<rparr>)"

lemmas [eval_simps] =
  maxCIDREntries_def maxHeaderTransformEntries_def maxAllowlistEntries_def
  parseBasicAuthCredential_def parseHeaderNameList_def header_kv_entry_def parseHeaderKVList_def
  parse_options_def refuse_def authenticate_def claim_key_def claim_port_def domain_host_def
  desired_id_def resolve_tunnel_id_def allocateTCPListener_def first_free.simps request_type_def
  acquire_slot_def release_lease_def check_rate_def admit_def establish_tcp_def http_request_of_def
  tunnel_url_def establish_http_def establish_def begin_connection_def end_connection_def

subsection \<open>Claims and the store\<close>

text \<open>
  What the claim relies on, for either kind of key: a lookup that succeeds tells who holds the
  key, a reservation that succeeds makes the caller its holder, and no reservation takes a key
  from its holder. \<open>held\<close> is who holds a key in a state of the store.
\<close>

locale owned_keys =
  fixes owner :: "nat \<Rightarrow> 'db \<Rightarrow> 'k \<Rightarrow> int option result"
    and reserve :: "nat \<Rightarrow> 'db \<Rightarrow> int \<Rightarrow> 'k \<Rightarrow> unit result \<times> 'db"
    and held :: "'db \<Rightarrow> 'k \<Rightarrow> int option"
  assumes owner_held: "owner n db k = Inr r \<Longrightarrow> held db k = r"
    and reserve_ok: "reserve n db t k = (Inr (), db') \<Longrightarrow> held db' k = Some t"
    and reserve_keeps: "held db k = Some u \<Longrightarrow> held (snd (reserve n db t k')) k = Some u"
begin

lemma claimed_is_held:
  assumes "claim_key owner reserve others t k db = (Claimed, db')"
  shows "held db' k = Some t"
  using assms
  by (auto simp: claim_key_def Let_def split: sum.splits option.splits prod.splits if_splits
      dest: owner_held reserve_ok)

lemma refused_holder:
  assumes "claim_key owner reserve others t k db = (NotOwner, db')"
  shows "\<exists>u. u \<noteq> t \<and> held db' k = Some u"
  using assms
  by (auto simp: claim_key_def Let_def split: sum.splits option.splits prod.splits if_splits
      dest: owner_held)

lemma claim_takes_nothing:
  assumes "held db k = Some u" and "\<And>i d. held d k = Some u \<Longrightarrow> held (others i d) k = Some u"
  shows "held (snd (claim_key owner reserve others t k' db)) k = Some u"
proof -
  have 1: "held (others 0 db) k = Some u" using assms by blast
  have 2: "held (others 1 (others 0 db)) k = Some u" using assms(2) 1 by blast
  obtain r db2 where r: "reserve 1 (others 1 (others 0 db)) t k' = (r, db2)" by fastforce
  have 3: "held db2 k = Some u" using reserve_keeps [OF 2, of 1 t k'] r by simp
  have 4: "held (others 2 db2) k = Some u" using assms(2) 3 by blast
  show ?thesis
    using 1 3 4 r by (auto simp: claim_key_def Let_def split: sum.splits option.splits)
qed

lemma foreign_key_not_claimed:
  assumes "held db k = Some u" and "u \<noteq> t" and "\<And>i d. held d k = Some u \<Longrightarrow> held (others i d) k = Some u"
  shows "fst (claim_key owner reserve others t k db) \<noteq> Claimed"
proof
  assume "fst (claim_key owner reserve others t k db) = Claimed"
  then have "held (snd (claim_key owner reserve others t k db)) k = Some t"
    using claimed_is_held [of others t k db] by (cases "claim_key owner reserve others t k db") auto
  with claim_takes_nothing [where others = others and t = t and k' = k, OF assms(1,3)] assms(2) show False by simp
qed

end

text \<open>The auth store as the reservation store of the server.\<close>

definition auth_reservations :: "(nat \<Rightarrow> fault) \<Rightarrow> (nat \<Rightarrow> int) \<Rightarrow> store reservation_store" where
  "auth_reservations flts now =
     \<lparr>rsv_subdomain_owner = (\<lambda>n s k. ReservedSubdomainTokenID (flts n) s k),
      rsv_reserve_subdomain = (\<lambda>n s t k. ReserveSubdomain (flts n) (now n) s t k),
      rsv_port_owner = (\<lambda>n s k. ReservedTCPPortTokenID (flts n) s k),
      rsv_reserve_port = (\<lambda>n s t k. ReserveTCPPort (flts n) (now n) s t k)\<rparr>"

definition subdomain_held :: "store \<Rightarrow> string \<Rightarrow> int option" where
  "subdomain_held s sub = (case subdomain_key sub of None \<Rightarrow> None | Some k \<Rightarrow> subdomain_owner s k)"

interpretation subdomain_claims: owned_keys
  "rsv_subdomain_owner (auth_reservations flts now)" "rsv_reserve_subdomain (auth_reservations flts now)"
  subdomain_held
  for flts now
proof (unfold_locales, goal_cases)
  case (1 n db k r)
  then show ?case
    by (cases db; cases "flts n")
      (auto simp: auth_reservations_def ReservedSubdomainTokenID_def with_store_q_def query_sql_def
        subdomain_held_def subdomain_key_def subdomain_owner_def split: sum.splits)
next
  case (2 n db t k db')
  then have "fst (ReserveSubdomain (flts n) (now n) db t k) = Inr ()"
    by (simp add: auth_reservations_def)
  from subdomains.reserve_new [OF this] 2 show ?case
    by (auto simp: auth_reservations_def subdomain_held_def)
next
  case (3 db k u n t k')
  then show ?case
    by (auto simp: auth_reservations_def subdomain_held_def subdomains.reserve_keeps split: option.splits)
qed

interpretation port_claims: owned_keys
  "rsv_port_owner (auth_reservations flts now)" "rsv_reserve_port (auth_reservations flts now)" port_owner
  for flts now
proof (unfold_locales, goal_cases)
  case (1 n db k r)
  then show ?case
    by (cases db; cases "flts n")
      (auto simp: auth_reservations_def ReservedTCPPortTokenID_def with_store_q_def query_sql_def
        port_owner_def split: if_splits)
next
  case (2 n db t k db')
  then have "fst (ReserveTCPPort (flts n) (now n) db t k) = Inr ()"
    by (simp add: auth_reservations_def)
  from ports.reserve_new [OF this] 2 show ?case
    by (auto simp: auth_reservations_def port_key_def split: if_splits)
next
  case (3 db k u n t k')
  then show ?case by (auto simp: auth_reservations_def ports.reserve_keeps)
qed


definition auth_dependencies :: "(string \<Rightarrow> string) \<Rightarrow> (nat \<Rightarrow> fault) \<Rightarrow> (nat \<Rightarrow> int) \<Rightarrow> store dependencies" where
  "auth_dependencies sha flts now =
     \<lparr>dep_validate = Some (\<lambda>s token. ValidateToken sha (flts 10) s token),
      dep_token_id = Some (\<lambda>s token. TokenID sha (flts 11) s token),
      dep_reservations = Some (auth_reservations flts now)\<rparr>"

subsection \<open>Properties\<close>

text \<open>What admission checks of the token, at the state of the store it finds.\<close>

lemma admitted_token:
  assumes "admit cfg (auth_dependencies sha flts now) env (Some req) sv = (Inr (req', t, x), sv')"
  shows "req' = req \<and> (\<exists>db r. sv_db sv = Some db \<and> r \<in> set (db_tokens db) \<and> tr_revoked r = None
    \<and> tr_hash r = hashToken sha (TrimSpace (bq_authtoken req)))"
proof -
  let ?tok = "bq_authtoken req"
  have v: "ValidateToken sha (flts 10) (sv_db sv) ?tok = Inr True" and eq: "req' = req"
    using assms
    by (auto simp: admit_def Let_def authenticate_def auth_dependencies_def
        split: sum.splits prod.splits option.splits bool.splits if_splits)
  have "\<exists>db. sv_db sv = Some db \<and> active_row (hashToken sha (TrimSpace ?tok)) db \<noteq> None"
    using v by (cases "sv_db sv"; cases "flts 10")
      (auto simp: ValidateToken_def with_store_q_def query_sql_def Let_def split: if_splits)
  with eq show ?thesis by (metis active_row_Some option.exhaust)
qed

text \<open>C6: no tunnel without a valid token. With the auth store, a request passes admission only
  when the store held an active (not revoked) token with that text's hash at the check, and a
  positive token id is the id of such a row at the second check.\<close>

theorem admission_needs_token:
  assumes "admit cfg (auth_dependencies sha flts now) env (Some req) sv = (Inr (req', t, x), sv')"
  shows "req' = req
    \<and> (\<exists>db r. sv_db sv = Some db \<and> r \<in> set (db_tokens db) \<and> tr_revoked r = None
         \<and> tr_hash r = hashToken sha (TrimSpace (bq_authtoken req)))
    \<and> (t \<noteq> 0 \<longrightarrow> (\<exists>db r. env_between env (sv_db sv) = Some db \<and> r \<in> set (db_tokens db)
         \<and> tr_revoked r = None \<and> tr_id r = t \<and> tr_hash r = hashToken sha (TrimSpace (bq_authtoken req))))"
proof -
  let ?tok = "bq_authtoken req"
  have auth: "authenticate cfg (auth_dependencies sha flts now) (sv_db sv) (env_between env (sv_db sv)) ?tok = Inr t"
    using assms by (auto simp: admit_def Let_def split: sum.splits prod.splits option.splits bool.splits)
  have i: "\<exists>r. TokenID sha (flts 11) (env_between env (sv_db sv)) ?tok = Inr r \<and> (t \<noteq> 0 \<longrightarrow> r = Some t)"
    using auth by (auto simp: authenticate_def auth_dependencies_def split: sum.splits option.splits if_splits)
  have 2: "\<exists>db r. env_between env (sv_db sv) = Some db \<and> r \<in> set (db_tokens db)
      \<and> tr_revoked r = None \<and> tr_id r = t \<and> tr_hash r = hashToken sha (TrimSpace ?tok)" if "t \<noteq> 0"
  proof -
    have "\<exists>db. env_between env (sv_db sv) = Some db
        \<and> map_option tr_id (active_row (hashToken sha (TrimSpace ?tok)) db) = Some t"
      using i that by (cases "env_between env (sv_db sv)"; cases "flts 11")
        (auto simp: TokenID_def with_store_q_def query_sql_def Let_def split: if_splits)
    then show ?thesis by (auto dest: active_row_Some)
  qed
  from admitted_token [OF assms] 2 show ?thesis by blast
qed

text \<open>C5: a named tunnel belongs to the token that opened it. When an HTTP tunnel is established
  for a subdomain or domain option, the reservation store (the auth store, with arbitrary
  operations of others between the handler's own statements) then holds that name for the
  request's token; and while another token holds the name throughout, it is never established.\<close>

theorem named_tunnel_owned:
  assumes "dep_reservations deps = Some (auth_reservations flts now)"
    and "TrimSpace (bq_domain req) \<noteq> [] \<or> TrimSpace (bq_subdomain req) \<noteq> []"
    and "establish_http cfg deps env conn req t sv = ((HttpCreated i u, tun), sv')"
  shows "t > 0 \<and> subdomain_held (sv_db sv') i = Some t
    \<and> (\<forall>w. w \<noteq> t \<and> (\<forall>n d. subdomain_held d i = Some w \<longrightarrow> subdomain_held (env_others env n d) i = Some w)
          \<longrightarrow> subdomain_held (sv_db sv) i \<noteq> Some w)"
proof -
  let ?c = "claim_key (rsv_subdomain_owner (auth_reservations flts now))
      (rsv_reserve_subdomain (auth_reservations flts now)) (env_others env) t i (sv_db sv)"
  have "\<exists>db. resolve_tunnel_id cfg deps env t (http_request_of req) (sv_db sv) = (Inr i, db) \<and> sv_db sv' = db"
    using assms(3) by (auto simp: establish_http_def split: sum.splits prod.splits)
  then have claim: "t > 0" "?c = (Claimed, sv_db sv')"
    using assms(1,2) by (auto simp: resolve_tunnel_id_def http_request_of_def Let_def
        split: option.splits prod.splits claim.splits if_splits)
  then have "subdomain_held (sv_db sv') i = Some t"
    using subdomain_claims.claimed_is_held by blast
  moreover have "subdomain_held (sv_db sv) i \<noteq> Some w"
    if "w \<noteq> t" "\<forall>n d. subdomain_held d i = Some w \<longrightarrow> subdomain_held (env_others env n d) i = Some w" for w
    using subdomain_claims.foreign_key_not_claimed [of "sv_db sv" i w t "env_others env" flts now] that claim(2)
    by auto
  ultimately show ?thesis using claim(1) by blast
qed

lemma first_free_Some:
  "first_free free lo hi = Some p \<longleftrightarrow> lo \<le> p \<and> p \<le> hi \<and> free p \<and> (\<forall>q. lo \<le> q \<and> q < p \<longrightarrow> \<not> free q)"
proof (induction free lo hi rule: first_free.induct)
  case (1 free lo hi)
  show ?case
  proof (cases "lo > hi")
    case True
    then show ?thesis by (subst first_free.simps) auto
  next
    case False
    show ?thesis
    proof (cases "free lo")
      case True
      with False have "first_free free lo hi = Some lo" by (subst first_free.simps) simp
      moreover have "lo = p \<longleftrightarrow> lo \<le> p \<and> p \<le> hi \<and> free p \<and> (\<forall>q. lo \<le> q \<and> q < p \<longrightarrow> \<not> free q)"
        using True False by (metis linorder_not_le order_le_less)
      ultimately show ?thesis by simp
    next
      case free: False
      have "first_free free lo hi = first_free free (lo + 1) hi"
        using False free by (subst first_free.simps) simp
      also have "\<dots> = Some p \<longleftrightarrow> lo + 1 \<le> p \<and> p \<le> hi \<and> free p \<and> (\<forall>q. lo + 1 \<le> q \<and> q < p \<longrightarrow> \<not> free q)"
        using 1 False free by simp
      also have "\<dots> \<longleftrightarrow> lo \<le> p \<and> p \<le> hi \<and> free p \<and> (\<forall>q. lo \<le> q \<and> q < p \<longrightarrow> \<not> free q)"
        using free by (metis add1_zle_eq order_le_less)
      finally show ?thesis .
    qed
  qed
qed

lemma first_free_None: "first_free free lo hi = None \<longleftrightarrow> (\<forall>q. lo \<le> q \<and> q \<le> hi \<longrightarrow> \<not> free q)"
proof (induction free lo hi rule: first_free.induct)
  case (1 free lo hi)
  show ?case
  proof (cases "lo > hi \<or> free lo")
    case True
    then show ?thesis by (subst first_free.simps) auto
  next
    case False
    have "first_free free lo hi = first_free free (lo + 1) hi"
      using False by (subst first_free.simps) simp
    also have "\<dots> = None \<longleftrightarrow> (\<forall>q. lo + 1 \<le> q \<and> q \<le> hi \<longrightarrow> \<not> free q)" using 1 False by simp
    also have "\<dots> \<longleftrightarrow> (\<forall>q. lo \<le> q \<and> q \<le> hi \<longrightarrow> \<not> free q)"
      using False by (metis add1_zle_eq order_le_less)
    finally show ?thesis .
  qed
qed


text \<open>the port of a TCP tunnel. A successful allocation gives a free port of the configured
  range: the requested one, or, when none is requested, the lowest free one; an automatic
  allocation only fails when the range is invalid or has no free port, and a requested port is
  never replaced by another.\<close>

theorem allocateTCPListener_exact:
  "(allocateTCPListener cfg free n = Inr p \<longleftrightarrow>
      cfg_tcp_port_range_start cfg \<le> p \<and> p \<le> cfg_tcp_port_range_end cfg \<and> free p
      \<and> (if n \<noteq> 0 then p = n
         else cfg_tcp_port_range_start cfg > 0 \<and> (\<forall>q. cfg_tcp_port_range_start cfg \<le> q \<and> q < p \<longrightarrow> \<not> free q)))
   \<and> (n = 0 \<longrightarrow> 0 < cfg_tcp_port_range_start cfg \<longrightarrow>
        ((\<exists>e. allocateTCPListener cfg free n = Inl e) \<longleftrightarrow>
         (\<forall>q. cfg_tcp_port_range_start cfg \<le> q \<and> q \<le> cfg_tcp_port_range_end cfg \<longrightarrow> \<not> free q)))"
proof -
  let ?s = "cfg_tcp_port_range_start cfg" and ?e = "cfg_tcp_port_range_end cfg"
  have 1: "allocateTCPListener cfg free n = Inr p \<longleftrightarrow>
      ?s \<le> p \<and> p \<le> ?e \<and> free p
      \<and> (if n \<noteq> 0 then p = n else ?s > 0 \<and> (\<forall>q. ?s \<le> q \<and> q < p \<longrightarrow> \<not> free q))"
  proof (cases "n = 0")
    case True
    then have "allocateTCPListener cfg free n = Inr p \<longleftrightarrow>
        \<not> (?s \<le> 0 \<or> ?e \<le> 0 \<or> ?e < ?s) \<and> first_free free ?s ?e = Some p"
      by (auto simp: allocateTCPListener_def Let_def split: option.splits)
    then show ?thesis unfolding first_free_Some using True by auto
  next
    case False
    then show ?thesis by (auto simp: allocateTCPListener_def)
  qed
  have 2: "(\<exists>e. allocateTCPListener cfg free n = Inl e) \<longleftrightarrow> (\<forall>q. ?s \<le> q \<and> q \<le> ?e \<longrightarrow> \<not> free q)"
    if "n = 0" "0 < ?s"
  proof -
    have "(\<exists>e. allocateTCPListener cfg free n = Inl e) \<longleftrightarrow> ?e < ?s \<or> first_free free ?s ?e = None"
      using that by (auto simp: allocateTCPListener_def Let_def split: option.splits)
    then show ?thesis unfolding first_free_None by auto
  qed
  from 1 2 show ?thesis by blast
qed

theorem allocateTCPListener_exact_witness:
  "allocateTCPListener demo_cfg (\<lambda>p. p > 20000) 0 = Inr 20001
   \<and> (\<exists>e. allocateTCPListener demo_cfg (\<lambda>p. p > 20002) 0 = Inl e)"
proof -
  have c: "cfg_tcp_port_range_start demo_cfg = 20000" "cfg_tcp_port_range_end demo_cfg = 20002"
    by (simp_all add: demo_cfg_def)
  have "allocateTCPListener demo_cfg (\<lambda>p. p > 20000) 0 = Inr 20001"
    using conjunct1 [OF allocateTCPListener_exact [of demo_cfg "\<lambda>p. p > 20000" 0 20001]] c by simp
  moreover have "\<exists>e. allocateTCPListener demo_cfg (\<lambda>p. p > 20002) 0 = Inl e"
    using conjunct2 [OF allocateTCPListener_exact [of demo_cfg "\<lambda>p. p > 20002" 0 0]] c by simp
  ultimately show ?thesis by blast
qed

text \<open>an established TCP tunnel listens on a port of the range that nothing of the server
  listened on; and when a token asked for the port by number, the reservation store then holds
  the port for that token.\<close>

theorem tcp_tunnel_port:
  assumes "dep_reservations deps = Some (auth_reservations flts now)"
    and "establish_tcp cfg deps env req t sv = ((TcpCreated p, tun), sv')"
  shows "cfg_tcp_port_range_start cfg \<le> p \<and> p \<le> cfg_tcp_port_range_end cfg
    \<and> p \<notin> sv_listening sv \<and> sv_listening sv' = insert p (sv_listening sv) \<and> tun = Some (TcpTunnel p)
    \<and> (bq_remote_port req \<noteq> 0 \<longrightarrow> p = bq_remote_port req \<and> (t > 0 \<longrightarrow> port_owner (sv_db sv') p = Some t))"
proof -
  let ?free = "\<lambda>p. env_free_port env p \<and> p \<notin> sv_listening sv"
  have alloc: "allocateTCPListener cfg ?free (bq_remote_port req) = Inr p"
    and sv': "sv_listening sv' = insert p (sv_listening sv)" "tun = Some (TcpTunnel p)"
    using assms(2) by (auto simp: establish_tcp_def split: prod.splits option.splits sum.splits)
  have p: "cfg_tcp_port_range_start cfg \<le> p" "p \<le> cfg_tcp_port_range_end cfg" "?free p"
    "bq_remote_port req \<noteq> 0 \<longrightarrow> p = bq_remote_port req"
    using conjunct1 [OF allocateTCPListener_exact [of cfg ?free "bq_remote_port req" p]] alloc
    by (simp_all split: if_splits)
  have "port_owner (sv_db sv') p = Some t" if "bq_remote_port req \<noteq> 0" "t > 0"
  proof -
    have "claim_port cfg (auth_reservations flts now) (env_others env) t p (sv_db sv) = (None, sv_db sv')"
      using assms that p(4)
      by (auto simp: establish_tcp_def split: prod.splits option.splits sum.splits)
    then have "claim_key (rsv_port_owner (auth_reservations flts now)) (rsv_reserve_port (auth_reservations flts now))
        (env_others env) t p (sv_db sv) = (Claimed, sv_db sv')"
      by (auto simp: claim_port_def split: if_splits prod.splits claim.splits)
    then show ?thesis by (rule port_claims.claimed_is_held)
  qed
  with p sv' show ?thesis by blast
qed

text \<open>automatic port allocation does not look at reservations. A request without a port gets
  the lowest free port of the range whatever the store holds, so also a port that is reserved for
  another token.\<close>

theorem auto_port_ignores_reservations:
  assumes "bq_remote_port req = 0" and "0 < cfg_tcp_port_range_start cfg"
    and "cfg_tcp_port_range_start cfg \<le> cfg_tcp_port_range_end cfg"
    and "env_free_port env (cfg_tcp_port_range_start cfg)" and "cfg_tcp_port_range_start cfg \<notin> sv_listening sv"
  shows "fst (establish_tcp cfg deps env req t sv)
    = (TcpCreated (cfg_tcp_port_range_start cfg), Some (TcpTunnel (cfg_tcp_port_range_start cfg)))"
proof -
  let ?free = "\<lambda>p. env_free_port env p \<and> p \<notin> sv_listening sv"
  have "allocateTCPListener cfg ?free 0 = Inr (cfg_tcp_port_range_start cfg)"
    using conjunct1 [OF allocateTCPListener_exact [of cfg ?free 0 "cfg_tcp_port_range_start cfg"]] assms
    by auto
  with assms(1) show ?thesis by (simp add: establish_tcp_def split: option.splits)
qed


text \<open>Concrete values for the witnesses.\<close>

definition demo_req :: "string \<Rightarrow> int \<Rightarrow> string \<Rightarrow> base_request" where
  "demo_req type port sub =
     \<lparr>bq_type = type, bq_authtoken = ''ab'', bq_remote_port = port, bq_subdomain = sub, bq_domain = [],
      bq_basic_auth = [], bq_allow_method = [], bq_allow_path = [], bq_allow_path_prefix = [],
      bq_allow_cidr = [], bq_deny_cidr = [], bq_request_header_add = [], bq_request_header_remove = [],
      bq_response_header_add = [], bq_response_header_remove = []\<rparr>"

definition demo_env :: "store environment" where
  "demo_env = \<lparr>env_between = (\<lambda>s. s), env_now = 0, env_rounding = (\<lambda>x. x), env_others = (\<lambda>n s. s),
     env_free_port = (\<lambda>p. True), env_random = (\<lambda>i n. Inr (replicate n CHR 0x00)), env_tables = (\<lambda>i. (\<lambda>_. None))\<rparr>"

definition demo_server :: "auth_db \<Rightarrow> store server" where
  "demo_server db = \<lparr>sv_db = Some db, sv_registry = NewTunnelRegistry, sv_limiter = newTokenTunnelLimiter,
     sv_buckets = newTokenRateLimiter, sv_metrics = newMetrics 0, sv_listening = {}\<rparr>"

definition demo_deps :: "store dependencies" where
  "demo_deps = auth_dependencies (\<lambda>s. s) (\<lambda>n. NoFault) (\<lambda>n. 7)"

lemma demo_reservations: "dep_reservations demo_deps = Some (auth_reservations (\<lambda>n. NoFault) (\<lambda>n. 7))"
  by (simp add: demo_deps_def auth_dependencies_def)

lemma demo_store:
  "ValidateToken (\<lambda>s. s) NoFault (Some demo_db) ''ab'' = Inr True"
  "TokenID (\<lambda>s. s) NoFault (Some demo_db) ''ab'' = Inr (Some 1)"
  "ReservedSubdomainTokenID NoFault (Some demo_db) ''my-app'' = Inr None"
  "fst (ReserveSubdomain NoFault 7 (Some demo_db) 1 ''my-app'') = Inr ()"
  "ReservedTCPPortTokenID NoFault (Some demo_db) 20001 = Inr None"
  "fst (ReserveTCPPort NoFault 7 (Some demo_db) 1 20001) = Inr ()"
  by (simp_all add: eval_simps demo_db_def)

lemma demo_reserve:
  "\<exists>s. ReserveSubdomain NoFault 7 (Some demo_db) 1 ''my-app'' = (Inr (), s)"
  "\<exists>s. ReserveTCPPort NoFault 7 (Some demo_db) 1 20001 = (Inr (), s)"
  using demo_store(4,6) by (metis prod.collapse)+

lemma http_request_of_names [simp]:
  "http_domain (http_request_of req) = bq_domain req"
  "http_subdomain (http_request_of req) = bq_subdomain req"
  by (simp_all add: http_request_of_def)

lemma demo_req_fields [simp]:
  "bq_domain (demo_req type port sub) = []" "bq_subdomain (demo_req type port sub) = sub"
  "bq_remote_port (demo_req type port sub) = port"
  by (simp_all add: demo_req_def)

lemma demo_trim: "TrimSpace ''my-app'' = ''my-app''" "registry_key ''my-app'' = ''my-app''"
  by (simp_all add: eval_simps)

lemma demo_options: "\<exists>opts. parse_options (http_request_of (demo_req type port sub)) = Inr opts"
  by (simp add: parse_options_def http_request_of_def demo_req_def parseBasicAuthCredential_def
      ParseCIDRList_def ParseHTTPMethodList_def ParsePathList_def parseHeaderNameList_def parseHeaderKVList_def)

theorem admission_needs_token_witness:
  "\<exists>db r. Some demo_db = Some db \<and> r \<in> set (db_tokens db) \<and> tr_revoked r = None
     \<and> tr_hash r = hashToken (\<lambda>s. s) (TrimSpace ''ab'')"
proof -
  have "admit demo_cfg (auth_dependencies (\<lambda>s. s) (\<lambda>n. NoFault) (\<lambda>n. 7)) demo_env
      (Some (demo_req ''http'' 0 ''my-app'')) (demo_server demo_db)
    = (Inr (demo_req ''http'' 0 ''my-app'', 1, NoLease), demo_server demo_db)"
    using demo_store
    by (simp add: admit_def authenticate_def auth_dependencies_def acquire_slot_def check_rate_def
        demo_cfg_def demo_env_def demo_req_def demo_server_def)
  from admission_needs_token [OF this] show ?thesis by (simp add: demo_server_def demo_req_def)
qed

theorem named_tunnel_owned_witness:
  "subdomain_held (sv_db (snd (establish_http demo_cfg demo_deps demo_env 4 (demo_req ''http'' 0 ''my-app'') 1
     (demo_server demo_db)))) ''my-app'' = Some 1"
proof -
  let ?r = "establish_http demo_cfg demo_deps demo_env 4 (demo_req ''http'' 0 ''my-app'') 1 (demo_server demo_db)"
  obtain opts where opts: "parse_options (http_request_of (demo_req ''http'' 0 ''my-app'')) = Inr opts"
    using demo_options by blast
  obtain s where s: "ReserveSubdomain NoFault 7 (Some demo_db) 1 ''my-app'' = (Inr (), s)"
    using demo_reserve(1) by blast
  have "resolve_tunnel_id demo_cfg demo_deps demo_env 1 (http_request_of (demo_req ''http'' 0 ''my-app'')) (Some demo_db)
      = (Inr ''my-app'', s)"
    using demo_store(3) s demo_trim
    by (simp add: resolve_tunnel_id_def demo_deps_def
        auth_dependencies_def auth_reservations_def demo_env_def desired_id_def claim_key_def)
  then have "fst ?r = (HttpCreated ''my-app'' (tunnel_url demo_cfg ''my-app''), Some (HttpTunnel ''my-app''))"
    using opts demo_trim
    by (simp add: establish_http_def demo_server_def RegisterHTTPTunnel_def NewTunnelRegistry_def)
  then have run: "?r = ((HttpCreated ''my-app'' (tunnel_url demo_cfg ''my-app''), Some (HttpTunnel ''my-app'')), snd ?r)"
    by (metis prod.collapse)
  have "TrimSpace (bq_subdomain (demo_req ''http'' 0 ''my-app'')) \<noteq> []"
    using demo_trim by (simp add: demo_req_def)
  with named_tunnel_owned [OF demo_reservations _ run] show ?thesis by blast
qed

theorem tcp_tunnel_port_witness:
  "port_owner (sv_db (snd (establish_tcp demo_cfg demo_deps demo_env (demo_req ''tcp'' 20001 []) 1
     (demo_server demo_db)))) 20001 = Some 1"
proof -
  let ?r = "establish_tcp demo_cfg demo_deps demo_env (demo_req ''tcp'' 20001 []) 1 (demo_server demo_db)"
  obtain s where s: "ReserveTCPPort NoFault 7 (Some demo_db) 1 20001 = (Inr (), s)"
    using demo_reserve(2) by blast
  have "fst ?r = (TcpCreated 20001, Some (TcpTunnel 20001))"
    using demo_store(5) s
    by (simp add: establish_tcp_def claim_port_def claim_key_def demo_deps_def
        auth_dependencies_def auth_reservations_def demo_server_def demo_env_def demo_cfg_def
        allocateTCPListener_def)
  then have run: "?r = ((TcpCreated 20001, Some (TcpTunnel 20001)), snd ?r)"
    by (metis prod.collapse)
  from tcp_tunnel_port [OF demo_reservations run] show ?thesis by (simp add: demo_req_def)
qed

theorem auto_port_ignores_reservations_witness:
  "fst (establish_tcp demo_cfg demo_deps demo_env (demo_req ''tcp'' 0 []) 1
     (demo_server (demo_db\<lparr>db_ports := [\<lparr>rs_key = 20000, rs_token = 2, rs_created = 3\<rparr>]\<rparr>)))
   = (TcpCreated 20000, Some (TcpTunnel 20000))
   \<and> port_owner (Some (demo_db\<lparr>db_ports := [\<lparr>rs_key = 20000, rs_token = 2, rs_created = 3\<rparr>]\<rparr>)) 20000 = Some 2"
  using auto_port_ignores_reservations [of "demo_req ''tcp'' 0 []" demo_cfg demo_env
      "demo_server (demo_db\<lparr>db_ports := [\<lparr>rs_key = 20000, rs_token = 2, rs_created = 3\<rparr>]\<rparr>)" demo_deps 1]
  by (simp add: demo_req_def demo_cfg_def demo_env_def demo_server_def port_owner_def select_row_def)

subsection \<open>The URL of a tunnel\<close>

lemma ToLower_label_dot: "ToLower (i @ ''.'' @ d) = ToLower i @ ''.'' @ ToLower d"
proof -
  have "ToLower ''.'' = ''.''" by (simp add: eval_simps)
  then show ?thesis by (simp only: ToLower_append)
qed

text \<open>Trimming a name before a dot: what is trimmed at its front are space runes, and its end stays.\<close>

lemma prefix_before:
  assumes "c \<notin> set r"
  shows "prefix r (x @ c # y) \<longleftrightarrow> prefix r x"
proof
  assume "prefix r (x @ c # y)"
  then consider "prefix r x" | us where "r = x @ us" "prefix us (c # y)" by (auto simp: prefix_append)
  then show "prefix r x"
  proof cases
    case 2
    then show ?thesis using assms by (cases us) auto
  qed simp
qed simp

lemma starts_before: "(\<And>r. r \<in> set rs \<Longrightarrow> c \<notin> set r) \<Longrightarrow> starts_with_any rs (x @ c # y) = starts_with_any rs x"
  unfolding starts_with_any_def by (intro find_cong refl) (simp add: prefix_before)

lemma trim_front_before:
  assumes "\<And>r. r \<in> set rs \<Longrightarrow> c \<notin> set r"
  shows "trim_front rs (x @ c # y) = trim_front rs x @ c # y"
  using assms
proof (induction rs x rule: trim_front.induct)
  case (1 rs x)
  have same: "starts_with_any rs (x @ c # y) = starts_with_any rs x" by (rule starts_before) (rule 1(2))
  show ?case
  proof (cases "starts_with_any rs x")
    case None
    then show ?thesis using same by (simp add: trim_front.simps [of rs x] trim_front.simps [of rs "x @ c # y"])
  next
    case (Some r)
    then have "length r \<le> length x" using starts_with_any_Some prefix_length_le by blast
    then have "trim_front rs (drop (length r) (x @ c # y)) = trim_front rs (drop (length r) x) @ c # y"
      using 1(1) [OF Some 1(2)] by simp
    then show ?thesis using same Some by (simp add: trim_front.simps [of rs x] trim_front.simps [of rs "x @ c # y"])
  qed
qed

lemma trimmed_front:
  assumes "\<And>r. r \<in> set rs \<Longrightarrow> set r \<subseteq> A"
  shows "\<exists>u. s = u @ trim_front rs s \<and> set u \<subseteq> A"
  using assms
proof (induction rs s rule: trim_front.induct)
  case (1 rs s)
  show ?case
  proof (cases "starts_with_any rs s")
    case None
    then show ?thesis by (simp add: trim_front_id)
  next
    case (Some r)
    then have r: "r \<in> set rs" "prefix r s" using starts_with_any_Some by blast+
    then obtain s' where s': "s = r @ s'" by (auto simp: prefix_def)
    from 1(1) [OF Some 1(2)] s' obtain u where "s' = u @ trim_front rs s'" "set u \<subseteq> A" by auto
    moreover have "trim_front rs s = trim_front rs s'"
      using Some s' by (subst trim_front.simps) simp
    ultimately show ?thesis using s' 1(2) [OF r(1)] by (intro exI [of _ "r @ u"]) auto
  qed
qed

definition space_bytes :: "char set" where
  "space_bytes = \<Union> (set ` set space_runes)"

lemma space_bytes_plain: "CHR ''.'' \<notin> space_bytes" "CHR '':'' \<notin> space_bytes"
  by (simp_all add: space_bytes_def space_runes_def)

lemma trimmed_label:
  assumes "valid_label (registry_key i)"
  shows "\<exists>v. trim_front space_runes i = TrimSpace i @ v \<and> CHR ''.'' \<notin> set (ToLower (TrimSpace i @ v))
    \<and> CHR '':'' \<notin> set (ToLower (TrimSpace i @ v)) \<and> registry_key (ToLower (TrimSpace i @ v)) = registry_key i
    \<and> TrimSpace i \<noteq> []"
proof -
  let ?f = "trim_front space_runes i"
  have "set r \<subseteq> space_bytes" if "r \<in> set (map rev space_runes)" for r
    using that by (auto simp: space_bytes_def)
  then obtain u where u: "rev ?f = u @ trim_front (map rev space_runes) (rev ?f)" "set u \<subseteq> space_bytes"
    using trimmed_front [of "map rev space_runes" space_bytes "rev ?f"] by blast
  have f: "?f = TrimSpace i @ rev u"
    using arg_cong [OF u(1), of rev] by (simp add: TrimSpace_def)
  have l: "valid_label (ToLower (TrimSpace i))" using assms by (simp add: registry_key_def TrimSpace_ToLower)
  then have lab: "CHR ''.'' \<notin> set (ToLower (TrimSpace i))" "CHR '':'' \<notin> set (ToLower (TrimSpace i))"
    by (auto simp: valid_label_def list_all_iff subdomain_byte_def is_lower_def is_digit_def)
  have plain: "CHR ''.'' \<notin> set (ToLower (rev u))" "CHR '':'' \<notin> set (ToLower (rev u))"
  proof -
    have same: "c = d" if "lower_byte c = d" "byte d < 97" for c d
      using byte_lower_byte [of c] that by (auto simp: is_upper_def byte_eq_iff split: if_splits)
    have "byte CHR ''.'' < 97" "byte CHR '':'' < 97" by (simp_all add: byte_def)
    then have "d \<notin> set (ToLower (rev u))" if "d \<in> {CHR ''.'', CHR '':''}" for d
      using that same [of _ d] u(2) space_bytes_plain by (fastforce simp: ToLower_def)
    then show "CHR ''.'' \<notin> set (ToLower (rev u))" "CHR '':'' \<notin> set (ToLower (rev u))" by blast+
  qed
  have "TrimSpace (TrimSpace i @ rev u) = TrimSpace i"
    unfolding f [symmetric] by (simp add: TrimSpace_def trim_front_id [OF trim_front_clean])
  then have "registry_key (ToLower (TrimSpace i @ rev u)) = registry_key i"
    by (simp only: registry_key_def ToLower_idem TrimSpace_ToLower)
  moreover have "TrimSpace i \<noteq> []" using l by (auto simp: valid_label_def)
  ultimately show ?thesis using f lab plain by (intro exI [of _ "rev u"]) auto
qed

lemma normalizeDomain_named:
  assumes "valid_label (registry_key i)" and "domain_name d"
  shows "\<exists>k. normalizeDomain (i @ ''.'' @ d) = k @ ''.'' @ d \<and> k \<noteq> [] \<and> CHR ''.'' \<notin> set k \<and> registry_key k = registry_key i"
proof -
  have d: "list_all domain_byte d" "d \<noteq> []" "last d \<noteq> CHR ''.''" using assms(2) by (auto simp: domain_name_def)
  obtain v where v: "trim_front space_runes i = TrimSpace i @ v" "CHR ''.'' \<notin> set (ToLower (TrimSpace i @ v))"
    "CHR '':'' \<notin> set (ToLower (TrimSpace i @ v))" "registry_key (ToLower (TrimSpace i @ v)) = registry_key i" "TrimSpace i \<noteq> []"
    using trimmed_label [OF assms(1)] by blast
  let ?x = "TrimSpace i @ v"
  have front: "trim_front space_runes (i @ CHR ''.'' # d) = ?x @ CHR ''.'' # d"
    unfolding v(1) [symmetric] by (rule trim_front_before) (auto simp: space_runes_def)
  have "graphic (last d)" using domain_chars(1) [OF d(1)] d(2) by (simp add: list_all_iff)
  then have "starts_with_any (map rev space_runes) (rev (?x @ CHR ''.'' # d)) = None"
    unfolding starts_with_any_None
  proof (intro ballI impI notI)
    fix r assume last: "graphic (last d)" and "r \<in> set (map rev space_runes)" "r \<noteq> []" "prefix r (rev (?x @ CHR ''.'' # d))"
    then obtain q where q: "q \<in> set space_runes" "q \<noteq> []" "suffix q (?x @ CHR ''.'' # d)" by (auto simp: suffix_to_prefix)
    then obtain zs where "?x @ CHR ''.'' # d = zs @ q" by (auto simp: suffix_def)
    then have "last (?x @ CHR ''.'' # d) = last (zs @ q)" by (rule arg_cong)
    then have "last q = last d" using d(2) q(2) by simp
    with last space_runes_hd [OF q(1)] show False by simp
  qed
  then have trim: "TrimSpace (i @ CHR ''.'' # d) = ?x @ CHR ''.'' # d"
    unfolding TrimSpace_def front by (simp add: trim_front_id)
  have dot: "TrimSuffix (?x @ CHR ''.'' # d) ''.'' = ?x @ CHR ''.'' # d"
    using d by (intro TrimSuffix_no) simp_all
  have low: "ToLower (?x @ ''.'' @ d) = ToLower ?x @ ''.'' @ d"
    unfolding ToLower_label_dot using domain_chars [OF d(1)] by (simp add: ToLower_fixed_list)
  have "normalizeDomain (i @ ''.'' @ d) = ToLower ?x @ ''.'' @ d"
    using low v(3) domain_chars(3) [OF d(1)]
    by (simp add: normalizeDomain_def trim [simplified] dot [simplified] strip_port_def)
  then show ?thesis using v(2,4,5) by (intro exI [of _ "ToLower ?x"]) simp
qed

text \<open>The URL of a tunnel whose id is registered under a label leads to the registered entry.\<close>

lemma url_routes_back:
  assumes "establish_http cfg deps env conn req t sv = ((HttpCreated i u, tun), sv')"
    and "cfg_tunnel_domain cfg = d \<or> cfg_tunnel_domain cfg = d @ ''.''" and "domain_name d"
    and "valid_label (registry_key i)"
  shows "\<exists>host k e. u = ''https://'' @ host \<and> tunnelIDFromHost host (cfg_tunnel_domain cfg) = Some k
    \<and> GetHTTPTunnel (sv_registry sv') k = Some e \<and> ent_session e = conn"
proof -
  obtain opts where reg: "RegisterHTTPTunnel (sv_registry sv) i (Some conn) opts = (Inr (), sv_registry sv')"
    and u: "u = tunnel_url cfg i"
    using assms(1) by (auto simp: establish_http_def split: sum.splits prod.splits)
  have td: "TrimSuffix (cfg_tunnel_domain cfg) ''.'' = d"
    using assms(2,3) by (auto simp: domain_name_def intro: TrimSuffix_no)
  have nd: "normalizeDomain (cfg_tunnel_domain cfg) = d"
    using assms(2) normalizeDomain_domain [OF assms(3)] normalizeDomain_dot [OF assms(3)] by auto
  obtain k where k: "normalizeDomain (i @ ''.'' @ d) = k @ ''.'' @ d" "k \<noteq> []" "CHR ''.'' \<notin> set k" "registry_key k = registry_key i"
    using normalizeDomain_named [OF assms(4,3)] by blast
  let ?h = "i @ ''.'' @ d"
  have "tunnelIDFromHost ?h (cfg_tunnel_domain cfg) = Some k"
    unfolding tunnelIDFromHost_iff nd using k(1-3) assms(3) by (simp add: domain_name_def)
  moreover have "GetHTTPTunnel (sv_registry sv') k = Some (make_entry conn opts)"
    using tunnels.register_ok [of "sv_registry sv" i "(conn, opts)" "sv_registry sv'"] reg
      tunnels.lookup_key [of k i] k(4) by (simp add: register_live_def live_entry_def)
  moreover have "u = ''https://'' @ ?h" by (simp add: u tunnel_url_def td)
  ultimately show ?thesis by (auto simp: make_entry_def)
qed

end
