(* ===== verification/Sessions.thy ===== *)
theory Sessions
  imports ControlHandler
begin

text \<open>
  The server as a whole: any number of control connections at a time, each in a stage of
  \<open>controlHandler\<close>, over the shared registry, limiter, listening ports, counters and store.
  A step is one stage of one connection; the environment of the step (clock, random bytes, ports
  that other processes hold, what others do to the store between the statements of the stage) is
  arbitrary, and so is the order of the steps. Deferred calls run in two steps, those of the
  tunnel's handler and those of \<open>controlHandler\<close>: a connection refused by the rate limit holds its
  slot until the second, like one whose tunnel failed or was closed.
\<close>

datatype stage =
    Waiting
  | Admitted base_request int lease
  | Live tunnel int lease
  | Closing slot

record 'db system =
  sys_server :: "'db server"
  sys_sessions :: "nat \<rightharpoonup> stage"

fun stage_tunnel :: "stage \<Rightarrow> tunnel option" where
  "stage_tunnel (Live tun t x) = Some tun"
| "stage_tunnel _ = None"

fun stage_slot :: "stage \<Rightarrow> slot" where
  "stage_slot Waiting = None"
| "stage_slot (Admitted req t x) = Some (t, x)"
| "stage_slot (Live tun t x) = Some (t, x)"
| "stage_slot (Closing s) = s"

definition slot_lease :: "slot \<Rightarrow> lease" where
  "slot_lease s = (case s of None \<Rightarrow> NoLease | Some (t, x) \<Rightarrow> x)"

definition new_server :: "int \<Rightarrow> 'db \<Rightarrow> 'db server" where
  "new_server now db =
     \<lparr>sv_db = db, sv_registry = NewTunnelRegistry, sv_limiter = newTokenTunnelLimiter,
      sv_buckets = newTokenRateLimiter, sv_metrics = newMetrics now, sv_listening = {}\<rparr>"

definition new_system :: "int \<Rightarrow> 'db \<Rightarrow> 'db system" where
  "new_system now db = \<lparr>sys_server = new_server now db, sys_sessions = (\<lambda>_. None)\<rparr>"

definition set_session :: "nat \<Rightarrow> stage option \<Rightarrow> 'db server \<Rightarrow> 'db system \<Rightarrow> 'db system" where
  "set_session c st sv s = s\<lparr>sys_server := sv, sys_sessions := (sys_sessions s)(c := st)\<rparr>"

inductive system_step :: "config \<Rightarrow> 'db dependencies \<Rightarrow> 'db system \<Rightarrow> 'db system \<Rightarrow> bool"
  for cfg deps where
  accept: "sys_sessions s c = None \<Longrightarrow>
    system_step cfg deps s (set_session c (Some Waiting) (begin_connection (sys_server s)) s)"
| hang_up: "sys_sessions s c = Some Waiting \<Longrightarrow>
    system_step cfg deps s (set_session c (Some (Closing None)) (sys_server s) s)"
| refuse: "sys_sessions s c = Some Waiting \<Longrightarrow> admit cfg deps env msg (sys_server s) = (Inl (r, sl), sv) \<Longrightarrow>
    system_step cfg deps s (set_session c (Some (Closing sl)) sv s)"
| admit: "sys_sessions s c = Some Waiting \<Longrightarrow>
    admit cfg deps env msg (sys_server s) = (Inr (req, t, x), sv) \<Longrightarrow>
    system_step cfg deps s (set_session c (Some (Admitted req t x)) sv s)"
| fail: "sys_sessions s c = Some (Admitted req t x) \<Longrightarrow>
    establish cfg deps env c req t (sys_server s) = ((r, None), sv) \<Longrightarrow>
    system_step cfg deps s (set_session c (Some (Closing (Some (t, x)))) sv s)"
| live: "sys_sessions s c = Some (Admitted req t x) \<Longrightarrow>
    establish cfg deps env c req t (sys_server s) = ((r, Some tun), sv) \<Longrightarrow>
    system_step cfg deps s (set_session c (Some (Live tun t x)) sv s)"
| close: "sys_sessions s c = Some (Live tun t x) \<Longrightarrow>
    system_step cfg deps s
      (set_session c (Some (Closing (Some (t, x)))) (close_tunnel (Some tun) (sys_server s)) s)"
| finish: "sys_sessions s c = Some (Closing sl) \<Longrightarrow>
    system_step cfg deps s (set_session c None (end_connection None (slot_lease sl) (sys_server s)) s)"
| store: "system_step cfg deps s (s\<lparr>sys_server := (sys_server s)\<lparr>sv_db := db\<rparr>\<rparr>)"

inductive_cases system_stepE: "system_step cfg deps s s'"

definition reachable :: "config \<Rightarrow> 'db dependencies \<Rightarrow> 'db system \<Rightarrow> bool" where
  "reachable cfg deps s \<longleftrightarrow> (\<exists>now db. (system_step cfg deps)\<^sup>*\<^sup>* (new_system now db) s)"

subsection \<open>What each stage does to the shared state\<close>

lemma release_lease_frame [simp]:
  "sv_registry (release_lease x sv) = sv_registry sv" "sv_metrics (release_lease x sv) = sv_metrics sv"
  "sv_listening (release_lease x sv) = sv_listening sv"
  "sv_buckets (release_lease x sv) = sv_buckets sv" "sv_db (release_lease x sv) = sv_db sv"
  by (auto simp: release_lease_def split: option.splits)

lemma release_lease_limiter:
  "release x (Some (sv_limiter sv)) = Some l \<Longrightarrow> sv_limiter (release_lease x sv) = l"
  by (simp add: release_lease_def)

lemma release_Some: "\<exists>l'. release x (Some l) = Some l'"
  by (cases x) (auto split: prod.split bool.split)

lemma release_lease_NoLease [simp]: "release_lease NoLease sv = sv"
  by (simp add: release_lease_def)

lemma acquire_slot_frame:
  "sv_registry (snd (acquire_slot cfg t sv)) = sv_registry sv
   \<and> sv_metrics (snd (acquire_slot cfg t sv)) = sv_metrics sv
   \<and> sv_listening (snd (acquire_slot cfg t sv)) = sv_listening sv"
  by (auto simp: acquire_slot_def split: prod.splits option.splits)

lemma check_rate_frame:
  "sv_registry (snd (check_rate cfg env t sv)) = sv_registry sv
   \<and> sv_metrics (snd (check_rate cfg env t sv)) = sv_metrics sv
   \<and> sv_listening (snd (check_rate cfg env t sv)) = sv_listening sv
   \<and> sv_limiter (snd (check_rate cfg env t sv)) = sv_limiter sv"
  by (auto simp: check_rate_def split: prod.splits option.splits)

lemma admit_frame:
  "sv_registry (snd (admit cfg deps env msg sv)) = sv_registry sv
   \<and> sv_metrics (snd (admit cfg deps env msg sv)) = sv_metrics sv
   \<and> sv_listening (snd (admit cfg deps env msg sv)) = sv_listening sv"
proof (cases msg)
  case None
  then show ?thesis by (simp add: admit_def)
next
  case (Some req)
  define sv1 where "sv1 = sv\<lparr>sv_db := env_between env (sv_db sv)\<rparr>"
  have 1: "sv_registry sv1 = sv_registry sv \<and> sv_metrics sv1 = sv_metrics sv \<and> sv_listening sv1 = sv_listening sv"
    by (simp add: sv1_def)
  show ?thesis
  proof (cases "authenticate cfg deps (sv_db sv) (sv_db sv1) (bq_authtoken req)")
    case (Inl e)
    then show ?thesis using Some 1 by (simp add: admit_def Let_def sv1_def)
  next
    case (Inr t)
    obtain r2 sv2 where a: "acquire_slot cfg t sv1 = (r2, sv2)" by fastforce
    obtain r3 sv3 where c: "check_rate cfg env t sv2 = (r3, sv3)" by fastforce
    have "sv_registry sv3 = sv_registry sv \<and> sv_metrics sv3 = sv_metrics sv \<and> sv_listening sv3 = sv_listening sv"
      "sv_registry sv2 = sv_registry sv \<and> sv_metrics sv2 = sv_metrics sv \<and> sv_listening sv2 = sv_listening sv"
      using 1 acquire_slot_frame [of cfg t sv1] check_rate_frame [of cfg env t sv2] a c by simp_all
    then show ?thesis using Some Inr a c
      by (simp add: admit_def Let_def sv1_def split: option.splits bool.splits)
  qed
qed

text \<open>The slot an admission takes, kept by a connection the rate limit refuses: with a limit and a
  token, the limiter's lease; otherwise none, and the limiter is as it was.\<close>

definition slot_taken :: "config \<Rightarrow> limiter \<Rightarrow> int \<Rightarrow> lease \<Rightarrow> limiter \<Rightarrow> bool" where
  "slot_taken cfg l t x l' \<longleftrightarrow>
     (if cfg_max_tunnels_per_token cfg > 0 \<and> t > 0
      then TryAcquire (Some l) t (cfg_max_tunnels_per_token cfg) = (Some x, Some l')
      else x = NoLease \<and> l' = l)"

lemma admit_limiter:
  assumes "admit cfg deps env msg sv = (r, sv')"
  shows "(case r of
      Inl (reply, None) \<Rightarrow> sv_limiter sv' = sv_limiter sv
    | Inl (reply, Some (t, x)) \<Rightarrow> slot_taken cfg (sv_limiter sv) t x (sv_limiter sv')
    | Inr (req, t, x) \<Rightarrow> slot_taken cfg (sv_limiter sv) t x (sv_limiter sv'))"
proof (cases msg)
  case None
  then show ?thesis using assms by (auto simp: admit_def)
next
  case (Some req)
  define sv1 where "sv1 = sv\<lparr>sv_db := env_between env (sv_db sv)\<rparr>"
  have 1: "sv_limiter sv1 = sv_limiter sv" by (simp add: sv1_def)
  show ?thesis
  proof (cases "authenticate cfg deps (sv_db sv) (sv_db sv1) (bq_authtoken req)")
    case (Inl e)
    then show ?thesis using assms Some 1 by (auto simp: admit_def Let_def sv1_def)
  next
    case (Inr t)
    obtain r2 sv2 where a: "acquire_slot cfg t sv1 = (r2, sv2)" by fastforce
    obtain r3 sv3 where c: "check_rate cfg env t sv2 = (r3, sv3)" by fastforce
    have l3: "sv_limiter sv3 = sv_limiter sv2" using check_rate_frame [of cfg env t sv2] c by simp
    have res: "(r, sv') = (case r2 of
          None \<Rightarrow> (Inl (refuse (request_type req) ''too many active tunnels'', None), sv2)
        | Some x \<Rightarrow> if r3 then (Inr (req, t, x), sv3)
            else (Inl (refuse (request_type req) ''rate limit exceeded'', Some (t, x)), sv3))"
      using assms Some Inr a c by (simp add: admit_def Let_def sv1_def split: option.splits bool.splits)
    let ?m = "cfg_max_tunnels_per_token cfg"
    show ?thesis
    proof (cases "?m > 0 \<and> t > 0")
      case False
      then have "r2 = Some NoLease" "sv2 = sv1" using a by (auto simp: acquire_slot_def)
      then show ?thesis using res l3 1 False by (auto simp: slot_taken_def split: if_splits)
    next
      case True
      obtain y l where y: "TryAcquire (Some (sv_limiter sv)) t ?m = (y, Some l)"
        using True by (cases "active_of (sv_limiter sv) t \<ge> ?m") (auto simp: TryAcquire_def)
      have r2: "r2 = y" "sv_limiter sv2 = l" using a True y 1 by (auto simp: acquire_slot_def)
      show ?thesis
      proof (cases y)
        case None
        then have "l = sv_limiter sv" using y True by (auto simp: TryAcquire_def split: if_splits)
        then show ?thesis using res r2 None by auto
      next
        case (Some x)
        then show ?thesis
          using res r2 y l3 True by (auto simp: slot_taken_def split: if_splits)
      qed
    qed
  qed
qed

text \<open>The second stage claims nothing when it fails, and exactly one tunnel when it succeeds.\<close>

lemma establish_None:
  assumes "establish cfg deps env c req t sv = ((r, None), sv')"
  shows "sv_registry sv' = sv_registry sv \<and> sv_metrics sv' = sv_metrics sv
    \<and> sv_listening sv' = sv_listening sv \<and> sv_limiter sv' = sv_limiter sv"
  using assms
  by (auto simp: establish_def establish_tcp_def establish_http_def RegisterHTTPTunnel_def Let_def
      split: if_splits prod.splits option.splits sum.splits)

lemma establish_Tcp:
  assumes "establish cfg deps env c req t sv = ((r, Some (TcpTunnel p)), sv')"
  shows "sv_registry sv' = sv_registry sv \<and> sv_metrics sv' = trackTCPTunnel (sv_metrics sv)
    \<and> sv_limiter sv' = sv_limiter sv \<and> sv_listening sv' = insert p (sv_listening sv)
    \<and> allocateTCPListener cfg (\<lambda>q. env_free_port env q \<and> q \<notin> sv_listening sv) (bq_remote_port req) = Inr p"
  using assms
  by (auto simp: establish_def establish_tcp_def establish_http_def
      split: if_splits prod.splits option.splits sum.splits)

lemma establish_Http:
  assumes "establish cfg deps env c req t sv = ((r, Some (HttpTunnel i)), sv')"
  shows "sv_listening sv' = sv_listening sv \<and> sv_metrics sv' = trackHTTPTunnel (sv_metrics sv)
    \<and> sv_limiter sv' = sv_limiter sv
    \<and> (\<exists>opts. RegisterHTTPTunnel (sv_registry sv) i (Some c) opts = (Inr (), sv_registry sv'))"
  using assms
  by (auto simp: establish_def establish_tcp_def establish_http_def
      split: if_splits prod.splits option.splits sum.splits)

lemma allocateTCPListener_range:
  "allocateTCPListener cfg free n = Inr p \<Longrightarrow>
     cfg_tcp_port_range_start cfg \<le> p \<and> p \<le> cfg_tcp_port_range_end cfg \<and> free p"
  unfolding allocateTCPListener_def Let_def by (auto split: if_splits option.splits simp: first_free_Some)

subsection \<open>What the sessions hold\<close>

definition tunnels_of :: "(nat \<rightharpoonup> stage) \<Rightarrow> nat \<rightharpoonup> tunnel" where
  "tunnels_of ses c = Option.bind (ses c) stage_tunnel"

definition slots_of :: "(nat \<rightharpoonup> stage) \<Rightarrow> nat \<rightharpoonup> int \<times> lease" where
  "slots_of ses c = Option.bind (ses c) stage_slot"

lemma tunnels_of_upd: "tunnels_of (ses(c := o')) = (tunnels_of ses)(c := Option.bind o' stage_tunnel)"
  by (auto simp: tunnels_of_def)

lemma slots_of_upd: "slots_of (ses(c := o')) = (slots_of ses)(c := Option.bind o' stage_slot)"
  by (auto simp: slots_of_def)

definition http_sessions :: "(nat \<rightharpoonup> tunnel) \<Rightarrow> nat set" where
  "http_sessions tun = {c. \<exists>i. tun c = Some (HttpTunnel i)}"

definition tcp_sessions :: "(nat \<rightharpoonup> tunnel) \<Rightarrow> nat set" where
  "tcp_sessions tun = {c. \<exists>p. tun c = Some (TcpTunnel p)}"

lemma sessions_upd:
  "http_sessions (tun(c := Some (HttpTunnel i))) = insert c (http_sessions tun)"
  "http_sessions (tun(c := Some (TcpTunnel p))) = http_sessions tun - {c}"
  "http_sessions (tun(c := None)) = http_sessions tun - {c}"
  "tcp_sessions (tun(c := Some (TcpTunnel p))) = insert c (tcp_sessions tun)"
  "tcp_sessions (tun(c := Some (HttpTunnel i))) = tcp_sessions tun - {c}"
  "tcp_sessions (tun(c := None)) = tcp_sessions tun - {c}"
  by (auto simp: http_sessions_def tcp_sessions_def)

subsection \<open>The invariants\<close>

text \<open>Each part of the shared state is described by the sessions: the registry by the live HTTP
  tunnels, the listening ports by the live TCP tunnels, the gauges by their numbers, and the
  limiter by the leases the sessions hold.\<close>

definition registry_agrees :: "(nat \<rightharpoonup> tunnel) \<Rightarrow> registry \<Rightarrow> bool" where
  "registry_agrees tun reg \<longleftrightarrow> reg [] = None \<and>
     (\<forall>k c. (\<exists>e. reg k = Some e \<and> ent_session e = c)
        \<longleftrightarrow> (\<exists>i. tun c = Some (HttpTunnel i) \<and> registry_key i = k))"

definition listening_agrees :: "config \<Rightarrow> (nat \<rightharpoonup> tunnel) \<Rightarrow> int set \<Rightarrow> bool" where
  "listening_agrees cfg tun ports \<longleftrightarrow>
     (\<forall>p. p \<in> ports \<longleftrightarrow> (\<exists>c. tun c = Some (TcpTunnel p)))
     \<and> (\<forall>c d p. tun c = Some (TcpTunnel p) \<and> tun d = Some (TcpTunnel p) \<longrightarrow> c = d)
     \<and> (\<forall>p \<in> ports. cfg_tcp_port_range_start cfg \<le> p \<and> p \<le> cfg_tcp_port_range_end cfg)"

definition gauges_agree :: "nat set \<Rightarrow> (nat \<rightharpoonup> tunnel) \<Rightarrow> metrics \<Rightarrow> bool" where
  "gauges_agree open_conns tun m \<longleftrightarrow> finite open_conns \<and> dom tun \<subseteq> open_conns
     \<and> mt_active_control m = int (card open_conns)
     \<and> mt_active_http m = int (card (http_sessions tun))
     \<and> mt_active_tcp m = int (card (tcp_sessions tun))"

definition leases_agree :: "int \<Rightarrow> (nat \<rightharpoonup> int \<times> lease) \<Rightarrow> limiter \<Rightarrow> bool" where
  "leases_agree m slots l \<longleftrightarrow> limiter_inv l
     \<and> (\<forall>c t. slots c = Some (t, NoLease) \<longrightarrow> m \<le> 0 \<or> t \<le> 0)
     \<and> (\<forall>c t k. slots c = Some (t, Lease k) \<longrightarrow> k < length (lim_leases l) \<and> lim_leases l ! k = (t, False))
     \<and> (\<forall>c d t u k. slots c = Some (t, Lease k) \<and> slots d = Some (u, Lease k) \<longrightarrow> c = d)
     \<and> (\<forall>k < length (lim_leases l). \<not> snd (lim_leases l ! k) \<longrightarrow> (\<exists>c t. slots c = Some (t, Lease k)))
     \<and> (\<forall>t. 0 < m \<longrightarrow> int (open_leases l t) \<le> m)"

definition system_inv :: "config \<Rightarrow> 'db system \<Rightarrow> bool" where
  "system_inv cfg s \<longleftrightarrow>
     registry_agrees (tunnels_of (sys_sessions s)) (sv_registry (sys_server s))
   \<and> listening_agrees cfg (tunnels_of (sys_sessions s)) (sv_listening (sys_server s))
   \<and> gauges_agree (dom (sys_sessions s)) (tunnels_of (sys_sessions s)) (sv_metrics (sys_server s))
   \<and> leases_agree (cfg_max_tunnels_per_token cfg) (slots_of (sys_sessions s)) (sv_limiter (sys_server s))"

subsection \<open>The registry\<close>

lemma registry_agrees_live:
  "registry_agrees tun reg \<Longrightarrow> tun c = Some (HttpTunnel i) \<Longrightarrow>
     \<exists>e. reg (registry_key i) = Some e \<and> ent_session e = c"
  unfolding registry_agrees_def by blast

lemma registry_agrees_entry:
  "registry_agrees tun reg \<Longrightarrow> reg k = Some e \<Longrightarrow>
     \<exists>i. tun (ent_session e) = Some (HttpTunnel i) \<and> registry_key i = k"
  unfolding registry_agrees_def by blast

lemma registry_agrees_register:
  assumes inv: "registry_agrees tun reg" and "tun c = None"
    and reg: "RegisterHTTPTunnel reg i (Some c) opts = (Inr (), reg')"
  shows "registry_agrees (tun(c \<mapsto> HttpTunnel i)) reg'"
proof -
  have r: "registry_key i \<noteq> []" "reg (registry_key i) = None"
    "reg' = reg(registry_key i \<mapsto> make_entry c opts)"
    using reg by (auto simp: RegisterHTTPTunnel_def Let_def split: if_splits)
  have none: "tun d = Some (HttpTunnel j) \<Longrightarrow> registry_key j \<noteq> registry_key i" for d j
    using registry_agrees_live [OF inv, of d j] r(2) by auto
  have "(\<exists>e. reg' k = Some e \<and> ent_session e = d)
      \<longleftrightarrow> (\<exists>j. (tun(c \<mapsto> HttpTunnel i)) d = Some (HttpTunnel j) \<and> registry_key j = k)" for k d
  proof (cases "k = registry_key i")
    case True
    have "(\<exists>e. reg' k = Some e \<and> ent_session e = d) \<longleftrightarrow> d = c"
      using r(3) True by (auto simp: make_entry_def)
    also have "\<dots> \<longleftrightarrow> (\<exists>j. (tun(c \<mapsto> HttpTunnel i)) d = Some (HttpTunnel j) \<and> registry_key j = k)"
      using True none [of d] by (auto split: if_splits)
    finally show ?thesis .
  next
    case False
    have "(\<exists>e. reg' k = Some e \<and> ent_session e = d) \<longleftrightarrow> (\<exists>e. reg k = Some e \<and> ent_session e = d)"
      using r(3) False by simp
    also have "\<dots> \<longleftrightarrow> (\<exists>j. tun d = Some (HttpTunnel j) \<and> registry_key j = k)"
      using inv by (simp add: registry_agrees_def)
    also have "\<dots> \<longleftrightarrow> (\<exists>j. (tun(c \<mapsto> HttpTunnel i)) d = Some (HttpTunnel j) \<and> registry_key j = k)"
      using False assms(2) by auto
    finally show ?thesis .
  qed
  moreover have "reg' [] = None" using inv r by (simp add: registry_agrees_def)
  ultimately show ?thesis unfolding registry_agrees_def by blast
qed

lemma registry_agrees_unregister:
  assumes inv: "registry_agrees tun reg" and c: "tun c = Some (HttpTunnel i)"
  shows "registry_agrees (tun(c := None)) (UnregisterHTTPTunnel reg i)"
proof -
  let ?k = "registry_key i"
  note e = registry_agrees_live [OF inv c]
  have k: "?k \<noteq> []"
  proof
    assume "?k = []"
    with e inv show False by (simp add: registry_agrees_def)
  qed
  then have u: "UnregisterHTTPTunnel reg i = reg(?k := None)"
    by (simp add: UnregisterHTTPTunnel_def Let_def)
  have "(\<exists>e. (reg(?k := None)) k = Some e \<and> ent_session e = d)
      \<longleftrightarrow> (\<exists>j. (tun(c := None)) d = Some (HttpTunnel j) \<and> registry_key j = k)" for k d
  proof (cases "d = c")
    case True
    have "\<not> (\<exists>e. reg k = Some e \<and> ent_session e = c)" if "k \<noteq> ?k"
      using registry_agrees_entry [OF inv, of k] c that by auto
    with True show ?thesis by auto
  next
    case False
    have "tun d = Some (HttpTunnel j) \<Longrightarrow> registry_key j \<noteq> ?k" for j
      using registry_agrees_live [OF inv, of d j] e False by auto
    moreover have "(\<exists>e. reg k = Some e \<and> ent_session e = d)
        \<longleftrightarrow> (\<exists>j. tun d = Some (HttpTunnel j) \<and> registry_key j = k)"
      using inv unfolding registry_agrees_def by blast
    ultimately show ?thesis using False by auto
  qed
  then show ?thesis
    unfolding u registry_agrees_def using inv by (auto simp: registry_agrees_def)
qed

lemma registry_agrees_other:
  assumes "registry_agrees tun reg" and "\<forall>i. tun c \<noteq> Some (HttpTunnel i)" and "\<forall>i. o' \<noteq> Some (HttpTunnel i)"
  shows "registry_agrees (tun(c := o')) reg"
proof -
  have "(\<exists>i. (tun(c := o')) d = Some (HttpTunnel i) \<and> registry_key i = k)
      \<longleftrightarrow> (\<exists>i. tun d = Some (HttpTunnel i) \<and> registry_key i = k)" for d k
    using assms(2,3) by auto
  with assms(1) show ?thesis unfolding registry_agrees_def by simp
qed

subsection \<open>The listening ports\<close>

lemma listening_agrees_listen:
  assumes "listening_agrees cfg tun ports" and "tun c = None" and "p \<notin> ports"
    and "cfg_tcp_port_range_start cfg \<le> p \<and> p \<le> cfg_tcp_port_range_end cfg"
  shows "listening_agrees cfg (tun(c \<mapsto> TcpTunnel p)) (insert p ports)"
proof -
  have "q \<in> insert p ports \<longleftrightarrow> (\<exists>d. (tun(c \<mapsto> TcpTunnel p)) d = Some (TcpTunnel q))" for q
    using assms(1,2) unfolding listening_agrees_def by (metis fun_upd_apply insert_iff option.distinct(1) option.inject tunnel.inject(1))
  then show ?thesis using assms unfolding listening_agrees_def by auto
qed

lemma listening_agrees_close:
  assumes "listening_agrees cfg tun ports" and "tun c = Some (TcpTunnel p)"
  shows "listening_agrees cfg (tun(c := None)) (ports - {p})"
proof -
  have "q \<in> ports - {p} \<longleftrightarrow> (\<exists>d. (tun(c := None)) d = Some (TcpTunnel q))" for q
    using assms unfolding listening_agrees_def
    by (metis Diff_iff fun_upd_apply option.distinct(1) option.inject singletonD singletonI tunnel.inject(1))
  then show ?thesis using assms unfolding listening_agrees_def by auto
qed

lemma listening_agrees_other:
  assumes "listening_agrees cfg tun ports" and "\<forall>p. tun c \<noteq> Some (TcpTunnel p)" and "\<forall>p. o' \<noteq> Some (TcpTunnel p)"
  shows "listening_agrees cfg (tun(c := o')) ports"
proof -
  have "(tun(c := o')) d = Some (TcpTunnel p) \<longleftrightarrow> tun d = Some (TcpTunnel p)" for d p
    using assms(2,3) by auto
  with assms(1) show ?thesis unfolding listening_agrees_def by simp
qed

subsection \<open>The gauges\<close>

lemma http_sessions_sub: "http_sessions tun \<subseteq> dom tun"
  by (auto simp: http_sessions_def)

lemma tcp_sessions_sub: "tcp_sessions tun \<subseteq> dom tun"
  by (auto simp: tcp_sessions_def)

lemma card_insert_int: "finite A \<Longrightarrow> c \<notin> A \<Longrightarrow> int (card (insert c A)) = int (card A) + 1"
  by simp

lemma card_remove_int: "finite A \<Longrightarrow> c \<in> A \<Longrightarrow> int (card (A - {c})) = int (card A) - 1"
  using card_Suc_Diff1 [of A c] by simp

lemma gauges_finite:
  assumes "gauges_agree conns tun m"
  shows "finite (http_sessions tun) \<and> finite (tcp_sessions tun)"
proof -
  have "finite (dom tun)"
    using assms finite_subset unfolding gauges_agree_def by blast
  then show ?thesis
    using finite_subset [OF http_sessions_sub] finite_subset [OF tcp_sessions_sub] by blast
qed

lemma gauges_begin:
  "gauges_agree conns tun m \<Longrightarrow> c \<notin> conns \<Longrightarrow> gauges_agree (insert c conns) tun (trackControlConn m)"
  by (auto simp: gauges_agree_def trackControlConn_def)

lemma gauges_end:
  "gauges_agree conns tun m \<Longrightarrow> c \<in> conns \<Longrightarrow> tun c = None \<Longrightarrow>
     gauges_agree (conns - {c}) tun (untrackControlConn m)"
  by (auto simp: gauges_agree_def untrackControlConn_def card_remove_int
      simp del: card_Diff_singleton card_Diff_insert)

lemma gauges_track:
  assumes "gauges_agree conns tun m" and "c \<in> conns" and "tun c = None"
  shows "gauges_agree conns (tun(c \<mapsto> HttpTunnel i)) (trackHTTPTunnel m)"
    and "gauges_agree conns (tun(c \<mapsto> TcpTunnel p)) (trackTCPTunnel m)"
proof -
  have "c \<notin> http_sessions tun" "c \<notin> tcp_sessions tun"
    using assms(3) by (simp_all add: http_sessions_def tcp_sessions_def)
  then show "gauges_agree conns (tun(c \<mapsto> HttpTunnel i)) (trackHTTPTunnel m)"
    and "gauges_agree conns (tun(c \<mapsto> TcpTunnel p)) (trackTCPTunnel m)"
    using assms gauges_finite [OF assms(1)]
    by (auto simp: gauges_agree_def trackHTTPTunnel_def trackTCPTunnel_def sessions_upd)
qed

lemma gauges_untrack:
  assumes "gauges_agree conns tun m"
  shows "tun c = Some (HttpTunnel i) \<Longrightarrow> gauges_agree conns (tun(c := None)) (untrackHTTPTunnel m)"
    and "tun c = Some (TcpTunnel p) \<Longrightarrow> gauges_agree conns (tun(c := None)) (untrackTCPTunnel m)"
proof -
  have fin: "finite (http_sessions tun)" "finite (tcp_sessions tun)" using gauges_finite [OF assms] by simp_all
  show "tun c = Some (HttpTunnel i) \<Longrightarrow> gauges_agree conns (tun(c := None)) (untrackHTTPTunnel m)"
  proof -
    assume "tun c = Some (HttpTunnel i)"
    then have "c \<in> http_sessions tun" "tcp_sessions tun - {c} = tcp_sessions tun"
      by (auto simp: http_sessions_def tcp_sessions_def)
    with assms fin show ?thesis
      by (auto simp: gauges_agree_def untrackHTTPTunnel_def sessions_upd card_remove_int
          simp del: card_Diff_singleton card_Diff_insert)
  qed
  show "tun c = Some (TcpTunnel p) \<Longrightarrow> gauges_agree conns (tun(c := None)) (untrackTCPTunnel m)"
  proof -
    assume "tun c = Some (TcpTunnel p)"
    then have "c \<in> tcp_sessions tun" "http_sessions tun - {c} = http_sessions tun"
      by (auto simp: http_sessions_def tcp_sessions_def)
    with assms fin show ?thesis
      by (auto simp: gauges_agree_def untrackTCPTunnel_def sessions_upd card_remove_int
          simp del: card_Diff_singleton card_Diff_insert)
  qed
qed

subsection \<open>The limiter\<close>

lemma leases_agree_slot:
  "leases_agree m slots l \<Longrightarrow> slots c = Some (t, Lease k) \<Longrightarrow>
     k < length (lim_leases l) \<and> lim_leases l ! k = (t, False)"
  unfolding leases_agree_def by blast

lemma leases_agree_cong:
  assumes "leases_agree m slots l" and "\<And>d u k. slots' d = Some (u, Lease k) \<longleftrightarrow> slots d = Some (u, Lease k)"
    and "\<And>d u. slots' d = Some (u, NoLease) \<Longrightarrow> m \<le> 0 \<or> u \<le> 0"
  shows "leases_agree m slots' l"
  using assms(1,3) unfolding leases_agree_def assms(2) by blast

lemma leases_agree_free:
  assumes "leases_agree m slots l" and "slots c = None" and "m \<le> 0 \<or> t \<le> 0"
  shows "leases_agree m (slots(c \<mapsto> (t, NoLease))) l"
  using assms(1)
proof (rule leases_agree_cong)
  show "(slots(c \<mapsto> (t, NoLease))) d = Some (u, Lease k) \<longleftrightarrow> slots d = Some (u, Lease k)" for d u k
    using assms(2) by simp
  show "(slots(c \<mapsto> (t, NoLease))) d = Some (u, NoLease) \<Longrightarrow> m \<le> 0 \<or> u \<le> 0" for d u
    using assms(1,3) unfolding leases_agree_def by (auto split: if_splits)
qed

lemma leases_agree_acquire:
  assumes inv: "leases_agree m slots l" and c: "slots c = None"
    and acq: "TryAcquire (Some l) t m = (Some x, Some l')"
  shows "leases_agree m (slots(c \<mapsto> (t, x))) l'"
proof (cases "m \<le> 0 \<or> t \<le> 0")
  case True
  then have "x = NoLease" "l' = l" using acq by (auto simp: TryAcquire_def)
  with leases_agree_free [OF inv c True] show ?thesis by simp
next
  case False
  let ?n = "length (lim_leases l)"
  have lim: "limiter_inv l" using inv by (simp add: leases_agree_def)
  have x: "x = Lease ?n" "active_of l t < m"
    and l': "l' = \<lparr>lim_active = (lim_active l)(t \<mapsto> active_of l t + 1), lim_leases = lim_leases l @ [(t, False)]\<rparr>"
    using acq False by (auto simp: TryAcquire_def split: if_splits)
  have old: "slots d \<noteq> Some (u, Lease ?n)" for d u
    using leases_agree_slot [OF inv, of d u ?n] by auto
  show ?thesis
    unfolding leases_agree_def
  proof (intro conjI)
    show "limiter_inv l'" using TryAcquire_inv [OF lim acq] .
    show "\<forall>d u. (slots(c \<mapsto> (t, x))) d = Some (u, NoLease) \<longrightarrow> m \<le> 0 \<or> u \<le> 0"
      using inv x(1) unfolding leases_agree_def by auto
    show "\<forall>d u k. (slots(c \<mapsto> (t, x))) d = Some (u, Lease k) \<longrightarrow>
        k < length (lim_leases l') \<and> lim_leases l' ! k = (u, False)"
      using leases_agree_slot [OF inv] x(1) l' by (auto simp: nth_append less_Suc_eq)
    show "\<forall>d e u v k. (slots(c \<mapsto> (t, x))) d = Some (u, Lease k) \<and> (slots(c \<mapsto> (t, x))) e = Some (v, Lease k) \<longrightarrow> d = e"
      using inv old x(1) unfolding leases_agree_def by auto
    show "\<forall>k < length (lim_leases l'). \<not> snd (lim_leases l' ! k) \<longrightarrow> (\<exists>d u. (slots(c \<mapsto> (t, x))) d = Some (u, Lease k))"
    proof (intro allI impI)
      fix k assume k: "k < length (lim_leases l')" "\<not> snd (lim_leases l' ! k)"
      show "\<exists>d u. (slots(c \<mapsto> (t, x))) d = Some (u, Lease k)"
      proof (cases "k = ?n")
        case True
        then show ?thesis using x(1) by auto
      next
        case False
        then have "k < ?n" "\<not> snd (lim_leases l ! k)" using k l' by (auto simp: nth_append)
        then obtain d u where "slots d = Some (u, Lease k)" using inv unfolding leases_agree_def by blast
        moreover from this have "d \<noteq> c" using c by auto
        ultimately show ?thesis by (intro exI [of _ d]) simp
      qed
    qed
    show "\<forall>u. 0 < m \<longrightarrow> int (open_leases l' u) \<le> m"
      using inv x(2) active_of_inv [OF lim, of t] unfolding leases_agree_def l' open_leases_acquire by auto
  qed
qed

lemma leases_agree_release:
  assumes inv: "leases_agree m slots l" and c: "slots c = Some (t, x)"
    and rel: "release x (Some l) = Some l'"
  shows "leases_agree m (slots(c := None)) l'"
proof (cases x)
  case NoLease
  then have "l' = l" using rel by simp
  show ?thesis unfolding \<open>l' = l\<close>
    using inv
  proof (rule leases_agree_cong)
    show "(slots(c := None)) d = Some (u, Lease k) \<longleftrightarrow> slots d = Some (u, Lease k)" for d u k
      using c NoLease by simp
    show "(slots(c := None)) d = Some (u, NoLease) \<Longrightarrow> m \<le> 0 \<or> u \<le> 0" for d u
      using inv unfolding leases_agree_def by (auto split: if_splits)
  qed
next
  case (Lease k)
  have lim: "limiter_inv l" using inv by (simp add: leases_agree_def)
  have k: "k < length (lim_leases l)" "lim_leases l ! k = (t, False)"
    using leases_agree_slot [OF inv] c Lease by auto
  have l': "l' = \<lparr>lim_active = release_slot l t, lim_leases = (lim_leases l)[k := (t, True)]\<rparr>"
    using rel k Lease by simp
  have other: "d \<noteq> c \<Longrightarrow> slots d = Some (u, Lease j) \<Longrightarrow> j \<noteq> k" for d u j
    using inv c Lease unfolding leases_agree_def by blast
  show ?thesis
    unfolding leases_agree_def
  proof (intro conjI)
    show "limiter_inv l'" using release_inv [OF lim rel] .
    show "\<forall>d u. (slots(c := None)) d = Some (u, NoLease) \<longrightarrow> m \<le> 0 \<or> u \<le> 0"
      using inv unfolding leases_agree_def by auto
    show "\<forall>d u j. (slots(c := None)) d = Some (u, Lease j) \<longrightarrow>
        j < length (lim_leases l') \<and> lim_leases l' ! j = (u, False)"
    proof (intro allI impI)
      fix d u j assume "(slots(c := None)) d = Some (u, Lease j)"
      then have d: "d \<noteq> c" "slots d = Some (u, Lease j)" by (auto split: if_splits)
      from other [OF this] leases_agree_slot [OF inv d(2)] l'
      show "j < length (lim_leases l') \<and> lim_leases l' ! j = (u, False)" by simp
    qed
    show "\<forall>d e u v j. (slots(c := None)) d = Some (u, Lease j) \<and> (slots(c := None)) e = Some (v, Lease j) \<longrightarrow> d = e"
      using inv unfolding leases_agree_def by (auto split: if_splits)
    show "\<forall>j < length (lim_leases l'). \<not> snd (lim_leases l' ! j) \<longrightarrow> (\<exists>d u. (slots(c := None)) d = Some (u, Lease j))"
    proof (intro allI impI)
      fix j assume j: "j < length (lim_leases l')" "\<not> snd (lim_leases l' ! j)"
      then have "j \<noteq> k" "j < length (lim_leases l)" "\<not> snd (lim_leases l ! j)"
        using l' k by (auto simp: nth_list_update split: if_splits)
      then obtain d u where d: "slots d = Some (u, Lease j)" using inv unfolding leases_agree_def by blast
      then have "d \<noteq> c" using c Lease \<open>j \<noteq> k\<close> by auto
      with d show "\<exists>d u. (slots(c := None)) d = Some (u, Lease j)" by (intro exI [of _ d]) simp
    qed
    show "\<forall>u. 0 < m \<longrightarrow> int (open_leases l' u) \<le> m"
    proof (intro allI impI)
      fix u assume "0 < m"
      then have "int (open_leases l u) \<le> m" using inv unfolding leases_agree_def by blast
      then show "int (open_leases l' u) \<le> m"
        unfolding l' open_leases_release(1) [OF k] by (auto split: if_splits)
    qed
  qed
qed

subsection \<open>The whole server\<close>

lemma system_inv_new: "system_inv cfg (new_system now db)"
proof -
  have t: "tunnels_of (\<lambda>_. None) = (\<lambda>_. None)" "slots_of (\<lambda>_. None) = (\<lambda>_. None)"
    by (simp_all add: tunnels_of_def slots_of_def fun_eq_iff)
  show ?thesis
    by (simp add: system_inv_def new_system_def new_server_def t registry_agrees_def NewTunnelRegistry_def
        listening_agrees_def gauges_agree_def newMetrics_def http_sessions_def tcp_sessions_def
        leases_agree_def limiter_inv_new newTokenTunnelLimiter_def open_leases_def)
      (simp add: limiter_inv_def open_leases_def)
qed

lemma set_session_simps [simp]:
  "sys_server (set_session c st sv s) = sv"
  "sys_sessions (set_session c st sv s) = (sys_sessions s)(c := st)"
  by (simp_all add: set_session_def)

lemma same_upd: "f c = v \<Longrightarrow> f(c := v) = f"
  by auto

lemma sessions_at:
  "sys_sessions s c = Some st \<Longrightarrow> tunnels_of (sys_sessions s) c = stage_tunnel st"
  "sys_sessions s c = Some st \<Longrightarrow> slots_of (sys_sessions s) c = stage_slot st"
  "sys_sessions s c = None \<Longrightarrow> tunnels_of (sys_sessions s) c = None"
  "sys_sessions s c = None \<Longrightarrow> slots_of (sys_sessions s) c = None"
  by (simp_all add: tunnels_of_def slots_of_def)

text \<open>A change of stage that neither opens nor closes a tunnel or a lease.\<close>

lemma system_inv_move:
  assumes inv: "system_inv cfg s" and c: "sys_sessions s c = Some st"
    and tun: "stage_tunnel st' = stage_tunnel st" and slot: "stage_slot st' = stage_slot st"
    and sv: "sv_registry sv = sv_registry (sys_server s)" "sv_metrics sv = sv_metrics (sys_server s)"
      "sv_listening sv = sv_listening (sys_server s)" "sv_limiter sv = sv_limiter (sys_server s)"
  shows "system_inv cfg (set_session c (Some st') sv s)"
proof -
  have "tunnels_of ((sys_sessions s)(c \<mapsto> st')) = tunnels_of (sys_sessions s)"
    "slots_of ((sys_sessions s)(c \<mapsto> st')) = slots_of (sys_sessions s)"
    "dom ((sys_sessions s)(c \<mapsto> st')) = dom (sys_sessions s)"
    using sessions_at(1,2) [OF c] tun slot c
    by (auto simp: tunnels_of_upd slots_of_upd same_upd)
  with inv sv show ?thesis by (simp add: system_inv_def)
qed

lemma system_inv_slot:
  assumes inv: "system_inv cfg s" and c: "sys_sessions s c = Some st"
    and tun: "stage_tunnel st' = stage_tunnel st"
    and slot: "leases_agree (cfg_max_tunnels_per_token cfg)
      ((slots_of (sys_sessions s))(c := stage_slot st')) (sv_limiter sv)"
    and sv: "sv_registry sv = sv_registry (sys_server s)" "sv_metrics sv = sv_metrics (sys_server s)"
      "sv_listening sv = sv_listening (sys_server s)"
  shows "system_inv cfg (set_session c (Some st') sv s)"
proof -
  have "tunnels_of ((sys_sessions s)(c \<mapsto> st')) = tunnels_of (sys_sessions s)"
    "dom ((sys_sessions s)(c \<mapsto> st')) = dom (sys_sessions s)"
    using sessions_at(1) [OF c] tun c by (auto simp: tunnels_of_upd same_upd)
  with inv sv slot show ?thesis by (simp add: system_inv_def slots_of_upd)
qed

lemma system_inv_tunnel:
  assumes inv: "system_inv cfg s" and c: "sys_sessions s c = Some st"
    and slot: "stage_slot st' = stage_slot st" and lim: "sv_limiter sv = sv_limiter (sys_server s)"
    and tun: "registry_agrees ((tunnels_of (sys_sessions s))(c := stage_tunnel st')) (sv_registry sv)"
      "listening_agrees cfg ((tunnels_of (sys_sessions s))(c := stage_tunnel st')) (sv_listening sv)"
      "gauges_agree (dom (sys_sessions s)) ((tunnels_of (sys_sessions s))(c := stage_tunnel st')) (sv_metrics sv)"
  shows "system_inv cfg (set_session c (Some st') sv s)"
proof -
  have "slots_of ((sys_sessions s)(c \<mapsto> st')) = slots_of (sys_sessions s)"
    "dom ((sys_sessions s)(c \<mapsto> st')) = dom (sys_sessions s)"
    using sessions_at(2) [OF c] slot c by (auto simp: slots_of_upd same_upd)
  with inv lim tun show ?thesis by (simp add: system_inv_def tunnels_of_upd)
qed

text \<open>A connection that takes a slot, admitted or refused after it.\<close>

lemma system_inv_taken:
  assumes inv: "system_inv cfg s" and c: "sys_sessions s c = Some Waiting"
    and taken: "slot_taken cfg (sv_limiter (sys_server s)) t x (sv_limiter sv)"
    and st: "stage_tunnel st = None" "stage_slot st = Some (t, x)"
    and sv: "sv_registry sv = sv_registry (sys_server s)" "sv_metrics sv = sv_metrics (sys_server s)"
      "sv_listening sv = sv_listening (sys_server s)"
  shows "system_inv cfg (set_session c (Some st) sv s)"
proof -
  let ?slots = "slots_of (sys_sessions s)" and ?m = "cfg_max_tunnels_per_token cfg"
  have ag: "leases_agree ?m ?slots (sv_limiter (sys_server s))"
    using inv by (simp add: system_inv_def)
  have none: "?slots c = None" using sessions_at(2) [OF c] by simp
  have "leases_agree ?m (?slots(c \<mapsto> (t, x))) (sv_limiter sv)"
  proof (cases "?m > 0 \<and> t > 0")
    case True
    with taken have "TryAcquire (Some (sv_limiter (sys_server s))) t ?m = (Some x, Some (sv_limiter sv))"
      by (simp add: slot_taken_def)
    from leases_agree_acquire [OF ag none this] show ?thesis .
  next
    case False
    then have "x = NoLease" "sv_limiter sv = sv_limiter (sys_server s)"
      using taken by (auto simp: slot_taken_def)
    with leases_agree_free [OF ag none, of t] False show ?thesis by auto
  qed
  then show ?thesis using st sv by (intro system_inv_slot [OF inv c]) simp_all
qed

lemma system_inv_step:
  assumes "system_step cfg deps s s'" and inv: "system_inv cfg s"
  shows "system_inv cfg s'"
  using assms(1)
proof cases
  case (accept c)
  have "gauges_agree (insert c (dom (sys_sessions s))) (tunnels_of (sys_sessions s))
      (trackControlConn (sv_metrics (sys_server s)))"
    using inv accept(2) by (intro gauges_begin) (auto simp: system_inv_def)
  moreover have "tunnels_of ((sys_sessions s)(c \<mapsto> Waiting)) = tunnels_of (sys_sessions s)"
    "slots_of ((sys_sessions s)(c \<mapsto> Waiting)) = slots_of (sys_sessions s)"
    using sessions_at(3,4) [OF accept(2)] by (auto simp: tunnels_of_upd slots_of_upd same_upd)
  ultimately show ?thesis
    using inv by (simp add: accept(1) system_inv_def begin_connection_def)
next
  case (hang_up c)
  show ?thesis unfolding hang_up(1) by (intro system_inv_move [OF inv hang_up(2)]) simp_all
next
  case (refuse c env msg r sl sv)
  note frame = admit_frame [of cfg deps env msg "sys_server s", unfolded refuse(3) snd_conv]
  show ?thesis
  proof (cases sl)
    case None
    then show ?thesis unfolding refuse(1)
      using frame admit_limiter [OF refuse(3)] by (intro system_inv_move [OF inv refuse(2)]) simp_all
  next
    case (Some tx)
    obtain t x where "tx = (t, x)" by fastforce
    then show ?thesis unfolding refuse(1)
      using Some frame admit_limiter [OF refuse(3)]
      by (intro system_inv_taken [OF inv refuse(2), of t x]) simp_all
  qed
next
  case (admit c env msg req t x sv)
  note frame = admit_frame [of cfg deps env msg "sys_server s", unfolded admit(3) snd_conv]
  show ?thesis unfolding admit(1)
    using frame admit_limiter [OF admit(3)] by (intro system_inv_taken [OF inv admit(2), of t x]) simp_all
next
  case (fail c req t x env r sv)
  show ?thesis unfolding fail(1)
    using establish_None [OF fail(3)] by (intro system_inv_move [OF inv fail(2)]) simp_all
next
  case (live c req t x env r tun sv)
  have c: "tunnels_of (sys_sessions s) c = None" "c \<in> dom (sys_sessions s)"
    using sessions_at(1) [OF live(2)] live(2) by auto
  have reg: "registry_agrees (tunnels_of (sys_sessions s)) (sv_registry (sys_server s))"
    and lis: "listening_agrees cfg (tunnels_of (sys_sessions s)) (sv_listening (sys_server s))"
    and gau: "gauges_agree (dom (sys_sessions s)) (tunnels_of (sys_sessions s)) (sv_metrics (sys_server s))"
    using inv by (simp_all add: system_inv_def)
  show ?thesis
  proof (cases tun)
    case (TcpTunnel p)
    note e = establish_Tcp [OF live(3) [unfolded TcpTunnel]]
    then have p: "cfg_tcp_port_range_start cfg \<le> p \<and> p \<le> cfg_tcp_port_range_end cfg"
      "p \<notin> sv_listening (sys_server s)"
      by (auto dest: allocateTCPListener_range)
    show ?thesis unfolding live(1) TcpTunnel
      using e registry_agrees_other [OF reg, of c "Some (TcpTunnel p)"]
        listening_agrees_listen [OF lis c(1) p(2,1)] gauges_track(2) [OF gau c(2,1)] c(1)
      by (intro system_inv_tunnel [OF inv live(2)]) simp_all
  next
    case (HttpTunnel i)
    note e = establish_Http [OF live(3) [unfolded HttpTunnel]]
    then have "registry_agrees ((tunnels_of (sys_sessions s))(c \<mapsto> HttpTunnel i)) (sv_registry sv)"
      using registry_agrees_register [OF reg c(1)] by blast
    then show ?thesis unfolding live(1) HttpTunnel
      using e listening_agrees_other [OF lis, of c "Some (HttpTunnel i)"]
        gauges_track(1) [OF gau c(2,1)] c(1)
      by (intro system_inv_tunnel [OF inv live(2)]) simp_all
  qed
next
  case (close c tun t x)
  have c: "tunnels_of (sys_sessions s) c = Some tun"
    using sessions_at(1) [OF close(2)] by simp
  have reg: "registry_agrees (tunnels_of (sys_sessions s)) (sv_registry (sys_server s))"
    and lis: "listening_agrees cfg (tunnels_of (sys_sessions s)) (sv_listening (sys_server s))"
    and gau: "gauges_agree (dom (sys_sessions s)) (tunnels_of (sys_sessions s)) (sv_metrics (sys_server s))"
    using inv by (simp_all add: system_inv_def)
  show ?thesis
  proof (cases tun)
    case (TcpTunnel p)
    show ?thesis unfolding close(1) TcpTunnel
      using c TcpTunnel registry_agrees_other [OF reg, of c None] listening_agrees_close [OF lis, of c p]
        gauges_untrack(2) [OF gau, of c p]
      by (intro system_inv_tunnel [OF inv close(2)]) simp_all
  next
    case (HttpTunnel i)
    show ?thesis unfolding close(1) HttpTunnel
      using c HttpTunnel registry_agrees_unregister [OF reg, of c i] listening_agrees_other [OF lis, of c None]
        gauges_untrack(1) [OF gau, of c i]
      by (intro system_inv_tunnel [OF inv close(2)]) simp_all
  qed
next
  case (finish c sl)
  let ?sv = "release_lease (slot_lease sl) (sys_server s)"
  have c: "tunnels_of (sys_sessions s) c = None" "slots_of (sys_sessions s) c = sl"
    using sessions_at(1,2) [OF finish(2)] by simp_all
  have ag: "leases_agree (cfg_max_tunnels_per_token cfg) (slots_of (sys_sessions s)) (sv_limiter (sys_server s))"
    using inv by (simp add: system_inv_def)
  have lea: "leases_agree (cfg_max_tunnels_per_token cfg) ((slots_of (sys_sessions s))(c := None)) (sv_limiter ?sv)"
  proof (cases sl)
    case None
    with ag c show ?thesis by (simp add: slot_lease_def same_upd)
  next
    case (Some tx)
    obtain t x where tx: "tx = (t, x)" by fastforce
    obtain l where l: "release x (Some (sv_limiter (sys_server s))) = Some l" using release_Some by blast
    have "slots_of (sys_sessions s) c = Some (t, x)" using c(2) Some tx by simp
    from leases_agree_release [OF ag this l] show ?thesis
      using release_lease_limiter [OF l] Some tx by (simp add: slot_lease_def)
  qed
  have gau: "gauges_agree (dom (sys_sessions s) - {c}) (tunnels_of (sys_sessions s))
      (untrackControlConn (sv_metrics (sys_server s)))"
    using inv finish(2) c by (intro gauges_end) (auto simp: system_inv_def)
  show ?thesis unfolding finish(1) system_inv_def
    using inv lea gau c
    by (simp add: system_inv_def end_connection_def Let_def tunnels_of_upd slots_of_upd same_upd)
next
  case (store db)
  with inv show ?thesis by (simp add: system_inv_def)
qed

lemma reachable_inv: "reachable cfg deps s \<Longrightarrow> system_inv cfg s"
  unfolding reachable_def
proof (elim exE)
  fix now db
  assume "(system_step cfg deps)\<^sup>*\<^sup>* (new_system now db) s"
  then show ?thesis
    by (induction rule: rtranclp_induct) (auto intro: system_inv_new system_inv_step)
qed

lemma leases_count:
  assumes inv: "leases_agree m slots l" and pos: "0 < m" "0 < t"
  shows "card {c. \<exists>x. slots c = Some (t, x)} = open_leases l t"
proof -
  let ?C = "{c. \<exists>x. slots c = Some (t, x)}" and ?K = "{k. k < length (lim_leases l) \<and> lim_leases l ! k = (t, False)}"
  let ?c = "\<lambda>k. THE c. \<exists>u. slots c = Some (u, Lease k)"
  have uniq: "slots c = Some (u, Lease k) \<Longrightarrow> slots d = Some (v, Lease k) \<Longrightarrow> c = d" for c d u v k
    using inv unfolding leases_agree_def by blast
  have the: "slots c = Some (u, Lease k) \<Longrightarrow> ?c k = c" for c u k
    using uniq by (intro the_equality) auto
  have lease: "\<exists>k. x = Lease k \<and> k \<in> ?K" if "slots c = Some (t, x)" for c x
  proof (cases x)
    case NoLease
    with that inv pos have False unfolding leases_agree_def by fastforce
    then show ?thesis ..
  next
    case (Lease k)
    with that leases_agree_slot [OF inv, of c t k] show ?thesis by simp
  qed
  have owner: "\<exists>c. slots c = Some (t, Lease k)" if "k \<in> ?K" for k
  proof -
    have "\<exists>c u. slots c = Some (u, Lease k)" using that inv unfolding leases_agree_def by auto
    then show ?thesis using leases_agree_slot [OF inv] that by fastforce
  qed
  have "bij_betw ?c ?K ?C"
  proof (rule bij_betw_imageI)
    show "inj_on ?c ?K"
    proof (rule inj_onI)
      fix j k assume "j \<in> ?K" "k \<in> ?K" "?c j = ?c k"
      moreover from this obtain c d where "slots c = Some (t, Lease j)" "slots d = Some (t, Lease k)"
        using owner by meson
      moreover from this have "?c j = c" "?c k = d" using the by blast+
      ultimately show "j = k" by auto
    qed
    show "?c ` ?K = ?C"
    proof
      show "?c ` ?K \<subseteq> ?C"
      proof
        fix d assume "d \<in> ?c ` ?K"
        then obtain k where k: "k \<in> ?K" "d = ?c k" by blast
        from owner [OF k(1)] obtain c where "slots c = Some (t, Lease k)" by blast
        with the [OF this] k(2) show "d \<in> ?C" by auto
      qed
      show "?C \<subseteq> ?c ` ?K"
      proof
        fix c assume "c \<in> ?C"
        then obtain x where x: "slots c = Some (t, x)" by blast
        from lease [OF this] obtain k where "x = Lease k" "k \<in> ?K" by blast
        moreover from this x have "?c k = c" using the by blast
        ultimately show "c \<in> ?c ` ?K" by force
      qed
    qed
  qed
  then have "card ?C = card ?K" by (simp add: bij_betw_same_card)
  then show ?thesis by (simp add: open_leases_def length_filter_conv_card)
qed

subsection \<open>Properties\<close>

text \<open>C2: the shared tables are exact in every reachable state of the server, whatever the order of
  the connections' stages. The registry answers a tunnel id with the session that is live under
  that id and nothing else, every live HTTP tunnel is found, the listening ports are the ports of
  the live TCP tunnels, each of one session and within the configured range.\<close>

theorem live_tunnels_exact:
  assumes "reachable cfg deps s"
  shows "(GetHTTPTunnel (sv_registry (sys_server s)) i = Some e \<longrightarrow>
        (\<exists>j t x. sys_sessions s (ent_session e) = Some (Live (HttpTunnel j) t x) \<and> registry_key j = registry_key i))
    \<and> (sys_sessions s c = Some (Live (HttpTunnel j) t x) \<longrightarrow>
        (\<exists>e. GetHTTPTunnel (sv_registry (sys_server s)) j = Some e \<and> ent_session e = c))
    \<and> (p \<in> sv_listening (sys_server s) \<longleftrightarrow> (\<exists>c t x. sys_sessions s c = Some (Live (TcpTunnel p) t x)))
    \<and> (sys_sessions s c = Some (Live (TcpTunnel p) t x) \<longrightarrow>
        cfg_tcp_port_range_start cfg \<le> p \<and> p \<le> cfg_tcp_port_range_end cfg
        \<and> (\<forall>d u y. sys_sessions s d = Some (Live (TcpTunnel p) u y) \<longrightarrow> d = c))"
proof -
  let ?ses = "sys_sessions s" and ?tun = "tunnels_of (sys_sessions s)" and ?reg = "sv_registry (sys_server s)"
  have reg: "registry_agrees ?tun ?reg" and lis: "listening_agrees cfg ?tun (sv_listening (sys_server s))"
    using reachable_inv [OF assms] by (simp_all add: system_inv_def)
  have tun: "?tun d = Some tn \<longleftrightarrow> (\<exists>t x. ?ses d = Some (Live tn t x))" for d tn
    by (cases "?ses d"; cases "the (?ses d)") (auto simp: tunnels_of_def)
  have get: "GetHTTPTunnel ?reg k = ?reg (registry_key k)" for k
    using reg by (simp add: GetHTTPTunnel_def Let_def registry_agrees_def)
  have 1: "GetHTTPTunnel ?reg i = Some e \<longrightarrow>
        (\<exists>j t x. ?ses (ent_session e) = Some (Live (HttpTunnel j) t x) \<and> registry_key j = registry_key i)"
    using registry_agrees_entry [OF reg, of "registry_key i" e] unfolding get tun by blast
  have 2: "?ses c = Some (Live (HttpTunnel j) t x) \<longrightarrow> (\<exists>e. GetHTTPTunnel ?reg j = Some e \<and> ent_session e = c)"
    using registry_agrees_live [OF reg, of c j] unfolding get tun by blast
  have 3: "p \<in> sv_listening (sys_server s) \<longleftrightarrow> (\<exists>c t x. ?ses c = Some (Live (TcpTunnel p) t x))"
    using lis unfolding listening_agrees_def tun by blast
  have 4: "?ses c = Some (Live (TcpTunnel p) t x) \<longrightarrow>
        cfg_tcp_port_range_start cfg \<le> p \<and> p \<le> cfg_tcp_port_range_end cfg
        \<and> (\<forall>d u y. ?ses d = Some (Live (TcpTunnel p) u y) \<longrightarrow> d = c)"
    using lis 3 unfolding listening_agrees_def tun by blast
  from 1 2 3 4 show ?thesis by blast
qed

text \<open>C13: the limit of tunnels per token holds for the whole server. In every reachable state, under
  a positive limit, the sessions that hold a slot for a token, admitted, live or closing, those
  that the rate limit refused and whose handler has not returned among them, are at most the limit,
  and their number is exactly the limiter's counter for the token.\<close>

theorem sessions_within_limit:
  assumes "reachable cfg deps s" and "cfg_max_tunnels_per_token cfg > 0" and "t > 0"
  shows "int (card {c. \<exists>st x. sys_sessions s c = Some st \<and> stage_slot st = Some (t, x)})
      \<le> cfg_max_tunnels_per_token cfg
    \<and> active_of (sv_limiter (sys_server s)) t
      = int (card {c. \<exists>st x. sys_sessions s c = Some st \<and> stage_slot st = Some (t, x)})"
proof -
  let ?l = "sv_limiter (sys_server s)"
  have inv: "leases_agree (cfg_max_tunnels_per_token cfg) (slots_of (sys_sessions s)) ?l"
    using reachable_inv [OF assms(1)] by (simp add: system_inv_def)
  have set: "{c. \<exists>st x. sys_sessions s c = Some st \<and> stage_slot st = Some (t, x)}
      = {c. \<exists>x. slots_of (sys_sessions s) c = Some (t, x)}"
    by (auto simp: slots_of_def split: bind_split)
  have "int (open_leases ?l t) \<le> cfg_max_tunnels_per_token cfg" "limiter_inv ?l"
    using inv assms(2) unfolding leases_agree_def by blast+
  then show ?thesis
    unfolding set leases_count [OF inv assms(2,3)] by (simp add: active_of_inv)
qed

text \<open>Without connections everything is released.\<close>

lemma empty_system:
  assumes "reachable cfg deps s" and "dom (sys_sessions s) = {}"
  shows "sv_registry (sys_server s) = NewTunnelRegistry \<and> sv_listening (sys_server s) = {}
    \<and> lim_active (sv_limiter (sys_server s)) = (\<lambda>_. None)"
proof -
  let ?ses = "sys_sessions s" and ?sv = "sys_server s"
  let ?tun = "tunnels_of ?ses"
  have inv: "system_inv cfg s" using reachable_inv [OF assms(1)] .
  have e: "?tun = (\<lambda>_. None)" "slots_of ?ses = (\<lambda>_. None)"
    using assms(2) by (simp_all add: fun_eq_iff tunnels_of_def slots_of_def)
  have "sv_registry ?sv k = None" for k
    using inv registry_agrees_entry [of ?tun "sv_registry ?sv" k] e
    by (cases "sv_registry ?sv k") (auto simp: system_inv_def)
  then have 1: "sv_registry ?sv = NewTunnelRegistry" by (simp add: NewTunnelRegistry_def fun_eq_iff)
  have 2: "sv_listening ?sv = {}" using inv e by (auto simp: system_inv_def listening_agrees_def)
  have lea: "leases_agree (cfg_max_tunnels_per_token cfg) (\<lambda>_. None) (sv_limiter ?sv)"
    using inv e by (simp add: system_inv_def)
  then have "\<forall>k < length (lim_leases (sv_limiter ?sv)). snd (lim_leases (sv_limiter ?sv) ! k)"
    unfolding leases_agree_def by auto
  then have "p \<in> set (lim_leases (sv_limiter ?sv)) \<Longrightarrow> snd p" for p by (metis in_set_conv_nth)
  then have "open_leases (sv_limiter ?sv) t = 0" for t
    by (auto simp: open_leases_def filter_empty_conv)
  then have 3: "lim_active (sv_limiter ?sv) = (\<lambda>_. None)"
    using lea by (simp add: leases_agree_def limiter_inv_def fun_eq_iff)
  from 1 2 3 show ?thesis by blast
qed

text \<open>nothing leaks. In every reachable state the gauges are the numbers of open connections,
  live HTTP tunnels and live TCP tunnels; and when no connection is left the registry is empty,
  no port is listened on, no token has an active slot and every gauge is zero.\<close>

theorem nothing_leaks:
  assumes "reachable cfg deps s"
  shows "mt_active_control (sv_metrics (sys_server s)) = int (card (dom (sys_sessions s)))
    \<and> mt_active_http (sv_metrics (sys_server s))
        = int (card {c. \<exists>i t x. sys_sessions s c = Some (Live (HttpTunnel i) t x)})
    \<and> mt_active_tcp (sv_metrics (sys_server s))
        = int (card {c. \<exists>p t x. sys_sessions s c = Some (Live (TcpTunnel p) t x)})
    \<and> (dom (sys_sessions s) = {} \<longrightarrow>
         sv_registry (sys_server s) = NewTunnelRegistry \<and> sv_listening (sys_server s) = {}
         \<and> lim_active (sv_limiter (sys_server s)) = (\<lambda>_. None))"
proof -
  let ?ses = "sys_sessions s" and ?sv = "sys_server s"
  let ?tun = "tunnels_of ?ses"
  have inv: "system_inv cfg s" using reachable_inv [OF assms] .
  have tun: "?tun d = Some tn \<longleftrightarrow> (\<exists>t x. ?ses d = Some (Live tn t x))" for d tn
    by (cases "?ses d"; cases "the (?ses d)") (auto simp: tunnels_of_def)
  have gau: "gauges_agree (dom ?ses) ?tun (sv_metrics ?sv)" using inv by (simp add: system_inv_def)
  have sets: "http_sessions ?tun = {c. \<exists>i t x. ?ses c = Some (Live (HttpTunnel i) t x)}"
    "tcp_sessions ?tun = {c. \<exists>p t x. ?ses c = Some (Live (TcpTunnel p) t x)}"
    by (simp_all add: http_sessions_def tcp_sessions_def tun)
  from empty_system [OF assms] show ?thesis using gau unfolding gauges_agree_def sets by blast
qed

subsection \<open>A run\<close>

definition limit_cfg :: config where
  "limit_cfg = demo_cfg\<lparr>cfg_max_tunnels_per_token := 2\<rparr>"

lemma limit_cfg_fields [simp]:
  "cfg_max_tunnels_per_token limit_cfg = 2" "cfg_max_tunnel_creates_per_minute limit_cfg = 0"
  "cfg_auth_token limit_cfg = []" "cfg_tunnel_domain limit_cfg = ''tunnel.example.com''"
  by (simp_all add: limit_cfg_def demo_cfg_def)

lemma demo_admit:
  assumes "sv_db sv = Some demo_db" and "sv_limiter sv = newTokenTunnelLimiter"
  shows "\<exists>sv'. admit limit_cfg demo_deps demo_env (Some (demo_req ''http'' 0 ''my-app'')) sv
      = (Inr (demo_req ''http'' 0 ''my-app'', 1, Lease 0), sv')
    \<and> sv_db sv' = Some demo_db \<and> sv_registry sv' = sv_registry sv"
  using demo_store assms
  by (auto simp: admit_def authenticate_def demo_deps_def auth_dependencies_def acquire_slot_def check_rate_def
      demo_env_def demo_req_def TryAcquire_def newTokenTunnelLimiter_def active_of_def)

lemma demo_http_live:
  assumes "sv_db sv = Some demo_db" and "sv_registry sv = NewTunnelRegistry"
  shows "\<exists>r sv' opts. establish limit_cfg demo_deps demo_env c (demo_req ''http'' 0 ''my-app'') 1 sv
      = ((r, Some (HttpTunnel ''my-app'')), sv') \<and> sv_registry sv' ''my-app'' = Some (make_entry c opts)
    \<and> parse_options (http_request_of (demo_req ''http'' 0 ''my-app'')) = Inr opts"
proof -
  obtain opts where opts: "parse_options (http_request_of (demo_req ''http'' 0 ''my-app'')) = Inr opts"
    using demo_options by blast
  obtain s where s: "ReserveSubdomain NoFault 7 (Some demo_db) 1 ''my-app'' = (Inr (), s)"
    using demo_reserve(1) by blast
  have id: "resolve_tunnel_id limit_cfg demo_deps demo_env 1 (http_request_of (demo_req ''http'' 0 ''my-app'')) (Some demo_db)
      = (Inr ''my-app'', s)"
    using demo_store(3) s demo_trim
    by (simp add: resolve_tunnel_id_def demo_deps_def
        auth_dependencies_def auth_reservations_def demo_env_def desired_id_def claim_key_def)
  have "request_type (demo_req ''http'' 0 ''my-app'') = ''http''"
    by (simp add: request_type_def demo_req_def eval_simps)
  then show ?thesis
    using opts id demo_trim assms
    by (simp add: establish_def establish_http_def RegisterHTTPTunnel_def NewTunnelRegistry_def)
qed

lemma demo_live_entry:
  "\<exists>s opts. reachable limit_cfg demo_deps s \<and> sys_sessions s = [4 \<mapsto> Live (HttpTunnel ''my-app'') 1 (Lease 0)]
    \<and> sv_registry (sys_server s) ''my-app'' = Some (make_entry 4 opts)
    \<and> parse_options (http_request_of (demo_req ''http'' 0 ''my-app'')) = Inr opts"
proof -
  let ?s0 = "new_system 0 (Some demo_db)" and ?req = "demo_req ''http'' 0 ''my-app''"
  define s1 where "s1 = set_session 4 (Some Waiting) (begin_connection (sys_server ?s0)) ?s0"
  have 1: "system_step limit_cfg demo_deps ?s0 s1"
    unfolding s1_def by (rule system_step.accept) (simp add: new_system_def)
  have f1: "sv_db (sys_server s1) = Some demo_db" "sv_limiter (sys_server s1) = newTokenTunnelLimiter"
    "sv_registry (sys_server s1) = NewTunnelRegistry"
    by (simp_all add: s1_def begin_connection_def new_system_def new_server_def)
  obtain sv2 where a: "admit limit_cfg demo_deps demo_env (Some ?req) (sys_server s1) = (Inr (?req, 1, Lease 0), sv2)"
    "sv_db sv2 = Some demo_db" "sv_registry sv2 = NewTunnelRegistry"
    using demo_admit [OF f1(1,2)] f1(3) by auto
  define s2 where "s2 = set_session 4 (Some (Admitted ?req 1 (Lease 0))) sv2 s1"
  have 2: "system_step limit_cfg demo_deps s1 s2"
    unfolding s2_def by (rule system_step.admit [OF _ a(1)]) (simp add: s1_def)
  obtain r sv3 opts where e: "establish limit_cfg demo_deps demo_env 4 ?req 1 sv2 = ((r, Some (HttpTunnel ''my-app'')), sv3)"
    and o: "sv_registry sv3 ''my-app'' = Some (make_entry 4 opts)" "parse_options (http_request_of ?req) = Inr opts"
    using demo_http_live [OF a(2,3)] by blast
  define s3 where "s3 = set_session 4 (Some (Live (HttpTunnel ''my-app'') 1 (Lease 0))) sv3 s2"
  have 3: "system_step limit_cfg demo_deps s2 s3"
    unfolding s3_def using e by (intro system_step.live) (simp_all add: s2_def)
  have "(system_step limit_cfg demo_deps)\<^sup>*\<^sup>* ?s0 s3"
    using 1 2 3 by (meson converse_rtranclp_into_rtranclp r_into_rtranclp)
  moreover have "sys_sessions s3 = [4 \<mapsto> Live (HttpTunnel ''my-app'') 1 (Lease 0)]"
    by (simp add: s3_def s2_def s1_def new_system_def)
  moreover have "sv_registry (sys_server s3) ''my-app'' = Some (make_entry 4 opts)"
    using o(1) by (simp add: s3_def set_session_def)
  ultimately show ?thesis using o(2) unfolding reachable_def by blast
qed

lemma demo_live:
  "\<exists>s. reachable limit_cfg demo_deps s \<and> sys_sessions s = [4 \<mapsto> Live (HttpTunnel ''my-app'') 1 (Lease 0)]"
  using demo_live_entry by blast

lemma reachable_step: "reachable cfg deps s \<Longrightarrow> system_step cfg deps s s' \<Longrightarrow> reachable cfg deps s'"
  unfolding reachable_def by (meson rtranclp.rtrancl_into_rtrancl)

lemma demo_drained:
  "\<exists>s. reachable limit_cfg demo_deps s \<and> sys_sessions s = (\<lambda>_. None) \<and> lim_leases (sv_limiter (sys_server s)) \<noteq> []"
proof -
  obtain s where s: "reachable limit_cfg demo_deps s"
    "sys_sessions s = [4 \<mapsto> Live (HttpTunnel ''my-app'') 1 (Lease 0)]"
    using demo_live by blast
  have inv: "leases_agree 2 (slots_of (sys_sessions s)) (sv_limiter (sys_server s))"
    using reachable_inv [OF s(1)] by (simp add: system_inv_def)
  have "slots_of (sys_sessions s) 4 = Some (1, Lease 0)" using s(2) by (simp add: slots_of_def)
  then have l: "lim_leases (sv_limiter (sys_server s)) \<noteq> []"
    using leases_agree_slot [OF inv, of 4 1 0] by auto
  define s1 where "s1 = set_session 4 (Some (Closing (Some (1, Lease 0))))
    (close_tunnel (Some (HttpTunnel ''my-app'')) (sys_server s)) s"
  have 1: "system_step limit_cfg demo_deps s s1"
    unfolding s1_def by (rule system_step.close) (simp add: s(2))
  define s2 where "s2 = set_session 4 None (end_connection None (Lease 0) (sys_server s1)) s1"
  have 2: "system_step limit_cfg demo_deps s1 s2"
    using system_step.finish [of s1 4 "Some (1, Lease 0)" limit_cfg demo_deps]
    by (simp add: s2_def slot_lease_def) (simp add: s1_def)
  have "sys_sessions s2 = (\<lambda>_. None)" by (simp add: s2_def s1_def s(2))
  moreover have "lim_leases (sv_limiter (sys_server s2)) \<noteq> []"
    using l by (auto simp: s2_def s1_def end_connection_def release_lease_def Let_def
        split: option.splits bool.splits prod.splits if_splits)
  ultimately show ?thesis using reachable_step 1 2 s(1) by metis
qed

theorem live_tunnels_exact_witness:
  "\<exists>s e. reachable limit_cfg demo_deps s \<and> GetHTTPTunnel (sv_registry (sys_server s)) ''my-app'' = Some e
     \<and> ent_session e = 4"
proof -
  obtain s where s: "reachable limit_cfg demo_deps s"
    "sys_sessions s = [4 \<mapsto> Live (HttpTunnel ''my-app'') 1 (Lease 0)]"
    using demo_live by blast
  from live_tunnels_exact [OF s(1), of _ _ 4 "''my-app''" 1 "Lease 0"] s show ?thesis by auto
qed

theorem sessions_within_limit_witness:
  "\<exists>s. reachable limit_cfg demo_deps s \<and> active_of (sv_limiter (sys_server s)) 1 = 1"
proof -
  obtain s where s: "reachable limit_cfg demo_deps s"
    "sys_sessions s = [4 \<mapsto> Live (HttpTunnel ''my-app'') 1 (Lease 0)]"
    using demo_live by blast
  have "{c. \<exists>st x. sys_sessions s c = Some st \<and> stage_slot st = Some (1, x)} = {4}"
    using s(2) by (auto split: if_splits)
  with sessions_within_limit [OF s(1), of 1] s(1) show ?thesis by auto
qed

theorem nothing_leaks_witness:
  "\<exists>s. reachable limit_cfg demo_deps s \<and> lim_leases (sv_limiter (sys_server s)) \<noteq> []
     \<and> sv_registry (sys_server s) = NewTunnelRegistry \<and> mt_active_control (sv_metrics (sys_server s)) = 0"
proof -
  obtain s where s: "reachable limit_cfg demo_deps s" "sys_sessions s = (\<lambda>_. None)"
    "lim_leases (sv_limiter (sys_server s)) \<noteq> []"
    using demo_drained by blast
  have d: "dom (sys_sessions s) = {}" using s(2) by simp
  from nothing_leaks [OF s(1)] have "dom (sys_sessions s) = {} \<longrightarrow> sv_registry (sys_server s) = NewTunnelRegistry"
    "mt_active_control (sv_metrics (sys_server s)) = int (card (dom (sys_sessions s)))" by blast+
  with d s show ?thesis by auto
qed

end
