(* ===== verification/ClientProxy.thy ===== *)
theory ClientProxy
  imports GoHttp
begin

text \<open>
  The data path of the client: \<open>internal/client/http_hostheader.go\<close>, \<open>http_capture.go\<close>
  and \<open>proxyBidirectional\<close> of \<open>tcp.go\<close>. A connection that is read is the list of what its reads
  return, bytes and how the read ended; a list that runs out is a read that blocks, and the
  reader's result is then \<open>None\<close> (the copy has not returned). A connection that is written is
  the bytes it took so far; \<open>w i\<close> tells whether the write number \<open>i\<close> fails and after how
  many bytes.
\<close>

subsection \<open>Reading and writing\<close>

datatype read_end = ReadMore | ReadEOF | ReadFails go_error

type_synonym reads = "(string \<times> read_end) list"
type_synonym write_faults = "nat \<Rightarrow> (nat \<times> go_error) option"

record sink =
  sk_calls :: nat
  sk_bytes :: string

definition EOF_error :: go_error where
  "EOF_error = Msg ''EOF''"

definition new_sink :: sink where
  "new_sink = \<lparr>sk_calls = 0, sk_bytes = []\<rparr>"

definition conn_write :: "write_faults \<Rightarrow> string \<Rightarrow> sink \<Rightarrow> (int \<times> go_error option) \<times> sink" where
  "conn_write w p s =
     (case w (sk_calls s) of
        None \<Rightarrow> ((int (length p), None), \<lparr>sk_calls = Suc (sk_calls s), sk_bytes = sk_bytes s @ p\<rparr>)
      | Some (k, e) \<Rightarrow>
          ((int (length (take k p)), Some e),
           \<lparr>sk_calls = Suc (sk_calls s), sk_bytes = sk_bytes s @ take k p\<rparr>))"

fun io_copy :: "write_faults \<Rightarrow> reads \<Rightarrow> sink \<Rightarrow> ((int \<times> go_error option) \<times> sink) option" where
  "io_copy w [] s = None"
| "io_copy w ((p, e) # rs) s =
     (let ((n, werr), s') = (if p = [] then ((0, None), s) else conn_write w p s) in
      case werr of
        Some x \<Rightarrow> Some ((n, Some x), s')
      | None \<Rightarrow>
          (case e of
             ReadEOF \<Rightarrow> Some ((n, None), s')
           | ReadFails x \<Rightarrow> Some ((n, Some x), s')
           | ReadMore \<Rightarrow> map_option (\<lambda>((m, err), t). ((n + m, err), t)) (io_copy w rs s')))"

subsection \<open>The preview\<close>

record previewCapture =
  pc_limit :: int
  pc_buf :: string

definition newPreviewCapture :: "int \<Rightarrow> previewCapture" where
  "newPreviewCapture limit = \<lparr>pc_limit = (if limit < 0 then 0 else limit), pc_buf = []\<rparr>"

definition capture_write :: "string \<Rightarrow> previewCapture \<Rightarrow> previewCapture" where
  "capture_write p c =
     (if pc_limit c > 0 \<and> int (length (pc_buf c)) < pc_limit c then
        (let remaining = pc_limit c - int (length (pc_buf c)) in
         if remaining > 0 then
           (let n = int (length p); n = (if n > remaining then remaining else n)
            in c\<lparr>pc_buf := pc_buf c @ take (nat n) p\<rparr>)
         else c)
      else c)"

subsection \<open>The Host header\<close>

definition ValidateHostHeaderMode :: "string \<Rightarrow> unit result" where
  "ValidateHostHeaderMode mode =
     (let v = TrimSpace mode in
      if v = [] then Inr ()
      else if EqualFold v ''preserve'' \<or> EqualFold v ''rewrite'' then Inr ()
      else if ContainsAny v [CHR 0x0D, CHR 0x0A] then Inl (Msg ''host-header must not contain newlines'')
      else if ContainsAny v [CHR '' '', CHR 0x09] then Inl (Msg ''host-header must not contain whitespace'')
      else Inr ())"

text \<open>The value \<open>handleStream\<close> uses: nothing to preserve, the local address to rewrite.\<close>

definition effective_host :: "string \<Rightarrow> string \<Rightarrow> string" where
  "effective_host mode localAddr =
     (let hostHeader = TrimSpace mode;
          hostHeader = (if EqualFold hostHeader ''preserve'' then [] else hostHeader)
      in if EqualFold hostHeader ''rewrite'' then localAddr else hostHeader)"

definition crlf :: string where
  "crlf = [CHR 0x0D, CHR 0x0A]"

text \<open>\<open>bytes.Split\<close> at CR LF.\<close>

fun Split_crlf :: "string \<Rightarrow> string list" where
  "Split_crlf [] = [[]]"
| "Split_crlf (c # s) =
     (if c = CHR 0x0D \<and> s \<noteq> [] \<and> hd s = CHR 0x0A then [] # Split_crlf (tl s)
      else (case Split_crlf s of [] \<Rightarrow> [[c]] | l # ls \<Rightarrow> (c # l) # ls))"

definition is_host_line :: "string \<Rightarrow> bool" where
  "is_host_line line \<longleftrightarrow> HasPrefix (ToLower line) ''host:''"

definition host_line :: "string \<Rightarrow> string" where
  "host_line hostHeader = ''Host: '' @ hostHeader"

definition rewriteHostHeader :: "string \<Rightarrow> string \<Rightarrow> string" where
  "rewriteHostHeader header hostHeader =
     (let hostHeader = TrimSpace hostHeader in
      if hostHeader = [] then header
      else
        (let lines = Split_crlf (TrimSuffix header (crlf @ crlf));
             rest = filter (\<lambda>l. l \<noteq> []) (tl lines);
             out = map (\<lambda>l. if is_host_line l then host_line hostHeader else l) rest;
             added = (if list_ex is_host_line rest then [] else [host_line hostHeader])
         in concat (map (\<lambda>l. l @ crlf) (hd lines # out @ added)) @ crlf))"

definition maxHeaderBytes :: nat where
  "maxHeaderBytes = 64 * 1024"

text \<open>The reading loop; \<open>buf\<close> and \<open>tot\<close> (the total) as in the code.\<close>

fun rewrite_loop ::
  "write_faults \<Rightarrow> string \<Rightarrow> string \<Rightarrow> int \<Rightarrow> reads \<Rightarrow> previewCapture option \<Rightarrow> sink
    \<Rightarrow> ((int \<times> go_error option) \<times> previewCapture option \<times> sink) option" where
  "rewrite_loop w hostHeader buf tot [] cap s = None"
| "rewrite_loop w hostHeader buf tot ((chunk, e) # rs) cap s =
     (let tot' = tot + int (length chunk);
          cap' = (if chunk = [] then cap else map_option (capture_write chunk) cap);
          buf' = buf @ chunk;
          copy = (\<lambda>t. map_option (\<lambda>((n, err), t'). ((tot' + n, err), cap', t')) (io_copy w rs t));
          finish = (\<lambda>err. let t = (if buf' = [] then s else snd (conn_write w buf' s))
                          in Some ((tot', Some err), cap', t))
      in
      if chunk \<noteq> [] \<and> length buf' > maxHeaderBytes then
        (case conn_write w buf' s of
           ((_, Some x), t) \<Rightarrow> Some ((tot', Some x), cap', t)
         | ((_, None), t) \<Rightarrow> copy t)
      else
        (case (if chunk = [] then None else Index buf' (crlf @ crlf)) of
           Some idx \<Rightarrow>
             (let header = take (idx + 4) buf'; rest = drop (idx + 4) buf' in
              case conn_write w (rewriteHostHeader header hostHeader) s of
                ((_, Some x), t) \<Rightarrow> Some ((tot', Some x), cap', t)
              | ((_, None), t) \<Rightarrow>
                  (if rest = [] then copy t
                   else (case conn_write w rest t of
                           ((_, Some x), t') \<Rightarrow> Some ((tot', Some x), cap', t')
                         | ((_, None), t') \<Rightarrow> copy t')))
         | None \<Rightarrow>
             (case e of
                ReadMore \<Rightarrow> rewrite_loop w hostHeader buf' tot' rs cap' s
              | ReadEOF \<Rightarrow> finish EOF_error
              | ReadFails x \<Rightarrow> finish x)))"

definition copyRequestWithHostRewrite ::
  "write_faults \<Rightarrow> reads \<Rightarrow> previewCapture option \<Rightarrow> string \<Rightarrow> sink
    \<Rightarrow> ((int \<times> go_error option) \<times> previewCapture option \<times> sink) option" where
  "copyRequestWithHostRewrite w rs cap hostHeader s =
     (let hostHeader = TrimSpace hostHeader in
      if hostHeader = [] then map_option (\<lambda>(r, t). (r, cap, t)) (io_copy w rs s)
      else rewrite_loop w hostHeader [] 0 rs cap s)"

subsection \<open>Both directions\<close>

text \<open>
  The collecting loop of the two copies: it sees the context end and the two results in some
  order. The first of them sets the deadline of both connections, which makes the other copy end
  (the harness of events gives it whatever bytes it had moved by then).
\<close>

datatype copy_event = ContextDone go_error | RequestDone int "go_error option" | ResponseDone int "go_error option"

record copy_state =
  cs_in :: int
  cs_out :: int
  cs_err :: "go_error option"
  cs_deadline :: bool
  cs_received :: nat
  cs_ctx_seen :: bool

definition copy_start :: copy_state where
  "copy_start = \<lparr>cs_in = 0, cs_out = 0, cs_err = None, cs_deadline = False, cs_received = 0, cs_ctx_seen = False\<rparr>"

definition first_end :: "go_error option \<Rightarrow> copy_state \<Rightarrow> copy_state" where
  "first_end err c = (if cs_deadline c then c else c\<lparr>cs_err := err, cs_deadline := True\<rparr>)"

fun copy_event_step :: "copy_event \<Rightarrow> copy_state \<Rightarrow> copy_state" where
  "copy_event_step (ContextDone e) c =
     (if cs_ctx_seen c then c else (first_end (Some e) c)\<lparr>cs_ctx_seen := True\<rparr>)"
| "copy_event_step (RequestDone n err) c =
     first_end err (c\<lparr>cs_in := n, cs_received := cs_received c + 1\<rparr>)"
| "copy_event_step (ResponseDone n err) c =
     first_end err (c\<lparr>cs_out := n, cs_received := cs_received c + 1\<rparr>)"

fun proxy_collect :: "copy_event list \<Rightarrow> copy_state \<Rightarrow> (int \<times> int \<times> go_error option) option" where
  "proxy_collect evs c =
     (if cs_received c \<ge> 2 then Some (cs_in c, cs_out c, cs_err c)
      else (case evs of [] \<Rightarrow> None | ev # evs' \<Rightarrow> proxy_collect evs' (copy_event_step ev c)))"

declare proxy_collect.simps [simp del]

text \<open>\<open>proxyBidirectional\<close> returns at the first event.\<close>

fun proxyBidirectional :: "copy_event list \<Rightarrow> go_error option option" where
  "proxyBidirectional [] = None"
| "proxyBidirectional (ContextDone e # evs) = Some (Some e)"
| "proxyBidirectional (RequestDone n err # evs) = Some err"
| "proxyBidirectional (ResponseDone n err # evs) = Some err"

lemmas [eval_simps] =
  EOF_error_def new_sink_def conn_write_def newPreviewCapture_def capture_write_def ValidateHostHeaderMode_def
  effective_host_def crlf_def is_host_line_def host_line_def rewriteHostHeader_def copyRequestWithHostRewrite_def

subsection \<open>Finding the end of the header\<close>

lemma Index_le: "Index s sub = Some i \<Longrightarrow> i + length sub \<le> length s"
proof (induction s arbitrary: i)
  case Nil
  then show ?case by (auto split: if_splits)
next
  case (Cons c s)
  then show ?case by (auto split: if_splits dest: prefix_length_le)
qed

lemma Index_append: "Index s sub = Some i \<Longrightarrow> Index (s @ t) sub = Some i"
proof (induction s arbitrary: i)
  case Nil
  then show ?case by (cases t) (auto split: if_splits)
next
  case (Cons c s)
  show ?case
  proof (cases "prefix sub (c # s)")
    case True
    then have "prefix sub (c # s @ t)" by (metis append_Cons prefix_prefix)
    with True Cons.prems show ?thesis by simp
  next
    case False
    then obtain j where j: "i = Suc j" "Index s sub = Some j" using Cons.prems by auto
    have "\<not> prefix sub (c # s @ t)"
      using False Index_le [OF j(2)] prefix_length_prefix [of sub "c # s @ t" "c # s"] by auto
    with Cons.IH [OF j(2)] j(1) show ?thesis by simp
  qed
qed

lemma Index_append_inside:
  "Index (s @ t) sub = Some i \<Longrightarrow> i + length sub \<le> length s \<Longrightarrow> sub \<noteq> [] \<Longrightarrow> Index s sub = Some i"
proof (induction s arbitrary: i)
  case Nil
  then show ?case by simp
next
  case (Cons c s)
  show ?case
  proof (cases "prefix sub (c # s @ t)")
    case True
    then have "i = 0" using Cons.prems(1) by simp
    then have "prefix sub (c # s)"
      using True Cons.prems(2) by (metis append_Cons prefix_length_prefix prefixI add_0)
    with \<open>i = 0\<close> show ?thesis by simp
  next
    case False
    then obtain j where j: "i = Suc j" "Index (s @ t) sub = Some j" using Cons.prems(1) by auto
    have "\<not> prefix sub (c # s)" using False by (metis append_Cons prefix_append)
    moreover have "Index s sub = Some j" using Cons.IH [OF j(2)] Cons.prems j(1) by simp
    ultimately show ?thesis using j(1) by simp
  qed
qed

text \<open>A connection that delivers the chunks \<open>ps\<close> and then its end; a writer without failures.\<close>

definition orderly :: "string list \<Rightarrow> reads" where
  "orderly ps = map (\<lambda>p. (p, ReadMore)) ps @ [([], ReadEOF)]"

abbreviation no_faults :: write_faults where
  "no_faults \<equiv> \<lambda>_. None"

lemma orderly_simps [simp]:
  "orderly [] = [([], ReadEOF)]" "orderly (p # ps) = (p, ReadMore) # orderly ps"
  by (simp_all add: orderly_def)

lemma io_copy_orderly:
  "\<exists>t. io_copy no_faults (orderly ps) s = Some ((int (length (concat ps)), None), t)
     \<and> sk_bytes t = sk_bytes s @ concat ps"
proof (induction ps arbitrary: s)
  case Nil
  then show ?case by simp
next
  case (Cons p ps)
  define s' where "s' = (if p = [] then s else snd (conn_write no_faults p s))"
  obtain t where t: "io_copy no_faults (orderly ps) s' = Some ((int (length (concat ps)), None), t)"
    "sk_bytes t = sk_bytes s' @ concat ps" using Cons.IH by blast
  have "sk_bytes s' = sk_bytes s @ p" by (simp add: s'_def conn_write_def)
  with t show ?case by (auto simp: s'_def conn_write_def split: if_splits)
qed

lemma rewrite_loop_found:
  assumes "chunk \<noteq> []" and "\<not> length (buf @ chunk) > maxHeaderBytes"
    and "Index (buf @ chunk) (crlf @ crlf) = Some i"
  shows "rewrite_loop no_faults hh buf tot ((chunk, e) # rs) cap s
    = map_option (\<lambda>((n, err), t'). ((tot + int (length chunk) + n, err), map_option (capture_write chunk) cap, t'))
        (io_copy no_faults rs
          (if drop (i + 4) (buf @ chunk) = []
           then snd (conn_write no_faults (rewriteHostHeader (take (i + 4) (buf @ chunk)) hh) s)
           else snd (conn_write no_faults (drop (i + 4) (buf @ chunk))
                  (snd (conn_write no_faults (rewriteHostHeader (take (i + 4) (buf @ chunk)) hh) s)))))"
  using assms by (simp add: Let_def conn_write_def del: take_append drop_append append_is_Nil_conv drop_eq_Nil2 drop_eq_Nil)

lemma rewrite_loop_orderly:
  assumes "Index buf (crlf @ crlf) = None" and "Index (buf @ concat ps) (crlf @ crlf) = Some i"
    and "\<forall>p \<in> set ps. length p \<le> 4096" and "i + 4 + 4096 \<le> maxHeaderBytes"
  shows "\<exists>cap' t. rewrite_loop no_faults hh buf tot (orderly ps) cap s
      = Some ((tot + int (length (concat ps)), None), cap', t)
    \<and> sk_bytes t = sk_bytes s @ rewriteHostHeader (take (i + 4) (buf @ concat ps)) hh @ drop (i + 4) (buf @ concat ps)"
  using assms
proof (induction ps arbitrary: buf tot cap s)
  case Nil
  then show ?case by simp
next
  case (Cons p ps)
  let ?buf = "buf @ p" and ?cap = "if p = [] then cap else map_option (capture_write p) cap"
  have len4: "length (crlf @ crlf) = 4" "crlf @ crlf \<noteq> []" by (simp_all add: crlf_def)
  have short: "length buf < i + 4"
  proof (rule ccontr)
    assume "\<not> length buf < i + 4"
    then have "Index buf (crlf @ crlf) = Some i"
      using Index_append_inside [of buf "concat (p # ps)" "crlf @ crlf" i] Cons.prems(2) len4 by simp
    with Cons.prems(1) show False by simp
  qed
  then have fits: "\<not> length ?buf > maxHeaderBytes" using Cons.prems(3,4) by simp
  show ?case
  proof (cases "Index ?buf (crlf @ crlf)")
    case None
    have "(if p = [] then None else Index ?buf (crlf @ crlf)) = None" using None by simp
    then have "rewrite_loop no_faults hh buf tot (orderly (p # ps)) cap s
        = rewrite_loop no_faults hh ?buf (tot + int (length p)) (orderly ps) ?cap s"
      using fits by (simp add: Let_def)
    moreover have "Index (?buf @ concat ps) (crlf @ crlf) = Some i" using Cons.prems(2) by simp
    ultimately show ?thesis
      using Cons.IH [OF None, of "tot + int (length p)" ?cap s] Cons.prems(3,4) by (auto simp: add.assoc)
  next
    case (Some j)
    then have "j = i" using Index_append [OF Some, of "concat ps"] Cons.prems(2) by simp
    have "p \<noteq> []" using Some Cons.prems(1) by auto
    have in_buf: "i + 4 \<le> length ?buf" using Index_le [OF Some] \<open>j = i\<close> len4 by simp
    let ?h = "take (i + 4) ?buf" and ?r = "drop (i + 4) ?buf"
    define s1 where "s1 = snd (conn_write no_faults (rewriteHostHeader ?h hh) s)"
    define s2 where "s2 = (if ?r = [] then s1 else snd (conn_write no_faults ?r s1))"
    obtain t where t: "io_copy no_faults (orderly ps) s2 = Some ((int (length (concat ps)), None), t)"
      "sk_bytes t = sk_bytes s2 @ concat ps" using io_copy_orderly by blast
    have "sk_bytes s2 = sk_bytes s @ rewriteHostHeader ?h hh @ ?r"
      by (simp add: s1_def s2_def conn_write_def)
    moreover have "rewrite_loop no_faults hh buf tot (orderly (p # ps)) cap s
        = map_option (\<lambda>((n, err), t'). ((tot + int (length p) + n, err), map_option (capture_write p) cap, t'))
            (io_copy no_faults (orderly ps) s2)"
      using rewrite_loop_found [OF \<open>p \<noteq> []\<close> fits Some] \<open>j = i\<close> unfolding orderly_simps s1_def s2_def by blast
    then have "rewrite_loop no_faults hh buf tot (orderly (p # ps)) cap s
        = Some ((tot + int (length p) + int (length (concat ps)), None), map_option (capture_write p) cap, t)"
      using t(1) by simp
    ultimately show ?thesis using t(2) in_buf by (simp add: add.assoc)
  qed
qed

subsection \<open>Lines\<close>

lemma Split_crlf_line: "CHR 0x0D \<notin> set l \<Longrightarrow> Split_crlf l = [l]"
  by (induction l) auto

lemma Split_crlf_append: "CHR 0x0D \<notin> set l \<Longrightarrow> Split_crlf (l @ crlf @ s) = l # Split_crlf s"
  by (induction l) (auto simp: crlf_def)

fun join_lines :: "string list \<Rightarrow> string" where
  "join_lines [] = []"
| "join_lines (l # ls) = l @ crlf @ join_lines ls"

lemma join_lines_concat: "concat (map (\<lambda>l. l @ crlf) ls) = join_lines ls"
  by (induction ls) simp_all

lemma join_lines_snoc: "join_lines (ls @ [l]) = join_lines ls @ l @ crlf"
  by (induction ls) simp_all

lemma Split_crlf_lines:
  "\<forall>l \<in> set ls. CHR 0x0D \<notin> set l \<Longrightarrow> CHR 0x0D \<notin> set l' \<Longrightarrow> Split_crlf (join_lines ls @ l') = ls @ [l']"
  by (induction ls) (auto simp: Split_crlf_line Split_crlf_append)

lemma Split_crlf_block:
  assumes "\<forall>l \<in> set ls. CHR 0x0D \<notin> set l" and "ls \<noteq> []"
  shows "Split_crlf (TrimSuffix (join_lines ls @ crlf) (crlf @ crlf)) = ls"
proof -
  obtain us u where ls: "ls = us @ [u]" using assms(2) by (metis rev_exhaust)
  have "join_lines ls @ crlf = (join_lines us @ u) @ (crlf @ crlf)" by (simp add: ls join_lines_snoc)
  then have "TrimSuffix (join_lines ls @ crlf) (crlf @ crlf) = join_lines us @ u"
    by (simp only: TrimSuffix_append)
  then show ?thesis using Split_crlf_lines [of us u] assms(1) by (simp add: ls)
qed

lemma ValidateHostHeaderMode_clean:
  assumes "ValidateHostHeaderMode mode = Inr ()"
  shows "CHR 0x0D \<notin> set (TrimSpace mode) \<and> CHR 0x0A \<notin> set (TrimSpace mode)"
proof -
  have keyword: "CHR 0x0D \<notin> set v \<and> CHR 0x0A \<notin> set v" if "EqualFold v w" "\<forall>c \<in> set w. is_lower c" for v w
  proof -
    have low: "ToLower v = ToLower w" using that(1) by (simp add: EqualFold_def)
    have "c \<noteq> CHR 0x0D \<and> c \<noteq> CHR 0x0A" if "c \<in> set v" for c
    proof -
      have "lower_byte c \<in> set (ToLower w)" using that unfolding low [symmetric] by (simp add: ToLower_def)
      then obtain d where d: "d \<in> set w" "lower_byte c = lower_byte d" by (auto simp: ToLower_def)
      then have "is_lower d" using \<open>\<forall>c \<in> set w. is_lower c\<close> by blast
      then have "is_lower (lower_byte c)" using d(2) by (auto simp: lower_byte_def is_lower_def is_upper_def)
      then show ?thesis by (auto simp: lower_byte_def is_lower_def is_upper_def)
    qed
    then show ?thesis by blast
  qed
  have low: "\<forall>c \<in> set ''preserve''. is_lower c" "\<forall>c \<in> set ''rewrite''. is_lower c"
    by (simp_all add: is_lower_def)
  show ?thesis
    using assms keyword [OF _ low(1), of "TrimSpace mode"] keyword [OF _ low(2), of "TrimSpace mode"]
    by (auto simp: ValidateHostHeaderMode_def Let_def ContainsAny_def list_ex_iff split: if_splits)
qed

subsection \<open>Properties\<close>

text \<open>C18: the Host header is rewritten alike however the bytes arrive. Whatever chunks the connection
  delivers the request in (of at most 4096 bytes, the read buffer), when the header block ends
  within 64 KiB less one buffer, the upstream receives exactly the rewritten block followed by
  the rest of the bytes, and the count returned is that of the bytes read.\<close>

theorem host_rewrite_any_chunking:
  assumes "TrimSpace hh \<noteq> []" and "Index (concat ps) (crlf @ crlf) = Some i"
    and "\<forall>p \<in> set ps. length p \<le> 4096" and "i + 4 + 4096 \<le> 64 * 1024"
  shows "\<exists>cap' t. copyRequestWithHostRewrite no_faults (orderly ps) cap hh new_sink
      = Some ((int (length (concat ps)), None), cap', t)
    \<and> sk_bytes t = rewriteHostHeader (take (i + 4) (concat ps)) hh @ drop (i + 4) (concat ps)"
proof -
  have "Index [] (crlf @ crlf) = None" by (simp add: crlf_def)
  from rewrite_loop_orderly [OF this, of ps i "TrimSpace hh" 0 cap new_sink] assms obtain cap' t where
    t: "rewrite_loop no_faults (TrimSpace hh) [] 0 (orderly ps) cap new_sink
      = Some ((int (length (concat ps)), None), cap', t)"
    "sk_bytes t = rewriteHostHeader (take (i + 4) (concat ps)) (TrimSpace hh) @ drop (i + 4) (concat ps)"
    by (auto simp: maxHeaderBytes_def new_sink_def)
  have "rewriteHostHeader h (TrimSpace hh) = rewriteHostHeader h hh" for h
    by (simp add: rewriteHostHeader_def)
  with t assms(1) show ?thesis by (simp add: copyRequestWithHostRewrite_def Let_def)
qed

text \<open>rewriting touches the Host lines only and cannot inject a line. For a header block of
  non-empty lines and a validated host value, the result is a block of lines without CR again:
  the request line stays, the other lines stay in order, every Host line is the new one, and
  there is at least one.\<close>

theorem host_rewrite_lines:
  assumes "ValidateHostHeaderMode mode = Inr ()" and "TrimSpace mode = h" and "h \<noteq> []"
    and "\<forall>l \<in> set (req # ls). CHR 0x0D \<notin> set l \<and> l \<noteq> []"
  shows "\<exists>out. rewriteHostHeader (join_lines (req # ls) @ crlf) h = join_lines (req # out) @ crlf
    \<and> (\<forall>l \<in> set out. CHR 0x0D \<notin> set l)
    \<and> filter (\<lambda>l. \<not> is_host_line l) out = filter (\<lambda>l. \<not> is_host_line l) ls
    \<and> filter is_host_line out = replicate (max 1 (length (filter is_host_line ls))) (host_line h)"
proof -
  let ?f = "\<lambda>l. if is_host_line l then host_line h else l"
  let ?added = "if list_ex is_host_line ls then [] else [host_line h]"
  have trim: "TrimSpace h = h" using assms(2) by auto
  have hl: "is_host_line (host_line h)"
    by (simp add: is_host_line_def host_line_def HasPrefix_def ToLower_def eval_simps)
  have cr: "CHR 0x0D \<notin> set (host_line h)"
    using ValidateHostHeaderMode_clean [OF assms(1)] assms(2) by (simp add: host_line_def)
  have ne: "filter (\<lambda>l. l \<noteq> []) ls = ls" using assms(4) by (simp add: filter_id_conv)
  have "Split_crlf (TrimSuffix (join_lines (req # ls) @ crlf) (crlf @ crlf)) = req # ls"
    using assms(4) by (intro Split_crlf_block) auto
  then have "rewriteHostHeader (join_lines (req # ls) @ crlf) h = join_lines (req # map ?f ls @ ?added) @ crlf"
    using assms(3) ne unfolding rewriteHostHeader_def Let_def trim join_lines_concat
    by (simp only: list.sel if_False)
  moreover have "\<forall>l \<in> set (map ?f ls @ ?added). CHR 0x0D \<notin> set l" using assms(4) cr by auto
  moreover have "filter (\<lambda>l. \<not> is_host_line l) (map ?f ls) = filter (\<lambda>l. \<not> is_host_line l) ls"
    "filter is_host_line (map ?f ls) = replicate (length (filter is_host_line ls)) (host_line h)"
    using hl by (induction ls) auto
  moreover have "list_ex is_host_line ls \<longleftrightarrow> filter is_host_line ls \<noteq> []"
    by (auto simp: list_ex_iff filter_empty_conv)
  ultimately show ?thesis
    using hl by (intro exI [of _ "map ?f ls @ ?added"]) (auto simp: max_def Suc_le_eq)
qed

text \<open>the preview is the beginning of the traffic. Whatever the writes, the capture holds exactly
  the first bytes up to its limit (none for a limit that is not positive).\<close>

theorem preview_is_prefix:
  "pc_buf (fold capture_write ps (newPreviewCapture limit)) = take (nat limit) (concat ps)"
proof -
  have step: "pc_limit (fold capture_write ps c) = pc_limit c
      \<and> pc_buf (fold capture_write ps c) = take (nat (pc_limit c)) (pc_buf c @ concat ps)"
    if "length (pc_buf c) \<le> nat (pc_limit c)" for c
    using that
  proof (induction ps arbitrary: c)
    case Nil
    then show ?case by simp
  next
    case (Cons p ps)
    have lim: "pc_limit (capture_write p c) = pc_limit c"
      by (simp add: capture_write_def Let_def)
    have buf: "pc_buf (capture_write p c) = take (nat (pc_limit c)) (pc_buf c @ p)"
      using Cons.prems by (auto simp: capture_write_def Let_def nat_diff_distrib)
    have "length (pc_buf (capture_write p c)) \<le> nat (pc_limit (capture_write p c))"
      unfolding lim buf by simp
    from Cons.IH [OF this] show ?case
      unfolding lim buf by (simp add: min_def take_append)
  qed
  show ?thesis
    using step [of "newPreviewCapture limit"] by (simp add: newPreviewCapture_def)
qed

subsection \<open>Witnesses\<close>

definition demo_chunks :: "string list" where
  "demo_chunks = [''GET / HTTP/1.1'' @ crlf @ ''Ho'', ''st: a.example'' @ crlf @ [CHR 0x0D], [CHR 0x0A] @ ''body'']"

theorem host_rewrite_any_chunking_witness:
  "\<exists>cap' t. copyRequestWithHostRewrite no_faults (orderly demo_chunks) None ''localhost:3000'' new_sink
      = Some ((39, None), cap', t)
    \<and> sk_bytes t = ''GET / HTTP/1.1'' @ crlf @ ''Host: localhost:3000'' @ crlf @ crlf @ ''body''"
proof -
  have trim: "TrimSpace ''localhost:3000'' = ''localhost:3000''" by (simp add: eval_simps)
  have "length (concat demo_chunks) = 39" by (simp add: demo_chunks_def crlf_def)
  moreover have idx: "Index (concat demo_chunks) (crlf @ crlf) = Some 31"
    by (simp add: demo_chunks_def crlf_def)
  moreover have "take (31 + 4) (concat demo_chunks) = ''GET / HTTP/1.1'' @ crlf @ ''Host: a.example'' @ crlf @ crlf"
    "drop (31 + 4) (concat demo_chunks) = ''body''" by (simp_all add: demo_chunks_def crlf_def)
  moreover have "rewriteHostHeader (''GET / HTTP/1.1'' @ crlf @ ''Host: a.example'' @ crlf @ crlf) ''localhost:3000''
      = ''GET / HTTP/1.1'' @ crlf @ ''Host: localhost:3000'' @ crlf @ crlf"
  proof -
    have "Split_crlf (TrimSuffix (''GET / HTTP/1.1'' @ crlf @ ''Host: a.example'' @ crlf @ crlf) (crlf @ crlf))
        = [''GET / HTTP/1.1'', ''Host: a.example'']"
      by (simp add: crlf_def) (simp add: eval_simps)
    moreover have "is_host_line ''Host: a.example''" by (simp add: eval_simps)
    ultimately show ?thesis by (simp add: rewriteHostHeader_def trim host_line_def)
  qed
  moreover have "\<forall>p \<in> set demo_chunks. length p \<le> 4096" by (simp add: demo_chunks_def crlf_def)
  ultimately show ?thesis
    using host_rewrite_any_chunking [of "''localhost:3000''" demo_chunks 31 None] trim by auto
qed

theorem host_rewrite_lines_witness:
  "\<exists>out. rewriteHostHeader (join_lines [''GET / HTTP/1.1'', ''A: b''] @ crlf) ''my.host''
      = join_lines (''GET / HTTP/1.1'' # out) @ crlf \<and> filter is_host_line out = [''Host: my.host'']"
proof -
  have v: "TrimSpace ''my.host'' = ''my.host''" "ValidateHostHeaderMode ''my.host'' = Inr ()"
    "\<not> is_host_line ''A: b''" by (simp_all add: eval_simps)
  have "\<forall>l \<in> set [''GET / HTTP/1.1'', ''A: b'']. CHR 0x0D \<notin> set l \<and> l \<noteq> []" by simp
  from host_rewrite_lines [OF v(2,1) _ this] v(3) show ?thesis by (auto simp: host_line_def)
qed

end
