(* ===== verification/ClientTunnel.thy ===== *)
theory ClientTunnel
  imports ControlHandler ClientProxy "HOL-Library.Multiset"
begin

text \<open>
  The client's side of the control protocol: \<open>internal/client/control.go\<close>,
  \<open>control_response.go\<close>, \<open>http.go\<close> and \<open>tcp.go\<close>. A connection (the websocket and its
  session) is a number. The loops that dial, reconnect and accept may run for ever; they read a
  list of what they meet, and are \<open>None\<close> while they have not returned when the list runs out.
  Every function that opens connections also tells which ones it closed. Times are nanoseconds.
\<close>

subsection \<open>Dialling with retries (control.go)\<close>

record dial_config =
  dc_min_delay :: int
  dc_max_delay :: int

text \<open>One round: the outcome of the dial, the context's error after it, and the context's error if
  it ended during the wait.\<close>

record dial_round =
  dr_result :: "nat result"
  dr_ctx :: "go_error option"
  dr_wait :: "go_error option"

definition milliseconds :: "int \<Rightarrow> int" where
  "milliseconds n = n * 1000000"

fun dial_loop :: "int \<Rightarrow> int \<Rightarrow> dial_round list \<Rightarrow> (nat result \<times> int list) option" where
  "dial_loop maxDelay delay [] = None"
| "dial_loop maxDelay delay (r # rs) =
     (case dr_result r of
        Inr c \<Rightarrow> Some (Inr c, [])
      | Inl _ \<Rightarrow>
          (case dr_ctx r of
             Some e \<Rightarrow> Some (Inl e, [])
           | None \<Rightarrow>
               (case dr_wait r of
                  Some e \<Rightarrow> Some (Inl e, [delay])
                | None \<Rightarrow>
                    (let delay' = delay * 2; delay' = (if delay' > maxDelay then maxDelay else delay') in
                     map_option (\<lambda>(res, ds). (res, delay # ds)) (dial_loop maxDelay delay' rs)))))"

definition dialControlWithRetryConfig :: "dial_config \<Rightarrow> dial_round list \<Rightarrow> (nat result \<times> int list) option" where
  "dialControlWithRetryConfig cfg rs =
     (let minD = (if dc_min_delay cfg \<le> 0 then milliseconds 250 else dc_min_delay cfg);
          maxD = (if dc_max_delay cfg \<le> 0 then milliseconds 5000 else dc_max_delay cfg)
      in dial_loop maxD minD rs)"

definition dialControlWithRetry :: "dial_round list \<Rightarrow> (nat result \<times> int list) option" where
  "dialControlWithRetry rs =
     dialControlWithRetryConfig \<lparr>dc_min_delay = milliseconds 250, dc_max_delay = milliseconds 5000\<rparr> rs"

text \<open>\<open>QuietYamuxConfig\<close> of \<open>internal/mux\<close>, which both ends give their sessions: what it sets in
  the library's configuration, whose default is an argument.\<close>

datatype yamux_writer = Discard | OtherWriter nat

record yamux_config =
  ymx_enable_keep_alive :: bool
  ymx_keep_alive_interval :: int
  ymx_log_output :: yamux_writer
  ymx_logger :: "nat option"

definition QuietYamuxConfig :: "'a yamux_config_scheme \<Rightarrow> 'a yamux_config_scheme" where
  "QuietYamuxConfig cfg =
     cfg\<lparr>ymx_enable_keep_alive := True, ymx_keep_alive_interval := milliseconds 25000,
       ymx_log_output := Discard, ymx_logger := None\<rparr>"

text \<open>\<open>dialControl\<close>: the websocket, then the session over it; which websocket is closed.\<close>

definition dialControl :: "nat result \<Rightarrow> unit result \<Rightarrow> nat result \<times> nat list" where
  "dialControl ws session =
     (case ws of
        Inl e \<Rightarrow> (Inl e, [])
      | Inr c \<Rightarrow> (case session of Inl e \<Rightarrow> (Inl e, [c]) | Inr _ \<Rightarrow> (Inr c, [])))"

subsection \<open>Reading a reply (control_response.go)\<close>

datatype 'a payload = NoPayload | BadPayload go_error | Payload 'a

definition readJSONControlResponse :: "'a payload \<Rightarrow> go_error option \<Rightarrow> 'a result" where
  "readJSONControlResponse p readErr =
     (case p of
        NoPayload \<Rightarrow> Inl (case readErr of Some e \<Rightarrow> e | None \<Rightarrow> EOF_error)
      | BadPayload err \<Rightarrow> Inl (case readErr of Some e \<Rightarrow> e | None \<Rightarrow> err)
      | Payload r \<Rightarrow> Inr r)"

subsection \<open>Creating a tunnel\<close>

text \<open>What an attempt meets: the dial (already with its retries), opening the control stream,
  writing the request and reading the reply.\<close>

record 'a attempt =
  at_dial :: "nat result"
  at_open :: "unit result"
  at_write :: "unit result"
  at_reply :: "'a payload"
  at_read :: "go_error option"

definition exchange :: "'a attempt \<Rightarrow> (nat \<times> 'a) result \<times> nat list" where
  "exchange a =
     (case at_dial a of
        Inl e \<Rightarrow> (Inl e, [])
      | Inr c \<Rightarrow>
          (case at_open a of
             Inl e \<Rightarrow> (Inl e, [c])
           | Inr _ \<Rightarrow>
               (case at_write a of
                  Inl e \<Rightarrow> (Inl e, [c])
                | Inr _ \<Rightarrow>
                    (case readJSONControlResponse (at_reply a) (at_read a) of
                       Inl e \<Rightarrow> (Inl e, [c])
                     | Inr resp \<Rightarrow> (Inr (c, resp), [])))))"

definition createHTTPTunnel :: "create_http_response attempt \<Rightarrow> (nat \<times> create_http_response) result \<times> nat list" where
  "createHTTPTunnel a =
     (case exchange a of
        (Inl e, cl) \<Rightarrow> (Inl e, cl)
      | (Inr (c, resp), cl) \<Rightarrow>
          if http_resp_error resp \<noteq> [] then (Inl (Msg (http_resp_error resp)), cl @ [c])
          else if http_resp_id resp = [] \<or> http_resp_url resp = []
          then (Inl (Msg ''invalid server response''), cl @ [c])
          else (Inr (c, resp), cl))"

definition createTCPTunnel :: "create_tcp_response attempt \<Rightarrow> (nat \<times> create_tcp_response) result \<times> nat list" where
  "createTCPTunnel a =
     (case exchange a of
        (Inl e, cl) \<Rightarrow> (Inl e, cl)
      | (Inr (c, resp), cl) \<Rightarrow>
          if tcp_resp_error resp \<noteq> [] then (Inl (Msg (tcp_resp_error resp)), cl @ [c])
          else (Inr (c, resp), cl))"

subsection \<open>The tunnels\<close>

record client_header =
  ch_name :: string
  ch_value :: string

record http_tunnel_opts =
  ho_authtoken :: string
  ho_subdomain :: string
  ho_domain :: string
  ho_basic_auth :: string
  ho_allow_methods :: "string list"
  ho_allow_paths :: "string list"
  ho_allow_path_prefixes :: "string list"
  ho_allow_cidrs :: "string list"
  ho_deny_cidrs :: "string list"
  ho_request_header_add :: "client_header list"
  ho_request_header_remove :: "string list"
  ho_response_header_add :: "client_header list"
  ho_response_header_remove :: "string list"
  ho_host_header :: string
  ho_upstream_scheme :: string
  ho_upstream_tls_skip_verify :: bool
  ho_capture_bytes :: int

record http_tunnel =
  ht_id :: string
  ht_url :: string
  ht_local_addr :: string
  ht_opts :: http_tunnel_opts
  ht_upstream_scheme :: string
  ht_capture_bytes :: int
  ht_conn :: nat

record tcp_tunnel =
  tt_remote_port :: int
  tt_local_addr :: string
  tt_authtoken :: string
  tt_conn :: nat

definition toControlHeaderKVs :: "client_header list \<Rightarrow> header_kv list" where
  "toControlHeaderKVs values = map (\<lambda>kv. \<lparr>kv_name = ch_name kv, kv_value = ch_value kv\<rparr>) values"

text \<open>The request of an options record; \<open>StartHTTPTunnelWithOptions\<close> sends it as it is.\<close>

definition control_request :: "http_tunnel_opts \<Rightarrow> create_http_request" where
  "control_request o1 =
     \<lparr>http_type = ''http'', http_authtoken = ho_authtoken o1, http_subdomain = ho_subdomain o1,
      http_domain = ho_domain o1, http_basic_auth = ho_basic_auth o1,
      http_allow_method = ho_allow_methods o1, http_allow_path = ho_allow_paths o1,
      http_allow_path_prefix = ho_allow_path_prefixes o1, http_allow_cidr = ho_allow_cidrs o1,
      http_deny_cidr = ho_deny_cidrs o1,
      http_request_header_add = toControlHeaderKVs (ho_request_header_add o1),
      http_request_header_remove = ho_request_header_remove o1,
      http_response_header_add = toControlHeaderKVs (ho_response_header_add o1),
      http_response_header_remove = ho_response_header_remove o1\<rparr>"

definition hostFromURL :: "string \<Rightarrow> string" where
  "hostFromURL raw =
     (let raw = TrimSpace raw in
      if raw = [] then []
      else (case url_Parse raw of
              Some u \<Rightarrow> if u_host u \<noteq> [] then u_host u else raw
            | None \<Rightarrow> raw))"

definition controlRequestForReconnect :: "http_tunnel \<Rightarrow> create_http_request" where
  "controlRequestForReconnect t =
     (let req = control_request (ht_opts t) in
      if TrimSpace (http_domain req) = [] \<and> TrimSpace (http_subdomain req) = []
      then req\<lparr>http_domain := hostFromURL (ht_url t)\<rparr> else req)"

text \<open>\<open>server\<close>: what an attempt with a request meets.\<close>

definition StartHTTPTunnelWithOptions ::
  "(create_http_request \<Rightarrow> create_http_response attempt) \<Rightarrow> string \<Rightarrow> http_tunnel_opts
    \<Rightarrow> http_tunnel result \<times> nat list" where
  "StartHTTPTunnelWithOptions server localAddr o1 =
     (case ValidateHostHeaderMode (ho_host_header o1) of
        Inl e \<Rightarrow> (Inl e, [])
      | Inr _ \<Rightarrow>
          (let upstreamScheme = ToLower (TrimSpace (ho_upstream_scheme o1));
               upstreamScheme = (if upstreamScheme = [] then ''http'' else upstreamScheme)
           in if upstreamScheme \<noteq> ''http'' \<and> upstreamScheme \<noteq> ''https''
              then (Inl (Msg ''unsupported upstream scheme''), [])
              else
                (case createHTTPTunnel (server (control_request o1)) of
                   (Inl e, cl) \<Rightarrow> (Inl e, cl)
                 | (Inr (c, resp), cl) \<Rightarrow>
                     (Inr \<lparr>ht_id = http_resp_id resp, ht_url = http_resp_url resp,
                           ht_local_addr = localAddr, ht_opts = o1, ht_upstream_scheme = upstreamScheme,
                           ht_capture_bytes = (if ho_capture_bytes o1 > 0 then ho_capture_bytes o1 else 64 * 1024),
                           ht_conn = c\<rparr>, cl))))"

definition StartTCPTunnelWithOptions ::
  "(create_tcp_request \<Rightarrow> create_tcp_response attempt) \<Rightarrow> string \<Rightarrow> string \<Rightarrow> int
    \<Rightarrow> tcp_tunnel result \<times> nat list" where
  "StartTCPTunnelWithOptions server localAddr authtoken remotePort =
     (case createTCPTunnel (server \<lparr>tcp_type = ''tcp'', tcp_authtoken = authtoken, tcp_remote_port = remotePort\<rparr>) of
        (Inl e, cl) \<Rightarrow> (Inl e, cl)
      | (Inr (c, resp), cl) \<Rightarrow>
          (Inr \<lparr>tt_remote_port = tcp_resp_remote_port resp, tt_local_addr = localAddr,
                tt_authtoken = authtoken, tt_conn = c\<rparr>, cl))"

subsection \<open>Reconnecting\<close>

definition isRetryableControlError :: "go_error \<Rightarrow> bool" where
  "isRetryableControlError e =
     (case e of
        Msg s \<Rightarrow> ToLower (TrimSpace s) \<in> set [''too many active tunnels'', ''rate limit exceeded'']
      | _ \<Rightarrow> False)"

definition isRetryableTCPControlError :: "go_error \<Rightarrow> bool" where
  "isRetryableTCPControlError e =
     (case e of
        Msg s \<Rightarrow> ToLower (TrimSpace s) \<in> set [''requested port unavailable'', ''too many active tunnels'', ''rate limit exceeded'']
      | _ \<Rightarrow> False)"

text \<open>One round of a reconnect loop: whether the tunnel is closing and the context's error before
  the attempt and after it, the attempt, and the context's error if it ended during the wait.\<close>

record 'a round =
  rd_closing :: bool
  rd_ctx :: "go_error option"
  rd_attempt :: "'a attempt"
  rd_closing_after :: bool
  rd_ctx_after :: "go_error option"
  rd_wait :: "go_error option"

record reconnected =
  rc_result :: "go_error option"
  rc_conn :: nat
  rc_closed :: "nat list"
  rc_delays :: "int list"

text \<open>
  The loop of \<open>HTTPTunnel.reconnect\<close> and \<open>TCPTunnel.reconnect\<close>, which differ in how a
  tunnel is created, which errors are tried again and what the new tunnel must agree with.
  \<open>conn\<close> is the current connection, \<open>shut\<close> and \<open>delays\<close> what was done so far.
\<close>

fun reconnect_loop ::
  "('a attempt \<Rightarrow> (nat \<times> 'a) result \<times> nat list) \<Rightarrow> (go_error \<Rightarrow> bool) \<Rightarrow> ('a \<Rightarrow> bool) \<Rightarrow> int \<Rightarrow> nat
    \<Rightarrow> nat list \<Rightarrow> int list \<Rightarrow> 'a round list \<Rightarrow> reconnected option" where
  "reconnect_loop create retryable same delay conn shut delays [] = None"
| "reconnect_loop create retryable same delay conn shut delays (r # rs) =
     (if rd_closing r \<or> rd_ctx r \<noteq> None then
        Some \<lparr>rc_result = rd_ctx r, rc_conn = conn, rc_closed = shut, rc_delays = delays\<rparr>
      else
        (case create (rd_attempt r) of
           (Inr (c, resp), cl) \<Rightarrow>
             if rd_closing_after r \<or> rd_ctx_after r \<noteq> None then
               Some \<lparr>rc_result = rd_ctx_after r, rc_conn = conn, rc_closed = shut @ cl @ [c], rc_delays = delays\<rparr>
             else if \<not> same resp then
               Some \<lparr>rc_result = Some (Msg ''resume mismatch''), rc_conn = conn,
                     rc_closed = shut @ cl @ [c], rc_delays = delays\<rparr>
             else
               Some \<lparr>rc_result = None, rc_conn = c, rc_closed = shut @ cl @ [conn], rc_delays = delays\<rparr>
         | (Inl e, cl) \<Rightarrow>
             if retryable e then
               (case rd_wait r of
                  Some x \<Rightarrow>
                    Some \<lparr>rc_result = Some x, rc_conn = conn, rc_closed = shut @ cl, rc_delays = delays @ [delay]\<rparr>
                | None \<Rightarrow>
                    (let delay' = delay * 2;
                         delay' = (if delay' > milliseconds 5000 then milliseconds 5000 else delay')
                     in reconnect_loop create retryable same delay' conn (shut @ cl) (delays @ [delay]) rs))
             else Some \<lparr>rc_result = Some e, rc_conn = conn, rc_closed = shut @ cl, rc_delays = delays\<rparr>))"

definition reconnect_http :: "http_tunnel \<Rightarrow> create_http_response round list \<Rightarrow> reconnected option" where
  "reconnect_http t rs =
     reconnect_loop createHTTPTunnel isRetryableControlError
       (\<lambda>resp. \<not> (http_resp_id resp \<noteq> ht_id t \<or> http_resp_url resp \<noteq> ht_url t))
       (milliseconds 250) (ht_conn t) [] [] rs"

definition reconnect_tcp :: "tcp_tunnel \<Rightarrow> create_tcp_response round list \<Rightarrow> reconnected option" where
  "reconnect_tcp t rs =
     reconnect_loop createTCPTunnel isRetryableTCPControlError
       (\<lambda>resp. \<not> tcp_resp_remote_port resp \<noteq> tt_remote_port t)
       (milliseconds 250) (tt_conn t) [] [] rs"

subsection \<open>Accepting streams\<close>

text \<open>An accept gives a stream, which is handled on its own, or fails; a failure of a tunnel that is
  not closing leads to a reconnect with the rounds of the event. \<open>done\<close> is the channel of one
  place: a second value is dropped.\<close>

datatype 'a accept_event =
    StreamAccepted
  | AcceptFails bool "go_error option" "'a round list"

definition finish :: "go_error option \<Rightarrow> go_error option option \<Rightarrow> go_error option option" where
  "finish err ch = (case ch of None \<Rightarrow> Some err | Some x \<Rightarrow> Some x)"

fun accept_http :: "http_tunnel \<Rightarrow> nat \<Rightarrow> create_http_response accept_event list
    \<Rightarrow> (go_error option \<times> http_tunnel \<times> nat) option" where
  "accept_http t n [] = None"
| "accept_http t n (StreamAccepted # evs) = accept_http t (Suc n) evs"
| "accept_http t n (AcceptFails closing ctx rs # evs) =
     (if closing \<or> ctx \<noteq> None then Some (ctx, t, n)
      else
        (case reconnect_http t rs of
           None \<Rightarrow> None
         | Some rc \<Rightarrow>
             (case rc_result rc of
                Some e \<Rightarrow> Some (Some e, t, n)
              | None \<Rightarrow> accept_http (t\<lparr>ht_conn := rc_conn rc\<rparr>) n evs)))"

fun accept_tcp :: "tcp_tunnel \<Rightarrow> nat \<Rightarrow> create_tcp_response accept_event list
    \<Rightarrow> (go_error option \<times> tcp_tunnel \<times> nat) option" where
  "accept_tcp t n [] = None"
| "accept_tcp t n (StreamAccepted # evs) = accept_tcp t (Suc n) evs"
| "accept_tcp t n (AcceptFails closing ctx rs # evs) =
     (if closing \<or> ctx \<noteq> None then Some (ctx, t, n)
      else
        (case reconnect_tcp t rs of
           None \<Rightarrow> None
         | Some rc \<Rightarrow>
             (case rc_result rc of
                Some e \<Rightarrow> Some (Some e, t, n)
              | None \<Rightarrow> accept_tcp (t\<lparr>tt_conn := rc_conn rc\<rparr>) n evs)))"

definition RemoteAddr :: "tcp_tunnel \<Rightarrow> string \<Rightarrow> string" where
  "RemoteAddr t serverHost = serverHost @ '':'' @ Itoa (tt_remote_port t)"

subsection \<open>Streams\<close>

text \<open>\<open>dialHTTPUpstream\<close>: the dial, and for https the handshake with the name of the host.\<close>

definition dialHTTPUpstream ::
  "unit result \<Rightarrow> (string \<Rightarrow> bool \<Rightarrow> unit result) \<Rightarrow> string \<Rightarrow> string \<Rightarrow> bool \<Rightarrow> bool result" where
  "dialHTTPUpstream dial handshake scheme addr tlsSkipVerify =
     (case dial of
        Inl e \<Rightarrow> Inl e
      | Inr _ \<Rightarrow>
          if scheme \<noteq> ''https'' then Inr False
          else
            (case SplitHostPort addr of
               None \<Rightarrow> Inl (Msg ''missing port in address'')
             | Some (host, _) \<Rightarrow>
                 (case handshake host tlsSkipVerify of Inl e \<Rightarrow> Inl e | Inr _ \<Rightarrow> Inr True)))"


lemmas [eval_simps] =
  milliseconds_def dialControlWithRetryConfig_def dialControlWithRetry_def dialControl_def
  readJSONControlResponse_def exchange_def createHTTPTunnel_def createTCPTunnel_def
  toControlHeaderKVs_def control_request_def hostFromURL_def controlRequestForReconnect_def
  StartHTTPTunnelWithOptions_def StartTCPTunnelWithOptions_def isRetryableControlError_def
  isRetryableTCPControlError_def reconnect_http_def reconnect_tcp_def finish_def RemoteAddr_def
  dialHTTPUpstream_def

subsection \<open>What is opened is held or closed\<close>

text \<open>The connection an attempt opened, if any, those of a list of attempts, and which attempts a
  reconnect makes of the rounds before it: it goes on to the next round exactly after an error to be
  tried again and a wait that was not cut short.\<close>

definition opened :: "'a attempt \<Rightarrow> nat list" where
  "opened a = (case at_dial a of Inl _ \<Rightarrow> [] | Inr c \<Rightarrow> [c])"

definition all_opened :: "'a attempt list \<Rightarrow> nat list" where
  "all_opened as = concat (map opened as)"

definition tried_again ::
  "('a attempt \<Rightarrow> (nat \<times> 'a) result \<times> nat list) \<Rightarrow> (go_error \<Rightarrow> bool) \<Rightarrow> 'a round \<Rightarrow> bool" where
  "tried_again create retryable r \<longleftrightarrow>
     rd_wait r = None \<and> (case fst (create (rd_attempt r)) of Inl e \<Rightarrow> retryable e | Inr _ \<Rightarrow> False)"

fun attempts_made ::
  "('a attempt \<Rightarrow> (nat \<times> 'a) result \<times> nat list) \<Rightarrow> (go_error \<Rightarrow> bool) \<Rightarrow> 'a round list \<Rightarrow> 'a attempt list" where
  "attempts_made create retryable [] = []"
| "attempts_made create retryable (r # rs) =
     (if rd_closing r \<or> rd_ctx r \<noteq> None then []
      else rd_attempt r # (if tried_again create retryable r then attempts_made create retryable rs else []))"

text \<open>The delay before the \<open>k\<close>-th repetition: doubled each time, up to a limit.\<close>

definition backoff :: "int \<Rightarrow> int \<Rightarrow> nat \<Rightarrow> int" where
  "backoff minD maxD k = (if k = 0 then minD else min maxD (minD * 2 ^ k))"

lemma backoff_Suc:
  "0 \<le> maxD \<Longrightarrow> backoff minD maxD (Suc k)
     = (if backoff minD maxD k * 2 > maxD then maxD else backoff minD maxD k * 2)"
  by (auto simp: backoff_def min_def)

lemma backoff_list:
  "backoff a m k # map (backoff a m) [Suc k..<Suc k + n] = map (backoff a m) [k..<Suc (k + n)]"
  by (simp add: upt_conv_Cons del: upt_Suc)

lemma backoff_snoc:
  "k \<le> n \<Longrightarrow> map (backoff a m) [k..<Suc n] = map (backoff a m) [k..<n] @ [backoff a m n]"
  by simp

text \<open>What the reconnect loop relies on: creating a tunnel leaves the new connection open on
  success and closes it on failure.\<close>

locale tunnel_client =
  fixes create :: "'a attempt \<Rightarrow> (nat \<times> 'a) result \<times> nat list"
  assumes create_ok: "create a = (Inr (c, resp), cl) \<Longrightarrow> opened a = [c] \<and> cl = []"
    and create_fails: "create a = (Inl e, cl) \<Longrightarrow> cl = opened a"
begin

lemma reconnect_conserves:
  assumes "reconnect_loop create retryable same delay conn shut delays rs = Some rc"
  shows "mset (rc_conn rc # rc_closed rc) = mset (conn # shut @ all_opened (attempts_made create retryable rs))"
  using assms
proof (induction rs arbitrary: delay shut delays)
  case Nil
  then show ?case by simp
next
  case (Cons r rs)
  show ?case
  proof (cases "rd_closing r \<or> rd_ctx r \<noteq> None")
    case True
    with Cons.prems show ?thesis by (auto simp: all_opened_def)
  next
    case go: False
    obtain res cl where cr: "create (rd_attempt r) = (res, cl)" by fastforce
    show ?thesis
    proof (cases res)
      case (Inr p)
      obtain c resp where "p = (c, resp)" by fastforce
      with Inr cr have cr: "create (rd_attempt r) = (Inr (c, resp), cl)" by simp
      from create_ok [OF cr] have o: "opened (rd_attempt r) = [c]" "cl = []" by auto
      have "mset (c # shut @ [conn]) = mset (conn # shut @ [c])" by (simp add: add_mset_commute)
      with Cons.prems go cr o show ?thesis
        by (auto simp: all_opened_def tried_again_def split: if_splits)
    next
      case (Inl e)
      with cr have cr: "create (rd_attempt r) = (Inl e, cl)" by simp
      from create_fails [OF cr] have cl: "cl = opened (rd_attempt r)" .
      show ?thesis
      proof (cases "retryable e \<and> rd_wait r = None")
        case True
        with Cons.prems go cr obtain d' where
          "reconnect_loop create retryable same d' conn (shut @ cl) (delays @ [delay]) rs = Some rc"
          by (auto simp: Let_def split: if_splits)
        from Cons.IH [OF this] go cr True show ?thesis by (simp add: all_opened_def tried_again_def cl)
      next
        case False
        with Cons.prems go cr cl show ?thesis
          by (auto simp: all_opened_def tried_again_def split: if_splits option.splits)
      qed
    qed
  qed
qed

text \<open>A loop that reports success while the tunnel stays open has switched to a new connection
  whose reply agrees with the tunnel; any other end keeps the old one.\<close>

lemma reconnect_switches:
  assumes "reconnect_loop create retryable same delay conn shut delays rs = Some rc"
  shows "(\<exists>r\<in>set rs. \<exists>c resp. create (rd_attempt r) = (Inr (c, resp), []) \<and> same resp
            \<and> rc_result rc = None \<and> rc_conn rc = c \<and> conn \<in> set (rc_closed rc))
       \<or> (rc_conn rc = conn
            \<and> (rc_result rc = None \<longrightarrow> (\<exists>r\<in>set rs. rd_closing r \<or> rd_closing_after r)))"
  using assms
proof (induction rs arbitrary: delay shut delays)
  case Nil
  then show ?case by simp
next
  case (Cons r rs)
  obtain res cl where cr: "create (rd_attempt r) = (res, cl)" by fastforce
  show ?case
  proof (cases "rd_closing r \<or> rd_ctx r \<noteq> None")
    case True
    with Cons.prems show ?thesis by auto
  next
    case go: False
    show ?thesis
    proof (cases res)
      case (Inr p)
      obtain c resp where "p = (c, resp)" by fastforce
      with Inr cr have cr: "create (rd_attempt r) = (Inr (c, resp), cl)" by simp
      with create_ok [OF cr] Cons.prems go show ?thesis by (auto split: if_splits)
    next
      case (Inl e)
      with cr Cons.prems go show ?thesis
        by (auto simp: Let_def split: if_splits option.splits dest!: Cons.IH)
    qed
  qed
qed

lemma reconnect_waits:
  assumes "reconnect_loop create retryable same (backoff (milliseconds 250) (milliseconds 5000) k) conn shut
      (map (backoff (milliseconds 250) (milliseconds 5000)) [0..<k]) rs = Some rc"
  shows "rc_delays rc = map (backoff (milliseconds 250) (milliseconds 5000)) [0..<length (rc_delays rc)]"
  using assms
proof (induction rs arbitrary: k shut)
  case Nil
  then show ?case by simp
next
  case (Cons r rs)
  let ?b = "backoff (milliseconds 250) (milliseconds 5000)"
  obtain res cl where cr: "create (rd_attempt r) = (res, cl)" by fastforce
  have more: "map ?b [0..<k] @ [?b k] = map ?b [0..<Suc k]" by simp
  show ?case
  proof (cases "\<exists>e. \<not> (rd_closing r \<or> rd_ctx r \<noteq> None) \<and> res = Inl e \<and> retryable e \<and> rd_wait r = None")
    case True
    moreover have "?b (Suc k) = (if ?b k * 2 > milliseconds 5000 then milliseconds 5000 else ?b k * 2)"
      by (rule backoff_Suc) (simp add: milliseconds_def)
    ultimately have "reconnect_loop create retryable same (?b (Suc k)) conn (shut @ cl) (map ?b [0..<Suc k]) rs = Some rc"
      using Cons.prems cr more by (auto simp: Let_def)
    then show ?thesis by (rule Cons.IH)
  next
    case False
    then have "rc_delays rc = map ?b [0..<k] \<or> rc_delays rc = map ?b [0..<Suc k]"
      using Cons.prems cr more by (auto split: if_splits option.splits sum.splits prod.splits simp del: upt_Suc)
    then show ?thesis by (auto simp del: upt_Suc)
  qed
qed

end

lemma exchange_ok: "exchange a = (Inr (c, resp), cl) \<Longrightarrow> opened a = [c] \<and> cl = []"
  by (auto simp: exchange_def opened_def split: sum.splits)

lemma exchange_fails: "exchange a = (Inl e, cl) \<Longrightarrow> cl = opened a"
  by (auto simp: exchange_def opened_def split: sum.splits)

interpretation http_client: tunnel_client createHTTPTunnel
  by unfold_locales
    (auto simp: createHTTPTunnel_def split: prod.splits sum.splits if_splits
      dest: exchange_ok exchange_fails)

interpretation tcp_client: tunnel_client createTCPTunnel
  by unfold_locales
    (auto simp: createTCPTunnel_def split: prod.splits sum.splits if_splits
      dest: exchange_ok exchange_fails)


subsection \<open>Properties\<close>

lemma dial_loop_waits:
  assumes "0 < maxD"
    and "\<forall>r\<in>set fails. (\<exists>e. dr_result r = Inl e) \<and> dr_ctx r = None \<and> dr_wait r = None"
    and "dr_result good = Inr c"
  shows "dial_loop maxD (backoff minD maxD k) (fails @ good # rest)
    = Some (Inr c, map (backoff minD maxD) [k..<k + length fails])"
  using assms(2)
proof (induction fails arbitrary: k)
  case Nil
  then show ?case using assms(3) by simp
next
  case (Cons r rs)
  let ?b = "backoff minD maxD"
  have "?b (Suc k) = (if ?b k * 2 > maxD then maxD else ?b k * 2)"
    using assms(1) by (intro backoff_Suc) simp
  moreover obtain e where "dr_result r = Inl e" "dr_ctx r = None" "dr_wait r = None"
    using Cons.prems by auto
  moreover have "dial_loop maxD (?b (Suc k)) (rs @ good # rest)
      = Some (Inr c, map ?b [Suc k..<Suc k + length rs])"
    using Cons.prems by (intro Cons.IH) simp
  ultimately show ?case
    using backoff_list [of minD maxD k "length rs"] by (simp add: Let_def del: upt_Suc)
qed

text \<open>dialling waits by exponential backoff. While the context lives, the dial is repeated
  until it succeeds, whatever errors came before, and the waits in between are the configured
  minimum (250ms without one), doubled each time, never above the maximum (5s without one) from the
  second wait on.\<close>

theorem dial_backs_off:
  assumes "\<forall>r\<in>set fails. (\<exists>e. dr_result r = Inl e) \<and> dr_ctx r = None \<and> dr_wait r = None"
    and "dr_result good = Inr c"
  shows "dialControlWithRetryConfig cfg (fails @ good # rest) =
    Some (Inr c, map (\<lambda>k. if k = 0 then (if dc_min_delay cfg \<le> 0 then 250000000 else dc_min_delay cfg)
        else min (if dc_max_delay cfg \<le> 0 then 5000000000 else dc_max_delay cfg)
               ((if dc_min_delay cfg \<le> 0 then 250000000 else dc_min_delay cfg) * 2 ^ k)) [0..<length fails])"
proof -
  let ?min = "if dc_min_delay cfg \<le> 0 then milliseconds 250 else dc_min_delay cfg"
  let ?max = "if dc_max_delay cfg \<le> 0 then milliseconds 5000 else dc_max_delay cfg"
  have "0 < ?max" by (simp add: milliseconds_def)
  from dial_loop_waits [OF this assms, of ?min 0 rest]
  have "dial_loop ?max ?min (fails @ good # rest) = Some (Inr c, map (backoff ?min ?max) [0..<length fails])"
    by (simp add: backoff_def [of _ _ 0] del: upt_Suc)
  then show ?thesis
    unfolding dialControlWithRetryConfig_def Let_def by (simp add: backoff_def [abs_def] milliseconds_def)
qed

definition failed_dial :: dial_round where
  "failed_dial = \<lparr>dr_result = Inl (Msg ''connection refused''), dr_ctx = None, dr_wait = None\<rparr>"

theorem dial_backs_off_witness:
  "dialControlWithRetry (replicate 6 failed_dial @ [\<lparr>dr_result = Inr 9, dr_ctx = None, dr_wait = None\<rparr>])
    = Some (Inr 9, [250000000, 500000000, 1000000000, 2000000000, 4000000000, 5000000000])"
proof -
  let ?good = "\<lparr>dr_result = Inr 9, dr_ctx = None, dr_wait = None\<rparr> :: dial_round"
  have "\<forall>r\<in>set (replicate 6 failed_dial). (\<exists>e. dr_result r = Inl e) \<and> dr_ctx r = None \<and> dr_wait r = None"
    by (simp add: failed_dial_def)
  from dial_backs_off [OF this, of ?good 9 "\<lparr>dc_min_delay = milliseconds 250, dc_max_delay = milliseconds 5000\<rparr>" "[]"]
  show ?thesis by (simp add: dialControlWithRetry_def milliseconds_def eval_nat_numeral)
qed

text \<open>C17: reconnecting leaks no connection. When the reconnect of an HTTP tunnel returns, of the old
  connection and all the connections opened by the attempts it made (one attempt per round, up to the first that
  succeeds, fails for good, or is cut short) exactly one is still held and every other was closed
  once, however it ended: with the new connection, on a resume mismatch, because the tunnel
  was closing, or with an error. The result is success on an open tunnel only when the held one is new
  and its reply had the tunnel's id and URL; and the waits doubled from 250ms up to 5s.\<close>

theorem reconnect_keeps_one:
  assumes "reconnect_http t rs = Some rc"
  shows "mset (rc_conn rc # rc_closed rc)
        = mset (ht_conn t # all_opened (attempts_made createHTTPTunnel isRetryableControlError rs))
    \<and> (rc_result rc = None \<and> (\<forall>r\<in>set rs. \<not> rd_closing r \<and> \<not> rd_closing_after r) \<longrightarrow>
         (\<exists>r\<in>set rs. \<exists>resp. createHTTPTunnel (rd_attempt r) = (Inr (rc_conn rc, resp), [])
            \<and> http_resp_id resp = ht_id t \<and> http_resp_url resp = ht_url t) \<and> ht_conn t \<in> set (rc_closed rc))
    \<and> rc_delays rc = map (\<lambda>k. min 5000000000 (250000000 * 2 ^ k)) [0..<length (rc_delays rc)]"
proof -
  note run = assms [unfolded reconnect_http_def]
  have b0: "backoff (milliseconds 250) (milliseconds 5000) 0 = milliseconds 250" by (simp add: backoff_def)
  have b: "backoff (milliseconds 250) (milliseconds 5000) = (\<lambda>k. min 5000000000 (250000000 * 2 ^ k))"
    by (auto simp: backoff_def milliseconds_def fun_eq_iff)
  have waits: "rc_delays rc = map (\<lambda>k. min 5000000000 (250000000 * 2 ^ k)) [0..<length (rc_delays rc)]"
    using http_client.reconnect_waits [where k = 0, unfolded b0, simplified, OF run] unfolding b .
  have one: "mset (rc_conn rc # rc_closed rc)
      = mset (ht_conn t # all_opened (attempts_made createHTTPTunnel isRetryableControlError rs))"
    using http_client.reconnect_conserves [OF run] by simp
  have sw: "(\<exists>r\<in>set rs. \<exists>resp. createHTTPTunnel (rd_attempt r) = (Inr (rc_conn rc, resp), [])
            \<and> http_resp_id resp = ht_id t \<and> http_resp_url resp = ht_url t) \<and> ht_conn t \<in> set (rc_closed rc)"
    if "rc_result rc = None" "\<forall>r\<in>set rs. \<not> rd_closing r \<and> \<not> rd_closing_after r"
    using http_client.reconnect_switches [OF run] that by auto
  from one sw waits show ?thesis by blast
qed

definition demo_tunnel :: http_tunnel where
  "demo_tunnel = \<lparr>ht_id = ''abcd1234'', ht_url = ''https://abcd1234.tunnel.example.com'',
     ht_local_addr = ''127.0.0.1:3000'',
     ht_opts = \<lparr>ho_authtoken = ''ab'', ho_subdomain = [], ho_domain = [], ho_basic_auth = [],
       ho_allow_methods = [], ho_allow_paths = [], ho_allow_path_prefixes = [], ho_allow_cidrs = [],
       ho_deny_cidrs = [], ho_request_header_add = [], ho_request_header_remove = [],
       ho_response_header_add = [], ho_response_header_remove = [], ho_host_header = [],
       ho_upstream_scheme = [], ho_upstream_tls_skip_verify = False, ho_capture_bytes = 0\<rparr>,
     ht_upstream_scheme = ''http'', ht_capture_bytes = 65536, ht_conn = 1\<rparr>"

definition demo_round :: "nat \<Rightarrow> string \<Rightarrow> create_http_response round" where
  "demo_round c err = \<lparr>rd_closing = False, rd_ctx = None,
     rd_attempt = \<lparr>at_dial = Inr c, at_open = Inr (), at_write = Inr (),
       at_reply = Payload \<lparr>http_resp_type = ''http'', http_resp_id = (if err = [] then ''abcd1234'' else []),
         http_resp_url = (if err = [] then ''https://abcd1234.tunnel.example.com'' else []), http_resp_error = err\<rparr>,
       at_read = None\<rparr>,
     rd_closing_after = False, rd_ctx_after = None, rd_wait = None\<rparr>"

lemmas demo_tunnel_simps =
  reconnect_http_def createHTTPTunnel_def exchange_def readJSONControlResponse_def demo_round_def
  demo_tunnel_def milliseconds_def

lemma retryable_texts:
  "isRetryableControlError (Msg ''rate limit exceeded'')"
  "\<not> isRetryableControlError (Msg ''failed to register tunnel'')"
  by (simp_all add: eval_simps)

theorem reconnect_keeps_one_witness:
  "\<exists>rc. reconnect_http demo_tunnel [demo_round 2 ''rate limit exceeded'', demo_round 3 []] = Some rc
   \<and> mset (rc_conn rc # rc_closed rc) = {#1, 2, 3#} \<and> rc_result rc = None \<and> ht_conn demo_tunnel \<in> set (rc_closed rc)"
proof -
  note retry = retryable_texts(1)
  let ?rs = "[demo_round 2 ''rate limit exceeded'', demo_round 3 []]"
  let ?rc = "\<lparr>rc_result = None, rc_conn = 3, rc_closed = [2, 1], rc_delays = [250000000]\<rparr>"
  have run: "reconnect_http demo_tunnel ?rs = Some ?rc"
    using retry by (simp add: demo_tunnel_simps)
  have "all_opened (attempts_made createHTTPTunnel isRetryableControlError ?rs) = [2, 3]"
    using retry by (simp add: demo_tunnel_simps all_opened_def opened_def tried_again_def)
  with run reconnect_keeps_one [OF run] show ?thesis
    by (intro exI [of _ ?rc]) (simp add: demo_round_def demo_tunnel_def)
qed

end
