(* ===== verification/UrlHosts.thy ===== *)
theory UrlHosts
  imports GoUrl TunnelProxy
begin

text \<open>
  What \<open>net/url\<close> makes of the URLs the program deals with: http and https with a domain name,
  with or without a port, and no path but a slash.
\<close>

lemma domain_byte_host: "domain_byte c \<Longrightarrow> host_byte c \<and> \<not> ctl_byte c"
  by (auto simp: domain_byte_def subdomain_byte_def host_byte_def query_plain_def ctl_byte_def
      is_lower_def is_digit_def)

lemma not_domain_byte:
  "\<not> domain_byte CHR ''%''" "\<not> domain_byte CHR ''/''" "\<not> domain_byte CHR ''?''" "\<not> domain_byte CHR ''#''"
  "\<not> domain_byte CHR ''@''" "\<not> domain_byte CHR ''[''" "\<not> domain_byte CHR '':''"
  by (simp_all add: domain_byte_def subdomain_byte_def is_lower_def is_digit_def)

definition plain_authority :: "string \<Rightarrow> bool" where
  "plain_authority hp \<longleftrightarrow>
     (\<exists>h. list_all domain_byte h \<and> h \<noteq> [] \<and> (hp = h \<or> (\<exists>p. list_all is_digit p \<and> hp = h @ CHR '':'' # p)))"

lemma plain_authority_domain: "list_all domain_byte h \<Longrightarrow> h \<noteq> [] \<Longrightarrow> plain_authority h"
  by (auto simp: plain_authority_def)

lemma plain_authority_port: "list_all domain_byte h \<Longrightarrow> h \<noteq> [] \<Longrightarrow> list_all is_digit p \<Longrightarrow> plain_authority (h @ '':'' @ p)"
  by (auto simp: plain_authority_def)

lemma digit_host: "is_digit c \<Longrightarrow> host_byte c \<and> \<not> ctl_byte c \<and> domain_byte c \<and> byte c < 128"
  by (auto simp: host_byte_def query_plain_def ctl_byte_def domain_byte_def subdomain_byte_def is_digit_def)

lemma authority_chars:
  assumes "plain_authority hp" and "c \<in> set hp"
  shows "host_byte c \<and> \<not> ctl_byte c \<and> byte c < 128 \<and> graphic c \<and> c \<notin> set ''%/?#@['' "
proof -
  have "domain_byte c \<or> c = CHR '':''"
    using assms digit_host by (auto simp: plain_authority_def list_all_iff)
  then show ?thesis
  proof
    assume c: "domain_byte c"
    then have "byte c < 128" by (auto simp: domain_byte_def subdomain_byte_def is_lower_def is_digit_def)
    then show ?thesis
      using domain_byte_host [OF c] domain_byte_props [OF c] c not_domain_byte by auto
  next
    assume "c = CHR '':''"
    then show ?thesis by (simp add: host_byte_def query_plain_def ctl_byte_def graphic_def)
  qed
qed

lemma host_unescape_plain: "plain_authority hp \<Longrightarrow> host_unescape z hp = Some hp"
proof -
  assume hp: "plain_authority hp"
  have "(\<And>c. c \<in> set s \<Longrightarrow> host_byte c \<and> c \<noteq> CHR ''%'') \<Longrightarrow> host_unescape z s = Some s" for s
    by (induction s) auto
  then show ?thesis using authority_chars [OF hp] by auto
qed

lemma parseHost_plain:
  assumes "plain_authority hp"
  shows "parseHost hp = Some hp"
proof -
  obtain h where h: "list_all domain_byte h" "h \<noteq> []" and
    hp: "hp = h \<or> (\<exists>p. list_all is_digit p \<and> hp = h @ CHR '':'' # p)"
    using assms by (auto simp: plain_authority_def)
  have "CHR ''['' \<notin> set hp" using authority_chars [OF assms] by fastforce
  then have br: "\<not> HasPrefix hp ''[''" by (auto simp: HasPrefix_def prefix_def)
  have colon: "CHR '':'' \<notin> set h" using list_all_not_in [OF h(1)] not_domain_byte by blast
  from hp show ?thesis
  proof
    assume "hp = h"
    then show ?thesis
      using br colon host_unescape_plain [OF assms] by (simp add: parseHost_def iffD2 [OF cut_last_None])
  next
    assume "\<exists>p. list_all is_digit p \<and> hp = h @ CHR '':'' # p"
    then obtain p where p: "list_all is_digit p" "hp = h @ CHR '':'' # p" by blast
    then have "CHR '':'' \<notin> set p" using digit_chars(3) by blast
    then have "cut_last CHR '':'' hp = Some (h, p)" unfolding p(2) by (rule cut_last_append)
    then show ?thesis
      using br p(1) host_unescape_plain [OF assms] by (simp add: parseHost_def validOptionalPort_def)
  qed
qed

lemma parseAuthority_plain:
  assumes "plain_authority hp"
  shows "parseAuthority hp = Some (None, hp)"
proof -
  have "CHR ''@'' \<notin> set hp" using authority_chars [OF assms] by fastforce
  then have "cut_last CHR ''@'' hp = None" by (simp add: cut_last_None)
  then show ?thesis using parseHost_plain [OF assms] by (simp add: parseAuthority_def)
qed

lemma Cut_absent: "c \<notin> set s \<Longrightarrow> Cut s [c] = (s, [], False)"
  by (simp add: Cut_def iffD2 [OF Index_char_None_iff])

lemma scheme_web:
  "sch \<in> {''http'', ''https''} \<Longrightarrow> getScheme (sch @ ''://'' @ s) = Some (sch, ''//'' @ s) \<and> ToLower sch = sch"
  by (elim insertE emptyE)
    (simp_all add: getScheme_def is_letter_def is_lower_def is_upper_def is_digit_def ToLower_def lower_byte_def)

lemma url_Parse_web:
  assumes "plain_authority hp" and "sch \<in> {''http'', ''https''}" and "sl \<in> {[], ''/''}"
  shows "url_Parse (sch @ ''://'' @ hp @ sl)
    = Some (empty_url\<lparr>u_scheme := sch, u_host := hp, u_path := sl, u_raw_path := sl\<rparr>)"
proof -
  let ?s = "sch @ ''://'' @ hp @ sl"
  have no: "CHR ''#'' \<notin> set ?s" "CHR ''?'' \<notin> set (hp @ sl)" "CHR ''/'' \<notin> set hp"
    using authority_chars [OF assms(1)] assms(2,3) by auto
  have frag: "Cut ?s ''#'' = (?s, [], False)" by (rule Cut_absent [OF no(1)])
  have ctl: "\<not> list_ex ctl_byte ?s"
    using authority_chars [OF assms(1)] assms(2,3) by (auto simp: list_ex_iff ctl_byte_def)
  have "CHR ''?'' \<notin> set (''//'' @ hp @ sl)" using no(2) by simp
  then have "\<not> HasSuffix (''//'' @ hp @ sl) ''?''" "Cut (''//'' @ hp @ sl) ''?'' = (''//'' @ hp @ sl, [], False)"
    by (metis HasSuffix_conv in_set_conv_decomp, rule Cut_absent)
  then have q: "split_query (''//'' @ hp @ sl) = (''//'' @ hp @ sl, False, [])"
    unfolding split_query_def by simp
  have a: "takeWhile (\<lambda>c. c \<noteq> CHR ''/'') (hp @ sl) = hp" "dropWhile (\<lambda>c. c \<noteq> CHR ''/'') (hp @ sl) = sl"
  proof -
    have "\<And>c. c \<in> set hp \<Longrightarrow> c \<noteq> CHR ''/''" using no(3) by metis
    then have "takeWhile (\<lambda>c. c \<noteq> CHR ''/'') (hp @ sl) = hp @ takeWhile (\<lambda>c. c \<noteq> CHR ''/'') sl"
      "dropWhile (\<lambda>c. c \<noteq> CHR ''/'') (hp @ sl) = dropWhile (\<lambda>c. c \<noteq> CHR ''/'') sl"
      by (simp_all add: takeWhile_append2 dropWhile_append2)
    then show "takeWhile (\<lambda>c. c \<noteq> CHR ''/'') (hp @ sl) = hp" "dropWhile (\<lambda>c. c \<noteq> CHR ''/'') (hp @ sl) = sl"
      using assms(3) by auto
  qed
  have path: "PathUnescape sl = Some sl" using assms(3) by (auto simp: PathUnescape_def)
  have rest: "url_rest False (empty_url\<lparr>u_scheme := sch, u_force_query := False, u_raw_query := []\<rparr>) (''//'' @ hp @ sl)
      = Some (empty_url\<lparr>u_scheme := sch, u_host := hp, u_path := sl, u_raw_path := sl\<rparr>)"
    using assms(2) path
    by (auto simp: url_rest_def HasPrefix_def a parseAuthority_plain [OF assms(1)] set_path_def empty_url_def Let_def
        simp del: takeWhile_append dropWhile_append)
  have "?s \<noteq> [] \<and> ?s \<noteq> ''*''" using assms(2) by auto
  then have "url_parse False ?s = Some (empty_url\<lparr>u_scheme := sch, u_host := hp, u_path := sl, u_raw_path := sl\<rparr>)"
    unfolding url_parse_def using ctl scheme_web [OF assms(2), of "hp @ sl"] q rest by simp
  then show ?thesis unfolding url_Parse_def frag by (simp add: PathUnescape_def empty_url_def)
qed

lemma url_Parse_https:
  assumes "list_all domain_byte h" and "h \<noteq> []"
  shows "url_Parse (''https://'' @ h) = Some (empty_url\<lparr>u_scheme := ''https'', u_host := h\<rparr>)"
  using url_Parse_web [OF plain_authority_domain [OF assms], of "''https''" "[]"] by (simp add: empty_url_def)

end
