(* ===== verification/Resume.thy ===== *)
theory Resume
  imports ClientTunnel UrlHosts
begin

text \<open>
  The client and the server together: what a reconnect of the client
  (\<open>internal/client/http.go\<close>) asks for and how the server's handler
  (\<open>internal/server/control.go\<close>) answers it; and the race of \<open>Close\<close> with a
  reconnect that is switching to its new connection.
\<close>

subsection \<open>The host of a tunnel's URL\<close>

lemma hostFromURL_https:
  assumes "list_all domain_byte h" and "h \<noteq> []"
  shows "hostFromURL (''https://'' @ h) = h"
proof -
  have "list_all graphic (''https://'' @ h)"
    using domain_chars [OF assms(1)] by (simp add: graphic_def)
  from TrimSpace_graphic_list [OF this] have trim: "TrimSpace (''https://'' @ h) = ''https://'' @ h" .
  show ?thesis
    unfolding hostFromURL_def Let_def trim url_Parse_https [OF assms] using assms(2)
    by (simp add: empty_url_def)
qed

subsection \<open>Resuming\<close>

text \<open>What a request of a reconnect keeps, and the id the server reads from it.\<close>

lemma reconnect_request_same:
  "TrimSpace (ho_domain (ht_opts t)) \<noteq> [] \<or> TrimSpace (ho_subdomain (ht_opts t)) \<noteq> []
    \<Longrightarrow> controlRequestForReconnect t = control_request (ht_opts t)"
  by (auto simp: controlRequestForReconnect_def control_request_def)

lemma reconnect_request_domain:
  "TrimSpace (ho_domain (ht_opts t)) = [] \<Longrightarrow> TrimSpace (ho_subdomain (ht_opts t)) = []
    \<Longrightarrow> controlRequestForReconnect t = (control_request (ht_opts t))\<lparr>http_domain := hostFromURL (ht_url t)\<rparr>"
  by (auto simp: controlRequestForReconnect_def control_request_def)

lemma resumed_id:
  assumes "valid_label i" and "domain_name d" and "cfg_tunnel_domain cfg = d \<or> cfg_tunnel_domain cfg = d @ ''.''"
    and "ht_url t = tunnel_url cfg i"
    and "TrimSpace (ho_domain (ht_opts t)) = []" and "TrimSpace (ho_subdomain (ht_opts t)) = []"
    and "dep_reservations deps = Some rsv" and "0 < tok"
    and "claim_key (rsv_subdomain_owner rsv) (rsv_reserve_subdomain rsv) (env_others env) tok i db = (Claimed, db')"
  shows "resolve_tunnel_id cfg deps env tok (controlRequestForReconnect t) db = (Inr i, db')"
proof -
  let ?h = "i @ ''.'' @ d"
  have n: "domain_name ?h" using assms(1,2) by (rule valid_label_domain)
  then have b: "list_all domain_byte ?h" by (simp add: domain_name_def)
  have td: "TrimSuffix (cfg_tunnel_domain cfg) ''.'' = d"
    using assms(2,3) by (auto simp: domain_name_def intro: TrimSuffix_no)
  have host: "hostFromURL (ht_url t) = ?h"
    unfolding assms(4) tunnel_url_def td by (rule hostFromURL_https [OF b]) simp
  have req: "http_domain (controlRequestForReconnect t) = ?h"
    "http_subdomain (controlRequestForReconnect t) = ho_subdomain (ht_opts t)"
    unfolding reconnect_request_domain [OF assms(5,6)] host by (simp_all add: control_request_def)
  have trim: "TrimSpace ?h = ?h" by (rule TrimSpace_graphic_list) (use domain_chars(1) [OF b] in simp)
  have "\<not> Contains ?h ''://''"
    using domain_chars(3) [OF b] unfolding Contains_iff by (metis append_Cons in_set_conv_decomp)
  moreover have "tunnelIDFromHost ?h (cfg_tunnel_domain cfg) = Some i"
    by (rule host_routes_back [OF assms(1,2,3)]) simp
  ultimately have "desired_id cfg ?h (TrimSpace (ho_subdomain (ht_opts t))) = Some i"
    by (simp add: desired_id_def domain_host_def)
  then show ?thesis
    unfolding resolve_tunnel_id_def Let_def req trim using assms(6-9) by simp
qed

text \<open>A round on a live tunnel whose attempt gets connection \<open>c\<close> and a reply of the server; an
  HTTP client reads the fields it knows.\<close>

definition seen_by_http :: "create_tcp_response + create_http_response \<Rightarrow> create_http_response" where
  "seen_by_http r =
     (case r of
        Inl t \<Rightarrow>
          \<lparr>http_resp_type = tcp_resp_type t, http_resp_id = [], http_resp_url = [], http_resp_error = tcp_resp_error t\<rparr>
      | Inr h \<Rightarrow> h)"

definition answered :: "nat \<Rightarrow> (string \<Rightarrow> string) \<Rightarrow> control_reply \<Rightarrow> create_http_response round" where
  "answered c quote reply =
     \<lparr>rd_closing = False, rd_ctx = None,
      rd_attempt = \<lparr>at_dial = Inr c, at_open = Inr (), at_write = Inr (),
        at_reply = Payload (seen_by_http (reply_message quote reply)), at_read = None\<rparr>,
      rd_closing_after = False, rd_ctx_after = None, rd_wait = None\<rparr>"

lemma registered_reply:
  assumes "resolve_tunnel_id cfg deps env tok (http_request_of req) (sv_db sv) = (Inr i, db')"
    and "parse_options (http_request_of req) = Inr opts"
  shows "fst (establish_http cfg deps env conn req tok sv) =
    (if GetHTTPTunnel (sv_registry sv) i = None \<and> registry_key i \<noteq> []
     then (HttpCreated i (tunnel_url cfg i), Some (HttpTunnel i))
     else (HttpError (Msg ''failed to register tunnel''), None))"
  using assms
  by (auto simp: establish_http_def RegisterHTTPTunnel_def GetHTTPTunnel_def Let_def
      split: option.splits prod.splits sum.splits)

text \<open>C15: a dropped tunnel comes back with its id and URL. When a tunnel was opened without a name,
  its reconnect asks for the host of its URL; the server reads the tunnel's own id from that, and,
  if the token can claim the id, its options still parse and no live tunnel has the id, answers
  with the same id and URL, which the client accepts: it holds the new connection and closes the
  old one.\<close>

theorem resume_same_tunnel:
  assumes "valid_label i" and "domain_name d"
    and "cfg_tunnel_domain cfg = d \<or> cfg_tunnel_domain cfg = d @ ''.''"
    and "ht_id t = i" and "ht_url t = tunnel_url cfg i"
    and "TrimSpace (ho_domain (ht_opts t)) = []" and "TrimSpace (ho_subdomain (ht_opts t)) = []"
    and "dep_reservations deps = Some rsv" and "0 < tok"
    and "claim_key (rsv_subdomain_owner rsv) (rsv_reserve_subdomain rsv) (env_others env) tok i (sv_db sv) = (Claimed, db')"
    and "http_request_of req = controlRequestForReconnect t" and "parse_options (http_request_of req) = Inr opts"
    and "GetHTTPTunnel (sv_registry sv) i = None"
  shows "fst (fst (establish_http cfg deps env conn req tok sv)) = HttpCreated i (ht_url t)
    \<and> reconnect_http t (answered c quote (fst (fst (establish_http cfg deps env conn req tok sv))) # rs)
      = Some \<lparr>rc_result = None, rc_conn = c, rc_closed = [ht_conn t], rc_delays = []\<rparr>"
proof -
  have r: "resolve_tunnel_id cfg deps env tok (http_request_of req) (sv_db sv) = (Inr i, db')"
    unfolding assms(11) by (rule resumed_id [OF assms(1,2,3,5,6,7,8,9,10)])
  have i: "i \<noteq> []" "list_all domain_byte i"
    using assms(1) by (auto simp: valid_label_def domain_byte_def list_all_iff)
  then have "registry_key i \<noteq> []"
    using TrimSpace_graphic_list [OF domain_chars(1) [OF i(2)]] ToLower_fixed_list [OF domain_chars(2) [OF i(2)]]
    by (simp add: registry_key_def)
  with registered_reply [OF r assms(12), of conn] assms(13)
  have reply: "fst (fst (establish_http cfg deps env conn req tok sv)) = HttpCreated i (tunnel_url cfg i)" by simp
  moreover have "tunnel_url cfg i \<noteq> []" by (simp add: tunnel_url_def)
  ultimately show ?thesis
    using i assms(4,5)
    by (simp add: answered_def seen_by_http_def reconnect_http_def createHTTPTunnel_def exchange_def readJSONControlResponse_def)
qed

text \<open>a reconnect that is faster than the server's notice of the loss ends the tunnel. While the
  server still has the old session in its registry, it answers the resuming request with ``failed
  to register tunnel''; the client does not count that among the errors to try again, so it closes
  the new connection and gives the tunnel up, although the same request would succeed once the old
  session is gone.\<close>

theorem resume_while_registered:
  assumes "resolve_tunnel_id cfg deps env tok (http_request_of req) (sv_db sv) = (Inr (ht_id t), db')"
    and "parse_options (http_request_of req) = Inr opts"
    and "GetHTTPTunnel (sv_registry sv) (ht_id t) = Some e"
  shows "reconnect_http t (answered c quote (fst (fst (establish_http cfg deps env conn req tok sv))) # rs)
    = Some \<lparr>rc_result = Some (Msg ''failed to register tunnel''), rc_conn = ht_conn t, rc_closed = [c], rc_delays = []\<rparr>"
proof -
  have "fst (fst (establish_http cfg deps env conn req tok sv)) = HttpError (Msg ''failed to register tunnel'')"
    using registered_reply [OF assms(1,2), of conn] assms(3) by simp
  then show ?thesis
    using retryable_texts(2)
    by (simp add: answered_def seen_by_http_def reconnect_http_def createHTTPTunnel_def exchange_def readJSONControlResponse_def)
qed

text \<open>Concrete values: the tunnel \<open>demo_tunnel\<close> and a store that holds its token.\<close>

definition demo_resume :: base_request where
  "demo_resume = (demo_req ''http'' 0 [])\<lparr>bq_domain := ''abcd1234.tunnel.example.com''\<rparr>"

lemma demo_host: "hostFromURL (ht_url demo_tunnel) = ''abcd1234.tunnel.example.com''"
proof -
  have "list_all domain_byte ''abcd1234.tunnel.example.com''"
    by (simp add: domain_byte_def subdomain_byte_def is_lower_def is_digit_def)
  from hostFromURL_https [OF this] show ?thesis by (simp add: demo_tunnel_def)
qed

lemma demo_names:
  "valid_label ''abcd1234''" "domain_name ''tunnel.example.com''"
  "ht_url demo_tunnel = tunnel_url demo_cfg ''abcd1234''" "ht_id demo_tunnel = ''abcd1234''"
  "TrimSpace (ho_domain (ht_opts demo_tunnel)) = []" "TrimSpace (ho_subdomain (ht_opts demo_tunnel)) = []"
  by (simp_all add: valid_label_def subdomain_byte_def domain_name_def domain_byte_def is_lower_def is_digit_def
      tunnel_url_def demo_tunnel_def demo_cfg_def TrimSuffix_def HasSuffix_rev)

lemma demo_resume_request: "http_request_of demo_resume = controlRequestForReconnect demo_tunnel"
  unfolding reconnect_request_domain [OF demo_names(5,6)] demo_host
  by (simp add: demo_resume_def demo_req_def http_request_of_def control_request_def demo_tunnel_def
      toControlHeaderKVs_def)

lemma demo_resume_options: "\<exists>opts. parse_options (http_request_of demo_resume) = Inr opts"
  by (simp add: demo_resume_def parse_options_def http_request_of_def demo_req_def parseBasicAuthCredential_def
      ParseCIDRList_def ParseHTTPMethodList_def ParsePathList_def parseHeaderNameList_def parseHeaderKVList_def)

lemma demo_resume_claim:
  "\<exists>s. claim_key (rsv_subdomain_owner (auth_reservations (\<lambda>n. NoFault) (\<lambda>n. 7)))
      (rsv_reserve_subdomain (auth_reservations (\<lambda>n. NoFault) (\<lambda>n. 7))) (env_others demo_env) 1
      ''abcd1234'' (Some demo_db) = (Claimed, s)"
proof -
  have "ReservedSubdomainTokenID NoFault (Some demo_db) ''abcd1234'' = Inr None"
    "fst (ReserveSubdomain NoFault 7 (Some demo_db) 1 ''abcd1234'') = Inr ()"
    by (simp_all add: eval_simps demo_db_def)
  then obtain s where "ReserveSubdomain NoFault 7 (Some demo_db) 1 ''abcd1234'' = (Inr (), s)"
    "ReservedSubdomainTokenID NoFault (Some demo_db) ''abcd1234'' = Inr None"
    by (metis prod.collapse)
  then show ?thesis by (simp add: claim_key_def auth_reservations_def demo_env_def)
qed

theorem resume_same_tunnel_witness:
  "reconnect_http demo_tunnel (answered 2 (\<lambda>s. s)
      (fst (fst (establish_http demo_cfg demo_deps demo_env 8 demo_resume 1 (demo_server demo_db)))) # [])
    = Some \<lparr>rc_result = None, rc_conn = 2, rc_closed = [ht_conn demo_tunnel], rc_delays = []\<rparr>"
proof -
  obtain opts where o: "parse_options (http_request_of demo_resume) = Inr opts"
    using demo_resume_options by blast
  obtain s where s: "claim_key (rsv_subdomain_owner (auth_reservations (\<lambda>n. NoFault) (\<lambda>n. 7)))
      (rsv_reserve_subdomain (auth_reservations (\<lambda>n. NoFault) (\<lambda>n. 7))) (env_others demo_env) 1
      ''abcd1234'' (sv_db (demo_server demo_db)) = (Claimed, s)"
    using demo_resume_claim by (auto simp: demo_server_def)
  have td: "cfg_tunnel_domain demo_cfg = ''tunnel.example.com'' \<or> cfg_tunnel_domain demo_cfg = ''tunnel.example.com'' @ ''.''"
    by (simp add: demo_cfg_def)
  have free: "GetHTTPTunnel (sv_registry (demo_server demo_db)) ''abcd1234'' = None"
    by (simp add: GetHTTPTunnel_def demo_server_def NewTunnelRegistry_def)
  show ?thesis
    using resume_same_tunnel [OF demo_names(1,2) td demo_names(4,3,5,6) demo_reservations zero_less_one s
        demo_resume_request o free] by blast
qed

theorem resume_while_registered_witness:
  "reconnect_http demo_tunnel (answered 2 (\<lambda>s. s)
      (fst (fst (establish_http demo_cfg demo_deps demo_env 8 demo_resume 1
        ((demo_server demo_db)\<lparr>sv_registry := [''abcd1234'' \<mapsto> demo_entry]\<rparr>)))) # [])
    = Some \<lparr>rc_result = Some (Msg ''failed to register tunnel''), rc_conn = ht_conn demo_tunnel,
        rc_closed = [2], rc_delays = []\<rparr>"
proof -
  let ?sv = "(demo_server demo_db)\<lparr>sv_registry := [''abcd1234'' \<mapsto> demo_entry]\<rparr>"
  obtain opts where o: "parse_options (http_request_of demo_resume) = Inr opts"
    using demo_resume_options by blast
  obtain s where s: "claim_key (rsv_subdomain_owner (auth_reservations (\<lambda>n. NoFault) (\<lambda>n. 7)))
      (rsv_reserve_subdomain (auth_reservations (\<lambda>n. NoFault) (\<lambda>n. 7))) (env_others demo_env) 1
      ''abcd1234'' (sv_db ?sv) = (Claimed, s)"
    using demo_resume_claim by (auto simp: demo_server_def)
  have td: "cfg_tunnel_domain demo_cfg = ''tunnel.example.com'' \<or> cfg_tunnel_domain demo_cfg = ''tunnel.example.com'' @ ''.''"
    by (simp add: demo_cfg_def)
  have r: "resolve_tunnel_id demo_cfg demo_deps demo_env 1 (http_request_of demo_resume) (sv_db ?sv)
      = (Inr (ht_id demo_tunnel), s)"
    unfolding demo_resume_request demo_names(4)
    by (rule resumed_id [OF demo_names(1,2) td demo_names(3,5,6) demo_reservations zero_less_one s])
  have e: "GetHTTPTunnel (sv_registry ?sv) (ht_id demo_tunnel) = Some demo_entry"
    unfolding demo_names(4) by (simp add: GetHTTPTunnel_def eval_simps)
  show ?thesis by (rule resume_while_registered [OF r o e])
qed

subsection \<open>Closing while a reconnect switches\<close>

text \<open>
  \<open>Close\<close> (the flag, then \<open>conn()\<close>, then closing what that read) and the end of a
  reconnect (the check of the flag, \<open>setConn\<close>, closing the old connection) run in two
  goroutines. Each step is atomic; a schedule is a list of who goes next. The reconnect starts with
  its new connection just dialled.
\<close>

datatype closer = CloseStart | CloseFlagged | CloseRead nat | Closed nat

datatype switcher = Dialled nat | CheckedOpen nat | Switched nat | SwitchDone

record tunnel_life =
  tl_closing :: bool
  tl_conn :: nat
  tl_open :: "nat set"
  tl_closer :: closer
  tl_switcher :: switcher

datatype goroutine = GClose | GReconnect

definition close_step :: "tunnel_life \<Rightarrow> tunnel_life" where
  "close_step s =
     (case tl_closer s of
        CloseStart \<Rightarrow> s\<lparr>tl_closing := True, tl_closer := CloseFlagged\<rparr>
      | CloseFlagged \<Rightarrow> s\<lparr>tl_closer := CloseRead (tl_conn s)\<rparr>
      | CloseRead c \<Rightarrow> s\<lparr>tl_open := tl_open s - {c}, tl_closer := Closed c\<rparr>
      | Closed c \<Rightarrow> s)"

definition switch_step :: "tunnel_life \<Rightarrow> tunnel_life" where
  "switch_step s =
     (case tl_switcher s of
        Dialled c \<Rightarrow>
          if tl_closing s then s\<lparr>tl_open := tl_open s - {c}, tl_switcher := SwitchDone\<rparr>
          else s\<lparr>tl_switcher := CheckedOpen c\<rparr>
      | CheckedOpen c \<Rightarrow> s\<lparr>tl_conn := c, tl_switcher := Switched (tl_conn s)\<rparr>
      | Switched old \<Rightarrow> s\<lparr>tl_open := tl_open s - {old}, tl_switcher := SwitchDone\<rparr>
      | SwitchDone \<Rightarrow> s)"

fun life_step :: "goroutine \<Rightarrow> tunnel_life \<Rightarrow> tunnel_life" where
  "life_step GClose s = close_step s"
| "life_step GReconnect s = switch_step s"

definition run_schedule :: "goroutine list \<Rightarrow> tunnel_life \<Rightarrow> tunnel_life" where
  "run_schedule gs s = fold life_step gs s"

definition switching :: "nat \<Rightarrow> nat \<Rightarrow> tunnel_life" where
  "switching old new = \<lparr>tl_closing = False, tl_conn = old, tl_open = {old, new}, tl_closer = CloseStart,
     tl_switcher = Dialled new\<rparr>"

text \<open>What \<open>Close\<close> closed so far, and what the reconnect holds besides the current connection.\<close>

definition closed_by_close :: "tunnel_life \<Rightarrow> nat set" where
  "closed_by_close s = (case tl_closer s of Closed c \<Rightarrow> {c} | _ \<Rightarrow> {})"

definition held_aside :: "tunnel_life \<Rightarrow> nat set" where
  "held_aside s = (case tl_switcher s of Dialled c \<Rightarrow> {c} | CheckedOpen c \<Rightarrow> {c} | Switched old \<Rightarrow> {old} | SwitchDone \<Rightarrow> {})"

definition life_inv :: "nat \<Rightarrow> nat \<Rightarrow> tunnel_life \<Rightarrow> bool" where
  "life_inv old new s \<longleftrightarrow>
     tl_open s = insert (tl_conn s) (held_aside s) - closed_by_close s
     \<and> tl_conn s \<in> {old, new}
     \<and> (case tl_closer s of CloseStart \<Rightarrow> \<not> tl_closing s | CloseRead c \<Rightarrow> tl_closing s \<and> c \<in> {old, tl_conn s}
          | Closed c \<Rightarrow> tl_closing s \<and> c \<in> {old, tl_conn s} | CloseFlagged \<Rightarrow> tl_closing s)
     \<and> (case tl_switcher s of Dialled c \<Rightarrow> c = new \<and> tl_conn s = old | CheckedOpen c \<Rightarrow> c = new \<and> tl_conn s = old
          | Switched c \<Rightarrow> c = old \<and> tl_conn s = new | SwitchDone \<Rightarrow> True)"

lemma life_inv_start: "old \<noteq> new \<Longrightarrow> life_inv old new (switching old new)"
  by (auto simp: life_inv_def switching_def held_aside_def closed_by_close_def)

lemma life_inv_step:
  assumes "old \<noteq> new" and "life_inv old new s"
  shows "life_inv old new (life_step g s)"
proof (cases g)
  case GClose
  then show ?thesis
    using assms by (cases "tl_closer s"; cases "tl_switcher s")
      (auto simp: life_inv_def close_step_def held_aside_def closed_by_close_def)
next
  case GReconnect
  then show ?thesis
    using assms by (cases "tl_closer s"; cases "tl_switcher s")
      (auto simp: life_inv_def switch_step_def held_aside_def closed_by_close_def)
qed

lemma life_inv_run: "old \<noteq> new \<Longrightarrow> life_inv old new s \<Longrightarrow> life_inv old new (run_schedule gs s)"
  by (induction gs arbitrary: s) (auto simp: run_schedule_def life_inv_step)

lemma life_inv_final:
  assumes "old \<noteq> new" and "life_inv old new s" and "tl_closer s = Closed c" and "tl_switcher s = SwitchDone"
  shows "tl_open s = {tl_conn s} - {c} \<and> (c \<noteq> tl_conn s \<longrightarrow> c = old \<and> tl_open s = {new})"
proof -
  have "tl_open s = insert (tl_conn s) {} - {c}" "tl_conn s = old \<or> tl_conn s = new" "c = old \<or> c = tl_conn s"
    using assms(2-4) by (simp_all add: life_inv_def held_aside_def closed_by_close_def)
  then show ?thesis by auto
qed

text \<open>\<open>Close\<close> has read the old connection, and the reconnect has passed its check of the flag but not yet
  switched; and what a run that passed such a state looks like from then on.\<close>

definition crossed :: "nat \<Rightarrow> nat \<Rightarrow> tunnel_life \<Rightarrow> bool" where
  "crossed old new s \<longleftrightarrow> (tl_closer s = CloseRead old \<or> tl_closer s = Closed old) \<and> tl_switcher s = CheckedOpen new"

definition escaping :: "nat \<Rightarrow> nat \<Rightarrow> tunnel_life \<Rightarrow> bool" where
  "escaping old new s \<longleftrightarrow> (tl_closer s = CloseRead old \<or> tl_closer s = Closed old)
     \<and> (tl_switcher s = CheckedOpen new \<or> tl_conn s = new)"

lemma escaping_step:
  assumes "old \<noteq> new" and "life_inv old new s"
  shows "escaping old new (life_step g s) \<longleftrightarrow> escaping old new s \<or> crossed old new (life_step g s)"
  using assms by (cases g; cases "tl_closer s"; cases "tl_switcher s")
    (auto simp: life_inv_def close_step_def switch_step_def escaping_def crossed_def)

lemma escaping_run:
  assumes "old \<noteq> new"
  shows "escaping old new (run_schedule gs (switching old new))
    \<longleftrightarrow> (\<exists>gs1 gs2. gs = gs1 @ gs2 \<and> crossed old new (run_schedule gs1 (switching old new)))"
proof (induction gs rule: rev_induct)
  case Nil
  then show ?case by (simp add: run_schedule_def switching_def escaping_def crossed_def)
next
  case (snoc g gs)
  have "run_schedule (gs @ [g]) (switching old new) = life_step g (run_schedule gs (switching old new))"
    by (simp add: run_schedule_def)
  moreover have "(\<exists>gs1 gs2. gs @ [g] = gs1 @ gs2 \<and> P gs1) \<longleftrightarrow> (\<exists>gs1 gs2. gs = gs1 @ gs2 \<and> P gs1) \<or> P (gs @ [g])" for P
    by (metis append_Nil2 append.assoc butlast_append butlast_snoc)
  ultimately show ?case
    using snoc escaping_step [OF assms life_inv_run [OF assms life_inv_start [OF assms], of gs]] by simp
qed

text \<open>A reconnect that meets the flag gives its connection up.\<close>

definition gives_up :: "nat \<Rightarrow> tunnel_life \<Rightarrow> bool" where
  "gives_up old s \<longleftrightarrow> tl_closing s \<and> tl_conn s = old \<and> (case tl_switcher s of Dialled c \<Rightarrow> True | SwitchDone \<Rightarrow> True | _ \<Rightarrow> False)"

lemma gives_up_step: "gives_up old s \<Longrightarrow> gives_up old (life_step g s)"
  by (cases g; cases "tl_closer s"; cases "tl_switcher s")
    (auto simp: gives_up_def close_step_def switch_step_def)

lemma gives_up_run: "gives_up old s \<Longrightarrow> gives_up old (run_schedule gs s)"
  by (induction gs arbitrary: s) (auto simp: run_schedule_def gives_up_step)

lemma run_schedule_append: "run_schedule (gs1 @ gs2) s = run_schedule gs2 (run_schedule gs1 s)"
  by (simp add: run_schedule_def)

text \<open>C40: what a close that races with a reconnect leaves open. In every interleaving of the two, once
  both have finished, the tunnel is marked closed, and nothing is open but possibly its current connection, which is
  open exactly when the schedule passes through a state in which \<open>Close\<close> has read the old connection while the
  reconnect has already seen the flag unset and has not yet switched. In that case the connection \<open>Close\<close> closed is
  the old one, and the tunnel, although closed, is left with the new connection as its current and open one; in every
  other schedule all connections are closed. In particular a reconnect that has not checked the flag yet when
  \<open>Close\<close> sets it keeps the old connection as the current one and leaves nothing open.\<close>

theorem close_races_reconnect:
  assumes "old \<noteq> new" and "s = run_schedule gs (switching old new)"
    and "tl_closer s = Closed c" and "tl_switcher s = SwitchDone"
  shows "tl_closing s
    \<and> (if \<exists>gs1 gs2. gs = gs1 @ gs2 \<and> crossed old new (run_schedule gs1 (switching old new))
       then c = old \<and> tl_conn s = new \<and> tl_open s = {new}
       else c = tl_conn s \<and> tl_open s = {})
    \<and> ((\<exists>gs1 gs2 d. gs = gs1 @ gs2 \<and> tl_closing (run_schedule gs1 (switching old new))
          \<and> tl_switcher (run_schedule gs1 (switching old new)) = Dialled d)
       \<longrightarrow> tl_conn s = old \<and> tl_open s = {})"
proof -
  have inv: "life_inv old new s"
    unfolding assms(2) using life_inv_run [OF assms(1) life_inv_start [OF assms(1)]] .
  have "escaping old new s \<longleftrightarrow> c = old \<and> tl_conn s = new"
    using assms(3,4) by (auto simp: escaping_def)
  then have crossed: "(\<exists>gs1 gs2. gs = gs1 @ gs2 \<and> crossed old new (run_schedule gs1 (switching old new)))
      \<longleftrightarrow> c = old \<and> tl_conn s = new"
    using escaping_run [OF assms(1), of gs] assms(2) by simp
  have "tl_closing s" "c = old \<or> c = tl_conn s" "tl_conn s = old \<or> tl_conn s = new"
    using inv assms(3) by (simp_all add: life_inv_def)
  moreover have "tl_open s = {tl_conn s} - {c}"
    using life_inv_final [OF assms(1) inv assms(3,4)] by (rule conjunct1)
  moreover have "tl_conn s = old" if "gs = gs1 @ gs2" "tl_closing (run_schedule gs1 (switching old new))"
    "tl_switcher (run_schedule gs1 (switching old new)) = Dialled d" for gs1 gs2 d
  proof -
    have "gives_up old (run_schedule gs1 (switching old new))"
      using life_inv_run [OF assms(1) life_inv_start [OF assms(1)], of gs1] that(2,3)
      by (simp add: gives_up_def life_inv_def)
    then show ?thesis using gives_up_run [of old _ gs2] assms(2) that(1) by (auto simp: run_schedule_append gives_up_def)
  qed
  ultimately show ?thesis
    using assms(1) unfolding crossed by (cases "c = tl_conn s") auto
qed

theorem close_races_reconnect_witness:
  "tl_closing (run_schedule [GReconnect, GClose, GClose, GClose, GReconnect, GReconnect] (switching 1 2))
   \<and> tl_open (run_schedule [GReconnect, GClose, GClose, GClose, GReconnect, GReconnect] (switching 1 2)) = {2}
   \<and> tl_open (run_schedule [GClose, GReconnect, GClose, GClose] (switching 1 2)) = {}"
proof -
  let ?bad = "run_schedule [GReconnect, GClose, GClose, GClose, GReconnect, GReconnect] (switching 1 2)"
  let ?good = "run_schedule [GClose, GReconnect, GClose, GClose] (switching 1 2)"
  have bad: "tl_closer ?bad = Closed 1" "tl_switcher ?bad = SwitchDone" "tl_conn ?bad = 2"
    and good: "tl_closer ?good = Closed 1" "tl_switcher ?good = SwitchDone" "tl_conn ?good = 1"
    by (simp_all add: run_schedule_def switching_def close_step_def switch_step_def)
  have "tl_closing ?bad \<and> tl_open ?bad = {2}"
    using close_races_reconnect [OF _ refl bad(1,2)] bad(3) by (simp split: if_splits)
  moreover have "tl_open ?good = {}"
    using close_races_reconnect [OF _ refl good(1,2)] good(3) by (simp split: if_splits)
  ultimately show ?thesis by blast
qed

end
