(* ===== verification/GoJson.thy ===== *)
theory GoJson
  imports GoHttp
begin

text \<open>
  \<open>encoding/json\<close> on JSON values: maps built by assignment, and the decoding of an object
  into a struct. A struct is a list of named fields, each with how a value is put into it; its
  syntax is left to the JSON parser.
\<close>

fun map_put :: "string \<Rightarrow> json \<Rightarrow> (string \<times> json) list \<Rightarrow> (string \<times> json) list" where
  "map_put k v [] = [(k, v)]"
| "map_put k v ((k', v') # m) = (if k' = k then (k, v) # m else (k', v') # map_put k v m)"

text \<open>Decoding an object into a struct: the fields by their names regardless of case, a later
  value replaces an earlier one, null changes nothing. An unknown name is an error when the decoder
  disallows it (\<open>strict\<close>), and is skipped otherwise.\<close>

fun decode_fields :: "bool \<Rightarrow> (string \<times> (json \<Rightarrow> 'r \<Rightarrow> 'r option)) list \<Rightarrow> (string \<times> json) list \<Rightarrow> 'r \<Rightarrow> 'r option" where
  "decode_fields strict flds [] r = Some r"
| "decode_fields strict flds ((k, v) # kvs) r =
     (case find (\<lambda>f. EqualFold (fst f) k) flds of
        None \<Rightarrow> if strict then None else decode_fields strict flds kvs r
      | Some (_, put) \<Rightarrow> Option.bind (put v r) (decode_fields strict flds kvs))"

definition into_struct :: "bool \<Rightarrow> (string \<times> (json \<Rightarrow> 'r \<Rightarrow> 'r option)) list \<Rightarrow> json \<Rightarrow> 'r \<Rightarrow> 'r option" where
  "into_struct strict flds j r =
     (case j of JObj kvs \<Rightarrow> decode_fields strict flds kvs r | JNull \<Rightarrow> Some r | _ \<Rightarrow> None)"

definition decode_struct :: "bool \<Rightarrow> (string \<times> (json \<Rightarrow> 'r \<Rightarrow> 'r option)) list \<Rightarrow> 'r \<Rightarrow> json \<Rightarrow> 'r option" where
  "decode_struct strict flds zero j = into_struct strict flds j zero"

definition into_string :: "(string \<Rightarrow> 'r \<Rightarrow> 'r) \<Rightarrow> json \<Rightarrow> 'r \<Rightarrow> 'r option" where
  "into_string upd v r = (case v of JStr s \<Rightarrow> Some (upd s r) | JNull \<Rightarrow> Some r | _ \<Rightarrow> None)"

definition into_int64 :: "(int \<Rightarrow> 'r \<Rightarrow> 'r) \<Rightarrow> json \<Rightarrow> 'r \<Rightarrow> 'r option" where
  "into_int64 upd v r =
     (case v of JInt i \<Rightarrow> if int64_range i then Some (upd i r) else None | JNull \<Rightarrow> Some r | _ \<Rightarrow> None)"

lemmas [eval_simps] = into_struct_def decode_struct_def into_string_def into_int64_def

end
