(* ===== verification/Deployhook.thy ===== *)
theory Deployhook
  imports GoJson GoNet
begin

text \<open>
  The deploy webhook, \<open>internal/deployhook/handler.go\<close>: the handler of a delivery, with the
  signature check and the matching of workflow runs, and the runs it starts. \<open>hmac\<close> is
  HMAC-SHA256 (key, message), \<open>parse\<close> the syntax of JSON; a body is what reading its first
  mebibyte gives.
\<close>

subsection \<open>The handler\<close>

record hook_config =
  hc_secret :: string
  hc_workflow_name :: string
  hc_branch :: string
  hc_repository :: string
  hc_timeout :: int

record deploy_run =
  run_repository :: string
  run_workflow :: string
  run_branch :: string
  run_conclusion :: string
  run_sha :: string
  run_url :: string
  run_id :: int

record workflow_event =
  we_action :: string
  we_full_name :: string
  we_id :: int
  we_name :: string
  we_conclusion :: string
  we_head_branch :: string
  we_head_sha :: string
  we_html_url :: string

definition NewDeployHandler :: "hook_config \<Rightarrow> bool \<Rightarrow> hook_config result" where
  "NewDeployHandler cfg has_trigger =
     (if TrimSpace (hc_secret cfg) = [] then Inl (Msg ''secret is required'')
      else if \<not> has_trigger then Inl (Msg ''trigger is required'')
      else Inr \<lparr>hc_secret = hc_secret cfg,
        hc_workflow_name = (if TrimSpace (hc_workflow_name cfg) = [] then ''Docker Image'' else hc_workflow_name cfg),
        hc_branch = (if TrimSpace (hc_branch cfg) = [] then ''main'' else hc_branch cfg),
        hc_repository = TrimSpace (hc_repository cfg),
        hc_timeout = (if hc_timeout cfg \<le> 0 then 600 * 1000000000 else hc_timeout cfg)\<rparr>)"

definition verifySignature :: "(string \<Rightarrow> string \<Rightarrow> string) \<Rightarrow> string \<Rightarrow> string \<Rightarrow> string \<Rightarrow> bool" where
  "verifySignature hmac secret payload got =
     (if secret = [] then False
      else if \<not> HasPrefix got ''sha256='' then False
      else (case hex_DecodeString (TrimPrefix got ''sha256='') of
              None \<Rightarrow> False
            | Some sig \<Rightarrow> sig = hmac secret payload))"

definition no_event :: workflow_event where
  "no_event = \<lparr>we_action = [], we_full_name = [], we_id = 0, we_name = [], we_conclusion = [],
     we_head_branch = [], we_head_sha = [], we_html_url = []\<rparr>"

definition event_fields :: "(string \<times> (json \<Rightarrow> workflow_event \<Rightarrow> workflow_event option)) list" where
  "event_fields =
     [(''action'', into_string (\<lambda>s r. r\<lparr>we_action := s\<rparr>)),
      (''repository'', into_struct False [(''full_name'', into_string (\<lambda>s r. r\<lparr>we_full_name := s\<rparr>))]),
      (''workflow_run'', into_struct False
         [(''id'', into_int64 (\<lambda>i r. r\<lparr>we_id := i\<rparr>)),
          (''name'', into_string (\<lambda>s r. r\<lparr>we_name := s\<rparr>)),
          (''conclusion'', into_string (\<lambda>s r. r\<lparr>we_conclusion := s\<rparr>)),
          (''head_branch'', into_string (\<lambda>s r. r\<lparr>we_head_branch := s\<rparr>)),
          (''head_sha'', into_string (\<lambda>s r. r\<lparr>we_head_sha := s\<rparr>)),
          (''html_url'', into_string (\<lambda>s r. r\<lparr>we_html_url := s\<rparr>))])]"

definition decode_event :: "(string \<Rightarrow> json option) \<Rightarrow> string \<Rightarrow> workflow_event option" where
  "decode_event parse payload =
     (case parse payload of None \<Rightarrow> None | Some j \<Rightarrow> decode_struct False event_fields no_event j)"

definition match_run :: "hook_config \<Rightarrow> workflow_event \<Rightarrow> string + deploy_run" where
  "match_run h v =
     (if we_action v \<noteq> ''completed'' then Inl ''action is not completed''
      else if we_name v \<noteq> hc_workflow_name h then Inl ''workflow name mismatch''
      else if we_conclusion v \<noteq> ''success'' then Inl ''workflow did not succeed''
      else if we_head_branch v \<noteq> hc_branch h then Inl ''branch mismatch''
      else
        (let repo = TrimSpace (we_full_name v) in
         if hc_repository h \<noteq> [] \<and> repo \<noteq> hc_repository h then Inl ''repository mismatch''
         else Inr \<lparr>run_repository = repo, run_workflow = we_name v, run_branch = we_head_branch v,
           run_conclusion = we_conclusion v, run_sha = we_head_sha v, run_url = we_html_url v,
           run_id = we_id v\<rparr>))"

definition accepted_with :: "string \<Rightarrow> http_response" where
  "accepted_with msg = \<lparr>rs_status = 202, rs_header = no_header, rs_body = Text (msg @ [CHR 0x0A])\<rparr>"

text \<open>The response, the run that is started, and the flag \<open>running\<close> afterwards.\<close>

definition serve_delivery ::
  "(string \<Rightarrow> string \<Rightarrow> string) \<Rightarrow> (string \<Rightarrow> json option) \<Rightarrow> hook_config \<Rightarrow> http_request \<Rightarrow> string result \<Rightarrow> bool
    \<Rightarrow> http_response \<times> deploy_run option \<times> bool" where
  "serve_delivery hmac parse h r body running =
     (if rq_method r \<noteq> ''POST'' then (http_Error no_header ''method not allowed'' 405, None, running)
      else
        (case body of
           Inl _ \<Rightarrow> (http_Error no_header ''invalid payload'' 400, None, running)
         | Inr payload \<Rightarrow>
             if \<not> verifySignature hmac (hc_secret h) payload (TrimSpace (hdr_Get (rq_header r) ''X-Hub-Signature-256''))
             then (http_Error no_header ''invalid signature'' 401, None, running)
             else
               (let event = TrimSpace (hdr_Get (rq_header r) ''X-GitHub-Event'') in
                if event = ''ping'' then (status_only 204, None, running)
                else if event \<noteq> ''workflow_run'' then (status_only 204, None, running)
                else
                  (case decode_event parse payload of
                     None \<Rightarrow> (http_Error no_header ''invalid json'' 400, None, running)
                   | Some v \<Rightarrow>
                       (case match_run h v of
                          Inl _ \<Rightarrow> (accepted_with ''ignored'', None, running)
                        | Inr run \<Rightarrow>
                            if running then (accepted_with ''deploy already running'', None, running)
                            else (accepted_with ''accepted'', Some run, True))))))"

subsection \<open>The runs\<close>

text \<open>\<open>runTrigger\<close> runs on its own and clears the flag when it ends, in whatever way.\<close>

record hook_state =
  hs_running :: bool
  hs_runs :: "deploy_run list"

text \<open>What happens: a delivery arrives, with what reading its body gives, or a run ends.\<close>

datatype hook_event = Delivered http_request "string result" | RunEnded deploy_run

inductive hook_step ::
  "(string \<Rightarrow> string \<Rightarrow> string) \<Rightarrow> (string \<Rightarrow> json option) \<Rightarrow> hook_config \<Rightarrow> hook_state \<Rightarrow> hook_event \<Rightarrow> hook_state \<Rightarrow> bool"
  for hmac parse h where
  ignored: "serve_delivery hmac parse h r body (hs_running s) = (resp, None, running) \<Longrightarrow>
    hook_step hmac parse h s (Delivered r body) (s\<lparr>hs_running := running\<rparr>)"
| started: "serve_delivery hmac parse h r body (hs_running s) = (resp, Some run, running) \<Longrightarrow>
    hook_step hmac parse h s (Delivered r body) \<lparr>hs_running = running, hs_runs = hs_runs s @ [run]\<rparr>"
| ended: "run \<in> set (hs_runs s) \<Longrightarrow>
    hook_step hmac parse h s (RunEnded run) \<lparr>hs_running = False, hs_runs = remove1 run (hs_runs s)\<rparr>"

definition hook_start :: hook_state where
  "hook_start = \<lparr>hs_running = False, hs_runs = []\<rparr>"

text \<open>A history of the hook: its events in their order, and the state after them.\<close>

inductive hook_history ::
  "(string \<Rightarrow> string \<Rightarrow> string) \<Rightarrow> (string \<Rightarrow> json option) \<Rightarrow> hook_config \<Rightarrow> hook_event list \<Rightarrow> hook_state \<Rightarrow> bool"
  for hmac parse h where
  nothing: "hook_history hmac parse h [] hook_start"
| next_event: "hook_history hmac parse h evs s \<Longrightarrow> hook_step hmac parse h s ev s' \<Longrightarrow>
    hook_history hmac parse h (evs @ [ev]) s'"

lemmas [eval_simps] =
  NewDeployHandler_def verifySignature_def no_event_def event_fields_def decode_event_def match_run_def
  accepted_with_def serve_delivery_def hook_start_def

subsection \<open>Properties\<close>

text \<open>A run that this delivery may start: a POST whose own signature header is the hex text of the
  authentication code of its payload under the configured secret, with an event for a successful run of the workflow on the
  branch (and, when one is configured, of the repository).\<close>

definition authentic_run ::
  "(string \<Rightarrow> string \<Rightarrow> string) \<Rightarrow> (string \<Rightarrow> json option) \<Rightarrow> hook_config \<Rightarrow> http_request \<Rightarrow> string \<Rightarrow> deploy_run \<Rightarrow> bool" where
  "authentic_run hmac parse h r payload run \<longleftrightarrow> hc_secret h \<noteq> [] \<and> rq_method r = ''POST''
     \<and> (\<exists>digest. TrimSpace (hdr_Get (rq_header r) ''X-Hub-Signature-256'') = ''sha256='' @ digest
          \<and> hex_DecodeString digest = Some (hmac (hc_secret h) payload))
     \<and> TrimSpace (hdr_Get (rq_header r) ''X-GitHub-Event'') = ''workflow_run''
     \<and> (\<exists>v. decode_event parse payload = Some v
        \<and> we_action v = ''completed'' \<and> we_conclusion v = ''success''
        \<and> we_name v = hc_workflow_name h \<and> we_head_branch v = hc_branch h
        \<and> (hc_repository h = [] \<or> run_repository run = hc_repository h)
        \<and> run_sha run = we_head_sha v \<and> run_id run = we_id v)"

lemma verifySignature_header:
  "verifySignature hmac secret payload got \<Longrightarrow>
     secret \<noteq> [] \<and> (\<exists>digest. got = ''sha256='' @ digest \<and> hex_DecodeString digest = Some (hmac secret payload))"
  by (auto simp: verifySignature_def HasPrefix_def prefix_def TrimPrefix_def split: if_splits option.splits)

lemma match_run_Inr:
  "match_run h v = Inr run \<Longrightarrow> we_action v = ''completed'' \<and> we_conclusion v = ''success''
     \<and> we_name v = hc_workflow_name h \<and> we_head_branch v = hc_branch h
     \<and> (hc_repository h = [] \<or> run_repository run = hc_repository h)
     \<and> run_sha run = we_head_sha v \<and> run_id run = we_id v"
  by (auto simp: match_run_def Let_def split: if_splits)

lemma serve_starts:
  assumes "serve_delivery hmac parse h r body running = (resp, Some run, running')"
  shows "\<not> running \<and> running' \<and> (\<exists>payload. body = Inr payload \<and> authentic_run hmac parse h r payload run)"
proof -
  obtain payload v where "\<not> running" "running'" "body = Inr payload" "rq_method r = ''POST''"
    "verifySignature hmac (hc_secret h) payload (TrimSpace (hdr_Get (rq_header r) ''X-Hub-Signature-256''))"
    "TrimSpace (hdr_Get (rq_header r) ''X-GitHub-Event'') = ''workflow_run''"
    "decode_event parse payload = Some v" "match_run h v = Inr run"
    using assms by (auto simp: serve_delivery_def Let_def split: if_splits sum.splits option.splits)
  then show ?thesis
    using match_run_Inr [of h v run] verifySignature_header unfolding authentic_run_def by blast
qed

lemma serve_ignores:
  "serve_delivery hmac parse h r body running = (resp, None, running') \<Longrightarrow> running' = running"
  by (auto simp: serve_delivery_def Let_def split: if_splits sum.splits option.splits)

text \<open>C35: Deployments are authentic and one at a time. In every history of deliveries and ends of runs, however
  long runs take, at most one run is in progress, the flag says whether one is, and a run in progress was asked for
  by a delivery of that history: a POST whose own signature header is \<open>sha256=\<close> with a hex text of the HMAC of its
  payload under the secret, and whose payload is the event of a successful run of the configured workflow, branch and
  (when one is configured) repository, with that commit and number.\<close>

theorem deploys_authentic_and_serial:
  assumes "hook_history hmac parse h evs s"
  shows "length (hs_runs s) \<le> 1 \<and> (hs_running s \<longleftrightarrow> hs_runs s \<noteq> [])
    \<and> (\<forall>run\<in>set (hs_runs s). \<exists>r payload. Delivered r (Inr payload) \<in> set evs \<and> authentic_run hmac parse h r payload run)"
  using assms
proof (induction rule: hook_history.induct)
  case nothing
  then show ?case by (simp add: hook_start_def)
next
  case (next_event evs s ev s')
  from next_event.hyps(2) show ?case
  proof cases
    case (ignored r body resp running)
    with next_event.IH serve_ignores show ?thesis by fastforce
  next
    case (started r body resp run running)
    from serve_starts [OF started(3)] next_event.IH started(1,2) show ?thesis by auto
  next
    case (ended run)
    with next_event.IH have "hs_runs s = [run]" by (cases "hs_runs s") auto
    with ended show ?thesis by simp
  qed
qed

definition demo_hook :: hook_config where
  "demo_hook = \<lparr>hc_secret = ''k'', hc_workflow_name = ''Docker Image'', hc_branch = ''main'', hc_repository = [],
     hc_timeout = 600000000000\<rparr>"

definition demo_event_json :: json where
  "demo_event_json = JObj [(''action'', JStr ''completed''),
     (''workflow_run'', JObj [(''id'', JInt 5), (''name'', JStr ''Docker Image''), (''conclusion'', JStr ''success''),
        (''head_branch'', JStr ''main''), (''head_sha'', JStr ''abc'')])]"

definition demo_delivery :: http_request where
  "demo_delivery = \<lparr>rq_method = ''POST'', rq_host = ''hook'', rq_path = ''/'', rq_escaped_path = ''/'',
     rq_raw_query = [],
     rq_header = [''X-Hub-Signature-256'' \<mapsto> [''sha256=6B''], ''X-Github-Event'' \<mapsto> [''workflow_run'']],
     rq_remote_addr = ''10.0.0.7:5123'', rq_tls = False\<rparr>"

text \<open>The authentication code of the example is the key itself.\<close>

lemma demo_started:
  "\<exists>run. serve_delivery (\<lambda>k m. k) (\<lambda>s. Some demo_event_json) demo_hook demo_delivery (Inr []) False
     = (accepted_with ''accepted'', Some run, True)"
proof -
  have ev: "\<exists>v. decode_event (\<lambda>s. Some demo_event_json) [] = Some v \<and> we_action v = ''completed''
      \<and> we_name v = ''Docker Image'' \<and> we_conclusion v = ''success'' \<and> we_head_branch v = ''main''"
    by (simp add: demo_event_json_def eval_simps)
  then have "\<exists>v run. decode_event (\<lambda>s. Some demo_event_json) [] = Some v \<and> match_run demo_hook v = Inr run"
    by (auto simp: match_run_def demo_hook_def)
  then obtain v run where run: "decode_event (\<lambda>s. Some demo_event_json) [] = Some v" "match_run demo_hook v = Inr run"
    by blast
  have sig: "TrimSpace (hdr_Get (rq_header demo_delivery) ''X-Hub-Signature-256'') = ''sha256=6B''"
    "TrimSpace (hdr_Get (rq_header demo_delivery) ''X-GitHub-Event'') = ''workflow_run''"
    by (simp_all add: demo_delivery_def hdr_Get_def hdr_values_def eval_simps)
  have ok: "verifySignature (\<lambda>k m. k) (hc_secret demo_hook) [] ''sha256=6B''"
    by (simp add: demo_hook_def eval_simps)
  show ?thesis
    unfolding serve_delivery_def sig using run ok by (simp add: demo_delivery_def)
qed

theorem deploys_authentic_and_serial_witness:
  "\<exists>s run. hook_history (\<lambda>k m. k) (\<lambda>s. Some demo_event_json) demo_hook [Delivered demo_delivery (Inr [])] s
     \<and> hs_runs s = [run] \<and> authentic_run (\<lambda>k m. k) (\<lambda>s. Some demo_event_json) demo_hook demo_delivery [] run \<and> hs_running s"
proof -
  obtain run where run: "serve_delivery (\<lambda>k m. k) (\<lambda>s. Some demo_event_json) demo_hook demo_delivery (Inr []) (hs_running hook_start)
      = (accepted_with ''accepted'', Some run, True)" using demo_started by (auto simp: hook_start_def)
  have "hook_history (\<lambda>k m. k) (\<lambda>s. Some demo_event_json) demo_hook [Delivered demo_delivery (Inr [])]
      \<lparr>hs_running = True, hs_runs = hs_runs hook_start @ [run]\<rparr>"
    using hook_history.next_event [OF hook_history.nothing hook_step.started [OF run]] by simp
  then show ?thesis
    using deploys_authentic_and_serial by (fastforce simp: hook_start_def)
qed

end
