(* ===== verification/GoFlag.thy ===== *)
theory GoFlag
  imports GoStrconv
begin

text \<open>
  \<open>flag.FlagSet\<close> with \<open>ContinueOnError\<close>, and \<open>strconv.ParseInt\<close> with base 0, which
  integer flags use. A flag set is a table of flags over a record of values; parsing gives the
  values and the remaining arguments, or an error.
\<close>

subsection \<open>Integers with a base prefix\<close>

definition any_digit :: "char \<Rightarrow> nat option" where
  "any_digit c =
     (if is_digit c then Some (byte c - 48)
      else if is_lower c then Some (byte c - 97 + 10)
      else if is_upper c then Some (byte c - 65 + 10)
      else None)"

fun base_value :: "nat \<Rightarrow> nat \<Rightarrow> string \<Rightarrow> nat option" where
  "base_value b v [] = Some v"
| "base_value b v (c # s) =
     (if c = CHR ''_'' then base_value b v s
      else (case any_digit c of
              None \<Rightarrow> None
            | Some d \<Rightarrow> if d < b then base_value b (v * b + d) s else None))"

text \<open>\<open>underscoreOK\<close>: underscores stand between digits, or between the prefix and a digit. The
  first argument tells whether the byte before is a digit or an underscore.\<close>

datatype digit_state = AfterDigit | AfterUnderscore | AfterOther

fun underscores_ok :: "bool \<Rightarrow> digit_state \<Rightarrow> string \<Rightarrow> bool" where
  "underscores_ok hex st [] = (st \<noteq> AfterUnderscore)"
| "underscores_ok hex st (c # s) =
     (if is_digit c \<or> (hex \<and> lower_byte c \<in> set ''abcdef'') then underscores_ok hex AfterDigit s
      else if c = CHR ''_'' then st = AfterDigit \<and> underscores_ok hex AfterUnderscore s
      else st \<noteq> AfterUnderscore \<and> underscores_ok hex AfterOther s)"

definition ParseInt0 :: "string \<Rightarrow> int option" where
  "ParseInt0 s =
     (let (neg, ds) = split_sign s in
      if ds = [] then None
      else
        (let p = (if length ds \<ge> 2 then lower_byte (ds ! 1) else CHR 0x00);
             prefixed = hd ds = CHR ''0'' \<and> length ds \<ge> 3 \<and> p \<in> set ''box'';
             base = (if hd ds \<noteq> CHR ''0'' then 10
                     else if \<not> prefixed then 8
                     else if p = CHR ''b'' then 2 else if p = CHR ''o'' then 8 else 16);
             body = (if prefixed then drop 2 ds else if hd ds = CHR ''0'' then drop 1 ds else ds);
             ok = (if prefixed then underscores_ok (p = CHR ''x'') AfterDigit (drop 2 ds)
                   else underscores_ok False AfterOther ds)
         in case base_value base 0 body of
              None \<Rightarrow> None
            | Some v \<Rightarrow>
                if CHR ''_'' \<in> set ds \<and> \<not> ok then None
                else
                  (let i = (if neg then - int v else int v) in if int64_range i then Some i else None)))"

subsection \<open>Flag sets\<close>

record 'r cli_flag =
  fl_bool :: bool
  fl_set :: "string \<Rightarrow> 'r \<Rightarrow> 'r option"

type_synonym 'r flag_set = "(string \<times> 'r cli_flag) list"

definition Lookup :: "'r flag_set \<Rightarrow> string \<Rightarrow> 'r cli_flag option" where
  "Lookup fs name = map_of fs name"

datatype flag_error = BadSyntax string | NotDefined string | HelpRequested | InvalidValue string | NeedsArgument string

definition flag_body :: "string \<Rightarrow> string" where
  "flag_body s = (if s ! 1 = CHR ''-'' then drop 2 s else drop 1 s)"

fun flag_Parse :: "'r flag_set \<Rightarrow> string list \<Rightarrow> 'r \<Rightarrow> flag_error + 'r \<times> string list" where
  "flag_Parse fs [] r = Inr (r, [])"
| "flag_Parse fs (s # args) r =
     (if length s < 2 \<or> hd s \<noteq> CHR ''-'' then Inr (r, s # args)
      else if s = ''--'' then Inr (r, args)
      else
        (let body = flag_body s in
         if body = [] \<or> hd body = CHR ''-'' \<or> hd body = CHR ''='' then Inl (BadSyntax s)
         else
           (case Cut body ''='' of (name, val, hasValue) \<Rightarrow>
              (case Lookup fs name of
                 None \<Rightarrow> Inl (if name = ''help'' \<or> name = ''h'' then HelpRequested else NotDefined name)
               | Some f \<Rightarrow>
                   if fl_bool f then
                     (case fl_set f (if hasValue then val else ''true'') r of
                        None \<Rightarrow> Inl (InvalidValue name)
                      | Some r' \<Rightarrow> flag_Parse fs args r')
                   else if hasValue then
                     (case fl_set f val r of
                        None \<Rightarrow> Inl (InvalidValue name)
                      | Some r' \<Rightarrow> flag_Parse fs args r')
                   else
                     (case args of
                        [] \<Rightarrow> Inl (NeedsArgument name)
                      | v # args' \<Rightarrow>
                          (case fl_set f v r of
                             None \<Rightarrow> Inl (InvalidValue name)
                           | Some r' \<Rightarrow> flag_Parse fs args' r'))))))"

declare flag_Parse.simps(2) [simp del]

text \<open>The kinds of flags: \<open>String\<close>, \<open>Bool\<close>, \<open>Int\<close> and \<open>Int64\<close>.\<close>

definition string_flag :: "(string \<Rightarrow> 'r \<Rightarrow> 'r) \<Rightarrow> 'r cli_flag" where
  "string_flag put = \<lparr>fl_bool = False, fl_set = (\<lambda>v r. Some (put v r))\<rparr>"

definition bool_flag :: "(bool \<Rightarrow> 'r \<Rightarrow> 'r) \<Rightarrow> 'r cli_flag" where
  "bool_flag put = \<lparr>fl_bool = True, fl_set = (\<lambda>v r. map_option (\<lambda>b. put b r) (ParseBool v))\<rparr>"

definition int_flag :: "(int \<Rightarrow> 'r \<Rightarrow> 'r) \<Rightarrow> 'r cli_flag" where
  "int_flag put = \<lparr>fl_bool = False, fl_set = (\<lambda>v r. map_option (\<lambda>i. put i r) (ParseInt0 v))\<rparr>"

lemmas [eval_simps] =
  any_digit_def ParseInt0_def Lookup_def flag_body_def flag_Parse.simps(2) string_flag_def bool_flag_def int_flag_def

lemma ParseInt0_samples:
  "ParseInt0 ''0x1F'' = Some 31" "ParseInt0 ''-0b101'' = Some (- 5)" "ParseInt0 ''017'' = Some 15"
  "ParseInt0 ''1_000'' = Some 1000" "ParseInt0 ''0'' = Some 0" "ParseInt0 ''1__0'' = None"
  "ParseInt0 ''0x'' = None" "ParseInt0 ''09'' = None" "ParseInt0 ''-'' = None"
  by (simp_all add: eval_simps Let_def cong: let_weak_cong)

end
