(* ===== verification/CliFlags.thy ===== *)
theory CliFlags
  imports GoFlag GoStrings
begin

text \<open>
  The command line of the client: \<open>internal/cli/flagparse.go\<close>, which lets flags follow
  positional arguments, and the list flags of \<open>sliceflag.go\<close>.
\<close>

subsection \<open>Interspersed flags (flagparse.go)\<close>

definition isFlagToken :: "string \<Rightarrow> bool" where
  "isFlagToken s = (if s = [] \<or> s = ''-'' then False else HasPrefix s ''-'')"

definition splitFlagName :: "string \<Rightarrow> string \<times> bool" where
  "splitFlagName tok =
     (let trimmed = dropWhile (\<lambda>c. c = CHR ''-'') tok in
      if trimmed = [] then ([], False)
      else (case Cut trimmed ''='' of (name, _, hasValue) \<Rightarrow> (name, hasValue)))"

definition isBoolLiteral :: "string \<Rightarrow> bool" where
  "isBoolLiteral s \<longleftrightarrow> ParseBool s \<noteq> None"

fun reorder_loop :: "'r flag_set \<Rightarrow> string list \<Rightarrow> string list \<Rightarrow> string list \<Rightarrow> string list" where
  "reorder_loop fs flags positionals [] = flags @ positionals"
| "reorder_loop fs flags positionals (a # rest) =
     (if a = ''--'' then flags @ positionals @ rest
      else if isFlagToken a then
        (case splitFlagName a of (name, hasInlineValue) \<Rightarrow>
           if hasInlineValue then reorder_loop fs (flags @ [a]) positionals rest
           else
             (case Lookup fs name of
                None \<Rightarrow> reorder_loop fs (flags @ [a]) positionals rest
              | Some f \<Rightarrow>
                  (case rest of
                     [] \<Rightarrow> reorder_loop fs (flags @ [a]) positionals []
                   | v # rest' \<Rightarrow>
                       if fl_bool f then
                         (if isBoolLiteral v then reorder_loop fs (flags @ [a @ ''='' @ v]) positionals rest'
                          else reorder_loop fs (flags @ [a]) positionals rest)
                       else reorder_loop fs (flags @ [a, v]) positionals rest')))
      else reorder_loop fs flags (positionals @ [a]) rest)"

declare reorder_loop.simps(2) [simp del]

definition reorderInterspersedFlags :: "'r flag_set \<Rightarrow> string list \<Rightarrow> string list" where
  "reorderInterspersedFlags fs args = reorder_loop fs [] [] args"

definition parseInterspersedFlags :: "'r flag_set \<Rightarrow> string list \<Rightarrow> 'r \<Rightarrow> flag_error + 'r \<times> string list" where
  "parseInterspersedFlags fs args r = flag_Parse fs (reorderInterspersedFlags fs args) r"

subsection \<open>List flags (sliceflag.go)\<close>

definition slice_parts :: "string \<Rightarrow> string list option" where
  "slice_parts val =
     (let parts = map TrimSpace (Split_char CHR '','' val) in if [] \<in> set parts then None else Some parts)"

definition slice_flag :: "(string list \<Rightarrow> 'r \<Rightarrow> 'r) \<Rightarrow> 'r cli_flag" where
  "slice_flag app = \<lparr>fl_bool = False, fl_set = (\<lambda>v r. map_option (\<lambda>ps. app ps r) (slice_parts v))\<rparr>"

definition list_flag :: "(string list \<Rightarrow> 'r \<Rightarrow> 'r) \<Rightarrow> 'r cli_flag" where
  "list_flag app = \<lparr>fl_bool = False, fl_set = (\<lambda>v r. Some (app [v] r))\<rparr>"

lemmas [eval_simps] =
  isFlagToken_def splitFlagName_def isBoolLiteral_def reorder_loop.simps(2) reorderInterspersedFlags_def
  parseInterspersedFlags_def slice_parts_def slice_flag_def list_flag_def

subsection \<open>Properties\<close>

text \<open>A command line as its user means it: positional arguments, and flags with one or two dashes,
  without a value (boolean flags), with a value after an equals sign, or with a value as the next
  argument.\<close>

datatype cli_item =
    Positional string
  | Switch bool string
  | Inline bool string string
  | Spaced bool string string

definition dashes :: "bool \<Rightarrow> string" where
  "dashes two = (if two then ''--'' else ''-'')"

fun render_item :: "cli_item \<Rightarrow> string list" where
  "render_item (Positional p) = [p]"
| "render_item (Switch d n) = [dashes d @ n]"
| "render_item (Inline d n v) = [dashes d @ n @ ''='' @ v]"
| "render_item (Spaced d n v) = [dashes d @ n, v]"

text \<open>What each item is moved to, and what it sets.\<close>

fun flag_tokens :: "'r flag_set \<Rightarrow> cli_item \<Rightarrow> string list" where
  "flag_tokens fs (Positional p) = []"
| "flag_tokens fs (Spaced d n v) =
     (case Lookup fs n of
        Some f \<Rightarrow> if fl_bool f then [dashes d @ n @ ''='' @ v] else [dashes d @ n, v]
      | None \<Rightarrow> [dashes d @ n, v])"
| "flag_tokens fs it = render_item it"

fun positionals_of :: "cli_item list \<Rightarrow> string list" where
  "positionals_of [] = []"
| "positionals_of (Positional p # its) = p # positionals_of its"
| "positionals_of (it # its) = positionals_of its"

fun item_value :: "cli_item \<Rightarrow> (string \<times> string) option" where
  "item_value (Positional p) = None"
| "item_value (Switch d n) = Some (n, ''true'')"
| "item_value (Inline d n v) = Some (n, v)"
| "item_value (Spaced d n v) = Some (n, v)"

fun apply_items :: "'r flag_set \<Rightarrow> cli_item list \<Rightarrow> 'r \<Rightarrow> 'r option" where
  "apply_items fs [] r = Some r"
| "apply_items fs (it # its) r =
     (case item_value it of
        None \<Rightarrow> apply_items fs its r
      | Some (n, v) \<Rightarrow>
          (case Lookup fs n of
             None \<Rightarrow> None
           | Some f \<Rightarrow> Option.bind (fl_set f v r) (apply_items fs its)))"

definition flag_name :: "string \<Rightarrow> bool" where
  "flag_name n \<longleftrightarrow> n \<noteq> [] \<and> hd n \<noteq> CHR ''-'' \<and> CHR ''='' \<notin> set n"

text \<open>Known flags used as their kind asks for; a positional argument does not look like a flag; a
  boolean flag without a value is not followed by an argument that reads as a boolean.\<close>

fun item_ok :: "'r flag_set \<Rightarrow> cli_item \<Rightarrow> string list \<Rightarrow> bool" where
  "item_ok fs (Positional p) after = (\<not> isFlagToken p)"
| "item_ok fs (Switch d n) after =
     (flag_name n \<and> (\<exists>f. Lookup fs n = Some f \<and> fl_bool f) \<and> (after = [] \<or> \<not> isBoolLiteral (hd after)))"
| "item_ok fs (Inline d n v) after = (flag_name n \<and> Lookup fs n \<noteq> None)"
| "item_ok fs (Spaced d n v) after =
     (flag_name n \<and> (\<exists>f. Lookup fs n = Some f \<and> (fl_bool f \<longrightarrow> isBoolLiteral v)))"

fun items_ok :: "'r flag_set \<Rightarrow> cli_item list \<Rightarrow> bool" where
  "items_ok fs [] = True"
| "items_ok fs (it # its) = (item_ok fs it (concat (map render_item its)) \<and> items_ok fs its)"

lemma dashed_token:
  assumes "flag_name n"
  shows "isFlagToken (dashes d @ n @ s)" "dashes d @ n @ s \<noteq> ''--''"
    "dropWhile (\<lambda>c. c = CHR ''-'') (dashes d @ n @ s) = n @ s"
  using assms by (cases n; auto simp: flag_name_def isFlagToken_def dashes_def HasPrefix_def)+

lemma Cut_equals: "CHR ''='' \<notin> set n \<Longrightarrow> Cut (n @ CHR ''='' # v) ''='' = (n, v, True)"
  by (rule Cut_char)

lemma Cut_no_equals: "CHR ''='' \<notin> set n \<Longrightarrow> Cut n ''='' = (n, [], False)"
  by (simp add: Cut_def iffD2 [OF Index_char_None_iff])

lemma split_switch: "flag_name n \<Longrightarrow> splitFlagName (dashes d @ n) = (n, False)"
  using dashed_token(3) [of n d "[]"] by (simp add: splitFlagName_def Cut_no_equals flag_name_def)

lemma split_inline: "flag_name n \<Longrightarrow> splitFlagName (dashes d @ n @ ''='' @ v) = (n, True)"
  using dashed_token(3) [of n d "''='' @ v"] by (simp add: splitFlagName_def Cut_equals flag_name_def)

lemma reorder_items:
  "items_ok fs its \<Longrightarrow> reorder_loop fs flags ps (concat (map render_item its)) =
     flags @ concat (map (flag_tokens fs) its) @ ps @ positionals_of its"
proof (induction its arbitrary: flags ps)
  case Nil
  then show ?case by simp
next
  case (Cons it its)
  note IH = Cons.IH [of "flags @ flag_tokens fs it"]
  show ?case
  proof (cases it)
    case (Positional p)
    with Cons show ?thesis
      by (auto simp: reorder_loop.simps(2) isFlagToken_def HasPrefix_def)
  next
    case (Switch d n)
    with Cons.prems obtain f where f: "flag_name n" "Lookup fs n = Some f" "fl_bool f" "items_ok fs its"
      and after: "concat (map render_item its) = [] \<or> \<not> isBoolLiteral (hd (concat (map render_item its)))"
      by auto
    define rest where "rest = concat (map render_item its)"
    have "reorder_loop fs (flags @ [dashes d @ n]) ps rest
        = (flags @ [dashes d @ n]) @ concat (map (flag_tokens fs) its) @ ps @ positionals_of its"
      unfolding rest_def by (rule Cons.IH [OF f(4)])
    moreover have "reorder_loop fs flags ps ((dashes d @ n) # rest) = reorder_loop fs (flags @ [dashes d @ n]) ps rest"
      using f after dashed_token [OF f(1), of d "[]"] split_switch [OF f(1)]
      by (cases rest) (auto simp: reorder_loop.simps(2) rest_def [symmetric])
    ultimately show ?thesis by (simp add: Switch rest_def)
  next
    case (Inline d n v)
    with Cons.prems have f: "flag_name n" "items_ok fs its" by auto
    show ?thesis
      using f dashed_token [OF f(1), of d "''='' @ v"] split_inline [OF f(1)] IH Inline
      by (simp add: reorder_loop.simps(2))
  next
    case (Spaced d n v)
    with Cons.prems obtain f where f: "flag_name n" "Lookup fs n = Some f" "fl_bool f \<longrightarrow> isBoolLiteral v" "items_ok fs its"
      by auto
    show ?thesis
      using f dashed_token [OF f(1), of d "[]"] split_switch [OF f(1)] Cons.IH [OF f(4)] Spaced
      by (cases "fl_bool f") (simp_all add: reorder_loop.simps(2))
  qed
qed

lemma parse_positionals:
  "(\<And>p. p \<in> set ps \<Longrightarrow> \<not> isFlagToken p) \<Longrightarrow> flag_Parse fs ps r = Inr (r, ps)"
proof (cases ps)
  case (Cons p ps')
  assume "\<And>p. p \<in> set ps \<Longrightarrow> \<not> isFlagToken p"
  then have "\<not> isFlagToken p" by (simp add: Cons)
  then have "length p < 2 \<or> hd p \<noteq> CHR ''-''"
    by (cases p) (auto simp: isFlagToken_def HasPrefix_def split: if_splits)
  then show ?thesis by (simp add: Cons flag_Parse.simps(2))
qed simp

lemma positionals_ok: "items_ok fs its \<Longrightarrow> p \<in> set (positionals_of its) \<Longrightarrow> \<not> isFlagToken p"
  by (induction its rule: positionals_of.induct) auto

lemma parse_token:
  assumes "flag_name n" and "Lookup fs n = Some f" and "fl_set f v r = Some r'"
  shows "flag_Parse fs ((dashes d @ n @ CHR ''='' # v) # args) r = flag_Parse fs args r'"
    and "\<not> fl_bool f \<Longrightarrow> flag_Parse fs ((dashes d @ n) # v # args) r = flag_Parse fs args r'"
    and "fl_bool f \<Longrightarrow> v = ''true'' \<Longrightarrow> flag_Parse fs ((dashes d @ n) # args) r = flag_Parse fs args r'"
proof -
  have n: "n \<noteq> []" "hd n \<noteq> CHR ''-''" "hd n \<noteq> CHR ''=''" "CHR ''='' \<notin> set n"
    using assms(1) by (cases n; auto simp: flag_name_def)+
  have tok: "\<not> (length (dashes d @ n @ s) < 2 \<or> hd (dashes d @ n @ s) \<noteq> CHR ''-'')" "dashes d @ n @ s \<noteq> ''--''"
    "flag_body (dashes d @ n @ s) = n @ s" for s
    using n by (cases n; auto simp: dashes_def flag_body_def)+
  show "flag_Parse fs ((dashes d @ n @ CHR ''='' # v) # args) r = flag_Parse fs args r'"
    using tok [of "CHR ''='' # v"] n Cut_equals [OF n(4), of v] assms(2,3)
    by (simp add: flag_Parse.simps(2))
  show "\<not> fl_bool f \<Longrightarrow> flag_Parse fs ((dashes d @ n) # v # args) r = flag_Parse fs args r'"
    using tok [of "[]"] n Cut_no_equals [OF n(4)] assms(2,3) by (simp add: flag_Parse.simps(2))
  show "fl_bool f \<Longrightarrow> v = ''true'' \<Longrightarrow> flag_Parse fs ((dashes d @ n) # args) r = flag_Parse fs args r'"
    using tok [of "[]"] n Cut_no_equals [OF n(4)] assms(2,3) by (simp add: flag_Parse.simps(2))
qed

lemma parse_tokens:
  assumes "items_ok fs its" and "apply_items fs its r = Some r'"
  shows "flag_Parse fs (concat (map (flag_tokens fs) its) @ ps) r = flag_Parse fs ps r'"
  using assms
proof (induction its arbitrary: r)
  case Nil
  then show ?case by simp
next
  case (Cons it its)
  show ?case
  proof (cases "item_value it")
    case None
    with Cons show ?thesis by (cases it) auto
  next
    case (Some nv)
    obtain n v where nv: "nv = (n, v)" by fastforce
    with Some Cons.prems obtain f r1 where f: "Lookup fs n = Some f" "fl_set f v r = Some r1" "apply_items fs its r1 = Some r'"
      "flag_name n" "items_ok fs its"
      by (cases it) (auto split: option.splits bind_splits)
    note p = parse_token [OF f(4,1,2)]
    show ?thesis
      using Some nv f Cons.IH [OF f(5,3)] p Cons.prems by (cases it) auto
  qed
qed

text \<open>Flags may stand anywhere on the client's command line. For every mixture of positional
  arguments and flags, in any of the forms the flag package and the documentation allow (also a
  boolean flag with its value as the next argument), parsing gives the values of the flags, set from
  left to right, and the positional arguments in their order.\<close>

theorem interspersed_flags:
  assumes "items_ok fs its" and "apply_items fs its r = Some r'"
  shows "parseInterspersedFlags fs (concat (map render_item its)) r = Inr (r', positionals_of its)"
proof -
  have "parseInterspersedFlags fs (concat (map render_item its)) r
      = flag_Parse fs (concat (map (flag_tokens fs) its) @ positionals_of its) r"
    using reorder_items [OF assms(1), of "[]" "[]"]
    by (simp add: parseInterspersedFlags_def reorderInterspersedFlags_def)
  also have "\<dots> = flag_Parse fs (positionals_of its) r'" by (rule parse_tokens [OF assms])
  also have "\<dots> = Inr (r', positionals_of its)"
    using positionals_ok [OF assms(1)] by (rule parse_positionals)
  finally show ?thesis .
qed

definition demo_flags :: "(string \<times> bool) flag_set" where
  "demo_flags = [(''server'', string_flag (\<lambda>v r. (v, snd r))), (''inspect'', bool_flag (\<lambda>b r. (fst r, b)))]"

theorem interspersed_flags_witness:
  "parseInterspersedFlags demo_flags [''8080'', ''--server'', ''https://a'', ''-inspect'', ''false'', ''x''] ([], True)
    = Inr ((''https://a'', False), [''8080'', ''x''])"
proof -
  let ?its = "[Positional ''8080'', Spaced True ''server'' ''https://a'', Spaced False ''inspect'' ''false'', Positional ''x'']"
  have ok: "items_ok demo_flags ?its"
    by (simp add: demo_flags_def flag_name_def eval_simps)
  have ap: "apply_items demo_flags ?its ([], True) = Some (''https://a'', False)"
    by (simp add: demo_flags_def eval_simps)
  from interspersed_flags [OF ok ap] show ?thesis by (simp add: dashes_def)
qed

text \<open>The separator \<open>--\<close> is lost in the reordering, so what follows it is still read as flags.\<close>

theorem separator_is_lost:
  "parseInterspersedFlags fs (''--'' # rest) r = flag_Parse fs rest r"
  by (simp add: parseInterspersedFlags_def reorderInterspersedFlags_def reorder_loop.simps(2))

end
