(* ===== verification/Config.thy ===== *)
theory Config
  imports UrlHosts CliFlags
begin

text \<open>
  The client's configuration file, \<open>internal/config/config.go\<close> and
  \<open>header_add_list.go\<close>: its data, where it is, how it is loaded and saved, the control URL of a
  server address, and the YAML forms of a header list. The YAML library is an argument
  (\<open>marshal\<close>, \<open>unmarshal\<close>); a disk is a map from names to contents and modes with a set of
  directories, and a \<open>Save\<close> meets faults at any of its operations.
\<close>

subsection \<open>The file\<close>

record config_tunnel =
  tn_proto :: string
  tn_addr :: string
  tn_domain :: string
  tn_subdomain :: string
  tn_basic_auth :: string
  tn_allow_method :: "string list"
  tn_allow_path :: "string list"
  tn_allow_path_prefix :: "string list"
  tn_allow_cidr :: "string list"
  tn_deny_cidr :: "string list"
  tn_request_header_add :: "string list"
  tn_request_header_remove :: "string list"
  tn_response_header_add :: "string list"
  tn_response_header_remove :: "string list"
  tn_host_header :: string
  tn_remote_port :: int
  tn_inspect :: "bool option"
  tn_inspect_addr :: string

record config_file =
  cf_version :: int
  cf_authtoken :: string
  cf_server_addr :: string
  cf_host_header :: string
  cf_inspect :: "bool option"
  cf_inspect_addr :: string
  cf_tunnels :: "string \<rightharpoonup> config_tunnel"

definition empty_config :: config_file where
  "empty_config = \<lparr>cf_version = 0, cf_authtoken = [], cf_server_addr = [], cf_host_header = [],
     cf_inspect = None, cf_inspect_addr = [], cf_tunnels = (\<lambda>_. None)\<rparr>"

subsection \<open>Where it is\<close>

text \<open>\<open>path.Clean\<close> and \<open>filepath.Join\<close> on Unix; \<open>out\<close> holds the segments kept so far.\<close>

fun clean_relative :: "string list \<Rightarrow> string list \<Rightarrow> string list" where
  "clean_relative out [] = out"
| "clean_relative out (s # ss) =
     (if s = [] \<or> s = ''.'' then clean_relative out ss
      else if s = ''..'' then
        (if out = [] \<or> List.last out = ''..'' then clean_relative (out @ [s]) ss else clean_relative (butlast out) ss)
      else clean_relative (out @ [s]) ss)"

definition filepath_Clean :: "string \<Rightarrow> string" where
  "filepath_Clean p =
     (if p = [] then ''.''
      else if hd p = CHR ''/'' then clean_rooted p
      else (let r = Join_char CHR ''/'' (clean_relative [] (Split_char CHR ''/'' p)) in if r = [] then ''.'' else r))"

definition filepath_Join :: "string list \<Rightarrow> string" where
  "filepath_Join elems =
     (case dropWhile (\<lambda>e. e = []) elems of
        [] \<Rightarrow> []
      | es \<Rightarrow> filepath_Clean (Join_char CHR ''/'' es))"

definition filepath_Dir :: "string \<Rightarrow> string" where
  "filepath_Dir p = filepath_Clean (rev (dropWhile (\<lambda>c. c \<noteq> CHR ''/'') (rev p)))"

text \<open>\<open>user_dir\<close> is \<open>os.UserConfigDir\<close>.\<close>

definition DefaultPath :: "(string \<Rightarrow> string) \<Rightarrow> string result \<Rightarrow> string" where
  "DefaultPath getenv user_dir =
     (if getenv ''XDG_CONFIG_HOME'' \<noteq> [] then filepath_Join [getenv ''XDG_CONFIG_HOME'', ''eosrift'', ''eosrift.yml'']
      else
        (let dir = (case user_dir of Inr dir \<Rightarrow> dir | Inl _ \<Rightarrow> []) in
         if dir \<noteq> [] then filepath_Join [dir, ''eosrift'', ''eosrift.yml'']
         else if getenv ''HOME'' = [] then filepath_Join [''eosrift.yml'']
         else filepath_Join [getenv ''HOME'', ''.config'', ''eosrift'', ''eosrift.yml'']))"

subsection \<open>Loading and saving\<close>

datatype stored = NoFile | ReadFails go_error | Contents string

definition Load :: "(string \<Rightarrow> config_file result) \<Rightarrow> stored \<Rightarrow> (config_file \<times> bool) result" where
  "Load unmarshal f =
     (case f of
        NoFile \<Rightarrow> Inr (empty_config, False)
      | ReadFails e \<Rightarrow> Inl e
      | Contents b \<Rightarrow> (case unmarshal b of Inl e \<Rightarrow> Inl e | Inr cfg \<Rightarrow> Inr (cfg, True)))"

record disk =
  dk_files :: "string \<rightharpoonup> string \<times> nat"
  dk_dirs :: "string set"

definition stored_at :: "disk \<Rightarrow> string \<Rightarrow> stored" where
  "stored_at d path =
     (case dk_files d path of
        Some (b, mode) \<Rightarrow> Contents b
      | None \<Rightarrow> if path \<in> dk_dirs d then ReadFails (Msg ''is a directory'') else NoFile)"

text \<open>The outcomes of the operations of a save: \<open>sf_mkdir\<close> and \<open>sf_write\<close> tell after how
  many directories or bytes a failing \<open>MkdirAll\<close> or write stopped; \<open>sf_remove\<close> is the error
  of the deferred \<open>os.Remove\<close>, which the code ignores.\<close>

record save_faults =
  sf_mkdir :: "(nat \<times> go_error) option"
  sf_create :: "string result"
  sf_chmod :: "unit result"
  sf_write :: "(nat \<times> go_error) option"
  sf_close :: "unit result"
  sf_rename :: "unit result"
  sf_remove :: "go_error option"

text \<open>\<open>os.MkdirAll\<close>: the directories above a cleaned path and the path itself, those of them that have to be
  made (from the innermost that exists), and the states of the disk while they are made, outermost first.\<close>

definition dir_chain :: "string \<Rightarrow> string list" where
  "dir_chain dir = map (\<lambda>n. take n dir) (filter (\<lambda>n. n = length dir \<or> dir ! n = CHR ''/'') [1..<Suc (length dir)])"

definition missing_dirs :: "string set \<Rightarrow> string \<Rightarrow> string list" where
  "missing_dirs ds dir = rev (takeWhile (\<lambda>p. p \<notin> ds) (rev (dir_chain dir)))"

definition MkdirAll :: "(nat \<times> go_error) option \<Rightarrow> disk \<Rightarrow> string \<Rightarrow> disk list" where
  "MkdirAll fault d dir =
     (let ms = missing_dirs (dk_dirs d) dir;
          n = (case fault of None \<Rightarrow> length ms | Some (n, e) \<Rightarrow> min n (length ms))
      in map (\<lambda>k. d\<lparr>dk_dirs := dk_dirs d \<union> set (take k ms)\<rparr>) [0..<Suc n])"

definition save_version :: "config_file \<Rightarrow> config_file" where
  "save_version cfg = (if cf_version cfg = 0 then cfg\<lparr>cf_version := 1\<rparr> else cfg)"

definition with_newline :: "string \<Rightarrow> string" where
  "with_newline b = (if b = [] \<or> List.last b \<noteq> CHR 0x0A then b @ [CHR 0x0A] else b)"

definition put_file :: "string \<Rightarrow> (string \<times> nat) option \<Rightarrow> disk \<Rightarrow> disk" where
  "put_file p c d = d\<lparr>dk_files := (dk_files d)(p := c)\<rparr>"

definition os_Remove :: "go_error option \<Rightarrow> string \<Rightarrow> disk \<Rightarrow> disk" where
  "os_Remove fault p d = (case fault of None \<Rightarrow> put_file p None d | Some e \<Rightarrow> d)"

text \<open>The result and every state of the disk on the way, the last one at the end; the mode
  384 is 0600; the deferred \<open>os.Remove\<close> of the temporary file is the last operation of each path that made one.\<close>

definition Save ::
  "(config_file \<Rightarrow> string result) \<Rightarrow> save_faults \<Rightarrow> disk \<Rightarrow> string \<Rightarrow> config_file \<Rightarrow> unit result \<times> disk list" where
  "Save marshal flt d path cfg =
     (let made = MkdirAll (sf_mkdir flt) d (filepath_Dir path); d0 = List.last made in
      case sf_mkdir flt of
        Some (n, e) \<Rightarrow> (Inl e, made)
      | None \<Rightarrow>
          (case marshal (save_version cfg) of
             Inl e \<Rightarrow> (Inl e, made)
           | Inr b \<Rightarrow>
               (let b = with_newline b in
                case sf_create flt of
                  Inl e \<Rightarrow> (Inl e, made)
                | Inr tmp \<Rightarrow>
                    (let d1 = put_file tmp (Some ([], 384)) d0; remove = os_Remove (sf_remove flt) tmp in
                     case sf_chmod flt of
                       Inl e \<Rightarrow> (Inl e, made @ [d1, remove d1])
                     | Inr _ \<Rightarrow>
                         (case sf_write flt of
                            Some (n, e) \<Rightarrow>
                              (let d2 = put_file tmp (Some (take n b, 384)) d1 in
                               (Inl e, made @ [d1, d2, remove d2]))
                          | None \<Rightarrow>
                              (let d2 = put_file tmp (Some (b, 384)) d1 in
                               case sf_close flt of
                                 Inl e \<Rightarrow> (Inl e, made @ [d1, d2, remove d2])
                               | Inr _ \<Rightarrow>
                                   (case sf_rename flt of
                                      Inl e \<Rightarrow> (Inl e, made @ [d1, d2, remove d2])
                                    | Inr _ \<Rightarrow>
                                        (let d3 = put_file path (Some (b, 384)) (put_file tmp None d2) in
                                         (Inr (), made @ [d1, d2, d3, remove d3])))))))))"

subsection \<open>The control URL\<close>

definition plain_url :: "string \<Rightarrow> string \<Rightarrow> string \<Rightarrow> string" where
  "plain_url scheme host path = url_String (empty_url\<lparr>u_scheme := scheme, u_host := host, u_path := path\<rparr>)"

definition ControlURLFromServerAddr :: "string \<Rightarrow> string result" where
  "ControlURLFromServerAddr serverAddr =
     (let s = TrimSpace serverAddr in
      if s = [] then Inl (Msg ''server address is empty'')
      else if Contains s ''://'' then
        (case url_Parse s of
           None \<Rightarrow> Inl (Msg ''parse'')
         | Some u \<Rightarrow>
             if u_scheme u = ''ws'' \<or> u_scheme u = ''wss'' then
               Inr (url_String (if u_path u = [] \<or> u_path u = ''/'' then u\<lparr>u_path := ''/control''\<rparr> else u))
             else if u_scheme u = ''http'' \<or> u_scheme u = ''https'' then
               Inr (plain_url (if u_scheme u = ''https'' then ''wss'' else ''ws'') (u_host u)
                 (TrimSuffix (u_path u) ''/'' @ ''/control''))
             else Inl (Msg ''unsupported scheme''))
      else
        (let hostPart = TrimSpace (takeWhile (\<lambda>c. c \<noteq> CHR ''/'') s);
             pathPart = dropWhile (\<lambda>c. c \<noteq> CHR ''/'') s
         in if hostPart = [] then Inl (Msg ''invalid server address'')
            else
              (let scheme = (case SplitHostPort hostPart of
                      Some (_, port) \<Rightarrow> if port = ''443'' then ''wss'' else ''ws''
                    | None \<Rightarrow> ''wss'')
               in Inr (plain_url scheme hostPart (TrimSuffix pathPart ''/'' @ ''/control'')))))"

subsection \<open>Header lists in YAML (header_add_list.go)\<close>

datatype yaml_node =
    Scalar string string
  | Sequence "yaml_node list"
  | Mapping "yaml_node list"
  | Alias yaml_node
  | OtherNode

fun resolveYAMLAlias :: "yaml_node \<Rightarrow> yaml_node" where
  "resolveYAMLAlias (Alias n) = n"
| "resolveYAMLAlias n = n"

fun isYAMLNullNode :: "yaml_node \<Rightarrow> bool" where
  "isYAMLNullNode (Scalar tag v) = (tag = ''!!null'')"
| "isYAMLNullNode n = False"

fun mapping_entries :: "yaml_node list \<Rightarrow> string list result" where
  "mapping_entries [] = Inr []"
| "mapping_entries [n] = Inl (Msg ''invalid header mapping: odd number of mapping nodes'')"
| "mapping_entries (k # v # rest) =
     (case resolveYAMLAlias k of
        Scalar _ kv \<Rightarrow>
          (case resolveYAMLAlias v of
             Scalar _ vv \<Rightarrow>
               if TrimSpace kv = [] then Inl (Msg ''invalid header mapping: empty key'')
               else bind_res (mapping_entries rest) (\<lambda>es. Inr ((TrimSpace kv @ '': '' @ TrimSpace vv) # es))
           | _ \<Rightarrow> Inl (Msg ''invalid header mapping: unsupported value node kind''))
      | _ \<Rightarrow> Inl (Msg ''invalid header mapping: unsupported key node kind''))"

definition headerStringsFromMappingNode :: "yaml_node \<Rightarrow> string list result" where
  "headerStringsFromMappingNode n =
     (case n of
        Mapping content \<Rightarrow>
          if length content mod 2 \<noteq> 0 then Inl (Msg ''invalid header mapping: odd number of mapping nodes'')
          else mapping_entries content
      | _ \<Rightarrow> Inl (Msg ''invalid header mapping: unsupported YAML node kind''))"

definition header_item :: "yaml_node \<Rightarrow> string list result" where
  "header_item item =
     (let item = resolveYAMLAlias item in
      if isYAMLNullNode item then Inr []
      else
        (case item of
           Scalar _ v \<Rightarrow>
             if TrimSpace v = [] then Inl (Msg ''invalid header entry: empty string'') else Inr [TrimSpace v]
         | Mapping _ \<Rightarrow> headerStringsFromMappingNode item
         | _ \<Rightarrow> Inl (Msg ''invalid header entry: unsupported YAML node kind'')))"

definition unmarshal_header_list :: "yaml_node \<Rightarrow> string list result" where
  "unmarshal_header_list node =
     (let node = resolveYAMLAlias node in
      if isYAMLNullNode node then Inr []
      else
        (case node of
           Scalar _ v \<Rightarrow> Inr (if TrimSpace v = [] then [] else [TrimSpace v])
         | Sequence items \<Rightarrow> bind_res (map_res header_item items) (\<lambda>ess. Inr (concat ess))
         | Mapping _ \<Rightarrow> headerStringsFromMappingNode node
         | _ \<Rightarrow> Inl (Msg ''invalid header list: unsupported YAML node kind'')))"

lemmas [eval_simps] =
  filepath_Clean_def filepath_Join_def filepath_Dir_def plain_url_def ControlURLFromServerAddr_def
  headerStringsFromMappingNode_def header_item_def unmarshal_header_list_def Load_def stored_at_def
  save_version_def with_newline_def

subsection \<open>Properties\<close>

text \<open>What making directories does: the files stay, and only directories on the way to the wanted one
  appear.\<close>

lemma made_dirs:
  assumes "st \<in> set (MkdirAll fault d dir)"
  shows "dk_files st = dk_files d \<and> dk_dirs d \<subseteq> dk_dirs st \<and> dk_dirs st \<subseteq> dk_dirs d \<union> set (dir_chain dir)"
proof -
  have "set (take k (missing_dirs (dk_dirs d) dir)) \<subseteq> set (dir_chain dir)" for k
    using set_take_subset set_takeWhileD unfolding missing_dirs_def by (metis (no_types, lifting) set_rev subsetI subset_iff)
  then show ?thesis
    using assms by (auto simp: MkdirAll_def Let_def subset_iff)
qed

lemma MkdirAll_nonempty: "MkdirAll fault d dir \<noteq> []"
  by (simp add: MkdirAll_def Let_def)

lemma made_last: "List.last (MkdirAll fault d dir) \<in> set (MkdirAll fault d dir)"
  by (simp add: MkdirAll_nonempty)

lemmas file_steps = put_file_def os_Remove_def

text \<open>What a save goes through: the states of making the directories, and then states that differ from
  the last of these in the temporary file and the saved one only.\<close>

lemma save_states:
  assumes "Save marshal flt d path cfg = (r, trace)"
  shows "\<exists>rest. trace = MkdirAll (sf_mkdir flt) d (filepath_Dir path) @ rest
    \<and> (rest \<noteq> [] \<longrightarrow> (\<exists>tmp. sf_create flt = Inr tmp)) \<and> (r = Inr () \<longrightarrow> rest \<noteq> [])
    \<and> (\<forall>st\<in>set rest. \<exists>fs. st = (List.last (MkdirAll (sf_mkdir flt) d (filepath_Dir path)))\<lparr>dk_files := fs\<rparr>)"
  using assms by (auto simp: Save_def Let_def file_steps split: sum.splits option.splits prod.splits)

lemma save_file_states:
  assumes "Save marshal flt d path cfg = (r, trace)" and "sf_create flt = Inr tmp" and "dk_files d tmp = None" and "tmp \<noteq> path"
    and "st \<in> set trace"
  shows "dk_files st p = dk_files d p
    \<or> (p = path \<and> (\<exists>b. marshal (save_version cfg) = Inr b \<and> dk_files st p = Some (with_newline b, 384)))
    \<or> (p = tmp \<and> (\<exists>b. dk_files st p = Some (b, 384)))"
proof -
  have l: "dk_files (List.last (MkdirAll (sf_mkdir flt) d (filepath_Dir path))) = dk_files d"
    using made_dirs [OF made_last] by blast
  have m: "dk_files st p = dk_files d p" if "st \<in> set (MkdirAll (sf_mkdir flt) d (filepath_Dir path))" for st p
    using made_dirs [OF that] by simp
  show ?thesis
    using assms l m by (auto simp: Save_def Let_def file_steps split: sum.splits option.splits prod.splits if_splits)
qed

lemma save_ends:
  assumes "Save marshal flt d path cfg = (r, trace)"
    and "\<And>tmp. sf_create flt = Inr tmp \<Longrightarrow> dk_files d tmp = None \<and> tmp \<noteq> path"
  shows "(r \<noteq> Inr () \<longrightarrow> (\<forall>p. dk_files (List.last trace) p = dk_files d p \<or> (sf_create flt = Inr p \<and> sf_remove flt \<noteq> None)))
    \<and> (r = Inr () \<longrightarrow> (\<exists>b. marshal (save_version cfg) = Inr b
        \<and> dk_files (List.last trace) = (dk_files d)(path \<mapsto> (with_newline b, 384))))"
proof -
  have l: "dk_files (List.last (MkdirAll (sf_mkdir flt) d (filepath_Dir path))) = dk_files d"
    using made_dirs [OF made_last] by blast
  show ?thesis
    using assms l by (auto simp: Save_def Let_def file_steps fun_upd_idem split: sum.splits option.splits prod.splits)
qed

text \<open>C34: Saving replaces the file as a whole. When the name of the temporary file is new, at every
  moment of a save, whatever fails (making the directories, encoding, any operation on the temporary file, its
  removal), the file has its old content or the complete new one, readable by the owner alone; no other file
  changes but the temporary one, which only the owner can read; and no directory goes, nor does one appear that is
  not on the way to the file. When the save failed, the files are at the end as they were, but for the
  temporary file where its removal failed too (directories that were made stay); when it succeeded, they differ
  by the new content only.\<close>

theorem save_is_atomic:
  assumes "Save marshal flt d path cfg = (r, trace)"
    and "\<And>tmp. sf_create flt = Inr tmp \<Longrightarrow> dk_files d tmp = None \<and> tmp \<noteq> path"
  shows "(\<forall>st\<in>set trace.
        (\<forall>p. dk_files st p = dk_files d p
          \<or> (p = path \<and> (\<exists>b. marshal (save_version cfg) = Inr b \<and> dk_files st p = Some (with_newline b, 384)))
          \<or> (sf_create flt = Inr p \<and> (\<exists>b. dk_files st p = Some (b, 384))))
        \<and> dk_dirs d \<subseteq> dk_dirs st \<and> dk_dirs st \<subseteq> dk_dirs d \<union> set (dir_chain (filepath_Dir path)))
    \<and> (r \<noteq> Inr () \<longrightarrow> (\<forall>p. dk_files (List.last trace) p = dk_files d p \<or> (sf_create flt = Inr p \<and> sf_remove flt \<noteq> None)))
    \<and> (r = Inr () \<longrightarrow> (\<exists>b. marshal (save_version cfg) = Inr b
        \<and> dk_files (List.last trace) = (dk_files d)(path \<mapsto> (with_newline b, 384))))"
proof -
  let ?made = "MkdirAll (sf_mkdir flt) d (filepath_Dir path)"
  obtain rest where rest: "trace = ?made @ rest" "rest \<noteq> [] \<Longrightarrow> \<exists>tmp. sf_create flt = Inr tmp"
    "\<forall>st\<in>set rest. \<exists>fs. st = (List.last ?made)\<lparr>dk_files := fs\<rparr>"
    using save_states [OF assms(1)] by blast
  have dirs: "dk_dirs d \<subseteq> dk_dirs st \<and> dk_dirs st \<subseteq> dk_dirs d \<union> set (dir_chain (filepath_Dir path))" if "st \<in> set trace" for st
    using that rest(1,3) made_dirs [of st] made_dirs [OF made_last, of "sf_mkdir flt" d "filepath_Dir path"] by fastforce
  have files: "dk_files st p = dk_files d p
      \<or> (p = path \<and> (\<exists>b. marshal (save_version cfg) = Inr b \<and> dk_files st p = Some (with_newline b, 384)))
      \<or> (sf_create flt = Inr p \<and> (\<exists>b. dk_files st p = Some (b, 384)))" if "st \<in> set trace" for st p
  proof (cases "st \<in> set ?made")
    case True
    then show ?thesis using made_dirs by simp
  next
    case False
    with that rest(1,2) obtain tmp where "sf_create flt = Inr tmp" by fastforce
    with assms(2) save_file_states [OF assms(1) _ _ _ that] show ?thesis by blast
  qed
  show ?thesis using dirs files save_ends [OF assms] by blast
qed

text \<open>What is saved is what is loaded. If the YAML library reads back what it wrote (with or
  without a final newline), loading after a successful save gives the saved configuration, with
  version 1 when it had none.\<close>

theorem saved_config_loads:
  assumes "Save marshal flt d path cfg = (Inr (), trace)"
    and "\<And>tmp. sf_create flt = Inr tmp \<Longrightarrow> dk_files d tmp = None \<and> tmp \<noteq> path"
    and "\<And>c b. marshal c = Inr b \<Longrightarrow> unmarshal (with_newline b) = Inr c"
  shows "Load unmarshal (stored_at (List.last trace) path) = Inr (save_version cfg, True)"
  using save_ends [OF assms(1,2)] assms(3)
  by (auto simp: Load_def stored_at_def)

definition demo_faults :: save_faults where
  "demo_faults = \<lparr>sf_mkdir = None, sf_create = Inr ''t'', sf_chmod = Inr (), sf_write = None,
     sf_close = Inr (), sf_rename = Inr (), sf_remove = None\<rparr>"

definition demo_marshal :: "config_file \<Rightarrow> string result" where
  "demo_marshal c = (if c = empty_config\<lparr>cf_version := 1\<rparr> then Inr ''a'' else Inl (Msg ''yaml''))"

definition demo_disk :: disk where
  "demo_disk = \<lparr>dk_files = [''f'' \<mapsto> (''old'', 420)], dk_dirs = {''.''}\<rparr>"

lemma demo_save:
  "\<exists>trace. Save demo_marshal (demo_faults\<lparr>sf_rename := x\<rparr>) demo_disk ''f'' empty_config
      = (case x of Inl e \<Rightarrow> Inl e | Inr _ \<Rightarrow> Inr (), trace)"
  by (simp add: Save_def demo_faults_def demo_marshal_def save_version_def empty_config_def Let_def split: sum.split)

lemma demo_tmp: "sf_create (demo_faults\<lparr>sf_rename := x\<rparr>) = Inr tmp \<Longrightarrow> dk_files demo_disk tmp = None \<and> tmp \<noteq> ''f''"
  by (auto simp: demo_faults_def demo_disk_def)

theorem save_is_atomic_witness:
  "(\<exists>trace. Save demo_marshal (demo_faults\<lparr>sf_rename := Inr ()\<rparr>) demo_disk ''f'' empty_config = (Inr (), trace)
      \<and> dk_files (List.last trace) = [''f'' \<mapsto> (with_newline ''a'', 384)])
   \<and> (\<exists>trace. Save demo_marshal (demo_faults\<lparr>sf_rename := Inl (Msg ''full'')\<rparr>) demo_disk ''f'' empty_config = (Inl (Msg ''full''), trace)
      \<and> dk_files (List.last trace) = [''f'' \<mapsto> (''old'', 420)])"
proof -
  obtain good where g: "Save demo_marshal (demo_faults\<lparr>sf_rename := Inr ()\<rparr>) demo_disk ''f'' empty_config = (Inr (), good)"
    using demo_save [of "Inr ()"] by auto
  obtain bad where b: "Save demo_marshal (demo_faults\<lparr>sf_rename := Inl (Msg ''full'')\<rparr>) demo_disk ''f'' empty_config = (Inl (Msg ''full''), bad)"
    using demo_save [of "Inl (Msg ''full'')"] by auto
  have "\<exists>b. demo_marshal (save_version empty_config) = Inr b
      \<and> dk_files (List.last good) = (dk_files demo_disk)(''f'' \<mapsto> (with_newline b, 384))"
    using save_is_atomic [OF g demo_tmp [of "Inr ()"]] by blast
  then have "dk_files (List.last good) = [''f'' \<mapsto> (with_newline ''a'', 384)]"
    by (auto simp: demo_marshal_def save_version_def empty_config_def demo_disk_def)
  moreover have "\<forall>p. dk_files (List.last bad) p = dk_files demo_disk p"
    using save_is_atomic [OF b demo_tmp [of "Inl (Msg ''full'')"]] by (simp add: demo_faults_def)
  then have "dk_files (List.last bad) = [''f'' \<mapsto> (''old'', 420)]"
    by (simp add: fun_eq_iff demo_disk_def)
  ultimately show ?thesis using g b by blast
qed

theorem saved_config_loads_witness:
  "\<exists>trace. Save demo_marshal (demo_faults\<lparr>sf_rename := Inr ()\<rparr>) demo_disk ''f'' empty_config = (Inr (), trace)
    \<and> Load (\<lambda>b. Inr (empty_config\<lparr>cf_version := 1\<rparr>)) (stored_at (List.last trace) ''f'')
      = Inr (empty_config\<lparr>cf_version := 1\<rparr>, True)"
proof -
  obtain trace where t: "Save demo_marshal (demo_faults\<lparr>sf_rename := Inr ()\<rparr>) demo_disk ''f'' empty_config = (Inr (), trace)"
    using demo_save [of "Inr ()"] by auto
  have 2: "\<And>c b. demo_marshal c = Inr b \<Longrightarrow> (\<lambda>b. Inr (empty_config\<lparr>cf_version := 1\<rparr>)) (with_newline b) = Inr c"
    by (simp add: demo_marshal_def split: if_splits)
  from saved_config_loads [OF t demo_tmp [of "Inr ()"] 2] t show ?thesis
    by (auto simp: save_version_def empty_config_def)
qed

lemma escape_host_plain: "plain_authority hp \<Longrightarrow> escape_host hp = hp"
proof -
  assume hp: "plain_authority hp"
  have "(\<And>c. c \<in> set s \<Longrightarrow> host_byte c \<and> byte c < 128) \<Longrightarrow> escape_host s = s" for s
    by (induction s) (auto simp: escape_host_def)
  then show ?thesis using authority_chars [OF hp] by blast
qed

lemma control_path: "escape_path ''/control'' = ''/control''"
  by (simp add: escape_path_def path_plain_def query_plain_def is_lower_def is_upper_def is_digit_def)

lemma plain_url_control:
  assumes "plain_authority hp" and "sch \<noteq> []"
  shows "plain_url sch hp ''/control'' = sch @ ''://'' @ hp @ ''/control''"
proof -
  have "hp \<noteq> []" using assms(1) by (auto simp: plain_authority_def)
  then show ?thesis
    using assms(2) control_path
    by (simp add: plain_url_def url_String_def url_EscapedPath_def empty_url_def escape_host_plain [OF assms(1)] Let_def)
qed

lemma while_not_in:
  assumes "c \<notin> set xs"
  shows "takeWhile (\<lambda>d. d \<noteq> c) (xs @ ys) = xs @ takeWhile (\<lambda>d. d \<noteq> c) ys"
    and "dropWhile (\<lambda>d. d \<noteq> c) (xs @ ys) = dropWhile (\<lambda>d. d \<noteq> c) ys"
  using assms by (induction xs) auto

lemma authority_trim:
  assumes "plain_authority hp" and "list_all graphic s" and "list_all graphic sl"
  shows "TrimSpace (s @ hp @ sl) = s @ hp @ sl"
  by (rule TrimSpace_graphic_list) (use authority_chars [OF assms(1)] assms(2,3) in \<open>auto simp: list_all_iff\<close>)

text \<open>The control URL of a server address. An address given as http or https URL leads to the same
  host and port over ws or wss; a bare host to wss; a host with a port to wss exactly for port 443;
  a final slash makes no difference, and the path is always the control endpoint.\<close>

theorem control_url_of_server:
  assumes "list_all domain_byte h" and "h \<noteq> []" and "list_all is_digit p" and "p \<noteq> []"
    and "hp = h \<or> hp = h @ '':'' @ p" and "sl = [] \<or> sl = ''/''"
  shows "ControlURLFromServerAddr (''https://'' @ hp @ sl) = Inr (''wss://'' @ hp @ ''/control'')
    \<and> ControlURLFromServerAddr (''http://'' @ hp @ sl) = Inr (''ws://'' @ hp @ ''/control'')
    \<and> ControlURLFromServerAddr (hp @ sl) =
        Inr ((if hp = h \<or> p = ''443'' then ''wss://'' else ''ws://'') @ hp @ ''/control'')"
proof -
  have hp: "plain_authority hp"
    using assms(5) plain_authority_domain [OF assms(1,2)] plain_authority_port [OF assms(1,2,3)] by auto
  have sl: "sl \<in> {[], ''/''}" "list_all graphic sl" using assms(6) by (auto simp: graphic_def)
  have web: "ControlURLFromServerAddr (sch @ ''://'' @ hp @ sl)
      = Inr ((if sch = ''https'' then ''wss'' else ''ws'') @ ''://'' @ hp @ ''/control'')"
    if "sch \<in> {''http'', ''https''}" for sch
  proof -
    have "list_all graphic (sch @ ''://'')" using that by (auto simp: graphic_def)
    from authority_trim [OF hp this sl(2)] have trim: "TrimSpace (sch @ ''://'' @ hp @ sl) = sch @ ''://'' @ hp @ sl" by simp
    have has: "Contains (sch @ ''://'' @ hp @ sl) ''://''" unfolding Contains_iff by blast
    have ts: "TrimSuffix sl ''/'' @ ''/control'' = ''/control''"
      using assms(6) by (auto simp: TrimSuffix_def HasSuffix_def)
    show ?thesis
      unfolding ControlURLFromServerAddr_def Let_def trim url_Parse_web [OF hp that sl(1)]
      using that has ts plain_url_control [OF hp] by (auto simp: empty_url_def)
  qed
  have bare: "ControlURLFromServerAddr (hp @ sl) = Inr ((if hp = h \<or> p = ''443'' then ''wss://'' else ''ws://'') @ hp @ ''/control'')"
  proof -
    have trim: "TrimSpace (hp @ sl) = hp @ sl" "TrimSpace hp = hp"
      using authority_trim [OF hp _ sl(2), of "[]"] authority_trim [OF hp, of "[]" "[]"] by simp_all
    have no: "CHR ''/'' \<notin> set hp" using authority_chars [OF hp] by fastforce
    have "\<not> Contains (hp @ sl) ''://''"
    proof
      assume "Contains (hp @ sl) ''://''"
      then obtain u v where uv: "hp @ sl = u @ '':'' @ ''/'' @ ''/'' @ v" unfolding Contains_iff by auto
      have "count_list (hp @ sl) CHR ''/'' \<le> 1"
        using no assms(6) by (auto simp: count_list_0_iff [THEN iffD2])
      then show False unfolding uv by simp
    qed
    moreover have "takeWhile (\<lambda>c. c \<noteq> CHR ''/'') (hp @ sl) = hp" "dropWhile (\<lambda>c. c \<noteq> CHR ''/'') (hp @ sl) = sl"
      using assms(6) while_not_in [OF no] by auto
    moreover have "hp \<noteq> []" using hp by (auto simp: plain_authority_def)
    moreover have "TrimSuffix sl ''/'' @ ''/control'' = ''/control''"
      using assms(6) by (auto simp: TrimSuffix_def HasSuffix_def)
    moreover have "(case SplitHostPort hp of Some (_, port) \<Rightarrow> if port = ''443'' then ''wss'' else ''ws'' | None \<Rightarrow> ''wss'')
        = (if hp = h \<or> p = ''443'' then ''wss'' else ''ws'')"
    proof -
      have d: "CHR '':'' \<notin> set h" "plain_host h" using domain_chars [OF assms(1)] by blast+
      show ?thesis
      proof (cases "hp = h")
        case True
        have "SplitHostPort h = None" using d(1) by (simp add: SplitHostPort_def iffD2 [OF cut_last_None])
        with True show ?thesis by simp
      next
        case False
        then have eq: "hp = h @ '':'' @ p" using assms(5) by blast
        have "SplitHostPort (JoinHostPort h p) = Some (h, p)"
          using d digit_chars [OF assms(3)] by (intro SplitHostPort_Join) simp_all
        then have "SplitHostPort hp = Some (h, p)" using d(1) unfolding eq by (simp add: JoinHostPort_def)
        with False show ?thesis by simp
      qed
    qed
    ultimately show ?thesis
      unfolding ControlURLFromServerAddr_def Let_def trim using plain_url_control [OF hp]
      by (simp add: trim)
  qed
  show ?thesis using web [of "''https''"] web [of "''http''"] bare by simp
qed

theorem control_url_of_server_witness:
  "ControlURLFromServerAddr ''localhost:8080/'' = Inr ''ws://localhost:8080/control''"
proof -
  have "list_all domain_byte ''localhost''" "list_all is_digit ''8080''"
    by (simp_all add: domain_byte_def subdomain_byte_def is_lower_def is_digit_def)
  from control_url_of_server [OF this(1) _ this(2), of "''localhost:8080''" "''/''"] show ?thesis by simp
qed

end
