(* ===== verification/CliOptions.thy ===== *)
theory CliOptions
  imports Config ClientTunnel
begin

text \<open>
  What the commands of the client share: upstream targets (\<open>internal/cli/upstream.go\<close>), header
  and address options (\<open>headers.go\<close>, \<open>cidr.go\<close>), defaults from the environment and the
  configuration file (\<open>defaults.go\<close>, \<open>run.go\<close>), \<open>util.go\<close>,
  the listener of the inspector (\<open>listen_fallback.go\<close>) and what is printed when a tunnel is up
  (\<open>session_output.go\<close>). The environment is a function from names to values, empty when unset.
\<close>

subsection \<open>Upstream targets (upstream.go)\<close>

datatype upstream_error =
    EmptyUpstream
  | BadUpstreamUrl string
  | UnsupportedScheme string
  | BadUpstreamAddr string string

definition isPortLiteral :: "string \<Rightarrow> bool" where
  "isPortLiteral s = (case Atoi s of None \<Rightarrow> False | Some n \<Rightarrow> n \<ge> 1 \<and> n \<le> 65535)"

definition upstream_url_target :: "url \<Rightarrow> upstream_error + string \<times> string" where
  "upstream_url_target u =
     (let scheme = ToLower (TrimSpace (u_scheme u)) in
      if scheme \<noteq> ''http'' \<and> scheme \<noteq> ''https'' then Inl (UnsupportedScheme (u_scheme u))
      else if url_Hostname u = [] then Inl (BadUpstreamUrl ''missing host'')
      else if u_user u \<noteq> None then Inl (BadUpstreamUrl ''userinfo not supported'')
      else if u_path u \<noteq> [] \<and> u_path u \<noteq> ''/'' then Inl (BadUpstreamUrl ''path not supported'')
      else if u_raw_query u \<noteq> [] then Inl (BadUpstreamUrl ''query not supported'')
      else if u_fragment u \<noteq> [] then Inl (BadUpstreamUrl ''fragment not supported'')
      else
        (let port = url_Port u;
             port = (if port = [] then (if scheme = ''https'' then ''443'' else ''80'') else port)
         in if \<not> isPortLiteral port then Inl (BadUpstreamUrl ''invalid port'')
            else Inr (scheme, JoinHostPort (url_Hostname u) port)))"

text \<open>The end of both parsers, an address without a scheme.\<close>

definition upstream_host_port :: "string \<Rightarrow> string \<Rightarrow> upstream_error + string" where
  "upstream_host_port input raw =
     (if isPortLiteral raw then Inr (JoinHostPort ''127.0.0.1'' raw)
      else
        (case SplitHostPort raw of
           None \<Rightarrow> Inl (BadUpstreamAddr input ''split'')
         | Some (host, port) \<Rightarrow>
             if \<not> isPortLiteral port then Inl (BadUpstreamAddr input ''invalid port'')
             else Inr (JoinHostPort host port)))"

definition parseHTTPUpstreamTarget :: "string \<Rightarrow> upstream_error + string \<times> string" where
  "parseHTTPUpstreamTarget input =
     (let raw = TrimSpace input in
      if raw = [] then Inl EmptyUpstream
      else if Contains raw ''://'' then
        (case url_Parse raw of
           None \<Rightarrow> Inl (BadUpstreamUrl ''parse'')
         | Some u \<Rightarrow> upstream_url_target u)
      else bind_res (upstream_host_port input raw) (\<lambda>addr. Inr (''http'', addr)))"

definition parseTCPUpstreamAddr :: "string \<Rightarrow> upstream_error + string" where
  "parseTCPUpstreamAddr input =
     (let raw = TrimSpace input in
      if raw = [] then Inl EmptyUpstream
      else if Contains raw ''://'' then Inl (BadUpstreamAddr input ''scheme not supported'')
      else upstream_host_port input raw)"

subsection \<open>Header and address options (headers.go, cidr.go)\<close>

definition parseHeaderKV :: "string \<Rightarrow> string \<Rightarrow> client_header result" where
  "parseHeaderKV field raw =
     (let s = TrimSpace raw in
      if s = [] then Inl (InvalidEntry field raw)
      else
        (case (case Cut s '':'' of
                 (name, val, True) \<Rightarrow> (name, val, True)
               | (_, _, False) \<Rightarrow> Cut s ''='') of
           (name, val, ok) \<Rightarrow>
             if \<not> ok then Inl (InvalidEntry field raw)
             else
               bind_res (NormalizeHeaderName field name) (\<lambda>normName.
               bind_res (ValidateHeaderValue field raw val) (\<lambda>normValue.
                 Inr \<lparr>ch_name = normName, ch_value = normValue\<rparr>))))"

definition parseHeaderAddList :: "string \<Rightarrow> string list \<Rightarrow> client_header list result" where
  "parseHeaderAddList field values = (if values = [] then Inr [] else map_res (parseHeaderKV field) values)"

definition parseHeaderRemoveList :: "string \<Rightarrow> string list \<Rightarrow> string list result" where
  "parseHeaderRemoveList field values = (if values = [] then Inr [] else map_res (NormalizeHeaderName field) values)"

definition validateCIDRs :: "string \<Rightarrow> string list \<Rightarrow> unit result" where
  "validateCIDRs field values = bind_res (ParseCIDRList field values 0) (\<lambda>_. Inr ())"

subsection \<open>Defaults (defaults.go)\<close>

type_synonym os_env = "string \<Rightarrow> string"

definition getenv :: "os_env \<Rightarrow> string \<Rightarrow> string \<Rightarrow> string" where
  "getenv env key fallback = (if env key \<noteq> [] then env key else fallback)"

definition resolveServerAddrDefault :: "os_env \<Rightarrow> config_file \<Rightarrow> string" where
  "resolveServerAddrDefault env cfg =
     (let v = getenv env ''EOSRIFT_SERVER_ADDR'' [];
          v = (if v = [] then getenv env ''EOSRIFT_CONTROL_URL'' [] else v);
          v = (if v = [] then cf_server_addr cfg else v)
      in if v = [] then ''https://eosrift.com'' else v)"

definition resolveAuthtokenDefault :: "os_env \<Rightarrow> config_file \<Rightarrow> string" where
  "resolveAuthtokenDefault env cfg =
     (let v = getenv env ''EOSRIFT_AUTHTOKEN'' [];
          v = (if v = [] then getenv env ''EOSRIFT_AUTH_TOKEN'' [] else v)
      in if v = [] then cf_authtoken cfg else v)"

definition resolveInspectEnabledDefault :: "config_file \<Rightarrow> bool" where
  "resolveInspectEnabledDefault cfg = (case cf_inspect cfg of Some b \<Rightarrow> b | None \<Rightarrow> True)"

definition resolveInspectAddrDefault :: "os_env \<Rightarrow> config_file \<Rightarrow> string" where
  "resolveInspectAddrDefault env cfg =
     (let v = getenv env ''EOSRIFT_INSPECT_ADDR'' [];
          v = (if v = [] then cf_inspect_addr cfg else v)
      in if v = [] then ''127.0.0.1:4040'' else v)"

definition resolveHostHeaderDefault :: "config_file \<Rightarrow> string" where
  "resolveHostHeaderDefault cfg = (if TrimSpace (cf_host_header cfg) = [] then ''preserve'' else cf_host_header cfg)"

subsection \<open>Helpers (util.go)\<close>

definition controlHost :: "string \<Rightarrow> string" where
  "controlHost controlURL =
     (case url_Parse controlURL of
        None \<Rightarrow> controlURL
      | Some u \<Rightarrow> if url_Hostname u \<noteq> [] then url_Hostname u else controlURL)"

definition hop_by_hop :: "string list" where
  "hop_by_hop = [''Connection'', ''Proxy-Connection'', ''Keep-Alive'', ''Proxy-Authenticate'',
     ''Proxy-Authorization'', ''Te'', ''Trailer'', ''Transfer-Encoding'', ''Upgrade'']"

definition stripHopByHopHeaders :: "header \<Rightarrow> header" where
  "stripHopByHopHeaders h = hdr_Del_all hop_by_hop h"

subsection \<open>The inspector's listener (listen_fallback.go)\<close>

text \<open>\<open>listen\<close> is \<open>net.Listen\<close>: the address that is listened on, or the error, which may be
  that the address is in use.\<close>

datatype listen_error = AddrInUse | ListenFails go_error

fun listen_loop :: "(string \<Rightarrow> listen_error + string) \<Rightarrow> string \<Rightarrow> int list \<Rightarrow> listen_error + string" where
  "listen_loop listen host [] = Inl (ListenFails (Msg ''no free port available''))"
| "listen_loop listen host (port # ports) =
     (case listen (JoinHostPort host (Itoa port)) of
        Inr l \<Rightarrow> Inr l
      | Inl AddrInUse \<Rightarrow> listen_loop listen host ports
      | Inl (ListenFails e) \<Rightarrow> Inl (ListenFails e))"

definition listenTCPWithPortFallback ::
  "(string \<Rightarrow> listen_error + string) \<Rightarrow> string \<Rightarrow> int \<Rightarrow> listen_error + string" where
  "listenTCPWithPortFallback listen addr maxPort =
     (case SplitHostPort addr of
        None \<Rightarrow> listen addr
      | Some (host, portStr) \<Rightarrow>
          (case Atoi portStr of
             None \<Rightarrow> Inl (ListenFails (Msg ''invalid port''))
           | Some startPort \<Rightarrow>
               (let maxPort = (if maxPort \<le> 0 then startPort else maxPort) in
                if startPort > maxPort then listen addr
                else listen_loop listen host [startPort..maxPort])))"

subsection \<open>The session (session_output.go, start_cmd.go)\<close>

record session_output =
  so_version :: string
  so_status :: string
  so_forwarding_from :: string
  so_forwarding_to :: string
  so_inspector :: string

definition ansi :: "bool \<Rightarrow> string \<Rightarrow> string \<Rightarrow> string" where
  "ansi enabled code text =
     (if \<not> enabled \<or> text = [] then text
      else CHR 0x1B # ''['' @ code @ ''m'' @ text @ CHR 0x1B # ''[0m'')"

text \<open>The label is padded to 14 bytes; the arrow is written in UTF-8.\<close>

definition session_row :: "bool \<Rightarrow> string \<Rightarrow> string \<Rightarrow> string" where
  "session_row color label val =
     ''  '' @ ansi color ''90'' (label @ replicate (14 - length label) CHR '' '') @ ''  '' @ val @ [CHR 0x0A]"

definition forwarding_value :: "bool \<Rightarrow> string \<Rightarrow> string \<Rightarrow> string" where
  "forwarding_value color from to1 =
     ansi color ''94'' from @ '' '' @ ansi color ''90'' [CHR 0xE2, CHR 0x86, CHR 0x92] @ '' '' @ ansi color ''90'' to1"

definition session_head :: "bool \<Rightarrow> string \<Rightarrow> string \<Rightarrow> string" where
  "session_head color version status =
     [CHR 0x0A] @ ansi color ''35'' ''Eosrift'' @ '' '' @ ansi color ''90'' version @ [CHR 0x0A, CHR 0x0A]
     @ session_row color ''Session Status'' (ansi color ''32'' status) @ [CHR 0x0A]"

definition printSession :: "bool \<Rightarrow> session_output \<Rightarrow> string" where
  "printSession color s =
     session_head color (so_version s) (so_status s)
     @ (if so_forwarding_from s \<noteq> []
        then session_row color ''Forwarding'' (forwarding_value color (so_forwarding_from s) (so_forwarding_to s)) else [])
     @ (if so_inspector s \<noteq> [] then session_row color ''Inspector'' (ansi color ''94'' (so_inspector s)) else [])"

definition displayHostPort :: "string \<Rightarrow> string" where
  "displayHostPort addr =
     (case SplitHostPort addr of
        None \<Rightarrow> addr
      | Some (host, port) \<Rightarrow>
          (if host = ''127.0.0.1'' \<or> host = ''::1'' then ''localhost'' else host) @ '':'' @ port)"

lemmas [eval_simps] =
  isPortLiteral_def upstream_url_target_def upstream_host_port_def parseHTTPUpstreamTarget_def
  parseTCPUpstreamAddr_def parseHeaderKV_def parseHeaderAddList_def parseHeaderRemoveList_def
  validateCIDRs_def getenv_def resolveServerAddrDefault_def resolveAuthtokenDefault_def
  resolveInspectEnabledDefault_def resolveInspectAddrDefault_def resolveHostHeaderDefault_def
  controlHost_def hop_by_hop_def stripHopByHopHeaders_def listenTCPWithPortFallback_def
  ansi_def session_row_def forwarding_value_def session_head_def printSession_def displayHostPort_def

subsection \<open>Properties\<close>

lemma Cut_char_first: "Cut s [c] = (u, v, True) \<Longrightarrow> c \<notin> set u"
proof -
  assume u: "Cut s [c] = (u, v, True)"
  then have "c \<in> set s" using Cut_found by fastforce
  then obtain u' v' where s: "s = u' @ c # v'" "c \<notin> set u'" by (meson split_list_first)
  then show ?thesis using u Cut_char [OF s(2), of v'] by simp
qed

lemma cut_last_char: "cut_last c s = Some (u, v) \<Longrightarrow> c \<notin> set v"
  by (auto simp: cut_last_def split: prod.splits if_splits dest: Cut_char_first)

lemma Split_plain:
  assumes "SplitHostPort s = Some (h, p)"
  shows "plain_host h" "plain_host p" "CHR '':'' \<notin> set p" "set h \<union> set p \<subseteq> set s"
proof -
  obtain before where b: "cut_last CHR '':'' s = Some (before, p)"
    using assms by (auto simp: SplitHostPort_def split: option.splits if_splits prod.splits)
  have s: "s = before @ CHR '':'' # p" by (rule cut_last_Some [OF b])
  show "CHR '':'' \<notin> set p" by (rule cut_last_char [OF b])
  have "plain_host h \<and> plain_host p \<and> set h \<subseteq> set s"
  proof (cases "HasPrefix before ''[''")
    case True
    obtain host after found where c: "Cut (tl before) '']'' = (host, after, found)" by (metis prod_cases3)
    have h: "found" "after = []" "CHR ''['' \<notin> set host" "CHR ''['' \<notin> set p" "CHR '']'' \<notin> set p" "host = h"
      using assms True b c by (simp_all add: SplitHostPort_def split: if_splits)
    have "tl before = h @ '']''" "CHR '']'' \<notin> set h"
      using Cut_found [of "tl before" "'']''" host after] Cut_char_first [of "tl before" "CHR '']''" host after] c h by simp_all
    moreover from this have "set h \<subseteq> set before" by (metis list.set_sel(2) list.sel(2) set_append subsetI Un_iff)
    ultimately show ?thesis using h s by (auto simp: plain_host_def)
  next
    case False
    then have "before = h" "CHR ''['' \<notin> set s" "CHR '']'' \<notin> set s"
      using assms b by (simp_all add: SplitHostPort_def split: if_splits)
    then show ?thesis using s by (auto simp: plain_host_def)
  qed
  then show "plain_host h" "plain_host p" "set h \<union> set p \<subseteq> set s" using s by auto
qed

lemma Atoi_chars: "Atoi s = Some n \<Longrightarrow> s \<noteq> [] \<and> set s \<subseteq> {CHR ''+'', CHR ''-''} \<union> Collect is_digit"
  by (cases s) (auto simp: Atoi_def ParseInt_def split_sign_def list_all_iff Let_def split: if_splits)

lemma port_chars: "isPortLiteral p \<Longrightarrow> plain_host p \<and> list_all graphic p \<and> set p \<inter> {CHR '':'', CHR ''/''} = {}"
proof -
  assume "isPortLiteral p"
  then obtain n where "Atoi p = Some n" by (auto simp: isPortLiteral_def split: option.splits)
  then have "c \<in> set p \<Longrightarrow> c = CHR ''+'' \<or> c = CHR ''-'' \<or> is_digit c" for c using Atoi_chars by fastforce
  moreover have "is_digit c \<Longrightarrow> graphic c \<and> c \<notin> {CHR ''['', CHR '']'', CHR '':'', CHR ''/''}" for c
    by (auto simp: graphic_def is_digit_def)
  moreover have "graphic CHR ''+''" "graphic CHR ''-''" by (simp_all add: graphic_def)
  ultimately show ?thesis by (auto simp: plain_host_def list_all_iff)
qed

lemma upstream_canonical:
  assumes "plain_host h" and "isPortLiteral p" and "list_all graphic h" and "CHR ''/'' \<notin> set h"
  shows "parseTCPUpstreamAddr (JoinHostPort h p) = Inr (JoinHostPort h p)"
    "parseHTTPUpstreamTarget (JoinHostPort h p) = Inr (''http'', JoinHostPort h p)"
proof -
  let ?a = "JoinHostPort h p"
  have p: "plain_host p" "list_all graphic p" "CHR '':'' \<notin> set p" "CHR ''/'' \<notin> set p"
    using port_chars [OF assms(2)] by auto
  have "list_all graphic ?a" using assms(3) p(2) by (auto simp: JoinHostPort_def graphic_def)
  then have trim: "TrimSpace ?a = ?a" by (rule TrimSpace_graphic_list)
  have split: "SplitHostPort ?a = Some (h, p)" using assms(1) p by (intro SplitHostPort_Join)
  have "CHR ''/'' \<notin> set ?a" using assms(4) p(4) by (auto simp: JoinHostPort_def)
  then have url: "\<not> Contains ?a ''://''" by (auto simp: Contains_iff)
  have "CHR '':'' \<in> set ?a" by (simp add: JoinHostPort_def)
  then have port: "\<not> isPortLiteral ?a" using port_chars by blast
  have "?a \<noteq> []" by (simp add: JoinHostPort_def)
  then show "parseTCPUpstreamAddr ?a = Inr ?a" "parseHTTPUpstreamTarget ?a = Inr (''http'', ?a)"
    using trim split url port assms(2)
    by (simp_all add: parseTCPUpstreamAddr_def parseHTTPUpstreamTarget_def upstream_host_port_def)
qed

text \<open>Upstream addresses are brought into one form. What the parser accepts is a host and a port
  from 1 to 65535, which \<open>SplitHostPort\<close> takes apart again; parsing the result gives the same result, for
  TCP and for HTTP; a port alone means the local host.\<close>

theorem upstream_addresses_stable:
  assumes "parseTCPUpstreamAddr s = Inr a" and "list_all graphic s" and "CHR ''/'' \<notin> set s"
  shows "parseTCPUpstreamAddr a = Inr a \<and> parseHTTPUpstreamTarget s = Inr (''http'', a)
    \<and> (\<exists>h p n. a = JoinHostPort h p \<and> SplitHostPort a = Some (h, p) \<and> Atoi p = Some n \<and> 1 \<le> n \<and> n \<le> 65535
        \<and> (isPortLiteral s \<longrightarrow> h = ''127.0.0.1'' \<and> p = s))"
proof -
  have trim: "TrimSpace s = s" by (rule TrimSpace_graphic_list [OF assms(2)])
  have host: "upstream_host_port s s = Inr a" and s: "s \<noteq> []" "\<not> Contains s ''://''"
    using assms(1) by (auto simp: parseTCPUpstreamAddr_def trim split: if_splits)
  have http: "parseHTTPUpstreamTarget s = Inr (''http'', a)"
    using host s by (simp add: parseHTTPUpstreamTarget_def trim)
  have "\<exists>h p. a = JoinHostPort h p \<and> plain_host h \<and> isPortLiteral p \<and> list_all graphic h \<and> CHR ''/'' \<notin> set h
      \<and> (isPortLiteral s \<longrightarrow> h = ''127.0.0.1'' \<and> p = s)"
  proof (cases "isPortLiteral s")
    case True
    then have "a = JoinHostPort ''127.0.0.1'' s" using host by (simp add: upstream_host_port_def)
    moreover have "plain_host ''127.0.0.1''" "list_all graphic ''127.0.0.1''" "CHR ''/'' \<notin> set ''127.0.0.1''"
      by (simp_all add: plain_host_def graphic_def)
    ultimately show ?thesis using True by blast
  next
    case False
    then obtain h p where hp: "SplitHostPort s = Some (h, p)" "isPortLiteral p" "a = JoinHostPort h p"
      using host by (auto simp: upstream_host_port_def split: option.splits if_splits)
    from Split_plain [OF hp(1)] have "plain_host h" "set h \<subseteq> set s" by auto
    then have "list_all graphic h" "CHR ''/'' \<notin> set h" using assms(2,3) by (auto simp: list_all_iff)
    with hp \<open>plain_host h\<close> False show ?thesis by blast
  qed
  then obtain h p where hp: "a = JoinHostPort h p" "plain_host h" "isPortLiteral p" "list_all graphic h" "CHR ''/'' \<notin> set h"
    "isPortLiteral s \<longrightarrow> h = ''127.0.0.1'' \<and> p = s" by blast
  obtain n where "Atoi p = Some n" "1 \<le> n" "n \<le> 65535" using hp(3) by (auto simp: isPortLiteral_def split: option.splits)
  moreover have "SplitHostPort a = Some (h, p)"
    unfolding hp(1) using hp(2) port_chars [OF hp(3)] by (intro SplitHostPort_Join) auto
  ultimately show ?thesis using http hp upstream_canonical [OF hp(2-5)] by auto
qed

theorem upstream_addresses_stable_witness:
  "parseTCPUpstreamAddr ''[::1]:5432'' = Inr ''[::1]:5432'' \<and> parseHTTPUpstreamTarget ''[::1]:5432'' = Inr (''http'', ''[::1]:5432'')"
proof -
  have a: "parseTCPUpstreamAddr ''[::1]:5432'' = Inr ''[::1]:5432''"
    by (simp add: eval_simps Let_def)
  have "list_all graphic ''[::1]:5432''" "CHR ''/'' \<notin> set ''[::1]:5432''" by (simp_all add: graphic_def)
  from upstream_addresses_stable [OF a this] show ?thesis by blast
qed

end
