(* ===== verification/GoQuery.thy ===== *)
theory GoQuery
  imports GoUrl
begin

text \<open>
  Queries of \<open>net/url\<close>: escaping and unescaping, and what \<open>ParseQuery\<close> reads back
  from \<open>Values.Encode\<close>.
\<close>

lemma less_16_cases:
  "(n::nat) < 16 \<Longrightarrow> n \<in> {0, 1, 2, 3, 4, 5, 6, 7, 8, 9, 10, 11, 12, 13, 14, 15}"
  unfolding insert_iff empty_iff by presburger

lemma upper_hex_digit: "n < 16 \<Longrightarrow> hex_val (upper_hex n) = Some n \<and> query_plain (upper_hex n)"
  by (drule less_16_cases) (elim insertE emptyE; simp add: eval_simps)

lemma pct_decode_escape_byte: "pct_decode True (escape_byte c @ s) = map_option ((#) c) (pct_decode True s)"
proof -
  have "byte c div 16 < 16" using byte_less [of c] by linarith
  then have "hex_val (upper_hex (byte c div 16)) = Some (byte c div 16)"
    "hex_val (upper_hex (byte c mod 16)) = Some (byte c mod 16)"
    by (simp_all add: upper_hex_digit)
  moreover have "char_of (16 * (byte c div 16) + byte c mod 16) = c" by simp
  moreover have "query_plain c \<Longrightarrow> c \<noteq> CHR ''%'' \<and> c \<noteq> CHR ''+''"
    by (auto simp: query_plain_def is_lower_def is_upper_def is_digit_def)
  ultimately show ?thesis by (auto simp: escape_byte_def)
qed

lemma QueryUnescape_escape [simp]: "QueryUnescape (QueryEscape s) = Some s"
  unfolding QueryUnescape_def QueryEscape_def by (induction s) (simp_all add: pct_decode_escape_byte)

lemma escape_byte_chars: "d \<in> set (escape_byte c) \<Longrightarrow> query_plain d \<or> d = CHR ''+'' \<or> d = CHR ''%''"
proof -
  have "n < 16 \<Longrightarrow> query_plain (upper_hex n)" for n by (simp add: upper_hex_digit)
  moreover have "byte c div 16 < 16" using byte_less [of c] by linarith
  ultimately show "d \<in> set (escape_byte c) \<Longrightarrow> query_plain d \<or> d = CHR ''+'' \<or> d = CHR ''%''"
    by (auto simp: escape_byte_def split: if_splits)
qed

lemma QueryEscape_chars: "CHR ''&'' \<notin> set (QueryEscape s) \<and> CHR ''='' \<notin> set (QueryEscape s) \<and> CHR '';'' \<notin> set (QueryEscape s)"
proof -
  have "\<not> (query_plain d \<or> d = CHR ''+'' \<or> d = CHR ''%'')" if "d \<in> {CHR ''&'', CHR ''='', CHR '';''}" for d
    using that by (auto simp: query_plain_def is_lower_def is_upper_def is_digit_def)
  then show ?thesis using escape_byte_chars by (fastforce simp: QueryEscape_def)
qed

definition encode_pair :: "string \<times> string \<Rightarrow> string" where
  "encode_pair p = QueryEscape (fst p) @ ''='' @ QueryEscape (snd p)"

lemma query_pair_encode: "query_pair (encode_pair p) = Some p"
proof -
  have "Cut (QueryEscape (fst p) @ CHR ''='' # QueryEscape (snd p)) ''='' = (QueryEscape (fst p), QueryEscape (snd p), True)"
    using QueryEscape_chars by (intro Cut_char) blast
  then show ?thesis using QueryEscape_chars by (simp add: query_pair_def encode_pair_def)
qed

lemma ParseQuery_Encode: "ParseQuery (Encode ps) = sort_key fst ps"
proof (cases "ps = []")
  case True
  then show ?thesis by (simp add: ParseQuery_def Encode_def query_pair_def List.map_filter_def)
next
  case False
  let ?es = "map encode_pair (sort_key fst ps)"
  have enc: "Encode ps = Join_char CHR ''&'' ?es" by (simp add: Encode_def encode_pair_def [abs_def] case_prod_beta')
  have "?es \<noteq> []" using False by (metis length_0_conv length_map length_sort)
  moreover have "CHR ''&'' \<notin> set e" if "e \<in> set ?es" for e
    using that QueryEscape_chars by (auto simp: encode_pair_def)
  ultimately have "Split_char CHR ''&'' (Encode ps) = ?es" unfolding enc by (rule Split_Join_char)
  then have "ParseQuery (Encode ps) = List.map_filter query_pair ?es" by (simp add: ParseQuery_def)
  also have "\<dots> = sort_key fst ps" by (simp add: List.map_filter_def query_pair_encode comp_def)
  finally show ?thesis .
qed

end
