(* ===== verification/Inspect.thy ===== *)
theory Inspect
  imports GoQuery "HOL-Library.Word" "HOL-Library.Multiset"
begin

text \<open>
  The request inspector of the client, \<open>internal/inspect/store.go\<close>, \<open>redact.go\<close> and
  the handler of \<open>http.go\<close>: the bounded history of exchanges, the redaction of what it
  keeps, and the local API with its replay. A time is \<open>None\<close> when it is Go's zero time; the
  counter of ids has its 64 bits.
\<close>

subsection \<open>Redaction (redact.go)\<close>

record inspect_entry =
  en_id :: string
  en_started_at :: "int option"
  en_duration_ms :: int
  en_tunnel_id :: string
  en_method :: string
  en_path :: string
  en_host :: string
  en_status_code :: int
  en_bytes_in :: int
  en_bytes_out :: int
  en_request_headers :: header
  en_response_headers :: header

definition RedactedValue :: string where
  "RedactedValue = ''REDACTED''"

definition sensitiveHeaders :: "string list" where
  "sensitiveHeaders = [''Authorization'', ''Proxy-Authorization'', ''Cookie'', ''Set-Cookie'', ''X-Api-Key'',
     ''X-Auth-Token'', ''X-Access-Token'']"

fun redact_names :: "string list \<Rightarrow> header \<Rightarrow> header" where
  "redact_names [] out = out"
| "redact_names (name # names) out =
     redact_names names (if hdr_Get out name \<noteq> [] then hdr_Set name RedactedValue out else out)"

definition redactHeaders :: "header \<Rightarrow> header" where
  "redactHeaders h = redact_names sensitiveHeaders h"

definition isSensitiveQueryKey :: "string \<Rightarrow> bool" where
  "isSensitiveQueryKey key \<longleftrightarrow> ToLower (TrimSpace key) \<in> set
     [''token'', ''access_token'', ''refresh_token'', ''auth'', ''apikey'', ''api_key'', ''key'', ''signature'',
      ''sig'', ''password'', ''pass'', ''passwd'', ''secret'']"

definition redact_pair :: "string \<times> string \<Rightarrow> string \<times> string" where
  "redact_pair p = (if isSensitiveQueryKey (fst p) then (fst p, RedactedValue) else p)"

definition redact_url :: "url \<Rightarrow> url" where
  "redact_url u =
     (let q = ParseQuery (u_raw_query u) in
      if list_ex (\<lambda>p. isSensitiveQueryKey (fst p)) q then u\<lparr>u_raw_query := Encode (map redact_pair q)\<rparr> else u)"

definition redactPath :: "string \<Rightarrow> string" where
  "redactPath path =
     (let path = TrimSpace path in
      if path = [] then []
      else (case url_ParseRequestURI path of
              None \<Rightarrow> path
            | Some u \<Rightarrow> url_RequestURI (redact_url u)))"

definition redactEntry :: "inspect_entry \<Rightarrow> inspect_entry" where
  "redactEntry e =
     e\<lparr>en_path := redactPath (en_path e),
       en_request_headers := redactHeaders (en_request_headers e),
       en_response_headers := redactHeaders (en_response_headers e)\<rparr>"

subsection \<open>The store (store.go)\<close>

record inspect_store =
  is_max_entries :: int
  is_next_id :: "64 word"
  is_entries :: "inspect_entry list"

definition NewStore :: "int \<Rightarrow> inspect_store" where
  "NewStore maxEntries =
     \<lparr>is_max_entries = (if maxEntries \<le> 0 then 200 else maxEntries), is_next_id = 0, is_entries = []\<rparr>"

definition label_entry :: "64 word \<Rightarrow> int \<Rightarrow> inspect_entry \<Rightarrow> inspect_entry" where
  "label_entry n now e =
     redactEntry (e\<lparr>en_id := dec_digits (unat n),
       en_started_at := (case en_started_at e of None \<Rightarrow> Some now | Some t \<Rightarrow> Some t)\<rparr>)"

definition inspect_Add :: "int \<Rightarrow> inspect_entry \<Rightarrow> inspect_store \<Rightarrow> inspect_entry \<times> inspect_store" where
  "inspect_Add now e s =
     (let n = is_next_id s + 1;
          e = label_entry n now e;
          es = is_entries s @ [e];
          es = (if int (length es) > is_max_entries s then drop (length es - nat (is_max_entries s)) es else es)
      in (e, s\<lparr>is_next_id := n, is_entries := es\<rparr>))"

definition inspect_List :: "inspect_store \<Rightarrow> inspect_entry list" where
  "inspect_List s = rev (is_entries s)"

definition inspect_Get :: "inspect_store \<Rightarrow> string \<Rightarrow> inspect_entry option" where
  "inspect_Get s i = find (\<lambda>e. en_id e = i) (is_entries s)"

subsection \<open>The local API (http.go)\<close>

text \<open>A reply is a plain response, or what is given to the JSON encoder; with it the entry that
  was replayed, if any. \<open>replay\<close> is the option of that name.\<close>

datatype inspect_reply =
    Plain http_response
  | Requests "inspect_entry list"
  | Replayed int
  | ReplayError string

datatype inspect_route = IndexRoute | ListRoute | ReplayRoute

definition inspect_routes :: "(mux_pattern \<times> inspect_route) list" where
  "inspect_routes =
     [(Subtree [], IndexRoute),
      (Exact [''api'', ''requests''], ListRoute),
      (Subtree [''api'', ''requests''], ReplayRoute)]"

definition inspector_page :: http_response where
  "inspector_page =
     \<lparr>rs_status = 200,
      rs_header = hdr_Set ''Cache-Control'' ''no-store'' (hdr_Set ''Content-Type'' ''text/html; charset=utf-8'' no_header),
      rs_body = Asset ''inspectorIndexHTML''\<rparr>"

definition replay_request ::
  "inspect_store \<Rightarrow> (inspect_entry \<Rightarrow> string + int) option \<Rightarrow> http_request \<Rightarrow> inspect_reply \<times> inspect_entry option" where
  "replay_request s replay r =
     (if rq_method r \<noteq> ''POST'' then (Plain http_NotFound, None)
      else
        (case Split_char CHR ''/'' (TrimPrefix (rq_path r) ''/api/requests/'') of
           [i, action] \<Rightarrow>
             if i = [] \<or> action \<noteq> ''replay'' then (Plain http_NotFound, None)
             else
               (case inspect_Get s i of
                  None \<Rightarrow> (Plain http_NotFound, None)
                | Some e \<Rightarrow>
                    (case replay of
                       None \<Rightarrow> (Plain (http_Error no_header ''replay not configured'' 501), None)
                     | Some run \<Rightarrow>
                         (case run e of
                            Inl err \<Rightarrow> (ReplayError err, Some e)
                          | Inr status \<Rightarrow> (Replayed status, Some e))))
         | _ \<Rightarrow> (Plain http_NotFound, None)))"

fun serve_inspect ::
  "inspect_store \<Rightarrow> (inspect_entry \<Rightarrow> string + int) option \<Rightarrow> inspect_route \<Rightarrow> http_request
    \<Rightarrow> inspect_reply \<times> inspect_entry option" where
  "serve_inspect s replay IndexRoute r =
     (Plain (if rq_path r \<noteq> ''/'' then http_NotFound else inspector_page), None)"
| "serve_inspect s replay ListRoute r =
     (if rq_method r \<noteq> ''GET'' then (Plain (http_Error no_header ''method not allowed'' 405), None)
      else (Requests (inspect_List s), None))"
| "serve_inspect s replay ReplayRoute r = replay_request s replay r"

text \<open>The multiplexer's own redirects are left to the caller (\<open>None\<close>).\<close>

definition inspect_Handler ::
  "inspect_store \<Rightarrow> (inspect_entry \<Rightarrow> string + int) option \<Rightarrow> http_request
    \<Rightarrow> (inspect_reply \<times> inspect_entry option) option" where
  "inspect_Handler s replay r =
     (case mux_handler inspect_routes r of
        MuxHandler h \<Rightarrow> Some (serve_inspect s replay h r)
      | MuxRedirect p q \<Rightarrow> None
      | MuxNotFound \<Rightarrow> Some (Plain http_NotFound, None))"

lemmas [eval_simps] =
  RedactedValue_def sensitiveHeaders_def redactHeaders_def isSensitiveQueryKey_def redact_pair_def
  redact_url_def redactPath_def redactEntry_def NewStore_def label_entry_def inspect_Add_def
  inspect_List_def inspect_Get_def inspect_routes_def inspector_page_def replay_request_def inspect_Handler_def

subsection \<open>The history\<close>

text \<open>All entries ever added, oldest first, as they are stored.\<close>

definition history :: "(int \<times> inspect_entry) list \<Rightarrow> inspect_entry list" where
  "history xs = map (\<lambda>k. label_entry (of_nat (Suc k)) (fst (xs ! k)) (snd (xs ! k))) [0..<length xs]"

definition add_all :: "(int \<times> inspect_entry) list \<Rightarrow> inspect_store \<Rightarrow> inspect_store" where
  "add_all xs s = fold (\<lambda>(now, e) s. snd (inspect_Add now e s)) xs s"

definition capacity :: "int \<Rightarrow> nat" where
  "capacity maxEntries = (if maxEntries \<le> 0 then 200 else nat maxEntries)"

lemma history_snoc: "history (xs @ [x]) = history xs @ [label_entry (of_nat (Suc (length xs))) (fst x) (snd x)]"
  by (simp add: history_def nth_append)

lemma length_history [simp]: "length (history xs) = length xs"
  by (simp add: history_def)

lemma add_all_store:
  "add_all xs (NewStore m) =
     \<lparr>is_max_entries = int (capacity m), is_next_id = of_nat (length xs),
      is_entries = drop (length xs - capacity m) (history xs)\<rparr>"
proof (induction xs rule: rev_induct)
  case Nil
  then show ?case by (simp add: add_all_def NewStore_def capacity_def history_def)
next
  case (snoc x xs)
  obtain now e where x: "x = (now, e)" by fastforce
  have split: "add_all (xs @ [x]) (NewStore m) = snd (inspect_Add now e (add_all xs (NewStore m)))"
    by (simp add: add_all_def x)
  show ?case
    unfolding split snoc.IH inspect_Add_def Let_def inspect_store.simps nat_int
    by (auto simp: history_snoc x Suc_diff_le add.commute)
qed

lemma entry_id: "en_id (label_entry n now e) = dec_digits (unat n)"
  by (simp add: label_entry_def redactEntry_def)

lemma near_words_differ:
  assumes "i < j" and "j - i < 2 ^ 64"
  shows "(of_nat i :: 64 word) \<noteq> of_nat j"
proof
  assume "(of_nat i :: 64 word) = of_nat j"
  then have "(of_nat (j - i) :: 64 word) = 0" using assms(1) by (simp add: of_nat_diff)
  then have "2 ^ 64 dvd j - i" by (simp add: word_of_nat_eq_0_iff)
  with assms show False by (simp add: nat_dvd_not_less)
qed

lemma dec_digits_inj: "dec_digits m = dec_digits n \<longleftrightarrow> m = n"
  by (metis dec_val_dec_digits)

lemma kept_ids_distinct:
  assumes "c < 2 ^ 64"
  shows "distinct (map en_id (drop (length xs - c) (history xs)))"
proof -
  let ?d = "length xs - c"
  have "map en_id (drop ?d (history xs)) = map (\<lambda>k. dec_digits (unat (of_nat (Suc k) :: 64 word))) [?d..<length xs]"
    by (simp add: history_def drop_map drop_upt entry_id comp_def del: of_nat_Suc)
  moreover have "inj_on (\<lambda>k. dec_digits (unat (of_nat (Suc k) :: 64 word))) (set [?d..<length xs])"
  proof (rule linorder_inj_onI', goal_cases)
    case (1 i j)
    then have "j - i < c" by auto
    with assms 1 have "(of_nat (Suc i) :: 64 word) \<noteq> of_nat (Suc j)"
      by (intro near_words_differ) auto
    then show ?case by (simp add: dec_digits_inj word_unat_eq_iff del: of_nat_Suc)
  qed
  ultimately show ?thesis by (simp add: distinct_map)
qed

lemma find_distinct: "distinct (map f es) \<Longrightarrow> find (\<lambda>e. f e = i) es = Some e \<longleftrightarrow> e \<in> set es \<and> f e = i"
  by (induction es) (auto simp: image_iff)

text \<open>C36: The inspector's store is the recent history. After any additions its list is the
  redacted entries added last, newest first, at most as many as configured (200 without a positive
  limit), and a lookup finds exactly the listed entries by their ids, which never coincide although
  the counter has only 64 bits.\<close>

theorem store_is_recent_history:
  assumes "int64_range m"
  shows "inspect_List (add_all xs (NewStore m)) = take (if m \<le> 0 then 200 else nat m) (rev (history xs))
    \<and> (\<forall>i e. inspect_Get (add_all xs (NewStore m)) i = Some e \<longleftrightarrow>
          e \<in> set (inspect_List (add_all xs (NewStore m))) \<and> en_id e = i)"
proof -
  have c: "capacity m < 2 ^ 64" using assms by (auto simp: capacity_def int64_range_def)
  have es: "is_entries (add_all xs (NewStore m)) = drop (length xs - capacity m) (history xs)"
    by (simp add: add_all_store)
  have "take (capacity m) (rev (history xs)) = rev (drop (length xs - capacity m) (history xs))"
    by (simp add: take_rev)
  moreover have "inspect_Get (add_all xs (NewStore m)) i = Some e \<longleftrightarrow>
      e \<in> set (inspect_List (add_all xs (NewStore m))) \<and> en_id e = i" for i e
    using find_distinct [OF kept_ids_distinct [OF c, of xs]] by (simp add: inspect_Get_def inspect_List_def es)
  ultimately show ?thesis by (simp add: inspect_List_def es capacity_def)
qed

definition demo_exchange :: "string \<Rightarrow> inspect_entry" where
  "demo_exchange path =
     \<lparr>en_id = [], en_started_at = Some 7, en_duration_ms = 3, en_tunnel_id = ''app'', en_method = ''GET'',
      en_path = path, en_host = ''app.example.com'', en_status_code = 200, en_bytes_in = 10, en_bytes_out = 20,
      en_request_headers = no_header, en_response_headers = no_header\<rparr>"

theorem store_is_recent_history_witness:
  "inspect_List (add_all [(1, demo_exchange ''/a''), (2, demo_exchange ''/b'')] (NewStore 1))
    = [label_entry 2 2 (demo_exchange ''/b'')]"
proof -
  have "int64_range 1" by (simp add: int64_range_def)
  from conjunct1 [OF store_is_recent_history [OF this, of "[(1, demo_exchange ''/a''), (2, demo_exchange ''/b'')]"]]
  show ?thesis by (simp add: history_def)
qed

subsection \<open>What an entry shows\<close>

lemma redact_names_values:
  "hdr_values (redact_names names h) k =
    (if CanonicalHeaderKey k \<in> CanonicalHeaderKey ` set names \<and> hdr_Get h k \<noteq> [] then [RedactedValue]
     else hdr_values h k)"
proof (induction names arbitrary: h)
  case Nil
  then show ?case by simp
next
  case (Cons n ns)
  have r: "RedactedValue \<noteq> []" by (simp add: RedactedValue_def)
  have g: "CanonicalHeaderKey k = CanonicalHeaderKey n \<Longrightarrow> hdr_Get h k = hdr_Get h n"
    by (simp add: hdr_Get_def hdr_values_def)
  show ?case
    by (simp add: Cons.IH, cases "CanonicalHeaderKey k = CanonicalHeaderKey n")
      (auto simp: r g hdr_values_def)
qed

lemma redact_url_query:
  "\<exists>q. redact_url u = u\<lparr>u_raw_query := q\<rparr> \<and> mset (ParseQuery q) = mset (map redact_pair (ParseQuery (u_raw_query u)))"
proof (cases "list_ex (\<lambda>p. isSensitiveQueryKey (fst p)) (ParseQuery (u_raw_query u))")
  case True
  then show ?thesis
    by (intro exI [of _ "Encode (map redact_pair (ParseQuery (u_raw_query u)))"])
      (simp add: redact_url_def Let_def ParseQuery_Encode)
next
  case False
  then have "map redact_pair (ParseQuery (u_raw_query u)) = ParseQuery (u_raw_query u)"
    by (intro map_idI) (auto simp: redact_pair_def list_ex_iff)
  with False show ?thesis
    by (intro exI [of _ "u_raw_query u"]) (simp add: redact_url_def Let_def)
qed

lemma redact_pair_safe: "p \<in> redact_pair ` A \<Longrightarrow> isSensitiveQueryKey (fst p) \<Longrightarrow> snd p = RedactedValue"
  by (auto simp: redact_pair_def split: if_splits)

text \<open>C37: What the redaction of an entry hides, exactly. In both header maps, a sensitive header
  whose first value is not empty reads as the one value of the placeholder, and every other header
  (a sensitive one whose first value is empty included) is as it was. When the path parses as a request
  URI, the entry's path is that URI with another query: what the query parser reads of it are, with their
  multiplicities, the pairs it read of the recorded query, with the placeholder for the value of every
  sensitive key. Pairs the parser drops (a semicolon, a bad escape) are outside the claim: the code leaves them when
  no parsed key is sensitive and loses them when one is. The theorem \<open>redaction_gaps\<close> shows a secret
  that each of the two gaps lets through.\<close>

theorem entries_hide_secrets:
  "(\<forall>k. hdr_values (en_request_headers (redactEntry e)) k =
      (if CanonicalHeaderKey k \<in> CanonicalHeaderKey ` set sensitiveHeaders \<and> hdr_Get (en_request_headers e) k \<noteq> []
       then [RedactedValue] else hdr_values (en_request_headers e) k)
    \<and> hdr_values (en_response_headers (redactEntry e)) k =
      (if CanonicalHeaderKey k \<in> CanonicalHeaderKey ` set sensitiveHeaders \<and> hdr_Get (en_response_headers e) k \<noteq> []
       then [RedactedValue] else hdr_values (en_response_headers e) k))
   \<and> (url_ParseRequestURI (TrimSpace (en_path e)) = Some u \<longrightarrow>
      (\<exists>q. en_path (redactEntry e) = url_RequestURI (u\<lparr>u_raw_query := q\<rparr>)
        \<and> mset (ParseQuery q) = mset (map redact_pair (ParseQuery (u_raw_query u)))
        \<and> (\<forall>p. p \<in> set (ParseQuery q) \<and> isSensitiveQueryKey (fst p) \<longrightarrow> snd p = RedactedValue)))"
proof (intro conjI allI impI)
  assume u: "url_ParseRequestURI (TrimSpace (en_path e)) = Some u"
  then have "TrimSpace (en_path e) \<noteq> []"
    by (auto simp: url_ParseRequestURI_def url_parse_def)
  with u have path: "en_path (redactEntry e) = url_RequestURI (redact_url u)"
    by (simp add: redactEntry_def redactPath_def)
  obtain q where q: "redact_url u = u\<lparr>u_raw_query := q\<rparr>"
    "mset (ParseQuery q) = mset (map redact_pair (ParseQuery (u_raw_query u)))"
    using redact_url_query by blast
  have "set (ParseQuery q) = redact_pair ` set (ParseQuery (u_raw_query u))"
    using arg_cong [OF q(2), of set_mset] by simp
  then have "\<forall>p. p \<in> set (ParseQuery q) \<and> isSensitiveQueryKey (fst p) \<longrightarrow> snd p = RedactedValue"
    using redact_pair_safe by blast
  with path q show "\<exists>q. en_path (redactEntry e) = url_RequestURI (u\<lparr>u_raw_query := q\<rparr>)
        \<and> mset (ParseQuery q) = mset (map redact_pair (ParseQuery (u_raw_query u)))
        \<and> (\<forall>p. p \<in> set (ParseQuery q) \<and> isSensitiveQueryKey (fst p) \<longrightarrow> snd p = RedactedValue)"
    by metis
qed (simp_all add: redactEntry_def redactHeaders_def redact_names_values)

theorem entries_hide_secrets_witness:
  "\<exists>u q. en_path (redactEntry (demo_exchange ''/x?a=1&token=s'')) = url_RequestURI (u\<lparr>u_raw_query := q\<rparr>)
    \<and> mset (ParseQuery q) = {#(''a'', ''1''), (''token'', RedactedValue)#}"
proof -
  let ?e = "demo_exchange ''/x?a=1&token=s''"
  obtain u where u: "url_ParseRequestURI (TrimSpace (en_path ?e)) = Some u" "u_raw_query u = ''a=1&token=s''"
    by (simp add: demo_exchange_def eval_simps)
  have "map redact_pair (ParseQuery ''a=1&token=s'') = [(''a'', ''1''), (''token'', RedactedValue)]"
    by (simp add: eval_simps)
  with conjunct2 [OF entries_hide_secrets [of ?e u]] u show ?thesis by auto
qed

text \<open>What escapes redaction: a sensitive header whose first value is empty keeps its other values,
  and a parameter the query parser drops (here for its semicolon) stays in the path.\<close>

theorem redaction_gaps:
  "hdr_values (redactHeaders [''Cookie'' \<mapsto> [[], v]]) ''Cookie'' = [[], v]
   \<and> redactPath ''/x?token=secret;'' = ''/x?token=secret;''"
proof -
  have "CanonicalHeaderKey ''Cookie'' = ''Cookie''" by (simp add: eval_simps)
  then have "hdr_values (redactHeaders [''Cookie'' \<mapsto> [[], v]]) ''Cookie'' = [[], v]"
    by (simp add: redactHeaders_def redact_names_values) (simp add: hdr_Get_def hdr_values_def)
  moreover have "redactPath ''/x?token=secret;'' = ''/x?token=secret;''"
    by (simp add: eval_simps)
  ultimately show ?thesis by blast
qed

subsection \<open>Replay\<close>

text \<open>The inspector replays only what it holds: an exchange is run again only for a POST, only when
  its id is listed in the store and the path is exactly that id's replay path, and then once.\<close>

theorem replay_only_stored:
  assumes "inspect_Handler s replay r = Some (reply, Some e)"
  shows "rq_method r = ''POST'' \<and> e \<in> set (inspect_List s)
    \<and> TrimPrefix (rq_path r) ''/api/requests/'' = en_id e @ ''/replay''
    \<and> (\<exists>run. replay = Some run \<and> reply = (case run e of Inl x \<Rightarrow> ReplayError x | Inr st \<Rightarrow> Replayed st))"
proof -
  obtain h where h: "serve_inspect s replay h r = (reply, Some e)"
    using assms by (auto simp: inspect_Handler_def split: mux_result.splits)
  then have run: "replay_request s replay r = (reply, Some e)"
    by (cases h) (auto split: if_splits)
  then obtain i action where parts: "Split_char CHR ''/'' (TrimPrefix (rq_path r) ''/api/requests/'') = [i, action]"
    by (auto simp: replay_request_def split: if_splits list.splits)
  have "Join_char CHR ''/'' [i, action] = TrimPrefix (rq_path r) ''/api/requests/''"
    using Join_Split_char [of "CHR ''/''" "TrimPrefix (rq_path r) ''/api/requests/''"] unfolding parts .
  then have path: "TrimPrefix (rq_path r) ''/api/requests/'' = i @ CHR ''/'' # action" by simp
  have "rq_method r = ''POST''" "action = ''replay''" "inspect_Get s i = Some e"
    "\<exists>run. replay = Some run \<and> reply = (case run e of Inl x \<Rightarrow> ReplayError x | Inr st \<Rightarrow> Replayed st)"
    using run parts by (auto simp: replay_request_def split: if_splits option.splits sum.splits)
  moreover have "e \<in> set (inspect_List s) \<and> en_id e = i"
    using \<open>inspect_Get s i = Some e\<close> by (auto simp: inspect_Get_def inspect_List_def find_Some_iff)
  ultimately show ?thesis using path by simp
qed

definition demo_replay :: http_request where
  "demo_replay = \<lparr>rq_method = ''POST'', rq_host = ''127.0.0.1:4040'', rq_path = ''/api/requests/1/replay'',
     rq_escaped_path = ''/api/requests/1/replay'', rq_raw_query = [], rq_header = no_header,
     rq_remote_addr = ''127.0.0.1:5000'', rq_tls = False\<rparr>"

theorem replay_only_stored_witness:
  "\<exists>e. inspect_Handler (add_all [(1, demo_exchange ''/a'')] (NewStore 5)) (Some (\<lambda>e. Inr 200)) demo_replay
      = Some (Replayed 200, Some e)
    \<and> e \<in> set (inspect_List (add_all [(1, demo_exchange ''/a'')] (NewStore 5)))"
proof -
  let ?s = "add_all [(1, demo_exchange ''/a'')] (NewStore 5)"
  let ?e = "label_entry 1 1 (demo_exchange ''/a'')"
  have "dec_digits 1 = ''1''" by (subst dec_digits.simps) (simp add: char_of_numeral bit_one_zero)
  then have "en_id ?e = ''1''" by (simp add: entry_id)
  moreover have "is_entries ?s = [?e]" by (simp add: add_all_store capacity_def history_def)
  ultimately have "inspect_Get ?s ''1'' = Some ?e" by (simp add: inspect_Get_def)
  moreover have "Split_char CHR ''/'' (TrimPrefix ''/api/requests/1/replay'' ''/api/requests/'') = [''1'', ''replay'']"
    "mux_handler inspect_routes demo_replay = MuxHandler ReplayRoute"
    by (simp_all add: demo_replay_def eval_simps)
  ultimately have run: "inspect_Handler ?s (Some (\<lambda>e. Inr 200)) demo_replay = Some (Replayed 200, Some ?e)"
    by (simp add: inspect_Handler_def replay_request_def demo_replay_def)
  from replay_only_stored [OF this] run show ?thesis by blast
qed

end
