(* ===== verification/StartCmd.thy ===== *)
theory StartCmd
  imports CliOptions Inspect
begin

text \<open>
  The tunnels of the configuration file, \<open>internal/cli/start_cmd.go\<close>: their validation, how they
  are started, the wait for all of them, and the replay of recorded requests to their upstreams.
\<close>

subsection \<open>Validation\<close>

record named_tunnel =
  nt_name :: string
  nt_tunnel :: config_tunnel

text \<open>Every problem is reported with the name of the tunnel.\<close>

datatype tunnel_problem =
    ProtoRequired
  | AddrRequired
  | InvalidTunnelAddr string upstream_error
  | BadUpstream upstream_error
  | Misused string
  | Refused go_error
  | UnsupportedProto string

datatype tunnel_error = EmptyName | TunnelError string tunnel_problem

definition map_err :: "('e \<Rightarrow> 'f) \<Rightarrow> 'e + 'a \<Rightarrow> 'f + 'a" where
  "map_err f r = (case r of Inl e \<Rightarrow> Inl (f e) | Inr v \<Rightarrow> Inr v)"

definition forbid :: "bool \<Rightarrow> string \<Rightarrow> tunnel_problem + unit" where
  "forbid bad msg = (if bad then Inl (Misused msg) else Inr ())"

definition checked :: "go_error + 'a \<Rightarrow> tunnel_problem + unit" where
  "checked r = (case r of Inl e \<Rightarrow> Inl (Refused e) | Inr _ \<Rightarrow> Inr ())"

fun first_problem :: "('e + unit) list \<Rightarrow> 'e + unit" where
  "first_problem [] = Inr ()"
| "first_problem (c # cs) = (case c of Inl e \<Rightarrow> Inl e | Inr _ \<Rightarrow> first_problem cs)"

definition http_checks :: "config_tunnel \<Rightarrow> string \<Rightarrow> (tunnel_problem + unit) list" where
  "http_checks t addr =
     [map_err (InvalidTunnelAddr addr) (bind_res (parseHTTPUpstreamTarget addr) (\<lambda>_. Inr ())),
      forbid (TrimSpace (tn_domain t) \<noteq> [] \<and> TrimSpace (tn_subdomain t) \<noteq> [])
        ''only one of domain or subdomain may be set'',
      forbid (TrimSpace (tn_basic_auth t) \<noteq> [] \<and> \<not> Contains (TrimSpace (tn_basic_auth t)) '':'')
        ''basic_auth must be in the form user:pass'',
      checked (ParseHTTPMethodList ''allow_method'' (tn_allow_method t) 0),
      checked (ParsePathList ''allow_path'' (tn_allow_path t) 0),
      checked (ParsePathList ''allow_path_prefix'' (tn_allow_path_prefix t) 0),
      checked (validateCIDRs ''allow_cidr'' (tn_allow_cidr t)),
      checked (validateCIDRs ''deny_cidr'' (tn_deny_cidr t)),
      checked (parseHeaderAddList ''request_header_add'' (tn_request_header_add t)),
      checked (parseHeaderRemoveList ''request_header_remove'' (tn_request_header_remove t)),
      checked (parseHeaderAddList ''response_header_add'' (tn_response_header_add t)),
      checked (parseHeaderRemoveList ''response_header_remove'' (tn_response_header_remove t)),
      forbid (tn_remote_port t \<noteq> 0) ''remote_port is only valid for tcp tunnels'']"

definition tcp_checks :: "config_tunnel \<Rightarrow> string \<Rightarrow> (tunnel_problem + unit) list" where
  "tcp_checks t addr =
     [map_err (InvalidTunnelAddr addr) (bind_res (parseTCPUpstreamAddr addr) (\<lambda>_. Inr ())),
      forbid (tn_remote_port t < 0) ''remote_port must be >= 0'',
      forbid (TrimSpace (tn_domain t) \<noteq> []) ''domain is only valid for http tunnels'',
      forbid (TrimSpace (tn_subdomain t) \<noteq> []) ''subdomain is only valid for http tunnels'',
      forbid (TrimSpace (tn_basic_auth t) \<noteq> []) ''basic_auth is only valid for http tunnels'',
      forbid (tn_allow_method t \<noteq> []) ''allow_method is only valid for http tunnels'',
      forbid (tn_allow_path t \<noteq> []) ''allow_path is only valid for http tunnels'',
      forbid (tn_allow_path_prefix t \<noteq> []) ''allow_path_prefix is only valid for http tunnels'',
      forbid (tn_allow_cidr t \<noteq> []) ''allow_cidr is only valid for http tunnels'',
      forbid (tn_deny_cidr t \<noteq> []) ''deny_cidr is only valid for http tunnels'',
      forbid (tn_request_header_add t \<noteq> []) ''request_header_add is only valid for http tunnels'',
      forbid (tn_request_header_remove t \<noteq> []) ''request_header_remove is only valid for http tunnels'',
      forbid (tn_response_header_add t \<noteq> []) ''response_header_add is only valid for http tunnels'',
      forbid (tn_response_header_remove t \<noteq> []) ''response_header_remove is only valid for http tunnels'',
      forbid (TrimSpace (tn_host_header t) \<noteq> []) ''host_header is only valid for http tunnels'']"

definition tunnel_proto :: "config_tunnel \<Rightarrow> string" where
  "tunnel_proto t = ToLower (TrimSpace (tn_proto t))"

definition validate_tunnel :: "named_tunnel \<Rightarrow> tunnel_error + unit" where
  "validate_tunnel nt =
     (let t = nt_tunnel nt; addr = TrimSpace (tn_addr t) in
      if TrimSpace (nt_name nt) = [] then Inl EmptyName
      else
        map_err (TunnelError (nt_name nt))
          (if tunnel_proto t = [] then Inl ProtoRequired
           else if addr = [] then Inl AddrRequired
           else if tunnel_proto t = ''http'' then first_problem (http_checks t addr)
           else if tunnel_proto t = ''tcp'' then first_problem (tcp_checks t addr)
           else Inl (UnsupportedProto (tunnel_proto t))))"

definition validateNamedTunnels :: "named_tunnel list \<Rightarrow> tunnel_error + unit" where
  "validateNamedTunnels ts = first_problem (map validate_tunnel ts)"

definition needsInspector :: "named_tunnel list \<Rightarrow> bool \<Rightarrow> bool" where
  "needsInspector ts inspectDefault =
     list_ex (\<lambda>nt. EqualFold (TrimSpace (tn_proto (nt_tunnel nt))) ''http''
       \<and> (case tn_inspect (nt_tunnel nt) of Some b \<Rightarrow> b | None \<Rightarrow> inspectDefault)) ts"

subsection \<open>Starting\<close>

record replay_target =
  rt_scheme :: string
  rt_addr :: string
  rt_tls_skip_verify :: bool

type_synonym replay_targets = "string \<rightharpoonup> replay_target"

text \<open>What the tunnels are started with; \<open>sc_store\<close> tells whether there is an inspector. The
  client's calls meet the server at \<open>sc_http\<close> and \<open>sc_tcp\<close>, by the position of the tunnel.\<close>

record start_context =
  sc_control_url :: string
  sc_authtoken :: string
  sc_default_host_header :: string
  sc_inspect_default :: bool
  sc_store :: bool
  sc_tls_skip_verify :: bool
  sc_http :: "nat \<Rightarrow> create_http_request \<Rightarrow> create_http_response attempt"
  sc_tcp :: "nat \<Rightarrow> create_tcp_request \<Rightarrow> create_tcp_response attempt"

text \<open>A started tunnel holds the tunnel its \<open>Wait\<close> and \<open>Close\<close> refer to; an HTTP tunnel
  also tells whether its exchanges are recorded.\<close>

datatype running = RunningHttp http_tunnel bool | RunningTcp tcp_tunnel

record started_tunnel =
  st_name :: string
  st_from :: string
  st_to :: string
  st_running :: running

definition tunnel_host_header :: "start_context \<Rightarrow> config_tunnel \<Rightarrow> string" where
  "tunnel_host_header sc t =
     (let h = TrimSpace (tn_host_header t);
          h = (if h = [] then TrimSpace (sc_default_host_header sc) else h)
      in if h = [] then ''preserve'' else h)"

definition tunnel_inspected :: "start_context \<Rightarrow> config_tunnel \<Rightarrow> bool" where
  "tunnel_inspected sc t =
     (case tn_inspect t of Some b \<Rightarrow> sc_store sc \<and> b | None \<Rightarrow> sc_store sc \<and> sc_inspect_default sc)"

text \<open>The upstream and the options of an HTTP tunnel.\<close>

definition http_options ::
  "start_context \<Rightarrow> config_tunnel \<Rightarrow> tunnel_problem + string \<times> string \<times> http_tunnel_opts" where
  "http_options sc t =
     bind_res (map_err BadUpstream (parseHTTPUpstreamTarget (tn_addr t))) (\<lambda>(upstreamScheme, localAddr).
     bind_res (map_err Refused (parseHeaderAddList ''request_header_add'' (tn_request_header_add t))) (\<lambda>reqAdd.
     bind_res (map_err Refused (parseHeaderRemoveList ''request_header_remove'' (tn_request_header_remove t))) (\<lambda>reqRemove.
     bind_res (map_err Refused (parseHeaderAddList ''response_header_add'' (tn_response_header_add t))) (\<lambda>respAdd.
     bind_res (map_err Refused (parseHeaderRemoveList ''response_header_remove'' (tn_response_header_remove t))) (\<lambda>respRemove.
     bind_res (map_err Refused (ParseHTTPMethodList ''allow_method'' (tn_allow_method t) 0)) (\<lambda>allowMethods.
     bind_res (map_err Refused (ParsePathList ''allow_path'' (tn_allow_path t) 0)) (\<lambda>allowPaths.
     bind_res (map_err Refused (ParsePathList ''allow_path_prefix'' (tn_allow_path_prefix t) 0)) (\<lambda>allowPathPrefixes.
       Inr (upstreamScheme, localAddr,
         \<lparr>ho_authtoken = sc_authtoken sc, ho_subdomain = TrimSpace (tn_subdomain t),
          ho_domain = TrimSpace (tn_domain t), ho_basic_auth = TrimSpace (tn_basic_auth t),
          ho_allow_methods = allowMethods, ho_allow_paths = allowPaths,
          ho_allow_path_prefixes = allowPathPrefixes, ho_allow_cidrs = tn_allow_cidr t,
          ho_deny_cidrs = tn_deny_cidr t, ho_request_header_add = reqAdd,
          ho_request_header_remove = reqRemove, ho_response_header_add = respAdd,
          ho_response_header_remove = respRemove, ho_host_header = tunnel_host_header sc t,
          ho_upstream_scheme = upstreamScheme, ho_upstream_tls_skip_verify = sc_tls_skip_verify sc,
          ho_capture_bytes = 0\<rparr>)))))))))"

definition start_http ::
  "start_context \<Rightarrow> nat \<Rightarrow> named_tunnel \<Rightarrow> replay_targets \<Rightarrow> (tunnel_problem + started_tunnel) \<times> replay_targets" where
  "start_http sc k nt m =
     (case http_options sc (nt_tunnel nt) of
        Inl e \<Rightarrow> (Inl e, m)
      | Inr (upstreamScheme, localAddr, opts) \<Rightarrow>
          (case fst (StartHTTPTunnelWithOptions (sc_http sc k) localAddr opts) of
             Inl e \<Rightarrow> (Inl (Refused e), m)
           | Inr tun \<Rightarrow>
               (Inr \<lparr>st_name = nt_name nt, st_from = ht_url tun, st_to = displayHostPort localAddr,
                     st_running = RunningHttp tun (tunnel_inspected sc (nt_tunnel nt))\<rparr>,
                m(ht_id tun \<mapsto> \<lparr>rt_scheme = upstreamScheme, rt_addr = localAddr,
                                 rt_tls_skip_verify = sc_tls_skip_verify sc\<rparr>))))"

definition start_tcp :: "start_context \<Rightarrow> nat \<Rightarrow> named_tunnel \<Rightarrow> tunnel_problem + started_tunnel" where
  "start_tcp sc k nt =
     bind_res (map_err BadUpstream (parseTCPUpstreamAddr (tn_addr (nt_tunnel nt)))) (\<lambda>localAddr.
       if tn_remote_port (nt_tunnel nt) < 0 then Inl (Misused ''remote_port must be >= 0'')
       else
         (case fst (StartTCPTunnelWithOptions (sc_tcp sc k) localAddr (sc_authtoken sc) (tn_remote_port (nt_tunnel nt))) of
            Inl e \<Rightarrow> Inl (Refused e)
          | Inr tun \<Rightarrow>
              Inr \<lparr>st_name = nt_name nt,
                   st_from = ''tcp://'' @ controlHost (sc_control_url sc) @ '':'' @ Itoa (tt_remote_port tun),
                   st_to = displayHostPort localAddr, st_running = RunningTcp tun\<rparr>))"

definition start_tunnel ::
  "start_context \<Rightarrow> nat \<Rightarrow> named_tunnel \<Rightarrow> replay_targets \<Rightarrow> (tunnel_error + started_tunnel) \<times> replay_targets" where
  "start_tunnel sc k nt m =
     (let proto = tunnel_proto (nt_tunnel nt) in
      if TrimSpace (nt_name nt) = [] then (Inl EmptyName, m)
      else if proto = [] then (Inl (TunnelError (nt_name nt) ProtoRequired), m)
      else if proto = ''http'' then apfst (map_err (TunnelError (nt_name nt))) (start_http sc k nt m)
      else if proto = ''tcp'' then (map_err (TunnelError (nt_name nt)) (start_tcp sc k nt), m)
      else (Inl (TunnelError (nt_name nt) (UnsupportedProto proto)), m))"

fun start_loop ::
  "start_context \<Rightarrow> nat \<Rightarrow> named_tunnel list \<Rightarrow> replay_targets
    \<Rightarrow> (tunnel_error + started_tunnel list) \<times> replay_targets" where
  "start_loop sc k [] m = (Inr [], m)"
| "start_loop sc k (nt # ts) m =
     (case start_tunnel sc k nt m of
        (Inl e, m1) \<Rightarrow> (Inl e, m1)
      | (Inr s, m1) \<Rightarrow>
          (case start_loop sc (Suc k) ts m1 of
             (Inl e, m2) \<Rightarrow> (Inl e, m2)
           | (Inr ss, m2) \<Rightarrow> (Inr (s # ss), m2)))"

definition startNamedTunnels ::
  "start_context \<Rightarrow> named_tunnel list \<Rightarrow> replay_targets \<Rightarrow> (tunnel_error + started_tunnel list) \<times> replay_targets" where
  "startNamedTunnels sc ts m = start_loop sc 0 ts m"

subsection \<open>Waiting\<close>

text \<open>The loop receives the end of the context or the result of the \<open>Wait\<close> of a tunnel, in the
  order of the list; \<open>None\<close> while it still waits. The second component counts how often all
  tunnels were closed.\<close>

datatype wait_event = ContextEnded go_error | TunnelEnded "go_error option"

fun wait_loop :: "nat \<Rightarrow> go_error option \<Rightarrow> nat \<Rightarrow> wait_event list \<Rightarrow> (go_error option \<times> nat) option" where
  "wait_loop 0 firstErr closes evs = Some (firstErr, closes)"
| "wait_loop (Suc n) firstErr closes [] = None"
| "wait_loop (Suc n) firstErr closes (ContextEnded e # evs) = Some (Some e, Suc closes)"
| "wait_loop (Suc n) firstErr closes (TunnelEnded err # evs) =
     (if firstErr = None then wait_loop n err (Suc closes) evs else wait_loop n firstErr closes evs)"

definition waitAll :: "started_tunnel list \<Rightarrow> wait_event list \<Rightarrow> (go_error option \<times> nat) option" where
  "waitAll ts evs = (if ts = [] then Some (None, 0) else wait_loop (length ts) None 0 evs)"

subsection \<open>Replaying\<close>

record replayed =
  rp_method :: string
  rp_url :: string
  rp_host :: string
  rp_header :: header
  rp_tls_skip_verify :: bool

definition validMethod :: "string \<Rightarrow> bool" where
  "validMethod m \<longleftrightarrow> m \<noteq> [] \<and> list_all token_byte m"

text \<open>The request that is sent for an entry and a target. \<open>http.NewRequest\<close> fails for an invalid
  method and for a URL that does not parse; an empty method is a GET.\<close>

definition replay_to :: "replay_target \<Rightarrow> inspect_entry \<Rightarrow> replayed result" where
  "replay_to target e =
     (case url_ParseRequestURI (en_path e) of
        None \<Rightarrow> Inl (Msg ''invalid URI for request'')
      | Some u \<Rightarrow>
          (let dst = url_String (empty_url\<lparr>u_scheme := rt_scheme target, u_host := rt_addr target,
                       u_path := u_path u, u_raw_query := u_raw_query u\<rparr>);
               m = (if en_method e = [] then ''GET'' else en_method e)
           in if \<not> validMethod m then Inl (Msg ''net/http: invalid method'')
              else
                (case url_Parse dst of
                   None \<Rightarrow> Inl (Msg ''parse'')
                 | Some v \<Rightarrow>
                     Inr \<lparr>rp_method = m, rp_url = dst,
                          rp_host = (if en_host e \<noteq> [] then en_host e else TrimSuffix (u_host v) '':''),
                          rp_header = hdr_Del ''Transfer-Encoding'' (hdr_Del ''Content-Length''
                            (stripHopByHopHeaders (en_request_headers e))),
                          rp_tls_skip_verify = (rt_scheme target = ''https'' \<and> rt_tls_skip_verify target)\<rparr>)))"

text \<open>\<open>send\<close> stands for \<open>http.Client.Do\<close> on a fresh client with a timeout: it is given the
  first request, and its result is the status of the last response. The client has Go's default policy, which follows
  up to ten redirects, to other hosts too; those later requests are inside \<open>send\<close>.\<close>

definition ReplayFunc :: "(replayed \<Rightarrow> int result) \<Rightarrow> replay_targets \<Rightarrow> inspect_entry \<Rightarrow> int result" where
  "ReplayFunc send m e =
     (case m (en_tunnel_id e) of
        None \<Rightarrow> Inl (Msg ''unknown tunnel'')
      | Some target \<Rightarrow>
          if rt_addr target = [] then Inl (Msg ''unknown tunnel'')
          else bind_res (replay_to target e) send)"

lemmas [eval_simps] =
  map_err_def forbid_def checked_def http_checks_def tcp_checks_def tunnel_proto_def validate_tunnel_def
  validateNamedTunnels_def needsInspector_def tunnel_host_header_def tunnel_inspected_def
  http_options_def start_http_def start_tcp_def start_tunnel_def startNamedTunnels_def waitAll_def
  validMethod_def replay_to_def ReplayFunc_def

subsection \<open>What the server accepts\<close>

text \<open>The limits the server puts on the lists of an HTTP tunnel, and a credential with a user.\<close>

definition within_limits :: "http_tunnel_opts \<Rightarrow> bool" where
  "within_limits o1 \<longleftrightarrow>
     length (ho_allow_methods o1) \<le> 64 \<and> length (ho_allow_paths o1) \<le> 64 \<and> length (ho_allow_path_prefixes o1) \<le> 64
     \<and> length (ho_allow_cidrs o1) \<le> 64 \<and> length (ho_deny_cidrs o1) \<le> 64
     \<and> length (ho_request_header_add o1) \<le> 64 \<and> length (ho_request_header_remove o1) \<le> 64
     \<and> length (ho_response_header_add o1) \<le> 64 \<and> length (ho_response_header_remove o1) \<le> 64"

definition names_user :: "string \<Rightarrow> bool" where
  "names_user s \<longleftrightarrow> TrimSpace s = [] \<or> TrimSpace (fst (Cut (TrimSpace s) '':'')) \<noteq> []"

lemma ok_res_bind: "ok_res (bind_res r f) \<longleftrightarrow> (\<exists>v. r = Inr v \<and> ok_res (f v))"
  by (cases r) simp_all

lemma parse_options_ok:
  "ok_res (parse_options req) \<longleftrightarrow>
     ok_res (parseBasicAuthCredential (http_basic_auth req))
     \<and> ok_res (ParseCIDRList ''allow_cidr'' (http_allow_cidr req) 64)
     \<and> ok_res (ParseCIDRList ''deny_cidr'' (http_deny_cidr req) 64)
     \<and> ok_res (ParseHTTPMethodList ''allow_method'' (http_allow_method req) 64)
     \<and> ok_res (ParsePathList ''allow_path'' (http_allow_path req) 64)
     \<and> ok_res (ParsePathList ''allow_path_prefix'' (http_allow_path_prefix req) 64)
     \<and> ok_res (parseHeaderNameList ''request_header_remove'' (http_request_header_remove req))
     \<and> ok_res (parseHeaderKVList ''request_header_add'' (http_request_header_add req))
     \<and> ok_res (parseHeaderNameList ''response_header_remove'' (http_response_header_remove req))
     \<and> ok_res (parseHeaderKVList ''response_header_add'' (http_response_header_add req))"
  unfolding parse_options_def maxCIDREntries_def maxAllowlistEntries_def
  by (simp only: ok_res_bind ok_res_simps simp_thms ex_simps) (simp only: ok_res_iff)

text \<open>A list that was parsed without a limit is accepted under a limit exactly when it is short
  enough, whatever the field is called.\<close>

lemma limit_64: "too_many 64 xs \<longleftrightarrow> \<not> length xs \<le> 64"
  by (auto simp: too_many_def)

lemma methods_again:
  "ParseHTTPMethodList f xs 0 = Inr ys \<Longrightarrow> ok_res (ParseHTTPMethodList g ys 64) \<longleftrightarrow> length ys \<le> 64"
  using methods.reparse [of f xs 0 ys g]
  by (auto simp: ok_res_iff methods.accepts_iff limit_64)

lemma paths_again:
  "ParsePathList f xs 0 = Inr ys \<Longrightarrow> ok_res (ParsePathList g ys 64) \<longleftrightarrow> length ys \<le> 64"
  using paths.reparse [of f xs 0 ys g]
  by (auto simp: ok_res_iff paths.accepts_iff limit_64)

lemma cidrs_again:
  "validateCIDRs f xs = Inr () \<Longrightarrow> ok_res (ParseCIDRList f xs 64) \<longleftrightarrow> length xs \<le> 64"
  by (auto simp: validateCIDRs_def result_simps ok_res_iff cidrs.accepts_iff limit_64)

lemma names_again:
  assumes "parseHeaderRemoveList f xs = Inr ys"
  shows "ok_res (parseHeaderNameList g ys) \<longleftrightarrow> length ys \<le> 64"
proof -
  have "map_res (NormalizeHeaderName f) xs = Inr ys"
    using assms by (auto simp: parseHeaderRemoveList_def split: if_splits)
  then have "\<forall>y \<in> set ys. ok_res (NormalizeHeaderName g y)"
    by (fastforce simp: ok_res_iff dest: map_res_range NormalizeHeaderName_idem)
  then show ?thesis
    by (auto simp: parseHeaderNameList_def maxHeaderTransformEntries_def map_res_ok_iff)
qed

lemma parseHeaderKV_Inr:
  assumes "parseHeaderKV f raw = Inr kv"
  shows "\<exists>name val. NormalizeHeaderName f name = Inr (ch_name kv) \<and> ValidateHeaderValue f raw val = Inr (ch_value kv)"
proof -
  obtain name val ok where c: "(case Cut (TrimSpace raw) '':'' of (name, val, True) \<Rightarrow> (name, val, True)
      | (_, _, False) \<Rightarrow> Cut (TrimSpace raw) ''='') = (name, val, ok)"
    by (metis prod_cases3)
  with assms have "bind_res (NormalizeHeaderName f name) (\<lambda>n. bind_res (ValidateHeaderValue f raw val)
      (\<lambda>v. Inr \<lparr>ch_name = n, ch_value = v\<rparr>)) = Inr kv"
    unfolding parseHeaderKV_def Let_def c by (simp split: if_splits)
  then show ?thesis by (auto simp: result_simps)
qed

lemma headers_again:
  assumes "parseHeaderAddList f xs = Inr ys"
  shows "ok_res (parseHeaderKVList g (toControlHeaderKVs ys)) \<longleftrightarrow> length ys \<le> 64"
proof -
  have xs: "map_res (parseHeaderKV f) xs = Inr ys"
    using assms by (auto simp: parseHeaderAddList_def split: if_splits)
  have "ok_res (header_kv_entry g \<lparr>kv_name = ch_name y, kv_value = ch_value y\<rparr>)" if y: "y \<in> set ys" for y
  proof -
    obtain x where x: "parseHeaderKV f x = Inr y" using map_res_range [OF xs y] by blast
    obtain n v where "NormalizeHeaderName f n = Inr (ch_name y)" "ValidateHeaderValue f x v = Inr (ch_value y)"
      using parseHeaderKV_Inr [OF x] by blast
    then show ?thesis
      by (simp add: header_kv_entry_def NormalizeHeaderName_idem ValidateHeaderValue_idem)
  qed
  then show ?thesis
    by (auto simp: parseHeaderKVList_def toControlHeaderKVs_def maxHeaderTransformEntries_def map_res_ok_iff)
qed

lemma credential_again:
  assumes "TrimSpace s = [] \<or> Contains (TrimSpace s) '':''"
  shows "ok_res (parseBasicAuthCredential s) \<longleftrightarrow> names_user s"
proof (cases "TrimSpace s = []")
  case True
  then show ?thesis by (simp add: parseBasicAuthCredential_def names_user_def)
next
  case False
  with assms have "snd (snd (Cut (TrimSpace s) '':''))"
    by (auto simp: Contains_def Cut_def split: option.splits)
  with False show ?thesis
    by (auto simp: parseBasicAuthCredential_def names_user_def Let_def split: prod.splits)
qed

lemma options_accepted:
  assumes "TrimSpace (ho_basic_auth o1) = [] \<or> Contains (TrimSpace (ho_basic_auth o1)) '':''"
    and "ParseHTTPMethodList ''allow_method'' ms 0 = Inr (ho_allow_methods o1)"
    and "ParsePathList ''allow_path'' ps 0 = Inr (ho_allow_paths o1)"
    and "ParsePathList ''allow_path_prefix'' pps 0 = Inr (ho_allow_path_prefixes o1)"
    and "validateCIDRs ''allow_cidr'' (ho_allow_cidrs o1) = Inr ()"
    and "validateCIDRs ''deny_cidr'' (ho_deny_cidrs o1) = Inr ()"
    and "parseHeaderAddList ''request_header_add'' qa = Inr (ho_request_header_add o1)"
    and "parseHeaderRemoveList ''request_header_remove'' qr = Inr (ho_request_header_remove o1)"
    and "parseHeaderAddList ''response_header_add'' ra = Inr (ho_response_header_add o1)"
    and "parseHeaderRemoveList ''response_header_remove'' rr = Inr (ho_response_header_remove o1)"
  shows "ok_res (parse_options (control_request o1)) \<longleftrightarrow> within_limits o1 \<and> names_user (ho_basic_auth o1)"
  unfolding parse_options_ok
  by (auto simp: control_request_def within_limits_def credential_again [OF assms(1)] methods_again [OF assms(2)]
      paths_again [OF assms(3)] paths_again [OF assms(4)] cidrs_again [OF assms(5)] cidrs_again [OF assms(6)]
      headers_again [OF assms(7)] names_again [OF assms(8)] headers_again [OF assms(9)] names_again [OF assms(10)])

text \<open>The checks of a tunnel that passed.\<close>

lemma first_problem_ok: "first_problem cs = Inr () \<longleftrightarrow> (\<forall>c \<in> set cs. c = Inr ())"
  by (induction cs) (auto split: sum.splits)

lemma check_simps [simp]:
  "map_err g r = Inr v \<longleftrightarrow> r = Inr v"
  "map_err g r = Inl e \<longleftrightarrow> (\<exists>e'. r = Inl e' \<and> e = g e')"
  "checked q = Inr () \<longleftrightarrow> ok_res q"
  "forbid bad msg = Inr () \<longleftrightarrow> \<not> bad"
  by (auto simp: map_err_def checked_def forbid_def ok_res_def split: sum.splits)

lemma ok_res_map_err [simp]: "ok_res (map_err g r) = ok_res r"
  by (cases r) (simp_all add: map_err_def)

lemma upstream_trim:
  "ok_res (parseHTTPUpstreamTarget (TrimSpace a)) = ok_res (parseHTTPUpstreamTarget a)"
  "ok_res (parseTCPUpstreamAddr (TrimSpace a)) = ok_res (parseTCPUpstreamAddr a)"
  by (auto simp: parseHTTPUpstreamTarget_def parseTCPUpstreamAddr_def upstream_host_port_def Let_def ok_res_bind
      split: option.splits)

lemma ok_res_unit: "bind_res r (\<lambda>_. Inr ()) = Inr () \<longleftrightarrow> ok_res r"
  by (cases r) simp_all

lemma validated_tunnels: "validateNamedTunnels ts = Inr () \<longleftrightarrow> (\<forall>nt \<in> set ts. validate_tunnel nt = Inr ())"
  by (auto simp: validateNamedTunnels_def first_problem_ok)

lemma validated_named: "validate_tunnel nt = Inr () \<Longrightarrow> TrimSpace (nt_name nt) \<noteq> []"
  by (simp add: validate_tunnel_def Let_def split: if_splits)

lemma validated_proto: "validate_tunnel nt = Inr () \<Longrightarrow> tunnel_proto (nt_tunnel nt) \<in> {''http'', ''tcp''}"
  by (simp add: validate_tunnel_def Let_def split: if_splits)

lemma validated_http:
  assumes "validate_tunnel nt = Inr ()" and "tunnel_proto (nt_tunnel nt) = ''http''" and "t = nt_tunnel nt"
  shows "ok_res (parseHTTPUpstreamTarget (tn_addr t))"
    "TrimSpace (tn_domain t) = [] \<or> TrimSpace (tn_subdomain t) = []"
    "TrimSpace (tn_basic_auth t) = [] \<or> Contains (TrimSpace (tn_basic_auth t)) '':''"
    "ok_res (ParseHTTPMethodList ''allow_method'' (tn_allow_method t) 0)"
    "ok_res (ParsePathList ''allow_path'' (tn_allow_path t) 0)"
    "ok_res (ParsePathList ''allow_path_prefix'' (tn_allow_path_prefix t) 0)"
    "ok_res (validateCIDRs ''allow_cidr'' (tn_allow_cidr t))"
    "ok_res (validateCIDRs ''deny_cidr'' (tn_deny_cidr t))"
    "ok_res (parseHeaderAddList ''request_header_add'' (tn_request_header_add t))"
    "ok_res (parseHeaderRemoveList ''request_header_remove'' (tn_request_header_remove t))"
    "ok_res (parseHeaderAddList ''response_header_add'' (tn_response_header_add t))"
    "ok_res (parseHeaderRemoveList ''response_header_remove'' (tn_response_header_remove t))"
proof -
  have "first_problem (http_checks t (TrimSpace (tn_addr t))) = Inr ()"
    using assms by (simp add: validate_tunnel_def Let_def split: if_splits)
  then have c: "\<forall>c \<in> set (http_checks t (TrimSpace (tn_addr t))). c = Inr ()" by (simp only: first_problem_ok)
  note checks = c [unfolded http_checks_def list.set ball_simps check_simps ok_res_unit upstream_trim]
  from checks show "ok_res (parseHTTPUpstreamTarget (tn_addr t))" by blast
  from checks show "TrimSpace (tn_domain t) = [] \<or> TrimSpace (tn_subdomain t) = []" by blast
  from checks show "TrimSpace (tn_basic_auth t) = [] \<or> Contains (TrimSpace (tn_basic_auth t)) '':''" by blast
  from checks show "ok_res (ParseHTTPMethodList ''allow_method'' (tn_allow_method t) 0)" by blast
  from checks show "ok_res (ParsePathList ''allow_path'' (tn_allow_path t) 0)" by blast
  from checks show "ok_res (ParsePathList ''allow_path_prefix'' (tn_allow_path_prefix t) 0)" by blast
  from checks show "ok_res (validateCIDRs ''allow_cidr'' (tn_allow_cidr t))" by blast
  from checks show "ok_res (validateCIDRs ''deny_cidr'' (tn_deny_cidr t))" by blast
  from checks show "ok_res (parseHeaderAddList ''request_header_add'' (tn_request_header_add t))" by blast
  from checks show "ok_res (parseHeaderRemoveList ''request_header_remove'' (tn_request_header_remove t))" by blast
  from checks show "ok_res (parseHeaderAddList ''response_header_add'' (tn_response_header_add t))" by blast
  from checks show "ok_res (parseHeaderRemoveList ''response_header_remove'' (tn_response_header_remove t))" by blast
qed

lemma validated_tcp:
  assumes "validate_tunnel nt = Inr ()" and "tunnel_proto (nt_tunnel nt) = ''tcp''" and "t = nt_tunnel nt"
  shows "ok_res (parseTCPUpstreamAddr (tn_addr t))" "tn_remote_port t \<ge> 0"
proof -
  have "first_problem (tcp_checks t (TrimSpace (tn_addr t))) = Inr ()"
    using assms by (simp add: validate_tunnel_def Let_def split: if_splits)
  then have "\<forall>c \<in> set (tcp_checks t (TrimSpace (tn_addr t))). c = Inr ()" by (simp only: first_problem_ok)
  note checks = this [unfolded tcp_checks_def list.set ball_simps check_simps ok_res_unit upstream_trim]
  from checks show "ok_res (parseTCPUpstreamAddr (tn_addr t))" by blast
  from checks show "tn_remote_port t \<ge> 0" by simp
qed

text \<open>The options a validated tunnel is started with.\<close>

lemma http_options_ok:
  assumes "validate_tunnel nt = Inr ()" and "tunnel_proto (nt_tunnel nt) = ''http''"
  obtains scheme addr o1 where "http_options sc (nt_tunnel nt) = Inr (scheme, addr, o1)"
proof -
  note v = validated_http [OF assms refl, unfolded ok_res_iff]
  from v have "ok_res (http_options sc (nt_tunnel nt))"
    unfolding http_options_def by (auto simp: ok_res_bind map_err_def)
  then show thesis using that by (auto simp: ok_res_iff)
qed

subsection \<open>Properties\<close>

text \<open>The client library's own refusal of a tunnel: of its options, or by the server.\<close>

definition client_refused :: "start_context \<Rightarrow> nat \<Rightarrow> named_tunnel \<Rightarrow> go_error \<Rightarrow> bool" where
  "client_refused sc k nt e \<longleftrightarrow>
     (\<exists>scheme addr o1. tunnel_proto (nt_tunnel nt) = ''http''
        \<and> http_options sc (nt_tunnel nt) = Inr (scheme, addr, o1)
        \<and> fst (StartHTTPTunnelWithOptions (sc_http sc k) addr o1) = Inl e)
     \<or> (\<exists>addr. tunnel_proto (nt_tunnel nt) = ''tcp'' \<and> parseTCPUpstreamAddr (tn_addr (nt_tunnel nt)) = Inr addr
        \<and> fst (StartTCPTunnelWithOptions (sc_tcp sc k) addr (sc_authtoken sc) (tn_remote_port (nt_tunnel nt))) = Inl e)"

lemma start_tunnel_validated:
  assumes "validate_tunnel nt = Inr ()"
  shows "(\<exists>s m'. start_tunnel sc k nt m = (Inr s, m') \<and> st_name s = nt_name nt)
    \<or> (\<exists>e m'. start_tunnel sc k nt m = (Inl (TunnelError (nt_name nt) (Refused e)), m') \<and> client_refused sc k nt e)"
  using validated_proto [OF assms]
proof (elim insertE emptyE)
  assume h: "tunnel_proto (nt_tunnel nt) = ''http''"
  obtain scheme addr o1 where o1: "http_options sc (nt_tunnel nt) = Inr (scheme, addr, o1)"
    using http_options_ok [OF assms h] by blast
  show ?thesis
    using validated_named [OF assms] h o1
    by (cases "fst (StartHTTPTunnelWithOptions (sc_http sc k) addr o1)")
      (auto simp: start_tunnel_def start_http_def client_refused_def map_err_def)
next
  assume h: "tunnel_proto (nt_tunnel nt) = ''tcp''"
  obtain addr where a: "parseTCPUpstreamAddr (tn_addr (nt_tunnel nt)) = Inr addr"
    using validated_tcp(1) [OF assms h refl] by (auto simp: ok_res_iff)
  have "\<not> tn_remote_port (nt_tunnel nt) < 0" using validated_tcp(2) [OF assms h refl] by simp
  then show ?thesis
    using validated_named [OF assms] h a
    by (cases "fst (StartTCPTunnelWithOptions (sc_tcp sc k) addr (sc_authtoken sc) (tn_remote_port (nt_tunnel nt)))")
      (auto simp: start_tunnel_def start_tcp_def client_refused_def map_err_def)
qed

lemma start_loop_validated:
  assumes "\<forall>nt \<in> set ts. validate_tunnel nt = Inr ()"
  shows "(\<exists>ss m'. start_loop sc k ts m = (Inr ss, m') \<and> map st_name ss = map nt_name ts)
    \<or> (\<exists>j e m'. j < length ts \<and> start_loop sc k ts m = (Inl (TunnelError (nt_name (ts ! j)) (Refused e)), m')
        \<and> client_refused sc (k + j) (ts ! j) e)"
  using assms
proof (induction ts arbitrary: k m)
  case Nil
  then show ?case by simp
next
  case (Cons nt ts)
  have "validate_tunnel nt = Inr ()" using Cons.prems by simp
  from start_tunnel_validated [OF this, of sc k m] show ?case
  proof (elim disjE exE conjE)
    fix s m1 assume s: "start_tunnel sc k nt m = (Inr s, m1)" "st_name s = nt_name nt"
    have "\<forall>nt \<in> set ts. validate_tunnel nt = Inr ()" using Cons.prems by simp
    from Cons.IH [OF this, of "Suc k" m1] show ?case
    proof (elim disjE exE conjE)
      fix ss m2 assume "start_loop sc (Suc k) ts m1 = (Inr ss, m2)" "map st_name ss = map nt_name ts"
      with s have "start_loop sc k (nt # ts) m = (Inr (s # ss), m2) \<and> map st_name (s # ss) = map nt_name (nt # ts)"
        by simp
      then show ?case by blast
    next
      fix j e m2
      assume "j < length ts" "start_loop sc (Suc k) ts m1 = (Inl (TunnelError (nt_name (ts ! j)) (Refused e)), m2)"
        "client_refused sc (Suc k + j) (ts ! j) e"
      with s(1) have "Suc j < length (nt # ts) \<and> start_loop sc k (nt # ts) m
          = (Inl (TunnelError (nt_name ((nt # ts) ! Suc j)) (Refused e)), m2)
        \<and> client_refused sc (k + Suc j) ((nt # ts) ! Suc j) e" by simp
      then show ?case by blast
    qed
  next
    fix e m1
    assume "start_tunnel sc k nt m = (Inl (TunnelError (nt_name nt) (Refused e)), m1)" "client_refused sc k nt e"
    then have "0 < length (nt # ts) \<and> start_loop sc k (nt # ts) m
        = (Inl (TunnelError (nt_name ((nt # ts) ! 0)) (Refused e)), m1)
      \<and> client_refused sc (k + 0) ((nt # ts) ! 0) e" by simp
    then show ?case by blast
  qed
qed

text \<open>Tunnels that pass the validation are not refused by the command any more. Either all of them
  are started, in order and under their names, or the error is the refusal of one of them by the
  client library or the server, reported with its name.\<close>

theorem validated_tunnels_start:
  assumes "validateNamedTunnels ts = Inr ()"
  shows "(\<exists>ss m'. startNamedTunnels sc ts m = (Inr ss, m') \<and> map st_name ss = map nt_name ts)
    \<or> (\<exists>j e m'. j < length ts \<and> startNamedTunnels sc ts m = (Inl (TunnelError (nt_name (ts ! j)) (Refused e)), m')
        \<and> client_refused sc j (ts ! j) e)"
  using start_loop_validated [of ts sc 0 m] assms by (simp add: validated_tunnels startNamedTunnels_def)

text \<open>What the client's validation leaves to the server. The options of a validated HTTP tunnel are
  accepted by the server's parser exactly when no list has more than 64 entries and the
  credential, if there is one, names a user; in particular no entry is refused that the client let
  through, and at most one of domain and subdomain is sent.\<close>

theorem validated_options_accepted:
  assumes "validate_tunnel nt = Inr ()" and "tunnel_proto (nt_tunnel nt) = ''http''"
    and "http_options sc (nt_tunnel nt) = Inr (scheme, addr, o1)"
  shows "(ok_res (parse_options (control_request o1)) \<longleftrightarrow> within_limits o1 \<and> names_user (ho_basic_auth o1))
    \<and> (http_domain (control_request o1) = [] \<or> http_subdomain (control_request o1) = [])"
proof -
  let ?t = "nt_tunnel nt"
  note v = validated_http [OF assms(1,2) refl]
  have cidr: "validateCIDRs ''allow_cidr'' (tn_allow_cidr ?t) = Inr ()" "validateCIDRs ''deny_cidr'' (tn_deny_cidr ?t) = Inr ()"
    using v(7,8) by (auto simp: ok_res_iff)
  show ?thesis
  proof
    show "ok_res (parse_options (control_request o1)) \<longleftrightarrow> within_limits o1 \<and> names_user (ho_basic_auth o1)"
      by (rule options_accepted [of o1 "tn_allow_method ?t" "tn_allow_path ?t" "tn_allow_path_prefix ?t"
            "tn_request_header_add ?t" "tn_request_header_remove ?t" "tn_response_header_add ?t" "tn_response_header_remove ?t"])
        (use assms(3) v(3) cidr in \<open>auto simp: http_options_def result_simps\<close>)
    show "http_domain (control_request o1) = [] \<or> http_subdomain (control_request o1) = []"
      using assms(3) v(2) by (auto simp: http_options_def result_simps control_request_def)
  qed
qed

lemma wait_loop_ended:
  "wait_loop (length errs) (Some e) closes (map TunnelEnded errs @ evs) = Some (Some e, closes)"
  by (induction errs) simp_all

lemma wait_loop_all:
  "\<exists>n \<ge> closes. wait_loop (length errs) None closes (map TunnelEnded errs @ evs)
     = Some (Option.bind (find (\<lambda>err. err \<noteq> None) errs) id, n) \<and> (errs \<noteq> [] \<longrightarrow> n > closes)"
proof (induction errs arbitrary: closes)
  case Nil
  then show ?case by simp
next
  case (Cons err errs)
  show ?case
  proof (cases err)
    case None
    from Cons.IH [of "Suc closes"] None show ?thesis by (auto simp: Suc_le_eq intro: less_imp_le)
  next
    case (Some e)
    then show ?thesis by (auto simp: wait_loop_ended)
  qed
qed

lemma wait_loop_context:
  "j < n \<Longrightarrow> length errs = j \<Longrightarrow>
    \<exists>c > closes. wait_loop n firstErr closes (map TunnelEnded errs @ ContextEnded e # evs) = Some (Some e, c)"
proof (induction errs arbitrary: n j firstErr closes)
  case Nil
  then show ?case by (cases n) auto
next
  case (Cons err errs)
  then obtain n' where n: "n = Suc n'" by (cases n) auto
  with Cons.prems have j: "length errs < n'" by simp
  show ?case
  proof (cases "firstErr = None")
    case True
    from Cons.IH [OF j refl, of "Suc closes" err] obtain c where "c > Suc closes"
      "wait_loop n' err (Suc closes) (map TunnelEnded errs @ ContextEnded e # evs) = Some (Some e, c)" by blast
    then show ?thesis unfolding n True by (intro exI [of _ c]) simp
  next
    case False
    then obtain y where y: "firstErr = Some y" by blast
    from Cons.IH [OF j refl, of closes "Some y"] show ?thesis unfolding n y by simp
  qed
qed

text \<open>The wait for several tunnels ends when each of them has ended, with the first error that is not
  nil, or with the error of the context when that ends before; in both cases all tunnels were closed.\<close>

theorem waitAll_ends:
  assumes "ts \<noteq> []"
  shows "(length errs = length ts \<longrightarrow>
      (\<exists>c > 0. waitAll ts (map TunnelEnded errs @ evs) = Some (Option.bind (find (\<lambda>err. err \<noteq> None) errs) id, c)))
    \<and> (length errs < length ts \<longrightarrow>
      (\<exists>c > 0. waitAll ts (map TunnelEnded errs @ ContextEnded e # evs) = Some (Some e, c)))"
proof (intro conjI impI)
  assume l: "length errs = length ts"
  have "errs \<noteq> []" using assms l by auto
  with wait_loop_all [of 0 errs evs] show "\<exists>c > 0. waitAll ts (map TunnelEnded errs @ evs)
      = Some (Option.bind (find (\<lambda>err. err \<noteq> None) errs) id, c)"
    using assms unfolding waitAll_def l by auto
next
  assume "length errs < length ts"
  from wait_loop_context [OF this refl, of 0] assms show
    "\<exists>c > 0. waitAll ts (map TunnelEnded errs @ ContextEnded e # evs) = Some (Some e, c)"
    by (auto simp: waitAll_def)
qed

lemma escape_host_ascii: "list_all (\<lambda>c. host_byte c \<and> byte c < 128) h \<Longrightarrow> escape_host h = h"
  by (induction h) (simp_all add: escape_host_def)

lemma url_String_host:
  assumes "u_scheme u \<noteq> []" and "u_host u \<noteq> []" and "u_opaque u = []" and "u_user u = None" and "u_fragment u = []"
  shows "\<exists>rest. url_String u = u_scheme u @ ''://'' @ escape_host (u_host u) @ rest
    \<and> (rest = [] \<or> hd rest \<in> {CHR ''/'', CHR ''?''})"
proof -
  let ?path = "url_EscapedPath u"
  let ?slash = "if ?path \<noteq> [] \<and> hd ?path \<noteq> CHR ''/'' then ''/'' else []"
  let ?q = "if u_force_query u \<or> u_raw_query u \<noteq> [] then ''?'' @ u_raw_query u else []"
  have "url_String u = u_scheme u @ ''://'' @ escape_host (u_host u) @ (?slash @ ?path @ ?q)"
    using assms by (simp add: url_String_def Let_def)
  moreover have "?slash @ ?path @ ?q = [] \<or> hd (?slash @ ?path @ ?q) \<in> {CHR ''/'', CHR ''?''}"
    by (cases ?path) auto
  ultimately show ?thesis by blast
qed

lemma hop_by_hop_canonical: "CanonicalHeaderKey ` set hop_by_hop = set hop_by_hop"
  by (simp add: eval_simps)

text \<open>C26: The request a replay hands to the HTTP client is addressed to the upstream of the entry's
  tunnel. When the address the tunnel was started with is made of ASCII bytes a URL's host may hold, its URL has the
  tunnel's scheme and that address, followed by nothing or by a path or a query, whatever the recorded path says; the
  hop-by-hop headers and the length of the recorded request are not in it, and every other header is as it was
  recorded. The claim is about the request the client is given, and the status is what the client then answers: the
  program's client follows the redirects of an upstream, so where the requests after the first one go is not claimed.\<close>

theorem replay_addressed_to_upstream:
  assumes "ReplayFunc send m e = Inr status" and "m (en_tunnel_id e) = Some t"
    and "list_all (\<lambda>c. host_byte c \<and> byte c < 128) (rt_addr t)" and "rt_scheme t \<noteq> []"
  shows "\<exists>r rest. send r = Inr status \<and> rp_url r = rt_scheme t @ ''://'' @ rt_addr t @ rest
    \<and> (rest = [] \<or> hd rest \<in> {CHR ''/'', CHR ''?''})
    \<and> (\<forall>k. rp_header r k = (if k \<in> set hop_by_hop \<union> {''Content-Length''} then None else en_request_headers e k))"
proof -
  have addr: "rt_addr t \<noteq> []" using assms(1,2) by (auto simp: ReplayFunc_def)
  obtain r where r: "replay_to t e = Inr r" "send r = Inr status"
    using assms(1,2) by (auto simp: ReplayFunc_def result_simps split: if_splits)
  obtain u where "url_ParseRequestURI (en_path e) = Some u"
    using r(1) by (auto simp: replay_to_def split: option.splits)
  then have url: "rp_url r = url_String (empty_url\<lparr>u_scheme := rt_scheme t, u_host := rt_addr t,
        u_path := u_path u, u_raw_query := u_raw_query u\<rparr>)"
    and hdr: "rp_header r = hdr_Del ''Transfer-Encoding'' (hdr_Del ''Content-Length'' (stripHopByHopHeaders (en_request_headers e)))"
    using r(1) by (auto simp: replay_to_def Let_def split: option.splits if_splits)
  have transfer: "CanonicalHeaderKey ''Transfer-Encoding'' = ''Transfer-Encoding''" "''Transfer-Encoding'' \<in> set hop_by_hop"
    by (simp_all add: eval_simps)
  have "rp_header r k = (if k \<in> set hop_by_hop \<union> {''Content-Length''} then None else en_request_headers e k)" for k
    using transfer by (auto simp: hdr stripHopByHopHeaders_def hdr_Del_all_apply hop_by_hop_canonical)
  moreover obtain rest where "rp_url r = rt_scheme t @ ''://'' @ rt_addr t @ rest"
    "rest = [] \<or> hd rest \<in> {CHR ''/'', CHR ''?''}"
    using url_String_host [of "empty_url\<lparr>u_scheme := rt_scheme t, u_host := rt_addr t,
        u_path := u_path u, u_raw_query := u_raw_query u\<rparr>"] assms(4) addr
    unfolding url by (auto simp: empty_url_def escape_host_ascii [OF assms(3)])
  ultimately show ?thesis using r(2) by blast
qed

subsection \<open>Examples\<close>

definition demo_web :: named_tunnel where
  "demo_web = \<lparr>nt_name = ''web'', nt_tunnel =
     \<lparr>tn_proto = ''HTTP'', tn_addr = '' 8080'', tn_domain = [], tn_subdomain = ''demo'', tn_basic_auth = ''u:p'',
      tn_allow_method = [''get''], tn_allow_path = [''/a''], tn_allow_path_prefix = [],
      tn_allow_cidr = [''10.0.0.0/8''], tn_deny_cidr = [], tn_request_header_add = [''X-A: 1''],
      tn_request_header_remove = [''x-b''], tn_response_header_add = [], tn_response_header_remove = [],
      tn_host_header = [], tn_remote_port = 0, tn_inspect = None, tn_inspect_addr = []\<rparr>\<rparr>"

definition demo_start :: start_context where
  "demo_start = \<lparr>sc_control_url = ''wss://example.com/control'', sc_authtoken = ''t'',
     sc_default_host_header = ''preserve'', sc_inspect_default = True, sc_store = True, sc_tls_skip_verify = False,
     sc_http = (\<lambda>k req. \<lparr>at_dial = Inr k, at_open = Inr (), at_write = Inr (),
       at_reply = Payload \<lparr>http_resp_type = ''http'', http_resp_id = ''demo'',
         http_resp_url = ''https://demo.example.com'', http_resp_error = []\<rparr>, at_read = None\<rparr>),
     sc_tcp = (\<lambda>k req. \<lparr>at_dial = Inl (Msg ''down''), at_open = Inr (), at_write = Inr (), at_reply = NoPayload, at_read = None\<rparr>)\<rparr>"

definition demo_options :: http_tunnel_opts where
  "demo_options = \<lparr>ho_authtoken = ''t'', ho_subdomain = ''demo'', ho_domain = [], ho_basic_auth = ''u:p'',
     ho_allow_methods = [''GET''], ho_allow_paths = [''/a''], ho_allow_path_prefixes = [],
     ho_allow_cidrs = [''10.0.0.0/8''], ho_deny_cidrs = [],
     ho_request_header_add = [\<lparr>ch_name = ''X-A'', ch_value = ''1''\<rparr>], ho_request_header_remove = [''X-B''],
     ho_response_header_add = [], ho_response_header_remove = [], ho_host_header = ''preserve'',
     ho_upstream_scheme = ''http'', ho_upstream_tls_skip_verify = False, ho_capture_bytes = 0\<rparr>"

lemma demo_web_proto: "tunnel_proto (nt_tunnel demo_web) = ''http''"
  by (simp add: demo_web_def eval_simps)

lemma demo_port: "isPortLiteral ''8080''" "TrimSpace '' 8080'' = ''8080''"
  by (simp_all add: eval_simps)

lemma demo_target: "parseHTTPUpstreamTarget ''8080'' = Inr (''http'', ''127.0.0.1:8080'')"
  "parseHTTPUpstreamTarget '' 8080'' = Inr (''http'', ''127.0.0.1:8080'')"
proof -
  have "JoinHostPort ''127.0.0.1'' ''8080'' = ''127.0.0.1:8080''" "\<not> Contains ''8080'' ''://''" "TrimSpace ''8080'' = ''8080''"
    by (simp_all add: eval_simps)
  then show "parseHTTPUpstreamTarget ''8080'' = Inr (''http'', ''127.0.0.1:8080'')"
    "parseHTTPUpstreamTarget '' 8080'' = Inr (''http'', ''127.0.0.1:8080'')"
    using demo_port by (simp_all add: parseHTTPUpstreamTarget_def upstream_host_port_def)
qed

lemma demo_lists:
  "ParseHTTPMethodList ''allow_method'' [''get''] 0 = Inr [''GET'']"
  "ParsePathList ''allow_path'' [''/a''] 0 = Inr [''/a'']"
  "parseHeaderAddList ''request_header_add'' [''X-A: 1''] = Inr [\<lparr>ch_name = ''X-A'', ch_value = ''1''\<rparr>]"
  "parseHeaderRemoveList ''request_header_remove'' [''x-b''] = Inr [''X-B'']"
  by (simp_all add: eval_simps)

lemma empty_lists:
  "ParseHTTPMethodList f [] 0 = Inr []" "ParsePathList f [] 0 = Inr []" "validateCIDRs f [] = Inr ()"
  "parseHeaderAddList f [] = Inr []" "parseHeaderRemoveList f [] = Inr []"
  by (simp_all add: ParseHTTPMethodList_def ParsePathList_def validateCIDRs_def ParseCIDRList_def
      parseHeaderAddList_def parseHeaderRemoveList_def)

lemma demo_cidr: "validateCIDRs ''allow_cidr'' [''10.0.0.0/8''] = Inr ()"
  by (simp add: eval_simps)

lemma demo_web_valid: "validate_tunnel demo_web = Inr ()"
proof -
  have trims: "TrimSpace ''web'' = ''web''" "TrimSpace ''u:p'' = ''u:p''" "TrimSpace ''demo'' = ''demo''" "Contains ''u:p'' '':''"
    by (simp_all add: eval_simps)
  have "first_problem (http_checks (nt_tunnel demo_web) ''8080'') = Inr ()"
    by (simp add: http_checks_def first_problem_ok demo_web_def demo_target demo_lists empty_lists demo_cidr trims
        del: first_problem.simps)
  with demo_web_proto trims demo_port(2) show ?thesis
    by (simp add: validate_tunnel_def) (simp add: demo_web_def)
qed

lemma demo_web_options:
  "http_options demo_start (nt_tunnel demo_web) = Inr (''http'', ''127.0.0.1:8080'', demo_options)"
proof -
  have trims: "TrimSpace ''u:p'' = ''u:p''" "TrimSpace ''demo'' = ''demo''" "TrimSpace ''preserve'' = ''preserve''"
    by (simp_all add: eval_simps)
  show ?thesis
    by (simp add: http_options_def demo_web_def demo_target demo_lists empty_lists demo_start_def demo_options_def
        tunnel_host_header_def trims map_err_def)
qed

theorem validated_tunnels_start_witness:
  "\<exists>ss m'. startNamedTunnels demo_start [demo_web] Map.empty = (Inr ss, m') \<and> map st_name ss = [''web'']"
proof -
  have "ValidateHostHeaderMode ''preserve'' = Inr ()" "ToLower (TrimSpace ''http'') = ''http''"
    by (simp_all add: eval_simps)
  then have "ok_res (fst (StartHTTPTunnelWithOptions (sc_http demo_start 0) ''127.0.0.1:8080'' demo_options))"
    by (simp add: StartHTTPTunnelWithOptions_def demo_options_def demo_start_def createHTTPTunnel_def exchange_def
        readJSONControlResponse_def Let_def)
  then have no: "\<not> client_refused demo_start 0 demo_web e" for e
    by (auto simp: client_refused_def demo_web_options demo_web_proto)
  have "validateNamedTunnels [demo_web] = Inr ()" by (simp add: validated_tunnels demo_web_valid)
  from validated_tunnels_start [OF this, of demo_start Map.empty] no
  show ?thesis by (auto simp: demo_web_def)
qed

theorem validated_options_accepted_witness:
  "ok_res (parse_options (control_request demo_options))"
proof -
  have "TrimSpace ''u:p'' = ''u:p''" "Cut ''u:p'' '':'' = (''u'', ''p'', True)" "TrimSpace ''u'' = ''u''"
    by (simp_all add: eval_simps)
  then have "within_limits demo_options \<and> names_user (ho_basic_auth demo_options)"
    by (simp add: within_limits_def names_user_def demo_options_def)
  with validated_options_accepted [OF demo_web_valid demo_web_proto demo_web_options] show ?thesis by blast
qed

theorem waitAll_ends_witness:
  "\<exists>c > 0. waitAll [undefined, undefined] [TunnelEnded None, TunnelEnded (Some (Msg ''lost''))] = Some (Some (Msg ''lost''), c)"
  using waitAll_ends [of "[undefined, undefined]" "[None, Some (Msg ''lost'')]" "[]"] by simp

definition demo_recorded :: inspect_entry where
  "demo_recorded = \<lparr>en_id = ''1'', en_started_at = Some 0, en_duration_ms = 1, en_tunnel_id = ''demo'',
     en_method = ''GET'', en_path = ''/x'', en_host = [], en_status_code = 200, en_bytes_in = 0, en_bytes_out = 0,
     en_request_headers = [''Te'' \<mapsto> [''trailers''], ''Accept'' \<mapsto> [''a'']], en_response_headers = Map.empty\<rparr>"

theorem replay_addressed_to_upstream_witness:
  "\<exists>(r :: replayed) rest. rp_url r = ''http://app'' @ rest \<and> (rest = [] \<or> hd rest \<in> {CHR ''/'', CHR ''?''})
     \<and> rp_header r ''Te'' = None \<and> rp_header r ''Accept'' = Some [''a'']"
proof -
  let ?t = "\<lparr>rt_scheme = ''http'', rt_addr = ''app'', rt_tls_skip_verify = False\<rparr>"
  have d: "url_String (empty_url\<lparr>u_scheme := ''http'', u_host := ''app'', u_path := ''/x'', u_raw_query := []\<rparr>) = ''http://app/x''"
    by (simp add: eval_simps Let_def)
  have p: "url_ParseRequestURI ''/x'' = Some (empty_url\<lparr>u_path := ''/x'', u_raw_path := ''/x''\<rparr>)"
    by (simp add: eval_simps Let_def)
  obtain v where v: "url_Parse ''http://app/x'' = Some v"
    by (simp add: eval_simps Let_def)
  have "validMethod ''GET''" by (simp add: eval_simps)
  then have "ok_res (replay_to ?t demo_recorded)"
    using d p v by (simp add: replay_to_def demo_recorded_def empty_url_def)
  then obtain r where "replay_to ?t demo_recorded = Inr r" by (auto simp: ok_res_iff)
  then have run: "ReplayFunc (\<lambda>_. Inr 200) [''demo'' \<mapsto> ?t] demo_recorded = Inr 200"
    by (simp add: ReplayFunc_def demo_recorded_def)
  have tn: "[''demo'' \<mapsto> ?t] (en_tunnel_id demo_recorded) = Some ?t" by (simp add: demo_recorded_def)
  have ad: "list_all (\<lambda>c. host_byte c \<and> byte c < 128) (rt_addr ?t)" "rt_scheme ?t \<noteq> []"
    by (simp_all add: host_byte_def query_plain_def is_lower_def)
  obtain r :: replayed and rest where "rp_url r = rt_scheme ?t @ ''://'' @ rt_addr ?t @ rest"
    "rest = [] \<or> hd rest \<in> {CHR ''/'', CHR ''?''}"
    "\<forall>k. rp_header r k = (if k \<in> set hop_by_hop \<union> {''Content-Length''} then None else en_request_headers demo_recorded k)"
    using replay_addressed_to_upstream [OF run tn ad] by blast
  then have "rp_url r = ''http://app'' @ rest \<and> (rest = [] \<or> hd rest \<in> {CHR ''/'', CHR ''?''})
     \<and> rp_header r ''Te'' = None \<and> rp_header r ''Accept'' = Some [''a'']"
    by (simp add: hop_by_hop_def demo_recorded_def)
  then show ?thesis by blast
qed

end
