(* ===== verification/ClientCommands.thy ===== *)
theory ClientCommands
  imports StartCmd "HOL-Library.List_Lexorder" "HOL-Library.Char_ord"
begin

text \<open>
  The commands of the client: \<open>internal/cli/run.go\<close>, \<open>http_cmd.go\<close>,
  \<open>tcp_cmd.go\<close>, \<open>tls_cmd.go\<close>, \<open>config_cmd.go\<close> and the command of
  \<open>start_cmd.go\<close>. A command is a function of its arguments and of what it finds outside: the
  environment, the files, the server, the listener of the inspector, and how the wait for its
  tunnels ends. Its outcome is the exit code, what it printed, the tunnels it served until it
  returned and the states of the file system it went through. When \<open>start\<close> fails at one of
  several tunnels, those before it are not closed by the command and end with the process; they are
  not in the outcome.
\<close>

subsection \<open>The outside and the outcome\<close>

record client_world =
  cw_env :: os_env
  cw_home :: "string result"
  cw_files :: disk
  cw_read :: "disk \<Rightarrow> string \<Rightarrow> stored"
  cw_marshal :: "config_file \<Rightarrow> string result"
  cw_unmarshal :: "string \<Rightarrow> config_file result"
  cw_faults :: save_faults
  cw_http :: "string \<Rightarrow> nat \<Rightarrow> create_http_request \<Rightarrow> create_http_response attempt"
  cw_tcp :: "string \<Rightarrow> nat \<Rightarrow> create_tcp_request \<Rightarrow> create_tcp_response attempt"
  cw_listen :: "string \<Rightarrow> listen_error + string"
  cw_waited :: "go_error option"
  cw_events :: "wait_event list"
  cw_ctx_ended :: bool
  cw_color :: bool
  cw_version :: string

datatype cli_error =
    Complaint string
  | GoFailure go_error
  | UpstreamFailure upstream_error
  | TunnelFailure tunnel_error

text \<open>What is printed, in order; usage texts are named by their command and go to standard output
  when help was asked for.\<close>

datatype printed =
    Out string
  | ErrOut string
  | ErrorLine cli_error
  | InspectorWarning listen_error
  | FlagMessage flag_error
  | Usage bool string

record outcome =
  oc_code :: int
  oc_printed :: "printed list"
  oc_started :: "running list"
  oc_files :: "disk list"

definition stop :: "int \<Rightarrow> printed list \<Rightarrow> outcome" where
  "stop code ps = \<lparr>oc_code = code, oc_printed = ps, oc_started = [], oc_files = []\<rparr>"

definition canceled :: go_error where
  "canceled = Msg ''context canceled''"

text \<open>The end of a command whose tunnels are up.\<close>

definition after_wait :: "client_world \<Rightarrow> go_error option \<Rightarrow> int \<times> printed list" where
  "after_wait w err =
     (case err of
        None \<Rightarrow> (0, [])
      | Some e \<Rightarrow> if e = canceled \<or> cw_ctx_ended w then (0, []) else (1, [ErrorLine (GoFailure e)]))"

definition load_config :: "client_world \<Rightarrow> string \<Rightarrow> (config_file \<times> bool) result" where
  "load_config w path = Load (cw_unmarshal w) (cw_read w (cw_files w) path)"

subsection \<open>http (http_cmd.go)\<close>

record http_flags =
  hf_server :: string
  hf_authtoken :: string
  hf_subdomain :: string
  hf_domain :: string
  hf_basic_auth :: string
  hf_allow_cidr :: "string list"
  hf_deny_cidr :: "string list"
  hf_allow_method :: "string list"
  hf_allow_path :: "string list"
  hf_allow_path_prefix :: "string list"
  hf_request_header_add :: "string list"
  hf_request_header_remove :: "string list"
  hf_response_header_add :: "string list"
  hf_response_header_remove :: "string list"
  hf_host_header :: string
  hf_tls_skip_verify :: bool
  hf_inspect :: bool
  hf_inspect_addr :: string
  hf_help :: bool

definition http_defaults :: "os_env \<Rightarrow> config_file \<Rightarrow> http_flags" where
  "http_defaults env cfg =
     \<lparr>hf_server = resolveServerAddrDefault env cfg, hf_authtoken = resolveAuthtokenDefault env cfg,
      hf_subdomain = [], hf_domain = [], hf_basic_auth = [], hf_allow_cidr = [], hf_deny_cidr = [],
      hf_allow_method = [], hf_allow_path = [], hf_allow_path_prefix = [], hf_request_header_add = [],
      hf_request_header_remove = [], hf_response_header_add = [], hf_response_header_remove = [],
      hf_host_header = resolveHostHeaderDefault cfg, hf_tls_skip_verify = False,
      hf_inspect = resolveInspectEnabledDefault cfg, hf_inspect_addr = resolveInspectAddrDefault env cfg,
      hf_help = False\<rparr>"

definition http_flag_set :: "http_flags flag_set" where
  "http_flag_set =
     [(''server'', string_flag (\<lambda>v f. f\<lparr>hf_server := v\<rparr>)),
      (''authtoken'', string_flag (\<lambda>v f. f\<lparr>hf_authtoken := v\<rparr>)),
      (''subdomain'', string_flag (\<lambda>v f. f\<lparr>hf_subdomain := v\<rparr>)),
      (''domain'', string_flag (\<lambda>v f. f\<lparr>hf_domain := v\<rparr>)),
      (''basic-auth'', string_flag (\<lambda>v f. f\<lparr>hf_basic_auth := v\<rparr>)),
      (''allow-cidr'', slice_flag (\<lambda>vs f. f\<lparr>hf_allow_cidr := hf_allow_cidr f @ vs\<rparr>)),
      (''deny-cidr'', slice_flag (\<lambda>vs f. f\<lparr>hf_deny_cidr := hf_deny_cidr f @ vs\<rparr>)),
      (''allow-method'', slice_flag (\<lambda>vs f. f\<lparr>hf_allow_method := hf_allow_method f @ vs\<rparr>)),
      (''allow-path'', slice_flag (\<lambda>vs f. f\<lparr>hf_allow_path := hf_allow_path f @ vs\<rparr>)),
      (''allow-path-prefix'', slice_flag (\<lambda>vs f. f\<lparr>hf_allow_path_prefix := hf_allow_path_prefix f @ vs\<rparr>)),
      (''request-header-add'', list_flag (\<lambda>vs f. f\<lparr>hf_request_header_add := hf_request_header_add f @ vs\<rparr>)),
      (''request-header-remove'', list_flag (\<lambda>vs f. f\<lparr>hf_request_header_remove := hf_request_header_remove f @ vs\<rparr>)),
      (''response-header-add'', list_flag (\<lambda>vs f. f\<lparr>hf_response_header_add := hf_response_header_add f @ vs\<rparr>)),
      (''response-header-remove'', list_flag (\<lambda>vs f. f\<lparr>hf_response_header_remove := hf_response_header_remove f @ vs\<rparr>)),
      (''host-header'', string_flag (\<lambda>v f. f\<lparr>hf_host_header := v\<rparr>)),
      (''upstream-tls-skip-verify'', bool_flag (\<lambda>v f. f\<lparr>hf_tls_skip_verify := v\<rparr>)),
      (''inspect'', bool_flag (\<lambda>v f. f\<lparr>hf_inspect := v\<rparr>)),
      (''inspect-addr'', string_flag (\<lambda>v f. f\<lparr>hf_inspect_addr := v\<rparr>)),
      (''help'', bool_flag (\<lambda>v f. f\<lparr>hf_help := v\<rparr>)),
      (''h'', bool_flag (\<lambda>v f. f\<lparr>hf_help := v\<rparr>))]"

definition complain :: "bool \<Rightarrow> string \<Rightarrow> cli_error + unit" where
  "complain bad msg = (if bad then Inl (Complaint msg) else Inr ())"

text \<open>The checks of the flags and of the upstream, and the options they give.\<close>

definition http_command_options :: "http_flags \<Rightarrow> string \<Rightarrow> cli_error + string \<times> string \<times> http_tunnel_opts" where
  "http_command_options f target =
     bind_res (complain (TrimSpace (hf_subdomain f) \<noteq> [] \<and> TrimSpace (hf_domain f) \<noteq> [])
       ''only one of --subdomain or --domain may be set'') (\<lambda>_.
     bind_res (complain (TrimSpace (hf_basic_auth f) \<noteq> [] \<and> \<not> Contains (hf_basic_auth f) '':'')
       ''--basic-auth must be in the form user:pass'') (\<lambda>_.
     bind_res (map_err GoFailure (validateCIDRs ''allow_cidr'' (hf_allow_cidr f))) (\<lambda>_.
     bind_res (map_err GoFailure (validateCIDRs ''deny_cidr'' (hf_deny_cidr f))) (\<lambda>_.
     bind_res (map_err GoFailure (ParseHTTPMethodList ''allow_method'' (hf_allow_method f) 0)) (\<lambda>allowMethods.
     bind_res (map_err GoFailure (ParsePathList ''allow_path'' (hf_allow_path f) 0)) (\<lambda>allowPaths.
     bind_res (map_err GoFailure (ParsePathList ''allow_path_prefix'' (hf_allow_path_prefix f) 0)) (\<lambda>allowPathPrefixes.
     bind_res (map_err GoFailure (parseHeaderAddList ''request_header_add'' (hf_request_header_add f))) (\<lambda>reqAdd.
     bind_res (map_err GoFailure (parseHeaderRemoveList ''request_header_remove'' (hf_request_header_remove f))) (\<lambda>reqRemove.
     bind_res (map_err GoFailure (parseHeaderAddList ''response_header_add'' (hf_response_header_add f))) (\<lambda>respAdd.
     bind_res (map_err GoFailure (parseHeaderRemoveList ''response_header_remove'' (hf_response_header_remove f))) (\<lambda>respRemove.
     bind_res (map_err UpstreamFailure (parseHTTPUpstreamTarget target)) (\<lambda>(upstreamScheme, localAddr).
       Inr (upstreamScheme, localAddr,
         \<lparr>ho_authtoken = hf_authtoken f, ho_subdomain = hf_subdomain f, ho_domain = hf_domain f,
          ho_basic_auth = hf_basic_auth f, ho_allow_methods = allowMethods, ho_allow_paths = allowPaths,
          ho_allow_path_prefixes = allowPathPrefixes, ho_allow_cidrs = hf_allow_cidr f,
          ho_deny_cidrs = hf_deny_cidr f, ho_request_header_add = reqAdd,
          ho_request_header_remove = reqRemove, ho_response_header_add = respAdd,
          ho_response_header_remove = respRemove, ho_host_header = hf_host_header f,
          ho_upstream_scheme = upstreamScheme, ho_upstream_tls_skip_verify = hf_tls_skip_verify f,
          ho_capture_bytes = 0\<rparr>)))))))))))))"

text \<open>The listener of the inspector, which only \<open>http\<close> and \<open>start\<close> open.\<close>

definition open_inspector :: "client_world \<Rightarrow> bool \<Rightarrow> string \<Rightarrow> string \<times> printed list" where
  "open_inspector w enabled addr =
     (if \<not> enabled then ([], [])
      else
        (case listenTCPWithPortFallback (cw_listen w) addr 5000 of
           Inl e \<Rightarrow> ([], [InspectorWarning e])
         | Inr a \<Rightarrow> (''http://'' @ displayHostPort a, [])))"

definition serve_http_tunnel :: "client_world \<Rightarrow> http_flags \<Rightarrow> string \<Rightarrow> http_tunnel \<Rightarrow> outcome" where
  "serve_http_tunnel w f localAddr tun =
     (case open_inspector w (hf_inspect f) (hf_inspect_addr f) of
        (url, warning) \<Rightarrow>
          (case after_wait w (cw_waited w) of
             (code, ps) \<Rightarrow>
               \<lparr>oc_code = code,
                oc_printed = warning
                  @ [Out (printSession (cw_color w)
                      \<lparr>so_version = cw_version w, so_status = ''online'', so_forwarding_from = ht_url tun,
                       so_forwarding_to = displayHostPort localAddr, so_inspector = url\<rparr>)]
                  @ ps,
                oc_started = [RunningHttp tun (hf_inspect f)], oc_files = []\<rparr>))"

definition runHTTP :: "client_world \<Rightarrow> string list \<Rightarrow> string \<Rightarrow> outcome" where
  "runHTTP w args configPath =
     (case load_config w configPath of
        Inl e \<Rightarrow> stop 1 [ErrorLine (GoFailure e)]
      | Inr (cfg, _) \<Rightarrow>
          (case parseInterspersedFlags http_flag_set args (http_defaults (cw_env w) cfg) of
             Inl e \<Rightarrow> stop 2 [FlagMessage e, Usage False ''http'']
           | Inr (f, rest) \<Rightarrow>
               if hf_help f then stop 0 [Usage True ''http'']
               else
                 (case rest of
                    [target] \<Rightarrow>
                      (case http_command_options f target of
                         Inl e \<Rightarrow> stop 2 [ErrorLine e]
                       | Inr (upstreamScheme, localAddr, opts) \<Rightarrow>
                           (case ControlURLFromServerAddr (hf_server f) of
                              Inl e \<Rightarrow> stop 1 [ErrorLine (GoFailure e)]
                            | Inr controlURL \<Rightarrow>
                                (case fst (StartHTTPTunnelWithOptions (cw_http w controlURL 0) localAddr opts) of
                                   Inl e \<Rightarrow> stop 1 [ErrorLine (GoFailure e)]
                                 | Inr tun \<Rightarrow> serve_http_tunnel w f localAddr tun)))
                  | _ \<Rightarrow> stop 2 [Usage False ''http''])))"

subsection \<open>tcp and tls (tcp_cmd.go, tls_cmd.go)\<close>

record port_flags =
  pf_server :: string
  pf_authtoken :: string
  pf_remote_port :: int
  pf_help :: bool

definition port_flag_set :: "port_flags flag_set" where
  "port_flag_set =
     [(''server'', string_flag (\<lambda>v f. f\<lparr>pf_server := v\<rparr>)),
      (''authtoken'', string_flag (\<lambda>v f. f\<lparr>pf_authtoken := v\<rparr>)),
      (''remote-port'', int_flag (\<lambda>v f. f\<lparr>pf_remote_port := v\<rparr>)),
      (''help'', bool_flag (\<lambda>v f. f\<lparr>pf_help := v\<rparr>)),
      (''h'', bool_flag (\<lambda>v f. f\<lparr>pf_help := v\<rparr>))]"

text \<open>The two commands differ in their name, which is also the scheme they print.\<close>

definition run_port_command :: "string \<Rightarrow> client_world \<Rightarrow> string list \<Rightarrow> string \<Rightarrow> outcome" where
  "run_port_command name w args configPath =
     (case load_config w configPath of
        Inl e \<Rightarrow> stop 1 [ErrorLine (GoFailure e)]
      | Inr (cfg, _) \<Rightarrow>
          (case parseInterspersedFlags port_flag_set args
              \<lparr>pf_server = resolveServerAddrDefault (cw_env w) cfg,
               pf_authtoken = resolveAuthtokenDefault (cw_env w) cfg, pf_remote_port = 0, pf_help = False\<rparr> of
             Inl e \<Rightarrow> stop 2 [FlagMessage e, Usage False name]
           | Inr (f, rest) \<Rightarrow>
               if pf_help f then stop 0 [Usage True name]
               else
                 (case rest of
                    [target] \<Rightarrow>
                      (let localAddr = (if Contains target '':'' then target else ''127.0.0.1:'' @ target) in
                       case ControlURLFromServerAddr (pf_server f) of
                         Inl e \<Rightarrow> stop 1 [ErrorLine (GoFailure e)]
                       | Inr controlURL \<Rightarrow>
                           (case fst (StartTCPTunnelWithOptions (cw_tcp w controlURL 0) localAddr (pf_authtoken f) (pf_remote_port f)) of
                              Inl e \<Rightarrow> stop 1 [ErrorLine (GoFailure e)]
                            | Inr tun \<Rightarrow>
                                (case after_wait w (cw_waited w) of
                                   (code, ps) \<Rightarrow>
                                     \<lparr>oc_code = code,
                                      oc_printed =
                                        Out (printSession (cw_color w)
                                          \<lparr>so_version = cw_version w, so_status = ''online'',
                                           so_forwarding_from = name @ ''://'' @ controlHost controlURL @ '':'' @ Itoa (tt_remote_port tun),
                                           so_forwarding_to = displayHostPort localAddr, so_inspector = []\<rparr>)
                                        # ps,
                                      oc_started = [RunningTcp tun], oc_files = []\<rparr>)))
                  | _ \<Rightarrow> stop 2 [Usage False name])))"

definition runTCP :: "client_world \<Rightarrow> string list \<Rightarrow> string \<Rightarrow> outcome" where
  "runTCP w args configPath = run_port_command ''tcp'' w args configPath"

definition runTLS :: "client_world \<Rightarrow> string list \<Rightarrow> string \<Rightarrow> outcome" where
  "runTLS w args configPath = run_port_command ''tls'' w args configPath"

text \<open>The replay option of the inspector of an \<open>http\<close> command.\<close>

definition http_command_replay ::
  "(replayed \<Rightarrow> int result) \<Rightarrow> http_flags \<Rightarrow> string \<Rightarrow> string \<Rightarrow> inspect_entry \<Rightarrow> int result" where
  "http_command_replay send f upstreamScheme localAddr e =
     bind_res (replay_to \<lparr>rt_scheme = upstreamScheme, rt_addr = localAddr, rt_tls_skip_verify = hf_tls_skip_verify f\<rparr> e) send"

subsection \<open>start (start_cmd.go)\<close>

record start_flags =
  sa_server :: string
  sa_authtoken :: string
  sa_all :: bool
  sa_inspect :: bool
  sa_inspect_addr :: string
  sa_tls_skip_verify :: bool
  sa_help :: bool

definition start_flag_set :: "start_flags flag_set" where
  "start_flag_set =
     [(''server'', string_flag (\<lambda>v f. f\<lparr>sa_server := v\<rparr>)),
      (''authtoken'', string_flag (\<lambda>v f. f\<lparr>sa_authtoken := v\<rparr>)),
      (''all'', bool_flag (\<lambda>v f. f\<lparr>sa_all := v\<rparr>)),
      (''inspect'', bool_flag (\<lambda>v f. f\<lparr>sa_inspect := v\<rparr>)),
      (''inspect-addr'', string_flag (\<lambda>v f. f\<lparr>sa_inspect_addr := v\<rparr>)),
      (''upstream-tls-skip-verify'', bool_flag (\<lambda>v f. f\<lparr>sa_tls_skip_verify := v\<rparr>)),
      (''help'', bool_flag (\<lambda>v f. f\<lparr>sa_help := v\<rparr>)),
      (''h'', bool_flag (\<lambda>v f. f\<lparr>sa_help := v\<rparr>))]"

definition start_names :: "config_file \<Rightarrow> start_flags \<Rightarrow> string list \<Rightarrow> string list" where
  "start_names cfg f rest = (if sa_all f then sorted_list_of_set (dom (cf_tunnels cfg)) else rest)"

definition select_tunnel :: "config_file \<Rightarrow> string \<Rightarrow> string + named_tunnel" where
  "select_tunnel cfg name =
     (case cf_tunnels cfg name of
        None \<Rightarrow> Inl name
      | Some t \<Rightarrow> Inr \<lparr>nt_name = name, nt_tunnel = t\<rparr>)"

fun tunnel_rows :: "bool \<Rightarrow> bool \<Rightarrow> started_tunnel list \<Rightarrow> string" where
  "tunnel_rows color later [] = []"
| "tunnel_rows color later (t # ts) =
     (if later then [CHR 0x0A] else [])
     @ session_row color ''Tunnel'' (ansi color ''90'' (st_name t))
     @ session_row color ''Forwarding'' (forwarding_value color (st_from t) (st_to t))
     @ tunnel_rows color True ts"

definition printStartSession :: "bool \<Rightarrow> string \<Rightarrow> string \<Rightarrow> string \<Rightarrow> started_tunnel list \<Rightarrow> string" where
  "printStartSession color version status inspector ts =
     session_head color version status
     @ (if inspector \<noteq> [] then session_row color ''Inspector'' (ansi color ''94'' inspector) @ [CHR 0x0A] else [])
     @ tunnel_rows color False ts"

definition start_defaults :: "os_env \<Rightarrow> config_file \<Rightarrow> start_flags" where
  "start_defaults env cfg =
     \<lparr>sa_server = resolveServerAddrDefault env cfg, sa_authtoken = resolveAuthtokenDefault env cfg, sa_all = False,
      sa_inspect = resolveInspectEnabledDefault cfg, sa_inspect_addr = resolveInspectAddrDefault env cfg,
      sa_tls_skip_verify = False, sa_help = False\<rparr>"

text \<open>From the selected tunnels on; \<open>None\<close> while the tunnels are up.\<close>

definition start_selected :: "client_world \<Rightarrow> config_file \<Rightarrow> start_flags \<Rightarrow> named_tunnel list \<Rightarrow> outcome option" where
  "start_selected w cfg f selected =
     (case validateNamedTunnels selected of
        Inl e \<Rightarrow> Some (stop 1 [ErrorLine (TunnelFailure e)])
      | Inr _ \<Rightarrow>
          (case ControlURLFromServerAddr (sa_server f) of
             Inl e \<Rightarrow> Some (stop 1 [ErrorLine (GoFailure e)])
           | Inr controlURL \<Rightarrow>
               (let needed = needsInspector selected (sa_inspect f);
                    (url, warning) = open_inspector w needed (sa_inspect_addr f);
                    sc = \<lparr>sc_control_url = controlURL, sc_authtoken = sa_authtoken f,
                          sc_default_host_header = (if TrimSpace (cf_host_header cfg) = [] then ''preserve''
                                                    else TrimSpace (cf_host_header cfg)),
                          sc_inspect_default = sa_inspect f, sc_store = (needed \<and> warning = []),
                          sc_tls_skip_verify = sa_tls_skip_verify f,
                          sc_http = cw_http w controlURL, sc_tcp = cw_tcp w controlURL\<rparr>
                in case fst (startNamedTunnels sc selected Map.empty) of
                     Inl e \<Rightarrow> Some (stop 1 (warning @ [ErrorLine (TunnelFailure e)]))
                   | Inr started \<Rightarrow>
                       map_option (\<lambda>(err, closes).
                         (case after_wait w err of
                            (code, ps) \<Rightarrow>
                              \<lparr>oc_code = code,
                               oc_printed = warning
                                 @ [Out (printStartSession (cw_color w) (cw_version w) ''online'' url started)] @ ps,
                               oc_started = map st_running started, oc_files = []\<rparr>))
                         (waitAll started (cw_events w)))))"

definition runStart :: "client_world \<Rightarrow> string list \<Rightarrow> string \<Rightarrow> outcome option" where
  "runStart w args configPath =
     (case load_config w configPath of
        Inl e \<Rightarrow> Some (stop 1 [ErrorLine (GoFailure e)])
      | Inr (cfg, found) \<Rightarrow>
          (case parseInterspersedFlags start_flag_set args (start_defaults (cw_env w) cfg) of
             Inl e \<Rightarrow> Some (stop 2 [FlagMessage e, Usage False ''start''])
           | Inr (f, rest) \<Rightarrow>
               if sa_help f then Some (stop 0 [Usage True ''start''])
               else if sa_all f \<and> rest \<noteq> []
               then Some (stop 2 [ErrorLine (Complaint ''--all cannot be combined with tunnel names'')])
               else if \<not> sa_all f \<and> rest = [] then Some (stop 2 [Usage False ''start''])
               else if \<not> found then Some (stop 1 [ErrorLine (Complaint (''config file not found: '' @ configPath))])
               else if dom (cf_tunnels cfg) = {}
               then Some (stop 1 [ErrorLine (Complaint ''no tunnels defined in config'')])
               else
                 (case map_res (select_tunnel cfg) (start_names cfg f rest) of
                    Inl name \<Rightarrow> Some (stop 2 [ErrorLine (Complaint (''unknown tunnel: '' @ name))])
                  | Inr selected \<Rightarrow> start_selected w cfg f selected)))"

subsection \<open>config (config_cmd.go)\<close>

definition help_flag_set :: "bool flag_set" where
  "help_flag_set = [(''help'', bool_flag (\<lambda>v _. v)), (''h'', bool_flag (\<lambda>v _. v))]"

text \<open>The three commands that set a value: the name for the usage, the check of the value, the
  change of the file and what is printed.\<close>

definition config_set ::
  "string \<Rightarrow> (string \<Rightarrow> unit result) \<Rightarrow> (string \<Rightarrow> config_file \<Rightarrow> config_file) \<Rightarrow> string
    \<Rightarrow> client_world \<Rightarrow> string list \<Rightarrow> string \<Rightarrow> outcome" where
  "config_set name check put msg w args configPath =
     (case flag_Parse help_flag_set args False of
        Inl e \<Rightarrow> stop 2 [FlagMessage e, Usage False name]
      | Inr (help, rest) \<Rightarrow>
          if help then stop 0 [Usage True name]
          else
            (case rest of
               [v] \<Rightarrow>
                 (case check v of
                    Inl e \<Rightarrow> stop 2 [ErrorLine (GoFailure e)]
                  | Inr _ \<Rightarrow>
                      (case load_config w configPath of
                         Inl e \<Rightarrow> stop 1 [ErrorLine (GoFailure e)]
                       | Inr (cfg, _) \<Rightarrow>
                           (case Save (cw_marshal w) (cw_faults w) (cw_files w) configPath (put v cfg) of
                              (Inl e, trace) \<Rightarrow> (stop 1 [ErrorLine (GoFailure e)])\<lparr>oc_files := trace\<rparr>
                            | (Inr _, trace) \<Rightarrow> (stop 0 [Out (msg @ configPath @ [CHR 0x0A])])\<lparr>oc_files := trace\<rparr>)))
             | _ \<Rightarrow> stop 2 [Usage False name]))"

definition runConfigAddAuthtoken :: "client_world \<Rightarrow> string list \<Rightarrow> string \<Rightarrow> outcome" where
  "runConfigAddAuthtoken =
     config_set ''config add-authtoken'' (\<lambda>_. Inr ()) (\<lambda>v cfg. cfg\<lparr>cf_authtoken := v\<rparr>) ''Authtoken saved to ''"

definition runConfigSetServer :: "client_world \<Rightarrow> string list \<Rightarrow> string \<Rightarrow> outcome" where
  "runConfigSetServer =
     config_set ''config set-server'' (\<lambda>_. Inr ()) (\<lambda>v cfg. cfg\<lparr>cf_server_addr := v\<rparr>) ''Server address saved to ''"

definition runConfigSetHostHeader :: "client_world \<Rightarrow> string list \<Rightarrow> string \<Rightarrow> outcome" where
  "runConfigSetHostHeader =
     config_set ''config set-host-header'' ValidateHostHeaderMode (\<lambda>v cfg. cfg\<lparr>cf_host_header := v\<rparr>)
       ''Host header mode saved to ''"

definition runConfigCheck :: "client_world \<Rightarrow> string list \<Rightarrow> string \<Rightarrow> outcome" where
  "runConfigCheck w args configPath =
     (case flag_Parse help_flag_set args False of
        Inl e \<Rightarrow> stop 2 [FlagMessage e, Usage False ''config check'']
      | Inr (help, rest) \<Rightarrow>
          if help then stop 0 [Usage True ''config check'']
          else if rest \<noteq> [] then stop 2 [Usage False ''config check'']
          else
            (case load_config w configPath of
               Inl e \<Rightarrow> stop 1 [ErrorLine (GoFailure e)]
             | Inr (cfg, found) \<Rightarrow>
                 if \<not> found then stop 1 [ErrorLine (Complaint (''config file not found: '' @ configPath))]
                 else
                   (let notes = [Out (''Config OK: '' @ configPath @ [CHR 0x0A])]
                          @ (if cf_authtoken cfg = [] then [Out ''warning: authtoken is empty''] else [])
                          @ (if cf_server_addr cfg = [] then [Out ''warning: server_addr is empty''] else [])
                    in if cf_host_header cfg = [] then stop 0 notes
                       else
                         (case ValidateHostHeaderMode (cf_host_header cfg) of
                            Inl e \<Rightarrow> stop 1 (notes @ [ErrorLine (GoFailure e)])
                          | Inr _ \<Rightarrow> stop 0 notes))))"

definition runConfig :: "client_world \<Rightarrow> string list \<Rightarrow> string \<Rightarrow> outcome" where
  "runConfig w args configPath =
     (case args of
        [] \<Rightarrow> stop 2 [Usage False ''config'']
      | cmd # rest \<Rightarrow>
          if cmd = ''help'' \<or> cmd = ''-h'' \<or> cmd = ''--help'' then stop 0 [Usage True ''config'']
          else if cmd = ''add-authtoken'' then runConfigAddAuthtoken w rest configPath
          else if cmd = ''set-server'' then runConfigSetServer w rest configPath
          else if cmd = ''set-host-header'' then runConfigSetHostHeader w rest configPath
          else if cmd = ''check'' then runConfigCheck w rest configPath
          else stop 2 [ErrOut (''unknown config command: '' @ cmd), Usage False ''config''])"

subsection \<open>The command line (run.go)\<close>

record global_flags =
  gf_config :: string
  gf_help :: bool

definition global_flag_set :: "global_flags flag_set" where
  "global_flag_set =
     [(''config'', string_flag (\<lambda>v f. f\<lparr>gf_config := v\<rparr>)),
      (''help'', bool_flag (\<lambda>v f. f\<lparr>gf_help := v\<rparr>)),
      (''h'', bool_flag (\<lambda>v f. f\<lparr>gf_help := v\<rparr>))]"

definition cli_Run :: "client_world \<Rightarrow> string list \<Rightarrow> outcome option" where
  "cli_Run w args =
     (case flag_Parse global_flag_set args
        \<lparr>gf_config = getenv (cw_env w) ''EOSRIFT_CONFIG'' (DefaultPath (cw_env w) (cw_home w)), gf_help = False\<rparr> of
        Inl e \<Rightarrow> Some (stop 2 [FlagMessage e, Usage False ''eosrift''])
      | Inr (f, rest) \<Rightarrow>
          if gf_help f then Some (stop 0 [Usage True ''eosrift''])
          else
            (case rest of
               [] \<Rightarrow> Some (stop 2 [Usage False ''eosrift''])
             | cmd # args' \<Rightarrow>
                 if cmd = ''help'' then Some (stop 0 [Usage True ''eosrift''])
                 else if cmd = ''version'' then Some (stop 0 [Out (''eosrift version '' @ cw_version w @ [CHR 0x0A])])
                 else if cmd = ''config'' then Some (runConfig w args' (gf_config f))
                 else if cmd = ''http'' then Some (runHTTP w args' (gf_config f))
                 else if cmd = ''tcp'' then Some (runTCP w args' (gf_config f))
                 else if cmd = ''tls'' then Some (runTLS w args' (gf_config f))
                 else if cmd = ''start'' then runStart w args' (gf_config f)
                 else Some (stop 2 [ErrOut (''unknown command: '' @ cmd), Usage False ''eosrift''])))"

text \<open>\<open>cmd/client/main.go\<close>: \<open>args\<close> is \<open>os.Args\<close>, whose first element is the program's name.\<close>

definition client_main :: "client_world \<Rightarrow> string list \<Rightarrow> outcome option" where
  "client_main w args = cli_Run w (drop 1 args)"

lemmas [eval_simps] =
  stop_def canceled_def after_wait_def load_config_def http_defaults_def http_flag_set_def complain_def
  http_command_options_def open_inspector_def serve_http_tunnel_def runHTTP_def port_flag_set_def
  run_port_command_def runTCP_def runTLS_def http_command_replay_def start_flag_set_def start_names_def
  select_tunnel_def printStartSession_def start_defaults_def start_selected_def runStart_def
  help_flag_set_def config_set_def runConfigAddAuthtoken_def runConfigSetServer_def
  runConfigSetHostHeader_def runConfigCheck_def runConfig_def global_flag_set_def cli_Run_def

subsection \<open>Usage errors\<close>

text \<open>The same world with another server, another listener and another file system for writing.\<close>

definition elsewhere ::
  "client_world \<Rightarrow> (string \<Rightarrow> nat \<Rightarrow> create_http_request \<Rightarrow> create_http_response attempt)
    \<Rightarrow> (string \<Rightarrow> nat \<Rightarrow> create_tcp_request \<Rightarrow> create_tcp_response attempt)
    \<Rightarrow> (string \<Rightarrow> listen_error + string) \<Rightarrow> save_faults \<Rightarrow> client_world" where
  "elsewhere w h t l flt = w\<lparr>cw_http := h, cw_tcp := t, cw_listen := l, cw_faults := flt\<rparr>"

lemma elsewhere_simps [simp]:
  "cw_env (elsewhere w h t l flt) = cw_env w" "cw_home (elsewhere w h t l flt) = cw_home w"
  "cw_version (elsewhere w h t l flt) = cw_version w"
  "load_config (elsewhere w h t l flt) path = load_config w path"
  by (simp_all add: elsewhere_def load_config_def)

lemma stop_simps [simp]:
  "oc_code (stop c ps) = c" "oc_started (stop c ps) = []" "oc_files (stop c ps) = []" "oc_printed (stop c ps) = ps"
  by (simp_all add: stop_def)

lemma after_wait_code: "fst (after_wait w err) \<noteq> 2"
  by (auto simp: after_wait_def split: option.splits)

text \<open>Two runs agree when a usage error in the first is the same in the second, with no effect.\<close>

definition agree :: "outcome option \<Rightarrow> outcome option \<Rightarrow> bool" where
  "agree x y \<longleftrightarrow> (\<forall>r. x = Some r \<and> oc_code r = 2 \<longrightarrow> y = Some r \<and> oc_started r = [] \<and> oc_files r = [])"

lemma agree_stop: "agree (Some (stop c ps)) (Some (stop c ps))"
  by (simp add: agree_def)

lemma agree_not_usage: "(\<And>r. x = Some r \<Longrightarrow> oc_code r \<noteq> 2) \<Longrightarrow> agree x y"
  by (auto simp: agree_def)

lemma agree_sum:
  "(\<And>e. s = Inl e \<Longrightarrow> agree (f e) (f' e)) \<Longrightarrow> (\<And>v. s = Inr v \<Longrightarrow> agree (g v) (g' v)) \<Longrightarrow>
   agree (case s of Inl e \<Rightarrow> f e | Inr v \<Rightarrow> g v) (case s of Inl e \<Rightarrow> f' e | Inr v \<Rightarrow> g' v)"
  by (cases s) auto

lemma agree_prod:
  "(\<And>a b. agree (f a b) (f' a b)) \<Longrightarrow> agree (case p of (a, b) \<Rightarrow> f a b) (case p of (a, b) \<Rightarrow> f' a b)"
  by (cases p) auto

lemma agree_if:
  "(c \<Longrightarrow> agree x x') \<Longrightarrow> (\<not> c \<Longrightarrow> agree y y') \<Longrightarrow> agree (if c then x else y) (if c then x' else y')"
  by simp

lemma agree_list:
  "agree x x' \<Longrightarrow> (\<And>a as. agree (f a as) (f' a as)) \<Longrightarrow>
   agree (case xs of [] \<Rightarrow> x | a # as \<Rightarrow> f a as) (case xs of [] \<Rightarrow> x' | a # as \<Rightarrow> f' a as)"
  by (cases xs) auto

lemmas agree_intros = agree_stop agree_sum agree_prod agree_if agree_list

lemma push_Some:
  "Some (case s of Inl e \<Rightarrow> f e | Inr v \<Rightarrow> g v) = (case s of Inl e \<Rightarrow> Some (f e) | Inr v \<Rightarrow> Some (g v))"
  "Some (case p of (a, b) \<Rightarrow> h a b) = (case p of (a, b) \<Rightarrow> Some (h a b))"
  "Some (if c then x else y) = (if c then Some x else Some y)"
  "Some (case xs of [] \<Rightarrow> x | a # as \<Rightarrow> k a as) = (case xs of [] \<Rightarrow> Some x | a # as \<Rightarrow> Some (k a as))"
  by (simp_all split: sum.splits prod.splits list.splits)

lemma serve_http_tunnel_code: "oc_code (serve_http_tunnel w f a tun) \<noteq> 2"
  using after_wait_code [of w "cw_waited w"]
  by (auto simp: serve_http_tunnel_def split: prod.splits)

lemma runHTTP_agree: "agree (Some (runHTTP w args path)) (Some (runHTTP (elsewhere w h t l flt) args path))"
  unfolding runHTTP_def elsewhere_simps push_Some
  by (intro agree_intros; intro agree_not_usage) (auto simp: serve_http_tunnel_code split: sum.splits)

lemma run_port_agree:
  "agree (Some (run_port_command name w args path)) (Some (run_port_command name (elsewhere w h t l flt) args path))"
  unfolding run_port_command_def elsewhere_simps Let_def push_Some
  by (intro agree_intros; intro agree_not_usage) (auto simp: after_wait_code case_prod_beta split: sum.splits)

lemma start_selected_agree:
  "agree (start_selected w cfg f sel) (start_selected (elsewhere w h t l flt) cfg f sel)"
  unfolding start_selected_def
  by (intro agree_intros; intro agree_not_usage)
    (auto simp: Let_def after_wait_code case_prod_beta split: sum.splits)

lemma runStart_agree: "agree (runStart w args path) (runStart (elsewhere w h t l flt) args path)"
  unfolding runStart_def elsewhere_simps
  by (intro agree_intros start_selected_agree)

lemma config_set_agree:
  "agree (Some (config_set name check put msg w args path)) (Some (config_set name check put msg (elsewhere w h t l flt) args path))"
  unfolding config_set_def elsewhere_simps push_Some
  by (intro agree_intros; intro agree_not_usage) (auto split: sum.splits prod.splits)

lemma runConfig_agree: "agree (Some (runConfig w args path)) (Some (runConfig (elsewhere w h t l flt) args path))"
  unfolding runConfig_def runConfigAddAuthtoken_def runConfigSetServer_def runConfigSetHostHeader_def
    runConfigCheck_def elsewhere_simps Let_def push_Some
  by (intro agree_intros config_set_agree)

text \<open>Usage errors are found before anything happens. When a command ends with exit code 2, no tunnel
  was started and no file was touched, and the outcome does not depend on the server, on the
  listener of the inspector or on the file system that would be written: it is the same for any other.\<close>

theorem usage_errors_have_no_effect:
  assumes "cli_Run w args = Some r" and "oc_code r = 2"
  shows "cli_Run (elsewhere w h t l flt) args = Some r \<and> oc_started r = [] \<and> oc_files r = []"
proof -
  have "agree (cli_Run w args) (cli_Run (elsewhere w h t l flt) args)"
    unfolding cli_Run_def runTCP_def runTLS_def elsewhere_simps
    by (intro agree_intros runConfig_agree runHTTP_agree run_port_agree runStart_agree)
  then show ?thesis using assms by (simp add: agree_def)
qed

subsection \<open>Options of the http command\<close>

lemma trim_front_keeps:
  "(\<And>r. r \<in> set rs \<Longrightarrow> c \<notin> set r) \<Longrightarrow> c \<in> set s \<Longrightarrow> c \<in> set (trim_front rs s)"
proof (induction rs s rule: trim_front.induct)
  case (1 rs s)
  show ?case
  proof (cases "starts_with_any rs s")
    case None
    with 1 show ?thesis by (simp add: trim_front_id)
  next
    case (Some r)
    then have "prefix r s" "r \<in> set rs" using starts_with_any_Some by blast+
    then obtain t where s: "s = r @ t" "c \<notin> set r" using 1 by (auto simp: prefix_def)
    then have "c \<in> set (trim_front rs (drop (length r) s))" using 1 Some by simp
    with Some show ?thesis by (subst trim_front.simps) simp
  qed
qed

lemma TrimSpace_colon: "CHR '':'' \<in> set s \<Longrightarrow> CHR '':'' \<in> set (TrimSpace s)"
proof -
  have "\<And>r. r \<in> set space_runes \<Longrightarrow> CHR '':'' \<notin> set r" by (auto simp: space_runes_def)
  moreover have "\<And>r. r \<in> set (map rev space_runes) \<Longrightarrow> CHR '':'' \<notin> set r" by (auto simp: space_runes_def)
  moreover assume "CHR '':'' \<in> set s"
  ultimately show ?thesis unfolding TrimSpace_def by (metis set_rev trim_front_keeps)
qed

text \<open>The options of an \<open>http\<close> command. The server's parser accepts what the command accepted
  exactly when no list has more than 64 entries and the credential, if there is one, names a user;
  the command sends a domain or a subdomain, not both.\<close>

theorem http_command_options_accepted:
  assumes "http_command_options f target = Inr (scheme, addr, o1)"
  shows "(ok_res (parse_options (control_request o1)) \<longleftrightarrow> within_limits o1 \<and> names_user (ho_basic_auth o1))
    \<and> (TrimSpace (http_domain (control_request o1)) = [] \<or> TrimSpace (http_subdomain (control_request o1)) = [])"
proof
  have auth: "TrimSpace (hf_basic_auth f) = [] \<or> CHR '':'' \<in> set (hf_basic_auth f)"
    using assms by (auto simp: http_command_options_def complain_def result_simps split: if_splits)
  show "ok_res (parse_options (control_request o1)) \<longleftrightarrow> within_limits o1 \<and> names_user (ho_basic_auth o1)"
    by (rule options_accepted [of o1 "hf_allow_method f" "hf_allow_path f" "hf_allow_path_prefix f"
          "hf_request_header_add f" "hf_request_header_remove f" "hf_response_header_add f" "hf_response_header_remove f"])
      (use assms auth TrimSpace_colon in \<open>auto simp: http_command_options_def result_simps\<close>)
  show "TrimSpace (http_domain (control_request o1)) = [] \<or> TrimSpace (http_subdomain (control_request o1)) = []"
    using assms by (auto simp: http_command_options_def complain_def control_request_def result_simps split: if_splits)
qed

subsection \<open>The saved server address\<close>

lemma parse_positional: "\<not> isFlagToken v \<Longrightarrow> flag_Parse fs [v] r = Inr (r, [v])"
  by (cases v) (auto simp: isFlagToken_def HasPrefix_def flag_Parse.simps(2))

text \<open>A server address that was saved is the one the next command uses. After a successful
  \<open>config set-server\<close> the file loads, has the address, and is otherwise the file as it was
  before; without the environment variables, the default of \<open>--server\<close> is the address.\<close>

theorem set_server_takes_effect:
  assumes "oc_code (runConfigSetServer w [v] path) = 0" and "\<not> isFlagToken v"
    and "\<And>tmp. sf_create (cw_faults w) = Inr tmp \<Longrightarrow> dk_files (cw_files w) tmp = None \<and> tmp \<noteq> path"
    and "\<And>c b. cw_marshal w c = Inr b \<Longrightarrow> cw_unmarshal w (with_newline b) = Inr c"
    and "v \<noteq> []" and "cw_env w ''EOSRIFT_SERVER_ADDR'' = []" and "cw_env w ''EOSRIFT_CONTROL_URL'' = []"
  shows "\<exists>old found new. load_config w path = Inr (old, found) \<and> new = save_version (old\<lparr>cf_server_addr := v\<rparr>)
    \<and> load_config (w\<lparr>cw_files := List.last (oc_files (runConfigSetServer w [v] path)), cw_read := stored_at\<rparr>) path = Inr (new, True)
    \<and> hf_server (http_defaults (cw_env w) new) = v"
proof -
  obtain old found where old: "load_config w path = Inr (old, found)"
    using assms(1) by (auto simp: runConfigSetServer_def config_set_def parse_positional [OF assms(2)] split: sum.splits)
  let ?cfg = "old\<lparr>cf_server_addr := v\<rparr>"
  obtain res trace where save: "Save (cw_marshal w) (cw_faults w) (cw_files w) path ?cfg = (res, trace)" by fastforce
  have run: "runConfigSetServer w [v] path = (case res of
      Inl e \<Rightarrow> (stop 1 [ErrorLine (GoFailure e)])\<lparr>oc_files := trace\<rparr>
    | Inr _ \<Rightarrow> (stop 0 [Out (''Server address saved to '' @ path @ [CHR 0x0A])])\<lparr>oc_files := trace\<rparr>)"
    by (simp add: runConfigSetServer_def config_set_def parse_positional [OF assms(2)] old save split: sum.splits)
  then have res: "res = Inr ()" using assms(1) by (auto split: sum.splits)
  have "Load (cw_unmarshal w) (stored_at (List.last trace) path) = Inr (save_version ?cfg, True)"
    by (rule saved_config_loads [OF save [unfolded res]]) (use assms(3,4) in auto)
  moreover have "oc_files (runConfigSetServer w [v] path) = trace" unfolding run res by simp
  ultimately have "load_config (w\<lparr>cw_files := List.last (oc_files (runConfigSetServer w [v] path)), cw_read := stored_at\<rparr>) path
      = Inr (save_version ?cfg, True)" by (simp add: load_config_def)
  moreover have "hf_server (http_defaults (cw_env w) (save_version ?cfg)) = v"
    using assms(5-7) by (simp add: http_defaults_def resolveServerAddrDefault_def getenv_def save_version_def)
  ultimately show ?thesis using old by blast
qed

subsection \<open>Examples\<close>

definition demo_world :: client_world where
  "demo_world = \<lparr>cw_env = (\<lambda>_. []), cw_home = Inr ''/h'', cw_files = \<lparr>dk_files = Map.empty, dk_dirs = {''.''}\<rparr>, cw_read = stored_at,
     cw_marshal = (\<lambda>c. if c = empty_config\<lparr>cf_version := 1, cf_server_addr := ''eos''\<rparr> then Inr ''a'' else Inl (Msg ''yaml'')),
     cw_unmarshal = (\<lambda>b. Inr (empty_config\<lparr>cf_version := 1, cf_server_addr := ''eos''\<rparr>)),
     cw_faults = demo_faults,
     cw_http = (\<lambda>u k req. \<lparr>at_dial = Inl (Msg ''down''), at_open = Inr (), at_write = Inr (), at_reply = NoPayload, at_read = None\<rparr>),
     cw_tcp = (\<lambda>u k req. \<lparr>at_dial = Inl (Msg ''down''), at_open = Inr (), at_write = Inr (), at_reply = NoPayload, at_read = None\<rparr>),
     cw_listen = (\<lambda>a. Inr a), cw_waited = None, cw_events = [], cw_ctx_ended = False, cw_color = False,
     cw_version = ''dev''\<rparr>"

definition demo_http_flags :: http_flags where
  "demo_http_flags = (http_defaults (\<lambda>_. []) empty_config)\<lparr>hf_basic_auth := ''u:p'', hf_allow_method := [''get'']\<rparr>"

theorem usage_errors_have_no_effect_witness:
  "\<forall>h t l flt. cli_Run (elsewhere demo_world h t l flt) [''frobnicate'']
     = Some (stop 2 [ErrOut ''unknown command: frobnicate'', Usage False ''eosrift''])"
proof -
  have "cli_Run demo_world [''frobnicate''] = Some (stop 2 [ErrOut ''unknown command: frobnicate'', Usage False ''eosrift''])"
    by (simp add: cli_Run_def flag_Parse.simps(2))
  from usage_errors_have_no_effect [OF this] show ?thesis by simp
qed

theorem http_command_options_accepted_witness:
  "\<exists>scheme addr o1. http_command_options demo_http_flags ''8080'' = Inr (scheme, addr, o1)
    \<and> ok_res (parse_options (control_request o1))"
proof -
  have trims: "Cut ''u:p'' '':'' = (''u'', ''p'', True)" "TrimSpace ''u'' = ''u''" "TrimSpace ''u:p'' = ''u:p''"
    by (simp_all add: eval_simps)
  have "ok_res (http_command_options demo_http_flags ''8080'')"
    using trims by (simp add: http_command_options_def demo_http_flags_def http_defaults_def complain_def map_err_def
        demo_lists empty_lists demo_target)
  then obtain scheme addr o1 where o1: "http_command_options demo_http_flags ''8080'' = Inr (scheme, addr, o1)"
    by (auto simp: ok_res_iff)
  then have "ho_basic_auth o1 = ''u:p''" "within_limits o1"
    by (auto simp: http_command_options_def demo_http_flags_def http_defaults_def complain_def map_err_def
        demo_lists empty_lists demo_target within_limits_def)
  then have "within_limits o1 \<and> names_user (ho_basic_auth o1)"
    using trims by (simp add: names_user_def)
  with http_command_options_accepted [OF o1] o1 show ?thesis by blast
qed

theorem set_server_takes_effect_witness:
  "\<exists>new. load_config (demo_world\<lparr>cw_files := List.last (oc_files (runConfigSetServer demo_world [''eos''] ''f'')), cw_read := stored_at\<rparr>) ''f''
      = Inr (new, True) \<and> hf_server (http_defaults (cw_env demo_world) new) = ''eos''"
proof -
  have pos: "\<not> isFlagToken ''eos''" by (simp add: isFlagToken_def HasPrefix_def)
  have load: "load_config demo_world ''f'' = Inr (empty_config, False)"
    by (simp add: load_config_def demo_world_def stored_at_def Load_def)
  have v: "save_version (empty_config\<lparr>cf_server_addr := ''eos''\<rparr>) = empty_config\<lparr>cf_version := 1, cf_server_addr := ''eos''\<rparr>"
    by (simp add: save_version_def empty_config_def)
  have "fst (Save (cw_marshal demo_world) (cw_faults demo_world) (cw_files demo_world) ''f'' (empty_config\<lparr>cf_server_addr := ''eos''\<rparr>)) = Inr ()"
    unfolding Save_def v by (simp add: demo_world_def demo_faults_def Let_def)
  then obtain trace where "Save (cw_marshal demo_world) (cw_faults demo_world) (cw_files demo_world) ''f'' (empty_config\<lparr>cf_server_addr := ''eos''\<rparr>)
      = (Inr (), trace)" by (metis prod.collapse)
  then have code: "oc_code (runConfigSetServer demo_world [''eos''] ''f'') = 0"
    by (simp add: runConfigSetServer_def config_set_def parse_positional [OF pos] load)
  have "\<exists>old found new. load_config demo_world ''f'' = Inr (old, found) \<and> new = save_version (old\<lparr>cf_server_addr := ''eos''\<rparr>)
    \<and> load_config (demo_world\<lparr>cw_files := List.last (oc_files (runConfigSetServer demo_world [''eos''] ''f'')), cw_read := stored_at\<rparr>) ''f'' = Inr (new, True)
    \<and> hf_server (http_defaults (cw_env demo_world) new) = ''eos''"
    by (rule set_server_takes_effect [OF code pos])
      (auto simp: demo_world_def demo_faults_def split: if_splits)
  then show ?thesis by blast
qed

end
