(* ===== verification/GoTime.thy ===== *)
theory GoTime
  imports GoStrconv
begin

text \<open>
  \<open>time.Unix(t, 0).UTC().Format(time.RFC3339)\<close>: the civil date of a day number and the
  text form of a Unix time, for any number of seconds.
\<close>

definition pad_zero :: "nat \<Rightarrow> int \<Rightarrow> string" where
  "pad_zero w n = (let s = Itoa n in replicate (w - length s) CHR ''0'' @ s)"

text \<open>Year, month and day of the day \<open>z\<close> after 1970-01-01, in eras of 400 years that start
  on the first of March.\<close>

definition civil_from_days :: "int \<Rightarrow> int \<times> int \<times> int" where
  "civil_from_days z =
     (let z = z + 719468;
          era = z div 146097;
          doe = z mod 146097;
          yoe = (doe - doe div 1460 + doe div 36524 - doe div 146096) div 365;
          doy = doe - (365 * yoe + yoe div 4 - yoe div 100);
          mp = (5 * doy + 2) div 153;
          d = doy - (153 * mp + 2) div 5 + 1;
          m = (if mp < 10 then mp + 3 else mp - 9);
          y = yoe + era * 400 + (if m \<le> 2 then 1 else 0)
      in (y, m, d))"

definition rfc3339 :: "int \<Rightarrow> string" where
  "rfc3339 t =
     (case civil_from_days (t div 86400) of (y, m, d) \<Rightarrow>
       (let s = t mod 86400 in
        (if y < 0 then ''-'' @ pad_zero 4 (- y) else pad_zero 4 y) @ ''-'' @ pad_zero 2 m @ ''-'' @ pad_zero 2 d
        @ ''T'' @ pad_zero 2 (s div 3600) @ '':'' @ pad_zero 2 (s mod 3600 div 60)
        @ '':'' @ pad_zero 2 (s mod 60) @ ''Z''))"

lemmas [eval_simps] = pad_zero_def

lemma civil_samples:
  "civil_from_days 0 = (1970, 1, 1)" "civil_from_days 11016 = (2000, 2, 29)"
  "civil_from_days 20454 = (2026, 1, 1)" "civil_from_days (- 719528) = (0, 1, 1)"
  by (simp_all add: civil_from_days_def Let_def cong: let_weak_cong)

lemma rfc3339_samples: "rfc3339 951868799 = ''2000-02-29T23:59:59Z''"
proof -
  have "Itoa 2000 = ''2000''" "Itoa 2 = ''2''" "Itoa 29 = ''29''" "Itoa 23 = ''23''" "Itoa 59 = ''59''"
    by (simp_all add: eval_simps)
  then show ?thesis by (simp add: rfc3339_def civil_samples pad_zero_def)
qed

end
