(* ===== verification/Admin.thy ===== *)
theory Admin
  imports ControlHandler GoTime GoJson
begin

text \<open>
  \<open>internal/server/admin.go\<close> and the deploy status of \<open>handler.go\<close>: the JSON API over
  the token and reservation store. The store is the interface \<open>AdminStore\<close>, a record of
  operations on a state \<open>'db\<close>; \<open>auth_admin\<close> is the auth store as that interface. A
  request body is what \<open>json.Decoder\<close> reads from its first 64 KiB: a value and whether
  only the end follows it, or nothing. A response is \<open>None\<close> when the handler panics (net/http
  then drops the connection).
\<close>

subsection \<open>The interfaces\<close>

record 'db admin_store =
  adm_create_token :: "'db \<Rightarrow> string \<Rightarrow> (token \<times> string) result \<times> 'db"
  adm_list_tokens :: "'db \<Rightarrow> token list result"
  adm_revoke_token :: "'db \<Rightarrow> int \<Rightarrow> unit result \<times> 'db"
  adm_list_subdomains :: "'db \<Rightarrow> (string \<times> int \<times> string \<times> int) list result"
  adm_reserve_subdomain :: "'db \<Rightarrow> int \<Rightarrow> string \<Rightarrow> unit result \<times> 'db"
  adm_unreserve_subdomain :: "'db \<Rightarrow> string \<Rightarrow> unit result \<times> 'db"
  adm_list_ports :: "'db \<Rightarrow> (int \<times> int \<times> string \<times> int) list result"
  adm_reserve_port :: "'db \<Rightarrow> int \<Rightarrow> int \<Rightarrow> unit result \<times> 'db"
  adm_unreserve_port :: "'db \<Rightarrow> int \<Rightarrow> unit result \<times> 'db"

datatype file_read = FileMissing | FileFails string | FileJson "json option"

type_synonym json_body = "(json \<times> bool) option"

text \<open>What a request meets: what others do to the store between its statements, the clock, the
  file system, and the quoting of \<open>%q\<close>.\<close>

record 'db admin_env =
  ae_others :: "nat \<Rightarrow> 'db \<Rightarrow> 'db"
  ae_now :: int
  ae_read_file :: "string \<Rightarrow> file_read"
  ae_quote :: "string \<Rightarrow> string"

subsection \<open>JSON\<close>

definition decodeAdminJSON :: "(string \<times> (json \<Rightarrow> 'r \<Rightarrow> 'r option)) list \<Rightarrow> 'r \<Rightarrow> json_body \<Rightarrow> 'r result" where
  "decodeAdminJSON flds zero body =
     (case body of
        None \<Rightarrow> Inl (Msg ''invalid json'')
      | Some (j, at_end) \<Rightarrow>
          (case decode_struct True flds zero j of
             None \<Rightarrow> Inl (Msg ''invalid json'')
           | Some r \<Rightarrow> if at_end then Inr r else Inl (Msg ''extra data'')))"

definition writeAdminJSON :: "int \<Rightarrow> json \<Rightarrow> http_response" where
  "writeAdminJSON status payload =
     \<lparr>rs_status = status,
      rs_header = hdr_Set ''Cache-Control'' ''no-store''
        (hdr_Set ''Content-Type'' ''application/json; charset=utf-8'' no_header),
      rs_body = Json payload\<rparr>"

definition writeAdminError :: "int \<Rightarrow> string \<Rightarrow> http_response" where
  "writeAdminError status msg = writeAdminJSON status (JObj [(''error'', JStr msg)])"

definition methodNotAllowed :: http_response where
  "methodNotAllowed = http_Error no_header ''method not allowed'' 405"

subsection \<open>Deploy status\<close>

definition readDeployStatus :: "(string \<Rightarrow> file_read) \<Rightarrow> string \<Rightarrow> (string \<times> json) list result option" where
  "readDeployStatus read path =
     (let filePath = TrimSpace path in
      if filePath = [] then Some (Inr [(''enabled'', JBool False), (''state'', JStr ''disabled'')])
      else
        (case read filePath of
           FileMissing \<Rightarrow>
             Some (Inr [(''enabled'', JBool True), (''configured_path'', JStr filePath),
                        (''state'', JStr ''unknown''), (''message'', JStr ''no deploy status yet'')])
         | FileFails e \<Rightarrow> Some (Inl (Msg e))
         | FileJson None \<Rightarrow> Some (Inl (Msg ''invalid json''))
         | FileJson (Some (JObj kvs)) \<Rightarrow>
             Some (Inr (map_put ''configured_path'' (JStr filePath) (map_put ''enabled'' (JBool True)
               (fold (\<lambda>(k, v). map_put k v) kvs []))))
         | FileJson (Some JNull) \<Rightarrow> None
         | FileJson (Some _) \<Rightarrow> Some (Inl (Msg ''cannot unmarshal''))))"

definition serveAdminDeployStatus :: "(string \<Rightarrow> file_read) \<Rightarrow> config \<Rightarrow> http_response option" where
  "serveAdminDeployStatus read cfg =
     (case readDeployStatus read (cfg_deploy_status_path cfg) of
        None \<Rightarrow> None
      | Some (Inl e) \<Rightarrow> Some (writeAdminError 500 ''failed to read deploy status'')
      | Some (Inr status) \<Rightarrow> Some (writeAdminJSON 200 (JObj status)))"

subsection \<open>Tokens\<close>

definition serveAdminSummary :: "'db admin_env \<Rightarrow> 'db admin_store \<Rightarrow> 'db \<Rightarrow> http_response" where
  "serveAdminSummary env store db =
     (let db1 = ae_others env 0 db; db2 = ae_others env 1 db1 in
      case adm_list_tokens store db of
        Inl e \<Rightarrow> writeAdminError 500 ''failed to list tokens''
      | Inr tokens \<Rightarrow>
          (case adm_list_subdomains store db1 of
             Inl e \<Rightarrow> writeAdminError 500 ''failed to list subdomains''
           | Inr subdomains \<Rightarrow>
               (case adm_list_ports store db2 of
                  Inl e \<Rightarrow> writeAdminError 500 ''failed to list tcp ports''
                | Inr ports \<Rightarrow>
                    writeAdminJSON 200 (JObj
                      [(''active_tokens'', JInt (int (length (filter (\<lambda>t. tok_revoked t = None) tokens)))),
                       (''reserved_subdomain'', JInt (int (length subdomains))),
                       (''reserved_tcp_ports'', JInt (int (length ports))),
                       (''revoked_tokens'', JInt (int (length (filter (\<lambda>t. tok_revoked t \<noteq> None) tokens)))),
                       (''time'', JStr (rfc3339 (ae_now env)))]))))"

definition token_item :: "token \<Rightarrow> json" where
  "token_item t = JObj
     [(''created_at'', JStr (rfc3339 (tok_created t))), (''id'', JInt (tok_id t)),
      (''label'', JStr (tok_label t)), (''prefix'', JStr (tok_prefix t)),
      (''revoked_at'', case tok_revoked t of None \<Rightarrow> JNull | Some r \<Rightarrow> JStr (rfc3339 r)),
      (''status'', JStr (if tok_revoked t = None then ''active'' else ''revoked''))]"

definition serveAdminListTokens :: "'db admin_store \<Rightarrow> 'db \<Rightarrow> http_response" where
  "serveAdminListTokens store db =
     (case adm_list_tokens store db of
        Inl e \<Rightarrow> writeAdminError 500 ''failed to list tokens''
      | Inr records \<Rightarrow> writeAdminJSON 200 (JObj [(''tokens'', JArr (map token_item records))]))"

definition serveAdminCreateToken :: "'db admin_store \<Rightarrow> json_body \<Rightarrow> 'db \<Rightarrow> http_response \<times> 'db" where
  "serveAdminCreateToken store body db =
     (case decodeAdminJSON [(''label'', into_string (\<lambda>s _. s))] [] body of
        Inl e \<Rightarrow> (writeAdminError 400 ''invalid request body'', db)
      | Inr label \<Rightarrow>
          (case adm_create_token store db (TrimSpace label) of
             (Inl e, db') \<Rightarrow> (writeAdminError 500 ''failed to create token'', db')
           | (Inr (rec, plain), db') \<Rightarrow>
               (writeAdminJSON 201 (JObj
                  [(''created_at'', JStr (rfc3339 (tok_created rec))), (''id'', JInt (tok_id rec)),
                   (''label'', JStr (tok_label rec)), (''prefix'', JStr (tok_prefix rec)),
                   (''token'', JStr plain)]), db')))"

definition serveAdminRevokeToken :: "'db admin_store \<Rightarrow> string \<Rightarrow> 'db \<Rightarrow> http_response \<times> 'db" where
  "serveAdminRevokeToken store rawID db =
     (case ParseInt (TrimSpace rawID) of
        None \<Rightarrow> (writeAdminError 400 ''invalid token id'', db)
      | Some tid \<Rightarrow>
          if tid \<le> 0 then (writeAdminError 400 ''invalid token id'', db)
          else
            (case adm_revoke_token store db tid of
               (Inl e, db') \<Rightarrow> (writeAdminError 500 ''failed to revoke token'', db')
             | (Inr _, db') \<Rightarrow> (status_only 204, db')))"

subsection \<open>Subdomains\<close>

definition subdomain_item :: "string \<times> int \<times> string \<times> int \<Rightarrow> json" where
  "subdomain_item = (\<lambda>(sub, tid, pre, created). JObj
     [(''created_at'', JStr (rfc3339 created)), (''subdomain'', JStr sub), (''token_id'', JInt tid),
      (''token_prefix'', JStr pre)])"

definition serveAdminListSubdomains :: "'db admin_store \<Rightarrow> 'db \<Rightarrow> http_response" where
  "serveAdminListSubdomains store db =
     (case adm_list_subdomains store db of
        Inl e \<Rightarrow> writeAdminError 500 ''failed to list subdomains''
      | Inr records \<Rightarrow> writeAdminJSON 200 (JObj [(''subdomains'', JArr (map subdomain_item records))]))"

definition reserve_subdomain_fields :: "(string \<times> (json \<Rightarrow> int \<times> string \<Rightarrow> (int \<times> string) option)) list" where
  "reserve_subdomain_fields =
     [(''token_id'', into_int64 (\<lambda>i r. (i, snd r))), (''subdomain'', into_string (\<lambda>s r. (fst r, s)))]"

definition serveAdminReserveSubdomain ::
  "(string \<Rightarrow> string) \<Rightarrow> 'db admin_store \<Rightarrow> json_body \<Rightarrow> 'db \<Rightarrow> http_response \<times> 'db" where
  "serveAdminReserveSubdomain quote store body db =
     (case decodeAdminJSON reserve_subdomain_fields (0, []) body of
        Inl e \<Rightarrow> (writeAdminError 400 ''invalid request body'', db)
      | Inr (tid, sub) \<Rightarrow>
          (let sub = TrimSpace sub in
           if tid \<le> 0 \<or> sub = [] then (writeAdminError 400 ''token_id and subdomain are required'', db)
           else
             (case adm_reserve_subdomain store db tid sub of
                (Inl e, db') \<Rightarrow> (writeAdminError 400 (error_text quote e), db')
              | (Inr _, db') \<Rightarrow>
                  (writeAdminJSON 201 (JObj [(''subdomain'', JStr sub), (''token_id'', JInt tid)]), db'))))"

definition serveAdminUnreserveSubdomain ::
  "(string \<Rightarrow> string) \<Rightarrow> 'db admin_store \<Rightarrow> string \<Rightarrow> 'db \<Rightarrow> http_response \<times> 'db" where
  "serveAdminUnreserveSubdomain quote store raw db =
     (case PathUnescape (TrimSpace raw) of
        None \<Rightarrow> (writeAdminError 400 ''invalid subdomain'', db)
      | Some sub \<Rightarrow>
          if sub = [] then (writeAdminError 400 ''invalid subdomain'', db)
          else
            (case adm_unreserve_subdomain store db sub of
               (Inl e, db') \<Rightarrow> (writeAdminError 400 (error_text quote e), db')
             | (Inr _, db') \<Rightarrow> (status_only 204, db')))"

subsection \<open>TCP ports\<close>

definition port_item :: "int \<times> int \<times> string \<times> int \<Rightarrow> json" where
  "port_item = (\<lambda>(port, tid, pre, created). JObj
     [(''created_at'', JStr (rfc3339 created)), (''port'', JInt port), (''token_id'', JInt tid),
      (''token_prefix'', JStr pre)])"

definition serveAdminListTCPPorts :: "'db admin_store \<Rightarrow> 'db \<Rightarrow> http_response" where
  "serveAdminListTCPPorts store db =
     (case adm_list_ports store db of
        Inl e \<Rightarrow> writeAdminError 500 ''failed to list tcp ports''
      | Inr records \<Rightarrow> writeAdminJSON 200 (JObj [(''ports'', JArr (map port_item records))]))"

definition reserve_port_fields :: "(string \<times> (json \<Rightarrow> int \<times> int \<Rightarrow> (int \<times> int) option)) list" where
  "reserve_port_fields =
     [(''token_id'', into_int64 (\<lambda>i r. (i, snd r))), (''port'', into_int64 (\<lambda>i r. (fst r, i)))]"

definition serveAdminReserveTCPPort ::
  "(string \<Rightarrow> string) \<Rightarrow> 'db admin_store \<Rightarrow> json_body \<Rightarrow> 'db \<Rightarrow> http_response \<times> 'db" where
  "serveAdminReserveTCPPort quote store body db =
     (case decodeAdminJSON reserve_port_fields (0, 0) body of
        Inl e \<Rightarrow> (writeAdminError 400 ''invalid request body'', db)
      | Inr (tid, port) \<Rightarrow>
          if tid \<le> 0 \<or> port \<le> 0 then (writeAdminError 400 ''token_id and port are required'', db)
          else
            (case adm_reserve_port store db tid port of
               (Inl e, db') \<Rightarrow> (writeAdminError 400 (error_text quote e), db')
             | (Inr _, db') \<Rightarrow>
                 (writeAdminJSON 201 (JObj [(''port'', JInt port), (''token_id'', JInt tid)]), db')))"

definition serveAdminUnreserveTCPPort ::
  "(string \<Rightarrow> string) \<Rightarrow> 'db admin_store \<Rightarrow> string \<Rightarrow> 'db \<Rightarrow> http_response \<times> 'db" where
  "serveAdminUnreserveTCPPort quote store raw db =
     (case Atoi (TrimSpace raw) of
        None \<Rightarrow> (writeAdminError 400 ''invalid port'', db)
      | Some port \<Rightarrow>
          if port \<le> 0 then (writeAdminError 400 ''invalid port'', db)
          else
            (case adm_unreserve_port store db port of
               (Inl e, db') \<Rightarrow> (writeAdminError 400 (error_text quote e), db')
             | (Inr _, db') \<Rightarrow> (status_only 204, db')))"

subsection \<open>Routing\<close>

definition serveAdminAPI ::
  "'db admin_env \<Rightarrow> config \<Rightarrow> 'db admin_store option \<Rightarrow> http_request \<Rightarrow> json_body \<Rightarrow> 'db
    \<Rightarrow> http_response option \<times> 'db" where
  "serveAdminAPI env cfg store r body db =
     (case store of
        None \<Rightarrow> (Some http_NotFound, db)
      | Some st \<Rightarrow>
          (let resource = TrimSpace (TrimPrefix (rq_path r) ''/api/admin/'');
               get = (rq_method r = ''GET''); post = (rq_method r = ''POST''); del = (rq_method r = ''DELETE'');
               answer = map_prod Some (\<lambda>d. d)
           in
           if resource = [] \<or> resource = ''/'' then (Some http_NotFound, db)
           else if resource = ''deploy'' then
             (if \<not> get then (Some methodNotAllowed, db)
              else (serveAdminDeployStatus (ae_read_file env) cfg, db))
           else if resource = ''summary'' then
             (if \<not> get then (Some methodNotAllowed, db)
              else (Some (serveAdminSummary env st db), ae_others env 1 (ae_others env 0 db)))
           else if resource = ''tokens'' then
             (if get then (Some (serveAdminListTokens st db), db)
              else if post then answer (serveAdminCreateToken st body db)
              else (Some methodNotAllowed, db))
           else if HasPrefix resource ''tokens/'' then
             (if \<not> del then (Some methodNotAllowed, db)
              else answer (serveAdminRevokeToken st (TrimPrefix resource ''tokens/'') db))
           else if resource = ''subdomains'' then
             (if get then (Some (serveAdminListSubdomains st db), db)
              else if post then answer (serveAdminReserveSubdomain (ae_quote env) st body db)
              else (Some methodNotAllowed, db))
           else if HasPrefix resource ''subdomains/'' then
             (if \<not> del then (Some methodNotAllowed, db)
              else answer (serveAdminUnreserveSubdomain (ae_quote env) st (TrimPrefix resource ''subdomains/'') db))
           else if resource = ''tcp-ports'' then
             (if get then (Some (serveAdminListTCPPorts st db), db)
              else if post then answer (serveAdminReserveTCPPort (ae_quote env) st body db)
              else (Some methodNotAllowed, db))
           else if HasPrefix resource ''tcp-ports/'' then
             (if \<not> del then (Some methodNotAllowed, db)
              else answer (serveAdminUnreserveTCPPort (ae_quote env) st (TrimPrefix resource ''tcp-ports/'') db))
           else (Some http_NotFound, db)))"

text \<open>The pages of the dashboard: embedded assets, not sent for HEAD.\<close>

definition serve_asset :: "string \<Rightarrow> string \<Rightarrow> http_request \<Rightarrow> http_response" where
  "serve_asset ctype name r =
     (if rq_method r \<noteq> ''GET'' \<and> rq_method r \<noteq> ''HEAD'' then methodNotAllowed
      else
        \<lparr>rs_status = 200,
         rs_header = hdr_Set ''Cache-Control'' ''no-store'' (hdr_Set ''Content-Type'' ctype no_header),
         rs_body = (if rq_method r = ''HEAD'' then NoBody else Asset name)\<rparr>)"

definition serveAdminIndex :: "http_request \<Rightarrow> http_response" where
  "serveAdminIndex r = serve_asset ''text/html; charset=utf-8'' ''adminIndexHTML'' r"

definition serveAdminStyle :: "http_request \<Rightarrow> http_response" where
  "serveAdminStyle r = serve_asset ''text/css; charset=utf-8'' ''adminStyleCSS'' r"

definition serveAdminApp :: "http_request \<Rightarrow> http_response" where
  "serveAdminApp r = serve_asset ''application/javascript; charset=utf-8'' ''adminAppJS'' r"

subsection \<open>The store behind the interface\<close>

text \<open>What the API needs of its store to keep an invariant of it: every operation keeps it.\<close>

locale kept_store =
  fixes st :: "'db admin_store" and inv :: "'db \<Rightarrow> bool"
  assumes create_kept: "inv db \<Longrightarrow> inv (snd (adm_create_token st db label))"
    and revoke_kept: "inv db \<Longrightarrow> inv (snd (adm_revoke_token st db tid))"
    and reserve_subdomain_kept: "inv db \<Longrightarrow> inv (snd (adm_reserve_subdomain st db tid sub))"
    and unreserve_subdomain_kept: "inv db \<Longrightarrow> inv (snd (adm_unreserve_subdomain st db sub))"
    and reserve_port_kept: "inv db \<Longrightarrow> inv (snd (adm_reserve_port st db tid port))"
    and unreserve_port_kept: "inv db \<Longrightarrow> inv (snd (adm_unreserve_port st db port))"
begin

lemma create_token_keeps: "inv db \<Longrightarrow> inv (snd (serveAdminCreateToken st body db))"
  using create_kept [of db] by (auto simp: serveAdminCreateToken_def split: sum.splits prod.splits) (metis snd_conv)+

lemma revoke_token_keeps: "inv db \<Longrightarrow> inv (snd (serveAdminRevokeToken st raw db))"
  using revoke_kept [of db]
  by (auto simp: serveAdminRevokeToken_def split: option.splits sum.splits prod.splits) (metis snd_conv)+

lemma reserve_subdomain_keeps: "inv db \<Longrightarrow> inv (snd (serveAdminReserveSubdomain quote st body db))"
  using reserve_subdomain_kept [of db]
  by (auto simp: serveAdminReserveSubdomain_def Let_def split: sum.splits prod.splits) (metis snd_conv)+

lemma unreserve_subdomain_keeps: "inv db \<Longrightarrow> inv (snd (serveAdminUnreserveSubdomain quote st raw db))"
  using unreserve_subdomain_kept [of db]
  by (auto simp: serveAdminUnreserveSubdomain_def split: option.splits sum.splits prod.splits) (metis snd_conv)+

lemma reserve_port_keeps: "inv db \<Longrightarrow> inv (snd (serveAdminReserveTCPPort quote st body db))"
  using reserve_port_kept [of db]
  by (auto simp: serveAdminReserveTCPPort_def split: sum.splits prod.splits) (metis snd_conv)+

lemma unreserve_port_keeps: "inv db \<Longrightarrow> inv (snd (serveAdminUnreserveTCPPort quote st raw db))"
  using unreserve_port_kept [of db]
  by (auto simp: serveAdminUnreserveTCPPort_def split: option.splits sum.splits prod.splits) (metis snd_conv)+

lemma api_keeps:
  assumes "inv db" and "\<And>n d. inv d \<Longrightarrow> inv (ae_others env n d)"
  shows "inv (snd (serveAdminAPI env cfg (Some st) r body db))"
proof -
  have "inv (ae_others env 1 (ae_others env 0 db))" using assms by blast
  then show ?thesis
    using assms(1) create_token_keeps revoke_token_keeps reserve_subdomain_keeps unreserve_subdomain_keeps
      reserve_port_keeps unreserve_port_keeps
    by (simp add: serveAdminAPI_def Let_def)
qed

end

text \<open>The auth store as the store of the API: a statement of each operation may fail, and time
  and random bytes are those of the call.\<close>

definition auth_admin ::
  "(string \<Rightarrow> string) \<Rightarrow> fault \<Rightarrow> int \<Rightarrow> string result \<Rightarrow> store admin_store" where
  "auth_admin sha flt now rnd =
     \<lparr>adm_create_token = (\<lambda>s label. CreateToken sha flt now rnd s label),
      adm_list_tokens = ListTokens flt,
      adm_revoke_token = (\<lambda>s tid. RevokeToken flt now s tid),
      adm_list_subdomains = ListReservedSubdomains flt,
      adm_reserve_subdomain = (\<lambda>s tid sub. ReserveSubdomain flt now s tid sub),
      adm_unreserve_subdomain = (\<lambda>s sub. UnreserveSubdomain flt s sub),
      adm_list_ports = ListReservedTCPPorts flt,
      adm_reserve_port = (\<lambda>s tid port. ReserveTCPPort flt now s tid port),
      adm_unreserve_port = (\<lambda>s port. UnreserveTCPPort flt s port)\<rparr>"

text \<open>The states that operations of the auth store reach from \<open>s0\<close>.\<close>

definition auth_reaches :: "(string \<Rightarrow> string) \<Rightarrow> store \<Rightarrow> store \<Rightarrow> bool" where
  "auth_reaches sha s0 s \<longleftrightarrow> (\<exists>ops. s = auth_run sha ops s0)"

lemma auth_reaches_refl: "auth_reaches sha s s"
  unfolding auth_reaches_def by (rule exI [of _ "[]"]) (simp add: auth_run_def)

lemma auth_reaches_exec: "auth_reaches sha s0 s \<Longrightarrow> auth_reaches sha s0 (auth_exec sha op s)"
proof -
  assume "auth_reaches sha s0 s"
  then obtain ops where "s = auth_run sha ops s0" by (auto simp: auth_reaches_def)
  then have "auth_exec sha op s = auth_run sha (ops @ [op]) s0" by (simp add: auth_run_def)
  then show ?thesis unfolding auth_reaches_def by blast
qed

interpretation admin_runs: kept_store "auth_admin sha flt now rnd" "auth_reaches sha s0"
  for sha flt now rnd s0
proof (unfold_locales, goal_cases)
  case (1 db label)
  from auth_reaches_exec [OF this, of "OpCreate flt now rnd label"] show ?case by (simp add: auth_admin_def)
next
  case (2 db tid)
  from auth_reaches_exec [OF this, of "OpRevoke flt now tid"] show ?case by (simp add: auth_admin_def)
next
  case (3 db tid sub)
  from auth_reaches_exec [OF this, of "OpReserveSubdomain flt now tid sub"] show ?case by (simp add: auth_admin_def)
next
  case (4 db sub)
  from auth_reaches_exec [OF this, of "OpUnreserveSubdomain flt sub"] show ?case by (simp add: auth_admin_def)
next
  case (5 db tid port)
  from auth_reaches_exec [OF this, of "OpReservePort flt now tid port"] show ?case by (simp add: auth_admin_def)
next
  case (6 db port)
  from auth_reaches_exec [OF this, of "OpUnreservePort flt port"] show ?case by (simp add: auth_admin_def)
qed

lemmas [eval_simps] =
  decodeAdminJSON_def writeAdminJSON_def writeAdminError_def
  methodNotAllowed_def readDeployStatus_def serveAdminDeployStatus_def

subsection \<open>Properties\<close>

text \<open>The routes, by the text of the path.\<close>

definition admin_request :: "string \<Rightarrow> string \<Rightarrow> http_request \<Rightarrow> bool" where
  "admin_request method resource r \<longleftrightarrow>
     rq_method r = method \<and> TrimSpace (TrimPrefix (rq_path r) ''/api/admin/'') = resource"

lemma route_create:
  "admin_request ''POST'' ''tokens'' r \<Longrightarrow>
     serveAdminAPI env cfg (Some st) r body db = map_prod Some (\<lambda>d. d) (serveAdminCreateToken st body db)"
  by (simp add: admin_request_def serveAdminAPI_def Let_def)

lemma route_revoke:
  assumes "admin_request ''DELETE'' (''tokens/'' @ raw) r"
  shows "serveAdminAPI env cfg (Some st) r body db = map_prod Some (\<lambda>d. d) (serveAdminRevokeToken st raw db)"
proof -
  have "HasPrefix (''tokens/'' @ raw) ''tokens/''" "TrimPrefix (''tokens/'' @ raw) ''tokens/'' = raw"
    by (rule HasPrefix_append, rule TrimPrefix_append)
  with assms show ?thesis by (simp add: admin_request_def serveAdminAPI_def Let_def)
qed


definition refused :: "http_response \<Rightarrow> bool" where
  "refused resp \<longleftrightarrow> 400 \<le> rs_status resp"

lemma refused_answers [simp]:
  "refused (writeAdminError 400 msg)" "refused methodNotAllowed" "refused http_NotFound"
  by (simp_all add: refused_def writeAdminError_def methodNotAllowed_def writeAdminJSON_def http_NotFound_def http_Error_def)


lemma route_post:
  "admin_request ''POST'' ''subdomains'' r \<Longrightarrow>
     serveAdminAPI env cfg (Some st) r body db = map_prod Some (\<lambda>d. d) (serveAdminReserveSubdomain (ae_quote env) st body db)"
  "admin_request ''POST'' ''tcp-ports'' r \<Longrightarrow>
     serveAdminAPI env cfg (Some st) r body db = map_prod Some (\<lambda>d. d) (serveAdminReserveTCPPort (ae_quote env) st body db)"
  by (simp_all add: admin_request_def serveAdminAPI_def Let_def HasPrefix_def)

lemma route_delete:
  "admin_request ''DELETE'' (''subdomains/'' @ raw) r \<Longrightarrow>
     serveAdminAPI env cfg (Some st) r body db = map_prod Some (\<lambda>d. d) (serveAdminUnreserveSubdomain (ae_quote env) st raw db)"
  "admin_request ''DELETE'' (''tcp-ports/'' @ raw) r \<Longrightarrow>
     serveAdminAPI env cfg (Some st) r body db = map_prod Some (\<lambda>d. d) (serveAdminUnreserveTCPPort (ae_quote env) st raw db)"
proof -
  have "TrimPrefix (''subdomains/'' @ raw) ''subdomains/'' = raw" "TrimPrefix (''tcp-ports/'' @ raw) ''tcp-ports/'' = raw"
    by (rule TrimPrefix_append)+
  then show "admin_request ''DELETE'' (''subdomains/'' @ raw) r \<Longrightarrow>
      serveAdminAPI env cfg (Some st) r body db = map_prod Some (\<lambda>d. d) (serveAdminUnreserveSubdomain (ae_quote env) st raw db)"
    "admin_request ''DELETE'' (''tcp-ports/'' @ raw) r \<Longrightarrow>
      serveAdminAPI env cfg (Some st) r body db = map_prod Some (\<lambda>d. d) (serveAdminUnreserveTCPPort (ae_quote env) st raw db)"
    by (simp_all add: admin_request_def serveAdminAPI_def Let_def HasPrefix_def)
qed

lemma prefixed_by: "HasPrefix s p \<Longrightarrow> \<exists>t. s = p @ t"
  by (auto simp: HasPrefix_def prefix_def)

text \<open>Every other request is answered without a call that changes the store.\<close>

lemma other_routes:
  assumes "\<not> admin_request ''POST'' ''tokens'' r" "\<not> admin_request ''POST'' ''subdomains'' r" "\<not> admin_request ''POST'' ''tcp-ports'' r"
    and "\<forall>raw. \<not> admin_request ''DELETE'' (''tokens/'' @ raw) r" "\<forall>raw. \<not> admin_request ''DELETE'' (''subdomains/'' @ raw) r"
      "\<forall>raw. \<not> admin_request ''DELETE'' (''tcp-ports/'' @ raw) r"
  shows "snd (serveAdminAPI env cfg (Some st) r body db)
      = (if admin_request ''GET'' ''summary'' r then ae_others env 1 (ae_others env 0 db) else db)
    \<and> (rq_method r \<noteq> ''GET'' \<longrightarrow> (\<exists>resp. fst (serveAdminAPI env cfg (Some st) r body db) = Some resp \<and> refused resp))"
proof -
  define res where "res = TrimSpace (TrimPrefix (rq_path r) ''/api/admin/'')"
  have no: "rq_method r = ''POST'' \<Longrightarrow> res \<noteq> ''tokens'' \<and> res \<noteq> ''subdomains'' \<and> res \<noteq> ''tcp-ports''"
    "rq_method r = ''DELETE'' \<Longrightarrow> \<not> HasPrefix res ''tokens/'' \<and> \<not> HasPrefix res ''subdomains/'' \<and> \<not> HasPrefix res ''tcp-ports/''"
    using assms by (auto simp: admin_request_def res_def dest!: prefixed_by)
  show ?thesis
    using no unfolding serveAdminAPI_def option.case Let_def admin_request_def res_def [symmetric] by auto
qed

text \<open>Which operation a request asks for, with its arguments: the store's operations by route, body and path.\<close>

inductive admin_asks :: "fault \<Rightarrow> int \<Rightarrow> string result \<Rightarrow> http_request \<Rightarrow> json_body \<Rightarrow> auth_op \<Rightarrow> bool" for flt now rnd where
  create_token: "admin_request ''POST'' ''tokens'' r \<Longrightarrow>
    decodeAdminJSON [(''label'', into_string (\<lambda>s _. s))] [] body = Inr label \<Longrightarrow>
    admin_asks flt now rnd r body (OpCreate flt now rnd (TrimSpace label))"
| revoke_token: "admin_request ''DELETE'' (''tokens/'' @ raw) r \<Longrightarrow> ParseInt (TrimSpace raw) = Some tid \<Longrightarrow> 0 < tid \<Longrightarrow>
    admin_asks flt now rnd r body (OpRevoke flt now tid)"
| reserve_subdomain: "admin_request ''POST'' ''subdomains'' r \<Longrightarrow>
    decodeAdminJSON reserve_subdomain_fields (0, []) body = Inr (tid, sub) \<Longrightarrow> 0 < tid \<Longrightarrow> TrimSpace sub \<noteq> [] \<Longrightarrow>
    admin_asks flt now rnd r body (OpReserveSubdomain flt now tid (TrimSpace sub))"
| unreserve_subdomain: "admin_request ''DELETE'' (''subdomains/'' @ raw) r \<Longrightarrow> PathUnescape (TrimSpace raw) = Some sub \<Longrightarrow>
    sub \<noteq> [] \<Longrightarrow> admin_asks flt now rnd r body (OpUnreserveSubdomain flt sub)"
| reserve_port: "admin_request ''POST'' ''tcp-ports'' r \<Longrightarrow>
    decodeAdminJSON reserve_port_fields (0, 0) body = Inr (tid, port) \<Longrightarrow> 0 < tid \<Longrightarrow> 0 < port \<Longrightarrow>
    admin_asks flt now rnd r body (OpReservePort flt now tid port)"
| unreserve_port: "admin_request ''DELETE'' (''tcp-ports/'' @ raw) r \<Longrightarrow> Atoi (TrimSpace raw) = Some port \<Longrightarrow> 0 < port \<Longrightarrow>
    admin_asks flt now rnd r body (OpUnreservePort flt port)"

text \<open>The handlers on the auth store, by the operation they run.\<close>

lemma handler_effects:
  fixes s :: store and sha flt now rnd
  defines "st \<equiv> auth_admin sha flt now rnd"
  shows "case decodeAdminJSON [(''label'', into_string (\<lambda>s _. s))] [] body of
      Inl e \<Rightarrow> snd (serveAdminCreateToken st body s) = s \<and> refused (fst (serveAdminCreateToken st body s))
    | Inr label \<Rightarrow> snd (serveAdminCreateToken st body s) = auth_exec sha (OpCreate flt now rnd (TrimSpace label)) s"
    "(\<exists>tid. ParseInt (TrimSpace raw) = Some tid \<and> 0 < tid
        \<and> snd (serveAdminRevokeToken st raw s) = auth_exec sha (OpRevoke flt now tid) s)
      \<or> snd (serveAdminRevokeToken st raw s) = s \<and> refused (fst (serveAdminRevokeToken st raw s))"
    "(\<exists>tid sub. decodeAdminJSON reserve_subdomain_fields (0, []) body = Inr (tid, sub) \<and> 0 < tid \<and> TrimSpace sub \<noteq> []
        \<and> snd (serveAdminReserveSubdomain q st body s) = auth_exec sha (OpReserveSubdomain flt now tid (TrimSpace sub)) s)
      \<or> snd (serveAdminReserveSubdomain q st body s) = s \<and> refused (fst (serveAdminReserveSubdomain q st body s))"
    "(\<exists>sub. PathUnescape (TrimSpace raw) = Some sub \<and> sub \<noteq> []
        \<and> snd (serveAdminUnreserveSubdomain q st raw s) = auth_exec sha (OpUnreserveSubdomain flt sub) s)
      \<or> snd (serveAdminUnreserveSubdomain q st raw s) = s \<and> refused (fst (serveAdminUnreserveSubdomain q st raw s))"
    "(\<exists>tid port. decodeAdminJSON reserve_port_fields (0, 0) body = Inr (tid, port) \<and> 0 < tid \<and> 0 < port
        \<and> snd (serveAdminReserveTCPPort q st body s) = auth_exec sha (OpReservePort flt now tid port) s)
      \<or> snd (serveAdminReserveTCPPort q st body s) = s \<and> refused (fst (serveAdminReserveTCPPort q st body s))"
    "(\<exists>port. Atoi (TrimSpace raw) = Some port \<and> 0 < port
        \<and> snd (serveAdminUnreserveTCPPort q st raw s) = auth_exec sha (OpUnreservePort flt port) s)
      \<or> snd (serveAdminUnreserveTCPPort q st raw s) = s \<and> refused (fst (serveAdminUnreserveTCPPort q st raw s))"
  unfolding st_def
  by (auto simp: serveAdminCreateToken_def serveAdminRevokeToken_def serveAdminReserveSubdomain_def
      serveAdminUnreserveSubdomain_def serveAdminReserveTCPPort_def serveAdminUnreserveTCPPort_def auth_admin_def Let_def
      split: sum.split prod.split option.split)
lemma asks_runs:
  assumes "admin_asks flt now rnd r body op"
  shows "snd (serveAdminAPI env cfg (Some (auth_admin sha flt now rnd)) r body s) = auth_exec sha op s"
  using assms
  by cases (auto simp: route_create route_revoke route_post route_delete serveAdminCreateToken_def serveAdminRevokeToken_def
      serveAdminReserveSubdomain_def serveAdminUnreserveSubdomain_def serveAdminReserveTCPPort_def
      serveAdminUnreserveTCPPort_def auth_admin_def Let_def split: sum.split prod.split
      simp del: append.simps)

lemma nothing_asked:
  assumes "\<And>op. \<not> admin_asks flt now rnd r body op"
  shows "snd (serveAdminAPI env cfg (Some (auth_admin sha flt now rnd)) r body s)
      = (if admin_request ''GET'' ''summary'' r then ae_others env 1 (ae_others env 0 s) else s)
    \<and> (rq_method r \<noteq> ''GET'' \<longrightarrow>
        (\<exists>resp. fst (serveAdminAPI env cfg (Some (auth_admin sha flt now rnd)) r body s) = Some resp \<and> refused resp))"
proof -
  let ?st = "auth_admin sha flt now rnd"
  note effects = handler_effects [where s = s and sha = sha and flt = flt and now = now and rnd = rnd]
  have no: "rq_method r \<noteq> ''POST'' \<Longrightarrow> rq_method r \<noteq> ''DELETE'' \<Longrightarrow> True" ..
  consider (c1) "admin_request ''POST'' ''tokens'' r" | (c2) "admin_request ''POST'' ''subdomains'' r"
    | (c3) "admin_request ''POST'' ''tcp-ports'' r" | (c4) raw where "admin_request ''DELETE'' (''tokens/'' @ raw) r"
    | (c5) raw where "admin_request ''DELETE'' (''subdomains/'' @ raw) r"
    | (c6) raw where "admin_request ''DELETE'' (''tcp-ports/'' @ raw) r"
    | (c7) "\<not> admin_request ''POST'' ''tokens'' r" "\<not> admin_request ''POST'' ''subdomains'' r"
        "\<not> admin_request ''POST'' ''tcp-ports'' r" "\<forall>raw. \<not> admin_request ''DELETE'' (''tokens/'' @ raw) r"
        "\<forall>raw. \<not> admin_request ''DELETE'' (''subdomains/'' @ raw) r"
        "\<forall>raw. \<not> admin_request ''DELETE'' (''tcp-ports/'' @ raw) r" by blast
  then show ?thesis
  proof cases
    case c1
    with assms admin_asks.create_token have "\<And>l. decodeAdminJSON [(''label'', into_string (\<lambda>s _. s))] [] body \<noteq> Inr l" by blast
    then have "snd (serveAdminCreateToken ?st body s) = s \<and> refused (fst (serveAdminCreateToken ?st body s))"
      using effects(1) [of body] by (auto split: sum.splits)
    then show ?thesis using c1 by (simp add: route_create) (simp add: admin_request_def)
  next
    case c2
    with assms effects(3) [of body "ae_quote env"] admin_asks.reserve_subdomain
    have "snd (serveAdminReserveSubdomain (ae_quote env) ?st body s) = s \<and> refused (fst (serveAdminReserveSubdomain (ae_quote env) ?st body s))" by blast
    then show ?thesis using c2 by (simp add: route_post) (simp add: admin_request_def)
  next
    case c3
    with assms effects(5) [of body "ae_quote env"] admin_asks.reserve_port
    have "snd (serveAdminReserveTCPPort (ae_quote env) ?st body s) = s \<and> refused (fst (serveAdminReserveTCPPort (ae_quote env) ?st body s))" by blast
    then show ?thesis using c3 by (simp add: route_post) (simp add: admin_request_def)
  next
    case c4
    with assms effects(2) [of raw] admin_asks.revoke_token
    have "snd (serveAdminRevokeToken ?st raw s) = s \<and> refused (fst (serveAdminRevokeToken ?st raw s))" by blast
    then show ?thesis unfolding route_revoke [OF c4] using c4 by (simp add: admin_request_def)
  next
    case c5
    with assms effects(4) [of raw "ae_quote env"] admin_asks.unreserve_subdomain
    have "snd (serveAdminUnreserveSubdomain (ae_quote env) ?st raw s) = s \<and> refused (fst (serveAdminUnreserveSubdomain (ae_quote env) ?st raw s))" by blast
    then show ?thesis unfolding route_delete(1) [OF c5] using c5 by (simp add: admin_request_def)
  next
    case c6
    with assms effects(6) [of raw "ae_quote env"] admin_asks.unreserve_port
    have "snd (serveAdminUnreserveTCPPort (ae_quote env) ?st raw s) = s \<and> refused (fst (serveAdminUnreserveTCPPort (ae_quote env) ?st raw s))" by blast
    then show ?thesis unfolding route_delete(2) [OF c6] using c6 by (simp add: admin_request_def)
  next
    case c7
    then show ?thesis by (rule other_routes)
  qed
qed

text \<open>C9: the admin API does to the auth store exactly what the request asks for. POST of tokens, subdomains or
  tcp-ports with a body that decodes and names what is needed runs the one operation that creates the token with the
  trimmed label, or reserves for the id in the body the name or port in it; DELETE of tokens/, subdomains/ or
  tcp-ports/ with a usable last part runs the one that revokes that id, or removes the reservation of that name or port.
  Each of them leaves the store as that operation with those arguments does, whatever fails in it. Every other
  request (every GET among them) changes nothing of its own: the store is as before, but for what others did between the
  queries of the summary; and when it is not a GET it is answered by an error. A well-formed database stays well
  formed.\<close>

theorem admin_api_runs_store:
  assumes "\<And>n d. \<exists>ops. ae_others env n d = auth_run sha ops d"
  shows "(\<forall>op. admin_asks flt now rnd r body op \<longrightarrow>
        snd (serveAdminAPI env cfg (Some (auth_admin sha flt now rnd)) r body s) = auth_exec sha op s)
    \<and> ((\<nexists>op. admin_asks flt now rnd r body op) \<longrightarrow>
        snd (serveAdminAPI env cfg (Some (auth_admin sha flt now rnd)) r body s)
          = (if admin_request ''GET'' ''summary'' r then ae_others env 1 (ae_others env 0 s) else s)
        \<and> (rq_method r \<noteq> ''GET'' \<longrightarrow>
            (\<exists>resp. fst (serveAdminAPI env cfg (Some (auth_admin sha flt now rnd)) r body s) = Some resp \<and> refused resp)))
    \<and> (rq_method r = ''GET'' \<longrightarrow> (\<nexists>op. admin_asks flt now rnd r body op))
    \<and> (\<forall>db. s = Some db \<and> auth_inv db \<longrightarrow>
         (\<exists>db'. snd (serveAdminAPI env cfg (Some (auth_admin sha flt now rnd)) r body s) = Some db' \<and> auth_inv db'))"
proof -
  have "auth_reaches sha s (ae_others env n d)" if d: "auth_reaches sha s d" for n d
  proof -
    from d obtain ops where "d = auth_run sha ops s" by (auto simp: auth_reaches_def)
    moreover obtain ops' where "ae_others env n d = auth_run sha ops' d" using assms by blast
    ultimately have "ae_others env n d = auth_run sha (ops @ ops') s" by (simp add: auth_run_def)
    then show ?thesis unfolding auth_reaches_def by blast
  qed
  from admin_runs.api_keeps [OF auth_reaches_refl this] obtain ops where
    ops: "snd (serveAdminAPI env cfg (Some (auth_admin sha flt now rnd)) r body s) = auth_run sha ops s"
    unfolding auth_reaches_def by blast
  have "\<exists>db'. auth_run sha ops (Some db) = Some db' \<and> auth_inv db'" if "auth_inv db" for db
    using that by (rule auth_run_invariant) (simp add: op_changes_inv)
  with ops have inv: "\<forall>db. s = Some db \<and> auth_inv db \<longrightarrow>
      (\<exists>db'. snd (serveAdminAPI env cfg (Some (auth_admin sha flt now rnd)) r body s) = Some db' \<and> auth_inv db')" by auto
  have "rq_method r = ''GET'' \<Longrightarrow> \<not> admin_asks flt now rnd r body op" for op
    by (auto simp: admin_request_def elim!: admin_asks.cases)
  then show ?thesis
    using asks_runs nothing_asked [of flt now rnd r body env cfg sha s] inv by blast
qed

text \<open>reading changes nothing. A request of the admin API whose method is neither POST nor
  DELETE leaves the store as it was, but for what others did meanwhile.\<close>

theorem admin_reads_only:
  assumes "rq_method r \<noteq> ''POST''" and "rq_method r \<noteq> ''DELETE''"
  shows "snd (serveAdminAPI env cfg store r body db) \<in> {db, ae_others env 1 (ae_others env 0 db)}"
  using assms by (simp add: serveAdminAPI_def Let_def split: option.split)

text \<open>the life of a token made through the API. When POST tokens answers 201, the reply's token
  resolves in the new store to the id of the reply, which no token had before; and after DELETE
  tokens/id for that id answers 204, the token does not resolve.\<close>

theorem admin_token_lifecycle:
  assumes "auth_inv db" and "admin_request ''POST'' ''tokens'' r"
    and "serveAdminAPI env cfg (Some (auth_admin sha flt now rnd)) r body (Some db) = (Some resp, s1)"
    and "rs_status resp = 201"
    and "admin_request ''DELETE'' (''tokens/'' @ raw) r'" and "ParseInt (TrimSpace raw) = Some i"
    and "serveAdminAPI env' cfg (Some (auth_admin sha flt' now' rnd')) r' body' s1 = (Some resp', s2)"
    and "rs_status resp' = 204"
  shows "\<exists>plain created tid label pre.
      rs_body resp = Json (JObj [(''created_at'', created), (''id'', JInt tid), (''label'', label),
        (''prefix'', pre), (''token'', JStr plain)])
      \<and> TokenID sha NoFault s1 plain = Inr (Some tid) \<and> (\<forall>row \<in> set (db_tokens db). tr_id row \<noteq> tid)
      \<and> (i = tid \<longrightarrow> TokenID sha NoFault s2 plain = Inr None)"
proof -
  obtain label rec plain where new: "CreateToken sha flt now rnd (Some db) label = (Inr (rec, plain), s1)"
    and body: "rs_body resp = Json (JObj [(''created_at'', JStr (rfc3339 (tok_created rec))),
        (''id'', JInt (tok_id rec)), (''label'', JStr (tok_label rec)), (''prefix'', JStr (tok_prefix rec)),
        (''token'', JStr plain)])"
    using assms(3,4) unfolding route_create [OF assms(2)]
    by (auto simp: serveAdminCreateToken_def auth_admin_def writeAdminJSON_def writeAdminError_def
        split: sum.splits prod.splits)
  obtain b db1 where plain: "plain = ''eos_'' @ ToLower (base32_EncodeToString b)" and s1: "s1 = Some db1"
    and inv1: "auth_inv db1" and act: "hash_active (hashToken sha plain) (tok_id rec) db1"
    and fresh: "db_token_seq db < tok_id rec"
    using created_token_active [OF assms(1) new] by blast
  have trim: "TrimSpace plain = plain" "plain \<noteq> []" using plain TrimSpace_generated by simp_all
  have tid: "TokenID sha NoFault s1 plain = Inr (Some (tok_id rec))"
    using TokenID_active [OF inv1, of sha plain] act trim s1 by simp
  have del: "RevokeToken flt' now' s1 i = (Inr (), s2)"
    using assms(6-8) unfolding route_revoke [OF assms(5)]
    by (auto simp: serveAdminRevokeToken_def auth_admin_def writeAdminError_def writeAdminJSON_def
        status_only_def split: sum.splits prod.splits if_splits)
  have "TokenID sha NoFault s2 plain = Inr None" if "i = tok_id rec"
    using revoke_active [OF inv1 act] del that s1 TokenID_revoked trim by force
  moreover have "\<forall>row \<in> set (db_tokens db). tr_id row \<noteq> tok_id rec"
    using assms(1) fresh by (fastforce simp: auth_inv_def tokens_inv_def)
  ultimately show ?thesis using body tid by blast
qed

text \<open>The answers depend on the store only through the results of its operations.\<close>

lemma api_answer_cong:
  assumes "adm_list_tokens st db = adm_list_tokens st db'"
    and "adm_list_subdomains st db = adm_list_subdomains st db'"
    and "adm_list_ports st db = adm_list_ports st db'"
    and "\<And>tid. fst (adm_revoke_token st db tid) = fst (adm_revoke_token st db' tid)"
    and "\<And>tid sub. fst (adm_reserve_subdomain st db tid sub) = fst (adm_reserve_subdomain st db' tid sub)"
    and "\<And>sub. fst (adm_unreserve_subdomain st db sub) = fst (adm_unreserve_subdomain st db' sub)"
    and "\<And>tid port. fst (adm_reserve_port st db tid port) = fst (adm_reserve_port st db' tid port)"
    and "\<And>port. fst (adm_unreserve_port st db port) = fst (adm_unreserve_port st db' port)"
    and "\<not> admin_request ''POST'' ''tokens'' r" and "\<And>n d. ae_others env n d = d"
  shows "fst (serveAdminAPI env cfg (Some st) r body db) = fst (serveAdminAPI env cfg (Some st) r body db')"
proof -
  have 1: "serveAdminSummary env st db = serveAdminSummary env st db'"
    "serveAdminListTokens st db = serveAdminListTokens st db'"
    "serveAdminListSubdomains st db = serveAdminListSubdomains st db'"
    "serveAdminListTCPPorts st db = serveAdminListTCPPorts st db'"
    unfolding serveAdminSummary_def serveAdminListTokens_def serveAdminListSubdomains_def
      serveAdminListTCPPorts_def Let_def assms(10) assms(1) assms(2) assms(3) by (rule refl)+
  have 2: "fst (serveAdminRevokeToken st raw db) = fst (serveAdminRevokeToken st raw db')" for raw
    using assms(4) unfolding serveAdminRevokeToken_def by (auto split: option.split prod.split sum.split) (metis fst_conv sum.distinct(1))+
  have 3: "fst (serveAdminReserveSubdomain q st body db) = fst (serveAdminReserveSubdomain q st body db')" for q
    using assms(5) unfolding serveAdminReserveSubdomain_def Let_def
    by (auto split: prod.split sum.split) (metis fst_conv sum.distinct(1) sum.inject(1))+
  have 4: "fst (serveAdminUnreserveSubdomain q st raw db) = fst (serveAdminUnreserveSubdomain q st raw db')" for q raw
    using assms(6) unfolding serveAdminUnreserveSubdomain_def
    by (auto split: option.split prod.split sum.split) (metis fst_conv sum.distinct(1) sum.inject(1))+
  have 5: "fst (serveAdminReserveTCPPort q st body db) = fst (serveAdminReserveTCPPort q st body db')" for q
    using assms(7) unfolding serveAdminReserveTCPPort_def
    by (auto split: prod.split sum.split) (metis fst_conv sum.distinct(1) sum.inject(1))+
  have 6: "fst (serveAdminUnreserveTCPPort q st raw db) = fst (serveAdminUnreserveTCPPort q st raw db')" for q raw
    using assms(8) unfolding serveAdminUnreserveTCPPort_def
    by (auto split: option.split prod.split sum.split) (metis fst_conv sum.distinct(1) sum.inject(1))+
  show ?thesis
    using assms(9) by (simp add: serveAdminAPI_def Let_def admin_request_def 1 2 3 4 5 6)
qed

definition without_hashes :: "auth_db \<Rightarrow> token_row list" where
  "without_hashes db = map (tr_hash_update (\<lambda>_. [])) (db_tokens db)"

lemma same_tokens_ids:
  "without_hashes db = without_hashes db' \<Longrightarrow>
     list_ex (\<lambda>t. tr_id t = tid) (db_tokens db) = list_ex (\<lambda>t. tr_id t = tid) (db_tokens db')"
proof -
  have "list_ex (\<lambda>t. tr_id t = tid) (without_hashes d) = list_ex (\<lambda>t. tr_id t = tid) (db_tokens d)" for d
    by (simp add: without_hashes_def list_ex_iff)
  then show "without_hashes db = without_hashes db' \<Longrightarrow> ?thesis" by metis
qed

lemma sort_key_map_same:
  "(\<And>x. f (g x) = f x) \<Longrightarrow> sort_key f (map g xs) = map g (sort_key f xs)"
proof (induction xs)
  case Nil
  then show ?case by simp
next
  case (Cons x xs)
  have "insort_key f (g x) (map g ys) = map g (insort_key f x ys)" for ys
    using Cons.prems by (induction ys) simp_all
  with Cons show ?case by simp
qed

lemma same_tokens_list:
  assumes "without_hashes db = without_hashes db'"
  shows "map row_token (sort_key tr_id (db_tokens db)) = map row_token (sort_key tr_id (db_tokens db'))"
proof -
  have "map row_token (sort_key tr_id (without_hashes d)) = map row_token (sort_key tr_id (db_tokens d))" for d
    by (simp add: without_hashes_def sort_key_map_same row_token_def)
  then show ?thesis using assms by metis
qed

lemma same_tokens_joined:
  fixes rows :: "('k::linorder) reservation list"
  assumes "without_hashes db = without_hashes db'"
  shows "joined_rows (db_tokens db) rows = joined_rows (db_tokens db') rows"
proof -
  have "map (\<lambda>t. (k, i, tr_prefix t, c)) (filter (\<lambda>t. tr_id t = i) (without_hashes d))
      = map (\<lambda>t. (k, i, tr_prefix t, c)) (filter (\<lambda>t. tr_id t = i) (db_tokens d))" for k :: 'k and i d and c :: int
    by (simp add: without_hashes_def filter_map comp_def)
  then have "joined_rows (without_hashes d) rows = joined_rows (db_tokens d) rows" for d
    by (simp add: joined_rows_def)
  then show ?thesis using assms by metis
qed

lemma fst_with_store: "fst (with_store (Some db) f) = fst (f db)"
  by (simp add: with_store_def split: prod.split)

lemma fst_exec_sql: "fst (f db) = fst (f' db') \<Longrightarrow> fst (exec_sql flt f db) = fst (exec_sql flt f' db')"
  by (cases flt) (simp_all add: exec_sql_def)

text \<open>the API never shows what identifies a token. Two databases that differ only in the stored
  hashes answer every request but the creation of a token alike.\<close>

theorem admin_hides_hashes:
  assumes "without_hashes db = without_hashes db'"
    and "db_subdomains db = db_subdomains db'" and "db_ports db = db_ports db'"
    and "\<not> admin_request ''POST'' ''tokens'' r" and "\<And>n d. ae_others env n d = d"
  shows "fst (serveAdminAPI env cfg (Some (auth_admin sha flt now rnd)) r body (Some db))
    = fst (serveAdminAPI env cfg (Some (auth_admin sha flt now rnd)) r body (Some db'))"
  using assms(4,5)
proof (rule api_answer_cong [rotated 8])
  note ids = same_tokens_ids [OF assms(1)]
  have sub: "fst (sql_insert_subdomain tid k now db) = fst (sql_insert_subdomain tid k now db')" for tid k
    using ids [of tid] assms(2) by (simp add: sql_insert_subdomain_def insert_row_def)
  have port: "fst (sql_insert_port tid k now db) = fst (sql_insert_port tid k now db')" for tid k
    using ids [of tid] assms(3) by (simp add: sql_insert_port_def insert_row_def)
  let ?st = "auth_admin sha flt now rnd"
  show "adm_list_tokens ?st (Some db) = adm_list_tokens ?st (Some db')"
    using same_tokens_list [OF assms(1)]
    by (cases flt) (simp_all add: auth_admin_def ListTokens_def with_store_q_def query_sql_def)
  show "adm_list_subdomains ?st (Some db) = adm_list_subdomains ?st (Some db')"
    using same_tokens_joined [OF assms(1), of "db_subdomains db"] assms(2)
    by (cases flt) (simp_all add: auth_admin_def ListReservedSubdomains_def with_store_q_def query_sql_def)
  show "adm_list_ports ?st (Some db) = adm_list_ports ?st (Some db')"
    using same_tokens_joined [OF assms(1), of "db_ports db"] assms(3)
    by (cases flt) (simp_all add: auth_admin_def ListReservedTCPPorts_def with_store_q_def query_sql_def)
  show "fst (adm_revoke_token ?st (Some db) tid) = fst (adm_revoke_token ?st (Some db') tid)" for tid
    by (auto simp: auth_admin_def RevokeToken_def fst_with_store sql_revoke_def intro: fst_exec_sql)
  show "fst (adm_reserve_subdomain ?st (Some db) tid s) = fst (adm_reserve_subdomain ?st (Some db') tid s)" for tid s
    by (auto simp: auth_admin_def ReserveSubdomain_def fst_with_store sub intro: fst_exec_sql split: sum.split)
  show "fst (adm_unreserve_subdomain ?st (Some db) s) = fst (adm_unreserve_subdomain ?st (Some db') s)" for s
    by (auto simp: auth_admin_def UnreserveSubdomain_def fst_with_store intro: fst_exec_sql split: sum.split)
  show "fst (adm_reserve_port ?st (Some db) tid p) = fst (adm_reserve_port ?st (Some db') tid p)" for tid p
    by (auto simp: auth_admin_def ReserveTCPPort_def fst_with_store port intro: fst_exec_sql)
  show "fst (adm_unreserve_port ?st (Some db) p) = fst (adm_unreserve_port ?st (Some db') p)" for p
    by (auto simp: auth_admin_def UnreserveTCPPort_def fst_with_store intro: fst_exec_sql)
qed

text \<open>a deploy status file holding the JSON value null makes the handler panic. The decoded map is
  then nil and the assignment of its fields fails, so the request gets no answer; every other
  content of the file is answered.\<close>

theorem deploy_status_null_panics:
  assumes "TrimSpace (cfg_deploy_status_path cfg) \<noteq> []"
  shows "serveAdminDeployStatus read cfg = None
    \<longleftrightarrow> read (TrimSpace (cfg_deploy_status_path cfg)) = FileJson (Some JNull)"
  using assms
  by (auto simp: serveAdminDeployStatus_def readDeployStatus_def Let_def
      split: file_read.split option.splits json.split sum.split)

subsection \<open>Witnesses\<close>

definition demo_admin_env :: "store admin_env" where
  "demo_admin_env = \<lparr>ae_others = (\<lambda>n s. s), ae_now = 0, ae_read_file = (\<lambda>p. FileJson (Some JNull)),
     ae_quote = (\<lambda>s. s)\<rparr>"

definition demo_admin :: "store admin_store" where
  "demo_admin = auth_admin (\<lambda>s. s) NoFault 7 (Inr ''xyzzy'')"

definition demo_admin_request :: "string \<Rightarrow> string \<Rightarrow> http_request" where
  "demo_admin_request method resource = demo_request method ''example.com'' (''/api/admin/'' @ resource)"

lemma demo_admin_route:
  "TrimSpace resource = resource \<Longrightarrow> admin_request method resource (demo_admin_request method resource)"
proof -
  have "TrimPrefix (''/api/admin/'' @ resource) ''/api/admin/'' = resource" by (rule TrimPrefix_append)
  then show "TrimSpace resource = resource \<Longrightarrow> ?thesis"
    by (simp add: admin_request_def demo_admin_request_def demo_request_def)
qed

lemma demo_auth_inv: "auth_inv demo_db"
  by (simp add: auth_inv_def demo_db_def empty_db_def tokens_inv_def table_inv_def int64_range_def)

lemma demo_create:
  "\<exists>s1. CreateToken (\<lambda>s. s) NoFault 7 (Inr ''xyzzy'') (Some demo_db) ''box''
    = (Inr (\<lparr>tok_id = 2, tok_label = ''box'', tok_prefix = ''eos_pb4xu6tz'', tok_created = 7,
            tok_revoked = None\<rparr>, ''eos_pb4xu6tz''), s1)"
proof -
  have "fst (CreateToken (\<lambda>s. s) NoFault 7 (Inr ''xyzzy'') (Some demo_db) ''box'')
    = Inr (\<lparr>tok_id = 2, tok_label = ''box'', tok_prefix = ''eos_pb4xu6tz'', tok_created = 7,
            tok_revoked = None\<rparr>, ''eos_pb4xu6tz'')"
    by (simp add: eval_simps demo_db_def)
  then show ?thesis by (metis prod.collapse)
qed

theorem admin_api_runs_store_witness:
  "snd (serveAdminAPI demo_admin_env demo_cfg (Some demo_admin)
      (demo_admin_request ''DELETE'' (''tokens/'' @ ''5'')) None (Some demo_db)) = auth_exec (\<lambda>s. s) (OpRevoke NoFault 7 5) (Some demo_db)
   \<and> (\<exists>db'. snd (serveAdminAPI demo_admin_env demo_cfg (Some demo_admin)
      (demo_admin_request ''POST'' ''tokens'') (Some (JObj [], True)) (Some demo_db)) = Some db' \<and> auth_inv db')"
proof -
  have "\<exists>ops. ae_others demo_admin_env n d = auth_run (\<lambda>s. s) ops d" for n d
    by (rule exI [of _ "[]"]) (simp add: demo_admin_env_def auth_run_def)
  note api = admin_api_runs_store [OF this]
  have "admin_request ''DELETE'' (''tokens/'' @ ''5'') (demo_admin_request ''DELETE'' (''tokens/'' @ ''5''))"
    by (rule demo_admin_route) (simp add: eval_simps)
  then have "admin_asks NoFault 7 (Inr ''xyzzy'') (demo_admin_request ''DELETE'' (''tokens/'' @ ''5'')) None (OpRevoke NoFault 7 5)"
    by (rule admin_asks.revoke_token) (simp_all add: eval_simps)
  with api demo_auth_inv show ?thesis unfolding demo_admin_def by blast
qed

theorem admin_reads_only_witness:
  "snd (serveAdminAPI demo_admin_env demo_cfg (Some demo_admin)
      (demo_admin_request ''GET'' ''tokens'') None (Some demo_db)) = Some demo_db"
  using admin_reads_only [of "demo_admin_request ''GET'' ''tokens''" demo_admin_env demo_cfg "Some demo_admin"
      None "Some demo_db"]
  by (simp add: demo_admin_env_def demo_admin_request_def demo_request_def)

theorem admin_token_lifecycle_witness:
  "\<exists>s1 s2 plain. plain \<noteq> [] \<and> TokenID (\<lambda>s. s) NoFault s1 plain = Inr (Some 2)
     \<and> TokenID (\<lambda>s. s) NoFault s2 plain = Inr None"
proof -
  let ?r = "demo_admin_request ''POST'' ''tokens''" and ?r' = "demo_admin_request ''DELETE'' (''tokens/'' @ ''2'')"
  have route: "admin_request ''POST'' ''tokens'' ?r" "admin_request ''DELETE'' (''tokens/'' @ ''2'') ?r'"
    by (rule demo_admin_route, simp add: eval_simps)+
  have "EqualFold ''label'' ''label''" by (simp add: EqualFold_def)
  then have dec: "decodeAdminJSON [(''label'', into_string (\<lambda>s _. s))] [] (Some (JObj [(''label'', JStr ''box'')], True))
      = Inr ''box''"
    by (simp add: decodeAdminJSON_def decode_struct_def into_struct_def into_string_def)
  have trim: "TrimSpace ''box'' = ''box''" "TrimSpace ''2'' = ''2''" "ParseInt ''2'' = Some 2"
    by (simp_all add: eval_simps)
  obtain s1 where create: "CreateToken (\<lambda>s. s) NoFault 7 (Inr ''xyzzy'') (Some demo_db) ''box''
    = (Inr (\<lparr>tok_id = 2, tok_label = ''box'', tok_prefix = ''eos_pb4xu6tz'', tok_created = 7,
            tok_revoked = None\<rparr>, ''eos_pb4xu6tz''), s1)" using demo_create by blast
  obtain resp where post: "serveAdminAPI demo_admin_env demo_cfg (Some demo_admin) ?r
      (Some (JObj [(''label'', JStr ''box'')], True)) (Some demo_db) = (Some resp, s1)"
    "rs_status resp = 201" "rs_body resp = Json (JObj [(''created_at'', JStr (rfc3339 7)), (''id'', JInt 2),
      (''label'', JStr ''box''), (''prefix'', JStr ''eos_pb4xu6tz''), (''token'', JStr ''eos_pb4xu6tz'')])"
    using create dec trim unfolding route_create [OF route(1)]
    by (simp add: serveAdminCreateToken_def demo_admin_def auth_admin_def writeAdminJSON_def)
  define s2 where "s2 = snd (RevokeToken NoFault 8 s1 2)"
  have "\<exists>db. s1 = Some db"
    using created_token_active [OF demo_auth_inv create] by blast
  then have "RevokeToken NoFault 8 s1 2 = (Inr (), s2)"
    by (auto simp: s2_def RevokeToken_def with_store_def exec_sql_def sql_revoke_def)
  then have del: "serveAdminAPI demo_admin_env demo_cfg (Some (auth_admin (\<lambda>s. s) NoFault 8 (Inr []))) ?r' None s1
      = (Some (status_only 204), s2)"
    using trim unfolding route_revoke [OF route(2)]
    by (simp add: serveAdminRevokeToken_def auth_admin_def)
  have "TrimSpace ''2'' = ''2''" "rs_status (status_only 204) = 204" using trim by (simp_all add: status_only_def)
  from admin_token_lifecycle [OF demo_auth_inv route(1) post(1) [unfolded demo_admin_def] post(2) route(2) _ del this(2), of 2]
  obtain plain tid where "TokenID (\<lambda>s. s) NoFault s1 plain = Inr (Some tid)" "tid = 2"
    "TokenID (\<lambda>s. s) NoFault s2 plain = Inr None" "plain = ''eos_pb4xu6tz''"
    using post(3) trim by auto
  then show ?thesis by blast
qed

theorem admin_hides_hashes_witness:
  "fst (serveAdminAPI demo_admin_env demo_cfg (Some demo_admin) (demo_admin_request ''GET'' ''tokens'') None
     (Some demo_db))
   = fst (serveAdminAPI demo_admin_env demo_cfg (Some demo_admin) (demo_admin_request ''GET'' ''tokens'') None
     (Some (demo_db\<lparr>db_tokens := map (tr_hash_update (\<lambda>_. ''other'')) (db_tokens demo_db)\<rparr>)))"
  unfolding demo_admin_def
proof (rule admin_hides_hashes)
  show "without_hashes demo_db
      = without_hashes (demo_db\<lparr>db_tokens := map (tr_hash_update (\<lambda>_. ''other'')) (db_tokens demo_db)\<rparr>)"
    by (simp add: without_hashes_def)
  show "\<not> admin_request ''POST'' ''tokens'' (demo_admin_request ''GET'' ''tokens'')"
    by (simp add: admin_request_def demo_admin_request_def demo_request_def)
qed (simp_all add: demo_admin_env_def)

theorem deploy_status_null_panics_witness:
  "serveAdminDeployStatus (\<lambda>p. FileJson (Some JNull)) (demo_cfg\<lparr>cfg_deploy_status_path := ''/s.json''\<rparr>) = None"
proof -
  have "TrimSpace ''/s.json'' = ''/s.json''" by (simp add: eval_simps)
  then show ?thesis
    using deploy_status_null_panics [of "demo_cfg\<lparr>cfg_deploy_status_path := ''/s.json''\<rparr>"
        "\<lambda>p. FileJson (Some JNull)"] by simp
qed

end
