(* ===== verification/ServerHandler.thy ===== *)
theory ServerHandler
  imports Admin
begin

text \<open>
  \<open>internal/server/handler.go\<close>, \<open>docs.go\<close> and the handlers of \<open>landing.go\<close>: the
  configuration and its environment variables, the guard of the admin API, the question of
  Caddy whether a certificate may be issued, and \<open>NewHandler\<close>, the routes of the server over
  the shared state. The control handler takes its connection over (\<open>Upgrade\<close>); what it does then
  is in ControlHandler and Sessions. Embedded pages are named, and \<open>http.FileServer\<close> over the
  embedded documentation is an argument.
\<close>

subsection \<open>Configuration\<close>

definition getenvInt :: "(string \<Rightarrow> string) \<Rightarrow> string \<Rightarrow> int \<Rightarrow> int" where
  "getenvInt getenv key fallback =
     (let v = TrimSpace (getenv key) in
      if v = [] then fallback else (case Atoi v of None \<Rightarrow> fallback | Some n \<Rightarrow> n))"

definition getenvBool :: "(string \<Rightarrow> string) \<Rightarrow> string \<Rightarrow> bool \<Rightarrow> bool" where
  "getenvBool getenv key fallback =
     (let v = TrimSpace (getenv key) in
      if v = [] then fallback else (case ParseBool v of None \<Rightarrow> fallback | Some b \<Rightarrow> b))"

definition ConfigFromEnv :: "(string \<Rightarrow> string) \<Rightarrow> config" where
  "ConfigFromEnv getenv =
     \<lparr>cfg_base_domain = getenv ''EOSRIFT_BASE_DOMAIN'',
      cfg_tunnel_domain = getenv ''EOSRIFT_TUNNEL_DOMAIN'',
      cfg_trust_proxy_headers = getenvBool getenv ''EOSRIFT_TRUST_PROXY_HEADERS'' False,
      cfg_tcp_port_range_start = getenvInt getenv ''EOSRIFT_TCP_PORT_RANGE_START'' 20000,
      cfg_tcp_port_range_end = getenvInt getenv ''EOSRIFT_TCP_PORT_RANGE_END'' 40000,
      cfg_metrics_token = TrimSpace (getenv ''EOSRIFT_METRICS_TOKEN''),
      cfg_admin_token = TrimSpace (getenv ''EOSRIFT_ADMIN_TOKEN''),
      cfg_max_tunnels_per_token = getenvInt getenv ''EOSRIFT_MAX_TUNNELS_PER_TOKEN'' 0,
      cfg_max_tunnel_creates_per_minute = getenvInt getenv ''EOSRIFT_MAX_TUNNEL_CREATES_PER_MIN'' 0,
      cfg_db_path = TrimSpace (getenv ''EOSRIFT_DB_PATH''),
      cfg_auth_token = TrimSpace (getenv ''EOSRIFT_AUTH_TOKEN''),
      cfg_deploy_status_path = TrimSpace (getenv ''EOSRIFT_DEPLOY_STATUS_PATH'')\<rparr>"

definition ValidateConfig :: "config \<Rightarrow> unit result" where
  "ValidateConfig cfg =
     (if cfg_base_domain cfg = [] then Inl (Msg ''EOSRIFT_BASE_DOMAIN is required'')
      else if cfg_tunnel_domain cfg = [] then Inl (Msg ''EOSRIFT_TUNNEL_DOMAIN is required'')
      else Inr ())"

definition isAllowedDomain :: "string \<Rightarrow> config \<Rightarrow> bool" where
  "isAllowedDomain domain cfg =
     (let base = ToLower (TrimSuffix (cfg_base_domain cfg) ''.'');
          tunnel = ToLower (TrimSuffix (cfg_tunnel_domain cfg) ''.'')
      in if base \<noteq> [] \<and> domain = base then True
         else if tunnel \<noteq> [] \<and> (domain = tunnel \<or> HasSuffix domain (''.'' @ tunnel)) then True
         else False)"

subsection \<open>The guard of the admin API\<close>

definition admin_unauthorized :: http_response where
  "admin_unauthorized =
     http_Error (hdr_Set ''WWW-Authenticate'' ''Bearer realm=\"EosRift Admin\"'' no_header) ''unauthorized'' 401"

definition requireAdminAuth :: "string \<Rightarrow> http_request \<Rightarrow> (unit \<Rightarrow> http_response option \<times> 's) \<Rightarrow> 's
    \<Rightarrow> http_response option \<times> 's" where
  "requireAdminAuth token r next s =
     (let token = TrimSpace token in
      if token = [] then (Some http_NotFound, s)
      else
        (let authz = TrimSpace (hdr_Get (rq_header r) ''Authorization'') in
         if \<not> HasPrefix (ToLower authz) ''bearer '' then (Some admin_unauthorized, s)
         else if TrimSpace (drop (length ''Bearer '') authz) \<noteq> token then (Some admin_unauthorized, s)
         else next ()))"

subsection \<open>Certificates on demand\<close>

definition caddyAskDomain :: "http_request \<Rightarrow> string result" where
  "caddyAskDomain r =
     (let domain = TrimSpace (query_Get (rq_raw_query r) ''domain'');
          domain = (if domain = [] then TrimSpace (query_Get (rq_raw_query r) ''host'') else domain)
      in if domain = [] then Inl (Msg ''missing domain'')
         else
           (let domain = ToLower (TrimSuffix domain ''.'');
                domain = (if CHR '':'' \<in> set domain
                          then (case SplitHostPort domain of Some (host, _) \<Rightarrow> host | None \<Rightarrow> domain) else domain)
            in if domain = [] then Inl (Msg ''empty domain'') else Inr domain))"

definition caddyAsk ::
  "config \<Rightarrow> 'db dependencies \<Rightarrow> registry \<Rightarrow> 'db \<Rightarrow> http_request \<Rightarrow> http_response" where
  "caddyAsk cfg deps reg db r =
     (case caddyAskDomain r of
        Inl _ \<Rightarrow> http_Error no_header ''missing domain'' 400
      | Inr domain \<Rightarrow>
          if cfg_base_domain cfg = [] \<and> cfg_tunnel_domain cfg = []
          then http_Error no_header ''server misconfigured'' 500
          else
            (let base = normalizeDomain (cfg_base_domain cfg);
                 tunnel = normalizeDomain (cfg_tunnel_domain cfg);
                 forbidden = http_Error no_header ''forbidden'' 403
             in if base \<noteq> [] \<and> domain = base then status_only 200
                else if tunnel \<noteq> [] \<and> domain = tunnel then status_only 200
                else
                  (case tunnelIDFromHost domain (cfg_tunnel_domain cfg) of
                     None \<Rightarrow> forbidden
                   | Some i \<Rightarrow>
                       (case GetHTTPTunnel reg i of
                          Some _ \<Rightarrow> status_only 200
                        | None \<Rightarrow>
                            (case dep_reservations deps of
                               None \<Rightarrow> forbidden
                             | Some rsv \<Rightarrow>
                                 (case rsv_subdomain_owner rsv 20 db i of
                                    Inr (Some _) \<Rightarrow> status_only 200
                                  | _ \<Rightarrow> forbidden))))))"

subsection \<open>Documentation and landing page\<close>

text \<open>\<open>path.Ext\<close> and \<open>fs.ValidPath\<close> (names of embedded files are valid UTF-8).\<close>

definition path_Ext :: "string \<Rightarrow> string" where
  "path_Ext p =
     (case cut_last CHR ''.'' (List.last (Split_char CHR ''/'' p)) of None \<Rightarrow> [] | Some (_, e) \<Rightarrow> ''.'' @ e)"

definition ValidPath :: "string \<Rightarrow> bool" where
  "ValidPath p \<longleftrightarrow> p = ''.'' \<or> list_all (\<lambda>s. s \<notin> set [[], ''.'', ''..'']) (Split_char CHR ''/'' p)"

definition docsPathCandidates :: "string \<Rightarrow> string list" where
  "docsPathCandidates rel =
     (let clean = clean_rooted (''/'' @ rel); normalized = TrimPrefix clean ''/'' in
      if normalized = ''.'' \<or> normalized = [] then []
      else normalized # (if path_Ext normalized = [] then [normalized @ ''.html''] else []))"

definition serveDocs :: "(string \<Rightarrow> bool) \<Rightarrow> (http_request \<Rightarrow> http_response) \<Rightarrow> http_request \<Rightarrow> http_response" where
  "serveDocs is_file file_server r =
     (let rel = TrimPrefix (rq_path r) ''/docs/'' in
      if rel = [] then file_server r
      else
        (case find (\<lambda>c. ValidPath c \<and> is_file c) (docsPathCandidates rel) of
           Some c \<Rightarrow> file_server (r\<lparr>rq_path := ''/docs/'' @ c\<rparr>)
         | None \<Rightarrow> file_server r))"

definition serveLandingIndex :: "http_request \<Rightarrow> http_response" where
  "serveLandingIndex r = serve_asset ''text/html; charset=utf-8'' ''landingIndexHTML'' r"

definition serveLandingStyle :: "http_request \<Rightarrow> http_response" where
  "serveLandingStyle r = serve_asset ''text/css; charset=utf-8'' ''landingStyleCSS'' r"

subsection \<open>Redirects\<close>

text \<open>\<open>URL.String\<close> for a rooted path and a query, \<open>http.Redirect\<close> to a rooted location.\<close>

definition location_string :: "string \<Rightarrow> string \<Rightarrow> string" where
  "location_string p q = escape_path p @ (if q = [] then [] else ''?'' @ q)"

definition html_escape :: "string \<Rightarrow> string" where
  "html_escape s = concat (map (\<lambda>c.
     if c = CHR ''&'' then ''&amp;'' else if c = CHR ''<'' then ''&lt;'' else if c = CHR ''>'' then ''&gt;''
     else if c = CHR 0x22 then ''&#34;'' else if c = CHR 0x27 then ''&#39;'' else [c]) s)"

definition http_Redirect :: "http_request \<Rightarrow> string \<Rightarrow> int \<Rightarrow> http_response" where
  "http_Redirect r loc code =
     (let h = hdr_Set ''Location'' loc no_header;
          html = (rq_method r = ''GET'' \<or> rq_method r = ''HEAD'')
      in \<lparr>rs_status = code,
          rs_header = (if html then hdr_Set ''Content-Type'' ''text/html; charset=utf-8'' h else h),
          rs_body = (if rq_method r = ''GET''
                     then Text (''<a href='' @ [CHR 0x22] @ html_escape loc @ [CHR 0x22]
                       @ ''>Moved Permanently</a>.'' @ [CHR 0x0A, CHR 0x0A])
                     else NoBody)\<rparr>)"

subsection \<open>The routes\<close>

datatype route =
    Healthz | CaddyAsk | MetricsPage | AdminPage | AdminFiles | AdminApi | DocsIndex | Docs
  | Control | Stylesheet | Everything

definition admin_enabled :: "config \<Rightarrow> 'db admin_store option \<Rightarrow> bool" where
  "admin_enabled cfg adm \<longleftrightarrow> TrimSpace (cfg_admin_token cfg) \<noteq> [] \<and> adm \<noteq> None"

definition server_routes :: "config \<Rightarrow> 'db admin_store option \<Rightarrow> (mux_pattern \<times> route) list" where
  "server_routes cfg adm =
     [(Exact [''healthz''], Healthz), (Exact [''caddy'', ''ask''], CaddyAsk)]
     @ (if cfg_metrics_token cfg \<noteq> [] then [(Exact [''metrics''], MetricsPage)] else [])
     @ (if admin_enabled cfg adm
        then [(Exact [''admin''], AdminPage), (Subtree [''admin''], AdminFiles), (Subtree [''api'', ''admin''], AdminApi)]
        else [])
     @ [(Exact [''docs''], DocsIndex), (Subtree [''docs''], Docs), (Exact [''control''], Control),
        (Exact [''style.css''], Stylesheet), (Subtree [], Everything)]"

text \<open>What a request meets outside the server.\<close>

record 'db http_env =
  he_now :: int
  he_rounding :: "rat \<Rightarrow> rat"
  he_upstream :: upstream
  he_is_file :: "string \<Rightarrow> bool"
  he_file_server :: "http_request \<Rightarrow> http_response"
  he_admin :: "'db admin_env"

text \<open>\<open>Upgrade\<close>: the control handler has the connection. \<open>Panicked\<close>: the connection is dropped.\<close>

datatype answer = Answer http_response | Upgrade | Panicked

definition on_base :: "config \<Rightarrow> http_request \<Rightarrow> bool" where
  "on_base cfg r \<longleftrightarrow> isBaseDomainHost (rq_host r) (cfg_base_domain cfg)"

definition admin_files :: "http_request \<Rightarrow> http_response" where
  "admin_files r =
     (if rq_path r = ''/admin/'' \<or> rq_path r = ''/admin'' then serveAdminIndex r
      else if rq_path r = ''/admin/style.css'' then serveAdminStyle r
      else if rq_path r = ''/admin/app.js'' then serveAdminApp r
      else http_NotFound)"

definition admin_api ::
  "config \<Rightarrow> 'db admin_store option \<Rightarrow> 'db admin_env \<Rightarrow> http_request \<Rightarrow> json_body \<Rightarrow> 'db
    \<Rightarrow> http_response option \<times> 'db" where
  "admin_api cfg adm env r body db =
     requireAdminAuth (cfg_admin_token cfg) r
       (\<lambda>_. if \<not> on_base cfg r then (Some http_NotFound, db) else serveAdminAPI env cfg adm r body db) db"

definition healthz_response :: http_response where
  "healthz_response =
     \<lparr>rs_status = 200, rs_header = hdr_Set ''Content-Type'' ''text/plain; charset=utf-8'' no_header,
      rs_body = Text (''ok'' @ [CHR 0x0A])\<rparr>"

definition tunnel_answer :: "config \<Rightarrow> 'db http_env \<Rightarrow> http_request \<Rightarrow> 'db server \<Rightarrow> http_response" where
  "tunnel_answer cfg he r sv = httpTunnelProxyHandler cfg (sv_registry sv) (he_upstream he) r"

fun serve_route ::
  "config \<Rightarrow> 'db dependencies \<Rightarrow> 'db admin_store option \<Rightarrow> 'db http_env \<Rightarrow> http_request \<Rightarrow> json_body \<Rightarrow> 'db server
    \<Rightarrow> route \<Rightarrow> answer \<times> 'db server" where
  "serve_route cfg deps adm he r body sv Healthz = (Answer healthz_response, sv)"
| "serve_route cfg deps adm he r body sv CaddyAsk =
     (Answer (caddyAsk cfg deps (sv_registry sv) (sv_db sv) r), sv)"
| "serve_route cfg deps adm he r body sv MetricsPage =
     (Answer (metricsHandler (he_rounding he) (he_now he) (cfg_base_domain cfg) (cfg_metrics_token cfg)
        (sv_metrics sv) r), sv)"
| "serve_route cfg deps adm he r body sv AdminPage =
     (Answer (if on_base cfg r then serveAdminIndex r else http_NotFound), sv)"
| "serve_route cfg deps adm he r body sv AdminFiles =
     (Answer (if on_base cfg r then admin_files r else http_NotFound), sv)"
| "serve_route cfg deps adm he r body sv AdminApi =
     (case admin_api cfg adm (he_admin he) r body (sv_db sv) of
        (None, db) \<Rightarrow> (Panicked, sv\<lparr>sv_db := db\<rparr>)
      | (Some resp, db) \<Rightarrow> (Answer resp, sv\<lparr>sv_db := db\<rparr>))"
| "serve_route cfg deps adm he r body sv DocsIndex =
     (Answer (if on_base cfg r \<and> rq_path r = ''/docs'' then http_Redirect r ''/docs/'' 301
              else tunnel_answer cfg he r sv), sv)"
| "serve_route cfg deps adm he r body sv Docs =
     (Answer (if on_base cfg r then serveDocs (he_is_file he) (he_file_server he) r
              else tunnel_answer cfg he r sv), sv)"
| "serve_route cfg deps adm he r body sv Control = (Upgrade, sv)"
| "serve_route cfg deps adm he r body sv Stylesheet =
     (Answer (if on_base cfg r \<and> rq_path r = ''/style.css'' then serveLandingStyle r
              else tunnel_answer cfg he r sv), sv)"
| "serve_route cfg deps adm he r body sv Everything =
     (Answer (if on_base cfg r \<and> rq_path r = ''/'' then serveLandingIndex r
              else tunnel_answer cfg he r sv), sv)"

definition NewHandler ::
  "config \<Rightarrow> 'db dependencies \<Rightarrow> 'db admin_store option \<Rightarrow> 'db http_env \<Rightarrow> http_request \<Rightarrow> json_body \<Rightarrow> 'db server
    \<Rightarrow> answer \<times> 'db server" where
  "NewHandler cfg deps adm he r body sv =
     (case mux_handler (server_routes cfg adm) r of
        MuxHandler route \<Rightarrow> serve_route cfg deps adm he r body sv route
      | MuxRedirect p q \<Rightarrow> (Answer (http_Redirect r (location_string p q) 301), sv)
      | MuxNotFound \<Rightarrow> (Answer http_NotFound, sv))"

lemmas [eval_simps] =
  getenvInt_def getenvBool_def ValidateConfig_def isAllowedDomain_def
  caddyAskDomain_def path_Ext_def ValidPath_def docsPathCandidates_def
  location_string_def html_escape_def
  admin_enabled_def server_routes_def

subsection \<open>Properties\<close>

lemma requireAdminAuth_next:
  assumes "requireAdminAuth token r next s = (resp, s')" and "s' \<noteq> s \<or> resp \<notin> {Some http_NotFound, Some admin_unauthorized}"
  shows "TrimSpace token \<noteq> [] \<and> next () = (resp, s')
    \<and> (\<exists>scheme t. TrimSpace (hdr_Get (rq_header r) ''Authorization'') = scheme @ t
         \<and> ToLower scheme = ''bearer '' \<and> TrimSpace t = TrimSpace token)"
proof -
  let ?a = "TrimSpace (hdr_Get (rq_header r) ''Authorization'')"
  have ok: "TrimSpace token \<noteq> []" "HasPrefix (ToLower ?a) ''bearer ''"
    "TrimSpace (drop (length ''Bearer '') ?a) = TrimSpace token" "next () = (resp, s')"
    using assms by (auto simp: requireAdminAuth_def Let_def split: if_splits)
  have len: "length ''Bearer '' = 7" by simp
  have "ToLower (take 7 ?a) = ''bearer ''"
    using ok(2) by (auto simp: HasPrefix_def prefix_def ToLower_def take_map)
  moreover have "?a = take 7 ?a @ drop 7 ?a" by simp
  moreover note ok(3) [unfolded len]
  ultimately have "\<exists>scheme t. ?a = scheme @ t \<and> ToLower scheme = ''bearer '' \<and> TrimSpace t = TrimSpace token"
    by blast
  with ok show ?thesis by blast
qed

text \<open>C10: no plain request changes the server but an authorised admin request. When answering a
  request leaves the server's state different, only the store changed, the request came to the
  base domain with the configured admin token as its bearer token, and the change is the admin
  API's.\<close>

theorem only_admin_changes_state:
  assumes "NewHandler cfg deps adm he r body sv = (ans, sv')" and "sv' \<noteq> sv"
  shows "on_base cfg r \<and> TrimSpace (cfg_admin_token cfg) \<noteq> []
    \<and> (\<exists>scheme t. TrimSpace (hdr_Get (rq_header r) ''Authorization'') = scheme @ t
         \<and> ToLower scheme = ''bearer '' \<and> TrimSpace t = TrimSpace (cfg_admin_token cfg))
    \<and> sv' = sv\<lparr>sv_db := snd (serveAdminAPI (he_admin he) cfg adm r body (sv_db sv))\<rparr>"
proof -
  obtain route where route: "serve_route cfg deps adm he r body sv route = (ans, sv')"
    using assms by (auto simp: NewHandler_def split: mux_result.splits)
  have api: "route = AdminApi" using route assms(2) by (cases route) auto
  obtain resp db where res: "admin_api cfg adm (he_admin he) r body (sv_db sv) = (resp, db)" by fastforce
  have sv': "sv' = sv\<lparr>sv_db := db\<rparr>" using route res api by (auto split: option.splits)
  then have "db \<noteq> sv_db sv" using assms(2) by auto
  then have ok: "TrimSpace (cfg_admin_token cfg) \<noteq> []"
    "(if \<not> on_base cfg r then (Some http_NotFound, sv_db sv)
      else serveAdminAPI (he_admin he) cfg adm r body (sv_db sv)) = (resp, db)"
    "\<exists>scheme t. TrimSpace (hdr_Get (rq_header r) ''Authorization'') = scheme @ t
         \<and> ToLower scheme = ''bearer '' \<and> TrimSpace t = TrimSpace (cfg_admin_token cfg)"
    using requireAdminAuth_next [OF res [unfolded admin_api_def]] by blast+
  then have "on_base cfg r" using \<open>db \<noteq> sv_db sv\<close> by (auto split: if_splits)
  with ok sv' show ?thesis by simp
qed

definition reserved_segments :: "string list" where
  "reserved_segments = [''healthz'', ''caddy'', ''metrics'', ''admin'', ''api'', ''control'']"

lemma length_Split_char: "length (Split_char c s) = Suc (length (filter (\<lambda>d. d = c) s))"
proof (induction s)
  case Nil
  then show ?case by simp
next
  case (Cons d s)
  then show ?case by (cases "Split_char c s") (auto split: list.splits)
qed

lemma mux_parts_not_Nil [simp]: "mux_parts p \<noteq> []"
  by (simp add: mux_parts_def)

lemma length_mux_parts: "length (mux_parts (CHR ''/'' # p)) = Suc (length (filter (\<lambda>d. d = CHR ''/'') p))"
  by (simp add: mux_parts_def length_Split_char)

lemma Split_char_snoc: "Split_char c (s @ [c]) = Split_char c s @ [[]]"
proof (induction s)
  case Nil
  then show ?case by simp
next
  case (Cons d s)
  then show ?case by (cases "Split_char c s") (auto split: list.splits)
qed

lemma mux_parts_slash: "mux_parts (CHR ''/'' # p @ ''/'') = mux_parts (CHR ''/'' # p) @ [[]]"
  by (simp add: mux_parts_def Split_char_snoc PathUnescape_def)

text \<open>Away from the reserved names the mux has four patterns.\<close>

definition plain_routes :: "(mux_pattern \<times> route) list" where
  "plain_routes = [(Exact [''docs''], DocsIndex), (Subtree [''docs''], Docs),
     (Exact [''style.css''], Stylesheet), (Subtree [], Everything)]"

lemma plain_matches:
  assumes "hd parts \<notin> set reserved_segments" and "parts \<noteq> []"
  shows "filter (\<lambda>x. pattern_matches parts (fst x)) (server_routes cfg adm)
    = filter (\<lambda>x. pattern_matches parts (fst x)) plain_routes"
proof -
  have other: "pattern_matches parts (Exact (a # as)) = False" "pattern_matches parts (Subtree (a # as)) = False"
    if "a \<in> set reserved_segments" for a as
    using that assms by (cases parts; auto simp: prefix_def)+
  have "set reserved_segments = {''healthz'', ''caddy'', ''metrics'', ''admin'', ''api'', ''control''}"
    by (simp add: reserved_segments_def)
  with other have "pattern_matches parts (Exact [''healthz'']) = False"
    "pattern_matches parts (Exact [''caddy'', ''ask'']) = False"
    "pattern_matches parts (Exact [''metrics'']) = False" "pattern_matches parts (Exact [''admin'']) = False"
    "pattern_matches parts (Subtree [''admin'']) = False"
    "pattern_matches parts (Subtree [''api'', ''admin'']) = False"
    "pattern_matches parts (Exact [''control'']) = False"
    by blast+
  then show ?thesis
    by (simp add: server_routes_def plain_routes_def del: pattern_matches.simps)
qed

lemma plain_match:
  assumes "hd (mux_parts p) \<notin> set reserved_segments" and "p \<noteq> []"
  shows "mux_match (server_routes cfg adm) p =
    (if mux_parts p = [''docs''] then Some (Exact [''docs''], DocsIndex)
     else if mux_parts p = [''style.css''] then Some (Exact [''style.css''], Stylesheet)
     else if hd (mux_parts p) = ''docs'' then Some (Subtree [''docs''], Docs)
     else Some (Subtree [], Everything))"
proof -
  have "mux_match (server_routes cfg adm) p
      = foldr better (filter (\<lambda>x. pattern_matches (mux_parts p) (fst x)) plain_routes) None"
    using assms plain_matches [OF assms(1) mux_parts_not_Nil, of cfg adm] by (simp add: mux_match_def)
  moreover obtain x xs where parts: "mux_parts p = x # xs" by (cases "mux_parts p") auto
  ultimately show ?thesis by (simp add: plain_routes_def)
qed

lemma plain_no_slash_redirect:
  assumes "hd (mux_parts (CHR ''/'' # p)) \<notin> set reserved_segments"
  shows "\<not> slash_redirect (server_routes cfg adm) (CHR ''/'' # p)"
proof
  let ?p = "CHR ''/'' # p"
  assume s: "slash_redirect (server_routes cfg adm) ?p"
  have parts: "mux_parts (?p @ ''/'') = mux_parts ?p @ [[]]"
    using mux_parts_slash [of p] by simp
  then have hd: "hd (mux_parts (?p @ ''/'')) = hd (mux_parts ?p)" by (simp add: hd_append)
  have m: "mux_match (server_routes cfg adm) (?p @ ''/'') =
      (if hd (mux_parts ?p) = ''docs'' then Some (Subtree [''docs''], Docs) else Some (Subtree [], Everything))"
    using plain_match [of "?p @ ''/''" cfg adm] assms unfolding hd parts by (auto simp: append_eq_Cons_conv)
  have n: "length (filter (\<lambda>c. c = CHR ''/'') (?p @ ''/'')) = Suc (length (mux_parts ?p))"
    by (simp add: length_mux_parts)
  have e: "exact_match (mux_match (server_routes cfg adm) (?p @ ''/'')) (?p @ ''/'')"
    using s by (simp add: slash_redirect_def)
  then have docs: "hd (mux_parts ?p) = ''docs''" "length (mux_parts ?p) = 1"
    using n e [unfolded m] by (auto split: if_splits)
  then have "mux_parts ?p = [''docs'']" by (cases "mux_parts ?p") auto
  then have "exact_match (mux_match (server_routes cfg adm) ?p) ?p"
    using plain_match [of ?p cfg adm] assms by simp
  with s show False by (simp add: slash_redirect_def)
qed

text \<open>requests for a tunnel reach the proxy. A request whose host is not the base domain, whose
  path is clean and does not start with one of the server's own names is answered by the tunnel
  proxy alone, over the live registry; on the tunnel's own host its documentation, style sheet
  and root are the tunnel's.\<close>

theorem tunnel_requests_reach_proxy:
  assumes "\<not> on_base cfg r" and "cleanPath (rq_escaped_path r) = rq_escaped_path r"
    and "rq_escaped_path r = CHR ''/'' # p" and "hd (mux_parts (rq_escaped_path r)) \<notin> set reserved_segments"
  shows "NewHandler cfg deps adm he r body sv
    = (Answer (httpTunnelProxyHandler cfg (sv_registry sv) (he_upstream he) r), sv)"
proof -
  have "\<not> slash_redirect (server_routes cfg adm) (rq_escaped_path r)"
    using plain_no_slash_redirect assms(3,4) by simp
  moreover obtain pat route where m: "mux_match (server_routes cfg adm) (rq_escaped_path r) = Some (pat, route)"
    and route: "route \<in> {DocsIndex, Stylesheet, Docs, Everything}"
    using plain_match [OF assms(4), of cfg adm] assms(3) by (auto split: if_splits)
  ultimately have "mux_handler (server_routes cfg adm) r = MuxHandler route"
    using assms(2) by (simp add: mux_handler_def Let_def)
  with route assms(1) show ?thesis by (auto simp: NewHandler_def tunnel_answer_def)
qed

lemma own_match:
  "mux_handler (server_routes cfg adm) r = MuxHandler Healthz" if "rq_escaped_path r = ''/healthz''"
proof -
  have parts: "mux_parts ''/healthz'' = [''healthz'']" "cleanPath ''/healthz'' = ''/healthz''"
    by (simp_all add: eval_simps)
  then have m: "mux_match (server_routes cfg adm) ''/healthz'' = Some (Exact [''healthz''], Healthz)"
    by (simp add: mux_match_def server_routes_def)
  then have "\<not> slash_redirect (server_routes cfg adm) ''/healthz''" by (simp add: slash_redirect_def)
  with that m parts show ?thesis by (simp add: mux_handler_def Let_def)
qed

lemma own_match_control:
  "mux_handler (server_routes cfg adm) r = MuxHandler Control" if "rq_escaped_path r = ''/control''"
proof -
  have parts: "mux_parts ''/control'' = [''control'']" "cleanPath ''/control'' = ''/control''"
    by (simp_all add: eval_simps)
  then have m: "mux_match (server_routes cfg adm) ''/control'' = Some (Exact [''control''], Control)"
    by (simp add: mux_match_def server_routes_def)
  then have "\<not> slash_redirect (server_routes cfg adm) ''/control''" by (simp add: slash_redirect_def)
  with that m parts show ?thesis by (simp add: mux_handler_def Let_def)
qed

text \<open>the server's own paths shadow the tunnels. A request for /healthz is answered by the server
  itself on every host, so a tunnel's own /healthz is never reached, and /control is taken for a
  control connection on every host.\<close>

theorem own_paths_shadow_tunnels:
  assumes "rq_escaped_path r = ''/'' @ name" and "name = ''healthz'' \<or> name = ''control''"
  shows "NewHandler cfg deps adm he r body sv
    = (if name = ''healthz'' then Answer healthz_response else Upgrade, sv)"
  using assms own_match [of r cfg adm] own_match_control [of r cfg adm] by (auto simp: NewHandler_def)

text \<open>certificates are issued for names in use only. Caddy's question is answered with 200 exactly
  for the base domain, the tunnel domain, and a single label below the tunnel domain that is the
  id of a live tunnel or reserved in the store.\<close>

theorem caddy_ask_exact:
  assumes "caddyAskDomain r = Inr d" and "cfg_base_domain cfg \<noteq> [] \<or> cfg_tunnel_domain cfg \<noteq> []"
    and "dep_reservations deps = Some (auth_reservations flts now)"
  shows "rs_status (caddyAsk cfg deps reg s r) = 200 \<longleftrightarrow>
      (normalizeDomain (cfg_base_domain cfg) \<noteq> [] \<and> d = normalizeDomain (cfg_base_domain cfg))
    \<or> (normalizeDomain (cfg_tunnel_domain cfg) \<noteq> [] \<and> d = normalizeDomain (cfg_tunnel_domain cfg))
    \<or> (\<exists>i. tunnelIDFromHost d (cfg_tunnel_domain cfg) = Some i
         \<and> (GetHTTPTunnel reg i \<noteq> None \<or> (flts 20 = NoFault \<and> subdomain_held s i \<noteq> None)))"
proof -
  have held: "(\<exists>t. ReservedSubdomainTokenID (flts 20) s i = Inr (Some t)) \<longleftrightarrow>
      flts 20 = NoFault \<and> subdomain_held s i \<noteq> None" for i
    by (cases s; cases "flts 20"; cases "normalizeSubdomain i")
      (auto simp: ReservedSubdomainTokenID_def with_store_q_def query_sql_def subdomain_held_def
        subdomain_key_def subdomain_owner_def)
  have st: "rs_status (status_only 200) = 200" "rs_status (http_Error no_header ''forbidden'' 403) = 403"
    by (simp_all add: status_only_def http_Error_def)
  have ask: "rs_status (case ReservedSubdomainTokenID (flts 20) s i of
        Inr (Some _) \<Rightarrow> status_only 200 | _ \<Rightarrow> http_Error no_header ''forbidden'' 403) = 200 \<longleftrightarrow>
      flts 20 = NoFault \<and> subdomain_held s i \<noteq> None" for i
    unfolding held [symmetric] by (auto simp: st split: sum.splits option.splits)
  show ?thesis
    using assms ask by (auto simp: caddyAsk_def Let_def st auth_reservations_def split: option.splits)
qed

lemma clean_segments_no_slash:
  "(\<And>s. s \<in> set out \<Longrightarrow> CHR ''/'' \<notin> set s) \<Longrightarrow> (\<And>s. s \<in> set ss \<Longrightarrow> CHR ''/'' \<notin> set s) \<Longrightarrow>
     s \<in> set (clean_segments out ss) \<Longrightarrow> CHR ''/'' \<notin> set s"
proof (induction out ss rule: clean_segments.induct)
  case (1 out)
  then show ?case by simp
next
  case (2 out s' ss)
  have "t \<in> set (butlast out) \<Longrightarrow> CHR ''/'' \<notin> set t" for t
    using 2(4) in_set_butlastD by fastforce
  with 2 show ?case by (auto split: if_splits)
qed

text \<open>a documentation request cannot leave the documentation. Whatever the rest of the path, every
  file name that is tried consists of proper segments: none is empty, a dot or two dots.\<close>

theorem docs_stay_inside:
  "list_all (\<lambda>c. list_all (\<lambda>s. s \<noteq> [] \<and> s \<noteq> ''.'' \<and> s \<noteq> ''..'') (Split_char CHR ''/'' c)) (docsPathCandidates rel)"
proof -
  define segs where "segs = clean_segments [] (Split_char CHR ''/'' (''/'' @ rel))"
  define n where "n = Join_char CHR ''/'' segs"
  have seg: "s \<noteq> [] \<and> s \<noteq> ''.'' \<and> s \<noteq> ''..'' \<and> CHR ''/'' \<notin> set s" if s: "s \<in> set segs" for s
  proof -
    have "s \<noteq> [] \<and> s \<noteq> ''.'' \<and> s \<noteq> ''..''"
      using clean_segments_clean [OF _ s [unfolded segs_def]] by simp
    moreover have "CHR ''/'' \<notin> set s"
      by (rule clean_segments_no_slash [OF _ _ s [unfolded segs_def]]) (simp, rule Split_char_no_sep)
    ultimately show ?thesis by simp
  qed
  have norm: "TrimPrefix (clean_rooted (''/'' @ rel)) ''/'' = n"
    using TrimPrefix_append [of "''/''" n] by (simp add: clean_rooted_def n_def segs_def)
  have cand: "docsPathCandidates rel = (if n = ''.'' \<or> n = [] then []
      else n # (if path_Ext n = [] then [n @ ''.html''] else []))"
    unfolding docsPathCandidates_def norm Let_def by (rule refl)
  show ?thesis
  proof (cases "n = [] \<or> n = ''.''")
    case True
    then show ?thesis by (auto simp: cand)
  next
    case False
    then have ne: "segs \<noteq> []" by (auto simp: n_def)
    have split: "Split_char CHR ''/'' n = segs"
      unfolding n_def using seg ne by (intro Split_Join_char) auto
    have ext: "CHR ''/'' \<notin> set ''.html''" by simp
    have split2: "Split_char CHR ''/'' (n @ ''.html'') = butlast segs @ [List.last segs @ ''.html'']"
      using Split_char_append_end [OF ext, of n] split by simp
    have "list_all (\<lambda>s. s \<noteq> [] \<and> s \<noteq> ''.'' \<and> s \<noteq> ''..'') segs"
      using seg by (simp add: list_all_iff)
    moreover have "list_all (\<lambda>s. s \<noteq> [] \<and> s \<noteq> ''.'' \<and> s \<noteq> ''..'') (butlast segs @ [List.last segs @ ''.html''])"
      using seg in_set_butlastD [of _ segs] by (auto simp: list_all_iff append_eq_Cons_conv)
    ultimately show ?thesis
      using False by (simp add: cand split split2)
  qed
qed

subsection \<open>Witnesses\<close>

definition demo_http_env :: "store http_env" where
  "demo_http_env = \<lparr>he_now = 0, he_rounding = (\<lambda>x. x), he_upstream = (\<lambda>c q. Inr (status_only 200)),
     he_is_file = (\<lambda>p. False), he_file_server = (\<lambda>r. http_NotFound), he_admin = demo_admin_env\<rparr>"

definition admin_cfg :: config where
  "admin_cfg = demo_cfg\<lparr>cfg_admin_token := ''s3cret''\<rparr>"

theorem only_admin_changes_state_witness:
  "\<exists>sv'. snd (NewHandler admin_cfg demo_deps (Some demo_admin) demo_http_env
      ((demo_admin_request ''POST'' ''tokens'')\<lparr>rq_header := [''Authorization'' \<mapsto> [''bearer s3cret'']]\<rparr>)
      (Some (JObj [], True)) (demo_server demo_db)) = sv' \<and> sv' \<noteq> demo_server demo_db
    \<and> TrimSpace (cfg_admin_token admin_cfg) \<noteq> []"
proof -
  let ?r = "(demo_admin_request ''POST'' ''tokens'')\<lparr>rq_header := [''Authorization'' \<mapsto> [''bearer s3cret'']]\<rparr>"
  let ?sv = "demo_server demo_db"
  have path: "rq_escaped_path ?r = ''/api/admin/tokens''" "rq_path ?r = ''/api/admin/tokens''"
    "rq_method ?r = ''POST''" "rq_host ?r = ''example.com''"
    by (simp_all add: demo_admin_request_def demo_request_def)
  have parts: "mux_parts ''/api/admin/tokens'' = [''api'', ''admin'', ''tokens'']"
    "cleanPath ''/api/admin/tokens'' = ''/api/admin/tokens''" "TrimSpace ''s3cret'' = ''s3cret''"
    "TrimSpace ''bearer s3cret'' = ''bearer s3cret''" "TrimSpace ''tokens'' = ''tokens''"
    "ToLower ''bearer s3cret'' = ''bearer s3cret''"
    "isBaseDomainHost ''example.com'' ''example.com''" by (simp_all add: eval_simps)
  have en: "admin_enabled admin_cfg (Some demo_admin)"
    using parts by (simp add: admin_enabled_def admin_cfg_def)
  have m: "mux_match (server_routes admin_cfg (Some demo_admin)) ''/api/admin/tokens''
      = Some (Subtree [''api'', ''admin''], AdminApi)"
    using parts en by (simp add: mux_match_def server_routes_def prefix_def)
  have parts2: "mux_parts ''/api/admin/tokens/'' = [''api'', ''admin'', ''tokens'', []]" by (simp add: eval_simps)
  have m2: "mux_match (server_routes admin_cfg (Some demo_admin)) (''/api/admin/tokens'' @ ''/'')
      = Some (Subtree [''api'', ''admin''], AdminApi)"
    using parts2 en by (simp add: mux_match_def server_routes_def prefix_def)
  have "\<not> slash_redirect (server_routes admin_cfg (Some demo_admin)) ''/api/admin/tokens''"
    using m m2 by (simp add: slash_redirect_def)
  then have route: "mux_handler (server_routes admin_cfg (Some demo_admin)) ?r = MuxHandler AdminApi"
    using m parts path by (simp add: mux_handler_def Let_def)
  have base: "on_base admin_cfg ?r" using parts path by (simp add: on_base_def admin_cfg_def demo_cfg_def)
  have auth: "requireAdminAuth (cfg_admin_token admin_cfg) ?r k s = k ()" for k :: "unit \<Rightarrow> http_response option \<times> store" and s
    using parts by (simp add: requireAdminAuth_def admin_cfg_def hdr_Get_def hdr_values_def HasPrefix_def)
  have rt: "admin_request ''POST'' ''tokens'' ?r"
    using parts path TrimPrefix_append [of "''/api/admin/''" "''tokens''"] by (simp add: admin_request_def)
  have dec: "decodeAdminJSON [(''label'', into_string (\<lambda>s _. s))] [] (Some (JObj [], True)) = Inr []"
    by (simp add: decodeAdminJSON_def decode_struct_def into_struct_def)
  obtain resp s1 where cr: "CreateToken (\<lambda>s. s) NoFault 7 (Inr ''xyzzy'') (Some demo_db) [] = (Inr resp, s1)"
  proof -
    have "\<exists>x. fst (CreateToken (\<lambda>s. s) NoFault 7 (Inr ''xyzzy'') (Some demo_db) []) = Inr x"
      by (simp add: eval_simps demo_db_def)
    then show ?thesis using that by (metis prod.collapse)
  qed
  obtain rec plain where rp: "resp = (rec, plain)" by fastforce
  obtain db1 where s1: "s1 = Some db1" "hash_active (hashToken (\<lambda>s. s) plain) (tok_id rec) db1"
    "db_token_seq demo_db < tok_id rec"
    using created_token_active [OF demo_auth_inv cr [unfolded rp]] by blast
  have ne: "s1 \<noteq> Some demo_db"
    using s1 demo_auth_inv by (fastforce simp: hash_active_def auth_inv_def tokens_inv_def)
  have db: "sv_db ?sv = Some demo_db" by (simp add: demo_server_def)
  have api: "snd (serveAdminAPI demo_admin_env admin_cfg (Some demo_admin) ?r (Some (JObj [], True)) (Some demo_db)) = s1"
    unfolding route_create [OF rt] using dec cr rp
    by (simp add: serveAdminCreateToken_def demo_admin_def auth_admin_def)
  obtain ans sv' where run: "NewHandler admin_cfg demo_deps (Some demo_admin) demo_http_env ?r (Some (JObj [], True)) ?sv = (ans, sv')"
    by fastforce
  have env: "he_admin demo_http_env = demo_admin_env" by (simp add: demo_http_env_def)
  obtain o1 where api': "serveAdminAPI demo_admin_env admin_cfg (Some demo_admin) ?r (Some (JObj [], True)) (Some demo_db) = (o1, s1)"
    using api by (metis prod.collapse)
  have "admin_api admin_cfg (Some demo_admin) demo_admin_env ?r (Some (JObj [], True)) (Some demo_db) = (o1, s1)"
    unfolding admin_api_def auth using base api' by simp
  then have "sv_db sv' = s1"
    using run route env db by (auto simp: NewHandler_def split: option.splits)
  then have "sv' \<noteq> ?sv" using ne db by auto
  with only_admin_changes_state [OF run this] run show ?thesis by auto
qed

theorem tunnel_requests_reach_proxy_witness:
  "NewHandler demo_cfg demo_deps None demo_http_env (demo_request ''GET'' ''app.tunnel.example.com'' ''/docs'') None
      (demo_server demo_db)
   = (Answer (httpTunnelProxyHandler demo_cfg (sv_registry (demo_server demo_db)) (he_upstream demo_http_env)
        (demo_request ''GET'' ''app.tunnel.example.com'' ''/docs'')), demo_server demo_db)"
proof (rule tunnel_requests_reach_proxy)
  show "\<not> on_base demo_cfg (demo_request ''GET'' ''app.tunnel.example.com'' ''/docs'')"
    by (simp add: on_base_def demo_cfg_def demo_request_def) (simp add: eval_simps)
  show "cleanPath (rq_escaped_path (demo_request ''GET'' ''app.tunnel.example.com'' ''/docs''))
      = rq_escaped_path (demo_request ''GET'' ''app.tunnel.example.com'' ''/docs'')"
    by (simp add: demo_request_def) (simp add: eval_simps)
  show "rq_escaped_path (demo_request ''GET'' ''app.tunnel.example.com'' ''/docs'') = CHR ''/'' # ''docs''"
    by (simp add: demo_request_def)
  show "hd (mux_parts (rq_escaped_path (demo_request ''GET'' ''app.tunnel.example.com'' ''/docs''))) \<notin> set reserved_segments"
    by (simp add: demo_request_def) (simp add: eval_simps reserved_segments_def)
qed

theorem own_paths_shadow_tunnels_witness:
  "fst (NewHandler demo_cfg demo_deps None demo_http_env (demo_request ''GET'' ''app.tunnel.example.com'' ''/healthz'') None
      (demo_server demo_db)) = Answer healthz_response"
  using own_paths_shadow_tunnels [of "demo_request ''GET'' ''app.tunnel.example.com'' ''/healthz''" "''healthz''"
      demo_cfg demo_deps "None :: store admin_store option" demo_http_env None "demo_server demo_db"]
  by (simp add: demo_request_def)

theorem caddy_ask_exact_witness:
  "rs_status (caddyAsk demo_cfg demo_deps NewTunnelRegistry (Some demo_db)
     ((demo_request ''GET'' ''server'' ''/caddy/ask'')\<lparr>rq_raw_query := ''domain=Example.com.''\<rparr>)) = 200"
proof -
  let ?r = "(demo_request ''GET'' ''server'' ''/caddy/ask'')\<lparr>rq_raw_query := ''domain=Example.com.''\<rparr>"
  have "caddyAskDomain ?r = Inr ''example.com''"
    by (simp add: demo_request_def) (simp add: eval_simps)
  moreover have "normalizeDomain (cfg_base_domain demo_cfg) = ''example.com''" "cfg_base_domain demo_cfg \<noteq> []"
    by (simp_all add: demo_cfg_def eval_simps)
  ultimately show ?thesis
    using caddy_ask_exact [of ?r "''example.com''" demo_cfg demo_deps] demo_reservations by simp
qed

end
