(* ===== verification/ServerCommands.thy ===== *)
theory ServerCommands
  imports ServerHandler GoFlag
begin

text \<open>
  The server program, \<open>cmd/server/main.go\<close>: the commands that manage tokens and reservations in
  the database file, and the start of the server. A command opens the store, runs at most one of its
  operations and prints; the server opens the store and makes sure of the bootstrap token.
\<close>

subsection \<open>The outside and the outcome\<close>

text \<open>\<open>vw_open\<close>, \<open>vw_schema\<close> and \<open>vw_disk\<close> are what \<open>auth.Open\<close> meets, \<open>vw_fault\<close> what the
  statement of the command meets.\<close>

record server_world =
  vw_env :: "string \<Rightarrow> string"
  vw_open :: "unit result"
  vw_schema :: "fault list"
  vw_disk :: "string \<Rightarrow> db_file"
  vw_sha256 :: "string \<Rightarrow> string"
  vw_fault :: fault
  vw_now :: int
  vw_random :: "string result"

text \<open>A \<open>CmdFailure\<close> is what \<open>adminError\<close> logs.\<close>

datatype server_line =
    Line string
  | CmdUsage string
  | FlagProblem flag_error
  | CmdFailure string go_error
  | CmdBadValue string string

record server_outcome =
  vo_code :: int
  vo_lines :: "server_line list"
  vo_store :: "store option"

definition server_getenv :: "(string \<Rightarrow> string) \<Rightarrow> string \<Rightarrow> string \<Rightarrow> string" where
  "server_getenv env key fallback = (let v = TrimSpace (env key) in if v = [] then fallback else v)"

definition adminError :: "string \<Rightarrow> go_error \<Rightarrow> store option \<Rightarrow> server_outcome" where
  "adminError msg e s = \<lparr>vo_code = 1, vo_lines = [CmdFailure msg e], vo_store = s\<rparr>"

definition usage_error :: "server_line \<Rightarrow> server_outcome" where
  "usage_error l = \<lparr>vo_code = 2, vo_lines = [l], vo_store = None\<rparr>"

definition done_with :: "string list \<Rightarrow> store \<Rightarrow> server_outcome" where
  "done_with ls s = \<lparr>vo_code = 0, vo_lines = map (\<lambda>l. Line (l @ [CHR 0x0A])) ls, vo_store = Some s\<rparr>"

definition with_db :: "server_world \<Rightarrow> string \<Rightarrow> (store \<Rightarrow> server_outcome) \<Rightarrow> server_outcome" where
  "with_db w path run =
     (case Open (vw_open w) (vw_schema w) (vw_disk w) path of
        Inl e \<Rightarrow> adminError ''open db'' e None
      | Inr s \<Rightarrow> run s)"

text \<open>The end of a command that runs one operation and prints one line.\<close>

definition report :: "string \<Rightarrow> string \<Rightarrow> unit result \<times> store \<Rightarrow> server_outcome" where
  "report msg line r =
     (case r of
        (Inl e, s) \<Rightarrow> adminError msg e (Some s)
      | (Inr _, s) \<Rightarrow> done_with [line] s)"

subsection \<open>Flags\<close>

record db_flags =
  df_db :: string
  df_label :: string
  df_token_id :: int

definition db_flag :: "string \<times> db_flags cli_flag" where
  "db_flag = (''db'', string_flag (\<lambda>v f. f\<lparr>df_db := v\<rparr>))"

definition label_flag :: "string \<times> db_flags cli_flag" where
  "label_flag = (''label'', string_flag (\<lambda>v f. f\<lparr>df_label := v\<rparr>))"

definition token_id_flag :: "string \<times> db_flags cli_flag" where
  "token_id_flag = (''token-id'', int_flag (\<lambda>v f. f\<lparr>df_token_id := v\<rparr>))"

definition parse_db :: "server_world \<Rightarrow> db_flags flag_set \<Rightarrow> string list \<Rightarrow> (db_flags \<Rightarrow> string list \<Rightarrow> server_outcome) \<Rightarrow> server_outcome" where
  "parse_db w fs args run =
     (case flag_Parse fs args
        \<lparr>df_db = server_getenv (vw_env w) ''EOSRIFT_DB_PATH'' ''/data/eosrift.db'', df_label = [], df_token_id = 0\<rparr> of
        Inl e \<Rightarrow> usage_error (FlagProblem e)
      | Inr (f, rest) \<Rightarrow> run f rest)"

subsection \<open>token\<close>

definition runTokenCreateCmd :: "server_world \<Rightarrow> string list \<Rightarrow> server_outcome" where
  "runTokenCreateCmd w args =
     parse_db w [db_flag, label_flag] args (\<lambda>f rest.
       with_db w (df_db f) (\<lambda>s.
         (case CreateToken (vw_sha256 w) (vw_fault w) (vw_now w) (vw_random w) s (df_label f) of
            (Inl e, s') \<Rightarrow> adminError ''create token'' e (Some s')
          | (Inr (rec, token), s') \<Rightarrow>
              done_with ([''id: '' @ Itoa (tok_id rec)]
                @ (if tok_label rec \<noteq> [] then [''label: '' @ tok_label rec] else [])
                @ [''token: '' @ token]) s')))"

definition token_line :: "token \<Rightarrow> string" where
  "token_line t =
     Itoa (tok_id t) @ [CHR 0x09] @ tok_prefix t @ [CHR 0x09]
     @ (if tok_label t = [] then ''-'' else tok_label t) @ [CHR 0x09]
     @ (if tok_revoked t \<noteq> None then ''revoked'' else ''active'')"

definition runTokenListCmd :: "server_world \<Rightarrow> string list \<Rightarrow> server_outcome" where
  "runTokenListCmd w args =
     parse_db w [db_flag] args (\<lambda>f rest.
       with_db w (df_db f) (\<lambda>s.
         (case ListTokens (vw_fault w) s of
            Inl e \<Rightarrow> adminError ''list tokens'' e (Some s)
          | Inr tokens \<Rightarrow> done_with (if tokens = [] then [''no tokens''] else map token_line tokens) s)))"

definition runTokenRevokeCmd :: "server_world \<Rightarrow> string list \<Rightarrow> server_outcome" where
  "runTokenRevokeCmd w args =
     parse_db w [db_flag] args (\<lambda>f rest.
       (case rest of
          [arg] \<Rightarrow>
            (case ParseInt arg of
               None \<Rightarrow> \<lparr>vo_code = 1, vo_lines = [CmdBadValue ''invalid id'' arg], vo_store = None\<rparr>
             | Some tid \<Rightarrow>
                 if tid \<le> 0 then \<lparr>vo_code = 1, vo_lines = [CmdBadValue ''invalid id'' arg], vo_store = None\<rparr>
                 else with_db w (df_db f) (\<lambda>s.
                   report ''revoke token'' (''revoked '' @ Itoa tid) (RevokeToken (vw_fault w) (vw_now w) s tid)))
        | _ \<Rightarrow> usage_error (CmdUsage ''token revoke'')))"

definition runTokenCmd :: "server_world \<Rightarrow> string list \<Rightarrow> server_outcome" where
  "runTokenCmd w args =
     (case args of
        [] \<Rightarrow> usage_error (CmdUsage ''token'')
      | cmd # rest \<Rightarrow>
          if cmd = ''create'' then runTokenCreateCmd w rest
          else if cmd = ''list'' then runTokenListCmd w rest
          else if cmd = ''revoke'' then runTokenRevokeCmd w rest
          else usage_error (CmdUsage ''token''))"

subsection \<open>reserve\<close>

definition runReserveAddCmd :: "server_world \<Rightarrow> string list \<Rightarrow> server_outcome" where
  "runReserveAddCmd w args =
     parse_db w [db_flag, token_id_flag] args (\<lambda>f rest.
       if df_token_id f \<le> 0 \<or> length rest \<noteq> 1 then usage_error (CmdUsage ''reserve add'')
       else with_db w (df_db f) (\<lambda>s.
         report ''reserve subdomain'' (''reserved '' @ hd rest)
           (ReserveSubdomain (vw_fault w) (vw_now w) s (df_token_id f) (hd rest))))"

definition runReserveListCmd :: "server_world \<Rightarrow> string list \<Rightarrow> server_outcome" where
  "runReserveListCmd w args =
     parse_db w [db_flag] args (\<lambda>f rest.
       with_db w (df_db f) (\<lambda>s.
         (case ListReservedSubdomains (vw_fault w) s of
            Inl e \<Rightarrow> adminError ''list reserved subdomains'' e (Some s)
          | Inr rows \<Rightarrow>
              done_with (if rows = [] then [''no reserved subdomains'']
                else map (\<lambda>(sub, tid, pre, created). sub @ [CHR 0x09] @ Itoa tid @ [CHR 0x09] @ pre) rows) s)))"

definition runReserveRemoveCmd :: "server_world \<Rightarrow> string list \<Rightarrow> server_outcome" where
  "runReserveRemoveCmd w args =
     parse_db w [db_flag] args (\<lambda>f rest.
       if length rest \<noteq> 1 then usage_error (CmdUsage ''reserve remove'')
       else with_db w (df_db f) (\<lambda>s.
         report ''unreserve subdomain'' (''unreserved '' @ hd rest) (UnreserveSubdomain (vw_fault w) s (hd rest))))"

definition runReserveCmd :: "server_world \<Rightarrow> string list \<Rightarrow> server_outcome" where
  "runReserveCmd w args =
     (case args of
        [] \<Rightarrow> usage_error (CmdUsage ''reserve'')
      | cmd # rest \<Rightarrow>
          if cmd = ''add'' then runReserveAddCmd w rest
          else if cmd = ''list'' then runReserveListCmd w rest
          else if cmd \<in> {''remove'', ''rm'', ''delete''} then runReserveRemoveCmd w rest
          else usage_error (CmdUsage ''reserve''))"

subsection \<open>tcp-reserve\<close>

text \<open>The port argument of the two commands that take one.\<close>

definition with_port :: "string \<Rightarrow> (int \<Rightarrow> server_outcome) \<Rightarrow> server_outcome" where
  "with_port arg run =
     (case Atoi arg of
        None \<Rightarrow> \<lparr>vo_code = 1, vo_lines = [CmdBadValue ''invalid port'' arg], vo_store = None\<rparr>
      | Some port \<Rightarrow>
          if port \<le> 0 then \<lparr>vo_code = 1, vo_lines = [CmdBadValue ''invalid port'' arg], vo_store = None\<rparr>
          else run port)"

definition runTCPReserveAddCmd :: "server_world \<Rightarrow> string list \<Rightarrow> server_outcome" where
  "runTCPReserveAddCmd w args =
     parse_db w [db_flag, token_id_flag] args (\<lambda>f rest.
       if df_token_id f \<le> 0 \<or> length rest \<noteq> 1 then usage_error (CmdUsage ''tcp-reserve add'')
       else with_port (hd rest) (\<lambda>port. with_db w (df_db f) (\<lambda>s.
         report ''reserve tcp port'' (''reserved '' @ Itoa port)
           (ReserveTCPPort (vw_fault w) (vw_now w) s (df_token_id f) port))))"

definition runTCPReserveListCmd :: "server_world \<Rightarrow> string list \<Rightarrow> server_outcome" where
  "runTCPReserveListCmd w args =
     parse_db w [db_flag] args (\<lambda>f rest.
       with_db w (df_db f) (\<lambda>s.
         (case ListReservedTCPPorts (vw_fault w) s of
            Inl e \<Rightarrow> adminError ''list reserved tcp ports'' e (Some s)
          | Inr rows \<Rightarrow>
              done_with (if rows = [] then [''no reserved tcp ports'']
                else map (\<lambda>(port, tid, pre, created). Itoa port @ [CHR 0x09] @ Itoa tid @ [CHR 0x09] @ pre) rows) s)))"

definition runTCPReserveRemoveCmd :: "server_world \<Rightarrow> string list \<Rightarrow> server_outcome" where
  "runTCPReserveRemoveCmd w args =
     parse_db w [db_flag] args (\<lambda>f rest.
       if length rest \<noteq> 1 then usage_error (CmdUsage ''tcp-reserve remove'')
       else with_port (hd rest) (\<lambda>port. with_db w (df_db f) (\<lambda>s.
         report ''unreserve tcp port'' (''unreserved '' @ Itoa port) (UnreserveTCPPort (vw_fault w) s port))))"

definition runTCPReserveCmd :: "server_world \<Rightarrow> string list \<Rightarrow> server_outcome" where
  "runTCPReserveCmd w args =
     (case args of
        [] \<Rightarrow> usage_error (CmdUsage ''tcp-reserve'')
      | cmd # rest \<Rightarrow>
          if cmd = ''add'' then runTCPReserveAddCmd w rest
          else if cmd = ''list'' then runTCPReserveListCmd w rest
          else if cmd \<in> {''remove'', ''rm'', ''delete''} then runTCPReserveRemoveCmd w rest
          else usage_error (CmdUsage ''tcp-reserve''))"

subsection \<open>The program\<close>

text \<open>The program ends with an outcome, or serves: the address, the configuration and the store the
  handler is made with.\<close>

datatype main_result = Exits server_outcome | Serves string config store

definition start_server :: "server_world \<Rightarrow> main_result" where
  "start_server w =
     (let addr = (if vw_env w ''EOSRIFT_LISTEN_ADDR'' = [] then '':8080'' else vw_env w ''EOSRIFT_LISTEN_ADDR'');
          cfg = ConfigFromEnv (vw_env w);
          cfg = (if cfg_db_path cfg = []
                 then cfg\<lparr>cfg_db_path := server_getenv (vw_env w) ''EOSRIFT_DB_PATH'' ''/data/eosrift.db''\<rparr> else cfg)
      in case Open (vw_open w) (vw_schema w) (vw_disk w) (cfg_db_path cfg) of
           Inl e \<Rightarrow> Exits (adminError ''open db'' e None)
         | Inr s \<Rightarrow>
             if cfg_auth_token cfg \<noteq> [] then
               (case EnsureToken (vw_sha256 w) (vw_fault w) (vw_now w) s (cfg_auth_token cfg) ''bootstrap'' of
                  (Inl e, s') \<Rightarrow> Exits (adminError ''bootstrap token'' e (Some s'))
                | (Inr _, s') \<Rightarrow> Serves addr cfg s')
             else Serves addr cfg s)"

definition server_main :: "server_world \<Rightarrow> string list \<Rightarrow> main_result" where
  "server_main w args =
     (case args of
        [] \<Rightarrow> start_server w
      | cmd # rest \<Rightarrow>
          if cmd \<in> {''token'', ''tokens''} then Exits (runTokenCmd w rest)
          else if cmd \<in> {''reserve'', ''reservations''} then Exits (runReserveCmd w rest)
          else if cmd \<in> {''tcp-reserve'', ''tcp-reservations''} then Exits (runTCPReserveCmd w rest)
          else start_server w)"

lemmas command_defs =
  runTokenCreateCmd_def runTokenListCmd_def runTokenRevokeCmd_def runTokenCmd_def runReserveAddCmd_def
  runReserveListCmd_def runReserveRemoveCmd_def runReserveCmd_def runTCPReserveAddCmd_def
  runTCPReserveListCmd_def runTCPReserveRemoveCmd_def runTCPReserveCmd_def with_port_def

lemmas [eval_simps] =
  server_getenv_def adminError_def usage_error_def done_with_def with_db_def report_def db_flag_def
  label_flag_def token_id_flag_def parse_db_def token_line_def start_server_def server_main_def command_defs

subsection \<open>Commands and the store\<close>







lemma outcome_store [simp]:
  "vo_store (adminError msg e s) = s" "vo_store (usage_error l) = None" "vo_store (done_with ls s1) = Some s1"
  "vo_store (report msg line r) = Some (snd r)"
  by (auto simp: adminError_def usage_error_def done_with_def report_def split: prod.split sum.split)

lemma outcome_code [simp]:
  "vo_code (adminError msg e s) = 1" "vo_code (usage_error l) = 2" "vo_code (done_with ls s1) = 0"
  "vo_code (report msg line r) = 0 \<longleftrightarrow> fst r = Inr ()"
  by (auto simp: adminError_def usage_error_def done_with_def report_def split: prod.split sum.split)





lemma one_argument: "length rest = 1 \<longleftrightarrow> (\<exists>a. rest = [a])"
  by (cases rest) auto








subsection \<open>What the commands promise\<close>

text \<open>The stores the program may open are well formed.\<close>

definition opens_well_formed :: "server_world \<Rightarrow> bool" where
  "opens_well_formed w \<longleftrightarrow>
     (\<forall>path s. Open (vw_open w) (vw_schema w) (vw_disk w) path = Inr s \<longrightarrow> (\<exists>db. s = Some db \<and> auth_inv db))"

text \<open>\<open>token create\<close> prints a working token. When it exits with 0, its first line is the id and
  its last line the token that the store it leaves resolves to that id and validates.\<close>

theorem token_create_prints_credential:
  assumes "vo_code (runTokenCreateCmd w args) = 0" and "vw_random w = Inr b" and "opens_well_formed w"
  shows "\<exists>(rec :: token) plain s' ls. vo_store (runTokenCreateCmd w args) = Some s'
    \<and> vo_lines (runTokenCreateCmd w args)
        = Line (''id: '' @ Itoa (tok_id rec) @ [CHR 0x0A]) # ls @ [Line (''token: '' @ plain @ [CHR 0x0A])]
    \<and> TokenID (vw_sha256 w) NoFault s' plain = Inr (Some (tok_id rec))
    \<and> ValidateToken (vw_sha256 w) NoFault s' plain = Inr True"
proof -
  obtain f :: db_flags where f: "runTokenCreateCmd w args = with_db w (df_db f) (\<lambda>s.
      (case CreateToken (vw_sha256 w) (vw_fault w) (vw_now w) (Inr b) s (df_label f) of
         (Inl e, s') \<Rightarrow> adminError ''create token'' e (Some s')
       | (Inr (rec, token), s') \<Rightarrow>
           done_with ([''id: '' @ Itoa (tok_id rec)] @ (if tok_label rec \<noteq> [] then [''label: '' @ tok_label rec] else [])
             @ [''token: '' @ token]) s'))"
    using assms(1,2) by (auto simp: runTokenCreateCmd_def parse_db_def split: sum.splits prod.splits)
  obtain s where s: "Open (vw_open w) (vw_schema w) (vw_disk w) (df_db f) = Inr s"
    using assms(1) unfolding f by (auto simp: with_db_def split: sum.splits)
  then obtain db where db: "s = Some db" "auth_inv db" using assms(3) by (auto simp: opens_well_formed_def)
  obtain rec :: token and plain s' where new: "CreateToken (vw_sha256 w) (vw_fault w) (vw_now w) (Inr b) (Some db) (df_label f) = (Inr (rec, plain), s')"
    using assms(1) unfolding f with_db_def s sum.case db(1) by (auto split: sum.splits prod.splits)
  obtain db' where db': "plain = ''eos_'' @ ToLower (base32_EncodeToString b)" "s' = Some db'" "auth_inv db'"
    "hash_active (hashToken (vw_sha256 w) plain) (tok_id rec) db'"
    using created_token_active [OF db(2) new] by auto
  have trim: "TrimSpace plain = plain" unfolding db'(1) by (rule TrimSpace_generated)
  have "TokenID (vw_sha256 w) NoFault s' plain = Inr (Some (tok_id rec))"
    using TokenID_active [OF db'(3), of "vw_sha256 w" plain] db'(1,2,4) trim by simp
  moreover from this have "ValidateToken (vw_sha256 w) NoFault s' plain = Inr True"
    unfolding db'(2) by (simp add: ValidateToken_TokenID)
  moreover have "vo_store (runTokenCreateCmd w args) = Some s'
      \<and> vo_lines (runTokenCreateCmd w args) = Line (''id: '' @ Itoa (tok_id rec) @ [CHR 0x0A])
        # (if tok_label rec \<noteq> [] then [Line (''label: '' @ tok_label rec @ [CHR 0x0A])] else [])
        @ [Line (''token: '' @ plain @ [CHR 0x0A])]"
    unfolding f with_db_def s sum.case db(1) new by (simp add: done_with_def)
  ultimately show ?thesis by blast
qed

lemma EnsureToken_valid:
  assumes "EnsureToken sha NoFault now (Some db) t label = (Inr (), s')"
  shows "ValidateToken sha NoFault s' t = Inr True
    \<or> (\<exists>r \<in> set (db_tokens db). tr_hash r = hashToken sha (TrimSpace t) \<and> tr_revoked r \<noteq> None)"
proof -
  let ?h = "hashToken sha (TrimSpace t)"
  have t: "TrimSpace t \<noteq> []" using assms by (auto simp: EnsureToken_def with_store_def)
  show ?thesis
  proof (cases "list_ex (\<lambda>r. tr_hash r = ?h) (db_tokens db)")
    case True
    then have "s' = Some db"
      using assms t by (auto simp: EnsureToken_def with_store_def insertToken_def exec_sql_def sql_insert_token_def
          split: if_splits)
    moreover obtain r where "r \<in> set (db_tokens db)" "tr_hash r = ?h" using True by (auto simp: list_ex_iff)
    ultimately show ?thesis
      using t by (cases "tr_revoked r")
        (auto simp: ValidateToken_def with_store_q_def query_sql_def active_row_def find_None_iff)
  next
    case False
    have full: "\<not> isUniqueViolation (Some table_full_error)" by (simp add: eval_simps)
    let ?row = "\<lparr>tr_id = db_token_seq db + 1, tr_label = TrimSpace label, tr_hash = ?h, tr_prefix = tokenPrefix (TrimSpace t),
      tr_created = now, tr_revoked = None\<rparr>"
    have "s' = Some (db\<lparr>db_tokens := db_tokens db @ [?row], db_token_seq := db_token_seq db + 1\<rparr>)"
      using assms t False full by (auto simp: EnsureToken_def with_store_def insertToken_def exec_sql_def sql_insert_token_def
          Let_def split: if_splits)
    then show ?thesis
      using t by (auto simp: ValidateToken_def with_store_q_def query_sql_def active_row_def find_None_iff
          intro!: exI [of _ ?row])
  qed
qed

text \<open>The server starts with a working bootstrap token. When it serves and a bootstrap token is
  configured, the token is valid in the store of the handler, unless a revoked token with its hash was there before.\<close>

theorem bootstrap_token_works:
  assumes "server_main w [] = Serves addr cfg s'" and "cfg_auth_token cfg \<noteq> []" and "vw_fault w = NoFault"
    and "opens_well_formed w"
  shows "ValidateToken (vw_sha256 w) NoFault s' (cfg_auth_token cfg) = Inr True
    \<or> (\<exists>path db r. Open (vw_open w) (vw_schema w) (vw_disk w) path = Inr (Some db) \<and> r \<in> set (db_tokens db)
         \<and> tr_hash r = hashToken (vw_sha256 w) (TrimSpace (cfg_auth_token cfg)) \<and> tr_revoked r \<noteq> None)"
proof -
  obtain s where s: "Open (vw_open w) (vw_schema w) (vw_disk w) (cfg_db_path cfg) = Inr s"
    "EnsureToken (vw_sha256 w) NoFault (vw_now w) s (cfg_auth_token cfg) ''bootstrap'' = (Inr (), s')"
    using assms(1-3) by (auto simp: server_main_def start_server_def Let_def split: sum.splits prod.splits if_splits)
  then obtain db where "s = Some db" using assms(4) by (auto simp: opens_well_formed_def)
  with s EnsureToken_valid [of "vw_sha256 w" "vw_now w" db "cfg_auth_token cfg" "''bootstrap''" s'] show ?thesis by blast
qed

subsection \<open>Examples\<close>

definition demo_server_world :: server_world where
  "demo_server_world = \<lparr>vw_env = (\<lambda>k. if k = ''EOSRIFT_AUTH_TOKEN'' then ''ab'' else []), vw_open = Inr (), vw_schema = [],
     vw_disk = (\<lambda>_. \<lparr>file_tokens = None, file_subdomains = None, file_ports = None\<rparr>), vw_sha256 = (\<lambda>s. s),
     vw_fault = NoFault, vw_now = 7, vw_random = Inr ''xyzzy''\<rparr>"

lemma Open_new: "Open (Inr ()) [] (\<lambda>_. \<lparr>file_tokens = None, file_subdomains = None, file_ports = None\<rparr>) path = Inr s
    \<Longrightarrow> s = Some empty_db"
  by (auto simp: Open_def ensureSchema_def schema_statements_def create_if_absent_def empty_db_def result_simps)

lemma Open_default: "Open (Inr ()) [] (\<lambda>_. \<lparr>file_tokens = None, file_subdomains = None, file_ports = None\<rparr>) ''/data/eosrift.db''
    = Inr (Some empty_db)"
proof -
  have "ok_res (open_dsn ''/data/eosrift.db'')" by (simp add: open_dsn_def eval_simps)
  then show ?thesis
    by (auto simp: Open_def ensureSchema_def schema_statements_def create_if_absent_def empty_db_def ok_res_iff)
qed

lemma empty_db_inv: "auth_inv empty_db"
  by (simp add: auth_inv_def empty_db_def tokens_inv_def table_inv_def int64_range_def)

lemma demo_opens: "opens_well_formed demo_server_world"
  using empty_db_inv by (auto simp: opens_well_formed_def demo_server_world_def dest!: Open_new)

lemma demo_bootstrap: "\<exists>addr cfg s'. server_main demo_server_world [] = Serves addr cfg s' \<and> cfg_auth_token cfg = ''ab''"
proof -
  have "TrimSpace ''ab'' = ''ab''" "TrimSpace [] = []" by (simp_all add: eval_simps)
  then show ?thesis
    using Open_default
    by (simp add: server_main_def start_server_def demo_server_world_def ConfigFromEnv_def server_getenv_def
        EnsureToken_def with_store_def insertToken_def exec_sql_def sql_insert_token_def empty_db_def Let_def)
qed


theorem token_create_prints_credential_witness:
  "\<exists>s'. vo_store (runTokenCreateCmd demo_server_world []) = Some s'
     \<and> (\<exists>plain. ValidateToken (\<lambda>s. s) NoFault s' plain = Inr True)"
proof -
  have "TrimSpace [] = []" "TrimSpace ''ab'' = ''ab''" by (simp_all add: eval_simps)
  then have "vo_code (runTokenCreateCmd demo_server_world []) = 0"
    using Open_default
    by (simp add: runTokenCreateCmd_def parse_db_def demo_server_world_def server_getenv_def with_db_def CreateToken_def
        with_store_def generateToken_def insertToken_def exec_sql_def sql_insert_token_def empty_db_def Let_def)
  from token_create_prints_credential [OF this _ demo_opens, of "''xyzzy''"] show ?thesis
    by (auto simp: demo_server_world_def)
qed

theorem bootstrap_token_works_witness:
  "\<exists>addr cfg s'. server_main demo_server_world [] = Serves addr cfg s' \<and> ValidateToken (\<lambda>s. s) NoFault s' ''ab'' = Inr True"
proof -
  obtain addr cfg s' where run: "server_main demo_server_world [] = Serves addr cfg s'" "cfg_auth_token cfg = ''ab''"
    using demo_bootstrap by blast
  have nf: "vw_fault demo_server_world = NoFault" by (simp add: demo_server_world_def)
  have "ValidateToken (\<lambda>s. s) NoFault s' ''ab'' = Inr True"
    using bootstrap_token_works [OF run(1) _ nf demo_opens] run(2)
    by (auto simp: demo_server_world_def empty_db_def dest: Open_new)
  with run(1) show ?thesis by blast
qed

end
