(* ===== verification/Streams.thy ===== *)
theory Streams
  imports ClientTunnel Inspect
begin

text \<open>
  What happens on one stream of a tunnel: \<open>handleStream\<close> of \<open>internal/client/http.go\<close> and
  \<open>tcp.go\<close> with the copying of \<open>http_capture.go\<close> and \<open>http_hostheader.go\<close>, the summary
  of an exchange (\<open>http_inspect.go\<close>), and the accept loop of a TCP tunnel
  (\<open>internal/server/control.go\<close>). \<open>http.ReadRequest\<close> and \<open>http.ReadResponse\<close> are arguments.
\<close>

subsection \<open>Two connections\<close>

text \<open>Bytes are copied from \<open>b\<close> to \<open>a\<close> and from \<open>a\<close> to \<open>b\<close>: what the reads of both give, which writes
  fail, which of the two copies is seen to end first, and the place of the context's end among
  these events, if it ends.\<close>

record duplex =
  dx_a_reads :: reads
  dx_a_faults :: write_faults
  dx_b_reads :: reads
  dx_b_faults :: write_faults
  dx_to_a_first :: bool
  dx_ctx :: "(nat \<times> go_error) option"

definition seen_events :: "duplex \<Rightarrow> copy_event list \<Rightarrow> copy_event list \<Rightarrow> copy_event list" where
  "seen_events d to_a to_b =
     (let evs = (if dx_to_a_first d then to_a @ to_b else to_b @ to_a)
      in case dx_ctx d of None \<Rightarrow> evs | Some (k, e) \<Rightarrow> take k evs @ ContextDone e # drop k evs)"

fun copy_ended :: "(int \<Rightarrow> go_error option \<Rightarrow> copy_event) \<Rightarrow> ((int \<times> go_error option) \<times> sink) option \<Rightarrow> copy_event list" where
  "copy_ended ev None = []"
| "copy_ended ev (Some ((n, err), t)) = [ev n err]"

text \<open>\<open>proxyBidirectional\<close> over two connections: its result, \<open>None\<close> while neither copy has ended.\<close>

definition relay :: "duplex \<Rightarrow> go_error option option" where
  "relay d =
     proxyBidirectional
       (seen_events d (copy_ended RequestDone (io_copy (dx_a_faults d) (dx_b_reads d) new_sink))
          (copy_ended ResponseDone (io_copy (dx_b_faults d) (dx_a_reads d) new_sink)))"

text \<open>What a destination has taken after some reads, whether or not the copy has ended; and so
  what both connections have been given.\<close>

fun moved :: "write_faults \<Rightarrow> reads \<Rightarrow> sink \<Rightarrow> sink" where
  "moved w [] s = s"
| "moved w ((p, e) # rs) s =
     (let s' = (if p = [] then s else snd (conn_write w p s)) in
      if p \<noteq> [] \<and> w (sk_calls s) \<noteq> None then s'
      else case e of ReadMore \<Rightarrow> moved w rs s' | _ \<Rightarrow> s')"

definition given_a :: "duplex \<Rightarrow> string" where
  "given_a d = sk_bytes (moved (dx_a_faults d) (dx_b_reads d) new_sink)"

definition given_b :: "duplex \<Rightarrow> string" where
  "given_b d = sk_bytes (moved (dx_b_faults d) (dx_a_reads d) new_sink)"

subsection \<open>TCP streams\<close>

datatype endpoint = InboundEnd | StreamEnd | UpstreamEnd

text \<open>The client's side of a TCP stream, \<open>a\<close> the upstream and \<open>b\<close> the stream: the ends the handler has
  closed when it returns (\<open>None\<close> before), and the bytes both have been given.\<close>

definition tcp_handleStream :: "unit result \<Rightarrow> duplex \<Rightarrow> endpoint list option \<times> string \<times> string" where
  "tcp_handleStream dial d =
     (case dial of
        Inl _ \<Rightarrow> (Some [StreamEnd], [], [])
      | Inr _ \<Rightarrow> (map_option (\<lambda>_. [UpstreamEnd, StreamEnd]) (relay d), given_a d, given_b d))"

text \<open>The server's side: an inbound connection \<open>a\<close> and a new stream \<open>b\<close> of the session.\<close>

definition serve_inbound :: "unit result \<Rightarrow> duplex \<Rightarrow> endpoint list option \<times> string \<times> string" where
  "serve_inbound stream d =
     (case stream of
        Inl _ \<Rightarrow> (Some [InboundEnd], [], [])
      | Inr _ \<Rightarrow> (map_option (\<lambda>_. [StreamEnd, InboundEnd]) (relay d), given_a d, given_b d))"

text \<open>The accept loop of the listener. It ends when the listener is closed, which the watcher of the
  context and of the session does, or at any other failure; in the first case the websocket is
  closed in the normal way.\<close>

datatype 'c listener_event = Inbound 'c | ListenerClosed | AcceptError go_error

fun tcp_accept_loop :: "'c listener_event list \<Rightarrow> ('c list \<times> go_error option) option" where
  "tcp_accept_loop [] = None"
| "tcp_accept_loop (Inbound c # evs) = map_option (\<lambda>(cs, r). (c # cs, r)) (tcp_accept_loop evs)"
| "tcp_accept_loop (ListenerClosed # evs) = Some ([], None)"
| "tcp_accept_loop (AcceptError e # evs) = Some ([], Some e)"

subsection \<open>Copying with a capture\<close>

text \<open>\<open>io.Copy\<close> from \<open>io.TeeReader(src, cap)\<close>; without a capture it is \<open>io.Copy\<close>.\<close>

definition tee :: "string \<Rightarrow> previewCapture option \<Rightarrow> previewCapture option" where
  "tee p cap = (if p = [] then cap else map_option (capture_write p) cap)"

fun tee_copy :: "write_faults \<Rightarrow> reads \<Rightarrow> previewCapture option \<Rightarrow> sink
    \<Rightarrow> ((int \<times> go_error option) \<times> previewCapture option \<times> sink) option" where
  "tee_copy w [] cap s = None"
| "tee_copy w ((p, e) # rs) cap s =
     (let ((n, werr), s') = (if p = [] then ((0, None), s) else conn_write w p s) in
      case werr of
        Some x \<Rightarrow> Some ((n, Some x), tee p cap, s')
      | None \<Rightarrow>
          (case e of
             ReadEOF \<Rightarrow> Some ((n, None), tee p cap, s')
           | ReadFails x \<Rightarrow> Some ((n, Some x), tee p cap, s')
           | ReadMore \<Rightarrow> map_option (\<lambda>((m, err), t). ((n + m, err), t)) (tee_copy w rs (tee p cap) s')))"

record proxied =
  px_in :: int
  px_out :: int
  px_request :: "previewCapture option"
  px_response :: "previewCapture option"
  px_up :: string
  px_down :: string

text \<open>The end of both copies and the collecting loop; \<open>a\<close> is the upstream, \<open>b\<close> the stream.\<close>

definition collect_copies ::
  "duplex \<Rightarrow> ((int \<times> go_error option) \<times> previewCapture option \<times> sink) option
    \<Rightarrow> ((int \<times> go_error option) \<times> previewCapture option \<times> sink) option \<Rightarrow> proxied option" where
  "collect_copies d req resp =
     (case req of
        None \<Rightarrow> None
      | Some ((n, e), c, t) \<Rightarrow>
          (case resp of
             None \<Rightarrow> None
           | Some ((m, e'), c', t') \<Rightarrow>
               map_option (\<lambda>(i, j, _). \<lparr>px_in = i, px_out = j, px_request = c, px_response = c',
                   px_up = sk_bytes t, px_down = sk_bytes t'\<rparr>)
                 (proxy_collect (seen_events d [RequestDone n e] [ResponseDone m e']) copy_start)))"

definition proxyBidirectionalWithCapture :: "duplex \<Rightarrow> previewCapture \<Rightarrow> previewCapture \<Rightarrow> proxied option" where
  "proxyBidirectionalWithCapture d reqCap respCap =
     collect_copies d (tee_copy (dx_a_faults d) (dx_b_reads d) (Some reqCap) new_sink)
       (tee_copy (dx_b_faults d) (dx_a_reads d) (Some respCap) new_sink)"

definition proxyBidirectionalWithHostRewrite ::
  "duplex \<Rightarrow> previewCapture option \<Rightarrow> previewCapture option \<Rightarrow> string \<Rightarrow> proxied option" where
  "proxyBidirectionalWithHostRewrite d reqCap respCap hostHeader =
     collect_copies d (copyRequestWithHostRewrite (dx_a_faults d) (dx_b_reads d) reqCap hostHeader new_sink)
       (tee_copy (dx_b_faults d) (dx_a_reads d) respCap new_sink)"

subsection \<open>The summary of an exchange (http\_inspect.go)\<close>

record parsed_request =
  pq_method :: string
  pq_url :: url
  pq_host :: string
  pq_header :: header

record http_readers =
  rd_request :: "string \<Rightarrow> parsed_request option"
  rd_response :: "parsed_request \<Rightarrow> string \<Rightarrow> (int \<times> header) option"

record exchange_summary =
  xs_method :: string
  xs_path :: string
  xs_host :: string
  xs_status :: int
  xs_request_headers :: header
  xs_response_headers :: header

definition summarizeHTTPExchange :: "http_readers \<Rightarrow> string \<Rightarrow> string \<Rightarrow> exchange_summary option" where
  "summarizeHTTPExchange rd reqPreview respPreview =
     (case rd_request rd reqPreview of
        None \<Rightarrow> None
      | Some req \<Rightarrow>
          (case rd_response rd req respPreview of
             None \<Rightarrow> None
           | Some (status, hdrs) \<Rightarrow>
               Some \<lparr>xs_method = pq_method req, xs_path = url_RequestURI (pq_url req), xs_host = pq_host req,
                     xs_status = status, xs_request_headers = pq_header req, xs_response_headers = hdrs\<rparr>))"

subsection \<open>HTTP streams (http.go)\<close>

text \<open>A stream of an HTTP tunnel: the dial of the upstream, the two connections, the time it was
  accepted and how long it took. The outcome: the ends closed, the bytes given to both, and the
  entry handed to the inspector.\<close>

record http_stream =
  hs_dial :: "bool result"
  hs_conns :: duplex
  hs_started :: int
  hs_millis :: int

record stream_outcome =
  so_closed :: "endpoint list"
  so_up :: string
  so_down :: string
  so_entry :: "inspect_entry option"

definition exchange_entry :: "http_tunnel \<Rightarrow> http_stream \<Rightarrow> proxied \<Rightarrow> exchange_summary \<Rightarrow> inspect_entry" where
  "exchange_entry t x p s =
     \<lparr>en_id = [], en_started_at = Some (hs_started x), en_duration_ms = hs_millis x, en_tunnel_id = ht_id t,
      en_method = xs_method s, en_path = xs_path s, en_host = xs_host s, en_status_code = xs_status s,
      en_bytes_in = px_in p, en_bytes_out = px_out p,
      en_request_headers = xs_request_headers s, en_response_headers = xs_response_headers s\<rparr>"

definition captured :: "previewCapture option \<Rightarrow> string" where
  "captured cap = (case cap of None \<Rightarrow> [] | Some c \<Rightarrow> pc_buf c)"

definition http_handleStream :: "http_readers \<Rightarrow> bool \<Rightarrow> http_tunnel \<Rightarrow> http_stream \<Rightarrow> stream_outcome option" where
  "http_handleStream rd inspecting t x =
     (case hs_dial x of
        Inl _ \<Rightarrow> Some \<lparr>so_closed = [StreamEnd], so_up = [], so_down = [], so_entry = None\<rparr>
      | Inr _ \<Rightarrow>
          (let d = hs_conns x;
               hostHeader = effective_host (ho_host_header (ht_opts t)) (ht_local_addr t);
               closed = (\<lambda>up down en. \<lparr>so_closed = [UpstreamEnd, StreamEnd], so_up = up, so_down = down, so_entry = en\<rparr>)
           in
           if \<not> inspecting then
             (if hostHeader = [] then map_option (\<lambda>_. closed (given_a d) (given_b d) None) (relay d)
              else map_option (\<lambda>p. closed (px_up p) (px_down p) None)
                     (proxyBidirectionalWithHostRewrite d None None hostHeader))
           else
             (let reqCap = newPreviewCapture (ht_capture_bytes t);
                  respCap = newPreviewCapture (ht_capture_bytes t);
                  run = (if hostHeader = [] then proxyBidirectionalWithCapture d reqCap respCap
                         else proxyBidirectionalWithHostRewrite d (Some reqCap) (Some respCap) hostHeader)
              in map_option
                   (\<lambda>p. closed (px_up p) (px_down p)
                      (map_option (exchange_entry t x p)
                         (summarizeHTTPExchange rd (captured (px_request p)) (captured (px_response p))))) run)))"

text \<open>The inspector's store after a stream.\<close>

definition record_stream :: "int \<Rightarrow> stream_outcome \<Rightarrow> inspect_store \<Rightarrow> inspect_store" where
  "record_stream now x s = (case so_entry x of None \<Rightarrow> s | Some e \<Rightarrow> snd (inspect_Add now e s))"

lemmas [eval_simps] =
  seen_events_def relay_def given_a_def given_b_def tcp_handleStream_def serve_inbound_def tee_def
  collect_copies_def proxyBidirectionalWithCapture_def proxyBidirectionalWithHostRewrite_def
  summarizeHTTPExchange_def exchange_entry_def captured_def http_handleStream_def record_stream_def

subsection \<open>What is moved\<close>

text \<open>What a list of reads delivers.\<close>

definition received :: "reads \<Rightarrow> string" where
  "received rs = concat (map fst rs)"

lemma io_copy_moved: "io_copy w rs s = Some (r, t) \<Longrightarrow> t = moved w rs s"
  by (induction rs arbitrary: s r t)
    (auto simp: conn_write_def Let_def split: if_splits option.splits read_end.splits prod.splits)

lemma moved_prefix: "\<exists>d. sk_bytes (moved w rs s) = sk_bytes s @ d \<and> prefix d (received rs)"
proof (induction rs arbitrary: s)
  case Nil
  then show ?case by simp
next
  case (Cons r rs)
  obtain p e where r: "r = (p, e)" by fastforce
  define s' where "s' = (if p = [] then s else snd (conn_write w p s))"
  obtain k where k: "sk_bytes s' = sk_bytes s @ take k p" "w (sk_calls s) = None \<Longrightarrow> take k p = p"
  proof (cases "w (sk_calls s)")
    case None
    with that [of "length p"] show ?thesis by (auto simp: s'_def conn_write_def)
  next
    case (Some f)
    with that [of "fst f"] show ?thesis by (cases f) (auto simp: s'_def conn_write_def)
  qed
  have here: "\<exists>d. sk_bytes s' = sk_bytes s @ d \<and> prefix d (received (r # rs))"
    using k(1) by (auto simp: received_def r intro: exI [of _ "take k p"] prefix_prefix take_is_prefix)
  show ?case
  proof (cases "(p \<noteq> [] \<and> w (sk_calls s) \<noteq> None) \<or> e \<noteq> ReadMore")
    case True
    then have "moved w (r # rs) s = s'" by (auto simp: r s'_def Let_def split: read_end.splits)
    with here show ?thesis by simp
  next
    case False
    then have m: "moved w (r # rs) s = moved w rs s'" by (auto simp: r s'_def Let_def)
    have "w (sk_calls s) = None" if "p \<noteq> []" using False that by blast
    then have "take k p = p" using k(2) by (cases "p = []") simp_all
    with Cons.IH [of s'] k(1) m show ?thesis by (auto simp: received_def r)
  qed
qed

lemma moved_new_prefix: "prefix (sk_bytes (moved w rs new_sink)) (received rs)"
  using moved_prefix [of w rs new_sink] by (auto simp: new_sink_def)

lemma tee_copy_io_copy:
  "map_option (\<lambda>(r, c, t). (r, t)) (tee_copy w rs cap s) = io_copy w rs s"
proof (induction rs arbitrary: cap s)
  case Nil
  then show ?case by simp
next
  case (Cons r rs)
  obtain p e where r: "r = (p, e)" by fastforce
  obtain n werr s' where w: "(if p = [] then ((0, None), s) else conn_write w p s) = ((n, werr), s')"
    by (metis prod.exhaust)
  show ?case
    using Cons.IH [of "tee p cap" s', symmetric]
    by (auto simp: r w option.map_comp comp_def Let_def split: option.splits read_end.splits
        intro!: arg_cong [of _ _ "\<lambda>f. map_option f _"])
qed

lemma tee_copy_Some:
  assumes "tee_copy w rs cap s = Some (r, c, t)"
  shows "io_copy w rs s = Some (r, t)" and "t = moved w rs s"
proof -
  show "io_copy w rs s = Some (r, t)" using tee_copy_io_copy [of w rs cap s] assms by simp
  then show "t = moved w rs s" by (rule io_copy_moved)
qed

text \<open>The request copy of the rewriting proxy gives the same bytes whatever it captures.\<close>

lemma rewrite_loop_capture:
  "map_option (\<lambda>(r, c, t). (r, t)) (rewrite_loop w hh buf tot rs cap s)
    = map_option (\<lambda>(r, c, t). (r, t)) (rewrite_loop w hh buf tot rs cap' s)"
proof (induction rs arbitrary: buf tot cap cap' s)
  case Nil
  then show ?case by simp
next
  case (Cons r rs)
  obtain p e where r: "r = (p, e)" by fastforce
  show ?case
  proof (cases "p = []")
    case True
    then show ?thesis using Cons.IH [of buf tot cap s cap'] by (cases e) (simp_all add: r Let_def)
  next
    case False
    define bb where "bb = buf @ p"
    have "bb \<noteq> []" "crlf \<noteq> []" using False by (simp_all add: bb_def crlf_def)
    then show ?thesis
      using Cons.IH [of bb "tot + int (length p)" "map_option (capture_write p) cap" s
          "map_option (capture_write p) cap'"] False
      by (simp add: r Let_def option.map_comp comp_def case_prod_unfold flip: bb_def
          split: option.split read_end.split prod.split)
  qed
qed

lemma copyRequest_capture:
  "map_option (\<lambda>(r, c, t). (r, t)) (copyRequestWithHostRewrite w rs cap hh s)
    = map_option (\<lambda>(r, c, t). (r, t)) (copyRequestWithHostRewrite w rs cap' hh s)"
  using rewrite_loop_capture [of w "TrimSpace hh" "[]" 0 rs cap s cap']
  by (auto simp: copyRequestWithHostRewrite_def Let_def option.map_comp comp_def case_prod_unfold)


text \<open>On orderly connections the capture sees all chunks.\<close>

lemma tee_capture: "tee p cap = map_option (capture_write p) cap"
proof -
  have "capture_write [] c = c" for c by (simp add: capture_write_def Let_def)
  then show ?thesis by (cases cap) (simp_all add: tee_def)
qed

lemma tee_copy_orderly:
  "\<exists>t. tee_copy no_faults (orderly ps) cap s
      = Some ((int (length (concat ps)), None), map_option (fold capture_write ps) cap, t)
    \<and> sk_bytes t = sk_bytes s @ concat ps"
proof (induction ps arbitrary: cap s)
  case Nil
  have "map_option (\<lambda>x. x) cap = cap" by (cases cap) simp_all
  then show ?case by (simp add: tee_def id_def)
next
  case (Cons p ps)
  define s' where "s' = (if p = [] then s else snd (conn_write no_faults p s))"
  obtain t where t: "tee_copy no_faults (orderly ps) (tee p cap) s'
      = Some ((int (length (concat ps)), None), map_option (fold capture_write ps) (tee p cap), t)"
    "sk_bytes t = sk_bytes s' @ concat ps" using Cons.IH by blast
  have "sk_bytes s' = sk_bytes s @ p" by (simp add: s'_def conn_write_def)
  with t show ?case
    by (auto simp: s'_def conn_write_def tee_capture option.map_comp comp_def split: if_splits)
qed

text \<open>Once both copies have ended the collecting loop returns their counts, wherever the context
  ended.\<close>

lemma collect_counts:
  "\<exists>err. proxy_collect (seen_events d [RequestDone n e] [ResponseDone m e']) copy_start = Some (n, m, err)"
proof (cases "dx_ctx d")
  case None
  then show ?thesis by (simp add: seen_events_def proxy_collect.simps copy_start_def first_end_def)
next
  case (Some ke)
  obtain k c where ke: "ke = (k, c)" by fastforce
  consider "k = 0" | "k = 1" | j where "k = Suc (Suc j)" by (metis One_nat_def not0_implies_Suc)
  then show ?thesis
    by cases (simp_all add: Some ke seen_events_def proxy_collect.simps copy_start_def first_end_def)
qed

lemma relay_returns:
  assumes "io_copy (dx_a_faults d) (dx_b_reads d) new_sink \<noteq> None
    \<or> io_copy (dx_b_faults d) (dx_a_reads d) new_sink \<noteq> None"
  shows "relay d \<noteq> None"
proof -
  have ends: "proxyBidirectional evs \<noteq> None" if "evs \<noteq> []" for evs
    using that by (cases evs rule: proxyBidirectional.cases) simp_all
  have shown: "copy_ended ev r \<noteq> []" if "r \<noteq> None" for ev r
    using that by (cases r) auto
  show ?thesis
    unfolding relay_def
    by (rule ends) (use assms shown in \<open>auto simp: seen_events_def Let_def split: option.split\<close>)
qed


lemma with_capture_bytes:
  assumes "proxyBidirectionalWithCapture d reqCap respCap = Some p"
  shows "px_up p = given_a d \<and> px_down p = given_b d \<and> relay d \<noteq> None"
proof -
  obtain n e c v m e' c' v' where
    "tee_copy (dx_a_faults d) (dx_b_reads d) (Some reqCap) new_sink = Some ((n, e), c, v)"
    "tee_copy (dx_b_faults d) (dx_a_reads d) (Some respCap) new_sink = Some ((m, e'), c', v')"
    "px_up p = sk_bytes v" "px_down p = sk_bytes v'"
    using assms by (auto simp: proxyBidirectionalWithCapture_def collect_copies_def split: option.splits)
  then show ?thesis using tee_copy_Some relay_returns [of d] by (force simp: given_a_def given_b_def)
qed

lemma host_rewrite_bytes:
  assumes "proxyBidirectionalWithHostRewrite d reqCap respCap hh = Some p"
  shows "\<exists>p'. proxyBidirectionalWithHostRewrite d reqCap' respCap' hh = Some p'
    \<and> px_up p' = px_up p \<and> px_down p' = px_down p"
proof -
  obtain n e c v m e' c' v' where
    c: "copyRequestWithHostRewrite (dx_a_faults d) (dx_b_reads d) reqCap hh new_sink = Some ((n, e), c, v)"
    "tee_copy (dx_b_faults d) (dx_a_reads d) respCap new_sink = Some ((m, e'), c', v')"
    "px_up p = sk_bytes v" "px_down p = sk_bytes v'"
    using assms by (auto simp: proxyBidirectionalWithHostRewrite_def collect_copies_def split: option.splits)
  have "map_option (\<lambda>(r, c, t). (r, t))
      (copyRequestWithHostRewrite (dx_a_faults d) (dx_b_reads d) reqCap' hh new_sink) = Some ((n, e), v)"
    using copyRequest_capture [of "dx_a_faults d" "dx_b_reads d" reqCap hh new_sink reqCap'] c(1) by simp
  then obtain c2 where
    "copyRequestWithHostRewrite (dx_a_faults d) (dx_b_reads d) reqCap' hh new_sink = Some ((n, e), c2, v)"
    by auto
  moreover have "map_option (\<lambda>(r, c, t). (r, t)) (tee_copy (dx_b_faults d) (dx_a_reads d) respCap' new_sink)
      = Some ((m, e'), v')"
    using tee_copy_io_copy [of "dx_b_faults d" "dx_a_reads d" respCap' new_sink] tee_copy_Some(1) [OF c(2)] by simp
  then obtain c3 where
    "tee_copy (dx_b_faults d) (dx_a_reads d) respCap' new_sink = Some ((m, e'), c3, v')" by auto
  moreover obtain err where
    "proxy_collect (seen_events d [RequestDone n e] [ResponseDone m e']) copy_start = Some (n, m, err)"
    using collect_counts by blast
  ultimately show ?thesis using c(3,4)
    by (simp add: proxyBidirectionalWithHostRewrite_def collect_copies_def)
qed

subsection \<open>Properties\<close>

text \<open>C19: a TCP tunnel is a pair of byte streams. When the session carries the bytes of a stream in order
  (what one side reads from it is the beginning of what the other has written), the upstream has
  at every moment been given the beginning of what the inbound peer sent, and the peer the
  beginning of what the upstream sent: nothing is reordered, repeated or made up, whatever the
  sizes of the reads, the failures of reads and writes, and the ends of contexts on both sides.\<close>

theorem tcp_streams_in_order:
  assumes "serve_inbound stream ds = (cl, back, fwd)" and "tcp_handleStream dial dc = (cl', up, down)"
    and "prefix (received (dx_b_reads dc)) fwd" and "prefix (received (dx_b_reads ds)) down"
  shows "prefix up (received (dx_a_reads ds)) \<and> prefix back (received (dx_a_reads dc))"
proof -
  have given: "prefix (given_a d) (received (dx_b_reads d))" "prefix (given_b d) (received (dx_a_reads d))" for d
    by (simp_all add: given_a_def given_b_def moved_new_prefix)
  have "prefix back (received (dx_b_reads ds)) \<and> prefix fwd (received (dx_a_reads ds))"
    using assms(1) given by (auto simp: serve_inbound_def split: sum.splits)
  moreover have "prefix up (received (dx_b_reads dc)) \<and> prefix down (received (dx_a_reads dc))"
    using assms(2) given by (auto simp: tcp_handleStream_def split: sum.splits)
  ultimately show ?thesis using assms(3,4) by (meson prefix_order.order_trans)
qed

text \<open>the end of one direction ends both. When the peer of a TCP stream has sent all it had and closed
  its side, the handler returns and closes both connections, whatever the upstream has still to
  send: also when its reads are not at their end, so that the rest of a reply is lost.\<close>

theorem half_close_ends_both:
  assumes "dx_a_faults d = no_faults" and "dx_b_reads d = orderly ps"
  shows "fst (tcp_handleStream (Inr ()) d) = Some [UpstreamEnd, StreamEnd] \<and> given_a d = concat ps"
proof -
  obtain t where t: "io_copy (dx_a_faults d) (dx_b_reads d) new_sink = Some ((int (length (concat ps)), None), t)"
    "sk_bytes t = concat ps"
    using io_copy_orderly [of ps new_sink] assms by (auto simp: new_sink_def)
  then have "relay d \<noteq> None" by (intro relay_returns) simp
  moreover have "given_a d = concat ps" using io_copy_moved [OF t(1)] t(2) by (simp add: given_a_def)
  ultimately show ?thesis by (auto simp: tcp_handleStream_def)
qed

text \<open>C20: the inspector does not change the traffic. A stream that is handled with the inspector and ends
  is also handled without it: the same bytes reach the upstream and the stream, and the same ends
  are closed, with any reads, failures and rewriting of the Host header.\<close>

theorem inspector_transparent:
  assumes "http_handleStream rd True t x = Some y"
  shows "\<exists>z. http_handleStream rd False t x = Some z \<and> so_up z = so_up y \<and> so_down z = so_down y
    \<and> so_closed z = so_closed y"
proof (cases "hs_dial x")
  case (Inl e)
  then show ?thesis using assms by (auto simp: http_handleStream_def)
next
  case (Inr u)
  define d hh where "d = hs_conns x" and "hh = effective_host (ho_host_header (ht_opts t)) (ht_local_addr t)"
  define cap where "cap = newPreviewCapture (ht_capture_bytes t)"
  define run where "run = (if hh = [] then proxyBidirectionalWithCapture d cap cap
      else proxyBidirectionalWithHostRewrite d (Some cap) (Some cap) hh)"
  obtain p where p: "run = Some p" and y: "so_up y = px_up p" "so_down y = px_down p" "so_closed y = [UpstreamEnd, StreamEnd]"
    using assms Inr by (auto simp: http_handleStream_def Let_def run_def d_def hh_def cap_def split: if_splits)
  show ?thesis
  proof (cases "hh = []")
    case True
    then have "px_up p = given_a d \<and> px_down p = given_b d \<and> relay d \<noteq> None"
      using with_capture_bytes p by (simp add: run_def)
    then show ?thesis using True Inr y by (auto simp: http_handleStream_def Let_def d_def hh_def)
  next
    case False
    then obtain p' where "proxyBidirectionalWithHostRewrite d None None hh = Some p'"
      "px_up p' = px_up p" "px_down p' = px_down p"
      using host_rewrite_bytes p by (fastforce simp: run_def)
    then show ?thesis using False Inr y by (simp add: http_handleStream_def Let_def d_def hh_def)
  qed
qed

text \<open>C21: the inspector records the exchange that took place. The readers of \<open>net/http\<close> look at the head of a
  message only. When the Host header is preserved, both heads fit in the captured bytes and the
  connections are orderly, then in whatever chunks the messages arrive and wherever the context ends, both messages are passed on
  whole, and the one entry handed to the inspector has the method, path, host, status and headers of
  the heads and the lengths of the whole messages.\<close>

theorem inspection_sees_exchange:
  assumes "\<forall>s u q. rd_request rd s = Some q \<longrightarrow> rd_request rd (s @ u) = Some q"
    and "\<forall>q s u r. rd_response rd q s = Some r \<longrightarrow> rd_response rd q (s @ u) = Some r"
    and "hs_dial x = Inr tls" and "effective_host (ho_host_header (ht_opts t)) (ht_local_addr t) = []"
    and "dx_b_reads (hs_conns x) = orderly ps" and "dx_a_reads (hs_conns x) = orderly qs"
    and "dx_a_faults (hs_conns x) = no_faults" and "dx_b_faults (hs_conns x) = no_faults"
    and "concat ps = req @ body" and "concat qs = resp @ body'"
    and "int (length req) \<le> ht_capture_bytes t" and "int (length resp) \<le> ht_capture_bytes t"
    and "rd_request rd req = Some q" and "rd_response rd q resp = Some (status, hdrs)"
  shows "http_handleStream rd True t x = Some
    \<lparr>so_closed = [UpstreamEnd, StreamEnd], so_up = req @ body, so_down = resp @ body',
     so_entry = Some \<lparr>en_id = [], en_started_at = Some (hs_started x), en_duration_ms = hs_millis x,
       en_tunnel_id = ht_id t, en_method = pq_method q, en_path = url_RequestURI (pq_url q),
       en_host = pq_host q, en_status_code = status, en_bytes_in = int (length (req @ body)),
       en_bytes_out = int (length (resp @ body')), en_request_headers = pq_header q,
       en_response_headers = hdrs\<rparr>\<rparr>"
proof -
  let ?cap = "newPreviewCapture (ht_capture_bytes t)" and ?d = "hs_conns x"
  have kept: "\<exists>w. pc_buf (fold capture_write cs ?cap) = h @ w"
    if "concat cs = h @ b" "int (length h) \<le> ht_capture_bytes t" for cs h b
    using that by (simp add: preview_is_prefix nat_le_iff le_nat_iff)
  obtain v where v: "tee_copy no_faults (orderly ps) (Some ?cap) new_sink
      = Some ((int (length (concat ps)), None), Some (fold capture_write ps ?cap), v)" "sk_bytes v = concat ps"
    using tee_copy_orderly [of ps "Some ?cap" new_sink] by (auto simp: new_sink_def)
  obtain v' where v': "tee_copy no_faults (orderly qs) (Some ?cap) new_sink
      = Some ((int (length (concat qs)), None), Some (fold capture_write qs ?cap), v')" "sk_bytes v' = concat qs"
    using tee_copy_orderly [of qs "Some ?cap" new_sink] by (auto simp: new_sink_def)
  obtain err where err: "proxy_collect (seen_events ?d [RequestDone (int (length (concat ps))) None]
      [ResponseDone (int (length (concat qs))) None]) copy_start
    = Some (int (length (concat ps)), int (length (concat qs)), err)" using collect_counts by blast
  have "rd_request rd (pc_buf (fold capture_write ps ?cap)) = Some q"
    using kept [OF assms(9,11)] assms(1,13) by auto
  moreover have "rd_response rd q (pc_buf (fold capture_write qs ?cap)) = Some (status, hdrs)"
    using kept [OF assms(10,12)] assms(2,14) by auto
  ultimately have "summarizeHTTPExchange rd (pc_buf (fold capture_write ps ?cap)) (pc_buf (fold capture_write qs ?cap))
      = Some \<lparr>xs_method = pq_method q, xs_path = url_RequestURI (pq_url q), xs_host = pq_host q,
          xs_status = status, xs_request_headers = pq_header q, xs_response_headers = hdrs\<rparr>"
    by (simp add: summarizeHTTPExchange_def)
  moreover have "proxyBidirectionalWithCapture ?d ?cap ?cap = Some
      \<lparr>px_in = int (length (req @ body)), px_out = int (length (resp @ body')),
       px_request = Some (fold capture_write ps ?cap), px_response = Some (fold capture_write qs ?cap),
       px_up = req @ body, px_down = resp @ body'\<rparr>"
    using v v' err assms(5-10) by (simp add: proxyBidirectionalWithCapture_def collect_copies_def)
  ultimately show ?thesis using assms(3,4)
    by (simp add: http_handleStream_def captured_def exchange_entry_def)
qed


subsection \<open>Witnesses\<close>

definition demo_duplex :: "reads \<Rightarrow> reads \<Rightarrow> duplex" where
  "demo_duplex a b = \<lparr>dx_a_reads = a, dx_a_faults = no_faults, dx_b_reads = b, dx_b_faults = no_faults,
     dx_to_a_first = True, dx_ctx = None\<rparr>"

theorem tcp_streams_in_order_witness:
  "\<exists>cl back fwd cl' up down.
     serve_inbound (Inr ()) (demo_duplex (orderly [''ab'', ''c'']) [(''xy'', ReadMore)]) = (cl, back, fwd)
     \<and> tcp_handleStream (Inr ()) (demo_duplex (orderly [''xyz'']) [(''a'', ReadMore), (''b'', ReadMore)]) = (cl', up, down)
     \<and> cl = Some [StreamEnd, InboundEnd] \<and> up = ''ab'' \<and> back = ''xy'' \<and> prefix up ''abc'' \<and> prefix back ''xyz''"
proof -
  let ?ds = "demo_duplex (orderly [''ab'', ''c'']) [(''xy'', ReadMore)]"
    and ?dc = "demo_duplex (orderly [''xyz'']) [(''a'', ReadMore), (''b'', ReadMore)]"
  have s: "serve_inbound (Inr ()) ?ds = (Some [StreamEnd, InboundEnd], ''xy'', ''abc'')"
    by (simp add: eval_simps demo_duplex_def)
  have c: "tcp_handleStream (Inr ()) ?dc = (Some [UpstreamEnd, StreamEnd], ''ab'', ''xyz'')"
    by (simp add: eval_simps demo_duplex_def)
  have "prefix (received (dx_b_reads ?dc)) ''abc''" "prefix (received (dx_b_reads ?ds)) ''xyz''"
    by (simp_all add: received_def demo_duplex_def)
  from tcp_streams_in_order [OF s c this] show ?thesis
    using s c by (simp add: received_def demo_duplex_def)
qed

text \<open>The upstream is in the middle of a reply that its reads have not ended.\<close>

theorem half_close_ends_both_witness:
  "fst (tcp_handleStream (Inr ()) (demo_duplex [(''partial'', ReadMore)] (orderly [''request''])))
     = Some [UpstreamEnd, StreamEnd]
   \<and> io_copy no_faults [(''partial'', ReadMore)] new_sink = None"
  using half_close_ends_both [of "demo_duplex [(''partial'', ReadMore)] (orderly [''request''])" "[''request'']"]
  by (simp add: demo_duplex_def eval_simps)

definition demo_readers :: http_readers where
  "demo_readers =
     \<lparr>rd_request = (\<lambda>s. if prefix ''GET /x'' s
        then Some \<lparr>pq_method = ''GET'', pq_url = empty_url\<lparr>u_path := ''/x''\<rparr>, pq_host = ''h'', pq_header = no_header\<rparr>
        else None),
      rd_response = (\<lambda>q s. if prefix ''200'' s then Some (200, no_header) else None)\<rparr>"

definition demo_stream :: http_stream where
  "demo_stream = \<lparr>hs_dial = Inr False, hs_conns = demo_duplex (orderly [''20'', ''0 ok'']) (orderly [''GET'', '' /x body'']),
     hs_started = 5, hs_millis = 7\<rparr>"


lemma demo_readers_lazy:
  "\<forall>s u q. rd_request demo_readers s = Some q \<longrightarrow> rd_request demo_readers (s @ u) = Some q"
  "\<forall>q s u r. rd_response demo_readers q s = Some r \<longrightarrow> rd_response demo_readers q (s @ u) = Some r"
  unfolding demo_readers_def by (auto simp: prefix_def split: if_splits)

lemma demo_tunnel_host: "effective_host (ho_host_header (ht_opts demo_tunnel)) (ht_local_addr demo_tunnel) = []"
  by (simp add: demo_tunnel_def) (simp add: eval_simps)

lemma demo_handled:
  "map_option (\<lambda>y. (so_up y, so_down y)) (http_handleStream demo_readers True demo_tunnel demo_stream)
     = Some (''GET /x body'', ''200 ok'')"
proof -
  have "ht_capture_bytes demo_tunnel = 65536" by (simp add: demo_tunnel_def)
  moreover have "prefix ''GET /x'' ''GET /x body''" "prefix ''200'' ''200 ok''" by simp_all
  ultimately show ?thesis
    using demo_tunnel_host
    by (simp add: http_handleStream_def demo_stream_def demo_duplex_def proxyBidirectionalWithCapture_def
        collect_copies_def new_sink_def conn_write_def seen_events_def proxy_collect.simps copy_start_def first_end_def
        Let_def)
qed

theorem inspector_transparent_witness:
  "\<exists>z. http_handleStream demo_readers False demo_tunnel demo_stream = Some z
     \<and> so_up z = ''GET /x body'' \<and> so_down z = ''200 ok''"
proof -
  obtain y where "http_handleStream demo_readers True demo_tunnel demo_stream = Some y"
    "so_up y = ''GET /x body''" "so_down y = ''200 ok''" using demo_handled by auto
  with inspector_transparent [OF this(1)] show ?thesis by auto
qed

theorem inspection_sees_exchange_witness:
  "\<exists>y e. http_handleStream demo_readers True demo_tunnel demo_stream = Some y \<and> so_entry y = Some e
     \<and> en_method e = ''GET'' \<and> en_status_code e = 200 \<and> en_bytes_in e = 11 \<and> en_tunnel_id e = ''abcd1234''"
proof -
  have m: "concat [''GET'', '' /x body''] = ''GET /x'' @ '' body''" "concat [''20'', ''0 ok''] = ''200'' @ '' ok''"
    by simp_all
  have c: "int (length ''GET /x'') \<le> ht_capture_bytes demo_tunnel" "int (length ''200'') \<le> ht_capture_bytes demo_tunnel"
    by (simp_all add: demo_tunnel_def)
  have r: "rd_request demo_readers ''GET /x''
      = Some \<lparr>pq_method = ''GET'', pq_url = empty_url\<lparr>u_path := ''/x''\<rparr>, pq_host = ''h'', pq_header = no_header\<rparr>"
    "rd_response demo_readers q ''200'' = Some (200, no_header)" for q
    by (simp_all add: demo_readers_def)
  have d: "hs_dial demo_stream = Inr False" "dx_b_reads (hs_conns demo_stream) = orderly [''GET'', '' /x body'']"
    "dx_a_reads (hs_conns demo_stream) = orderly [''20'', ''0 ok'']"
    "dx_a_faults (hs_conns demo_stream) = no_faults" "dx_b_faults (hs_conns demo_stream) = no_faults"
    by (simp_all add: demo_stream_def demo_duplex_def)
  show ?thesis
    using inspection_sees_exchange [OF demo_readers_lazy d(1) demo_tunnel_host d(2-5) m c r]
    by (simp add: demo_tunnel_def)
qed

subsection \<open>The history of a session\<close>

text \<open>Streams end one after another, each adding its entry in one step under the store's lock: the
  list shown is that of the most recent recorded exchanges.\<close>

lemma recorded_streams:
  "inspect_List (fold (\<lambda>(now, y). record_stream now y) ys (NewStore m))
     = take (capacity m) (rev (history [(now, e). (now, y) \<leftarrow> ys, Some e \<leftarrow> [so_entry y]]))"
proof -
  have "fold (\<lambda>(now, y). record_stream now y) ys s = add_all [(now, e). (now, y) \<leftarrow> ys, Some e \<leftarrow> [so_entry y]] s" for s
    by (induction ys arbitrary: s) (auto simp: record_stream_def add_all_def split: option.splits)
  then show ?thesis
    by (simp only: add_all_store inspect_List_def inspect_store.simps take_rev length_history)
qed

end
