(* ===== verification/GoQuote.thy ===== *)
theory GoQuote
  imports GoStrconv
begin

text \<open>
  \<open>strconv.Quote\<close> on strings of bytes: the decoding of UTF-8, the escapes, and the reader
  \<open>unquote\<close> of such a text, which returns what was quoted and the rest of its input. Which runes
  above the ASCII range are printable is an argument (\<open>printable\<close>, the tables of \<open>unicode\<close>).
\<close>

subsection \<open>UTF-8\<close>

definition continuation :: "nat \<Rightarrow> bool" where
  "continuation b \<longleftrightarrow> 128 \<le> b \<and> b \<le> 191"

text \<open>\<open>utf8.DecodeRuneInString\<close>: the rune and its width; \<open>None\<close> for a byte that starts no rune.\<close>

definition decode_rune :: "string \<Rightarrow> (nat \<times> nat) option" where
  "decode_rune s =
     (case s of
        [] \<Rightarrow> None
      | c0 # s1 \<Rightarrow>
          (let b0 = byte c0 in
           if b0 < 128 then Some (b0, 1)
           else if 194 \<le> b0 \<and> b0 \<le> 223 then
             (case s1 of
                c1 # _ \<Rightarrow> if continuation (byte c1) then Some ((b0 - 192) * 64 + (byte c1 - 128), 2) else None
              | _ \<Rightarrow> None)
           else if 224 \<le> b0 \<and> b0 \<le> 239 then
             (case s1 of
                c1 # c2 # _ \<Rightarrow>
                  if (if b0 = 224 then 160 else 128) \<le> byte c1 \<and> byte c1 \<le> (if b0 = 237 then 159 else 191)
                    \<and> continuation (byte c2)
                  then Some (((b0 - 224) * 64 + (byte c1 - 128)) * 64 + (byte c2 - 128), 3) else None
              | _ \<Rightarrow> None)
           else if 240 \<le> b0 \<and> b0 \<le> 244 then
             (case s1 of
                c1 # c2 # c3 # _ \<Rightarrow>
                  if (if b0 = 240 then 144 else 128) \<le> byte c1 \<and> byte c1 \<le> (if b0 = 244 then 143 else 191)
                    \<and> continuation (byte c2) \<and> continuation (byte c3)
                  then Some ((((b0 - 240) * 64 + (byte c1 - 128)) * 64 + (byte c2 - 128)) * 64 + (byte c3 - 128), 4)
                  else None
              | _ \<Rightarrow> None)
           else None))"

text \<open>\<open>utf8.AppendRune\<close> for a rune that is one.\<close>

definition encode_rune :: "nat \<Rightarrow> string" where
  "encode_rune r =
     (if r < 128 then [char_of r]
      else if r < 2048 then [char_of (192 + r div 64), char_of (128 + r mod 64)]
      else if r < 65536 then [char_of (224 + r div 4096), char_of (128 + r div 64 mod 64), char_of (128 + r mod 64)]
      else [char_of (240 + r div 262144), char_of (128 + r div 4096 mod 64), char_of (128 + r div 64 mod 64),
            char_of (128 + r mod 64)])"

lemma next_digit:
  assumes "r = a * 64 + (b - 128)" and "continuation b"
  shows "r div 64 = a" "r mod 64 = b - 128" "a * 64 \<le> r" "r < Suc a * 64"
proof -
  have "b - 128 < 64" using assms(2) unfolding continuation_def by linarith
  then show "r div 64 = a" "r mod 64 = b - 128" "a * 64 \<le> r" "r < Suc a * 64" unfolding assms(1) by simp_all
qed

lemma div_4096: "(r :: nat) div 4096 = r div 64 div 64" "r div 262144 = r div 64 div 64 div 64"
  by (simp_all flip: div_mult2_eq)

lemma decode_rune_encode:
  assumes "decode_rune s = Some (r, w)"
  shows "take w s = encode_rune r \<and> 0 < w \<and> w \<le> length s \<and> r < 1114112"
proof -
  obtain c0 s1 where s: "s = c0 # s1" using assms by (auto simp: decode_rune_def split: list.splits)
  have same: "char_of (n + (byte c - n)) = c" if "n \<le> byte c" for n c
    using that by simp
  consider "byte c0 < 128" | "194 \<le> byte c0" "byte c0 \<le> 223" | "224 \<le> byte c0" "byte c0 \<le> 239"
    | "240 \<le> byte c0" "byte c0 \<le> 244"
    using assms by (auto simp: decode_rune_def s Let_def not_less not_le split: if_splits)
  then show ?thesis
  proof cases
    case 1
    then show ?thesis using assms by (auto simp: decode_rune_def s Let_def encode_rune_def)
  next
    case 2
    then obtain c1 s2 where c: "s1 = c1 # s2" "continuation (byte c1)"
      "r = (byte c0 - 192) * 64 + (byte c1 - 128)" "w = 2"
      using assms by (auto simp: decode_rune_def s Let_def split: list.splits if_splits)
    note d = next_digit [OF c(3,2)]
    have "2 \<le> byte c0 - 192" "byte c0 - 192 \<le> 31" using 2 by linarith+
    then have "128 \<le> r" "r < 2048" using d(3,4) by simp_all
    then show ?thesis using c(1,2,4) 2 d(1,2) by (simp add: s encode_rune_def same continuation_def)
  next
    case 3
    then obtain c1 c2 s2 where c: "s1 = c1 # c2 # s2" "continuation (byte c1)" "continuation (byte c2)"
      "byte c0 = 224 \<Longrightarrow> 160 \<le> byte c1"
      "r = ((byte c0 - 224) * 64 + (byte c1 - 128)) * 64 + (byte c2 - 128)" "w = 3"
      using assms by (auto simp: decode_rune_def s Let_def continuation_def split: list.splits if_splits)
    define q where "q = (byte c0 - 224) * 64 + (byte c1 - 128)"
    note dq = next_digit [OF q_def c(2)] and d = next_digit [OF c(5) [folded q_def] c(3)]
    have "32 \<le> q" using dq(3) c(4) 3 by (cases "byte c0 = 224") (auto simp: q_def)
    moreover have "byte c0 - 224 \<le> 15" using 3 by linarith
    then have "q < 1024" using dq(4) by simp
    ultimately have "2048 \<le> r" "r < 65536" using d(3,4) by simp_all
    then show ?thesis using c(1-3,6) 3 dq(1,2) d(1,2) by (simp add: s encode_rune_def same continuation_def div_4096)
  next
    case 4
    then obtain c1 c2 c3 s2 where c: "s1 = c1 # c2 # c3 # s2" "continuation (byte c1)" "continuation (byte c2)"
      "continuation (byte c3)" "byte c0 = 240 \<Longrightarrow> 144 \<le> byte c1" "byte c0 = 244 \<Longrightarrow> byte c1 \<le> 143"
      "r = (((byte c0 - 240) * 64 + (byte c1 - 128)) * 64 + (byte c2 - 128)) * 64 + (byte c3 - 128)" "w = 4"
      using assms by (auto simp: decode_rune_def s Let_def continuation_def split: list.splits if_splits)
    define p where "p = (byte c0 - 240) * 64 + (byte c1 - 128)"
    define q where "q = p * 64 + (byte c2 - 128)"
    note dp = next_digit [OF p_def c(2)] and dq = next_digit [OF q_def c(3)]
      and d = next_digit [OF c(7) [folded p_def, folded q_def] c(4)]
    have "16 \<le> p" using dp(3) c(5) 4 by (cases "byte c0 = 240") (auto simp: p_def)
    moreover have "p < 272" using dp(4) c(6) 4 by (cases "byte c0 = 244") (auto simp: p_def)
    ultimately have "65536 \<le> r" "r < 1114112" using d(3,4) dq(3,4) by simp_all
    then show ?thesis using c(1-4,8) 4 dp(1,2) dq(1,2) d(1,2)
      by (simp add: s encode_rune_def same continuation_def div_4096)
  qed
qed


subsection \<open>Quoting\<close>

definition quote_mark :: char where "quote_mark = CHR 0x22"
definition backslash :: char where "backslash = CHR 0x5C"

fun hex_pad :: "nat \<Rightarrow> nat \<Rightarrow> string" where
  "hex_pad 0 n = []"
| "hex_pad (Suc k) n = hex_pad k (n div 16) @ [hex_digit (n mod 16)]"

definition is_print :: "(nat \<Rightarrow> bool) \<Rightarrow> nat \<Rightarrow> bool" where
  "is_print printable r \<longleftrightarrow> (if r < 128 then 32 \<le> r \<and> r < 127 else printable r)"

text \<open>The letters of the short escapes, with the bytes they stand for.\<close>

definition short_escapes :: "(nat \<times> char) list" where
  "short_escapes = [(7, CHR ''a''), (8, CHR ''b''), (12, CHR ''f''), (10, CHR ''n''), (13, CHR ''r''), (9, CHR ''t''), (11, CHR ''v'')]"

definition escape_rune :: "(nat \<Rightarrow> bool) \<Rightarrow> nat \<Rightarrow> string" where
  "escape_rune printable r =
     (if r = byte quote_mark \<or> r = byte backslash then [backslash, char_of r]
      else if is_print printable r then encode_rune r
      else (case map_of short_escapes r of
              Some c \<Rightarrow> [backslash, c]
            | None \<Rightarrow>
                if r < 32 \<or> r = 127 then [backslash, CHR ''x''] @ hex_pad 2 r
                else if r < 65536 then [backslash, CHR ''u''] @ hex_pad 4 r
                else [backslash, CHR ''U''] @ hex_pad 8 r))"

function quote_body :: "(nat \<Rightarrow> bool) \<Rightarrow> string \<Rightarrow> string" where
  "quote_body printable [] = []"
| "quote_body printable (c # s) =
     (case decode_rune (c # s) of
        None \<Rightarrow> [backslash, CHR ''x''] @ hex_pad 2 (byte c) @ quote_body printable s
      | Some (r, w) \<Rightarrow> escape_rune printable r @ quote_body printable (drop (w - 1) s))"
  by pat_completeness auto
termination by (relation "measure (\<lambda>(printable, s). length s)") auto

definition Quote :: "(nat \<Rightarrow> bool) \<Rightarrow> string \<Rightarrow> string" where
  "Quote printable s = [quote_mark] @ quote_body printable s @ [quote_mark]"

subsection \<open>Reading a quoted text\<close>

text \<open>The meaning of an escape: its bytes and how many bytes follow its letter.\<close>

definition hex_num :: "string \<Rightarrow> nat option" where
  "hex_num s = foldl (\<lambda>acc c. case (acc, hex_val c) of (Some n, Some d) \<Rightarrow> Some (16 * n + d) | _ \<Rightarrow> None) (Some 0) s"

definition unescape :: "char \<Rightarrow> string \<Rightarrow> (string \<times> nat) option" where
  "unescape c s =
     (if c = quote_mark \<or> c = backslash then Some ([c], 0)
      else if c = CHR ''x'' then map_option (\<lambda>n. ([char_of n], 2)) (hex_num (take 2 s))
      else if c = CHR ''u'' then map_option (\<lambda>n. (encode_rune n, 4)) (hex_num (take 4 s))
      else if c = CHR ''U'' then map_option (\<lambda>n. (encode_rune n, 8)) (hex_num (take 8 s))
      else map_option (\<lambda>(n, _). ([char_of n], 0)) (find (\<lambda>e. snd e = c) short_escapes))"

function unquote_body :: "string \<Rightarrow> (string \<times> string) option" where
  "unquote_body [] = None"
| "unquote_body (c # s) =
     (if c = quote_mark then Some ([], s)
      else if c = backslash then
        (case s of
           [] \<Rightarrow> None
         | e # s' \<Rightarrow>
             (case unescape e s' of
                None \<Rightarrow> None
              | Some (out, n) \<Rightarrow> map_option (\<lambda>(t, rest). (out @ t, rest)) (unquote_body (drop n s'))))
      else map_option (\<lambda>(t, rest). (c # t, rest)) (unquote_body s))"
  by pat_completeness auto
termination by (relation "measure length") auto

definition unquote :: "string \<Rightarrow> (string \<times> string) option" where
  "unquote s = (case s of [] \<Rightarrow> None | c # t \<Rightarrow> if c = quote_mark then unquote_body t else None)"

lemmas [eval_simps] =
  decode_rune_def continuation_def quote_mark_def backslash_def is_print_def short_escapes_def escape_rune_def
  Quote_def hex_num_def unescape_def unquote_def

subsection \<open>The round trip\<close>

abbreviation prepend :: "string \<Rightarrow> string \<times> string \<Rightarrow> string \<times> string" where
  "prepend u p \<equiv> (u @ fst p, snd p)"

lemma hex_num_pad: "n < 16 ^ k \<Longrightarrow> hex_num (hex_pad k n) = Some n"
proof (induction k arbitrary: n)
  case 0
  then show ?case by (simp add: hex_num_def)
next
  case (Suc k)
  then have "hex_num (hex_pad k (n div 16)) = Some (n div 16)" by (simp add: less_mult_imp_div_less mult.commute)
  moreover have "16 * (n div 16) + n mod 16 = n" by simp
  ultimately show ?case by (simp add: hex_num_def hex_val_hex_digit)
qed

lemma length_hex_pad [simp]: "length (hex_pad k n) = k"
  by (induction k arbitrary: n) simp_all

lemma unquote_escape:
  assumes "unescape c (u @ t) = Some (out, length u)"
  shows "unquote_body (backslash # c # u @ t) = map_option (prepend out) (unquote_body t)"
  using assms by (simp add: quote_mark_def backslash_def case_prod_unfold)

lemma unquote_plain:
  assumes "quote_mark \<notin> set u" "backslash \<notin> set u"
  shows "unquote_body (u @ t) = map_option (prepend u) (unquote_body t)"
  using assms
proof (induction u)
  case Nil
  then show ?case by (cases "unquote_body t") simp_all
next
  case (Cons c u)
  then show ?case by (auto simp: option.map_comp comp_def case_prod_unfold)
qed

lemma encode_rune_high:
  assumes "128 \<le> r" "r < 1114112" "c \<in> set (encode_rune r)"
  shows "128 \<le> byte c"
proof -
  have high: "128 \<le> byte (char_of n)" if "128 \<le> n" "n < 256" for n :: nat
    using that by (simp add: byte_char_of)
  have "128 + x mod 64 < 256" for x :: nat
    using mod_less_divisor [of 64 x] by linarith
  moreover have "r < 2048 \<Longrightarrow> 192 + r div 64 < 256" "r < 65536 \<Longrightarrow> 224 + r div 4096 < 256"
    "240 + r div 262144 < 256" using assms(2) by (simp_all add: less_mult_imp_div_less)
  ultimately show ?thesis
    using assms(1,3) by (auto simp: encode_rune_def split: if_splits intro!: high)
qed

lemma short_escape_cases:
  assumes "map_of short_escapes r = Some c"
  shows "escape_rune printable r = [backslash, c] \<and> unescape c t = Some (encode_rune r, 0)"
proof -
  have "(r, c) \<in> {(7, CHR ''a''), (8, CHR ''b''), (12, CHR ''f''), (10, CHR ''n''), (13, CHR ''r''),
      (9, CHR ''t''), (11, CHR ''v'')}"
    using map_of_SomeD [OF assms] by (simp add: short_escapes_def)
  then consider "r = 7" "c = CHR ''a''" | "r = 8" "c = CHR ''b''" | "r = 12" "c = CHR ''f''"
    | "r = 10" "c = CHR ''n''" | "r = 13" "c = CHR ''r''" | "r = 9" "c = CHR ''t''" | "r = 11" "c = CHR ''v''"
    by blast
  then show ?thesis by cases (simp_all add: eval_simps encode_rune_def)
qed

lemma escape_hex:
  assumes "r \<noteq> byte quote_mark" "r \<noteq> byte backslash" "\<not> is_print printable r" "map_of short_escapes r = None"
    and "r < 1114112"
  obtains l k where "escape_rune printable r = [backslash, l] @ hex_pad k r"
    "\<And>t. unescape l (hex_pad k r @ t) = Some (encode_rune r, k)"
proof -
  have num: "hex_num (take k (hex_pad k r @ t)) = Some r" if "r < 16 ^ k" for k t
    using hex_num_pad [OF that] by simp
  consider "r < 32 \<or> r = 127" | "\<not> (r < 32 \<or> r = 127)" "r < 65536" | "\<not> (r < 32 \<or> r = 127)" "\<not> r < 65536"
    by blast
  then show thesis
  proof cases
    case 1
    then show thesis using assms num [of 2] that [of "CHR ''x''" 2]
      by (auto simp: escape_rune_def unescape_def quote_mark_def backslash_def encode_rune_def)
  next
    case 2
    then show thesis using assms num [of 4] that [of "CHR ''u''" 4]
      by (auto simp: escape_rune_def unescape_def quote_mark_def backslash_def)
  next
    case 3
    then show thesis using assms num [of 8] that [of "CHR ''U''" 8]
      by (auto simp: escape_rune_def unescape_def quote_mark_def backslash_def)
  qed
qed

lemma unquote_rune:
  assumes "r < 1114112"
  shows "unquote_body (escape_rune printable r @ t) = map_option (prepend (encode_rune r)) (unquote_body t)"
proof -
  consider "r = byte quote_mark \<or> r = byte backslash"
    | "r \<noteq> byte quote_mark" "r \<noteq> byte backslash" "is_print printable r"
    | c where "map_of short_escapes r = Some c"
    | "r \<noteq> byte quote_mark" "r \<noteq> byte backslash" "\<not> is_print printable r" "map_of short_escapes r = None"
    by (cases "map_of short_escapes r") auto
  then show ?thesis
  proof cases
    case 1
    then obtain c where c: "r = byte c" "c = quote_mark \<or> c = backslash" by blast
    then have "byte c < 128" by (auto simp: quote_mark_def backslash_def)
    then have e: "encode_rune r = [c]" by (simp add: c(1) encode_rune_def)
    have "unescape c ([] @ t) = Some ([c], length [])" using c(2) by (simp add: unescape_def)
    from unquote_escape [OF this] show ?thesis using 1 e by (simp add: escape_rune_def c(1))
  next
    case 2
    have "c \<notin> set (encode_rune r)" if "r \<noteq> byte c" "byte c < 128" for c
    proof (cases "r < 128")
      case True
      then show ?thesis using that by (auto simp: encode_rune_def byte_char_of)
    next
      case False
      then show ?thesis using encode_rune_high [of r c] assms that(2) by auto
    qed
    then show ?thesis using 2 unquote_plain [of "encode_rune r" t]
      by (simp add: escape_rune_def quote_mark_def backslash_def)
  next
    case 3
    then show ?thesis using short_escape_cases [OF 3] unquote_escape [of c "[]" t "encode_rune r"] by simp
  next
    case 4
    from escape_hex [OF this assms] obtain l k where
      "escape_rune printable r = [backslash, l] @ hex_pad k r"
      "unescape l (hex_pad k r @ t) = Some (encode_rune r, length (hex_pad k r))" by (metis length_hex_pad)
    then show ?thesis using unquote_escape [of l "hex_pad k r" t "encode_rune r"] by simp
  qed
qed

lemma unquote_byte:
  "unquote_body ([backslash, CHR ''x''] @ hex_pad 2 (byte c) @ t) = map_option (prepend [c]) (unquote_body t)"
proof -
  have "hex_num (take 2 (hex_pad 2 (byte c) @ t)) = Some (byte c)"
    using hex_num_pad [of "byte c" 2] byte_less [of c] by simp
  then have "unescape CHR ''x'' (hex_pad 2 (byte c) @ t) = Some ([c], length (hex_pad 2 (byte c)))"
    by (simp add: unescape_def quote_mark_def backslash_def)
  from unquote_escape [OF this] show ?thesis by simp
qed

lemma unquote_body_quote: "unquote_body (quote_body printable s @ quote_mark # t) = Some (s, t)"
proof (induction printable s rule: quote_body.induct)
  case (1 printable)
  then show ?case by simp
next
  case (2 printable c s)
  show ?case
  proof (cases "decode_rune (c # s)")
    case None
    then show ?thesis using 2(1) unquote_byte [of c] by simp
  next
    case (Some rw)
    obtain r w where rw: "rw = (r, w)" by fastforce
    note d = decode_rune_encode [OF Some [unfolded rw]]
    have "drop (w - 1) s = drop w (c # s)" using d by (cases w) simp_all
    then have "encode_rune r @ drop (w - 1) s = c # s" using d by (metis append_take_drop_id)
    then show ?thesis using 2(2) [OF Some rw [symmetric]] unquote_rune [of r printable] d Some rw by simp
  qed
qed

theorem unquote_Quote: "unquote (Quote printable s @ t) = Some (s, t)"
  by (simp add: unquote_def Quote_def unquote_body_quote)

end
