(* ===== verification/Logging.thy ===== *)
theory Logging
  imports GoQuote GoTime GoJson "HOL-Library.List_Lexorder" "HOL-Library.Char_ord"
begin

text \<open>
  The structured logger, \<open>internal/logging/logger.go\<close>: levels and formats, the fields a logger
  carries, and the records it writes. A time is the number of nanoseconds since 1970. A record in
  JSON form is the map given to the encoder. A value that is none of the types the code looks for
  is what \<open>fmt.Sprint\<close> makes of it and what \<open>json.Marshal\<close> does, if it does not fail.
\<close>

subsection \<open>Levels and formats\<close>

type_synonym level = int

definition LevelDebug :: level where "LevelDebug = 0"
definition LevelInfo :: level where "LevelInfo = 1"
definition LevelWarn :: level where "LevelWarn = 2"
definition LevelError :: level where "LevelError = 3"

definition level_String :: "level \<Rightarrow> string" where
  "level_String l =
     (if l = LevelDebug then ''debug'' else if l = LevelInfo then ''info''
      else if l = LevelWarn then ''warn'' else if l = LevelError then ''error'' else ''info'')"

definition ParseLevel :: "string \<Rightarrow> level \<times> bool" where
  "ParseLevel s =
     (let v = ToLower (TrimSpace s) in
      if v = ''debug'' then (LevelDebug, True)
      else if v = ''info'' \<or> v = [] then (LevelInfo, True)
      else if v = ''warn'' \<or> v = ''warning'' then (LevelWarn, True)
      else if v = ''error'' then (LevelError, True)
      else (LevelInfo, False))"

datatype log_format = FormatText | FormatJSON | FormatEmpty

definition ParseFormat :: "string \<Rightarrow> log_format \<times> bool" where
  "ParseFormat s =
     (let v = ToLower (TrimSpace s) in
      if v = ''text'' \<or> v = [] then (FormatText, True)
      else if v = ''json'' then (FormatJSON, True)
      else (FormatText, False))"

subsection \<open>Loggers\<close>

datatype log_value =
    NilValue
  | ErrorValue string
  | StringValue string
  | BytesValue string
  | TimeValue int
  | OtherValue string "json option"

record log_field =
  fd_key :: string
  fd_value :: log_value

definition F :: "string \<Rightarrow> log_value \<Rightarrow> log_field" where
  "F key value = \<lparr>fd_key = TrimSpace key, fd_value = value\<rparr>"

record logger =
  lg_level :: level
  lg_format :: log_format
  lg_base :: "log_field list"

definition New :: "level \<Rightarrow> log_format \<Rightarrow> logger" where
  "New level format =
     \<lparr>lg_level = level, lg_format = (if format = FormatEmpty then FormatText else format), lg_base = []\<rparr>"

text \<open>A logger may be nil; the zero options have the level debug.\<close>

definition With :: "logger option \<Rightarrow> log_field list \<Rightarrow> logger" where
  "With l flds =
     (case l of None \<Rightarrow> New LevelDebug FormatEmpty | Some l \<Rightarrow> l\<lparr>lg_base := lg_base l @ flds\<rparr>)"

text \<open>\<open>newLogger\<close> of \<open>cmd/server/main.go\<close>.\<close>

definition newLogger :: "(string \<Rightarrow> string) \<Rightarrow> logger" where
  "newLogger env = New (fst (ParseLevel (env ''EOSRIFT_LOG_LEVEL''))) (fst (ParseFormat (env ''EOSRIFT_LOG_FORMAT'')))"

subsection \<open>Records\<close>

text \<open>\<open>Format(time.RFC3339Nano)\<close>: a fraction without trailing zeros, none when it is zero.\<close>

definition rfc3339nano :: "int \<Rightarrow> string" where
  "rfc3339nano t =
     (let ns = t mod 1000000000;
          frac = (if ns = 0 then [] else ''.'' @ rev (dropWhile (\<lambda>c. c = CHR ''0'') (rev (pad_zero 9 ns))))
      in butlast (rfc3339 (t div 1000000000)) @ frac @ ''Z'')"

definition formatTextValue :: "(nat \<Rightarrow> bool) \<Rightarrow> log_value \<Rightarrow> string" where
  "formatTextValue printable v =
     (case v of
        NilValue \<Rightarrow> ''null''
      | ErrorValue s \<Rightarrow> Quote printable s
      | StringValue s \<Rightarrow> Quote printable s
      | BytesValue s \<Rightarrow> Quote printable s
      | TimeValue t \<Rightarrow> Quote printable (rfc3339nano t)
      | OtherValue s _ \<Rightarrow>
          if list_ex (\<lambda>c. c \<in> set [CHR '' '', CHR 0x09, CHR 0x0A, CHR 0x0D]) s then Quote printable s else s)"

definition jsonValue :: "log_value \<Rightarrow> json" where
  "jsonValue v =
     (case v of
        NilValue \<Rightarrow> JNull
      | ErrorValue s \<Rightarrow> JStr s
      | StringValue s \<Rightarrow> JStr s
      | BytesValue s \<Rightarrow> JStr s
      | TimeValue t \<Rightarrow> JStr (rfc3339nano t)
      | OtherValue s j \<Rightarrow> (case j of None \<Rightarrow> JStr s | Some x \<Rightarrow> x))"

definition addJSONField :: "log_field \<Rightarrow> (string \<times> json) list \<Rightarrow> (string \<times> json) list" where
  "addJSONField f m =
     (let key = TrimSpace (fd_key f) in if key = [] then m else map_put key (jsonValue (fd_value f)) m)"

definition text_field :: "(nat \<Rightarrow> bool) \<Rightarrow> log_field \<Rightarrow> string" where
  "text_field printable f =
     (let key = TrimSpace (fd_key f)
      in if key = [] then [] else '' '' @ key @ ''='' @ formatTextValue printable (fd_value f))"

definition newline :: char where "newline = CHR 0x0A"

definition text_line :: "(nat \<Rightarrow> bool) \<Rightarrow> string \<Rightarrow> level \<Rightarrow> string \<Rightarrow> log_field list \<Rightarrow> string" where
  "text_line printable ts level msg flds =
     ts @ '' level='' @ level_String level @ '' msg='' @ Quote printable msg
     @ concat (map (text_field printable) (sort_key fd_key flds)) @ [newline]"

definition json_record :: "string \<Rightarrow> level \<Rightarrow> string \<Rightarrow> log_field list \<Rightarrow> (string \<times> json) list" where
  "json_record ts level msg flds =
     fold addJSONField flds
       (map_put ''msg'' (JStr msg) (map_put ''level'' (JStr (level_String level)) (map_put ''ts'' (JStr ts) [])))"

datatype log_record = TextLine string | JsonRecord "(string \<times> json) list"

text \<open>One call under the lock: what it writes, if anything.\<close>

definition log_call ::
  "(nat \<Rightarrow> bool) \<Rightarrow> logger option \<Rightarrow> int \<Rightarrow> level \<Rightarrow> string \<Rightarrow> log_field list \<Rightarrow> log_record option" where
  "log_call printable l now level msg flds =
     (case l of
        None \<Rightarrow> None
      | Some l \<Rightarrow>
          if level < lg_level l then None
          else
            (let ts = rfc3339nano now in
             Some (case lg_format l of
                     FormatJSON \<Rightarrow> JsonRecord (json_record ts level msg (lg_base l @ flds))
                   | _ \<Rightarrow> TextLine (text_line printable ts level msg (lg_base l @ flds)))))"

abbreviation Debug where "Debug printable l now msg flds \<equiv> log_call printable l now LevelDebug msg flds"
abbreviation Info where "Info printable l now msg flds \<equiv> log_call printable l now LevelInfo msg flds"
abbreviation Warn where "Warn printable l now msg flds \<equiv> log_call printable l now LevelWarn msg flds"
abbreviation Error where "Error printable l now msg flds \<equiv> log_call printable l now LevelError msg flds"

lemmas [eval_simps] =
  LevelDebug_def LevelInfo_def LevelWarn_def LevelError_def level_String_def ParseLevel_def ParseFormat_def F_def
  New_def With_def newLogger_def formatTextValue_def jsonValue_def addJSONField_def text_field_def
  newline_def text_line_def json_record_def log_call_def

subsection \<open>Reading a line back\<close>

text \<open>The reader of a text line: a value is quoted or extends to the next blank.\<close>

definition bare :: "char \<Rightarrow> bool" where
  "bare c \<longleftrightarrow> c \<noteq> CHR '' '' \<and> c \<noteq> newline"

definition read_value :: "string \<Rightarrow> (string \<times> string) option" where
  "read_value s =
     (if s \<noteq> [] \<and> hd s = quote_mark then unquote s else Some (takeWhile bare s, dropWhile bare s))"

text \<open>The fields up to the end of the line; the first argument bounds their number.\<close>

fun read_fields :: "nat \<Rightarrow> string \<Rightarrow> (string \<times> string) list option" where
  "read_fields 0 s = None"
| "read_fields (Suc n) s =
     (if s = [newline] then Some []
      else if HasPrefix s '' '' then
        (let key = takeWhile (\<lambda>c. c \<noteq> CHR ''='') (tl s); s1 = dropWhile (\<lambda>c. c \<noteq> CHR ''='') (tl s) in
         case read_value (tl s1) of
           None \<Rightarrow> None
         | Some (v, s2) \<Rightarrow> map_option ((#) (key, v)) (read_fields n s2))
      else None)"

definition read_line :: "string \<Rightarrow> (string \<times> string \<times> string \<times> (string \<times> string) list) option" where
  "read_line s =
     (let ts = takeWhile bare s; s1 = dropWhile bare s in
      if \<not> HasPrefix s1 '' level='' then None
      else
        (let s2 = TrimPrefix s1 '' level=''; level = takeWhile bare s2; s3 = dropWhile bare s2 in
         if \<not> HasPrefix s3 '' msg='' then None
         else
           (case unquote (TrimPrefix s3 '' msg='') of
              None \<Rightarrow> None
            | Some (msg, s4) \<Rightarrow> map_option (\<lambda>fs. (ts, level, msg, fs)) (read_fields (Suc (length s4)) s4))))"

text \<open>What a field says, and the fields a line can show: a key without blanks and equals signs (all
  keys of the program are such), and a printed value that does not pretend to be quoted.\<close>

definition value_text :: "log_value \<Rightarrow> string" where
  "value_text v =
     (case v of
        NilValue \<Rightarrow> ''null'' | ErrorValue s \<Rightarrow> s | StringValue s \<Rightarrow> s | BytesValue s \<Rightarrow> s
      | TimeValue t \<Rightarrow> rfc3339nano t | OtherValue s _ \<Rightarrow> s)"

definition plain_key :: "string \<Rightarrow> bool" where
  "plain_key k \<longleftrightarrow> k \<noteq> [] \<and> TrimSpace k = k \<and> list_all (\<lambda>c. c \<noteq> CHR ''='' \<and> bare c) k"

definition plain_field :: "log_field \<Rightarrow> bool" where
  "plain_field f \<longleftrightarrow> plain_key (fd_key f)
     \<and> (case fd_value f of OtherValue s _ \<Rightarrow> s = [] \<or> hd s \<noteq> quote_mark | _ \<Rightarrow> True)"

lemma read_quoted: "read_value (Quote printable s @ t) = Some (s, t)"
proof -
  have "Quote printable s @ t \<noteq> [] \<and> hd (Quote printable s @ t) = quote_mark" by (simp add: Quote_def)
  then show ?thesis by (simp only: read_value_def unquote_Quote simp_thms if_True)
qed

lemma takeWhile_stop: "list_all P u \<Longrightarrow> \<not> P c \<Longrightarrow> takeWhile P (u @ c # t) = u \<and> dropWhile P (u @ c # t) = c # t"
  by (induction u) simp_all

lemma read_bare:
  assumes "list_all bare u" "u = [] \<or> hd u \<noteq> quote_mark" "c = CHR '' '' \<or> c = newline"
  shows "read_value (u @ c # t) = Some (u, c # t)"
proof -
  have "c \<noteq> quote_mark" using assms(3) by (auto simp: newline_def quote_mark_def)
  then have "hd (u @ c # t) \<noteq> quote_mark" using assms(2) by (cases u) auto
  moreover have "\<not> bare c" using assms(3) by (auto simp: bare_def)
  ultimately show ?thesis using takeWhile_stop [OF assms(1)] by (simp add: read_value_def)
qed

lemma read_formatted:
  assumes "plain_field f" "c = CHR '' '' \<or> c = newline"
  shows "read_value (formatTextValue printable (fd_value f) @ c # t) = Some (value_text (fd_value f), c # t)"
proof (cases "fd_value f")
  case NilValue
  have "list_all bare ''null''" by (simp add: bare_def newline_def)
  then show ?thesis using read_bare [of "''null''" c t] assms(2)
    by (simp add: NilValue formatTextValue_def value_text_def quote_mark_def)
next
  case (OtherValue s j)
  show ?thesis
  proof (cases "list_ex (\<lambda>c. c \<in> set [CHR '' '', CHR 0x09, CHR 0x0A, CHR 0x0D]) s")
    case True
    then show ?thesis by (simp add: OtherValue formatTextValue_def value_text_def read_quoted del: list.set)
  next
    case False
    then have "list_all bare s" by (auto simp: list_ex_iff list_all_iff bare_def newline_def)
    then show ?thesis using False read_bare [of s c t] assms
      by (simp add: OtherValue formatTextValue_def value_text_def plain_field_def del: list.set)
  qed
qed (simp_all add: formatTextValue_def value_text_def read_quoted)

lemma read_text_fields:
  assumes "list_all plain_field fs" "length fs < n"
  shows "read_fields n (concat (map (text_field printable) fs) @ [newline])
    = Some (map (\<lambda>f. (fd_key f, value_text (fd_value f))) fs)"
  using assms
proof (induction fs arbitrary: n)
  case Nil
  then show ?case by (cases n) simp_all
next
  case (Cons f fs)
  then obtain m where n: "n = Suc m" "length fs < m" by (cases n) auto
  let ?rest = "concat (map (text_field printable) fs) @ [newline]"
  obtain c t where rest: "?rest = c # t" "c = CHR '' '' \<or> c = newline"
  proof (cases fs)
    case (Cons g gs)
    then have "plain_key (fd_key g)" using Cons.prems by (simp add: plain_field_def)
    then show thesis using that Cons by (auto simp: text_field_def plain_key_def)
  qed (use that in auto)
  have k: "plain_key (fd_key f)" "plain_field f" using Cons.prems by (simp_all add: plain_field_def)
  then have "list_all (\<lambda>c. c \<noteq> CHR ''='') (fd_key f)" by (auto simp: plain_key_def list_all_iff)
  note key = takeWhile_stop [OF this, of "CHR ''=''"]
  have "concat (map (text_field printable) (f # fs)) @ [newline]
      = CHR '' '' # fd_key f @ CHR ''='' # formatTextValue printable (fd_value f) @ c # t"
    using k rest(1) by (simp add: text_field_def plain_key_def)
  moreover have "read_fields m (c # t) = Some (map (\<lambda>f. (fd_key f, value_text (fd_value f))) fs)"
    using Cons.IH [of m] Cons.prems n(2) rest(1) by simp
  ultimately show ?case
    using key read_formatted [OF k(2) rest(2), of printable t]
    by (simp add: n(1) newline_def HasPrefix_def)
qed


subsection \<open>One line each\<close>

lemma quote_visible: "c \<in> set (Quote printable s) \<Longrightarrow> 32 \<le> byte c"
proof -
  have hex: "32 \<le> byte c" if "c \<in> set (hex_pad k n)" for k n c
  proof -
    have "32 \<le> byte (hex_digit (m mod 16))" for m
      using mod_less_divisor [of 16 m] by (auto simp: hex_digit_def byte_char_of)
    with that show ?thesis by (induction k arbitrary: n) auto
  qed
  have short: "32 \<le> byte c" if "map_of short_escapes r = Some c" for r c
    using that by (auto simp: short_escapes_def split: if_splits)
  have rune: "32 \<le> byte c" if "c \<in> set (encode_rune r)" "is_print printable r" "r < 1114112" for r printable
  proof (cases "r < 128")
    case True
    then show ?thesis using that by (auto simp: encode_rune_def is_print_def byte_char_of)
  next
    case False
    then show ?thesis using encode_rune_high [of r c] that by auto
  qed
  have escape: "32 \<le> byte c" if "c \<in> set (escape_rune printable r)" "r < 1114112" for r printable
    using that rune [OF _ _ that(2)] short [of r] hex
    by (auto simp: escape_rune_def backslash_def quote_mark_def byte_char_of split: if_splits option.splits)
  have "32 \<le> byte c" if "c \<in> set (quote_body printable s)"
    using that
  proof (induction printable s rule: quote_body.induct)
    case (1 printable)
    then show ?case by simp
  next
    case (2 printable d s)
    show ?case
    proof (cases "decode_rune (d # s)")
      case None
      then show ?thesis using 2 hex [of c 2 "byte d"] by (auto simp: backslash_def)
    next
      case (Some rw)
      obtain r w where rw: "rw = (r, w)" by fastforce
      have "r < 1114112" using decode_rune_encode [OF Some [unfolded rw]] by simp
      then show ?thesis using 2(2) [OF Some rw [symmetric]] 2(3) Some rw escape by auto
    qed
  qed
  then show "c \<in> set (Quote printable s) \<Longrightarrow> 32 \<le> byte c" by (auto simp: Quote_def quote_mark_def)
qed


lemma quote_one_line: "newline \<notin> set (Quote printable s)"
  using quote_visible [of newline printable s] by (auto simp: newline_def)

lemma Itoa_bare: "list_all bare (Itoa n)"
proof -
  have "bare c" if "is_digit c" for c using that by (auto simp: is_digit_def bare_def newline_def)
  moreover have "bare CHR ''-''" by (simp add: bare_def newline_def)
  ultimately show ?thesis using dec_digits_digit by (auto simp: Itoa_def list_all_iff)
qed

lemma bare_one_line: "list_all bare u \<Longrightarrow> newline \<notin> set u"
  by (auto simp: list_all_iff bare_def)

lemma pad_zero_bare: "list_all bare (pad_zero w n)"
  using Itoa_bare [of n] by (simp add: pad_zero_def Let_def) (simp add: list_all_iff bare_def newline_def)

lemma rfc3339_bare: "list_all bare (rfc3339 t)"
  using pad_zero_bare by (simp add: rfc3339_def Let_def split: prod.split) (simp add: bare_def newline_def)

lemma rfc3339nano_bare: "list_all bare (rfc3339nano t)"
proof -
  have "list_all bare (butlast (rfc3339 u))" for u
    using rfc3339_bare [of u] by (auto simp: list_all_iff dest: in_set_butlastD)
  moreover have "list_all bare (rev (dropWhile (\<lambda>c. c = CHR ''0'') (rev (pad_zero 9 n))))" for n
    using pad_zero_bare [of 9 n] by (auto simp: list_all_iff dest: set_dropWhileD)
  moreover have "bare CHR ''.''" "bare CHR ''Z''" by (simp_all add: bare_def newline_def)
  ultimately show ?thesis by (simp add: rfc3339nano_def Let_def)
qed

lemma level_bare: "list_all bare (level_String l)"
  by (simp add: level_String_def) (simp add: bare_def newline_def)

lemma field_one_line: "plain_field f \<Longrightarrow> newline \<notin> set (text_field printable f)"
proof -
  assume "plain_field f"
  then have "newline \<notin> set (fd_key f)" by (auto simp: plain_field_def plain_key_def list_all_iff bare_def)
  moreover have "newline \<notin> set (formatTextValue printable (fd_value f))"
    using quote_one_line
    by (auto simp: formatTextValue_def list_ex_iff newline_def split: log_value.splits)
  ultimately show ?thesis
    using \<open>plain_field f\<close> by (auto simp: text_field_def plain_field_def plain_key_def newline_def)
qed

subsection \<open>Properties\<close>

text \<open>C38: what a text record says cannot be forged. When a logger of the text format lets a record
  through, it writes one line, whose only line break is at its end, and a reader gets back from it the
  time, the level, the message and the fields of the logger and of the call in the order of their
  keys, whatever bytes the message and the values of the fields hold (line breaks, quotes, invalid
  UTF-8, text that looks like other fields).\<close>

theorem log_line_reads_back:
  assumes "list_all plain_field (lg_base l @ flds)" and "lg_format l = FormatText" and "lg_level l \<le> level"
  shows "\<exists>line. log_call printable (Some l) now level msg flds = Some (TextLine (line @ [newline]))
    \<and> newline \<notin> set line
    \<and> read_line (line @ [newline]) = Some (rfc3339nano now, level_String level, msg,
         map (\<lambda>f. (fd_key f, value_text (fd_value f))) (sort_key fd_key (lg_base l @ flds)))"
proof -
  let ?fs = "sort_key fd_key (lg_base l @ flds)"
  define tail where "tail = concat (map (text_field printable) ?fs) @ [newline]"
  have plain: "list_all plain_field ?fs" using assms(1) by (simp add: list_all_iff)
  define line where "line = rfc3339nano now @ '' level='' @ level_String level @ '' msg='' @ Quote printable msg
      @ concat (map (text_field printable) ?fs)"
  have "log_call printable (Some l) now level msg flds = Some (TextLine (line @ [newline]))"
    using assms(2,3) by (simp add: log_call_def Let_def text_line_def line_def)
  moreover have "newline \<notin> set line"
  proof -
    have "newline \<notin> set (concat (map (text_field printable) ?fs))"
      using plain field_one_line by (simp add: list_all_iff)
    moreover have "newline \<notin> set '' level=''" "newline \<notin> set '' msg=''" by (simp_all add: newline_def)
    ultimately show ?thesis
      using bare_one_line [OF rfc3339nano_bare] bare_one_line [OF level_bare] quote_one_line
      unfolding line_def set_append Un_iff by blast
  qed
  moreover have "length ?fs < Suc (length tail)"
  proof -
    have "length fs \<le> length (concat (map (text_field printable) fs))" if "list_all plain_field fs" for fs
      using that by (induction fs) (auto simp: text_field_def plain_field_def plain_key_def)
    from this [OF plain] show ?thesis by (simp add: tail_def)
  qed
  then have "read_fields (Suc (length tail)) tail = Some (map (\<lambda>f. (fd_key f, value_text (fd_value f))) ?fs)"
    unfolding tail_def using read_text_fields [OF plain] by blast
  moreover have "line @ [newline] = rfc3339nano now @ CHR '' '' # ''level='' @ level_String level @ CHR '' '' # ''msg=''
      @ Quote printable msg @ tail" by (simp add: line_def tail_def)
  moreover have "\<not> bare CHR '' ''" by (simp add: bare_def)
  ultimately show ?thesis
    using takeWhile_stop [OF rfc3339nano_bare] takeWhile_stop [OF level_bare] unquote_Quote
    by (intro exI [of _ line]) (simp add: read_line_def HasPrefix_def TrimPrefix_def)
qed


definition last_field :: "string \<Rightarrow> log_field list \<Rightarrow> log_field option" where
  "last_field k fs = find (\<lambda>f. TrimSpace (fd_key f) = k \<and> k \<noteq> []) (rev fs)"

lemma map_of_map_put: "map_of (map_put k v m) = (map_of m)(k \<mapsto> v)"
  by (induction k v m rule: map_put.induct) auto

lemma map_of_add_fields:
  "map_of (fold addJSONField fs m) k
    = (case last_field k fs of Some f \<Rightarrow> Some (jsonValue (fd_value f)) | None \<Rightarrow> map_of m k)"
  by (induction fs rule: rev_induct)
    (auto simp: last_field_def addJSONField_def Let_def map_of_map_put)

text \<open>a JSON record holds the last word on every key. The value under a key is that of the last
  field of the logger and of the call with this key, whether or not it is one of the three
  standing ones; without such a field it is the time, the level or the message, or there is none. A
  field with an empty key is left out.\<close>

theorem json_record_fields:
  "map_of (json_record ts level msg fs) k =
     (case last_field k fs of
        Some f \<Rightarrow> Some (jsonValue (fd_value f))
      | None \<Rightarrow>
          if k = ''ts'' then Some (JStr ts) else if k = ''level'' then Some (JStr (level_String level))
          else if k = ''msg'' then Some (JStr msg) else None)"
  by (simp add: json_record_def map_of_add_fields map_of_map_put split: option.split)

text \<open>loggers derived by \<open>With\<close> only add fields, so that a record passes for the derived logger exactly
  when it passes for the first one; the levels of the environment are ordered.\<close>

lemma With_keeps_level:
  "log_call printable (Some (With (Some l) flds)) now level msg [] \<noteq> None
    \<longleftrightarrow> log_call printable (Some l) now level msg flds \<noteq> None"
  by (simp add: log_call_def With_def Let_def)

subsection \<open>Witnesses\<close>

definition demo_logger :: logger where
  "demo_logger = With (Some (New LevelInfo FormatText)) [F ''app'' (StringValue ''eosrift-server'')]"

definition forged :: string where
  "forged = ''ok'' @ [newline, quote_mark] @ '' level=error''"

theorem log_line_reads_back_witness:
  "\<exists>line. log_call (\<lambda>_. True) (Some demo_logger) 0 LevelWarn forged [F ''addr'' (StringValue forged)]
       = Some (TextLine (line @ [newline]))
     \<and> read_line (line @ [newline]) = Some (rfc3339nano 0, ''warn'', forged,
          [(''addr'', forged), (''app'', ''eosrift-server'')])"
proof -
  have keys: "TrimSpace ''app'' = ''app''" "TrimSpace ''addr'' = ''addr''" by (simp_all add: eval_simps)
  have order: "''addr'' \<le> (''app'' :: string)" "\<not> (''app'' :: string) \<le> ''addr''" by (simp_all add: less_char_def)
  have plain: "list_all plain_field (lg_base demo_logger @ [F ''addr'' (StringValue forged)])"
    by (simp add: demo_logger_def With_def New_def F_def keys plain_field_def plain_key_def)
      (simp add: bare_def newline_def)
  have level: "lg_format demo_logger = FormatText" "lg_level demo_logger \<le> LevelWarn" "level_String LevelWarn = ''warn''"
    by (simp_all add: demo_logger_def With_def New_def eval_simps)
  have sorted: "map (\<lambda>f. (fd_key f, value_text (fd_value f)))
      (sort_key fd_key (lg_base demo_logger @ [F ''addr'' (StringValue forged)]))
    = [(''addr'', forged), (''app'', ''eosrift-server'')]"
    using order by (simp add: demo_logger_def With_def New_def F_def keys value_text_def)
  from log_line_reads_back [OF plain level(1,2), of "\<lambda>_. True" 0 forged] show ?thesis
    unfolding sorted level(3) by blast
qed

end
