(* ===== verification/GoDuration.thy ===== *)
theory GoDuration
  imports Complex_Main GoStrconv
begin

text \<open>
  \<open>time.ParseDuration\<close>, with \<open>rnd\<close> the rounding of its floating-point operations on a
  fraction, and \<open>strings.Fields\<close>. A duration is an integer of nanoseconds.
\<close>

subsection \<open>time.ParseDuration\<close>

text \<open>The digits of a number: an error above \<open>2^63\<close>; the digits of a fraction: what does not fit is
  dropped. Both return the rest.\<close>

fun leadingInt :: "nat \<Rightarrow> string \<Rightarrow> (nat \<times> string) option" where
  "leadingInt x [] = Some (x, [])"
| "leadingInt x (c # s) =
     (if \<not> is_digit c then Some (x, c # s)
      else if x > 2 ^ 63 div 10 then None
      else if x * 10 + digit_val c > 2 ^ 63 then None
      else leadingInt (x * 10 + digit_val c) s)"

fun leadingFraction :: "bool \<Rightarrow> nat \<Rightarrow> nat \<Rightarrow> string \<Rightarrow> nat \<times> nat \<times> string" where
  "leadingFraction overflow x scale [] = (x, scale, [])"
| "leadingFraction overflow x scale (c # s) =
     (if \<not> is_digit c then (x, scale, c # s)
      else if overflow \<or> x > (2 ^ 63 - 1) div 10 \<or> x * 10 + digit_val c > 2 ^ 63
      then leadingFraction True x scale s
      else leadingFraction False (x * 10 + digit_val c) (scale * 10) s)"

definition unitMap :: "(string \<times> nat) list" where
  "unitMap =
     [(''ns'', 1), (''us'', 1000), ([CHR 0xC2, CHR 0xB5, CHR ''s''], 1000), ([CHR 0xCE, CHR 0xBC, CHR ''s''], 1000),
      (''ms'', 1000000), (''s'', 1000000000), (''m'', 60 * 1000000000), (''h'', 3600 * 1000000000)]"

definition number_byte :: "char \<Rightarrow> bool" where
  "number_byte c \<longleftrightarrow> is_digit c \<or> c = CHR ''.''"

text \<open>The fraction after a point, if there is one: its digits, their scale, whether there were any, and
  the rest.\<close>

definition fraction_part :: "string \<Rightarrow> nat \<times> nat \<times> bool \<times> string" where
  "fraction_part s =
     (if s \<noteq> [] \<and> hd s = CHR ''.'' then
        (case leadingFraction False 0 1 (tl s) of (f, scale, r) \<Rightarrow> (f, scale, length r \<noteq> length (tl s), r))
      else (0, 1, False, s))"

text \<open>One number with its unit: its nanoseconds and the rest.\<close>

definition duration_term :: "(rat \<Rightarrow> rat) \<Rightarrow> string \<Rightarrow> (nat \<times> string) option" where
  "duration_term rnd s =
     (if \<not> (s \<noteq> [] \<and> number_byte (hd s)) then None
      else
        (case leadingInt 0 s of
           None \<Rightarrow> None
         | Some (v, s1) \<Rightarrow>
             (let pre = length s1 \<noteq> length s;
                  (f, scale, post, s2) = fraction_part s1;
                  u = takeWhile (\<lambda>c. \<not> number_byte c) s2
              in
              if \<not> pre \<and> \<not> post then None
              else if u = [] then None
              else
                (case map_of unitMap u of
                   None \<Rightarrow> None
                 | Some unit \<Rightarrow>
                     if v > 2 ^ 63 div unit then None
                     else
                       (let n = v * unit
                              + (if f > 0 then nat \<lfloor>rnd (rnd (of_nat f) * rnd (of_nat unit / of_nat scale))\<rfloor> else 0)
                        in if n > 2 ^ 63 then None else Some (n, drop (length u) s2))))))"

lemma leadingInt_rest: "leadingInt x s = Some (v, r) \<Longrightarrow> length r \<le> length s"
  by (induction x s rule: leadingInt.induct) (auto split: if_splits)

lemma leadingFraction_rest: "leadingFraction b x sc s = (f, k, r) \<Longrightarrow> length r \<le> length s"
  by (induction b x sc s rule: leadingFraction.induct) (auto split: if_splits)

lemma fraction_part_rest: "fraction_part s = (f, k, b, r) \<Longrightarrow> length r \<le> length s"
  using leadingFraction_rest [of False 0 1 "tl s"]
  by (cases s) (fastforce simp: fraction_part_def split: if_splits prod.splits)+

lemma duration_term_shorter:
  assumes "duration_term rnd s = Some (n, r)"
  shows "length r < length s"
proof -
  obtain v s1 where v: "leadingInt 0 s = Some (v, s1)"
    using assms by (auto simp: duration_term_def split: if_splits option.splits)
  obtain f sc post s2 where p: "fraction_part s1 = (f, sc, post, s2)" by (rule prod_cases4)
  define u where "u = takeWhile (\<lambda>c. \<not> number_byte c) s2"
  have "u \<noteq> [] \<and> r = drop (length u) s2"
    using assms v p by (auto simp: duration_term_def Let_def u_def split: if_splits option.splits)
  moreover from this have "s2 \<noteq> []" by (auto simp: u_def)
  ultimately have "length r < length s2" by (simp add: diff_less)
  then show ?thesis using leadingInt_rest [OF v] fraction_part_rest [OF p] by simp
qed

text \<open>The sum is kept in 64 bits.\<close>

function duration_loop :: "(rat \<Rightarrow> rat) \<Rightarrow> nat \<Rightarrow> string \<Rightarrow> nat option" where
  "duration_loop rnd d s =
     (if s = [] then Some d
      else (case duration_term rnd s of
              None \<Rightarrow> None
            | Some (n, r) \<Rightarrow>
                (let d' = (d + n) mod 2 ^ 64 in if d' > 2 ^ 63 then None else duration_loop rnd d' r)))"
  by pat_completeness auto
termination by (relation "measure (\<lambda>(rnd, d, s). length s)") (auto dest: duration_term_shorter)

declare duration_loop.simps [simp del]

definition ParseDuration :: "(rat \<Rightarrow> rat) \<Rightarrow> string \<Rightarrow> int option" where
  "ParseDuration rnd s =
     (let neg = s \<noteq> [] \<and> hd s = CHR ''-'';
          s = (if s \<noteq> [] \<and> (hd s = CHR ''-'' \<or> hd s = CHR ''+'') then tl s else s)
      in
      if s = ''0'' then Some 0
      else if s = [] then None
      else
        (case duration_loop rnd 0 s of
           None \<Rightarrow> None
         | Some d \<Rightarrow>
             if neg then Some (- int d)
             else if d > 2 ^ 63 - 1 then None else Some (int d)))"


subsection \<open>strings.Fields\<close>

fun next_word :: "string \<Rightarrow> string" where
  "next_word [] = []"
| "next_word (c # s) = (if starts_with_any space_runes (c # s) = None then c # next_word s else [])"

function Fields :: "string \<Rightarrow> string list" where
  "Fields s =
     (if s = [] then []
      else (case starts_with_any space_runes s of
              Some r \<Rightarrow> Fields (drop (length r) s)
            | None \<Rightarrow> next_word s # Fields (drop (length (next_word s)) s)))"
  by pat_completeness auto
termination
proof (relation "measure length")
  show "(drop (length r) s, s) \<in> measure length" if "s \<noteq> []" "starts_with_any space_runes s = Some r" for s r
    using that starts_with_any_Some [OF that(2)] by (simp add: diff_less)
  show "(drop (length (next_word s)) s, s) \<in> measure length" if "s \<noteq> []" "starts_with_any space_runes s = None" for s
    using that by (cases s) (simp_all add: less_Suc_eq_le)
qed simp

declare Fields.simps [simp del]

lemmas [eval_simps] =
  unitMap_def number_byte_def fraction_part_def duration_term_def duration_loop.simps ParseDuration_def

lemma duration_loop_bound: "duration_loop rnd d s = Some n \<Longrightarrow> d \<le> 2 ^ 63 \<Longrightarrow> n \<le> 2 ^ 63"
proof (induction rnd d s rule: duration_loop.induct)
  case (1 rnd d s)
  show ?case
  proof (cases "s = []")
    case True
    then show ?thesis using 1(2,3) by (simp add: duration_loop.simps)
  next
    case False
    then obtain m r where m: "duration_term rnd s = Some (m, r)" "\<not> (d + m) mod 2 ^ 64 > 2 ^ 63"
      "duration_loop rnd ((d + m) mod 2 ^ 64) r = Some n"
      using 1(2) by (subst (asm) duration_loop.simps) (auto simp: Let_def split: option.splits if_splits)
    from 1(1) [OF False m(1) refl refl m(2) m(3)] m(2) show ?thesis by simp
  qed
qed

lemma ParseDuration_int64: "ParseDuration rnd s = Some d \<Longrightarrow> int64_range d"
  using duration_loop_bound [of rnd 0]
  by (auto simp: ParseDuration_def Let_def int64_range_def split: if_splits option.splits)

end
