(* ===== verification/DeployMain.thy ===== *)
theory DeployMain
  imports Deployhook GoTime GoDuration
begin

text \<open>
  The deploy webhook program, \<open>cmd/deployhook/main.go\<close>: its configuration from the
  environment, and what it runs for a deployment. The environment is a function (the empty string
  for a variable that is not set), \<open>rnd\<close> the rounding of a floating-point operation. The HTTP
  server and the signals are not modelled, the command is its environment and how it ends.
\<close>

subsection \<open>The program\<close>

definition hook_getenv :: "(string \<Rightarrow> string) \<Rightarrow> string \<Rightarrow> string \<Rightarrow> string" where
  "hook_getenv env key fallback = (let v = TrimSpace (env key) in if v = [] then fallback else v)"

definition parseDuration :: "(rat \<Rightarrow> rat) \<Rightarrow> string \<Rightarrow> int \<Rightarrow> int" where
  "parseDuration rnd value fallback =
     (case ParseDuration rnd (TrimSpace value) of
        None \<Rightarrow> fallback
      | Some d \<Rightarrow> if d \<le> 0 then fallback else d)"

record hook_program =
  hp_listen :: string
  hp_handler :: hook_config
  hp_command :: string
  hp_args :: "string list"

text \<open>The start up to the server; an error is the text of \<open>logger.Fatal\<close>.\<close>

definition hook_main :: "(rat \<Rightarrow> rat) \<Rightarrow> (string \<Rightarrow> string) \<Rightarrow> hook_program result" where
  "hook_main rnd env =
     (let secret = TrimSpace (env ''EOSRIFT_DEPLOY_WEBHOOK_SECRET'') in
      if secret = [] then Inl (Msg ''EOSRIFT_DEPLOY_WEBHOOK_SECRET is required'')
      else
        (let listenAddr = hook_getenv env ''EOSRIFT_DEPLOY_WEBHOOK_LISTEN_ADDR'' '':8091'';
             workflowName = hook_getenv env ''EOSRIFT_DEPLOY_WEBHOOK_WORKFLOW'' ''Docker Image'';
             branch = hook_getenv env ''EOSRIFT_DEPLOY_WEBHOOK_BRANCH'' ''main'';
             repository = TrimSpace (env ''EOSRIFT_DEPLOY_WEBHOOK_REPOSITORY'');
             timeout = parseDuration rnd (hook_getenv env ''EOSRIFT_DEPLOY_TIMEOUT'' ''10m'') (10 * 60 * 1000000000);
             command = hook_getenv env ''EOSRIFT_DEPLOY_COMMAND'' ''/workspace/deploy/webhook/eosrift-deploy.sh'';
             commandArgs = Fields (TrimSpace (env ''EOSRIFT_DEPLOY_COMMAND_ARGS''))
         in bind_res (NewDeployHandler \<lparr>hc_secret = secret, hc_workflow_name = workflowName, hc_branch = branch,
                        hc_repository = repository, hc_timeout = timeout\<rparr> True)
              (\<lambda>h. Inr \<lparr>hp_listen = listenAddr, hp_handler = h, hp_command = command, hp_args = commandArgs\<rparr>)))"

text \<open>The environment of the command: the program's own (\<open>os.Environ()\<close>), then the data of the run.
  \<open>now\<close> is the Unix time.\<close>

definition run_variables :: "deploy_run \<Rightarrow> int \<Rightarrow> (string \<times> string) list" where
  "run_variables run now =
     [(''EOSRIFT_DEPLOY_RUN_ID'', Itoa (run_id run)),
      (''EOSRIFT_DEPLOY_REPOSITORY'', run_repository run),
      (''EOSRIFT_DEPLOY_WORKFLOW'', run_workflow run),
      (''EOSRIFT_DEPLOY_BRANCH'', run_branch run),
      (''EOSRIFT_DEPLOY_SHA'', run_sha run),
      (''EOSRIFT_DEPLOY_RUN_URL'', run_url run),
      (''EOSRIFT_DEPLOY_STARTED_AT'', rfc3339 now)]"

definition command_env :: "string list \<Rightarrow> deploy_run \<Rightarrow> int \<Rightarrow> string list" where
  "command_env environ run now = environ @ map (\<lambda>(k, v). k @ ''='' @ v) (run_variables run now)"

text \<open>The result of the trigger: how the command ended and whether the context's deadline had passed.\<close>

definition trigger_result :: "unit result \<Rightarrow> bool \<Rightarrow> unit result" where
  "trigger_result ended deadline =
     (case ended of
        Inr _ \<Rightarrow> Inr ()
      | Inl e \<Rightarrow> if deadline then Inl (Msg ''deploy command timed out'') else Inl e)"

lemmas [eval_simps] =
  hook_getenv_def parseDuration_def hook_main_def run_variables_def command_env_def trigger_result_def

subsection \<open>What the command sees\<close>

text \<open>\<open>exec.Cmd\<close> passes the last value given for a name.\<close>

definition env_lookup :: "string list \<Rightarrow> string \<Rightarrow> string option" where
  "env_lookup es k = map_option (\<lambda>e. drop (Suc (length k)) e) (find (\<lambda>e. HasPrefix e (k @ ''='')) (rev es))"

lemma parseDuration_ok:
  assumes "0 < fallback" "int64_range fallback"
  shows "0 < parseDuration rnd value fallback \<and> int64_range (parseDuration rnd value fallback)"
  using assms ParseDuration_int64 by (auto simp: parseDuration_def split: option.split)

lemma hook_main_Inr:
  assumes "hook_main rnd env = Inr p"
  shows "hc_secret (hp_handler p) = TrimSpace (env ''EOSRIFT_DEPLOY_WEBHOOK_SECRET'')"
    and "hc_branch (hp_handler p) = hook_getenv env ''EOSRIFT_DEPLOY_WEBHOOK_BRANCH'' ''main''"
    and "hc_repository (hp_handler p) = TrimSpace (env ''EOSRIFT_DEPLOY_WEBHOOK_REPOSITORY'')"
    and "0 < hc_timeout (hp_handler p)" and "int64_range (hc_timeout (hp_handler p))"
proof -
  have ten: "0 < (10 * 60 * 1000000000 :: int)" "int64_range (10 * 60 * 1000000000)" by (simp_all add: int64_range_def)
  note d = parseDuration_ok [OF ten, of rnd "hook_getenv env ''EOSRIFT_DEPLOY_TIMEOUT'' ''10m''"]
  have given: "TrimSpace (hook_getenv env k v) \<noteq> []" if "TrimSpace v \<noteq> []" for k v
    using that by (simp add: hook_getenv_def Let_def)
  have main: "TrimSpace ''main'' \<noteq> []" by (simp add: eval_simps)
  show "hc_secret (hp_handler p) = TrimSpace (env ''EOSRIFT_DEPLOY_WEBHOOK_SECRET'')"
    and "hc_branch (hp_handler p) = hook_getenv env ''EOSRIFT_DEPLOY_WEBHOOK_BRANCH'' ''main''"
    and "hc_repository (hp_handler p) = TrimSpace (env ''EOSRIFT_DEPLOY_WEBHOOK_REPOSITORY'')"
    and "0 < hc_timeout (hp_handler p)" and "int64_range (hc_timeout (hp_handler p))"
    using assms d given [OF main, of "''EOSRIFT_DEPLOY_WEBHOOK_BRANCH''"]
    by (auto simp: hook_main_def Let_def NewDeployHandler_def split: if_splits)
qed

lemma find_unique: "x \<in> set xs \<Longrightarrow> P x \<Longrightarrow> \<forall>y\<in>set xs. P y \<longrightarrow> y = x \<Longrightarrow> find P xs = Some x"
proof (induction xs)
  case (Cons a xs)
  show ?case
  proof (cases "P a")
    case True
    then have "a = x" using Cons.prems(3) by simp
    then show ?thesis using True by simp
  next
    case False
    then have "x \<in> set xs" using Cons.prems(1,2) by auto
    then have "find P xs = Some x" by (rule Cons.IH [OF _ Cons.prems(2)]) (meson Cons.prems(3) list.set_intros(2))
    then show ?thesis using False by simp
  qed
qed simp

lemma find_front: "find P xs = Some x \<Longrightarrow> find P (xs @ ys) = Some x"
  by (induction xs) (simp_all split: if_splits)

lemma key_prefix:
  assumes "CHR ''='' \<notin> set k" "CHR ''='' \<notin> set k'" "HasPrefix (k' @ ''='' @ v) (k @ ''='')"
  shows "k' = k"
  using assms
proof (induction k arbitrary: k')
  case Nil
  then show ?case by (cases k') (auto simp: HasPrefix_def)
next
  case (Cons c k)
  then show ?case by (cases k') (auto simp: HasPrefix_def)
qed

lemma env_lookup_set:
  assumes "(k, v) \<in> set vs" "distinct (map fst vs)" "\<forall>p\<in>set vs. CHR ''='' \<notin> set (fst p)"
  shows "env_lookup (environ @ map (\<lambda>(k, v). k @ ''='' @ v) vs) k = Some v"
proof -
  let ?P = "\<lambda>e. HasPrefix e (k @ ''='')" and ?es = "map (\<lambda>(k, v). k @ ''='' @ v) vs"
  have "find ?P (rev ?es) = Some (k @ ''='' @ v)"
  proof (rule find_unique)
    show "k @ ''='' @ v \<in> set (rev ?es)" using assms(1) by force
    show "?P (k @ ''='' @ v)" by (simp add: HasPrefix_def)
    show "\<forall>y\<in>set (rev ?es). ?P y \<longrightarrow> y = k @ ''='' @ v"
    proof (intro ballI impI)
      fix y assume "y \<in> set (rev ?es)" and y: "?P y"
      then obtain k' v' where p: "(k', v') \<in> set vs" "y = k' @ ''='' @ v'" by auto
      then have "k' = k" using key_prefix [of k k' v'] y assms(1,3) by fastforce
      then have "v' = v" using p(1) assms(1,2) by (metis eq_key_imp_eq_value)
      with p(2) \<open>k' = k\<close> show "y = k @ ''='' @ v" by simp
    qed
  qed
  then have "find ?P (rev ?es @ rev environ) = Some (k @ ''='' @ v)"
    by (rule find_front)
  then show ?thesis by (simp add: env_lookup_def)
qed

lemma run_variable_seen:
  "(k, v) \<in> set (run_variables run now) \<Longrightarrow> env_lookup (command_env environ run now) k = Some v"
  unfolding command_env_def by (rule env_lookup_set) (simp_all add: run_variables_def)

lemma serve_matches:
  assumes "serve_delivery hmac parse h r body running = (resp, Some run, running')"
  shows "run_branch run = hc_branch h \<and> (hc_repository h \<noteq> [] \<longrightarrow> run_repository run = hc_repository h)
    \<and> run_workflow run = hc_workflow_name h"
proof -
  obtain v where "match_run h v = Inr run"
    using assms by (auto simp: serve_delivery_def Let_def split: if_splits sum.splits option.splits)
  then show ?thesis by (auto simp: match_run_def Let_def split: if_splits)
qed

text \<open>the deploy command runs with the data of an authentic run. Whatever environment the program was
  started in, when a delivery starts a run, its payload was signed, in its own header, with the secret of the
  environment, and the command sees the commit, the number and the branch of that run: the branch is
  the configured one (\<open>main\<close> when none is), the repository the configured one if there is one, and
  the variables the program inherited under these names are not seen. The run is bounded by a
  positive time.\<close>

theorem deploy_command_authentic:
  assumes "hook_main rnd env = Inr p"
    and "serve_delivery hmac parse (hp_handler p) r body running = (resp, Some run, running')"
  shows "(\<exists>payload. body = Inr payload \<and> authentic_run hmac parse (hp_handler p) r payload run)
    \<and> hc_secret (hp_handler p) = TrimSpace (env ''EOSRIFT_DEPLOY_WEBHOOK_SECRET'')
    \<and> env_lookup (command_env environ run now) ''EOSRIFT_DEPLOY_SHA'' = Some (run_sha run)
    \<and> env_lookup (command_env environ run now) ''EOSRIFT_DEPLOY_RUN_ID'' = Some (Itoa (run_id run))
    \<and> env_lookup (command_env environ run now) ''EOSRIFT_DEPLOY_BRANCH''
        = Some (hook_getenv env ''EOSRIFT_DEPLOY_WEBHOOK_BRANCH'' ''main'')
    \<and> (TrimSpace (env ''EOSRIFT_DEPLOY_WEBHOOK_REPOSITORY'') \<noteq> [] \<longrightarrow>
        env_lookup (command_env environ run now) ''EOSRIFT_DEPLOY_REPOSITORY''
          = Some (TrimSpace (env ''EOSRIFT_DEPLOY_WEBHOOK_REPOSITORY'')))
    \<and> 0 < hc_timeout (hp_handler p)"
proof -
  have seen: "(''EOSRIFT_DEPLOY_SHA'', run_sha run) \<in> set (run_variables run now)"
    "(''EOSRIFT_DEPLOY_RUN_ID'', Itoa (run_id run)) \<in> set (run_variables run now)"
    "(''EOSRIFT_DEPLOY_BRANCH'', run_branch run) \<in> set (run_variables run now)"
    "(''EOSRIFT_DEPLOY_REPOSITORY'', run_repository run) \<in> set (run_variables run now)"
    by (simp_all add: run_variables_def)
  show ?thesis
    using serve_starts [OF assms(2)] serve_matches [OF assms(2)] hook_main_Inr [OF assms(1)]
      seen [THEN run_variable_seen] by simp
qed


text \<open>An unreadable, negative or overflowing duration falls back to the default.\<close>

lemma timeout_samples:
  "parseDuration rnd ''-5m'' d = d" "parseDuration rnd ''5'' d = d" "parseDuration rnd ''1h30m'' d = 5400000000000"
  "parseDuration rnd ''9223372036854775808ns'' d = d" "parseDuration rnd ''10m'' d = 600000000000"
  by (simp_all add: eval_simps digit_val_def is_digit_def)

subsection \<open>Witnesses\<close>

definition demo_env :: "string \<Rightarrow> string" where
  "demo_env k = (if k = ''EOSRIFT_DEPLOY_WEBHOOK_SECRET'' then ''k'' else [])"

lemma demo_main: "\<exists>p. hook_main rnd demo_env = Inr p \<and> hp_handler p = demo_hook"
proof -
  have t: "TrimSpace ''k'' = ''k''" "TrimSpace ''Docker Image'' = ''Docker Image''" "TrimSpace ''main'' = ''main''"
    "TrimSpace [] = []" by (simp_all add: eval_simps)
  show ?thesis
    by (simp add: hook_main_def demo_env_def t NewDeployHandler_def hook_getenv_def timeout_samples demo_hook_def)
qed

theorem deploy_command_authentic_witness:
  "\<exists>run. authentic_run (\<lambda>k m. k) (\<lambda>s. Some demo_event_json) demo_hook demo_delivery [] run
     \<and> env_lookup (command_env [''EOSRIFT_DEPLOY_BRANCH=other''] run 0) ''EOSRIFT_DEPLOY_BRANCH'' = Some ''main''"
proof -
  obtain p where p: "hook_main id demo_env = Inr p" "hp_handler p = demo_hook" using demo_main by blast
  obtain run where "serve_delivery (\<lambda>k m. k) (\<lambda>s. Some demo_event_json) (hp_handler p) demo_delivery (Inr []) False
      = (accepted_with ''accepted'', Some run, True)" using demo_started p(2) by auto
  from deploy_command_authentic [OF p(1) this, of "[''EOSRIFT_DEPLOY_BRANCH=other'']" 0]
  have "authentic_run (\<lambda>k m. k) (\<lambda>s. Some demo_event_json) demo_hook demo_delivery [] run"
    "env_lookup (command_env [''EOSRIFT_DEPLOY_BRANCH=other''] run 0) ''EOSRIFT_DEPLOY_BRANCH''
      = Some (hook_getenv demo_env ''EOSRIFT_DEPLOY_WEBHOOK_BRANCH'' ''main'')" by (simp_all add: p(2))
  moreover have "hook_getenv demo_env ''EOSRIFT_DEPLOY_WEBHOOK_BRANCH'' ''main'' = ''main''"
    by (simp add: hook_getenv_def demo_env_def)
  ultimately show ?thesis by auto
qed

end
