(* ===== verification/WellTyped.thy ===== *)
theory WellTyped
  imports Sessions
begin

text \<open>
  The form of the entries of the registry: what the options of a tunnel have been checked for when
  it was admitted holds of every registered tunnel as long as it is registered, under any
  interleaving of connections. The proxy relies on this when it applies the options of an entry.
  The id of an entry is a label of a host name, so the URL of the reply leads back to it.
\<close>

subsection \<open>Well-formed entries\<close>

definition header_name_ok :: "string \<Rightarrow> bool" where
  "header_name_ok n \<longleftrightarrow> n \<noteq> [] \<and> list_all token_byte n \<and> CanonicalHeaderKey n = n \<and> n \<notin> set disallowed_names"

definition header_add_ok :: "header_add \<Rightarrow> bool" where
  "header_add_ok h \<longleftrightarrow> header_name_ok (ha_name h) \<and> length (ha_value h) \<le> 8192
     \<and> list_all safe_value_byte (ha_value h)"

definition method_ok :: "string \<Rightarrow> bool" where
  "method_ok m \<longleftrightarrow> m \<noteq> [] \<and> list_all token_byte m \<and> ToUpper m = m"

definition path_ok :: "string \<Rightarrow> bool" where
  "path_ok p \<longleftrightarrow> HasPrefix p ''/'' \<and> \<not> ContainsAny p ''?#'' \<and> isSafePathValue p"

definition prefix_ok :: "ipprefix \<Rightarrow> bool" where
  "prefix_ok p \<longleftrightarrow> valid_prefix p \<and> Masked p = p"

definition credential_ok :: "credential \<Rightarrow> bool" where
  "credential_ok c \<longleftrightarrow> cred_username c \<noteq> [] \<and> CHR '':'' \<notin> set (cred_username c)"

definition all_ok :: "('a \<Rightarrow> bool) \<Rightarrow> 'a list \<Rightarrow> bool" where
  "all_ok P xs \<longleftrightarrow> length xs \<le> 64 \<and> list_all P xs"

definition options_ok :: "http_tunnel_options \<Rightarrow> bool" where
  "options_ok t \<longleftrightarrow> pred_option credential_ok (opt_basic_auth t)
     \<and> all_ok prefix_ok (opt_allow_cidrs t) \<and> all_ok prefix_ok (opt_deny_cidrs t)
     \<and> all_ok method_ok (opt_allow_methods t)
     \<and> all_ok path_ok (opt_allow_paths t) \<and> all_ok path_ok (opt_allow_path_prefixes t)
     \<and> all_ok header_add_ok (opt_request_header_add t) \<and> all_ok header_name_ok (opt_request_header_remove t)
     \<and> all_ok header_add_ok (opt_response_header_add t) \<and> all_ok header_name_ok (opt_response_header_remove t)"

definition entry_ok :: "http_tunnel_entry \<Rightarrow> bool" where
  "entry_ok e \<longleftrightarrow> (\<exists>c t. e = make_entry c t \<and> options_ok t)"

lemma all_ok_map_res:
  assumes "map_res f xs = Inr ys" and "\<And>x y. f x = Inr y \<Longrightarrow> P y" and "int (length xs) \<le> 64"
  shows "all_ok P ys"
  using assms map_res_range [OF assms(1)] map_res_length [OF assms(1)]
  by (fastforce simp: all_ok_def list_all_iff)

lemma Index_char_take: "Index s [c] = Some i \<Longrightarrow> c \<notin> set (take i s)"
proof (induction s arbitrary: i)
  case Nil
  then show ?case by simp
next
  case (Cons d s)
  then show ?case by (cases "d = c") auto
qed

lemma parseBasicAuthCredential_ok: "parseBasicAuthCredential s = Inr c \<Longrightarrow> pred_option credential_ok c"
  using set_TrimSpace
  by (fastforce simp: parseBasicAuthCredential_def Let_def Cut_def credential_ok_def
      dest: Index_char_take split: if_splits option.splits)

lemma header_name_entry_ok: "NormalizeHeaderName field raw = Inr n \<Longrightarrow> header_name_ok n"
  by (auto simp: NormalizeHeaderName_Inr header_name_ok_def)

lemma header_kv_entry_ok: "header_kv_entry field kv = Inr h \<Longrightarrow> header_add_ok h"
  by (auto simp: header_kv_entry_def result_simps header_add_ok_def ValidateHeaderValue_Inr
      intro: header_name_entry_ok)

lemma method_entry_ok: "method_entry field raw = Inr m \<Longrightarrow> method_ok m"
  by (auto simp: method_entry_Inr method_ok_def)

lemma path_entry_ok: "path_entry field raw = Inr p \<Longrightarrow> path_ok p"
  by (auto simp: path_entry_Inr path_ok_def)

lemma cidr_entry_ok: "cidr_entry field v = Inr p \<Longrightarrow> prefix_ok p"
  using cidr_entry_props by (auto simp: prefix_ok_def)

lemma list_parsers_ok:
  "ParseCIDRList field cs 64 = Inr ps \<Longrightarrow> all_ok prefix_ok ps"
  "ParseHTTPMethodList field ms 64 = Inr ms' \<Longrightarrow> all_ok method_ok ms'"
  "ParsePathList field ds 64 = Inr ds' \<Longrightarrow> all_ok path_ok ds'"
  "parseHeaderNameList field ns = Inr ns' \<Longrightarrow> all_ok header_name_ok ns'"
  "parseHeaderKVList field kvs = Inr hs \<Longrightarrow> all_ok header_add_ok hs"
  by (auto simp: ParseCIDRList_def ParseHTTPMethodList_def ParsePathList_def parseHeaderNameList_def
      parseHeaderKVList_def too_many_def maxHeaderTransformEntries_def all_ok_def [of _ "[]"] split: if_splits
      elim!: all_ok_map_res intro: cidr_entry_ok method_entry_ok path_entry_ok header_name_entry_ok header_kv_entry_ok)

lemma parse_options_well_formed: "parse_options req = Inr t \<Longrightarrow> options_ok t"
  by (auto simp: parse_options_def result_simps options_ok_def maxCIDREntries_def maxAllowlistEntries_def
      intro: list_parsers_ok parseBasicAuthCredential_ok)

subsection \<open>Keys\<close>

lemma claimed_key_label:
  assumes "subdomain_held db sub = Some t"
  shows "valid_label (registry_key sub)"
proof -
  obtain k where "subdomain_key sub = Some k" using assms by (auto simp: subdomain_held_def split: option.splits)
  then show ?thesis
    by (auto simp: subdomain_key_def normalizeSubdomain_Inr registry_key_def TrimSpace_ToLower split: sum.splits)
qed

lemma resolved_key_label:
  assumes "resolve_tunnel_id cfg (auth_dependencies sha flts now) env t req db = (Inr i, db')"
  shows "valid_label (registry_key i)"
proof (cases "TrimSpace (http_domain req) = [] \<and> TrimSpace (http_subdomain req) = []")
  case True
  then have "AllocateID (env_random env) (env_tables env) = Inr i"
    using assms by (auto simp: resolve_tunnel_id_def split: sum.splits)
  then have "valid_label i" using allocate_loop_Inr id_valid_label by (auto simp: AllocateID_def)
  then show ?thesis by (simp add: valid_label_key)
next
  case False
  then obtain db1 where "claim_key (rsv_subdomain_owner (auth_reservations flts now))
      (rsv_reserve_subdomain (auth_reservations flts now)) (env_others env) t i db = (Claimed, db1)"
    using assms
    by (auto simp: resolve_tunnel_id_def auth_dependencies_def Let_def split: if_splits option.splits prod.splits claim.splits)
  from claimed_key_label [OF subdomain_claims.claimed_is_held [OF this]] show ?thesis .
qed

text \<open>C23: the URL a client is given leads back to it. Whenever an HTTP tunnel is established on the auth store
  (under an allocated id, a claimed subdomain or a claimed domain, with whatever failures and operations of
  others), and the tunnel domain is a lower-case host name with or without a final dot, the reply's URL is
  \<open>https://\<close> and a host which the routing maps to an id whose entry is the one just registered: its session is this
  connection.\<close>

theorem tunnel_url_routes_back:
  assumes "establish_http cfg (auth_dependencies sha flts now) env conn req t sv = ((HttpCreated i u, tun), sv')"
    and "cfg_tunnel_domain cfg = d \<or> cfg_tunnel_domain cfg = d @ ''.''" and "domain_name d"
  shows "\<exists>host k e. u = ''https://'' @ host \<and> tunnelIDFromHost host (cfg_tunnel_domain cfg) = Some k
    \<and> GetHTTPTunnel (sv_registry sv') k = Some e \<and> ent_session e = conn"
proof -
  obtain db where "resolve_tunnel_id cfg (auth_dependencies sha flts now) env t (http_request_of req) (sv_db sv) = (Inr i, db)"
    using assms(1) by (auto simp: establish_http_def split: sum.splits prod.splits)
  from url_routes_back [OF assms resolved_key_label [OF this]] show ?thesis .
qed

theorem tunnel_url_routes_back_witness:
  "\<exists>host k e. tunnel_url demo_cfg ''aaaaaaaa'' = ''https://'' @ host
    \<and> tunnelIDFromHost host (cfg_tunnel_domain demo_cfg) = Some k
    \<and> GetHTTPTunnel (sv_registry (snd (establish_http demo_cfg demo_deps demo_env 4 (demo_req ''http'' 0 [])
        0 (demo_server demo_db)))) k = Some e \<and> ent_session e = 4"
proof -
  let ?r = "establish_http demo_cfg demo_deps demo_env 4 (demo_req ''http'' 0 []) 0 (demo_server demo_db)"
  have "AllocateID (env_random demo_env) (env_tables demo_env) = Inr ''aaaaaaaa''"
    by (simp add: demo_env_def eval_simps)
  moreover have "registry_key ''aaaaaaaa'' = ''aaaaaaaa''" by (simp add: eval_simps)
  ultimately have "fst ?r = (HttpCreated ''aaaaaaaa'' (tunnel_url demo_cfg ''aaaaaaaa''), Some (HttpTunnel ''aaaaaaaa''))"
    using demo_options [of "''http''" 0 "[]"] \<open>registry_key ''aaaaaaaa'' = ''aaaaaaaa''\<close>
    by (auto simp: establish_http_def resolve_tunnel_id_def
        demo_server_def RegisterHTTPTunnel_def NewTunnelRegistry_def)
  then have run: "?r = ((HttpCreated ''aaaaaaaa'' (tunnel_url demo_cfg ''aaaaaaaa''), Some (HttpTunnel ''aaaaaaaa'')), snd ?r)"
    by (metis prod.collapse)
  have "domain_name ''tunnel.example.com''"
    by (simp add: domain_name_def domain_byte_def eval_simps)
  from tunnel_url_routes_back [OF run [unfolded demo_deps_def] _ this] show ?thesis by (simp add: demo_cfg_def demo_deps_def)
qed

subsection \<open>Every step keeps the registry well formed\<close>

definition registry_ok :: "registry \<Rightarrow> bool" where
  "registry_ok reg \<longleftrightarrow> (\<forall>k e. reg k = Some e \<longrightarrow> valid_label k \<and> entry_ok e)"

lemma establish_registry_ok:
  assumes "establish cfg (auth_dependencies sha flts now) env c req t sv = ((r, tun), sv')"
    and "registry_ok (sv_registry sv)"
  shows "registry_ok (sv_registry sv')"
proof (cases tun)
  case None
  then show ?thesis using assms establish_None by metis
next
  case (Some tn)
  show ?thesis
  proof (cases tn)
    case (TcpTunnel p)
    then show ?thesis using assms Some establish_Tcp by metis
  next
    case (HttpTunnel i)
    obtain db opts where r: "resolve_tunnel_id cfg (auth_dependencies sha flts now) env t (http_request_of req) (sv_db sv) = (Inr i, db)"
      and o: "parse_options (http_request_of req) = Inr opts"
      and reg: "RegisterHTTPTunnel (sv_registry sv) i (Some c) opts = (Inr (), sv_registry sv')"
      using assms(1) Some HttpTunnel
      by (auto simp: establish_def establish_tcp_def establish_http_def
          split: if_splits prod.splits option.splits sum.splits)
    from reg have "sv_registry sv' = (sv_registry sv)(registry_key i \<mapsto> make_entry c opts)"
      by (auto simp: RegisterHTTPTunnel_def Let_def split: if_splits)
    then show ?thesis
      using assms(2) resolved_key_label [OF r] parse_options_well_formed [OF o] by (auto simp: registry_ok_def entry_ok_def)
  qed
qed

lemma close_registry_ok: "registry_ok (sv_registry sv) \<Longrightarrow> registry_ok (sv_registry (close_tunnel tun sv))"
  by (cases "(tun, sv)" rule: close_tunnel.cases)
    (auto simp: registry_ok_def UnregisterHTTPTunnel_def Let_def split: if_splits)

lemma step_registry_ok:
  assumes "system_step cfg (auth_dependencies sha flts now) s s'" and "registry_ok (sv_registry (sys_server s))"
  shows "registry_ok (sv_registry (sys_server s'))"
  using assms(1)
proof (cases rule: system_step.cases)
  case (refuse c env msg r sl sv)
  then have "sv_registry sv = sv_registry (sys_server s)"
    using admit_frame [of cfg "auth_dependencies sha flts now" env msg "sys_server s"] by simp
  then show ?thesis using refuse(1) assms(2) by (simp add: set_session_def)
next
  case (admit c env msg req t x sv)
  then have "sv_registry sv = sv_registry (sys_server s)"
    using admit_frame [of cfg "auth_dependencies sha flts now" env msg "sys_server s"] by simp
  then show ?thesis using admit(1) assms(2) by (simp add: set_session_def)
next
  case (fail c req t x env r sv)
  then show ?thesis using establish_registry_ok [OF fail(3) assms(2)] by (simp add: set_session_def)
next
  case (live c req t x env r tun sv)
  then show ?thesis using establish_registry_ok [OF live(3) assms(2)] by (simp add: set_session_def)
next
  case (close c tun t x)
  then show ?thesis using close_registry_ok [OF assms(2)] by (simp add: set_session_def)
qed (use assms(2) in \<open>simp_all add: set_session_def begin_connection_def end_connection_def\<close>)


lemma reachable_registry_ok:
  assumes "reachable cfg (auth_dependencies sha flts now) s"
  shows "registry_ok (sv_registry (sys_server s))"
proof -
  obtain start db where run: "(system_step cfg (auth_dependencies sha flts now))\<^sup>*\<^sup>* (new_system start db) s"
    using assms by (auto simp: reachable_def)
  then show ?thesis
  proof (induction rule: rtranclp_induct)
    case base
    show ?case by (simp add: new_system_def new_server_def registry_ok_def NewTunnelRegistry_def)
  next
    case (step s s')
    from step_registry_ok [OF step.hyps(2) step.IH] show ?case .
  qed
qed

subsection \<open>Properties\<close>

text \<open>C4: registered tunnels are well formed. In every state the server can reach with the auth store,
  whatever connections do and in whatever order, the key of a registered tunnel is a DNS label in
  lower case, and its options are what the validation promises: at most 64 entries in each list,
  upper-case method tokens, absolute paths without query, fragment, blanks or control bytes, masked
  prefixes, canonical header names that are no hop-by-hop headers, header values without line breaks,
  and a user name that is neither empty nor holds a colon.\<close>

theorem registered_tunnels_well_formed:
  assumes "reachable cfg (auth_dependencies sha flts now) s"
    and "sv_registry (sys_server s) k = Some e"
  shows "valid_label k \<and> entry_ok e"
  using reachable_registry_ok [OF assms(1)] assms(2) by (simp add: registry_ok_def)

text \<open>The entry without its header transforms.\<close>

definition untransformed :: "http_tunnel_entry \<Rightarrow> http_tunnel_entry" where
  "untransformed e = e\<lparr>ent_request_header_add := [], ent_request_header_remove := [],
     ent_response_header_add := [], ent_response_header_remove := []\<rparr>"

lemma header_name_other:
  assumes "header_name_ok k" "n \<in> set disallowed_names"
  shows "CanonicalHeaderKey (TrimSpace k) \<noteq> n"
  using assms TrimSpace_token by (auto simp: header_name_ok_def)

lemma transforms_keep:
  assumes "all_ok header_add_ok add" "all_ok header_name_ok remove" "n \<in> set disallowed_names"
  shows "applyHeaderTransforms h remove add n = h n"
proof (rule transforms_other)
  show "\<forall>kv\<in>set add. \<not> add_for n kv"
    using assms(1,3) header_name_other by (auto simp: add_for_def all_ok_def list_all_iff header_add_ok_def)
  show "\<forall>k\<in>set remove. \<not> remove_for n k"
    using assms(2,3) header_name_other by (auto simp: remove_for_def all_ok_def list_all_iff)
qed

text \<open>C24: a tunnel cannot touch the framing of messages. For every tunnel the server can have registered,
  the headers that frame a message or belong to one connection (Connection, Transfer-Encoding,
  Content-Length, Upgrade, Host and the others of the list) leave the proxy towards the upstream,
  and back towards the client, as they would without the header transforms of the tunnel.\<close>

theorem transforms_keep_framing:
  assumes "reachable cfg (auth_dependencies sha flts now) s"
    and "GetHTTPTunnel (sv_registry (sys_server s)) i = Some e" and "n \<in> set disallowed_names"
  shows "rq_header (outgoing_request cfg e r) n = rq_header (outgoing_request cfg (untransformed e) r) n
    \<and> rs_header (modify_response e resp) n = rs_header (modify_response (untransformed e) resp) n"
proof -
  have "entry_ok e"
    using reachable_registry_ok [OF assms(1)] assms(2)
    by (auto simp: registry_ok_def GetHTTPTunnel_def Let_def split: if_splits)
  then have ok: "all_ok header_add_ok (ent_request_header_add e)" "all_ok header_name_ok (ent_request_header_remove e)"
    "all_ok header_add_ok (ent_response_header_add e)" "all_ok header_name_ok (ent_response_header_remove e)"
    by (auto simp: entry_ok_def options_ok_def make_entry_def)
  have none: "all_ok P []" for P :: "'x \<Rightarrow> bool" by (simp add: all_ok_def)
  show ?thesis
    using transforms_keep [OF ok(1,2) assms(3)] transforms_keep [OF ok(3,4) assms(3)]
      transforms_keep [OF none none assms(3)]
    by (simp add: outgoing_request_def rewrite_header_def modify_response_def untransformed_def Let_def)
qed

subsection \<open>Witnesses\<close>

lemma demo_registered:
  "\<exists>s e. reachable limit_cfg demo_deps s \<and> sv_registry (sys_server s) ''my-app'' = Some e"
proof -
  obtain s where s: "reachable limit_cfg demo_deps s"
    "sys_sessions s = [4 \<mapsto> Live (HttpTunnel ''my-app'') 1 (Lease 0)]"
    using demo_live by blast
  have "registry_agrees (tunnels_of (sys_sessions s)) (sv_registry (sys_server s))"
    using reachable_inv [OF s(1)] by (simp add: system_inv_def)
  from registry_agrees_live [OF this, of 4 "''my-app''"] s demo_trim show ?thesis by (auto simp: tunnels_of_def)
qed

theorem registered_tunnels_well_formed_witness:
  "\<exists>s e. reachable limit_cfg demo_deps s \<and> sv_registry (sys_server s) ''my-app'' = Some e
     \<and> valid_label ''my-app'' \<and> entry_ok e"
proof -
  obtain s e where s: "reachable limit_cfg demo_deps s" "sv_registry (sys_server s) ''my-app'' = Some e"
    using demo_registered by blast
  from registered_tunnels_well_formed [OF s(1) [unfolded demo_deps_def] s(2)] s show ?thesis by blast
qed

theorem transforms_keep_framing_witness:
  "\<exists>s e. reachable limit_cfg demo_deps s \<and> GetHTTPTunnel (sv_registry (sys_server s)) ''my-app'' = Some e
     \<and> rs_header (modify_response e (status_only 200)) ''Connection''
       = rs_header (modify_response (untransformed e) (status_only 200)) ''Connection''"
proof -
  obtain s e where s: "reachable limit_cfg demo_deps s" "sv_registry (sys_server s) ''my-app'' = Some e"
    using demo_registered by blast
  then have g: "GetHTTPTunnel (sv_registry (sys_server s)) ''my-app'' = Some e"
    using demo_trim by (simp add: GetHTTPTunnel_def)
  have "''Connection'' \<in> set disallowed_names" by (simp add: disallowed_names_def)
  from transforms_keep_framing [OF s(1) [unfolded demo_deps_def] g this] s(1) g show ?thesis by blast
qed

end
