(* ===== verification/EndToEnd.thy ===== *)
theory EndToEnd
  imports WellTyped
begin

text \<open>
  The server from the visitor to the owner: the public handler of
  \<open>internal/server/http_tunnel.go\<close> in a state the connections of
  \<open>internal/server/control.go\<close> have reached. Every entry of the registry is traced back to
  the admission of the connection that made it.
\<close>

subsection \<open>Runs and the story of a session\<close>

text \<open>A run of the server: every state from the start on. A reachable state is the last of a run.\<close>

inductive system_run :: "config \<Rightarrow> 'db dependencies \<Rightarrow> 'db system list \<Rightarrow> bool" for cfg deps where
  start: "system_run cfg deps [new_system now db]"
| more: "system_run cfg deps ss \<Longrightarrow> system_step cfg deps (last ss) s \<Longrightarrow> system_run cfg deps (ss @ [s])"

lemma system_run_not_empty: "system_run cfg deps ss \<Longrightarrow> ss \<noteq> []"
  by (induction rule: system_run.induct) simp_all

lemma run_reachable: "system_run cfg deps ss \<Longrightarrow> reachable cfg deps (last ss)"
  by (induction rule: system_run.induct) (auto simp: reachable_def intro: rtranclp.rtrancl_into_rtrancl)

lemma reachable_run: "reachable cfg deps s \<Longrightarrow> \<exists>ss. system_run cfg deps ss \<and> last ss = s"
  unfolding reachable_def
proof (elim exE)
  fix now db assume "(system_step cfg deps)\<^sup>*\<^sup>* (new_system now db) s"
  then show ?thesis
  proof (induction rule: rtranclp_induct)
    case base
    show ?case using system_run.start by fastforce
  next
    case (step s1 s2)
    then obtain ss where "system_run cfg deps ss" "last ss = s1" by blast
    with system_run.more [of cfg deps ss s2] step.hyps(2) show ?case by (intro exI [of _ "ss @ [s2]"]) simp
  qed
qed

text \<open>The stages of connection \<open>c\<close> in a run: it waits in state \<open>a\<close>, is admitted by the next step with a
  request \<open>req\<close> as token \<open>t\<close>, and stays so until state \<open>b\<close>; from the next state on to the last it serves
  tunnel \<open>i\<close>.\<close>

definition waits_admitted :: "'db system list \<Rightarrow> nat \<Rightarrow> nat \<Rightarrow> nat \<Rightarrow> base_request \<Rightarrow> int \<Rightarrow> lease \<Rightarrow> bool" where
  "waits_admitted ss c a b req t x \<longleftrightarrow> a < b \<and> b < length ss \<and> sys_sessions (ss ! a) c = Some Waiting
     \<and> (\<forall>n. a < n \<and> n \<le> b \<longrightarrow> sys_sessions (ss ! n) c = Some (Admitted req t x))"

definition serves_since :: "'db system list \<Rightarrow> nat \<Rightarrow> nat \<Rightarrow> string \<Rightarrow> int \<Rightarrow> lease \<Rightarrow> bool" where
  "serves_since ss c b i t x \<longleftrightarrow> Suc b < length ss
     \<and> (\<forall>n. b < n \<and> n < length ss \<longrightarrow> sys_sessions (ss ! n) c = Some (Live (HttpTunnel i) t x))"

text \<open>What the two steps checked: the token of the request, and the name it asks for, if it asks for one.\<close>

definition admission_checked :: "config \<Rightarrow> 'db dependencies \<Rightarrow> 'db server \<Rightarrow> base_request \<Rightarrow> int \<Rightarrow> lease \<Rightarrow> bool" where
  "admission_checked cfg deps sv req t x \<longleftrightarrow> (\<exists>env sv'. admit cfg deps env (Some req) sv = (Inr (req, t, x), sv'))"

definition named_request :: "base_request \<Rightarrow> bool" where
  "named_request req \<longleftrightarrow> TrimSpace (bq_domain req) \<noteq> [] \<or> TrimSpace (bq_subdomain req) \<noteq> []"

definition name_granted :: "config \<Rightarrow> store \<Rightarrow> base_request \<Rightarrow> int \<Rightarrow> string \<Rightarrow> bool" where
  "name_granted cfg db req t i \<longleftrightarrow>
     desired_id cfg (TrimSpace (bq_domain req)) (TrimSpace (bq_subdomain req)) = Some i
     \<and> subdomain_held db i = Some t"

subsection \<open>Where an entry comes from\<close>

definition admitted_in ::
  "config \<Rightarrow> 'db dependencies \<Rightarrow> 'db system list \<Rightarrow> nat \<Rightarrow> nat \<Rightarrow> nat \<Rightarrow> base_request \<Rightarrow> int \<Rightarrow> lease \<Rightarrow> bool" where
  "admitted_in cfg deps ss c a b req t x \<longleftrightarrow>
     waits_admitted ss c a b req t x \<and> admission_checked cfg deps (sys_server (ss ! a)) req t x"

definition traced :: "config \<Rightarrow> store dependencies \<Rightarrow> store system list \<Rightarrow> http_tunnel_entry \<Rightarrow> string \<Rightarrow> bool" where
  "traced cfg deps ss e k \<longleftrightarrow>
     (\<exists>a b req t x i opts. admitted_in cfg deps ss (ent_session e) a b req t x
        \<and> serves_since ss (ent_session e) b i t x \<and> registry_key i = k
        \<and> parse_options (http_request_of req) = Inr opts \<and> e = make_entry (ent_session e) opts
        \<and> (named_request req \<longrightarrow> name_granted cfg (sv_db (sys_server (ss ! Suc b))) req t i))"

definition origin_inv :: "config \<Rightarrow> store dependencies \<Rightarrow> store system list \<Rightarrow> bool" where
  "origin_inv cfg deps ss \<longleftrightarrow>
     (\<forall>c req t x. sys_sessions (last ss) c = Some (Admitted req t x) \<longrightarrow>
        (\<exists>a. admitted_in cfg deps ss c a (length ss - 1) req t x))
     \<and> (\<forall>k e. sv_registry (sys_server (last ss)) k = Some e \<longrightarrow> traced cfg deps ss e k)"

text \<open>A run goes on: what was is kept, and a stage that is kept goes on.\<close>

lemma admitted_in_more: "admitted_in cfg deps ss c a b req t x \<Longrightarrow> admitted_in cfg deps (ss @ [s]) c a b req t x"
  by (auto simp: admitted_in_def waits_admitted_def nth_append)

lemma admitted_in_on:
  assumes "admitted_in cfg deps ss c a (length ss - 1) req t x"
    and "sys_sessions s c = Some (Admitted req t x)"
  shows "admitted_in cfg deps (ss @ [s]) c a (length (ss @ [s]) - 1) req t x"
  using assms by (auto simp: admitted_in_def waits_admitted_def nth_append not_less le_less)

lemma serves_since_more:
  "serves_since ss c b i t x \<Longrightarrow> sys_sessions s c = Some (Live (HttpTunnel i) t x) \<Longrightarrow> serves_since (ss @ [s]) c b i t x"
  by (auto simp: serves_since_def nth_append less_Suc_eq)

lemma serves_since_last: "serves_since ss c b i t x \<Longrightarrow> sys_sessions (last ss) c = Some (Live (HttpTunnel i) t x)"
proof -
  assume a: "serves_since ss c b i t x"
  then have "b < length ss - 1" "length ss - 1 < length ss" "ss \<noteq> []" by (auto simp: serves_since_def)
  with a show ?thesis by (simp add: serves_since_def last_conv_nth)
qed

lemma traced_live:
  "traced cfg deps ss e k \<Longrightarrow>
     \<exists>i t x. sys_sessions (last ss) (ent_session e) = Some (Live (HttpTunnel i) t x) \<and> registry_key i = k"
  unfolding traced_def using serves_since_last by metis

lemma traced_more:
  assumes "traced cfg deps ss e k"
    and "sys_sessions s (ent_session e) = sys_sessions (last ss) (ent_session e)"
  shows "traced cfg deps (ss @ [s]) e k"
proof -
  obtain a b req t x i opts where tr: "admitted_in cfg deps ss (ent_session e) a b req t x"
    "serves_since ss (ent_session e) b i t x" "registry_key i = k"
    "parse_options (http_request_of req) = Inr opts" "e = make_entry (ent_session e) opts"
    "named_request req \<longrightarrow> name_granted cfg (sv_db (sys_server (ss ! Suc b))) req t i"
    using assms(1) unfolding traced_def by blast
  have "(ss @ [s]) ! Suc b = ss ! Suc b" using tr(2) by (simp add: serves_since_def nth_append)
  moreover have "serves_since (ss @ [s]) (ent_session e) b i t x"
    using serves_since_more [OF tr(2)] serves_since_last [OF tr(2)] assms(2) by simp
  ultimately show ?thesis unfolding traced_def using admitted_in_more [OF tr(1)] tr(3-6) by metis
qed

lemma admit_same_request: "admit cfg deps env msg sv = (Inr (req, t, x), sv') \<Longrightarrow> msg = Some req"
  by (cases msg) (auto simp: admit_def Let_def split: sum.splits prod.splits option.splits bool.splits)

lemma established_http:
  assumes "establish cfg deps env c req t sv = ((r, Some (HttpTunnel i)), sv')"
  shows "\<exists>opts db. parse_options (http_request_of req) = Inr opts
    \<and> resolve_tunnel_id cfg deps env t (http_request_of req) (sv_db sv) = (Inr i, db) \<and> sv_db sv' = db
    \<and> sv_registry sv' = (sv_registry sv)(registry_key i \<mapsto> make_entry c opts)"
  using assms
  by (auto simp: establish_def establish_tcp_def establish_http_def RegisterHTTPTunnel_def Let_def
      split: if_splits prod.splits option.splits sum.splits)

lemma resolved_granted:
  assumes "resolve_tunnel_id cfg deps env t (http_request_of req) db = (Inr i, db')"
    and "dep_reservations deps = Some (auth_reservations flts now)" and "named_request req"
  shows "name_granted cfg db' req t i"
proof -
  have "claim_key (rsv_subdomain_owner (auth_reservations flts now)) (rsv_reserve_subdomain (auth_reservations flts now))
      (env_others env) t i db = (Claimed, db')
    \<and> desired_id cfg (TrimSpace (bq_domain req)) (TrimSpace (bq_subdomain req)) = Some i"
    using assms
    by (auto simp: resolve_tunnel_id_def http_request_of_def named_request_def Let_def
        split: option.splits prod.splits claim.splits if_splits)
  then show ?thesis unfolding name_granted_def using subdomain_claims.claimed_is_held by blast
qed

text \<open>The steps of the system keep every trace.\<close>

lemma origin_frame:
  assumes "origin_inv cfg deps ss" and "sys_sessions s = (sys_sessions (last ss))(c := st)"
    and "\<forall>k e. sv_registry (sys_server s) k = Some e \<longrightarrow>
      sv_registry (sys_server (last ss)) k = Some e \<and> ent_session e \<noteq> c"
    and "\<forall>req t x. st = Some (Admitted req t x) \<longrightarrow> (\<exists>a. admitted_in cfg deps (ss @ [s]) c a (length ss) req t x)"
  shows "origin_inv cfg deps (ss @ [s])"
  unfolding origin_inv_def
proof (intro conjI allI impI)
  fix d req t x assume d: "sys_sessions (last (ss @ [s])) d = Some (Admitted req t x)"
  show "\<exists>a. admitted_in cfg deps (ss @ [s]) d a (length (ss @ [s]) - 1) req t x"
  proof (cases "d = c")
    case True
    then show ?thesis using d assms(2,4) by simp
  next
    case False
    then have "\<exists>a. admitted_in cfg deps ss d a (length ss - 1) req t x"
      using d assms(1,2) by (simp add: origin_inv_def)
    then show ?thesis using admitted_in_on d by fastforce
  qed
next
  fix k e assume "sv_registry (sys_server (last (ss @ [s]))) k = Some e"
  then have "traced cfg deps ss e k" "ent_session e \<noteq> c" using assms(1,3) by (auto simp: origin_inv_def)
  then show "traced cfg deps (ss @ [s]) e k" using traced_more assms(2) by simp
qed

lemma entries_elsewhere:
  assumes "origin_inv cfg deps ss" and "\<forall>tun t x. sys_sessions (last ss) c \<noteq> Some (Live tun t x)"
  shows "\<forall>k e. sv_registry (sys_server (last ss)) k = Some e \<longrightarrow> ent_session e \<noteq> c"
  using assms traced_live unfolding origin_inv_def by metis

lemma admitted_in_now:
  assumes "ss \<noteq> []" and "sys_sessions (last ss) c = Some Waiting"
    and "admit cfg deps env msg (sys_server (last ss)) = (Inr (req, t, x), sv)"
    and "sys_sessions s c = Some (Admitted req t x)"
  shows "admitted_in cfg deps (ss @ [s]) c (length ss - 1) (length ss) req t x"
proof -
  have "n = length ss" if "length ss - 1 < n" "n \<le> length ss" for n using that by simp
  then show ?thesis
    using assms admit_same_request [OF assms(3)]
    by (auto simp: admitted_in_def waits_admitted_def admission_checked_def nth_append last_conv_nth)
qed

lemma origin_live:
  assumes "origin_inv cfg deps ss" and "ss \<noteq> []"
    and "dep_reservations deps = Some (auth_reservations flts now)"
    and "sys_sessions (last ss) c = Some (Admitted req t x)"
    and "establish cfg deps env c req t (sys_server (last ss)) = ((r, Some (HttpTunnel i)), sv)"
    and "s = set_session c (Some (Live (HttpTunnel i) t x)) sv (last ss)"
  shows "origin_inv cfg deps (ss @ [s])"
proof -
  let ?b = "length ss - 1"
  obtain opts db where o: "parse_options (http_request_of req) = Inr opts"
    "resolve_tunnel_id cfg deps env t (http_request_of req) (sv_db (sys_server (last ss))) = (Inr i, db)" "sv_db sv = db"
    "sv_registry sv = (sv_registry (sys_server (last ss)))(registry_key i \<mapsto> make_entry c opts)"
    using established_http [OF assms(5)] by blast
  have ses: "sys_sessions s = (sys_sessions (last ss))(c := Some (Live (HttpTunnel i) t x))" "sys_server s = sv"
    by (simp_all add: assms(6))
  have me: "ent_session (make_entry c opts) = c" by (simp add: make_entry_def)
  obtain a where a: "admitted_in cfg deps ss c a ?b req t x" using assms(1,4) unfolding origin_inv_def by blast
  have "Suc ?b = length ss" using assms(2) by (cases ss) simp_all
  then have "serves_since (ss @ [s]) c ?b i t x" "(ss @ [s]) ! Suc ?b = s"
    using ses(1) by (auto simp: serves_since_def nth_append)
  then have new: "traced cfg deps (ss @ [s]) (make_entry c opts) (registry_key i)"
    unfolding traced_def me using admitted_in_more [OF a] o(1-3) ses(2) resolved_granted [OF _ assms(3)]
    by metis
  show ?thesis
    unfolding origin_inv_def
  proof (intro conjI allI impI)
    fix d req t x assume d: "sys_sessions (last (ss @ [s])) d = Some (Admitted req t x)"
    then have "\<exists>a. admitted_in cfg deps ss d a ?b req t x"
      using assms(1) ses(1) by (auto simp: origin_inv_def split: if_splits)
    then show "\<exists>a. admitted_in cfg deps (ss @ [s]) d a (length (ss @ [s]) - 1) req t x"
      using admitted_in_on d by fastforce
  next
    fix k e assume e: "sv_registry (sys_server (last (ss @ [s]))) k = Some e"
    show "traced cfg deps (ss @ [s]) e k"
    proof (cases "k = registry_key i")
      case True
      then show ?thesis using e new ses(2) o(4) by simp
    next
      case False
      then have old: "sv_registry (sys_server (last ss)) k = Some e" using e ses(2) o(4) by simp
      then have "ent_session e \<noteq> c" using entries_elsewhere [OF assms(1), of c] assms(4) by simp
      then show ?thesis using traced_more old assms(1) ses(1) by (auto simp: origin_inv_def)
    qed
  qed
qed

lemma origin_close:
  assumes "origin_inv cfg deps ss" and "sys_sessions (last ss) c = Some (Live tun t x)"
    and "sv_registry (close_tunnel (Some tun) (sys_server (last ss))) k = Some e"
    and "sv_registry (sys_server (last ss)) [] = None"
  shows "sv_registry (sys_server (last ss)) k = Some e \<and> ent_session e \<noteq> c"
proof (cases tun)
  case (TcpTunnel p)
  then show ?thesis using assms(1-3) traced_live [of cfg deps ss e k] by (auto simp: origin_inv_def)
next
  case (HttpTunnel i)
  then have "sv_registry (sys_server (last ss)) k = Some e" "k \<noteq> registry_key i"
    using assms(3,4) by (auto simp: UnregisterHTTPTunnel_def Let_def split: if_splits)
  then show ?thesis using assms(1,2) HttpTunnel traced_live [of cfg deps ss e k] by (auto simp: origin_inv_def)
qed

lemma origin_step:
  assumes "origin_inv cfg deps ss" and "system_run cfg deps ss" and "system_step cfg deps (last ss) s"
    and "dep_reservations deps = Some (auth_reservations flts now)"
  shows "origin_inv cfg deps (ss @ [s])"
proof -
  note frame = origin_frame [OF assms(1)] and elsewhere = entries_elsewhere [OF assms(1)]
    and ne = system_run_not_empty [OF assms(2)]
  have empty: "sv_registry (sys_server (last ss)) [] = None"
    using reachable_inv [OF run_reachable [OF assms(2)]] by (simp add: system_inv_def registry_agrees_def)
  show ?thesis
    using assms(3)
  proof (cases rule: system_step.cases)
    case (accept c)
    then show ?thesis
      using elsewhere [of c] by (intro frame [of _ c "Some Waiting"]) (simp_all add: begin_connection_def)
  next
    case (hang_up c)
    then show ?thesis using elsewhere [of c] by (intro frame [of _ c "Some (Closing None)"]) simp_all
  next
    case (refuse c env msg r sl sv)
    then have "sv_registry sv = sv_registry (sys_server (last ss))"
      using admit_frame [of cfg deps env msg "sys_server (last ss)"] by simp
    then show ?thesis
      using refuse elsewhere [of c] by (intro frame [of _ c "Some (Closing sl)"]) simp_all
  next
    case (admit c env msg req t x sv)
    then have "sv_registry sv = sv_registry (sys_server (last ss))"
      using admit_frame [of cfg deps env msg "sys_server (last ss)"] by simp
    moreover have "admitted_in cfg deps (ss @ [s]) c (length ss - 1) (length ss) req t x"
      using admitted_in_now [OF ne admit(2,3)] admit(1) by simp
    ultimately show ?thesis
      using admit(1,2) elsewhere [of c] by (intro frame [of s c "Some (Admitted req t x)"]) auto
  next
    case (fail c req t x env r sv)
    then have "sv_registry sv = sv_registry (sys_server (last ss))" using establish_None [OF fail(3)] by simp
    then show ?thesis
      using fail elsewhere [of c] by (intro frame [of _ c "Some (Closing (Some (t, x)))"]) simp_all
  next
    case (live c req t x env r tun sv)
    show ?thesis
    proof (cases tun)
      case (TcpTunnel p)
      then have "sv_registry sv = sv_registry (sys_server (last ss))" using establish_Tcp live(3) by blast
      then show ?thesis
        using live elsewhere [of c] by (intro frame [of _ c "Some (Live tun t x)"]) simp_all
    next
      case (HttpTunnel i)
      with live show ?thesis by (intro origin_live [OF assms(1) ne assms(4)]) auto
    qed
  next
    case (close c tun t x)
    then show ?thesis
      using origin_close [OF assms(1) close(2) _ empty]
      by (intro frame [of _ c "Some (Closing (Some (t, x)))"]) simp_all
  next
    case (finish c sl)
    then show ?thesis
      using elsewhere [of c] by (intro frame [of _ c None]) (simp_all add: end_connection_def Let_def)
  next
    case (store db)
    have "traced cfg deps (ss @ [s]) e k" if "traced cfg deps ss e k" for e k
      using traced_more [OF that] store by simp
    moreover have "\<exists>a. admitted_in cfg deps (ss @ [s]) c a (length (ss @ [s]) - 1) req t x"
      if "sys_sessions s c = Some (Admitted req t x)" for c req t x
      using that assms(1) admitted_in_on [OF _ that] store by (fastforce simp: origin_inv_def)
    ultimately show ?thesis
      using assms(1) store by (simp add: origin_inv_def)
  qed
qed

lemma run_origin:
  assumes "system_run cfg deps ss" and "dep_reservations deps = Some (auth_reservations flts now)"
  shows "origin_inv cfg deps ss"
  using assms(1)
proof (induction rule: system_run.induct)
  case (start now db)
  show ?case by (simp add: origin_inv_def new_system_def new_server_def NewTunnelRegistry_def)
next
  case (more ss s)
  from origin_step [OF more.IH more.hyps assms(2)] show ?case .
qed

subsection \<open>Properties\<close>

text \<open>C3: a visitor meets the tunnel of the host's owner, under the owner's rules. Take any run of the
  server with the auth store. When, in its last state, what the sessions answer makes a difference to the
  response to a public request, then the host names a tunnel that one session serves, and the difference
  is in that session's answer to the forwarded request. In the run that session waited, was admitted
  with its request and has served the tunnel since it was opened; that request is the one whose options are the
  rules the visitor's request satisfies, it carried the text of a token that was active in the store when
  it was admitted, and if it asked for a name, the tunnel is that name and the store held it for the
  session's token when the tunnel was opened.\<close>

theorem visitor_meets_owner:
  assumes "system_run cfg (auth_dependencies sha flts now) ss"
    and "httpTunnelProxyHandler cfg (sv_registry (sys_server (last ss))) up r
      \<noteq> httpTunnelProxyHandler cfg (sv_registry (sys_server (last ss))) up' r"
  shows "\<exists>i c j t x a b req opts q. tunnelIDFromHost (rq_host r) (cfg_tunnel_domain cfg) = Some i
    \<and> registry_key j = registry_key i
    \<and> q = forwarded_request cfg (make_entry c opts) r \<and> up c q \<noteq> up' c q
    \<and> waits_admitted ss c a b req t x \<and> serves_since ss c b j t x
    \<and> parse_options (http_request_of req) = Inr opts \<and> permitted cfg (make_entry c opts) r
    \<and> (\<exists>db row. sv_db (sys_server (ss ! a)) = Some db \<and> row \<in> set (db_tokens db) \<and> tr_revoked row = None
         \<and> tr_hash row = hashToken sha (TrimSpace (bq_authtoken req)))
    \<and> (named_request req \<longrightarrow>
         desired_id cfg (TrimSpace (bq_domain req)) (TrimSpace (bq_subdomain req)) = Some j
         \<and> subdomain_held (sv_db (sys_server (ss ! Suc b))) j = Some t)"
proof -
  let ?deps = "auth_dependencies sha flts now" and ?s = "last ss"
  obtain e r' where acc: "tunnel_access cfg (sv_registry (sys_server ?s)) r = Inr (e, r')"
    and d: "up (ent_session e) (outgoing_request cfg e r') \<noteq> up' (ent_session e) (outgoing_request cfg e r')"
    using gate_difference [OF assms(2)] by blast
  obtain i where i: "tunnelIDFromHost (rq_host r) (cfg_tunnel_domain cfg) = Some i"
    "GetHTTPTunnel (sv_registry (sys_server ?s)) i = Some e" "permitted cfg e r"
    using acc unfolding tunnel_access_Inr by auto
  have q: "outgoing_request cfg e r' = forwarded_request cfg e r"
    using acc unfolding tunnel_access_Inr forwarded_request_def by auto
  have "dep_reservations ?deps = Some (auth_reservations flts now)" by (simp add: auth_dependencies_def)
  from run_origin [OF assms(1) this] have "traced cfg ?deps ss e (registry_key i)"
    using i(2) by (auto simp: origin_inv_def GetHTTPTunnel_def Let_def split: if_splits)
  then obtain a b req t x j opts where tr: "admitted_in cfg ?deps ss (ent_session e) a b req t x"
    "serves_since ss (ent_session e) b j t x" "registry_key j = registry_key i"
    "parse_options (http_request_of req) = Inr opts" "e = make_entry (ent_session e) opts"
    "named_request req \<longrightarrow> name_granted cfg (sv_db (sys_server (ss ! Suc b))) req t j"
    unfolding traced_def by blast
  obtain env sv where "admit cfg ?deps env (Some req) (sys_server (ss ! a)) = (Inr (req, t, x), sv)"
    using tr(1) by (auto simp: admitted_in_def admission_checked_def)
  from admitted_token [OF this] have tok: "\<exists>db row. sv_db (sys_server (ss ! a)) = Some db \<and> row \<in> set (db_tokens db)
      \<and> tr_revoked row = None \<and> tr_hash row = hashToken sha (TrimSpace (bq_authtoken req))" by blast
  have "waits_admitted ss (ent_session e) a b req t x" using tr(1) by (simp add: admitted_in_def)
  moreover have "permitted cfg (make_entry (ent_session e) opts) r"
    "up (ent_session e) (forwarded_request cfg (make_entry (ent_session e) opts) r)
      \<noteq> up' (ent_session e) (forwarded_request cfg (make_entry (ent_session e) opts) r)"
    using i(3) tr(5) d q by simp_all
  ultimately show ?thesis using i(1) tr(2-4) tr(6) [unfolded name_granted_def] tok by blast
qed

subsection \<open>A witness\<close>

lemma demo_no_options: "parse_options (http_request_of (demo_req ''http'' 0 ''my-app'')) = Inr no_options"
  by (simp add: parse_options_def http_request_of_def demo_req_def parseBasicAuthCredential_def
      ParseCIDRList_def ParseHTTPMethodList_def ParsePathList_def parseHeaderNameList_def parseHeaderKVList_def
      no_options_def)

theorem visitor_meets_owner_witness:
  "\<exists>ss a b req t x. system_run limit_cfg demo_deps ss
    \<and> waits_admitted ss 4 a b req t x \<and> serves_since ss 4 b ''my-app'' t x"
proof -
  obtain s where s: "reachable limit_cfg demo_deps s" "sys_sessions s = [4 \<mapsto> Live (HttpTunnel ''my-app'') 1 (Lease 0)]"
    "sv_registry (sys_server s) ''my-app'' = Some (make_entry 4 no_options)"
    using demo_live_entry demo_no_options by auto
  obtain ss where ss: "system_run limit_cfg demo_deps ss" "last ss = s" using reachable_run [OF s(1)] by blast
  let ?r = "demo_request ''GET'' ''my-app.tunnel.example.com'' ''/x''" and ?reg = "sv_registry (sys_server s)"
  have host: "tunnelIDFromHost (rq_host ?r) (cfg_tunnel_domain limit_cfg) = Some ''my-app''"
    by (simp add: demo_request_def eval_simps)
  have acc: "tunnel_access limit_cfg ?reg ?r = Inr (make_entry 4 no_options, ?r)"
    using host s(3) demo_trim(2)
    by (simp add: tunnel_access_Inr GetHTTPTunnel_def permitted_def make_entry_def no_options_def)
  have up: "upgradeType (rq_header ?r) = []" using demo_gate(3) by (simp add: demo_request_def)
  have "rs_status (httpTunnelProxyHandler limit_cfg ?reg (\<lambda>_ _. Inr (status_only 200)) ?r) = 200"
    "rs_status (httpTunnelProxyHandler limit_cfg ?reg (\<lambda>_ _. Inl (Msg [])) ?r) = 502"
    unfolding handler_Inr [OF acc] up
    by (simp_all add: ascii_print_def modify_response_def status_only_def bad_gateway_def http_Error_def)
  then have "httpTunnelProxyHandler limit_cfg ?reg (\<lambda>_ _. Inr (status_only 200)) ?r
      \<noteq> httpTunnelProxyHandler limit_cfg ?reg (\<lambda>_ _. Inl (Msg [])) ?r" by force
  from visitor_meets_owner [OF ss(1) [unfolded demo_deps_def], unfolded ss(2), OF this] obtain c j a b t x req where
    c: "waits_admitted ss c a b req t x" "serves_since ss c b j t x"
    by blast
  moreover have "c = 4 \<and> j = ''my-app''" using serves_since_last [OF c(2)] s(2) ss(2) by (auto split: if_splits)
  ultimately show ?thesis using ss(1) by blast
qed

end
