(* ===== verification/Drain.thy ===== *)
theory Drain
  imports Sessions
begin

text \<open>
  How the server of \<open>internal/server/control.go\<close> drains: what remains possible when no new
  connection arrives. Every step of a connection brings it nearer to its end, and a connection that is
  not at its end always has a step.
\<close>

definition progress :: "config \<Rightarrow> 'db dependencies \<Rightarrow> 'db system \<Rightarrow> 'db system \<Rightarrow> bool" where
  "progress cfg deps s s' \<longleftrightarrow> system_step cfg deps s s' \<and> sys_sessions s' \<noteq> sys_sessions s
     \<and> dom (sys_sessions s') \<subseteq> dom (sys_sessions s)"

fun stage_weight :: "stage option \<Rightarrow> nat" where
  "stage_weight None = 0"
| "stage_weight (Some Waiting) = 4"
| "stage_weight (Some (Admitted req t x)) = 3"
| "stage_weight (Some (Live tun t x)) = 2"
| "stage_weight (Some (Closing sl)) = 1"

definition sessions_weight :: "(nat \<rightharpoonup> stage) \<Rightarrow> nat" where
  "sessions_weight ses = (\<Sum>c\<in>dom ses. stage_weight (ses c))"

lemma weight_less:
  assumes "finite (dom ses)" and "ses c \<noteq> None" and "stage_weight st < stage_weight (ses c)"
  shows "sessions_weight (ses(c := st)) < sessions_weight ses"
proof -
  have c: "c \<in> dom ses" using assms(2) by auto
  let ?f = "\<lambda>d. stage_weight ((ses(c := st)) d)"
  have "sum ?f (dom (ses(c := st))) = sum ?f (dom ses)"
    using assms(1,2) by (intro sum.mono_neutral_left) (auto split: if_splits)
  also have "sum ?f (dom ses) < (\<Sum>d\<in>dom ses. stage_weight (ses d))"
    using assms(3) c by (intro sum_strict_mono_ex1 [OF assms(1)]) auto
  finally show ?thesis by (simp add: sessions_weight_def)
qed

lemma weight_bound: "finite (dom ses) \<Longrightarrow> sessions_weight ses \<le> 4 * card (dom ses)"
proof -
  have "stage_weight (ses c) \<le> 4" for c by (cases "ses c" rule: stage_weight.cases) auto
  then show ?thesis unfolding sessions_weight_def using sum_bounded_above [of "dom ses" "\<lambda>c. stage_weight (ses c)" 4]
    by (simp add: mult.commute)
qed

lemma reachable_finite: "reachable cfg deps s \<Longrightarrow> finite (dom (sys_sessions s))"
  using reachable_inv [of cfg deps s] by (simp add: system_inv_def gauges_agree_def)

lemma progress_weight:
  assumes "reachable cfg deps s" and "progress cfg deps s s'"
  shows "sessions_weight (sys_sessions s') < sessions_weight (sys_sessions s)"
proof -
  note less = weight_less [OF reachable_finite [OF assms(1)]]
  have step: "system_step cfg deps s s'" and new: "dom (sys_sessions s') \<subseteq> dom (sys_sessions s)"
    and other: "sys_sessions s' \<noteq> sys_sessions s"
    using assms(2) by (simp_all add: progress_def)
  from step show ?thesis
    by (cases rule: system_step.cases) (use new other less in \<open>auto simp: set_session_def\<close>)
qed

lemma progress_reachable: "reachable cfg deps s \<Longrightarrow> progress cfg deps s s' \<Longrightarrow> reachable cfg deps s'"
  using reachable_step by (auto simp: progress_def)

lemma progress_possible:
  assumes "sys_sessions s c = Some st"
  shows "\<exists>s'. progress cfg deps s s'"
proof -
  have done_by: "progress cfg deps s (set_session c st' sv s)"
    if "system_step cfg deps s (set_session c st' sv s)" "st' \<noteq> Some st" for st' sv
    using that assms by (auto simp: progress_def set_session_def fun_eq_iff)
  show ?thesis
  proof (cases st)
    case Waiting
    then show ?thesis using done_by [OF system_step.hang_up] assms by blast
  next
    case (Admitted req t x)
    fix env :: "'a environment"
    obtain r tun sv where e: "establish cfg deps env c req t (sys_server s) = ((r, tun), sv)" by (metis prod.collapse)
    show ?thesis
    proof (cases tun)
      case None
      then show ?thesis using done_by [OF system_step.fail] assms Admitted e by blast
    next
      case (Some tn)
      then show ?thesis using done_by [OF system_step.live] assms Admitted e by blast
    qed
  next
    case (Live tun t x)
    then show ?thesis using done_by [OF system_step.close] assms by blast
  next
    case (Closing sl)
    then show ?thesis using done_by [OF system_step.finish] assms by blast
  qed
qed

text \<open>A run without new connections.\<close>

lemma progress_run:
  assumes "(progress cfg deps ^^ n) s s'" and "reachable cfg deps s"
  shows "reachable cfg deps s' \<and> n + sessions_weight (sys_sessions s') \<le> sessions_weight (sys_sessions s)"
  using assms
proof (induction n arbitrary: s')
  case 0
  then show ?case by simp
next
  case (Suc n)
  then obtain s1 where s1: "(progress cfg deps ^^ n) s s1" "progress cfg deps s1 s'" by auto
  then have "reachable cfg deps s1" "n + sessions_weight (sys_sessions s1) \<le> sessions_weight (sys_sessions s)"
    using Suc by blast+
  then show ?case using progress_weight [OF _ s1(2)] progress_reachable [OF _ s1(2)] by fastforce
qed

text \<open>C14: the server drains. From any state it can reach, a run in which connections go on, fail, close
  or finish in any order, and no new one arrives, has at most four steps for each open connection; and
  where no such step is left, no connection is, and everything is released: the registry and the
  listening ports are empty, no token has an active slot and no control connection is counted.\<close>

theorem server_drains:
  assumes "reachable cfg deps s" and "(progress cfg deps ^^ n) s s'"
  shows "n \<le> 4 * card (dom (sys_sessions s))
    \<and> ((\<nexists>s''. progress cfg deps s' s'') \<longrightarrow>
         sys_sessions s' = (\<lambda>_. None) \<and> sv_registry (sys_server s') = NewTunnelRegistry
         \<and> sv_listening (sys_server s') = {} \<and> lim_active (sv_limiter (sys_server s')) = (\<lambda>_. None)
         \<and> mt_active_control (sv_metrics (sys_server s')) = 0)"
proof -
  have run: "reachable cfg deps s'" "n \<le> sessions_weight (sys_sessions s)"
    using progress_run [OF assms(2,1)] by auto
  have "sys_sessions s' = (\<lambda>_. None)" if "\<nexists>s''. progress cfg deps s' s''"
    using progress_possible [of s'] that by (metis option.exhaust ext)
  moreover have "mt_active_control (sv_metrics (sys_server s')) = int (card (dom (sys_sessions s')))"
    using reachable_inv [OF run(1)] by (simp add: system_inv_def gauges_agree_def)
  ultimately show ?thesis
    using run(2) weight_bound [OF reachable_finite [OF assms(1)]] empty_system [OF run(1)] by auto
qed

theorem server_drains_witness:
  "\<exists>s s'. reachable limit_cfg demo_deps s \<and> sys_sessions s 4 = Some (Live (HttpTunnel ''my-app'') 1 (Lease 0))
    \<and> (progress limit_cfg demo_deps ^^ 2) s s' \<and> sv_registry (sys_server s') = NewTunnelRegistry"
proof -
  obtain s where s: "reachable limit_cfg demo_deps s" "sys_sessions s = [4 \<mapsto> Live (HttpTunnel ''my-app'') 1 (Lease 0)]"
    using demo_live by blast
  define s1 where "s1 = set_session 4 (Some (Closing (Some (1, Lease 0)))) (close_tunnel (Some (HttpTunnel ''my-app'')) (sys_server s)) s"
  define s2 where "s2 = set_session 4 None (end_connection None (Lease 0) (sys_server s1)) s1"
  have ses: "sys_sessions s1 = [4 \<mapsto> Closing (Some (1, Lease 0))]" "sys_sessions s2 = (\<lambda>_. None)"
    using s(2) by (simp_all add: s1_def s2_def set_session_def fun_eq_iff)
  have "system_step limit_cfg demo_deps s s1" unfolding s1_def by (rule system_step.close) (simp add: s(2))
  moreover have "system_step limit_cfg demo_deps s1 s2"
    using system_step.finish [of s1 4 "Some (1, Lease 0)" limit_cfg demo_deps] ses(1) by (simp add: s2_def slot_lease_def)
  ultimately have p: "progress limit_cfg demo_deps s s1" "progress limit_cfg demo_deps s1 s2"
    using s(2) ses map_upd_nonempty [of Map.empty 4] by (auto simp: progress_def dest: map_upd_eqD1 sym)
  then have run: "(progress limit_cfg demo_deps ^^ 2) s s2" by (auto simp: numeral_2_eq_2)
  have "\<nexists>s''. progress limit_cfg demo_deps s2 s''" using ses(2) by (auto simp: progress_def)
  then show ?thesis using server_drains [OF s(1) run] s run by auto
qed

end
