(* ===== verification/GoJsonText.thy ===== *)
theory GoJsonText
  imports GoJson GoQuote
begin

text \<open>
  The text form of JSON as \<open>encoding/json\<close> of Go 1.23 writes and reads it: \<open>Marshal\<close> of a
  value without blanks and with the escapes for HTML, and the scanner with its decoding of strings.
  A value is read up to its end and the rest is returned, as a \<open>Decoder\<close> does. A number without
  fraction and exponent is an integer of any size; the limit of Go's scanner on the nesting of a text
  (10000) is not modelled.
\<close>

subsection \<open>Strings\<close>

text \<open>The letters of the short escapes.\<close>

definition json_escapes :: "(nat \<times> char) list" where
  "json_escapes = [(34, CHR 0x22), (92, CHR 0x5C), (8, CHR ''b''), (12, CHR ''f''), (10, CHR ''n''), (13, CHR ''r''),
     (9, CHR ''t'')]"

definition json_escape_byte :: "char \<Rightarrow> string" where
  "json_escape_byte c =
     (case map_of json_escapes (byte c) of
        Some d \<Rightarrow> [backslash, d]
      | None \<Rightarrow>
          if byte c < 32 \<or> c \<in> set ''<>&'' then [backslash, CHR ''u''] @ hex_pad 4 (byte c) else [c])"

definition json_escape_rune :: "nat \<Rightarrow> string" where
  "json_escape_rune r =
     (if r = 8232 \<or> r = 8233 then [backslash, CHR ''u''] @ hex_pad 4 r else encode_rune r)"

function json_chars :: "string \<Rightarrow> string" where
  "json_chars [] = []"
| "json_chars (c # s) =
     (if byte c < 128 then json_escape_byte c @ json_chars s
      else
        (case decode_rune (c # s) of
           None \<Rightarrow> [backslash] @ ''ufffd'' @ json_chars s
         | Some (r, w) \<Rightarrow> json_escape_rune r @ json_chars (drop (w - 1) s)))"
  by pat_completeness auto
termination by (relation "measure length") auto

definition json_string :: "string \<Rightarrow> string" where
  "json_string s = [quote_mark] @ json_chars s @ [quote_mark]"

text \<open>Reading: the escape after a backslash, its bytes and how many bytes it takes; two escapes may
  make one rune of two surrogates.\<close>

definition surrogate :: "nat \<Rightarrow> bool" where
  "surrogate r \<longleftrightarrow> 55296 \<le> r \<and> r < 57344"

definition json_unescape :: "string \<Rightarrow> (string \<times> nat) option" where
  "json_unescape s =
     (case s of
        [] \<Rightarrow> None
      | c # t \<Rightarrow>
          if c = CHR ''/'' then Some ([c], 1)
          else if c = CHR ''u'' then
            (case (if length t < 4 then None else hex_num (take 4 t)) of
               None \<Rightarrow> None
             | Some r \<Rightarrow>
                 if \<not> surrogate r then Some (encode_rune r, 5)
                 else
                   (case (if HasPrefix (drop 4 t) [backslash, CHR ''u''] \<and> 10 \<le> length t
                          then hex_num (take 4 (drop 6 t)) else None) of
                      Some r' \<Rightarrow>
                        if r < 56320 \<and> 56320 \<le> r' \<and> r' < 57344
                        then Some (encode_rune (65536 + (r - 55296) * 1024 + (r' - 56320)), 11)
                        else Some (encode_rune 65533, 5)
                    | None \<Rightarrow> Some (encode_rune 65533, 5)))
          else map_option (\<lambda>(n, _). ([char_of n], 1)) (find (\<lambda>e. snd e = c) json_escapes))"

lemma json_unescape_pos: "json_unescape s = Some (u, n) \<Longrightarrow> 0 < n"
  by (auto simp: json_unescape_def split: list.splits if_splits option.splits)

function parse_chars :: "string \<Rightarrow> (string \<times> string) option" where
  "parse_chars [] = None"
| "parse_chars (c # s) =
     (if c = quote_mark then Some ([], s)
      else if c = backslash then
        (case json_unescape s of
           None \<Rightarrow> None
         | Some (u, n) \<Rightarrow> map_option (prepend u) (parse_chars (drop n s)))
      else if byte c < 32 then None
      else if byte c < 128 then map_option (prepend [c]) (parse_chars s)
      else
        (case decode_rune (c # s) of
           None \<Rightarrow> map_option (prepend (encode_rune 65533)) (parse_chars s)
         | Some (r, w) \<Rightarrow> map_option (prepend (encode_rune r)) (parse_chars (drop (w - 1) s))))"
  by pat_completeness auto
termination by (relation "measure length") auto

subsection \<open>Values\<close>

definition json_space :: "char \<Rightarrow> bool" where
  "json_space c \<longleftrightarrow> c \<in> set [CHR '' '', CHR 0x09, CHR 0x0D, CHR 0x0A]"

definition skip :: "string \<Rightarrow> string" where
  "skip s = dropWhile json_space s"

definition expect :: "char \<Rightarrow> string \<Rightarrow> string option" where
  "expect c s = (case skip s of [] \<Rightarrow> None | d # t \<Rightarrow> if d = c then Some t else None)"

text \<open>A number: its sign, its digits without a leading zero, fraction and exponent.\<close>

definition digits :: "string \<Rightarrow> string \<times> string" where
  "digits s = (takeWhile is_digit s, dropWhile is_digit s)"

definition int_part :: "string \<Rightarrow> (string \<times> string) option" where
  "int_part s =
     (case s of
        [] \<Rightarrow> None
      | c # t \<Rightarrow> if c = CHR ''0'' then Some ([c], t) else if is_digit c then Some (digits s) else None)"

definition frac_part :: "string \<Rightarrow> (string \<times> string) option" where
  "frac_part s =
     (case s of
        [] \<Rightarrow> Some ([], [])
      | c # t \<Rightarrow>
          if c = CHR ''.'' then (case digits t of (ds, r) \<Rightarrow> if ds = [] then None else Some (c # ds, r))
          else Some ([], s))"

definition exp_part :: "string \<Rightarrow> (string \<times> string) option" where
  "exp_part s =
     (case s of
        [] \<Rightarrow> Some ([], [])
      | c # t \<Rightarrow>
          if c = CHR ''e'' \<or> c = CHR ''E'' then
            (let sg = (if t \<noteq> [] \<and> (hd t = CHR ''+'' \<or> hd t = CHR ''-'') then [hd t] else []) in
             case digits (drop (length sg) t) of (ds, r) \<Rightarrow> if ds = [] then None else Some (c # sg @ ds, r))
          else Some ([], s))"

definition parse_number :: "string \<Rightarrow> (json \<times> string) option" where
  "parse_number s =
     (let neg = HasPrefix s ''-'' in
      case int_part (if neg then tl s else s) of
        None \<Rightarrow> None
      | Some (ds, s1) \<Rightarrow>
          (case frac_part s1 of
             None \<Rightarrow> None
           | Some (f, s2) \<Rightarrow>
               (case exp_part s2 of
                  None \<Rightarrow> None
                | Some (e, s3) \<Rightarrow>
                    Some (if f = [] \<and> e = [] then JInt (if neg then - int (dec_val ds) else int (dec_val ds))
                          else JNum ((if neg then ''-'' else []) @ ds @ f @ e), s3))))"

definition parse_word :: "string \<Rightarrow> json \<Rightarrow> string \<Rightarrow> (json \<times> string) option" where
  "parse_word w j s = (if HasPrefix s w then Some (j, drop (length w) s) else None)"

text \<open>The first argument bounds the depth of the recursion; the length of the text is enough.\<close>

fun parse_value :: "nat \<Rightarrow> string \<Rightarrow> (json \<times> string) option"
  and parse_elems :: "nat \<Rightarrow> string \<Rightarrow> (json list \<times> string) option"
  and parse_members :: "nat \<Rightarrow> string \<Rightarrow> ((string \<times> json) list \<times> string) option" where
  "parse_value 0 s = None"
| "parse_value (Suc n) s =
     (case skip s of
        [] \<Rightarrow> None
      | c # t \<Rightarrow>
          if c = CHR ''{'' then
            (case expect CHR ''}'' t of
               Some r \<Rightarrow> Some (JObj [], r)
             | None \<Rightarrow> map_option (\<lambda>(ms, r). (JObj ms, r)) (parse_members n t))
          else if c = CHR ''['' then
            (case expect CHR '']'' t of
               Some r \<Rightarrow> Some (JArr [], r)
             | None \<Rightarrow> map_option (\<lambda>(js, r). (JArr js, r)) (parse_elems n t))
          else if c = quote_mark then map_option (\<lambda>(u, r). (JStr u, r)) (parse_chars t)
          else if c = CHR ''t'' then parse_word ''true'' (JBool True) (c # t)
          else if c = CHR ''f'' then parse_word ''false'' (JBool False) (c # t)
          else if c = CHR ''n'' then parse_word ''null'' JNull (c # t)
          else parse_number (c # t))"
| "parse_elems 0 s = None"
| "parse_elems (Suc n) s =
     (case parse_value n s of
        None \<Rightarrow> None
      | Some (j, s1) \<Rightarrow>
          (case expect CHR '','' s1 of
             Some s2 \<Rightarrow> map_option (\<lambda>(js, r). (j # js, r)) (parse_elems n s2)
           | None \<Rightarrow> map_option (\<lambda>r. ([j], r)) (expect CHR '']'' s1)))"
| "parse_members 0 s = None"
| "parse_members (Suc n) s =
     (case Option.bind (expect quote_mark s) parse_chars of
        None \<Rightarrow> None
      | Some (k, s1) \<Rightarrow>
          (case Option.bind (expect CHR '':'' s1) (parse_value n) of
             None \<Rightarrow> None
           | Some (v, s2) \<Rightarrow>
               (case expect CHR '','' s2 of
                  Some s3 \<Rightarrow> map_option (\<lambda>(ms, r). ((k, v) # ms, r)) (parse_members n s3)
                | None \<Rightarrow> map_option (\<lambda>r. ([(k, v)], r)) (expect CHR ''}'' s2))))"

definition json_decode :: "string \<Rightarrow> (json \<times> string) option" where
  "json_decode s = parse_value (length s) s"

text \<open>\<open>json.Unmarshal\<close>: one value and only blanks after it.\<close>

definition json_unmarshal :: "string \<Rightarrow> json option" where
  "json_unmarshal s =
     (case json_decode s of Some (j, r) \<Rightarrow> if skip r = [] then Some j else None | None \<Rightarrow> None)"

fun json_render :: "json \<Rightarrow> string" where
  "json_render JNull = ''null''"
| "json_render (JBool b) = (if b then ''true'' else ''false'')"
| "json_render (JInt i) = Itoa i"
| "json_render (JNum s) = s"
| "json_render (JStr s) = json_string s"
| "json_render (JArr js) = ''['' @ Join_char CHR '','' (map json_render js) @ '']''"
| "json_render (JObj kvs) =
     ''{'' @ Join_char CHR '','' (map (\<lambda>(k, v). json_string k @ CHR '':'' # json_render v) kvs) @ ''}''"


lemmas [eval_simps] =
  json_escapes_def json_escape_byte_def json_escape_rune_def json_string_def surrogate_def json_unescape_def
  json_space_def skip_def expect_def digits_def int_part_def frac_part_def exp_part_def parse_number_def
  parse_word_def json_decode_def json_unmarshal_def

subsection \<open>Strings are read back\<close>

function valid_utf8 :: "string \<Rightarrow> bool" where
  "valid_utf8 [] = True"
| "valid_utf8 (c # s) = (case decode_rune (c # s) of None \<Rightarrow> False | Some (r, w) \<Rightarrow> valid_utf8 (drop (w - 1) s))"
  by pat_completeness auto
termination by (relation "measure length") auto

text \<open>What arrives of a text: a byte that is no part of a rune is replaced by U+FFFD.\<close>

function utf8_text :: "string \<Rightarrow> string" where
  "utf8_text [] = []"
| "utf8_text (c # s) =
     (case decode_rune (c # s) of
        None \<Rightarrow> encode_rune 65533 @ utf8_text s
      | Some (r, w) \<Rightarrow> encode_rune r @ utf8_text (drop (w - 1) s))"
  by pat_completeness auto
termination by (relation "measure length") auto

lemma decode_rune_ascii: "byte c < 128 \<Longrightarrow> decode_rune (c # s) = Some (byte c, 1)"
  by (simp add: decode_rune_def)

lemma valid_utf8_ascii: "\<forall>c\<in>set s. byte c < 128 \<Longrightarrow> valid_utf8 s"
  by (induction s) (simp_all add: decode_rune_ascii)

lemma parse_escape:
  assumes "json_unescape (u @ t) = Some (out, length u)"
  shows "parse_chars (backslash # u @ t) = map_option (prepend out) (parse_chars t)"
  using assms by (simp add: quote_mark_def backslash_def)

lemma parse_hex_escape:
  assumes "r < 65536" "\<not> surrogate r"
  shows "parse_chars ([backslash, CHR ''u''] @ hex_pad 4 r @ t) = map_option (prepend (encode_rune r)) (parse_chars t)"
proof -
  have "hex_num (take 4 (hex_pad 4 r @ t)) = Some r" using hex_num_pad [of r 4] assms(1) by simp
  then have "json_unescape ((CHR ''u'' # hex_pad 4 r) @ t) = Some (encode_rune r, length (CHR ''u'' # hex_pad 4 r))"
    using assms(2) by (simp add: json_unescape_def)
  from parse_escape [OF this] show ?thesis by simp
qed

lemma unescape_letter:
  assumes "map_of json_escapes n = Some d"
  shows "json_unescape (d # t) = Some ([char_of n], 1)"
proof -
  have "(n, d) \<in> {(34, CHR 0x22), (92, CHR 0x5C), (8, CHR ''b''), (12, CHR ''f''), (10, CHR ''n''), (13, CHR ''r''),
      (9, CHR ''t'')}"
    using map_of_SomeD [OF assms] by (simp add: json_escapes_def)
  then consider "n = 34" "d = CHR 0x22" | "n = 92" "d = CHR 0x5C" | "n = 8" "d = CHR ''b''" | "n = 12" "d = CHR ''f''"
    | "n = 10" "d = CHR ''n''" | "n = 13" "d = CHR ''r''" | "n = 9" "d = CHR ''t''"
    by blast
  then show ?thesis by cases (simp_all add: json_unescape_def json_escapes_def)
qed

lemma parse_byte:
  assumes "byte c < 128"
  shows "parse_chars (json_escape_byte c @ t) = map_option (prepend [c]) (parse_chars t)"
proof (cases "map_of json_escapes (byte c)")
  case (Some d)
  then have "json_unescape ([d] @ t) = Some ([char_of (byte c)], length [d])"
    using unescape_letter by simp
  from parse_escape [OF this] show ?thesis using Some by (simp add: json_escape_byte_def)
next
  case None
  then have c: "c \<noteq> quote_mark" "c \<noteq> backslash"
    by (auto simp: json_escapes_def quote_mark_def backslash_def)
  show ?thesis
  proof (cases "byte c < 32 \<or> c \<in> set ''<>&''")
    case True
    have "encode_rune (byte c) = [c]" using assms by (simp add: encode_rune_def)
    moreover have "\<not> surrogate (byte c)" using assms by (simp add: surrogate_def)
    ultimately show ?thesis using parse_hex_escape [of "byte c" t] assms True None
      by (simp add: json_escape_byte_def)
  next
    case False
    then show ?thesis using c assms None by (simp add: json_escape_byte_def)
  qed
qed

text \<open>The decoding looks at the bytes of the rune only.\<close>

lemma decode_rune_local:
  assumes "decode_rune s = Some (r, w)"
  shows "decode_rune (take w s @ t) = Some (r, w)"
proof -
  obtain c0 s1 where s: "s = c0 # s1" using assms by (auto simp: decode_rune_def split: list.splits)
  consider "byte c0 < 128" | "194 \<le> byte c0" "byte c0 \<le> 223" | "224 \<le> byte c0" "byte c0 \<le> 239"
    | "240 \<le> byte c0" "byte c0 \<le> 244"
    using assms by (auto simp: decode_rune_def s Let_def not_less not_le split: if_splits)
  then show ?thesis
  proof cases
    case 1
    then show ?thesis using assms by (auto simp: s decode_rune_ascii)
  next
    case 2
    then obtain c1 s2 where "s1 = c1 # s2" "continuation (byte c1)"
      "r = (byte c0 - 192) * 64 + (byte c1 - 128)" "w = 2"
      using assms by (auto simp: decode_rune_def s Let_def split: list.splits if_splits)
    then show ?thesis using 2 by (simp add: s decode_rune_def Let_def)
  next
    case 3
    then obtain c1 c2 s2 where "s1 = c1 # c2 # s2" "w = 3"
      using assms by (auto simp: decode_rune_def s Let_def split: list.splits if_splits)
    then show ?thesis using 3 assms by (simp add: s decode_rune_def Let_def)
  next
    case 4
    then obtain c1 c2 c3 s2 where "s1 = c1 # c2 # c3 # s2" "w = 4"
      using assms by (auto simp: decode_rune_def s Let_def split: list.splits if_splits)
    then show ?thesis using 4 assms by (simp add: s decode_rune_def Let_def)
  qed
qed

lemma encode_rune_decode:
  assumes "decode_rune s = Some (r, w)" "128 \<le> byte (hd s)"
  shows "parse_chars (encode_rune r @ t) = map_option (prepend (encode_rune r)) (parse_chars t)"
proof -
  note d = decode_rune_encode [OF assms(1)]
  obtain c u where s: "s = c # u" using d by (cases s) auto
  have e: "encode_rune r = c # take (w - 1) u" using d by (cases w) (auto simp: s)
  have "decode_rune (c # take (w - 1) u @ t) = Some (r, w)"
    using decode_rune_local [OF assms(1), of t] d e by simp
  moreover have "length (take (w - 1) u) = w - 1" using d by (auto simp: s)
  moreover have "c \<noteq> quote_mark" "c \<noteq> backslash" "\<not> byte c < 32" "\<not> byte c < 128"
    using assms(2) by (auto simp: s quote_mark_def backslash_def)
  ultimately show ?thesis by (simp add: e)
qed

lemma ascii_rune: "byte c < 128 \<Longrightarrow> encode_rune (byte c) = [c]"
  by (simp add: encode_rune_def)

lemma rune_bytes:
  assumes "decode_rune (c # s) = Some (r, w)"
  shows "encode_rune r @ drop (w - 1) s = c # s"
  using decode_rune_encode [OF assms] append_take_drop_id [of w "c # s"] by (cases w) auto

lemma utf8_text_ascii_Cons: "byte c < 128 \<Longrightarrow> utf8_text (c # s) = c # utf8_text s"
  by (simp add: decode_rune_ascii ascii_rune)

lemma utf8_text_valid: "valid_utf8 s \<Longrightarrow> utf8_text s = s"
proof (induction s rule: valid_utf8.induct)
  case 1
  then show ?case by simp
next
  case (2 c s)
  then obtain r w where rw: "decode_rune (c # s) = Some (r, w)" by (auto split: option.splits)
  then show ?case using 2 rune_bytes [OF rw] by simp
qed

lemma utf8_text_ascii: "\<forall>c\<in>set s. byte c < 128 \<Longrightarrow> utf8_text s = s"
  by (rule utf8_text_valid) (rule valid_utf8_ascii)

lemma parse_json_chars: "parse_chars (json_chars s @ quote_mark # t) = Some (utf8_text s, t)"
proof (induction s rule: json_chars.induct)
  case 1
  then show ?case by simp
next
  case (2 c s)
  show ?case
  proof (cases "byte c < 128")
    case True
    then show ?thesis using 2(1) [OF True] parse_byte [OF True] by (simp add: utf8_text_ascii_Cons del: utf8_text.simps)
  next
    case high: False
    show ?thesis
    proof (cases "decode_rune (c # s)")
      case None
      have "parse_chars (backslash # (''ufffd'' @ json_chars s @ quote_mark # t))
          = map_option (prepend (encode_rune 65533)) (parse_chars (json_chars s @ quote_mark # t))"
        using parse_escape [of "''ufffd''" "json_chars s @ quote_mark # t" "encode_rune 65533"]
        by (simp add: json_unescape_def eval_simps)
      then show ?thesis using 2(2) [OF high None] None high by simp
    next
      case (Some p)
      obtain r w where rw: "decode_rune (c # s) = Some (r, w)" using Some by (cases p) auto
      have "parse_chars (json_escape_rune r @ u) = map_option (prepend (encode_rune r)) (parse_chars u)" for u
      proof (cases "r = 8232 \<or> r = 8233")
        case True
        then show ?thesis using parse_hex_escape [of r u] by (auto simp: json_escape_rune_def surrogate_def)
      next
        case not_line: False
        then show ?thesis using encode_rune_decode [OF rw, of u] high by (simp add: json_escape_rune_def)
      qed
      then show ?thesis using 2(3) [OF high rw refl] rw high by simp
    qed
  qed
qed

subsection \<open>Values are read back\<close>

text \<open>The values whose strings are text and whose numbers are integers.\<close>

fun json_ok :: "json \<Rightarrow> bool" where
  "json_ok JNull = True"
| "json_ok (JBool b) = True"
| "json_ok (JInt i) = True"
| "json_ok (JNum s) = False"
| "json_ok (JStr s) = valid_utf8 s"
| "json_ok (JArr js) = list_all json_ok js"
| "json_ok (JObj kvs) = list_all (\<lambda>(k, v). valid_utf8 k \<and> json_ok v) kvs"

text \<open>The values whose numbers are integers, and what arrives of a value.\<close>

fun integral :: "json \<Rightarrow> bool" where
  "integral (JNum s) = False"
| "integral (JArr js) = list_all integral js"
| "integral (JObj kvs) = list_all (\<lambda>(k, v). integral v) kvs"
| "integral j = True"

fun json_utf8 :: "json \<Rightarrow> json" where
  "json_utf8 (JStr s) = JStr (utf8_text s)"
| "json_utf8 (JArr js) = JArr (map json_utf8 js)"
| "json_utf8 (JObj kvs) = JObj (map (\<lambda>(k, v). (utf8_text k, json_utf8 v)) kvs)"
| "json_utf8 j = j"

lemma json_ok_utf8: "json_ok j \<Longrightarrow> integral j \<and> json_utf8 j = j"
  by (induction j) (fastforce simp: list_all_iff utf8_text_valid intro!: map_idI)+

lemma skip_Cons: "skip (c # s) = (if json_space c then skip s else c # s)"
  by (simp add: skip_def)

lemma expect_here: "\<not> json_space c \<Longrightarrow> expect c (c # s) = Some s"
  by (simp add: expect_def skip_Cons)

lemma expect_other: "\<not> json_space d \<Longrightarrow> d \<noteq> c \<Longrightarrow> expect c (d # s) = None"
  by (simp add: expect_def skip_Cons)

text \<open>What may follow a value in a text: nothing, a comma, a closing bracket or a blank.\<close>

definition closes :: "string \<Rightarrow> bool" where
  "closes s \<longleftrightarrow> s = [] \<or> hd s = CHR '','' \<or> hd s = CHR '']'' \<or> hd s = CHR ''}'' \<or> json_space (hd s)"

lemma closes_Cons [simp]: "closes (CHR '','' # s)" "closes (CHR '']'' # s)" "closes (CHR ''}'' # s)"
  by (simp_all add: closes_def)

lemma closes_number:
  assumes "closes s"
  shows "frac_part s = Some ([], s)" "exp_part s = Some ([], s)" "takeWhile is_digit s = []"
proof -
  have "hd s \<noteq> CHR ''.'' \<and> hd s \<noteq> CHR ''e'' \<and> hd s \<noteq> CHR ''E'' \<and> \<not> is_digit (hd s)" if "s \<noteq> []"
    using that assms by (auto simp: closes_def json_space_def is_digit_def)
  then show "frac_part s = Some ([], s)" "exp_part s = Some ([], s)" "takeWhile is_digit s = []"
    by (cases s; simp add: frac_part_def exp_part_def)+
qed

lemma dec_digits_zero: "hd (dec_digits n) = CHR ''0'' \<Longrightarrow> dec_digits n = ''0''"
proof (induction n rule: dec_digits.induct)
  case (1 n)
  show ?case
  proof (cases "n < 10")
    case True
    then have "dec_digits n = [char_of (48 + n)]" by (subst dec_digits.simps) simp
    then show ?thesis using 1(2) by simp
  next
    case False
    then have e: "dec_digits n = dec_digits (n div 10) @ [char_of (48 + n mod 10)]" by (subst dec_digits.simps) simp
    then have "dec_digits (n div 10) = ''0''" using 1 False by simp
    then have "dec_val ''0'' = n div 10" by (metis dec_val_dec_digits)
    moreover have "dec_val ''0'' = 0" by (simp add: dec_val_def digit_val_def)
    ultimately show ?thesis using False by simp
  qed
qed

lemma int_part_digits:
  assumes "closes r"
  shows "int_part (dec_digits n @ r) = Some (dec_digits n, r)"
proof -
  obtain c cs where c: "dec_digits n = c # cs" by (cases "dec_digits n") auto
  have all: "list_all is_digit (dec_digits n)" using dec_digits_digit by (simp add: list_all_iff)
  have "takeWhile is_digit (dec_digits n @ r) = dec_digits n" "dropWhile is_digit (dec_digits n @ r) = r"
    using all closes_number(3) [OF assms] by (simp_all add: list_all_iff takeWhile_append2 dropWhile_append2)
      (cases r; simp split: if_splits)
  moreover have "dec_digits n = ''0''" if "c = CHR ''0''" using dec_digits_zero [of n] c that by simp
  moreover have "is_digit c" using all c by simp
  ultimately show ?thesis using c by (auto simp: int_part_def digits_def)
qed

lemma parse_Itoa:
  assumes "closes r"
  shows "parse_number (Itoa i @ r) = Some (JInt i, r)"
proof (cases "i < 0")
  case True
  then show ?thesis using int_part_digits [OF assms] closes_number [OF assms]
    by (simp add: parse_number_def Itoa_def HasPrefix_def)
next
  case False
  obtain c cs where c: "dec_digits (nat i) = c # cs" by (cases "dec_digits (nat i)") auto
  then have "is_digit c" using dec_digits_digit [of c "nat i"] by simp
  then have "c \<noteq> CHR ''-''" by (simp add: is_digit_not_sign)
  then have "\<not> HasPrefix (dec_digits (nat i) @ r) ''-''" by (simp add: c HasPrefix_def)
  then show ?thesis using False int_part_digits [OF assms, of "nat i"] closes_number [OF assms]
    by (simp add: parse_number_def Itoa_def)
qed

text \<open>Reading one value does not depend on the rest.\<close>

definition reads_back :: "json \<Rightarrow> bool" where
  "reads_back j \<longleftrightarrow> (\<forall>n r. length (json_render j) \<le> n \<longrightarrow> closes r \<longrightarrow> parse_value n (json_render j @ r) = Some (json_utf8 j, r))"

lemma parse_elems_back:
  assumes "\<forall>j\<in>set js. reads_back j" "js \<noteq> []" "Suc (length (Join_char CHR '','' (map json_render js))) \<le> n"
  shows "parse_elems n (Join_char CHR '','' (map json_render js) @ CHR '']'' # r) = Some (map json_utf8 js, r)"
  using assms
proof (induction js arbitrary: n)
  case Nil
  then show ?case by simp
next
  case (Cons j js)
  obtain m where n: "n = Suc m" using Cons.prems(3) by (cases n) auto
  have bracket: "\<not> json_space CHR '']''" "\<not> json_space CHR '',''" by (simp_all add: json_space_def)
  show ?case
  proof (cases js)
    case Nil
    then have "parse_value m (json_render j @ CHR '']'' # r) = Some (json_utf8 j, CHR '']'' # r)"
      using Cons.prems n by (simp add: reads_back_def)
    then show ?thesis using bracket by (simp add: n Nil expect_here expect_other)
  next
    case (Cons k ks)
    let ?tail = "Join_char CHR '','' (map json_render js) @ CHR '']'' # r"
    have "parse_value m (json_render j @ CHR '','' # ?tail) = Some (json_utf8 j, CHR '','' # ?tail)"
      using Cons.prems n Cons by (simp add: reads_back_def)
    moreover have "parse_elems m ?tail = Some (map json_utf8 js, r)"
      using Cons.IH [of m] Cons.prems n Cons by simp
    ultimately show ?thesis using bracket by (simp add: n Cons expect_here)
  qed
qed

lemma expect_string: "expect quote_mark (json_string k @ t) = Some (json_chars k @ quote_mark # t)"
  by (simp add: json_string_def expect_here json_space_def quote_mark_def)

lemma parse_members_back:
  assumes "\<forall>p\<in>set kvs. reads_back (snd p)" "kvs \<noteq> []"
    "Suc (length (Join_char CHR '','' (map (\<lambda>(k, v). json_string k @ CHR '':'' # json_render v) kvs))) \<le> n"
  shows "parse_members n (Join_char CHR '','' (map (\<lambda>(k, v). json_string k @ CHR '':'' # json_render v) kvs) @ CHR ''}'' # r)
    = Some (map (\<lambda>(k, v). (utf8_text k, json_utf8 v)) kvs, r)"
  using assms
proof (induction kvs arbitrary: n)
  case Nil
  then show ?case by simp
next
  case (Cons p kvs)
  obtain k v where p: "p = (k, v)" by fastforce
  obtain m where n: "n = Suc m" using Cons.prems(3) by (cases n) auto
  have marks: "\<not> json_space CHR ''}''" "\<not> json_space CHR '',''" "\<not> json_space CHR '':''" by (simp_all add: json_space_def)
  show ?case
  proof (cases kvs)
    case Nil
    then have "parse_value m (json_render v @ CHR ''}'' # r) = Some (json_utf8 v, CHR ''}'' # r)"
      using Cons.prems n p by (simp add: reads_back_def)
    then show ?thesis using marks parse_json_chars [of k] by (simp add: n Nil p expect_here expect_other expect_string)
  next
    case (Cons q qs)
    let ?tail = "Join_char CHR '','' (map (\<lambda>(k, v). json_string k @ CHR '':'' # json_render v) kvs) @ CHR ''}'' # r"
    have "parse_value m (json_render v @ CHR '','' # ?tail) = Some (json_utf8 v, CHR '','' # ?tail)"
      using Cons.prems n p Cons by (simp add: reads_back_def)
    moreover have "parse_members m ?tail = Some (map (\<lambda>(k, v). (utf8_text k, json_utf8 v)) kvs, r)"
      using Cons.IH [of m] Cons.prems n p Cons by simp
    ultimately show ?thesis using marks parse_json_chars [of k] by (simp add: n Cons p expect_here expect_string)
  qed
qed


lemma Itoa_start: "\<exists>c t. Itoa i = c # t \<and> (is_digit c \<or> c = CHR ''-'')"
proof (cases "i < 0")
  case False
  obtain c t where c: "dec_digits (nat i) = c # t" by (cases "dec_digits (nat i)") auto
  then have "is_digit c" using dec_digits_digit [of c "nat i"] by simp
  with c False show ?thesis by (simp add: Itoa_def)
qed (simp add: Itoa_def)

lemma digit_start:
  assumes "is_digit c \<or> c = CHR ''-''"
  shows "\<not> json_space c" "c \<noteq> CHR ''{''" "c \<noteq> CHR ''[''" "c \<noteq> CHR '']''" "c \<noteq> quote_mark" "c \<noteq> CHR ''t''"
    "c \<noteq> CHR ''f''" "c \<noteq> CHR ''n''"
  using assms by (auto simp: is_digit_def json_space_def quote_mark_def)

lemma render_start:
  assumes "integral j"
  shows "\<exists>c t. json_render j = c # t \<and> \<not> json_space c \<and> c \<noteq> CHR '']''"
proof (cases j)
  case (JInt i)
  obtain c t where c: "Itoa i = c # t" "is_digit c \<or> c = CHR ''-''" using Itoa_start by blast
  then show ?thesis using digit_start [OF c(2)] JInt by simp
next
  case (JBool b)
  then show ?thesis by (simp add: json_space_def)
next
  case (JNum s)
  then show ?thesis using assms by simp
qed (simp_all add: json_space_def json_string_def quote_mark_def)

lemma parse_value_Arr:
  "parse_value (Suc n) (CHR ''['' # t) =
    (case expect CHR '']'' t of Some r \<Rightarrow> Some (JArr [], r)
     | None \<Rightarrow> map_option (\<lambda>(js, r). (JArr js, r)) (parse_elems n t))"
  by (simp add: skip_Cons json_space_def)

lemma parse_value_Obj:
  "parse_value (Suc n) (CHR ''{'' # t) =
    (case expect CHR ''}'' t of Some r \<Rightarrow> Some (JObj [], r)
     | None \<Rightarrow> map_option (\<lambda>(ms, r). (JObj ms, r)) (parse_members n t))"
  by (simp add: skip_Cons json_space_def)

lemma render_Arr: "json_render (JArr js) @ r = CHR ''['' # Join_char CHR '','' (map json_render js) @ CHR '']'' # r"
  by simp

lemma render_Obj: "json_render (JObj kvs) @ r =
    CHR ''{'' # Join_char CHR '','' (map (\<lambda>(k, v). json_string k @ CHR '':'' # json_render v) kvs) @ CHR ''}'' # r"
  by simp

lemma reads_back_Arr:
  assumes "\<forall>j\<in>set js. reads_back j" "list_all integral js"
  shows "reads_back (JArr js)"
  unfolding reads_back_def
proof (intro allI impI)
  fix n r assume n: "length (json_render (JArr js)) \<le> n"
  let ?body = "Join_char CHR '','' (map json_render js)"
  obtain m where m: "n = Suc m" using n by (cases n) auto
  show "parse_value n (json_render (JArr js) @ r) = Some (json_utf8 (JArr js), r)"
  proof (cases js)
    case Nil
    have "expect CHR '']'' (CHR '']'' # r) = Some r" by (simp add: expect_here json_space_def)
    then show ?thesis unfolding m render_Arr parse_value_Arr by (simp add: Nil)
  next
    case (Cons j ks)
    then obtain c t where c: "json_render j = c # t" "\<not> json_space c" "c \<noteq> CHR '']''"
      using render_start [of j] assms(2) by auto
    then have none: "expect CHR '']'' (?body @ CHR '']'' # r) = None"
      by (cases ks) (simp_all add: Cons expect_other)
    have "parse_elems m (?body @ CHR '']'' # r) = Some (map json_utf8 js, r)"
      using parse_elems_back [OF assms(1)] n m Cons by simp
    then show ?thesis unfolding m render_Arr parse_value_Arr none by (simp del: parse_elems.simps)
  qed
qed

lemma reads_back_Obj:
  assumes "\<forall>p\<in>set kvs. reads_back (snd p)"
  shows "reads_back (JObj kvs)"
  unfolding reads_back_def
proof (intro allI impI)
  fix n r assume n: "length (json_render (JObj kvs)) \<le> n"
  let ?body = "Join_char CHR '','' (map (\<lambda>(k, v). json_string k @ CHR '':'' # json_render v) kvs)"
  obtain m where m: "n = Suc m" using n by (cases n) auto
  show "parse_value n (json_render (JObj kvs) @ r) = Some (json_utf8 (JObj kvs), r)"
  proof (cases kvs)
    case Nil
    have "expect CHR ''}'' (CHR ''}'' # r) = Some r" by (simp add: expect_here json_space_def)
    then show ?thesis unfolding m render_Obj parse_value_Obj by (simp add: Nil)
  next
    case (Cons p ps)
    have none: "expect CHR ''}'' (?body @ CHR ''}'' # r) = None"
      by (cases ps; cases p) (simp_all add: Cons json_string_def expect_other json_space_def quote_mark_def)
    have "parse_members m (?body @ CHR ''}'' # r) = Some (map (\<lambda>(k, v). (utf8_text k, json_utf8 v)) kvs, r)"
      using parse_members_back [OF assms] n m Cons by simp
    then show ?thesis unfolding m render_Obj parse_value_Obj none by (simp del: parse_members.simps)
  qed
qed

lemma json_reads_back: "integral j \<Longrightarrow> reads_back j"
proof (induction j)
  case (JInt i)
  have "parse_value n (Itoa i @ r) = Some (JInt i, r)" if "length (Itoa i) \<le> n" "closes r" for n r
  proof -
    obtain c t where c: "Itoa i = c # t" "is_digit c \<or> c = CHR ''-''" using Itoa_start by blast
    have "0 < n" using that(1) c(1) by simp
    then obtain m where "n = Suc m" using gr0_implies_Suc by blast
    then show ?thesis using digit_start [OF c(2)] parse_Itoa [OF that(2), of i] c(1) by (simp add: skip_Cons)
  qed
  then show ?case by (simp add: reads_back_def)
next
  case (JStr s)
  have "parse_value n (json_string s @ r) = Some (JStr (utf8_text s), r)" if "length (json_string s) \<le> n" for n r
  proof -
    have "0 < n" using that by (simp add: json_string_def)
    then obtain m where "n = Suc m" using gr0_implies_Suc by blast
    then show ?thesis using parse_json_chars [of s r]
      by (simp add: json_string_def skip_Cons json_space_def quote_mark_def)
  qed
  then show ?case by (simp add: reads_back_def)
next
  case (JArr js)
  then show ?case by (intro reads_back_Arr) (auto simp: list_all_iff)
next
  case (JObj kvs)
  then show ?case by (intro reads_back_Obj) (fastforce simp: list_all_iff)
next
  case JNull
  have "parse_value n (''null'' @ r) = Some (JNull, r)" if "length ''null'' \<le> n" for n r
    using that by (cases n) (auto simp: skip_Cons json_space_def quote_mark_def parse_word_def HasPrefix_def)
  then show ?case by (simp add: reads_back_def)
next
  case (JBool b)
  have "parse_value n ((if b then ''true'' else ''false'') @ r) = Some (JBool b, r)" if "0 < n" for n r
    using that by (cases n) (auto simp: skip_Cons json_space_def quote_mark_def parse_word_def HasPrefix_def)
  then show ?case by (auto simp: reads_back_def split: if_splits)
qed simp

text \<open>A decoder reads back what was marshalled, whatever follows it.\<close>

lemma json_decode_sent:
  assumes "integral j" and "closes r"
  shows "json_decode (json_render j @ r) = Some (json_utf8 j, r)"
  using json_reads_back [OF assms(1)] assms(2) by (simp add: json_decode_def reads_back_def)

theorem json_decode_render:
  assumes "json_ok j" and "closes r"
  shows "json_decode (json_render j @ r) = Some (j, r)"
  using json_decode_sent [OF _ assms(2), of j] json_ok_utf8 [OF assms(1)] by simp

text \<open>What an encoder wrote arrives with its invalid bytes replaced.\<close>

lemma json_unmarshal_sent: "integral j \<Longrightarrow> json_unmarshal (json_render j @ [CHR 0x0A]) = Some (json_utf8 j)"
  using json_decode_sent [of j "[CHR 0x0A]"]
  by (simp add: json_unmarshal_def closes_def skip_def json_space_def)

lemma json_unmarshal_render: "json_ok j \<Longrightarrow> json_unmarshal (json_render j @ [CHR 0x0A]) = Some j"
  using json_unmarshal_sent [of j] json_ok_utf8 [of j] by simp

end
