(* ===== verification/Wire.thy ===== *)
theory Wire
  imports Resume GoJsonText
begin

text \<open>
  The messages of the control protocol as bytes: the JSON of the structs of
  \<open>internal/control/protocol.go\<close> with their names and \<open>omitempty\<close>, the
  server's bounded reading of a request (\<open>decodeBaseRequest\<close> of
  \<open>internal/server/control.go\<close>) and the client's reading of a reply
  (\<open>internal/client/control_response.go\<close>). A JSON array is put over the elements the slice
  has; elements of its backing array past its length are not modelled.
\<close>

subsection \<open>Fields\<close>

definition string_member :: "string \<Rightarrow> string \<Rightarrow> (string \<times> json) list" where
  "string_member n s = (if s = [] then [] else [(n, JStr s)])"

definition strings_member :: "string \<Rightarrow> string list \<Rightarrow> (string \<times> json) list" where
  "strings_member n ss = (if ss = [] then [] else [(n, JArr (map JStr ss))])"

definition header_kv_json :: "header_kv \<Rightarrow> json" where
  "header_kv_json h = JObj [(''name'', JStr (kv_name h)), (''value'', JStr (kv_value h))]"

definition headers_member :: "string \<Rightarrow> header_kv list \<Rightarrow> (string \<times> json) list" where
  "headers_member n hs = (if hs = [] then [] else [(n, JArr (map header_kv_json hs))])"

text \<open>A slice: null makes it nil, an array replaces its elements one by one.\<close>

fun put_elems :: "(json \<Rightarrow> 'a \<Rightarrow> 'a option) \<Rightarrow> 'a \<Rightarrow> json list \<Rightarrow> 'a list \<Rightarrow> 'a list option" where
  "put_elems put zero [] old = Some []"
| "put_elems put zero (j # js) old =
     Option.bind (put j (case old of [] \<Rightarrow> zero | x # _ \<Rightarrow> x))
       (\<lambda>x. map_option ((#) x) (put_elems put zero js (tl old)))"

definition into_list ::
  "(json \<Rightarrow> 'a \<Rightarrow> 'a option) \<Rightarrow> 'a \<Rightarrow> ('r \<Rightarrow> 'a list) \<Rightarrow> ('a list \<Rightarrow> 'r \<Rightarrow> 'r) \<Rightarrow> json \<Rightarrow> 'r \<Rightarrow> 'r option" where
  "into_list put zero get upd v r =
     (case v of
        JArr js \<Rightarrow> map_option (\<lambda>xs. upd xs r) (put_elems put zero js (get r))
      | JNull \<Rightarrow> Some (upd [] r)
      | _ \<Rightarrow> None)"

definition into_texts :: "('r \<Rightarrow> string list) \<Rightarrow> (string list \<Rightarrow> 'r \<Rightarrow> 'r) \<Rightarrow> json \<Rightarrow> 'r \<Rightarrow> 'r option" where
  "into_texts get upd = into_list (into_string (\<lambda>s _. s)) [] get upd"

definition header_kv_fields :: "(string \<times> (json \<Rightarrow> header_kv \<Rightarrow> header_kv option)) list" where
  "header_kv_fields =
     [(''name'', into_string (\<lambda>s. kv_name_update (\<lambda>_. s))), (''value'', into_string (\<lambda>s. kv_value_update (\<lambda>_. s)))]"

definition into_headers :: "('r \<Rightarrow> header_kv list) \<Rightarrow> (header_kv list \<Rightarrow> 'r \<Rightarrow> 'r) \<Rightarrow> json \<Rightarrow> 'r \<Rightarrow> 'r option" where
  "into_headers get upd = into_list (into_struct False header_kv_fields) \<lparr>kv_name = [], kv_value = []\<rparr> get upd"

subsection \<open>Requests\<close>

definition http_request_json :: "create_http_request \<Rightarrow> json" where
  "http_request_json req =
     JObj ([(''type'', JStr (http_type req))]
       @ string_member ''authtoken'' (http_authtoken req)
       @ string_member ''subdomain'' (http_subdomain req)
       @ string_member ''domain'' (http_domain req)
       @ string_member ''basic_auth'' (http_basic_auth req)
       @ strings_member ''allow_method'' (http_allow_method req)
       @ strings_member ''allow_path'' (http_allow_path req)
       @ strings_member ''allow_path_prefix'' (http_allow_path_prefix req)
       @ strings_member ''allow_cidr'' (http_allow_cidr req)
       @ strings_member ''deny_cidr'' (http_deny_cidr req)
       @ headers_member ''request_header_add'' (http_request_header_add req)
       @ strings_member ''request_header_remove'' (http_request_header_remove req)
       @ headers_member ''response_header_add'' (http_response_header_add req)
       @ strings_member ''response_header_remove'' (http_response_header_remove req))"

definition tcp_request_json :: "create_tcp_request \<Rightarrow> json" where
  "tcp_request_json req =
     JObj ([(''type'', JStr (tcp_type req))] @ string_member ''authtoken'' (tcp_authtoken req)
       @ [(''remote_port'', JInt (tcp_remote_port req))])"

text \<open>What \<open>WriteJSON\<close> sends when no write fails.\<close>

definition message_bytes :: "json \<Rightarrow> string" where
  "message_bytes j = json_render j @ [CHR 0x0A]"

definition maxControlRequestBytes :: nat where
  "maxControlRequestBytes = 64 * 1024"

definition zero_request :: base_request where
  "zero_request =
     \<lparr>bq_type = [], bq_authtoken = [], bq_remote_port = 0, bq_subdomain = [], bq_domain = [], bq_basic_auth = [],
      bq_allow_method = [], bq_allow_path = [], bq_allow_path_prefix = [], bq_allow_cidr = [], bq_deny_cidr = [],
      bq_request_header_add = [], bq_request_header_remove = [], bq_response_header_add = [],
      bq_response_header_remove = []\<rparr>"

definition base_fields :: "(string \<times> (json \<Rightarrow> base_request \<Rightarrow> base_request option)) list" where
  "base_fields =
     [(''type'', into_string (\<lambda>s. bq_type_update (\<lambda>_. s))),
      (''authtoken'', into_string (\<lambda>s. bq_authtoken_update (\<lambda>_. s))),
      (''remote_port'', into_int64 (\<lambda>i. bq_remote_port_update (\<lambda>_. i))),
      (''subdomain'', into_string (\<lambda>s. bq_subdomain_update (\<lambda>_. s))),
      (''domain'', into_string (\<lambda>s. bq_domain_update (\<lambda>_. s))),
      (''basic_auth'', into_string (\<lambda>s. bq_basic_auth_update (\<lambda>_. s))),
      (''allow_method'', into_texts bq_allow_method (\<lambda>s. bq_allow_method_update (\<lambda>_. s))),
      (''allow_path'', into_texts bq_allow_path (\<lambda>s. bq_allow_path_update (\<lambda>_. s))),
      (''allow_path_prefix'', into_texts bq_allow_path_prefix (\<lambda>s. bq_allow_path_prefix_update (\<lambda>_. s))),
      (''allow_cidr'', into_texts bq_allow_cidr (\<lambda>s. bq_allow_cidr_update (\<lambda>_. s))),
      (''deny_cidr'', into_texts bq_deny_cidr (\<lambda>s. bq_deny_cidr_update (\<lambda>_. s))),
      (''request_header_add'', into_headers bq_request_header_add (\<lambda>s. bq_request_header_add_update (\<lambda>_. s))),
      (''request_header_remove'', into_texts bq_request_header_remove (\<lambda>s. bq_request_header_remove_update (\<lambda>_. s))),
      (''response_header_add'', into_headers bq_response_header_add (\<lambda>s. bq_response_header_add_update (\<lambda>_. s))),
      (''response_header_remove'', into_texts bq_response_header_remove (\<lambda>s. bq_response_header_remove_update (\<lambda>_. s)))]"

definition decodeBaseRequest :: "string \<Rightarrow> base_request option" where
  "decodeBaseRequest r =
     (case json_decode (take maxControlRequestBytes r) of
        None \<Rightarrow> None
      | Some (j, _) \<Rightarrow> decode_struct False base_fields zero_request j)"

subsection \<open>Replies\<close>

definition tcp_response_json :: "create_tcp_response \<Rightarrow> json" where
  "tcp_response_json r =
     JObj ([(''type'', JStr (tcp_resp_type r)), (''remote_port'', JInt (tcp_resp_remote_port r))]
       @ string_member ''error'' (tcp_resp_error r))"

definition http_response_json :: "create_http_response \<Rightarrow> json" where
  "http_response_json r =
     JObj ([(''type'', JStr (http_resp_type r))] @ string_member ''id'' (http_resp_id r)
       @ string_member ''url'' (http_resp_url r) @ string_member ''error'' (http_resp_error r))"

definition reply_json :: "(string \<Rightarrow> string) \<Rightarrow> control_reply \<Rightarrow> json" where
  "reply_json quote reply =
     (case reply_message quote reply of Inl r \<Rightarrow> tcp_response_json r | Inr r \<Rightarrow> http_response_json r)"

definition http_response_fields :: "(string \<times> (json \<Rightarrow> create_http_response \<Rightarrow> create_http_response option)) list" where
  "http_response_fields =
     [(''type'', into_string (\<lambda>s. http_resp_type_update (\<lambda>_. s))),
      (''id'', into_string (\<lambda>s. http_resp_id_update (\<lambda>_. s))),
      (''url'', into_string (\<lambda>s. http_resp_url_update (\<lambda>_. s))),
      (''error'', into_string (\<lambda>s. http_resp_error_update (\<lambda>_. s)))]"

definition tcp_response_fields :: "(string \<times> (json \<Rightarrow> create_tcp_response \<Rightarrow> create_tcp_response option)) list" where
  "tcp_response_fields =
     [(''type'', into_string (\<lambda>s. tcp_resp_type_update (\<lambda>_. s))),
      (''remote_port'', into_int64 (\<lambda>i. tcp_resp_remote_port_update (\<lambda>_. i))),
      (''error'', into_string (\<lambda>s. tcp_resp_error_update (\<lambda>_. s)))]"

text \<open>What the client makes of the bytes it read; \<open>bad\<close> is the error of \<open>json.Unmarshal\<close>.\<close>

definition payload_of :: "(string \<Rightarrow> go_error) \<Rightarrow> (json \<Rightarrow> 'r option) \<Rightarrow> string \<Rightarrow> 'r payload" where
  "payload_of bad dec bytes =
     (if bytes = [] then NoPayload
      else
        (case Option.bind (json_unmarshal bytes) dec of
           None \<Rightarrow> BadPayload (bad bytes)
         | Some r \<Rightarrow> Payload r))"

definition http_payload :: "(string \<Rightarrow> go_error) \<Rightarrow> string \<Rightarrow> create_http_response payload" where
  "http_payload bad =
     payload_of bad (decode_struct False http_response_fields
       \<lparr>http_resp_type = [], http_resp_id = [], http_resp_url = [], http_resp_error = []\<rparr>)"

definition tcp_payload :: "(string \<Rightarrow> go_error) \<Rightarrow> string \<Rightarrow> create_tcp_response payload" where
  "tcp_payload bad =
     payload_of bad (decode_struct False tcp_response_fields
       \<lparr>tcp_resp_type = [], tcp_resp_remote_port = 0, tcp_resp_error = []\<rparr>)"

subsection \<open>Fields are read back\<close>

lemma decode_string_member:
  assumes "find (\<lambda>f. EqualFold (fst f) n) flds = Some (m, into_string upd)" and "s = [] \<longrightarrow> upd s r = r"
  shows "decode_fields st flds (string_member n s @ kvs) r = decode_fields st flds kvs (upd s r)"
  using assms by (auto simp: string_member_def into_string_def)

lemma put_texts: "put_elems (into_string (\<lambda>s _. s)) [] (map JStr ss) old = Some ss"
  by (induction ss arbitrary: old) (simp_all add: into_string_def)

lemma decode_strings_member:
  assumes "find (\<lambda>f. EqualFold (fst f) n) flds = Some (m, into_texts get upd)" and "ss = [] \<longrightarrow> upd ss r = r"
  shows "decode_fields st flds (strings_member n ss @ kvs) r = decode_fields st flds kvs (upd ss r)"
  using assms by (auto simp: strings_member_def into_texts_def into_list_def put_texts)

lemma header_kv_back: "into_struct False header_kv_fields (header_kv_json h) old = Some h"
  by (cases h) (simp add: header_kv_json_def into_struct_def header_kv_fields_def into_string_def eval_simps)

lemma put_headers: "put_elems (into_struct False header_kv_fields) z (map header_kv_json hs) old = Some hs"
  by (induction hs arbitrary: old) (simp_all add: header_kv_back)

lemma decode_headers_member:
  assumes "find (\<lambda>f. EqualFold (fst f) n) flds = Some (m, into_headers get upd)" and "hs = [] \<longrightarrow> upd hs r = r"
  shows "decode_fields st flds (headers_member n hs @ kvs) r = decode_fields st flds kvs (upd hs r)"
  using assms by (auto simp: headers_member_def into_headers_def into_list_def put_headers)

text \<open>Where a name finds its field.\<close>

lemma base_text_fields:
  "find (\<lambda>f. EqualFold (fst f) ''type'') base_fields = Some (''type'', into_string (\<lambda>s. bq_type_update (\<lambda>_. s)))"
  "find (\<lambda>f. EqualFold (fst f) ''authtoken'') base_fields = Some (''authtoken'', into_string (\<lambda>s. bq_authtoken_update (\<lambda>_. s)))"
  "find (\<lambda>f. EqualFold (fst f) ''subdomain'') base_fields = Some (''subdomain'', into_string (\<lambda>s. bq_subdomain_update (\<lambda>_. s)))"
  "find (\<lambda>f. EqualFold (fst f) ''domain'') base_fields = Some (''domain'', into_string (\<lambda>s. bq_domain_update (\<lambda>_. s)))"
  "find (\<lambda>f. EqualFold (fst f) ''basic_auth'') base_fields = Some (''basic_auth'', into_string (\<lambda>s. bq_basic_auth_update (\<lambda>_. s)))"
  by (simp_all add: base_fields_def EqualFold_def eval_simps)

lemma base_port_field:
  "find (\<lambda>f. EqualFold (fst f) ''remote_port'') base_fields = Some (''remote_port'', into_int64 (\<lambda>i. bq_remote_port_update (\<lambda>_. i)))"
  by (simp add: base_fields_def EqualFold_def eval_simps)

lemma base_texts_fields:
  "find (\<lambda>f. EqualFold (fst f) ''allow_method'') base_fields = Some (''allow_method'', into_texts bq_allow_method (\<lambda>s. bq_allow_method_update (\<lambda>_. s)))"
  "find (\<lambda>f. EqualFold (fst f) ''allow_path'') base_fields = Some (''allow_path'', into_texts bq_allow_path (\<lambda>s. bq_allow_path_update (\<lambda>_. s)))"
  "find (\<lambda>f. EqualFold (fst f) ''allow_path_prefix'') base_fields = Some (''allow_path_prefix'', into_texts bq_allow_path_prefix (\<lambda>s. bq_allow_path_prefix_update (\<lambda>_. s)))"
  "find (\<lambda>f. EqualFold (fst f) ''allow_cidr'') base_fields = Some (''allow_cidr'', into_texts bq_allow_cidr (\<lambda>s. bq_allow_cidr_update (\<lambda>_. s)))"
  "find (\<lambda>f. EqualFold (fst f) ''deny_cidr'') base_fields = Some (''deny_cidr'', into_texts bq_deny_cidr (\<lambda>s. bq_deny_cidr_update (\<lambda>_. s)))"
  "find (\<lambda>f. EqualFold (fst f) ''request_header_remove'') base_fields = Some (''request_header_remove'', into_texts bq_request_header_remove (\<lambda>s. bq_request_header_remove_update (\<lambda>_. s)))"
  "find (\<lambda>f. EqualFold (fst f) ''response_header_remove'') base_fields = Some (''response_header_remove'', into_texts bq_response_header_remove (\<lambda>s. bq_response_header_remove_update (\<lambda>_. s)))"
  by (simp_all add: base_fields_def EqualFold_def eval_simps)

lemma base_headers_fields:
  "find (\<lambda>f. EqualFold (fst f) ''request_header_add'') base_fields = Some (''request_header_add'', into_headers bq_request_header_add (\<lambda>s. bq_request_header_add_update (\<lambda>_. s)))"
  "find (\<lambda>f. EqualFold (fst f) ''response_header_add'') base_fields = Some (''response_header_add'', into_headers bq_response_header_add (\<lambda>s. bq_response_header_add_update (\<lambda>_. s)))"
  by (simp_all add: base_fields_def EqualFold_def eval_simps)

lemmas base_steps =
  base_text_fields [THEN decode_string_member] base_texts_fields [THEN decode_strings_member]
  base_headers_fields [THEN decode_headers_member]

lemma decode_first:
  "find (\<lambda>f. EqualFold (fst f) n) flds = Some (m, put) \<Longrightarrow>
    decode_fields st flds ((n, v) # kvs) r = Option.bind (put v r) (decode_fields st flds kvs)"
  by simp

lemma decode_http_request:
  "decode_struct False base_fields zero_request (http_request_json req) =
    Some \<lparr>bq_type = http_type req, bq_authtoken = http_authtoken req, bq_remote_port = 0,
      bq_subdomain = http_subdomain req, bq_domain = http_domain req, bq_basic_auth = http_basic_auth req,
      bq_allow_method = http_allow_method req, bq_allow_path = http_allow_path req,
      bq_allow_path_prefix = http_allow_path_prefix req, bq_allow_cidr = http_allow_cidr req,
      bq_deny_cidr = http_deny_cidr req, bq_request_header_add = http_request_header_add req,
      bq_request_header_remove = http_request_header_remove req,
      bq_response_header_add = http_response_header_add req,
      bq_response_header_remove = http_response_header_remove req\<rparr>"
  unfolding http_request_json_def decode_struct_def into_struct_def append_Cons append_Nil json.case
    decode_first [OF base_text_fields(1)] zero_request_def
  by (simp add: base_steps base_texts_fields(7) [THEN decode_strings_member, where kvs = "[]", simplified]
      into_string_def del: decode_fields.simps(2))

lemma decode_tcp_request:
  "int64_range (tcp_remote_port req) \<Longrightarrow>
    decode_struct False base_fields zero_request (tcp_request_json req) =
      Some (zero_request\<lparr>bq_type := tcp_type req, bq_authtoken := tcp_authtoken req,
        bq_remote_port := tcp_remote_port req\<rparr>)"
  unfolding tcp_request_json_def decode_struct_def into_struct_def append_Cons append_Nil json.case
    decode_first [OF base_text_fields(1)] zero_request_def
  by (simp add: base_steps decode_first [OF base_port_field] into_string_def into_int64_def del: decode_fields.simps(2))

lemma response_fields:
  "find (\<lambda>f. EqualFold (fst f) ''type'') http_response_fields = Some (''type'', into_string (\<lambda>s. http_resp_type_update (\<lambda>_. s)))"
  "find (\<lambda>f. EqualFold (fst f) ''id'') http_response_fields = Some (''id'', into_string (\<lambda>s. http_resp_id_update (\<lambda>_. s)))"
  "find (\<lambda>f. EqualFold (fst f) ''url'') http_response_fields = Some (''url'', into_string (\<lambda>s. http_resp_url_update (\<lambda>_. s)))"
  "find (\<lambda>f. EqualFold (fst f) ''error'') http_response_fields = Some (''error'', into_string (\<lambda>s. http_resp_error_update (\<lambda>_. s)))"
  "find (\<lambda>f. EqualFold (fst f) ''remote_port'') http_response_fields = None"
  "find (\<lambda>f. EqualFold (fst f) ''type'') tcp_response_fields = Some (''type'', into_string (\<lambda>s. tcp_resp_type_update (\<lambda>_. s)))"
  "find (\<lambda>f. EqualFold (fst f) ''error'') tcp_response_fields = Some (''error'', into_string (\<lambda>s. tcp_resp_error_update (\<lambda>_. s)))"
  "find (\<lambda>f. EqualFold (fst f) ''remote_port'') tcp_response_fields =
     Some (''remote_port'', into_int64 (\<lambda>i. tcp_resp_remote_port_update (\<lambda>_. i)))"
  by (simp_all add: http_response_fields_def tcp_response_fields_def EqualFold_def eval_simps)

lemma decode_http_response:
  "decode_struct False http_response_fields \<lparr>http_resp_type = [], http_resp_id = [], http_resp_url = [], http_resp_error = []\<rparr>
    (http_response_json r) = Some r"
  by (cases r) (simp add: http_response_json_def decode_struct_def into_struct_def string_member_def into_string_def response_fields)

lemma decode_tcp_as_http:
  "decode_struct False http_response_fields \<lparr>http_resp_type = [], http_resp_id = [], http_resp_url = [], http_resp_error = []\<rparr>
    (tcp_response_json r) = Some (seen_by_http (Inl r))"
  by (simp add: tcp_response_json_def decode_struct_def into_struct_def string_member_def into_string_def response_fields
      seen_by_http_def)

lemma decode_tcp_response:
  "int64_range (tcp_resp_remote_port r) \<Longrightarrow>
    decode_struct False tcp_response_fields \<lparr>tcp_resp_type = [], tcp_resp_remote_port = 0, tcp_resp_error = []\<rparr>
      (tcp_response_json r) = Some r"
  by (cases r) (simp add: tcp_response_json_def decode_struct_def into_struct_def string_member_def into_string_def
      into_int64_def response_fields)

subsection \<open>Messages cross the wire\<close>

text \<open>The strings of a message are text.\<close>

definition utf8_headers :: "header_kv list \<Rightarrow> bool" where
  "utf8_headers hs \<longleftrightarrow> list_all (\<lambda>h. valid_utf8 (kv_name h) \<and> valid_utf8 (kv_value h)) hs"

definition utf8_request :: "create_http_request \<Rightarrow> bool" where
  "utf8_request req \<longleftrightarrow>
     list_all valid_utf8 [http_type req, http_authtoken req, http_subdomain req, http_domain req, http_basic_auth req]
     \<and> list_all (list_all valid_utf8) [http_allow_method req, http_allow_path req, http_allow_path_prefix req,
         http_allow_cidr req, http_deny_cidr req, http_request_header_remove req, http_response_header_remove req]
     \<and> utf8_headers (http_request_header_add req) \<and> utf8_headers (http_response_header_add req)"

lemma json_ok_fields [simp]:
  "list_all (\<lambda>(k, v). valid_utf8 k \<and> json_ok v) (string_member n s) \<longleftrightarrow> s = [] \<or> valid_utf8 n \<and> valid_utf8 s"
  "list_all (\<lambda>(k, v). valid_utf8 k \<and> json_ok v) (strings_member n ss) \<longleftrightarrow> ss = [] \<or> valid_utf8 n \<and> list_all valid_utf8 ss"
  by (auto simp: string_member_def strings_member_def list_all_iff)

lemma json_ok_headers [simp]:
  "list_all (\<lambda>(k, v). valid_utf8 k \<and> json_ok v) (headers_member n hs) \<longleftrightarrow> hs = [] \<or> valid_utf8 n \<and> utf8_headers hs"
  by (auto simp: headers_member_def utf8_headers_def list_all_iff header_kv_json_def decode_rune_ascii)

lemma json_ok_http_request: "utf8_request req \<Longrightarrow> json_ok (http_request_json req)"
  by (simp add: utf8_request_def http_request_json_def decode_rune_ascii)

lemma json_ok_tcp_request:
  "valid_utf8 (tcp_type req) \<Longrightarrow> valid_utf8 (tcp_authtoken req) \<Longrightarrow> json_ok (tcp_request_json req)"
  by (simp add: tcp_request_json_def decode_rune_ascii)

lemma decode_message:
  assumes "json_ok j" and "length (json_render j) \<le> maxControlRequestBytes"
  shows "decodeBaseRequest (message_bytes j) = decode_struct False base_fields zero_request j"
proof -
  have "closes (take (maxControlRequestBytes - length (json_render j)) [CHR 0x0A])"
    by (cases "maxControlRequestBytes - length (json_render j)") (simp_all add: closes_def json_space_def)
  then show ?thesis
    using json_decode_render [OF assms(1)] assms(2) by (simp add: decodeBaseRequest_def message_bytes_def)
qed

text \<open>C16: a request for an HTTP tunnel reaches the server unchanged. When its strings are text and its
  JSON fits the server's bound of 64 KiB, the bytes the client writes are decoded to a request from
  which the server builds the very request the client made, whatever fields were left out as empty.\<close>

theorem request_crosses_wire:
  assumes "utf8_request req" and "http_type req = ''http''"
    and "length (json_render (http_request_json req)) \<le> maxControlRequestBytes"
  shows "\<exists>b. decodeBaseRequest (message_bytes (http_request_json req)) = Some b
    \<and> request_type b = ''http'' \<and> bq_authtoken b = http_authtoken req \<and> http_request_of b = req"
  unfolding decode_message [OF json_ok_http_request [OF assms(1)] assms(3)] decode_http_request
  using assms(2) by (cases req) (simp add: http_request_of_def request_type_def eval_simps)

text \<open>the same for a request for a TCP tunnel.\<close>

theorem tcp_request_crosses_wire:
  assumes "valid_utf8 (tcp_authtoken req)" and "tcp_type req = ''tcp''" and "int64_range (tcp_remote_port req)"
    and "length (json_render (tcp_request_json req)) \<le> maxControlRequestBytes"
  shows "decodeBaseRequest (message_bytes (tcp_request_json req)) =
    Some (zero_request\<lparr>bq_type := ''tcp'', bq_authtoken := tcp_authtoken req, bq_remote_port := tcp_remote_port req\<rparr>)"
proof -
  have "valid_utf8 (tcp_type req)" by (rule valid_utf8_ascii) (simp add: assms(2))
  from decode_message [OF json_ok_tcp_request [OF this assms(1)] assms(4)] decode_tcp_request [OF assms(3)] assms(2)
  show ?thesis by simp
qed

lemma http_reply_back:
  "json_ok (reply_json quote reply) \<Longrightarrow>
    http_payload bad (message_bytes (reply_json quote reply)) = Payload (seen_by_http (reply_message quote reply))"
  using json_unmarshal_render [of "reply_json quote reply"]
  by (cases "reply_message quote reply")
    (simp_all add: http_payload_def payload_of_def message_bytes_def reply_json_def decode_http_response
      decode_tcp_as_http seen_by_http_def)

lemma tcp_reply_back:
  "json_ok (reply_json quote reply) \<Longrightarrow> reply_message quote reply = Inl r \<Longrightarrow> int64_range (tcp_resp_remote_port r) \<Longrightarrow>
    tcp_payload bad (message_bytes (reply_json quote reply)) = Payload r"
  using json_unmarshal_render [of "reply_json quote reply"]
  by (simp add: tcp_payload_def payload_of_def message_bytes_def reply_json_def decode_tcp_response)

text \<open>every reply of the server is understood by the client that asked. An HTTP client reads back
  the reply's own fields; when the server answers with the reply of a TCP tunnel, as it does for a
  request it cannot decode, the client still gets the text of the error and no tunnel.\<close>

theorem reply_crosses_wire:
  assumes "json_ok (reply_json quote reply)"
  shows "http_payload bad (message_bytes (reply_json quote reply)) = Payload (seen_by_http (reply_message quote reply))
    \<and> (\<forall>r. reply_message quote reply = Inl r \<longrightarrow> int64_range (tcp_resp_remote_port r) \<longrightarrow>
         tcp_payload bad (message_bytes (reply_json quote reply)) = Payload r)"
  using http_reply_back [OF assms] tcp_reply_back [OF assms] by blast

text \<open>An attempt of a client that gets connection \<open>c\<close>: its request over the wire to a server
  that answers by \<open>answer\<close>, and the reply over the wire back; and the same without the wire.\<close>

definition over_wire ::
  "(string \<Rightarrow> go_error) \<Rightarrow> (string \<Rightarrow> string) \<Rightarrow> nat \<Rightarrow> (base_request option \<Rightarrow> control_reply)
    \<Rightarrow> create_http_request \<Rightarrow> create_http_response attempt" where
  "over_wire bad quote c answer req =
     \<lparr>at_dial = Inr c, at_open = Inr (), at_write = Inr (),
      at_reply = http_payload bad (message_bytes (reply_json quote
        (answer (decodeBaseRequest (message_bytes (http_request_json req)))))),
      at_read = None\<rparr>"

definition face_to_face ::
  "(string \<Rightarrow> string) \<Rightarrow> nat \<Rightarrow> (base_request option \<Rightarrow> control_reply)
    \<Rightarrow> create_http_request \<Rightarrow> create_http_response attempt" where
  "face_to_face quote c answer req =
     \<lparr>at_dial = Inr c, at_open = Inr (), at_write = Inr (),
      at_reply = Payload (seen_by_http (reply_message quote
        (answer (decode_struct False base_fields zero_request (http_request_json req))))),
      at_read = None\<rparr>"

text \<open>opening a tunnel does not notice the wire. For options whose strings are text and whose
  request fits 64 KiB, and a server whose answers are text, the outcome of the client's start, the
  tunnel with its id and URL or the error, is the one of handing the request to the server directly.\<close>

theorem start_ignores_wire:
  assumes "utf8_request (control_request o1)"
    and "length (json_render (http_request_json (control_request o1))) \<le> maxControlRequestBytes"
    and "\<forall>m. json_ok (reply_json quote (answer m))"
  shows "StartHTTPTunnelWithOptions (over_wire bad quote c answer) addr o1
    = StartHTTPTunnelWithOptions (face_to_face quote c answer) addr o1"
proof -
  have "over_wire bad quote c answer (control_request o1) = face_to_face quote c answer (control_request o1)"
    unfolding over_wire_def face_to_face_def decode_message [OF json_ok_http_request [OF assms(1)] assms(2)]
      http_reply_back [OF assms(3) [THEN spec]] ..
  then show ?thesis unfolding StartHTTPTunnelWithOptions_def by (rule arg_cong)
qed

subsection \<open>Examples\<close>

definition wire_opts :: http_tunnel_opts where
  "wire_opts = (ht_opts demo_tunnel)\<lparr>ho_subdomain := ''caf'' @ [CHR 0xC3, CHR 0xA9],
     ho_allow_cidrs := [''10.0.0.0/8''],
     ho_request_header_add := [\<lparr>ch_name = ''X-Env'', ch_value = ''a<b''\<rparr>]\<rparr>"

lemmas wire_opts_simps =
  wire_opts_def demo_tunnel_def control_request_def toControlHeaderKVs_def

lemma wire_opts_utf8: "utf8_request (control_request wire_opts)"
  by (simp add: wire_opts_simps utf8_request_def utf8_headers_def decode_rune_def continuation_def)

lemma wire_opts_size: "length (json_render (http_request_json (control_request wire_opts))) \<le> maxControlRequestBytes"
  by (simp add: wire_opts_simps http_request_json_def string_member_def strings_member_def headers_member_def
      header_kv_json_def decode_rune_def continuation_def maxControlRequestBytes_def encode_rune_def eval_simps hex_digit_def)

theorem request_crosses_wire_witness:
  "\<exists>b. decodeBaseRequest (message_bytes (http_request_json (control_request wire_opts))) = Some b
    \<and> request_type b = ''http'' \<and> http_request_of b = control_request wire_opts"
  using request_crosses_wire [OF wire_opts_utf8 _ wire_opts_size] by (auto simp: control_request_def)

theorem tcp_request_crosses_wire_witness:
  "decodeBaseRequest (message_bytes (tcp_request_json
      \<lparr>tcp_type = ''tcp'', tcp_authtoken = ''ab'', tcp_remote_port = 20001\<rparr>)) =
    Some (zero_request\<lparr>bq_type := ''tcp'', bq_authtoken := ''ab'', bq_remote_port := 20001\<rparr>)"
proof -
  let ?req = "\<lparr>tcp_type = ''tcp'', tcp_authtoken = ''ab'', tcp_remote_port = 20001\<rparr>"
  have "length (json_render (tcp_request_json ?req)) \<le> maxControlRequestBytes"
    by (simp add: tcp_request_json_def string_member_def maxControlRequestBytes_def eval_simps)
  then show ?thesis using tcp_request_crosses_wire [of ?req] by (simp add: decode_rune_ascii int64_range_def)
qed

theorem reply_crosses_wire_witness:
  "tcp_payload (\<lambda>s. Msg s) (message_bytes (reply_json (\<lambda>s. s) (TcpCreated 20001))) =
     Payload \<lparr>tcp_resp_type = ''tcp'', tcp_resp_remote_port = 20001, tcp_resp_error = []\<rparr>
   \<and> http_payload (\<lambda>s. Msg s) (message_bytes (reply_json (\<lambda>s. s) (TcpError (Msg ''invalid request'')))) =
     Payload \<lparr>http_resp_type = ''tcp'', http_resp_id = [], http_resp_url = [], http_resp_error = ''invalid request''\<rparr>"
  using reply_crosses_wire [of "\<lambda>s. s" "TcpCreated 20001" "\<lambda>s. Msg s"]
    reply_crosses_wire [of "\<lambda>s. s" "TcpError (Msg ''invalid request'')" "\<lambda>s. Msg s"]
  by (simp add: reply_json_def tcp_response_json_def string_member_def decode_rune_ascii int64_range_def seen_by_http_def)

theorem start_ignores_wire_witness:
  "StartHTTPTunnelWithOptions
      (over_wire (\<lambda>s. Msg s) (\<lambda>s. s) 7 (\<lambda>m. if m = None then TcpError (Msg ''bad'') else HttpCreated ''a1'' ''https://a1.t.io''))
      ''127.0.0.1:3000'' wire_opts
    = StartHTTPTunnelWithOptions
      (face_to_face (\<lambda>s. s) 7 (\<lambda>m. if m = None then TcpError (Msg ''bad'') else HttpCreated ''a1'' ''https://a1.t.io''))
      ''127.0.0.1:3000'' wire_opts"
  by (rule start_ignores_wire [OF wire_opts_utf8 wire_opts_size])
    (simp add: reply_json_def tcp_response_json_def http_response_json_def string_member_def decode_rune_ascii)

end
