(* ===== verification/LoadTest.thy ===== *)
theory LoadTest
  imports ControlHandler Config GoFlag GoDuration GoQuote RateLimit "HOL-Library.Multiset"
begin

text \<open>
  The load generator, \<open>test/loadtest/main.go\<close>: its settings from the environment and the
  flags, the wait for a healthy server, the workers that share a queue of requests, and the summary.
  \<open>rnd\<close> is the rounding of a floating-point operation. What a request meets is a function of its
  number; the upstream that the tool starts for itself is a library server.
\<close>

subsection \<open>Settings\<close>

definition load_getenv :: "(string \<Rightarrow> string) \<Rightarrow> string \<Rightarrow> string \<Rightarrow> string" where
  "load_getenv env key fallback = (let v = TrimSpace (env key) in if v = [] then fallback else v)"

definition load_atoi :: "string \<Rightarrow> int \<Rightarrow> int" where
  "load_atoi s fallback =
     (let s = TrimSpace s in
      if s = [] then fallback else (case Atoi s of None \<Rightarrow> fallback | Some n \<Rightarrow> n))"

definition load_parseDuration :: "(rat \<Rightarrow> rat) \<Rightarrow> string \<Rightarrow> int \<Rightarrow> int" where
  "load_parseDuration rnd s fallback =
     (let s = TrimSpace s in
      if s = [] then fallback else (case ParseDuration rnd s of None \<Rightarrow> fallback | Some d \<Rightarrow> d))"

record load_config =
  lc_server :: string
  lc_authtoken :: string
  lc_mode :: string
  lc_requests :: int
  lc_concurrency :: int
  lc_timeout :: int
  lc_payload :: int

definition seconds :: "int \<Rightarrow> int" where
  "seconds n = n * 1000000000"

definition load_defaults :: "(rat \<Rightarrow> rat) \<Rightarrow> (string \<Rightarrow> string) \<Rightarrow> load_config" where
  "load_defaults rnd env =
     \<lparr>lc_server = load_getenv env ''EOSRIFT_SERVER_URL'' ''http://server:8080'',
      lc_authtoken = load_getenv env ''EOSRIFT_AUTHTOKEN'' [],
      lc_mode = load_getenv env ''EOSRIFT_LOAD_MODE'' ''http'',
      lc_requests = load_atoi (load_getenv env ''EOSRIFT_LOAD_REQUESTS'' ''2000'') 2000,
      lc_concurrency = load_atoi (load_getenv env ''EOSRIFT_LOAD_CONCURRENCY'' ''50'') 50,
      lc_timeout = load_parseDuration rnd (load_getenv env ''EOSRIFT_LOAD_TIMEOUT'' ''5s'') (seconds 5),
      lc_payload = load_atoi (load_getenv env ''EOSRIFT_LOAD_TCP_PAYLOAD_BYTES'' ''1024'') 1024\<rparr>"

definition duration_flag :: "(rat \<Rightarrow> rat) \<Rightarrow> (int \<Rightarrow> 'r \<Rightarrow> 'r) \<Rightarrow> 'r cli_flag" where
  "duration_flag rnd put = \<lparr>fl_bool = False, fl_set = (\<lambda>v r. map_option (\<lambda>d. put d r) (ParseDuration rnd v))\<rparr>"

definition load_flags :: "(rat \<Rightarrow> rat) \<Rightarrow> load_config flag_set" where
  "load_flags rnd =
     [(''server'', string_flag (\<lambda>v. lc_server_update (\<lambda>_. v))),
      (''authtoken'', string_flag (\<lambda>v. lc_authtoken_update (\<lambda>_. v))),
      (''mode'', string_flag (\<lambda>v. lc_mode_update (\<lambda>_. v))),
      (''requests'', int_flag (\<lambda>v. lc_requests_update (\<lambda>_. v))),
      (''concurrency'', int_flag (\<lambda>v. lc_concurrency_update (\<lambda>_. v))),
      (''timeout'', duration_flag rnd (\<lambda>v. lc_timeout_update (\<lambda>_. v))),
      (''tcp-payload-bytes'', int_flag (\<lambda>v. lc_payload_update (\<lambda>_. v)))]"

text \<open>How the program stops early: the standard flag package exits by itself; \<open>fatal\<close> prints the
  text and exits with 2.\<close>

datatype load_stop = FlagStop flag_error | Fatal string

definition load_settings :: "(rat \<Rightarrow> rat) \<Rightarrow> (string \<Rightarrow> string) \<Rightarrow> string list \<Rightarrow> load_stop + load_config" where
  "load_settings rnd env args =
     (case flag_Parse (load_flags rnd) args (load_defaults rnd env) of
        Inl e \<Rightarrow> Inl (FlagStop e)
      | Inr (c, _) \<Rightarrow>
          (let c = c\<lparr>lc_mode := ToLower (TrimSpace (lc_mode c))\<rparr> in
           if TrimSpace (lc_authtoken c) = []
           then Inl (Fatal ''missing authtoken (set -authtoken or EOSRIFT_AUTHTOKEN)'')
           else if lc_requests c \<le> 0 then Inl (Fatal ''requests must be > 0'')
           else if lc_concurrency c \<le> 0 then Inl (Fatal ''concurrency must be > 0'')
           else
             (let c = (if lc_concurrency c > lc_requests c then c\<lparr>lc_concurrency := lc_requests c\<rparr> else c);
                  c = (if lc_timeout c \<le> 0 then c\<lparr>lc_timeout := seconds 5\<rparr> else c);
                  c = (if lc_payload c \<le> 0 then c\<lparr>lc_payload := 1024\<rparr> else c)
              in Inr c)))"

text \<open>\<open>strings.TrimRight\<close> with one byte; the address that is asked for health.\<close>

definition TrimRight_char :: "string \<Rightarrow> char \<Rightarrow> string" where
  "TrimRight_char s c = rev (dropWhile (\<lambda>d. d = c) (rev s))"

definition health_url :: "string \<Rightarrow> string" where
  "health_url serverURL = TrimRight_char (TrimSpace serverURL) CHR ''/'' @ ''/healthz''"

text \<open>One round of the wait: the status of the answer if there was one, and whether the deadline had
  passed after it.\<close>

fun waitForHealth :: "string \<Rightarrow> (nat option \<times> bool) list \<Rightarrow> go_error option option" where
  "waitForHealth serverURL [] = None"
| "waitForHealth serverURL ((status, late) # rs) =
     (if status = Some 200 then Some None
      else if late
      then Some (Some (Msg (''server not healthy at '' @ health_url serverURL @ '' within 30s'')))
      else waitForHealth serverURL rs)"

definition load_hostFromURL :: "(string \<Rightarrow> string) \<Rightarrow> string \<Rightarrow> string result" where
  "load_hostFromURL quote raw =
     (case url_Parse (TrimSpace raw) of
        None \<Rightarrow> Inl (Msg ''parse'')
      | Some u \<Rightarrow> if u_host u = [] then Inl (Msg (''missing host in url: '' @ quote raw)) else Inr (u_host u))"

definition hostFromServerURL :: "(string \<Rightarrow> string) \<Rightarrow> string \<Rightarrow> string result" where
  "hostFromServerURL quote raw =
     (case url_Parse (TrimSpace raw) of
        None \<Rightarrow> Inl (Msg ''parse server url'')
      | Some u \<Rightarrow>
          if u_host u = [] then Inl (Msg (''missing host in server url: '' @ quote raw))
          else (case SplitHostPort (u_host u) of Some (h, _) \<Rightarrow> Inr h | None \<Rightarrow> Inr (u_host u)))"

subsection \<open>One request\<close>

text \<open>What is counted for a request: nothing for a success, the text of the error otherwise.\<close>

definition http_job :: "string option \<Rightarrow> string + nat \<Rightarrow> string option" where
  "http_job build answer =
     (case build of
        Some err \<Rightarrow> Some err
      | None \<Rightarrow>
          (case answer of
             Inl err \<Rightarrow> Some err
           | Inr status \<Rightarrow> if status = 200 then None else Some (''status='' @ Itoa (int status))))"

definition tcp_job :: "nat \<Rightarrow> string option \<Rightarrow> string option \<Rightarrow> string + string \<Rightarrow> string option" where
  "tcp_job payloadLen dial write echo =
     (let payload = replicate payloadLen CHR ''a'' in
      case dial of
        Some err \<Rightarrow> Some err
      | None \<Rightarrow>
          (case write of
             Some err \<Rightarrow> Some err
           | None \<Rightarrow>
               (case echo of
                  Inl err \<Rightarrow> Some err
                | Inr buf \<Rightarrow> if buf = payload then None else Some ''echo mismatch'')))"

subsection \<open>The workers\<close>

text \<open>
  The goroutines of \<open>runHTTPLoad\<close> and \<open>runTCPLoad\<close>: each takes the next number from the closed
  channel, makes its request, counts it, stores the first error and then the latency. Every step is
  atomic; a schedule is a list of who goes next. \<open>job i\<close> is what request \<open>i\<close> meets and
  \<open>took i\<close> how long it takes.
\<close>

datatype worker =
    Waiting
  | Running nat
  | Counted nat "string option"
  | Reported nat
  | Finished

record load_state =
  ls_jobs :: "nat list"
  ls_workers :: "worker list"
  ls_ok :: nat
  ls_errors :: nat
  ls_sample :: "string option"
  ls_latencies :: "int list"

definition load_start :: "nat \<Rightarrow> nat \<Rightarrow> load_state" where
  "load_start requests concurrency =
     \<lparr>ls_jobs = [0..<requests], ls_workers = replicate concurrency Waiting, ls_ok = 0, ls_errors = 0,
      ls_sample = None, ls_latencies = replicate requests 0\<rparr>"

definition worker_step :: "(nat \<Rightarrow> string option) \<Rightarrow> (nat \<Rightarrow> int) \<Rightarrow> nat \<Rightarrow> load_state \<Rightarrow> load_state" where
  "worker_step job took w s =
     (if w \<ge> length (ls_workers s) then s
      else
        (case ls_workers s ! w of
           Waiting \<Rightarrow>
             (case ls_jobs s of
                [] \<Rightarrow> s\<lparr>ls_workers := (ls_workers s)[w := Finished]\<rparr>
              | i # js \<Rightarrow> s\<lparr>ls_jobs := js, ls_workers := (ls_workers s)[w := Running i]\<rparr>)
         | Running i \<Rightarrow>
             (case job i of
                None \<Rightarrow> s\<lparr>ls_ok := Suc (ls_ok s), ls_workers := (ls_workers s)[w := Counted i None]\<rparr>
              | Some e \<Rightarrow> s\<lparr>ls_errors := Suc (ls_errors s), ls_workers := (ls_workers s)[w := Counted i (Some e)]\<rparr>)
         | Counted i r \<Rightarrow>
             s\<lparr>ls_sample := (if ls_sample s = None then r else ls_sample s),
               ls_workers := (ls_workers s)[w := Reported i]\<rparr>
         | Reported i \<Rightarrow>
             s\<lparr>ls_latencies := (ls_latencies s)[i := took i], ls_workers := (ls_workers s)[w := Waiting]\<rparr>
         | Finished \<Rightarrow> s))"

definition run_workers :: "(nat \<Rightarrow> string option) \<Rightarrow> (nat \<Rightarrow> int) \<Rightarrow> nat list \<Rightarrow> load_state \<Rightarrow> load_state" where
  "run_workers job took ws s = foldl (\<lambda>s w. worker_step job took w s) s ws"

text \<open>The result, once \<open>wg.Wait\<close> returned.\<close>

record load_result =
  lr_mode :: string
  lr_total :: nat
  lr_ok :: nat
  lr_errors :: nat
  lr_elapsed :: int
  lr_latencies :: "int list"
  lr_sample :: string

definition load_result_of :: "string \<Rightarrow> nat \<Rightarrow> int \<Rightarrow> load_state \<Rightarrow> load_result option" where
  "load_result_of mode requests elapsed s =
     (if list_all (\<lambda>w. w = Finished) (ls_workers s) then
        Some \<lparr>lr_mode = mode, lr_total = requests, lr_ok = ls_ok s, lr_errors = ls_errors s, lr_elapsed = elapsed,
              lr_latencies = ls_latencies s, lr_sample = (case ls_sample s of Some e \<Rightarrow> e | None \<Rightarrow> [])\<rparr>
      else None)"

subsection \<open>Every request is counted once\<close>

text \<open>The requests a worker holds, and those among them that are not counted yet.\<close>

fun held :: "worker \<Rightarrow> nat multiset" where
  "held (Running i) = {#i#}"
| "held (Counted i r) = {#i#}"
| "held (Reported i) = {#i#}"
| "held _ = {#}"

fun uncounted :: "worker \<Rightarrow> nat multiset" where
  "uncounted (Running i) = {#i#}"
| "uncounted _ = {#}"

definition unfinished :: "load_state \<Rightarrow> nat multiset" where
  "unfinished s = mset (ls_jobs s) + (\<Sum>w\<in>#mset (ls_workers s). held w)"

definition pending :: "load_state \<Rightarrow> nat multiset" where
  "pending s = mset (ls_jobs s) + (\<Sum>w\<in>#mset (ls_workers s). uncounted w)"

lemma sum_update:
  fixes f :: "worker \<Rightarrow> nat multiset"
  assumes "w < length ws"
  shows "(\<Sum>x\<in>#mset (ws[w := y]). f x) + f (ws ! w) = (\<Sum>x\<in>#mset ws. f x) + f y"
proof -
  have "mset ws = add_mset (ws ! w) (mset ws - {#ws ! w#})" using assms by simp
  then have "(\<Sum>x\<in>#mset ws. f x) = f (ws ! w) + (\<Sum>x\<in>#mset ws - {#ws ! w#}. f x)"
    by (metis image_mset_add_mset sum_mset.add_mset)
  then show ?thesis using assms by (simp add: mset_update)
qed

text \<open>What every worker knows, and the counters against the requests that are through.\<close>

definition worker_ok :: "(nat \<Rightarrow> string option) \<Rightarrow> nat \<Rightarrow> load_state \<Rightarrow> worker \<Rightarrow> bool" where
  "worker_ok job n s w \<longleftrightarrow>
     (case w of
        Counted i r \<Rightarrow> i < n \<and> r = job i \<and> (r \<noteq> None \<longrightarrow> 0 < ls_errors s)
      | Running i \<Rightarrow> i < n
      | Reported i \<Rightarrow> i < n
      | Finished \<Rightarrow> ls_jobs s = []
      | Waiting \<Rightarrow> True)"

definition sample_ok :: "(nat \<Rightarrow> string option) \<Rightarrow> nat \<Rightarrow> load_state \<Rightarrow> bool" where
  "sample_ok job n s \<longleftrightarrow>
     (\<forall>e. ls_sample s = Some e \<longrightarrow> 0 < ls_errors s \<and> (\<exists>i<n. job i = Some e))
     \<and> (0 < ls_errors s \<longrightarrow> ls_sample s \<noteq> None \<or> (\<exists>i e. Counted i (Some e) \<in> set (ls_workers s)))"

definition through :: "(nat \<Rightarrow> bool) \<Rightarrow> nat \<Rightarrow> load_state \<Rightarrow> nat" where
  "through P n s = size {#i \<in># mset [0..<n] - pending s. P i#}"

definition counts_ok :: "(nat \<Rightarrow> string option) \<Rightarrow> nat \<Rightarrow> load_state \<Rightarrow> bool" where
  "counts_ok job n s \<longleftrightarrow> pending s \<subseteq># mset [0..<n]
     \<and> ls_ok s = through (\<lambda>i. job i = None) n s \<and> ls_errors s = through (\<lambda>i. job i \<noteq> None) n s"

definition latencies_ok :: "(nat \<Rightarrow> int) \<Rightarrow> nat \<Rightarrow> load_state \<Rightarrow> bool" where
  "latencies_ok took n s \<longleftrightarrow>
     length (ls_latencies s) = n \<and> (\<forall>i<n. i \<notin># unfinished s \<longrightarrow> ls_latencies s ! i = took i)"

definition workers_ok :: "(nat \<Rightarrow> string option) \<Rightarrow> nat \<Rightarrow> load_state \<Rightarrow> bool" where
  "workers_ok job n s \<longleftrightarrow> list_all (worker_ok job n s) (ls_workers s)"

definition load_inv :: "(nat \<Rightarrow> string option) \<Rightarrow> (nat \<Rightarrow> int) \<Rightarrow> nat \<Rightarrow> load_state \<Rightarrow> bool" where
  "load_inv job took n s \<longleftrightarrow> counts_ok job n s \<and> latencies_ok took n s \<and> workers_ok job n s \<and> sample_ok job n s"

lemma load_inv_start: "load_inv job took n (load_start n c)"
  by (auto simp: load_inv_def counts_ok_def latencies_ok_def workers_ok_def load_start_def pending_def unfinished_def
      through_def worker_ok_def sample_ok_def list_all_iff)

lemma list_all_update: "list_all P ws \<Longrightarrow> P y \<Longrightarrow> list_all P (ws[w := y])"
  using set_update_subset_insert [of ws w y] by (auto simp: list_all_iff)

lemma kept_update: "x \<in> set ws \<Longrightarrow> x \<noteq> ws ! w \<Longrightarrow> x \<in> set (ws[w := y])"
  by (metis in_set_conv_nth length_list_update nth_list_update_neq)

lemma workers_ok_step:
  assumes "workers_ok job n s" "ls_errors s \<le> ls_errors s'" "ls_jobs s = [] \<longrightarrow> ls_jobs s' = []"
    "ls_workers s' = (ls_workers s)[w := y]" "worker_ok job n s' y"
  shows "workers_ok job n s'"
proof -
  have "worker_ok job n s' x" if "worker_ok job n s x" for x
    using that assms(2,3) by (cases x) (auto simp: worker_ok_def)
  then show ?thesis using assms(1,4,5) by (auto simp: workers_ok_def list_all_iff dest: set_update_subset_insert [THEN subsetD])
qed

lemma sample_ok_step:
  assumes "sample_ok job n s" "ls_errors s' = ls_errors s" "ls_sample s' = ls_sample s"
    "ls_workers s' = (ls_workers s)[w := y]" "\<forall>i e. ls_workers s ! w \<noteq> Counted i (Some e)"
  shows "sample_ok job n s'"
  using assms(1,5) kept_update [of _ "ls_workers s" w y] unfolding sample_ok_def assms(2-4) by metis

lemma removed_count:
  assumes "add_mset i p \<subseteq># m"
  shows "size {#j \<in># m - p. P j#} = size {#j \<in># m - add_mset i p. P j#} + (if P i then 1 else 0)"
proof -
  obtain q where m: "m = add_mset i p + q" using assms by (auto simp: subset_mset.le_iff_add)
  then have "m - p = add_mset i q" "m - add_mset i p = q" by simp_all
  then show ?thesis by simp
qed

lemma pending_update:
  "w < length (ls_workers s) \<Longrightarrow>
    mset js + (\<Sum>x\<in>#mset ((ls_workers s)[w := y]). uncounted x) + uncounted (ls_workers s ! w) + mset (ls_jobs s)
      = pending s + uncounted y + mset js"
  "w < length (ls_workers s) \<Longrightarrow>
    mset js + (\<Sum>x\<in>#mset ((ls_workers s)[w := y]). held x) + held (ls_workers s ! w) + mset (ls_jobs s)
      = unfinished s + held y + mset js"
  using sum_update [of w "ls_workers s" uncounted y] sum_update [of w "ls_workers s" held y]
  by (simp_all add: pending_def unfinished_def ac_simps)

lemma step_take:
  assumes "w < length (ls_workers s)" "ls_workers s ! w = Waiting" "ls_jobs s = i # js" "load_inv job took n s"
  shows "load_inv job took n (s\<lparr>ls_jobs := js, ls_workers := (ls_workers s)[w := Running i]\<rparr>)"
proof -
  let ?s = "s\<lparr>ls_jobs := js, ls_workers := (ls_workers s)[w := Running i]\<rparr>"
  have same: "pending ?s = pending s" "unfinished ?s = unfinished s"
    using pending_update [OF assms(1), of js "Running i"] assms(2,3) by (simp_all add: pending_def unfinished_def)
  have "i \<in># pending s" using assms(3) by (simp add: pending_def)
  moreover have "pending s \<subseteq># mset [0..<n]" using assms(4) by (simp add: load_inv_def counts_ok_def)
  ultimately have "i \<in># mset [0..<n]" by (rule mset_subset_eqD [rotated])
  then have "worker_ok job n ?s (Running i)" by (simp add: worker_ok_def)
  then have "workers_ok job n ?s"
    using assms(3,4) by (intro workers_ok_step [of job n s ?s w "Running i"]) (simp_all add: load_inv_def)
  moreover have "sample_ok job n ?s"
    using assms(2,4) by (intro sample_ok_step [of job n s ?s w "Running i"]) (simp_all add: load_inv_def)
  ultimately show ?thesis
    using assms(4) same by (simp add: load_inv_def counts_ok_def latencies_ok_def through_def)
qed

lemma step_quit:
  assumes "w < length (ls_workers s)" "ls_workers s ! w = Waiting" "ls_jobs s = []" "load_inv job took n s"
  shows "load_inv job took n (s\<lparr>ls_workers := (ls_workers s)[w := Finished]\<rparr>)"
proof -
  let ?s = "s\<lparr>ls_workers := (ls_workers s)[w := Finished]\<rparr>"
  have same: "pending ?s = pending s" "unfinished ?s = unfinished s"
    using pending_update [OF assms(1), of "[]" Finished] assms(2,3) by (simp_all add: pending_def unfinished_def)
  have "workers_ok job n ?s"
    using assms(3,4) by (intro workers_ok_step [of job n s ?s w Finished]) (simp_all add: load_inv_def worker_ok_def)
  moreover have "sample_ok job n ?s"
    using assms(2,4) by (intro sample_ok_step [of job n s ?s w Finished]) (simp_all add: load_inv_def)
  ultimately show ?thesis
    using assms(4) same by (simp add: load_inv_def counts_ok_def latencies_ok_def through_def)
qed

lemma step_count:
  assumes "w < length (ls_workers s)" "ls_workers s ! w = Running i" "load_inv job took n s"
  shows "load_inv job took n
    (case job i of
       None \<Rightarrow> s\<lparr>ls_ok := Suc (ls_ok s), ls_workers := (ls_workers s)[w := Counted i None]\<rparr>
     | Some e \<Rightarrow> s\<lparr>ls_errors := Suc (ls_errors s), ls_workers := (ls_workers s)[w := Counted i (Some e)]\<rparr>)"
    (is "load_inv job took n ?s")
proof -
  have ws: "ls_workers ?s = (ls_workers s)[w := Counted i (job i)]" and js: "ls_jobs ?s = ls_jobs s"
    by (simp_all split: option.split)
  have p: "add_mset i (pending ?s) = pending s" "unfinished ?s = unfinished s"
    using pending_update [OF assms(1), of "ls_jobs s" "Counted i (job i)"] assms(2)
    by (simp_all add: pending_def unfinished_def ws js)
  have sub: "add_mset i (pending ?s) \<subseteq># mset [0..<n]" using assms(3) p(1) by (simp add: load_inv_def counts_ok_def)
  then have sub': "pending ?s \<subseteq># mset [0..<n]" by (rule subset_mset.order_trans [rotated]) simp
  have "through P n ?s = through P n s + (if P i then 1 else 0)" for P
    unfolding through_def p(1) [symmetric] by (rule removed_count [OF sub])
  then have "counts_ok job n ?s"
    using assms(3) sub' by (simp add: load_inv_def counts_ok_def split: option.splits)
  moreover have "latencies_ok took n ?s"
    using assms(3) p(2) by (auto simp: load_inv_def latencies_ok_def split: option.split)
  moreover have "i < n" using assms(1-3) by (auto simp: load_inv_def workers_ok_def worker_ok_def list_all_length)
  then have "workers_ok job n ?s"
    using assms(3) by (intro workers_ok_step [OF _ _ _ ws])
      (simp_all add: load_inv_def js worker_ok_def split: option.split)
  moreover have "sample_ok job n ?s"
  proof (cases "job i")
    case None
    then show ?thesis using assms(2,3) by (intro sample_ok_step [OF _ _ _ ws]) (simp_all add: load_inv_def)
  next
    case (Some e)
    then show ?thesis using assms(1,3) set_update_memI [of w "ls_workers s" "Counted i (Some e)"]
      by (auto simp: load_inv_def sample_ok_def)
  qed
  ultimately show ?thesis by (simp add: load_inv_def)
qed

lemma step_report:
  assumes "w < length (ls_workers s)" "ls_workers s ! w = Counted i r" "load_inv job took n s"
  shows "load_inv job took n (s\<lparr>ls_sample := (if ls_sample s = None then r else ls_sample s),
    ls_workers := (ls_workers s)[w := Reported i]\<rparr>)"
proof -
  let ?s = "s\<lparr>ls_sample := (if ls_sample s = None then r else ls_sample s), ls_workers := (ls_workers s)[w := Reported i]\<rparr>"
  have same: "pending ?s = pending s" "unfinished ?s = unfinished s"
    using pending_update [OF assms(1), of "ls_jobs s" "Reported i"] assms(2) by (simp_all add: pending_def unfinished_def)
  have me: "i < n" "r = job i" "r \<noteq> None \<longrightarrow> 0 < ls_errors s"
    using assms by (auto simp: load_inv_def workers_ok_def worker_ok_def list_all_length)
  then have "workers_ok job n ?s"
    using assms(3) by (intro workers_ok_step [of job n s ?s w "Reported i"]) (simp_all add: load_inv_def worker_ok_def)
  moreover have "sample_ok job n ?s"
  proof -
    have old: "sample_ok job n s" using assms(3) by (simp add: load_inv_def)
    show ?thesis
    proof (cases r)
      case None
      then show ?thesis
        using assms(2) by (intro sample_ok_step [OF old, of ?s w "Reported i"]) simp_all
    next
      case (Some e)
      then have "job i = Some e" "0 < ls_errors s" using me by simp_all
      then show ?thesis using old Some me(1) by (auto simp: sample_ok_def)
    qed
  qed
  ultimately show ?thesis
    using assms(3) same by (simp add: load_inv_def counts_ok_def latencies_ok_def through_def)
qed

lemma step_time:
  assumes "w < length (ls_workers s)" "ls_workers s ! w = Reported i" "load_inv job took n s"
  shows "load_inv job took n (s\<lparr>ls_latencies := (ls_latencies s)[i := took i], ls_workers := (ls_workers s)[w := Waiting]\<rparr>)"
proof -
  let ?s = "s\<lparr>ls_latencies := (ls_latencies s)[i := took i], ls_workers := (ls_workers s)[w := Waiting]\<rparr>"
  have same: "pending ?s = pending s" "add_mset i (unfinished ?s) = unfinished s"
    using pending_update [OF assms(1), of "ls_jobs s" Waiting] assms(2) by (simp_all add: pending_def unfinished_def)
  have "i < n" using assms by (auto simp: load_inv_def workers_ok_def worker_ok_def list_all_length)
  then have "latencies_ok took n ?s"
    using assms(3) unfolding load_inv_def latencies_ok_def same(2) [symmetric] by (auto simp: nth_list_update)
  moreover have "workers_ok job n ?s"
    using assms(3) by (intro workers_ok_step [of job n s ?s w Waiting]) (simp_all add: load_inv_def worker_ok_def)
  moreover have "sample_ok job n ?s"
    using assms(2,3) by (intro sample_ok_step [of job n s ?s w Waiting]) (simp_all add: load_inv_def)
  ultimately show ?thesis
    using assms(3) same by (simp add: load_inv_def counts_ok_def through_def)
qed

lemma load_inv_step: "load_inv job took n s \<Longrightarrow> load_inv job took n (worker_step job took w s)"
  using step_take [of w s _ _ job took n] step_quit [of w s job took n] step_count [of w s _ job took n]
    step_report [of w s _ _ job took n] step_time [of w s _ job took n]
  by (simp add: worker_step_def not_le split: worker.split list.split)

lemma load_inv_run: "load_inv job took n s \<Longrightarrow> load_inv job took n (run_workers job took ws s)"
  by (induction ws arbitrary: s) (simp_all add: run_workers_def load_inv_step)

text \<open>The turns a worker still needs: four for each request in the queue, and those of its state.\<close>

fun turns :: "worker \<Rightarrow> nat" where
  "turns Waiting = 1"
| "turns (Running i) = 4"
| "turns (Counted i r) = 3"
| "turns (Reported i) = 2"
| "turns Finished = 0"

definition turns_left :: "nat \<Rightarrow> load_state \<Rightarrow> nat" where
  "turns_left w s =
     (if ls_workers s ! w = Finished then 0 else 4 * length (ls_jobs s) + turns (ls_workers s ! w))"

lemma own_turn: "w < length (ls_workers s) \<Longrightarrow> turns_left w (worker_step job took w s) \<le> turns_left w s - 1"
  by (auto simp: turns_left_def worker_step_def split: worker.splits list.splits option.splits)

lemma other_turn: "v \<noteq> w \<Longrightarrow> turns_left w (worker_step job took v s) \<le> turns_left w s"
  by (auto simp: turns_left_def worker_step_def split: worker.splits list.splits option.splits)

lemma worker_step_length [simp]: "length (ls_workers (worker_step job took w s)) = length (ls_workers s)"
  by (simp add: worker_step_def split: worker.split list.split option.split)

lemma run_workers_length [simp]: "length (ls_workers (run_workers job took ws s)) = length (ls_workers s)"
  by (induction ws arbitrary: s) (simp_all add: run_workers_def)

lemma turns_left_run:
  "w < length (ls_workers s) \<Longrightarrow> turns_left w (run_workers job took ws s) \<le> turns_left w s - count_list ws w"
proof (induction ws arbitrary: s)
  case Nil
  then show ?case by (simp add: run_workers_def)
next
  case (Cons v ws)
  let ?s = "worker_step job took v s"
  have "turns_left w (run_workers job took ws ?s) \<le> turns_left w ?s - count_list ws w"
    using Cons by simp
  moreover have "turns_left w ?s \<le> turns_left w s - (if v = w then 1 else 0)"
    using own_turn [OF Cons.prems] other_turn by auto
  ultimately show ?case by (auto simp: run_workers_def)
qed

text \<open>a load test counts every request once. With at least one worker, when every worker gets
  \<open>4 * requests + 1\<close> turns, in whatever order the workers take them, all end; successes and errors add
  up to the number of requests, the errors are exactly the requests that met one, every request has
  its own latency, and the sample is the text of one of the errors, and missing only without errors.\<close>

theorem load_counts_every_request:
  assumes "0 < workers" and "\<forall>w<workers. 4 * n + 1 \<le> count_list ws w"
  shows "\<exists>r. load_result_of mode n elapsed (run_workers job took ws (load_start n workers)) = Some r
    \<and> lr_ok r + lr_errors r = n \<and> lr_errors r = card {i. i < n \<and> job i \<noteq> None}
    \<and> lr_latencies r = map took [0..<n]
    \<and> (if lr_errors r = 0 then lr_sample r = [] else \<exists>i<n. job i = Some (lr_sample r))"
proof -
  define s where "s = run_workers job took ws (load_start n workers)"
  have len: "length (ls_workers s) = workers" by (simp add: s_def load_start_def)
  have inv: "load_inv job took n s" unfolding s_def by (rule load_inv_run [OF load_inv_start])
  have "ls_workers s ! w = Finished" if w: "w < workers" for w
  proof -
    have "turns_left w (load_start n workers) = 4 * n + 1" using w by (simp add: turns_left_def load_start_def)
    then have "turns_left w s = 0"
      using turns_left_run [of w "load_start n workers" job took ws] w assms(2) by (simp add: s_def load_start_def)
    then show ?thesis by (cases "ls_workers s ! w") (auto simp: turns_left_def split: if_splits)
  qed
  then have ended: "ls_workers s = replicate workers Finished" using len by (intro nth_equalityI) auto
  then have "ls_jobs s = []"
    using inv assms(1) by (auto simp: load_inv_def workers_ok_def worker_ok_def list_all_iff)
  then have none: "pending s = {#}" "unfinished s = {#}" by (simp_all add: pending_def unfinished_def ended)
  have size: "through P n s = card {i. i < n \<and> P i}" for P
  proof -
    have "{#i \<in># mset [0..<n]. P i#} = mset_set {i. i < n \<and> P i}"
      by (simp add: filter_mset_mset_set)
    then show ?thesis by (simp add: through_def none(1))
  qed
  have "ls_ok s + ls_errors s = card ({i. i < n \<and> job i = None} \<union> {i. i < n \<and> job i \<noteq> None})"
    using inv by (subst card_Un_disjoint) (auto simp: load_inv_def counts_ok_def size)
  moreover have "{i. i < n \<and> job i = None} \<union> {i. i < n \<and> job i \<noteq> None} = {..<n}" by auto
  ultimately have sum: "ls_ok s + ls_errors s = n" by simp
  have errors: "ls_errors s = card {i. i < n \<and> job i \<noteq> None}"
    using inv by (simp add: load_inv_def counts_ok_def size)
  have "ls_latencies s = map took [0..<n]"
    using inv by (intro nth_equalityI) (auto simp: load_inv_def latencies_ok_def none(2))
  moreover have "if ls_errors s = 0 then ls_sample s = None else \<exists>i<n. \<exists>e. ls_sample s = Some e \<and> job i = Some e"
    using inv by (auto simp: load_inv_def sample_ok_def ended)
  ultimately show ?thesis
    unfolding s_def [symmetric] load_result_of_def using sum errors by (auto simp: ended list_all_iff split: if_splits)
qed

subsection \<open>The summary\<close>

text \<open>The sum of the latencies is a \<open>Duration\<close> and wraps; \<open>Truncate\<close> cuts towards zero.\<close>

definition wrap64 :: "int \<Rightarrow> int" where
  "wrap64 i = (i + 2 ^ 63) mod 2 ^ 64 - 2 ^ 63"

definition Truncate :: "int \<Rightarrow> int \<Rightarrow> int" where
  "Truncate d m = (if m \<le> 0 then d else trunc_div d m * m)"

definition percentile_pos :: "(rat \<Rightarrow> rat) \<Rightarrow> nat \<Rightarrow> rat \<Rightarrow> nat" where
  "percentile_pos rnd n p =
     (let i = \<lceil>rnd (rnd (of_nat n) * p)\<rceil> - 1;
          i = (if i < 0 then 0 else i);
          i = (if i \<ge> int n then int n - 1 else i)
      in nat i)"

definition percentile :: "(rat \<Rightarrow> rat) \<Rightarrow> int list \<Rightarrow> rat \<Rightarrow> int" where
  "percentile rnd durs p =
     (if durs = [] then 0
      else if p \<le> 0 then durs ! 0
      else if p \<ge> 1 then durs ! (length durs - 1)
      else durs ! percentile_pos rnd (length durs) p)"

record latency_line =
  ll_avg :: int
  ll_p50 :: int
  ll_p95 :: int
  ll_p99 :: int
  ll_max :: int

record summary =
  sm_result :: load_result
  sm_rps :: rat
  sm_elapsed :: int
  sm_latency :: "latency_line option"

definition rps_of :: "(rat \<Rightarrow> rat) \<Rightarrow> nat \<Rightarrow> int \<Rightarrow> rat" where
  "rps_of rnd requests elapsed =
     (if Seconds rnd elapsed = 0 then 0 else rnd (rnd (of_nat requests) / Seconds rnd elapsed))"

definition printSummary :: "(rat \<Rightarrow> rat) \<Rightarrow> load_result \<Rightarrow> summary" where
  "printSummary rnd res =
     (let durs = sort (filter (\<lambda>d. d > 0) (lr_latencies res));
          spent = foldl (\<lambda>a d. wrap64 (a + d)) 0 durs;
          avg = (if durs = [] then 0 else trunc_div spent (int (length durs)));
          micro = 1000
      in \<lparr>sm_result = res, sm_rps = rps_of rnd (lr_total res) (lr_elapsed res),
          sm_elapsed = Truncate (lr_elapsed res) 1000000,
          sm_latency =
            (if durs = [] then None
             else Some \<lparr>ll_avg = Truncate avg micro,
               ll_p50 = Truncate (percentile rnd durs (rnd (1 / 2))) micro,
               ll_p95 = Truncate (percentile rnd durs (rnd (95 / 100))) micro,
               ll_p99 = Truncate (percentile rnd durs (rnd (99 / 100))) micro,
               ll_max = Truncate (durs ! (length durs - 1)) micro\<rparr>)\<rparr>)"

lemma percentile_pos_less: "0 < n \<Longrightarrow> percentile_pos rnd n p < n"
  by (simp add: percentile_pos_def Let_def nat_less_iff)

lemma percentile_pos_mono:
  assumes "mono rnd" and "0 \<le> rnd (of_nat n)" and "p \<le> q"
  shows "percentile_pos rnd n p \<le> percentile_pos rnd n q"
proof -
  have "rnd (rnd (of_nat n) * p) \<le> rnd (rnd (of_nat n) * q)"
    using assms by (intro monoD [OF assms(1)] mult_left_mono)
  then have "\<lceil>rnd (rnd (of_nat n) * p)\<rceil> \<le> \<lceil>rnd (rnd (of_nat n) * q)\<rceil>" by (rule ceiling_mono)
  moreover have "percentile_pos rnd n r = nat (min (int n - 1) (max 0 (\<lceil>rnd (rnd (of_nat n) * r)\<rceil> - 1)))" for r
    unfolding percentile_pos_def Let_def by (simp del: ceiling_less_one ceiling_le_zero ceiling_le_one) linarith
  ultimately show ?thesis by simp
qed

text \<open>The percentiles are latencies, in the order of their ranks, between the least and the greatest.\<close>

lemma percentile_member: "xs \<noteq> [] \<Longrightarrow> percentile rnd xs p \<in> set xs"
  by (simp add: percentile_def percentile_pos_less)

theorem percentile_mono:
  assumes "mono rnd" and "0 \<le> rnd (of_nat (length xs))" and "sorted xs" and "p \<le> q"
  shows "percentile rnd xs p \<le> percentile rnd xs q"
proof (cases "xs = []")
  case False
  have order: "xs ! i \<le> xs ! j" if "i \<le> j" "j < length xs" for i j
    using assms(3) that by (simp add: sorted_nth_mono)
  have pos: "percentile_pos rnd (length xs) r < length xs" for r using percentile_pos_less False by simp
  moreover from this have "percentile_pos rnd (length xs) r \<le> length xs - Suc 0" for r by (metis Suc_pred less_Suc_eq_le not_less_zero neq0_conv)
  ultimately show ?thesis
    using order [of 0] order [of _ "length xs - 1"] order [OF percentile_pos_mono [OF assms(1,2,4)] pos]
      assms(4) False
    by (auto simp: percentile_def)
qed (simp add: percentile_def)

subsection \<open>The program\<close>

text \<open>\<open>runHTTP\<close> and \<open>runTCP\<close>: the tunnel (its URL or port, or why it did not start), the
  place that is asked, and the summary of the load on it.\<close>

definition load_http :: "(rat \<Rightarrow> rat) \<Rightarrow> (string \<Rightarrow> string) \<Rightarrow> string result \<Rightarrow> (string \<Rightarrow> load_result) \<Rightarrow> summary result" where
  "load_http rnd quote tunnel load =
     (case tunnel of
        Inl e \<Rightarrow> Inl (Msg (''start http tunnel: '' @ error_text quote e))
      | Inr u \<Rightarrow>
          (case load_hostFromURL quote u of
             Inl e \<Rightarrow> Inl (Msg (''parse tunnel url: '' @ error_text quote e))
           | Inr publicHost \<Rightarrow> Inr (printSummary rnd (load publicHost))))"

definition load_tcp ::
  "(rat \<Rightarrow> rat) \<Rightarrow> (string \<Rightarrow> string) \<Rightarrow> string \<Rightarrow> int result \<Rightarrow> (string \<Rightarrow> load_result) \<Rightarrow> summary result" where
  "load_tcp rnd quote serverURL tunnel load =
     (case tunnel of
        Inl e \<Rightarrow> Inl (Msg (''start tcp tunnel: '' @ error_text quote e))
      | Inr port \<Rightarrow>
          (case hostFromServerURL quote serverURL of
             Inl e \<Rightarrow> Inl e
           | Inr serverHost \<Rightarrow> Inr (printSummary rnd (load (serverHost @ '':'' @ Itoa port)))))"

text \<open>What the program meets: the rounds of the wait for health, the start of a tunnel, and the load.\<close>

record load_world =
  lw_health :: "(nat option \<times> bool) list"
  lw_http_tunnel :: "string \<Rightarrow> string result"
  lw_tcp_tunnel :: "string \<Rightarrow> int result"
  lw_load :: "load_config \<Rightarrow> string \<Rightarrow> load_result"

definition load_main ::
  "(rat \<Rightarrow> rat) \<Rightarrow> (string \<Rightarrow> string) \<Rightarrow> load_world \<Rightarrow> (string \<Rightarrow> string) \<Rightarrow> string list
    \<Rightarrow> (load_stop + summary) option" where
  "load_main rnd quote w env args =
     (case load_settings rnd env args of
        Inl e \<Rightarrow> Some (Inl e)
      | Inr c \<Rightarrow>
          (case waitForHealth (lc_server c) (lw_health w) of
             None \<Rightarrow> None
           | Some (Some e) \<Rightarrow> Some (Inl (Fatal (error_text quote e)))
           | Some None \<Rightarrow>
               (case ControlURLFromServerAddr (lc_server c) of
                  Inl e \<Rightarrow> Some (Inl (Fatal (''control url: '' @ error_text quote e)))
                | Inr controlURL \<Rightarrow>
                    if lc_mode c = ''http'' then
                      Some (map_sum (\<lambda>e. Fatal (error_text quote e)) id
                        (load_http rnd quote (lw_http_tunnel w controlURL) (lw_load w c)))
                    else if lc_mode c = ''tcp'' then
                      Some (map_sum (\<lambda>e. Fatal (error_text quote e)) id
                        (load_tcp rnd quote (lc_server c) (lw_tcp_tunnel w controlURL) (lw_load w c)))
                    else Some (Inl (Fatal (''invalid mode: '' @ lc_mode c))))))"

text \<open>The settings a load runs with are within bounds, whatever the environment and the flags are.\<close>

theorem load_settings_bounds:
  assumes "load_settings rnd env args = Inr c"
  shows "TrimSpace (lc_authtoken c) \<noteq> [] \<and> 0 < lc_concurrency c \<and> lc_concurrency c \<le> lc_requests c
    \<and> 0 < lc_timeout c \<and> 0 < lc_payload c"
  using assms by (auto simp: load_settings_def Let_def seconds_def split: sum.splits prod.splits if_splits)

text \<open>A summary is printed for a healthy server only.\<close>

lemma load_needs_health:
  "load_main rnd quote w env args = Some (Inr s) \<Longrightarrow> \<exists>late. (Some 200, late) \<in> set (lw_health w)"
proof -
  have "waitForHealth u rs = Some None \<Longrightarrow> \<exists>late. (Some 200, late) \<in> set rs" for u rs
    by (induction u rs rule: waitForHealth.induct) (auto split: if_splits)
  then show "load_main rnd quote w env args = Some (Inr s) \<Longrightarrow> ?thesis"
    by (auto simp: load_main_def split: sum.splits option.splits)
qed

subsection \<open>Witnesses\<close>

definition demo_job :: "nat \<Rightarrow> string option" where
  "demo_job i = http_job None (Inr (if i = 1 then 502 else 200))"

theorem load_counts_every_request_witness:
  "\<exists>r. load_result_of ''http'' 2 7 (run_workers demo_job (\<lambda>i. int i + 3)
        (concat (replicate 9 [0, 1])) (load_start 2 2)) = Some r
    \<and> lr_ok r = 1 \<and> lr_errors r = 1 \<and> lr_latencies r = [3, 4] \<and> lr_sample r = ''status=502''"
proof -
  have jobs: "demo_job i = (if i = 1 then Some ''status=502'' else None)" for i
    by (simp add: demo_job_def http_job_def eval_simps)
  have turns: "\<forall>w<2. 4 * 2 + 1 \<le> count_list (concat (replicate 9 [0, 1])) (w :: nat)"
    by (auto simp: less_2_cases_iff eval_nat_numeral)
  have "{i. i < 2 \<and> demo_job i \<noteq> None} = {1}" by (auto simp: jobs)
  then have one: "card {i. i < 2 \<and> demo_job i \<noteq> None} = 1" by simp
  have "map (\<lambda>i. int i + 3) [0..<2] = [3, 4]" by (simp add: upt_rec)
  with one show ?thesis
    using load_counts_every_request [OF _ turns, of "''http''" 7 demo_job "\<lambda>i. int i + 3"]
    by (auto simp: jobs split: if_splits)
qed

end
