(* ===== verification/Browser.thy ===== *)
theory Browser
  imports GoJson GoQuote
begin

text \<open>
  What the scripts of the embedded pages use of a browser: values of JavaScript that come from
  JSON, conversion to strings, percent encoding, the trimming of strings, headers given to \<open>fetch\<close>, and
  the reading of markup that is assigned to \<open>innerHTML\<close>. Strings are UTF-8 bytes, as elsewhere; how a
  number that is no small integer is printed is an argument.
\<close>

subsection \<open>Values\<close>

text \<open>\<open>None\<close> is \<open>undefined\<close>. A property of an object is the one written last; reading a property of
  \<open>null\<close> or \<open>undefined\<close> raises a \<open>TypeError\<close> (the outer \<open>None\<close>).\<close>

type_synonym js = "json option"

definition js_member :: "js \<Rightarrow> string \<Rightarrow> js option" where
  "js_member v k =
     (case v of
        None \<Rightarrow> None
      | Some JNull \<Rightarrow> None
      | Some (JObj kvs) \<Rightarrow> Some (map_of (rev kvs) k)
      | Some _ \<Rightarrow> Some None)"

definition safe_integer :: "int \<Rightarrow> bool" where
  "safe_integer i \<longleftrightarrow> \<bar>i\<bar> \<le> 9007199254740991"

fun js_String :: "(json \<Rightarrow> string) \<Rightarrow> json \<Rightarrow> string" where
  "js_String num JNull = ''null''"
| "js_String num (JBool b) = (if b then ''true'' else ''false'')"
| "js_String num (JInt i) = (if safe_integer i then Itoa i else num (JInt i))"
| "js_String num (JNum s) = num (JNum s)"
| "js_String num (JStr s) = s"
| "js_String num (JArr vs) = Join_char CHR '','' (map (\<lambda>v. if v = JNull then [] else js_String num v) vs)"
| "js_String num (JObj kvs) = ''[object Object]''"

definition js_text :: "(json \<Rightarrow> string) \<Rightarrow> js \<Rightarrow> string" where
  "js_text num v = (case v of None \<Rightarrow> ''undefined'' | Some j \<Rightarrow> js_String num j)"

definition truthy :: "(json \<Rightarrow> string) \<Rightarrow> js \<Rightarrow> bool" where
  "truthy num v =
     (case v of
        None \<Rightarrow> False
      | Some JNull \<Rightarrow> False
      | Some (JBool b) \<Rightarrow> b
      | Some (JStr s) \<Rightarrow> s \<noteq> []
      | Some (JArr _) \<Rightarrow> True
      | Some (JObj _) \<Rightarrow> True
      | Some n \<Rightarrow> js_String num n \<noteq> ''0'')"

text \<open>\<open>v || w\<close>.\<close>

definition js_or :: "(json \<Rightarrow> string) \<Rightarrow> js \<Rightarrow> json \<Rightarrow> json" where
  "js_or num v w = (case v of Some j \<Rightarrow> if truthy num v then j else w | None \<Rightarrow> w)"

lemma js_values [simp]:
  "js_member (Some (JObj kvs)) k = Some (map_of (rev kvs) k)"
  "js_text num (Some j) = js_String num j" "js_text num None = ''undefined''"
  "\<not> truthy num None" "\<not> truthy num (Some JNull)" "truthy num (Some (JBool b)) = b"
  "truthy num (Some (JStr s)) \<longleftrightarrow> s \<noteq> []" "truthy num (Some (JArr vs))" "truthy num (Some (JObj kvs))"
  "js_or num None w = w"
  by (simp_all add: js_member_def js_text_def truthy_def js_or_def)

lemma js_or_JStr [simp]: "js_or num (Some (JStr s)) w = (if s = [] then w else JStr s)"
  by (simp add: js_or_def)

lemma Itoa_zero: "Itoa i = ''0'' \<longleftrightarrow> i = 0"
proof
  assume z: "Itoa i = ''0''"
  have "Itoa 0 = ''0''" by (simp add: eval_simps)
  moreover have "0 \<le> i" using z by (cases "i < 0") (auto simp: Itoa_def)
  ultimately have "dec_digits (nat i) = dec_digits 0" using z by (simp add: Itoa_def)
  then have "nat i = 0" by (metis dec_val_dec_digits)
  then show "i = 0" using \<open>0 \<le> i\<close> by simp
qed (simp add: eval_simps)

lemma truthy_int [simp]: "safe_integer i \<Longrightarrow> truthy num (Some (JInt i)) \<longleftrightarrow> i \<noteq> 0"
  by (simp add: truthy_def Itoa_zero)

subsection \<open>Strings\<close>

text \<open>\<open>String.prototype.trim\<close>: the space characters of Go's \<open>TrimSpace\<close> without U+0085 and with
  U+FEFF.\<close>

definition js_spaces :: "string list" where
  "js_spaces = [CHR 0xEF, CHR 0xBB, CHR 0xBF] # filter (\<lambda>r. r \<noteq> [CHR 0xC2, CHR 0x85]) space_runes"

definition js_trim :: "string \<Rightarrow> string" where
  "js_trim s = rev (trim_front (map rev js_spaces) (rev (trim_front js_spaces s)))"

lemma starts_with_any_graphic:
  "(\<And>r. r \<in> set rs \<Longrightarrow> r \<noteq> [] \<Longrightarrow> \<not> graphic (hd r)) \<Longrightarrow> s \<noteq> [] \<Longrightarrow> graphic (hd s) \<Longrightarrow> starts_with_any rs s = None"
  by (cases s) (fastforce simp: starts_with_any_None prefix_def neq_Nil_conv)+

lemma js_spaces_ends: "r \<in> set js_spaces \<Longrightarrow> r \<noteq> [] \<and> \<not> graphic (hd r) \<and> \<not> graphic (last r)"
  using space_runes_hd by (auto simp: js_spaces_def graphic_def)

lemma js_trim_graphic:
  assumes "s \<noteq> []" "graphic (hd s)" "graphic (last s)"
  shows "js_trim s = s"
proof -
  have "trim_front js_spaces s = s"
    by (intro trim_front_id starts_with_any_graphic) (use js_spaces_ends assms in auto)
  moreover have "trim_front (map rev js_spaces) (rev s) = rev s"
    by (intro trim_front_id starts_with_any_graphic) (use js_spaces_ends assms in \<open>auto simp: hd_rev\<close>)
  ultimately show ?thesis by (simp add: js_trim_def)
qed

text \<open>\<open>encodeURIComponent\<close>.\<close>

definition uri_plain :: "char \<Rightarrow> bool" where
  "uri_plain c \<longleftrightarrow> query_plain c \<or> c \<in> set ([CHR 0x27] @ ''!*()'')"

definition uri_byte :: "char \<Rightarrow> string" where
  "uri_byte c =
     (if uri_plain c then [c] else [CHR ''%'', upper_hex (byte c div 16), upper_hex (byte c mod 16)])"

definition encodeURIComponent :: "string \<Rightarrow> string" where
  "encodeURIComponent s = concat (map uri_byte s)"

lemma encodeURIComponent_plain: "list_all uri_plain s \<Longrightarrow> encodeURIComponent s = s"
  by (induction s) (simp_all add: encodeURIComponent_def uri_byte_def)

text \<open>The value of a header given to \<open>fetch\<close>: a character above U+00FF, a NUL or a line break is a
  \<open>TypeError\<close>; the others are sent as one byte each.\<close>

function latin1 :: "string \<Rightarrow> string option" where
  "latin1 [] = Some []"
| "latin1 (c # s) =
     (case decode_rune (c # s) of
        None \<Rightarrow> None
      | Some (r, w) \<Rightarrow> if 256 \<le> r \<or> r \<in> {0, 10, 13} then None
                     else map_option ((#) (char_of r)) (latin1 (drop (w - 1) s)))"
  by pat_completeness auto
termination by (relation "measure length") auto

lemma decode_ascii: "byte c < 128 \<Longrightarrow> decode_rune (c # s) = Some (byte c, 1)"
  by (simp add: decode_rune_def)

lemma graphic_byte: "graphic c \<Longrightarrow> 32 < byte c \<and> byte c < 127"
  by (simp add: graphic_def)

lemma latin1_graphic: "(\<And>c. c \<in> set s \<Longrightarrow> graphic c \<or> c = CHR '' '') \<Longrightarrow> latin1 s = Some s"
proof (induction s)
  case Nil
  then show ?case by simp
next
  case (Cons c s)
  then have "32 \<le> byte c \<and> byte c < 128" using graphic_byte [of c] by fastforce
  then show ?case using Cons by (simp add: decode_ascii)
qed

text \<open>A path made of plain segments is clean, and the multiplexer sees its segments.\<close>

definition plain_segment :: "string \<Rightarrow> bool" where
  "plain_segment s \<longleftrightarrow> s \<noteq> [] \<and> s \<noteq> ''.'' \<and> s \<noteq> ''..'' \<and> CHR ''/'' \<notin> set s \<and> CHR ''%'' \<notin> set s"

definition path_of :: "string list \<Rightarrow> string" where
  "path_of segs = CHR ''/'' # Join_char CHR ''/'' segs"

lemma clean_segments_plain: "list_all plain_segment segs \<Longrightarrow> clean_segments out segs = out @ segs"
  by (induction out segs rule: clean_segments.induct) (auto simp: plain_segment_def)

lemma path_of_segments:
  assumes "segs \<noteq> []" "list_all plain_segment segs"
  shows "cleanPath (path_of segs) = path_of segs" "mux_parts (path_of segs) = segs"
    "mux_parts (path_of segs @ ''/'') = segs @ [[]]" "PathUnescape (path_of segs) = Some (path_of segs)"
proof -
  have split: "Split_char CHR ''/'' (Join_char CHR ''/'' segs) = segs"
    using assms by (intro Split_Join_char) (auto simp: list_all_iff plain_segment_def)
  then have all: "Split_char CHR ''/'' (path_of segs) = [] # segs" by (simp add: path_of_def)
  have unescape: "PathUnescape s = Some s" if "s \<in> set segs" for s
    using that assms(2) by (intro pct_decode_plain [of s False, folded PathUnescape_def]) (auto simp: list_all_iff plain_segment_def)
  then have map: "map (\<lambda>s. case PathUnescape s of None \<Rightarrow> s | Some t \<Rightarrow> t) segs = segs" by (intro map_idI) simp
  have rooted: "clean_rooted (path_of segs) = path_of segs"
    unfolding clean_rooted_def all using clean_segments_plain [OF assms(2), of "[]"] by (simp add: path_of_def)
  have "last (path_of segs) \<noteq> CHR ''/''"
  proof -
    obtain us s where s: "segs = us @ [s]" using assms(1) by (metis rev_exhaust)
    then have "plain_segment s" using assms(2) by simp
    moreover have "\<exists>t. path_of segs = t @ s"
      unfolding s path_of_def by (induction us rule: induct_list012) auto
    ultimately show ?thesis by (metis last_appendR last_in_set plain_segment_def)
  qed
  with rooted show "cleanPath (path_of segs) = path_of segs" by (simp add: cleanPath_def path_of_def)
  show "mux_parts (path_of segs) = segs" using map split by (simp add: mux_parts_def path_of_def)
  have snoc: "Split_char c (s @ [c]) = Split_char c s @ [[]]" for c s
  proof (induction s)
    case (Cons d s)
    obtain p ps where "Split_char c s = p # ps" by (cases "Split_char c s") auto
    with Cons show ?case by simp
  qed simp
  show "mux_parts (path_of segs @ ''/'') = segs @ [[]]"
    using map split snoc [of "CHR ''/''" "Join_char CHR ''/'' segs"] by (simp add: mux_parts_def path_of_def PathUnescape_def)
  have "CHR ''%'' \<notin> set (path_of segs)"
    using assms(2) unfolding path_of_def by (induction segs rule: induct_list012) (auto simp: plain_segment_def)
  then show "PathUnescape (path_of segs) = Some (path_of segs)" by (simp add: PathUnescape_def pct_decode_plain)
qed

subsection \<open>Markup\<close>

text \<open>
  Reading markup: a fragment made of tags with quoted attributes and of text, as the parsing
  algorithm of the HTML standard reads it. The reader answers for the elements the pages write
  (with every element closed by its own end tag, and none of those that may not contain themselves
  inside itself) and for the character references they use; it gives no answer for anything else. In text and
  in attributes a line ends in a line feed whatever it was written as; a NUL is dropped from a text and
  replaced in an attribute; the line feed that starts a \<open>pre\<close> is dropped.
\<close>

datatype dom = Element string "(string \<times> string) list" "dom list" | TextNode string

datatype html_token = StartTag string "(string \<times> string) list" | EndTag string | Chars string

definition char_references :: "(string \<times> char) list" where
  "char_references = [(''amp;'', CHR ''&''), (''lt;'', CHR ''<''), (''gt;'', CHR ''>''), (''quot;'', CHR 0x22),
     (''#34;'', CHR 0x22), (''#39;'', CHR 0x27)]"

function char_refs :: "string \<Rightarrow> string option" where
  "char_refs [] = Some []"
| "char_refs (c # s) =
     (if c \<noteq> CHR ''&'' then map_option ((#) c) (char_refs s)
      else
        (case find (\<lambda>r. prefix (fst r) s) char_references of
           None \<Rightarrow> None
         | Some (name, d) \<Rightarrow> map_option ((#) d) (char_refs (drop (length name) s))))"
  by pat_completeness auto
termination by (relation "measure length") auto

fun newlines :: "string \<Rightarrow> string" where
  "newlines [] = []"
| "newlines (c # s) =
     (if c = CHR 0x0D then (case s of d # _ \<Rightarrow> if d = CHR 0x0A then newlines s else CHR 0x0A # newlines s | [] \<Rightarrow> [CHR 0x0A])
      else c # newlines s)"

definition drop_nul :: "string \<Rightarrow> string" where
  "drop_nul s = filter (\<lambda>c. c \<noteq> CHR 0x00) s"

definition replace_nul :: "string \<Rightarrow> string" where
  "replace_nul s = concat (map (\<lambda>c. if c = CHR 0x00 then [CHR 0xEF, CHR 0xBF, CHR 0xBD] else [c]) s)"

definition name_byte :: "char \<Rightarrow> bool" where
  "name_byte c \<longleftrightarrow> is_lower c \<or> is_digit c \<or> c = CHR ''-''"

function read_attrs :: "string \<Rightarrow> ((string \<times> string) list \<times> string) option" where
  "read_attrs s =
     (case s of
        [] \<Rightarrow> None
      | c # t \<Rightarrow>
          if c = CHR ''>'' then Some ([], t)
          else if c = CHR '' '' \<and> takeWhile name_byte t \<noteq> []
            \<and> prefix (''='' @ [CHR 0x22]) (dropWhile name_byte t) then
            (let v = drop 2 (dropWhile name_byte t) in
             case char_refs (newlines (takeWhile (\<lambda>d. d \<noteq> CHR 0x22) v)) of
               None \<Rightarrow> None
             | Some value \<Rightarrow>
                 map_option (map_prod ((#) (takeWhile name_byte t, replace_nul value)) id)
                   (read_attrs (drop 1 (dropWhile (\<lambda>d. d \<noteq> CHR 0x22) v))))
          else None)"
  by pat_completeness auto
termination
proof (relation "measure length")
  fix s c t v a
  assume "s = c # t" "v = drop 2 (dropWhile name_byte t)"
  then have "length (drop 1 (dropWhile (\<lambda>d. d \<noteq> CHR 0x22) v)) \<le> length t"
    using length_dropWhile_le [of "\<lambda>d. d \<noteq> CHR 0x22" v] length_dropWhile_le [of name_byte t] by simp
  then show "(drop 1 (dropWhile (\<lambda>d. d \<noteq> CHR 0x22) v), s) \<in> measure length" using \<open>s = c # t\<close> by simp
qed simp

declare read_attrs.simps [simp del]

lemma read_attrs_shorter: "read_attrs s = Some (ats, r) \<Longrightarrow> length r < length s"
proof (induction s arbitrary: ats r rule: read_attrs.induct)
  case (1 s)
  from 1(2) obtain c t where s: "s = c # t" by (cases s) (auto simp: read_attrs.simps)
  show ?case
  proof (cases "c = CHR ''>''")
    case True
    with 1(2) s show ?thesis by (auto simp: read_attrs.simps)
  next
    case False
    define v where "v = drop 2 (dropWhile name_byte t)"
    obtain w ats' where "char_refs (newlines (takeWhile (\<lambda>d. d \<noteq> CHR 0x22) v)) = Some w"
      "read_attrs (drop 1 (dropWhile (\<lambda>d. d \<noteq> CHR 0x22) v)) = Some (ats', r)"
      "c = CHR '' '' \<and> takeWhile name_byte t \<noteq> [] \<and> prefix (''='' @ [CHR 0x22]) (dropWhile name_byte t)"
      using 1(2) False by (subst (asm) read_attrs.simps) (auto simp: s v_def Let_def split: if_splits option.splits)
    with 1(1) [OF s False _ v_def] have "length r < length (drop 1 (dropWhile (\<lambda>d. d \<noteq> CHR 0x22) v))" by blast
    then show ?thesis
      using length_dropWhile_le [of "\<lambda>d. d \<noteq> CHR 0x22" v] length_dropWhile_le [of name_byte t] by (simp add: s v_def)
  qed
qed

function html_tokens :: "string \<Rightarrow> html_token list option" where
  "html_tokens s =
     (case s of
        [] \<Rightarrow> Some []
      | c # t \<Rightarrow>
          if c \<noteq> CHR ''<'' then
            Option.bind (char_refs (newlines (takeWhile (\<lambda>d. d \<noteq> CHR ''<'') s)))
              (\<lambda>text. map_option ((#) (Chars text)) (html_tokens (dropWhile (\<lambda>d. d \<noteq> CHR ''<'') s)))
          else if prefix ''/'' t then
            (let name = takeWhile name_byte (drop 1 t); rest = dropWhile name_byte (drop 1 t) in
             if name = [] \<or> \<not> prefix ''>'' rest then None
             else map_option ((#) (EndTag name)) (html_tokens (drop 1 rest)))
          else
            (let name = takeWhile name_byte t in
             case read_attrs (dropWhile name_byte t) of
               None \<Rightarrow> None
             | Some (as, rest) \<Rightarrow>
                 if name = [] \<or> \<not> is_lower (hd name) \<or> \<not> distinct (map fst as) then None
                 else map_option ((#) (StartTag name as)) (html_tokens rest)))"
  by pat_completeness auto
termination
proof (relation "measure length")
  fix s :: string and c t and x :: string
  assume "s = c # t" "c \<noteq> CHR ''<''"
  then show "(dropWhile (\<lambda>d. d \<noteq> CHR ''<'') s, s) \<in> measure length"
    using length_dropWhile_le [of "\<lambda>d. d \<noteq> CHR ''<''" t] by simp
next
  fix s :: string and c t name rest
  assume "s = c # t" "rest = dropWhile name_byte (drop 1 t)"
  then show "(drop 1 rest, s) \<in> measure length"
    using length_dropWhile_le [of name_byte "drop 1 t"] by simp
next
  fix s :: string and c t name a ats rest
  assume "s = c # t" "read_attrs (dropWhile name_byte t) = Some a" "(ats, rest) = a"
  then show "(rest, s) \<in> measure length"
    using read_attrs_shorter [of "dropWhile name_byte t" ats rest] length_dropWhile_le [of name_byte t] by simp
qed simp

declare html_tokens.simps [simp del]

text \<open>The tree: the open elements with what precedes them, innermost first, and what the innermost
  one holds, last first.\<close>

definition ordinary_elements :: "string list" where
  "ordinary_elements = [''div'', ''span'', ''h2'', ''pre'', ''a'', ''button'']"

definition may_open :: "string \<Rightarrow> string list \<Rightarrow> bool" where
  "may_open n outer \<longleftrightarrow> n \<in> set ordinary_elements \<and> (n \<in> set [''h2'', ''pre'', ''a'', ''button''] \<longrightarrow> n \<notin> set outer)"

definition text_nodes :: "string \<Rightarrow> dom list" where
  "text_nodes t = (if t = [] then [] else [TextNode t])"

definition first_text :: "string \<Rightarrow> string \<Rightarrow> string" where
  "first_text n t = drop_nul (if n = ''pre'' \<and> prefix [CHR 0x0A] t then tl t else t)"

fun build_dom :: "html_token list \<Rightarrow> (string \<times> (string \<times> string) list \<times> dom list) list \<Rightarrow> dom list \<Rightarrow> dom list option" where
  "build_dom [] [] acc = Some (rev acc)"
| "build_dom [] (f # fs) acc = None"
| "build_dom (Chars t # ts) st acc =
     build_dom ts st (text_nodes (if st \<noteq> [] \<and> acc = [] then first_text (fst (hd st)) t else drop_nul t) @ acc)"
| "build_dom (StartTag n as # ts) st acc =
     (if may_open n (map fst st) then build_dom ts ((n, as, acc) # st) [] else None)"
| "build_dom (EndTag n # ts) [] acc = None"
| "build_dom (EndTag n # ts) ((m, as, before) # st) acc =
     (if n = m then build_dom ts st (Element m as (rev acc) # before) else None)"

definition read_html :: "string \<Rightarrow> dom list option" where
  "read_html s = Option.bind (html_tokens s) (\<lambda>ts. build_dom ts [] [])"

subsection \<open>Writing markup that reads back\<close>

definition escape_char :: "char \<Rightarrow> string" where
  "escape_char c =
     (if c = CHR ''&'' then ''&amp;'' else if c = CHR ''<'' then ''&lt;'' else if c = CHR ''>'' then ''&gt;''
      else if c = CHR 0x22 then ''&quot;'' else if c = CHR 0x27 then ''&#39;'' else [c])"

definition markup_escape :: "string \<Rightarrow> string" where
  "markup_escape s = concat (map escape_char s)"

lemma markup_escape_simps [simp]:
  "markup_escape [] = []" "markup_escape (c # s) = escape_char c @ markup_escape s"
  "markup_escape (s @ t) = markup_escape s @ markup_escape t"
  by (simp_all add: markup_escape_def)

lemma escape_char_plain: "c \<notin> set ([CHR 0x22, CHR 0x27] @ ''<>&'') \<Longrightarrow> escape_char c = [c]"
  by (simp add: escape_char_def)

lemma markup_escape_plain: "list_all (\<lambda>c. c \<notin> set ([CHR 0x22, CHR 0x27] @ ''<>&'')) s \<Longrightarrow> markup_escape s = s"
  by (induction s) (auto simp: escape_char_plain)

lemma escape_char_chars: "d \<in> set (escape_char c) \<Longrightarrow> d \<noteq> CHR ''<'' \<and> d \<noteq> CHR 0x22"
  by (auto simp: escape_char_def split: if_splits)

lemma markup_escape_chars: "d \<in> set (markup_escape s) \<Longrightarrow> d \<noteq> CHR ''<'' \<and> d \<noteq> CHR 0x22"
  by (induction s) (auto dest: escape_char_chars)

lemma markup_escape_Nil [simp]: "markup_escape s = [] \<longleftrightarrow> s = []"
  by (cases s) (auto simp: escape_char_def)

lemma escape_char_newline: "c \<noteq> CHR 0x0D \<Longrightarrow> newlines (escape_char c @ t) = escape_char c @ newlines t"
  by (auto simp: escape_char_def)

lemma newlines_CR: "newlines (CHR 0x0D # m) = (if prefix [CHR 0x0A] m then newlines m else CHR 0x0A # newlines m)"
  by (cases m) auto

lemma newlines_escape: "newlines (markup_escape s) = markup_escape (newlines s)"
proof (induction s)
  case Nil
  then show ?case by simp
next
  case (Cons c s)
  show ?case
  proof (cases "c = CHR 0x0D")
    case False
    with Cons show ?thesis by (simp add: escape_char_newline)
  next
    case True
    have "prefix [CHR 0x0A] (markup_escape s) \<longleftrightarrow> prefix [CHR 0x0A] s"
      by (cases s) (auto simp: escape_char_def)
    moreover have "escape_char (CHR 0x0D) = [CHR 0x0D]" "escape_char (CHR 0x0A) = [CHR 0x0A]"
      by (simp_all add: escape_char_def)
    ultimately show ?thesis
      using Cons unfolding True by (simp add: newlines_CR del: newlines.simps)
  qed
qed

lemma char_refs_escape_char: "char_refs (escape_char c @ s) = map_option ((#) c) (char_refs s)"
  by (auto simp: escape_char_def char_references_def)

lemma char_refs_escape: "char_refs (markup_escape s) = Some s"
  by (induction s) (simp_all add: char_refs_escape_char)

definition page_text :: "string \<Rightarrow> string" where
  "page_text s = drop_nul (newlines s)"

definition page_attr :: "string \<Rightarrow> string" where
  "page_attr s = replace_nul (newlines s)"

definition print_attr :: "string \<times> string \<Rightarrow> string" where
  "print_attr = (\<lambda>(k, v). '' '' @ k @ ''='' @ [CHR 0x22] @ markup_escape v @ [CHR 0x22])"

fun html_print :: "dom \<Rightarrow> string" where
  "html_print (TextNode t) = markup_escape t"
| "html_print (Element n ats ch) =
     ''<'' @ n @ concat (map print_attr ats) @ ''>'' @ concat (map html_print ch) @ ''</'' @ n @ ''>''"

fun is_text :: "dom \<Rightarrow> bool" where
  "is_text (TextNode t) = True"
| "is_text (Element n ats ch) = False"

definition no_adjacent :: "dom list \<Rightarrow> bool" where
  "no_adjacent ch \<longleftrightarrow> successively (\<lambda>a b. \<not> (is_text a \<and> is_text b)) ch"

definition good_attrs :: "(string \<times> string) list \<Rightarrow> bool" where
  "good_attrs ats \<longleftrightarrow> distinct (map fst ats) \<and> list_all (\<lambda>a. fst a \<noteq> [] \<and> list_all name_byte (fst a)) ats"

fun printable :: "string list \<Rightarrow> dom \<Rightarrow> bool" where
  "printable outer (TextNode t) = True"
| "printable outer (Element n ats ch) =
     (may_open n outer \<and> good_attrs ats \<and> no_adjacent ch \<and> list_all (printable (n # outer)) ch)"

text \<open>What a page shows of a printed tree.\<close>

fun shown :: "dom \<Rightarrow> dom list" where
  "shown (TextNode t) = text_nodes (page_text t)"
| "shown (Element n ats ch) =
     [Element n (map (\<lambda>(k, v). (k, page_attr v)) ats)
        (case ch of
           TextNode t # ch' \<Rightarrow> text_nodes (first_text n (newlines t)) @ concat (map shown ch')
         | _ \<Rightarrow> concat (map shown ch))]"

fun dom_tokens :: "dom \<Rightarrow> html_token list" where
  "dom_tokens (TextNode t) = (if t = [] then [] else [Chars (newlines t)])"
| "dom_tokens (Element n ats ch) =
     StartTag n (map (\<lambda>(k, v). (k, page_attr v)) ats) # concat (map dom_tokens ch) @ [EndTag n]"

lemma takeWhile_run: "(\<And>d. d \<in> set s \<Longrightarrow> P d) \<Longrightarrow> r = [] \<or> \<not> P (hd r) \<Longrightarrow>
    takeWhile P (s @ r) = s \<and> dropWhile P (s @ r) = r"
  by (cases r) (auto simp: takeWhile_append dropWhile_append)

lemma read_attrs_print:
  assumes "k \<noteq> []" "list_all name_byte k"
  shows "read_attrs (print_attr (k, v) @ r) = map_option (map_prod ((#) (k, page_attr v)) id) (read_attrs r)"
proof -
  let ?q = "markup_escape v @ CHR 0x22 # r"
  have n: "takeWhile name_byte (k @ CHR ''='' # CHR 0x22 # ?q) = k \<and> dropWhile name_byte (k @ CHR ''='' # CHR 0x22 # ?q) = CHR ''='' # CHR 0x22 # ?q"
    using assms(2) by (intro takeWhile_run) (auto simp: list_all_iff name_byte_def is_lower_def is_digit_def)
  have v: "takeWhile (\<lambda>d. d \<noteq> CHR 0x22) ?q = markup_escape v \<and> dropWhile (\<lambda>d. d \<noteq> CHR 0x22) ?q = CHR 0x22 # r"
    by (intro takeWhile_run) (auto dest: markup_escape_chars)
  show ?thesis
    by (subst read_attrs.simps) (simp add: print_attr_def n v assms(1) newlines_escape char_refs_escape page_attr_def)
qed

lemma read_attrs_prints:
  "list_all (\<lambda>a. fst a \<noteq> [] \<and> list_all name_byte (fst a)) ats \<Longrightarrow>
     read_attrs (concat (map print_attr ats) @ ''>'' @ r) = Some (map (\<lambda>(k, v). (k, page_attr v)) ats, r)"
proof (induction ats)
  case Nil
  show ?case by (subst read_attrs.simps) simp
next
  case (Cons a ats)
  then show ?case by (cases a) (simp add: read_attrs_print)
qed

lemma ordinary_name: "n \<in> set ordinary_elements \<Longrightarrow> n \<noteq> [] \<and> list_all name_byte n \<and> is_lower (hd n)"
  by (auto simp: ordinary_elements_def name_byte_def is_lower_def is_digit_def)

lemma tokens_start:
  assumes "n \<in> set ordinary_elements" "good_attrs ats"
  shows "html_tokens (''<'' @ n @ concat (map print_attr ats) @ ''>'' @ r)
    = map_option ((#) (StartTag n (map (\<lambda>(k, v). (k, page_attr v)) ats))) (html_tokens r)"
proof -
  note n = ordinary_name [OF assms(1)]
  let ?t = "concat (map print_attr ats) @ ''>'' @ r"
  have "?t = [] \<or> \<not> name_byte (hd ?t)"
    by (cases ats) (auto simp: print_attr_def name_byte_def is_lower_def is_digit_def split: prod.split)
  then have run: "takeWhile name_byte (n @ ?t) = n" "dropWhile name_byte (n @ ?t) = ?t"
    using takeWhile_run [of n name_byte ?t] n by (auto simp: list_all_iff)
  have "\<not> prefix ''/'' (n @ ?t)"
    using n by (cases n) (auto simp: is_lower_def)
  moreover have "read_attrs ?t = Some (map (\<lambda>(k, v). (k, page_attr v)) ats, r)"
    using assms(2) by (intro read_attrs_prints) (simp add: good_attrs_def)
  moreover have "distinct (map (fst \<circ> (\<lambda>(k, v). (k, page_attr v))) ats)"
  proof -
    have "map (fst \<circ> (\<lambda>(k, v). (k, page_attr v))) ats = map fst ats" by auto
    then show ?thesis using assms(2) by (simp only: good_attrs_def)
  qed
  ultimately show ?thesis
    by (subst html_tokens.simps) (use n run in \<open>simp add: Let_def\<close>)
qed

lemma tokens_end:
  assumes "n \<in> set ordinary_elements"
  shows "html_tokens (''</'' @ n @ ''>'' @ r) = map_option ((#) (EndTag n)) (html_tokens r)"
proof -
  note n = ordinary_name [OF assms]
  have "takeWhile name_byte (n @ ''>'' @ r) = n \<and> dropWhile name_byte (n @ ''>'' @ r) = ''>'' @ r"
    using n by (intro takeWhile_run) (auto simp: list_all_iff name_byte_def is_lower_def is_digit_def)
  then show ?thesis by (subst html_tokens.simps) (use n in \<open>simp add: Let_def\<close>)
qed

lemma no_adjacent_Cons:
  "no_adjacent (c # cs) \<Longrightarrow> no_adjacent cs \<and> (cs = [] \<or> \<not> is_text c \<or> \<not> is_text (hd cs))"
  by (cases cs) (auto simp: no_adjacent_def)

lemma html_print_element: "\<not> is_text d \<Longrightarrow> \<exists>s. html_print d = CHR ''<'' # s"
  by (cases d) auto

lemma tokens_run:
  assumes "x \<noteq> []" "hd x \<noteq> CHR ''<''"
  shows "html_tokens x = Option.bind (char_refs (newlines (takeWhile (\<lambda>d. d \<noteq> CHR ''<'') x)))
    (\<lambda>text. map_option ((#) (Chars text)) (html_tokens (dropWhile (\<lambda>d. d \<noteq> CHR ''<'') x)))"
  using assms by (subst html_tokens.simps) (auto split: list.split)

lemma tokens_text:
  assumes "t \<noteq> []" "r = [] \<or> hd r = CHR ''<''"
  shows "html_tokens (markup_escape t @ r) = map_option ((#) (Chars (newlines t))) (html_tokens r)"
proof -
  have "takeWhile (\<lambda>d. d \<noteq> CHR ''<'') (markup_escape t @ r) = markup_escape t
      \<and> dropWhile (\<lambda>d. d \<noteq> CHR ''<'') (markup_escape t @ r) = r"
    using assms(2) by (intro takeWhile_run) (auto dest: markup_escape_chars)
  moreover have "hd (markup_escape t @ r) \<noteq> CHR ''<''"
    using assms(1) markup_escape_chars [of _ t] by (metis hd_append2 hd_in_set markup_escape_Nil)
  ultimately show ?thesis
    using assms(1) by (simp only: tokens_run append_is_Nil_conv markup_escape_Nil newlines_escape char_refs_escape
        Option.bind_lunit simp_thms)
qed

lemma tokens_print:
  "printable outer d \<Longrightarrow> is_text d \<longrightarrow> r = [] \<or> hd r = CHR ''<'' \<Longrightarrow>
     html_tokens (html_print d @ r) = map_option ((@) (dom_tokens d)) (html_tokens r)"
proof (induction d arbitrary: outer r)
  case (TextNode t)
  then show ?case by (cases "t = []") (simp_all add: tokens_text map_option.identity)
next
  case (Element n ats ch)
  have list: "html_tokens (concat (map html_print cs) @ r) = map_option ((@) (concat (map dom_tokens cs))) (html_tokens r)"
    if "set cs \<subseteq> set ch" "no_adjacent cs" "list_all (printable (n # outer)) cs" "hd r = CHR ''<''" for cs r
    using that
  proof (induction cs)
    case Nil
    then show ?case by (simp add: map_option.identity)
  next
    case (Cons c cs)
    let ?r = "concat (map html_print cs) @ r"
    have "is_text c \<longrightarrow> ?r = [] \<or> hd ?r = CHR ''<''"
    proof (cases cs)
      case (Cons c' cs')
      then show ?thesis
        using Cons.prems(2) html_print_element [of c'] no_adjacent_Cons [of c cs] by auto
    qed (use Cons.prems(4) in simp)
    moreover have "no_adjacent cs" using Cons.prems(2) no_adjacent_Cons by blast
    ultimately show ?case
      using Cons Element.IH [of c "n # outer" ?r] by (simp add: option.map_comp comp_def)
  qed
  have n: "n \<in> set ordinary_elements" "good_attrs ats" "no_adjacent ch" "list_all (printable (n # outer)) ch"
    using Element.prems(1) by (auto simp: may_open_def)
  have "html_tokens (html_print (Element n ats ch) @ r)
    = map_option ((#) (StartTag n (map (\<lambda>(k, v). (k, page_attr v)) ats)))
        (html_tokens (concat (map html_print ch) @ ''</'' @ n @ ''>'' @ r))"
    using tokens_start [OF n(1,2)] by simp
  also have "html_tokens (concat (map html_print ch) @ ''</'' @ n @ ''>'' @ r)
    = map_option ((@) (concat (map dom_tokens ch))) (html_tokens (''</'' @ n @ ''>'' @ r))"
    by (intro list) (use n in simp_all)
  also note tokens_end [OF n(1)]
  finally show ?case by (simp add: option.map_comp comp_def)
qed

lemma build_print:
  "printable (map fst st) d \<Longrightarrow> is_text d \<longrightarrow> st = [] \<or> acc \<noteq> [] \<or> fst (hd st) \<noteq> ''pre'' \<Longrightarrow>
     build_dom (dom_tokens d @ ts) st acc = build_dom ts st (rev (shown d) @ acc)"
proof (induction d arbitrary: st acc ts)
  case (TextNode t)
  then show ?case by (auto simp: page_text_def text_nodes_def drop_nul_def first_text_def)
next
  case (Element n ats ch)
  let ?st = "(n, map (\<lambda>(k, v). (k, page_attr v)) ats, acc) # st"
  have list: "build_dom (concat (map dom_tokens cs) @ ts) ?st acc' = build_dom ts ?st (rev (concat (map shown cs)) @ acc')"
    if "set cs \<subseteq> set ch" "no_adjacent cs" "list_all (printable (n # map fst st)) cs"
      "acc' \<noteq> [] \<or> n \<noteq> ''pre'' \<or> cs = [] \<or> \<not> is_text (hd cs)" for cs acc' ts
    using that
  proof (induction cs arbitrary: acc')
    case Nil
    then show ?case by simp
  next
    case (Cons c cs)
    have "no_adjacent cs" using Cons.prems(2) no_adjacent_Cons by blast
    moreover have "rev (shown c) @ acc' \<noteq> [] \<or> n \<noteq> ''pre'' \<or> cs = [] \<or> \<not> is_text (hd cs)"
      using Cons.prems(4) no_adjacent_Cons [OF Cons.prems(2)] by (cases c) auto
    ultimately have "build_dom (concat (map dom_tokens cs) @ ts) ?st (rev (shown c) @ acc')
        = build_dom ts ?st (rev (concat (map shown cs)) @ rev (shown c) @ acc')"
      using Cons.prems(1,3) by (intro Cons.IH) auto
    moreover have "build_dom (dom_tokens c @ concat (map dom_tokens cs) @ ts) ?st acc'
        = build_dom (concat (map dom_tokens cs) @ ts) ?st (rev (shown c) @ acc')"
      using Cons.prems by (intro Element.IH) auto
    ultimately show ?case by simp
  qed
  have p: "may_open n (map fst st)" "no_adjacent ch" "list_all (printable (n # map fst st)) ch"
    using Element.prems(1) by simp_all
  show ?case
  proof (cases "\<exists>t ch'. ch = TextNode t # ch' \<and> t \<noteq> []")
    case False
    then have "build_dom (concat (map dom_tokens ch) @ EndTag n # ts) ?st [] = build_dom (EndTag n # ts) ?st (rev (concat (map shown ch)))"
    proof (cases "ch \<noteq> [] \<and> is_text (hd ch)")
      case True
      with False obtain ch' where ch: "ch = TextNode [] # ch'" by (cases ch; cases "hd ch") auto
      have "build_dom (concat (map dom_tokens ch') @ EndTag n # ts) ?st [] = build_dom (EndTag n # ts) ?st (rev (concat (map shown ch')) @ [])"
        using p(2,3) no_adjacent_Cons [of "TextNode []" ch'] by (intro list) (auto simp: ch)
      then show ?thesis by (simp add: ch page_text_def text_nodes_def drop_nul_def)
    qed (use list [of ch "[]"] p in auto)
    moreover have "shown (Element n ats ch) = [Element n (map (\<lambda>(k, v). (k, page_attr v)) ats) (concat (map shown ch))]"
      using False by (auto simp: page_text_def text_nodes_def drop_nul_def first_text_def split: list.split dom.split)
    ultimately show ?thesis using p(1) by simp
  next
    case True
    then obtain t ch' where ch: "ch = TextNode t # ch'" "t \<noteq> []" by blast
    let ?t = "text_nodes (first_text n (newlines t))"
    have "build_dom (concat (map dom_tokens ch') @ EndTag n # ts) ?st ?t
        = build_dom (EndTag n # ts) ?st (rev (concat (map shown ch')) @ ?t)"
      using p(2,3) no_adjacent_Cons [of "TextNode t" ch'] by (intro list) (auto simp: ch)
    moreover have "rev ?t = ?t" by (simp add: text_nodes_def)
    ultimately show ?thesis using p(1) by (simp add: ch)
  qed
qed

text \<open>Printed elements read back as what they show.\<close>

lemma read_elements:
  assumes "list_all (printable []) ds" "list_all (\<lambda>d. \<not> is_text d) ds"
  shows "read_html (concat (map html_print ds)) = Some (concat (map shown ds))"
proof -
  have "html_tokens (concat (map html_print ds) @ []) = map_option ((@) (concat (map dom_tokens ds))) (html_tokens [])"
    using assms
  proof (induction ds)
    case Nil
    then show ?case by (simp add: map_option.identity)
  next
    case (Cons d ds)
    then show ?case using tokens_print [of "[]" d] by (simp add: option.map_comp comp_def)
  qed
  then have toks: "html_tokens (concat (map html_print ds)) = Some (concat (map dom_tokens ds))"
    by (simp add: html_tokens.simps [of "[]"])
  have "build_dom (concat (map dom_tokens ds) @ []) [] acc = build_dom [] [] (rev (concat (map shown ds)) @ acc)" for acc
    using assms
  proof (induction ds arbitrary: acc)
    case Nil
    then show ?case by simp
  next
    case (Cons d ds)
    then show ?case using build_print [of "[]" d acc "concat (map dom_tokens ds)"] by simp
  qed
  with toks show ?thesis by (simp add: read_html_def)
qed

lemmas [eval_simps] =
  js_spaces_def js_trim_def uri_plain_def uri_byte_def encodeURIComponent_def char_references_def drop_nul_def
  replace_nul_def name_byte_def escape_char_def page_text_def page_attr_def safe_integer_def

end
