(* ===== verification/AdminScript.thy ===== *)
theory AdminScript
  imports Browser
begin

text \<open>
  The dashboard of the admin API, \<open>adminIndexHTML\<close> and \<open>adminAppJS\<close> of
  \<open>internal/server/admin.go\<close>: the elements of the page, the state of its script, and its asynchronous
  functions, cut at the points where they wait for an answer, so that any order of clicks and answers is a
  run. What is specific to a browser (how it prints and reads numbers, the texts of its exceptions) is an
  argument.
\<close>

subsection \<open>The page\<close>

text \<open>The white space that only lays out the lines of the source is left out.\<close>

abbreviation el :: "string \<Rightarrow> (string \<times> string) list \<Rightarrow> dom list \<Rightarrow> dom" where
  "el \<equiv> Element"

definition leaf :: "string \<Rightarrow> (string \<times> string) list \<Rightarrow> string \<Rightarrow> dom" where
  "leaf n ats t = Element n ats (text_nodes t)"

definition head_row :: "string list \<Rightarrow> dom" where
  "head_row cols = el ''thead'' [] [el ''tr'' [] (map (leaf ''th'' []) cols)]"

definition stat_card :: "string \<Rightarrow> string \<Rightarrow> dom" where
  "stat_card title i = el ''article'' [(''class'', ''stat'')] [leaf ''h3'' [] title, leaf ''p'' [(''id'', i)] ''-'']"

definition deploy_line :: "string \<Rightarrow> string \<Rightarrow> dom" where
  "deploy_line title i = el ''p'' [] [leaf ''strong'' [] title, TextNode '' '', leaf ''span'' [(''id'', i)] ''-'']"

definition adminIndexHTML :: dom where
  "adminIndexHTML =
    el ''html'' [(''lang'', ''en'')]
     [el ''head'' []
       [el ''meta'' [(''charset'', ''utf-8'')] [],
        el ''meta'' [(''name'', ''viewport''), (''content'', ''width=device-width,initial-scale=1'')] [],
        leaf ''title'' [] ''Eosrift Admin'',
        el ''link'' [(''rel'', ''stylesheet''), (''href'', ''/admin/style.css'')] []],
      el ''body'' []
       [el ''main'' [(''class'', ''layout'')]
         [el ''header'' [(''class'', ''hero'')]
           [leaf ''h1'' [] ''Eosrift Admin'', leaf ''p'' [] ''Manage tokens and reservations for your server.''],
          el ''section'' [(''id'', ''loginView''), (''class'', ''panel login-card'')]
           [leaf ''h2'' [] ''Admin Login'',
            el ''form'' [(''id'', ''loginForm''), (''class'', ''row'')]
             [el ''input'' [(''id'', ''adminToken''), (''type'', ''password''), (''autocomplete'', ''current-password''),
                (''placeholder'', ''Enter EOSRIFT_ADMIN_TOKEN'')] [],
              leaf ''button'' [(''id'', ''saveTokenBtn''), (''type'', ''submit'')] ''Log In''],
            leaf ''p'' [(''class'', ''hint'')] ''Token is stored in this browser only (localStorage).'',
            leaf ''p'' [(''id'', ''loginStatus''), (''class'', ''status'')] []],
          el ''section'' [(''id'', ''dashboardView''), (''class'', ''hidden'')]
           [el ''section'' [(''class'', ''panel authbar'')]
             [el ''div'' [(''class'', ''row row-between'')]
               [leaf ''h2'' [] ''Admin Session'',
                el ''div'' [(''class'', ''row'')]
                 [leaf ''button'' [(''id'', ''refreshBtn''), (''type'', ''button'')] ''Refresh'',
                  leaf ''button'' [(''id'', ''logoutBtn''), (''class'', ''danger''), (''type'', ''button'')] ''Log Out'']],
              leaf ''p'' [(''id'', ''dashboardStatus''), (''class'', ''status'')] []],
            el ''section'' [(''class'', ''stats''), (''id'', ''summaryGrid'')]
             [stat_card ''Active Tokens'' ''activeTokens'', stat_card ''Revoked Tokens'' ''revokedTokens'',
              stat_card ''Subdomain Reservations'' ''subdomainCount'', stat_card ''TCP Port Reservations'' ''tcpCount''],
            el ''section'' [(''class'', ''grid'')]
             [el ''article'' [(''class'', ''panel'')]
               [leaf ''h2'' [] ''Deploy Status'',
                leaf ''p'' [(''id'', ''deployState''), (''class'', ''status'')] [],
                el ''div'' [(''class'', ''deploy-meta'')]
                 [deploy_line ''SHA:'' ''deploySHA'', deploy_line ''Updated:'' ''deployUpdatedAt'',
                  deploy_line ''Message:'' ''deployMessage'', deploy_line ''Status file:'' ''deployPath'',
                  el ''p'' [] [leaf ''a'' [(''id'', ''deployRunURL''), (''href'', ''#''), (''target'', ''_blank''),
                    (''rel'', ''noopener noreferrer''), (''class'', ''hidden'')] ''Workflow Run'']]],
              el ''article'' [(''class'', ''panel'')]
               [leaf ''h2'' [] ''Authtokens'',
                el ''form'' [(''id'', ''createTokenForm''), (''class'', ''row'')]
                 [el ''input'' [(''id'', ''tokenLabel''), (''type'', ''text''), (''placeholder'', ''Label (optional)'')] [],
                  leaf ''button'' [(''type'', ''submit'')] ''Create Token''],
                leaf ''pre'' [(''id'', ''createTokenOut''), (''class'', ''mono hidden'')] [],
                el ''table'' [] [head_row [''ID'', ''Prefix'', ''Label'', ''Status'', []], el ''tbody'' [(''id'', ''tokensBody'')] []]],
              el ''article'' [(''class'', ''panel'')]
               [leaf ''h2'' [] ''Reserved Subdomains'',
                el ''form'' [(''id'', ''reserveSubdomainForm''), (''class'', ''row'')]
                 [el ''input'' [(''id'', ''subdomainTokenId''), (''type'', ''number''), (''min'', ''1''), (''placeholder'', ''Token ID'')] [],
                  el ''input'' [(''id'', ''subdomainName''), (''type'', ''text''), (''placeholder'', ''subdomain'')] [],
                  leaf ''button'' [(''type'', ''submit'')] ''Reserve''],
                el ''table'' [] [head_row [''Subdomain'', ''Token ID'', ''Prefix'', []], el ''tbody'' [(''id'', ''subdomainsBody'')] []]],
              el ''article'' [(''class'', ''panel'')]
               [leaf ''h2'' [] ''Reserved TCP Ports'',
                el ''form'' [(''id'', ''reservePortForm''), (''class'', ''row'')]
                 [el ''input'' [(''id'', ''portTokenId''), (''type'', ''number''), (''min'', ''1''), (''placeholder'', ''Token ID'')] [],
                  el ''input'' [(''id'', ''portNumber''), (''type'', ''number''), (''min'', ''1''), (''max'', ''65535''),
                    (''placeholder'', ''Port'')] [],
                  leaf ''button'' [(''type'', ''submit'')] ''Reserve''],
                el ''table'' [] [head_row [''Port'', ''Token ID'', ''Prefix'', []], el ''tbody'' [(''id'', ''portsBody'')] []]]]]],
        el ''script'' [(''src'', ''/admin/app.js'')] []]]"

text \<open>The elements the script looks up, and those that start hidden.\<close>

definition script_elements :: "string list" where
  "script_elements =
     [''loginView'', ''dashboardView'', ''loginForm'', ''adminToken'', ''loginStatus'', ''dashboardStatus'',
      ''refreshBtn'', ''logoutBtn'', ''createTokenOut'', ''activeTokens'', ''revokedTokens'', ''subdomainCount'',
      ''tcpCount'', ''deployState'', ''deploySHA'', ''deployUpdatedAt'', ''deployMessage'', ''deployPath'',
      ''deployRunURL'', ''tokensBody'', ''subdomainsBody'', ''portsBody'', ''createTokenForm'', ''tokenLabel'',
      ''reserveSubdomainForm'', ''subdomainTokenId'', ''subdomainName'', ''reservePortForm'', ''portTokenId'',
      ''portNumber'']"

fun elements :: "dom \<Rightarrow> (string \<times> string) list list" where
  "elements (TextNode t) = []"
| "elements (Element n ats ch) = ats # concat (map elements ch)"

definition ids :: "dom \<Rightarrow> string list" where
  "ids d = List.map_filter (\<lambda>ats. map_of ats ''id'') (elements d)"

definition hidden_ids :: "dom \<Rightarrow> string list" where
  "hidden_ids d = List.map_filter (\<lambda>ats. map_of ats ''id'')
     (filter (\<lambda>ats. case map_of ats ''class'' of Some c \<Rightarrow> ''hidden'' \<in> set (Split_char CHR '' '' c) | None \<Rightarrow> False)
       (elements d))"

lemmas page_defs = adminIndexHTML_def leaf_def head_row_def stat_card_def deploy_line_def text_nodes_def

lemma script_elements_exist:
  "distinct (ids adminIndexHTML)" "set script_elements \<subseteq> set (ids adminIndexHTML)"
  "hidden_ids adminIndexHTML = [''dashboardView'', ''deployRunURL'', ''createTokenOut'']"
proof -
  have e: "ids adminIndexHTML =
     [''loginView'', ''loginForm'', ''adminToken'', ''saveTokenBtn'', ''loginStatus'', ''dashboardView'', ''refreshBtn'',
      ''logoutBtn'', ''dashboardStatus'', ''summaryGrid'', ''activeTokens'', ''revokedTokens'', ''subdomainCount'',
      ''tcpCount'', ''deployState'', ''deploySHA'', ''deployUpdatedAt'', ''deployMessage'', ''deployPath'',
      ''deployRunURL'', ''createTokenForm'', ''tokenLabel'', ''createTokenOut'', ''tokensBody'',
      ''reserveSubdomainForm'', ''subdomainTokenId'', ''subdomainName'', ''subdomainsBody'', ''reservePortForm'',
      ''portTokenId'', ''portNumber'', ''portsBody'']"
    by (simp add: ids_def page_defs List.map_filter_def)
  show "distinct (ids adminIndexHTML)" unfolding e by simp
  show "set script_elements \<subseteq> set (ids adminIndexHTML)" unfolding e script_elements_def by simp
  show "hidden_ids adminIndexHTML = [''dashboardView'', ''deployRunURL'', ''createTokenOut'']"
    by (simp add: hidden_ids_def page_defs List.map_filter_def)
qed

subsection \<open>The state of the script\<close>

text \<open>The texts and classes of the elements above that the script changes, its variable \<open>adminToken\<close>, and the
  browser's \<open>localStorage\<close> under the script's key. A row of a table has its cells and the label and the
  resource of its button.\<close>

datatype table_row = Row (row_cells: "string list") (row_button: "(string \<times> string) option")

record admin_page =
  ap_token :: string
  ap_storage :: "string option"
  ap_token_input :: string
  ap_login_hidden :: bool
  ap_dashboard_hidden :: bool
  ap_login_status :: "string \<times> string"
  ap_dashboard_status :: "string \<times> string"
  ap_active_tokens :: string
  ap_revoked_tokens :: string
  ap_subdomain_count :: string
  ap_tcp_count :: string
  ap_deploy_state :: "string \<times> string"
  ap_deploy_sha :: string
  ap_deploy_updated :: string
  ap_deploy_message :: string
  ap_deploy_path :: string
  ap_run_hidden :: bool
  ap_run_href :: "string option"
  ap_tokens :: "table_row list"
  ap_subdomains :: "table_row list"
  ap_ports :: "table_row list"
  ap_create_hidden :: bool
  ap_create_out :: string
  ap_token_label :: string
  ap_subdomain_token :: string
  ap_subdomain_name :: string
  ap_port_token :: string
  ap_port_number :: string

text \<open>What a browser adds: how it prints a number that is no small integer, the number it reads in a text that
  is no plain integer, and the messages of a \<open>TypeError\<close> and of a failed \<open>fetch\<close>.\<close>

record script_env =
  be_number :: "json \<Rightarrow> string"
  be_read_number :: "string \<Rightarrow> json"
  be_type_error :: string
  be_fetch_error :: string

definition setStatus :: "string \<Rightarrow> bool \<Rightarrow> string \<times> string" where
  "setStatus msg ok = (msg, ''status '' @ (if ok then ''ok'' else ''err''))"

definition setLoggedIn :: "bool \<Rightarrow> admin_page \<Rightarrow> admin_page" where
  "setLoggedIn loggedIn p = p\<lparr>ap_login_hidden := loggedIn, ap_dashboard_hidden := \<not> loggedIn\<rparr>"

definition clearSession :: "admin_page \<Rightarrow> admin_page" where
  "clearSession p = p\<lparr>ap_token := [], ap_storage := None, ap_token_input := []\<rparr>"

text \<open>An error of the script: its message and its \<open>status\<close>, if it has one.\<close>

type_synonym js_error = "string \<times> int option"

definition handleDashboardError :: "js_error \<Rightarrow> admin_page \<Rightarrow> admin_page" where
  "handleDashboardError err p =
     (if snd err = Some 401 then
        (setLoggedIn False (clearSession p))\<lparr>ap_login_status := setStatus ''Session expired. Log in again.'' False\<rparr>
      else p\<lparr>ap_dashboard_status := setStatus (fst err) False\<rparr>)"

text \<open>A call of the API: what is sent (the header is that of the token at the time of the call), and what
  becomes of the answer. An answer is its status and its body if that is JSON.\<close>

record api_call =
  ac_method :: string
  ac_resource :: string
  ac_authorization :: "string option"
  ac_body :: "json option"

datatype fetch_end = FetchFails | FetchEnd int "json option"

definition api :: "admin_page \<Rightarrow> string \<Rightarrow> string \<Rightarrow> json option \<Rightarrow> api_call" where
  "api p method path body =
     \<lparr>ac_method = method, ac_resource = path,
      ac_authorization = (if ap_token p \<noteq> [] then Some (''Bearer '' @ ap_token p) else None), ac_body = body\<rparr>"

definition api_result :: "script_env \<Rightarrow> fetch_end \<Rightarrow> js_error + json" where
  "api_result env res =
     (case res of
        FetchFails \<Rightarrow> Inl (be_fetch_error env, None)
      | FetchEnd status body \<Rightarrow>
          if status = 204 then Inr JNull
          else
            (let body = (case body of None \<Rightarrow> JNull | Some j \<Rightarrow> j) in
             if \<not> (200 \<le> status \<and> status < 300) then
               (let err = Option.bind (js_member (Some body) ''error'') (\<lambda>e. if truthy (be_number env) e then e else None) in
                Inl (case err of Some e \<Rightarrow> js_String (be_number env) e | None \<Rightarrow> ''request failed: '' @ Itoa status,
                  Some status))
             else Inr body))"

subsection \<open>Showing what the API answers\<close>

text \<open>Each of these has the data of an answer and tells whether it ended without an exception; what was changed
  before an exception stays changed.\<close>

abbreviation num_text :: "script_env \<Rightarrow> js \<Rightarrow> string" where
  "num_text env \<equiv> js_text (be_number env)"

definition loadSummary :: "script_env \<Rightarrow> json \<Rightarrow> admin_page \<Rightarrow> admin_page \<times> bool" where
  "loadSummary env data p =
     (case data of
        JNull \<Rightarrow> (p, False)
      | _ \<Rightarrow>
          (let text = (\<lambda>k. num_text env (Option.bind (js_member (Some data) k) id)) in
           (p\<lparr>ap_active_tokens := text ''active_tokens'', ap_revoked_tokens := text ''revoked_tokens'',
              ap_subdomain_count := text ''reserved_subdomain'', ap_tcp_count := text ''reserved_tcp_ports''\<rparr>, True)))"

text \<open>A table: the rows of the items up to one that is \<open>null\<close>.\<close>

definition fill_table :: "(json \<Rightarrow> table_row) \<Rightarrow> js option \<Rightarrow> table_row list \<times> bool" where
  "fill_table row items =
     (case items of
        Some (Some (JArr vs)) \<Rightarrow> (map row (takeWhile (\<lambda>v. v \<noteq> JNull) vs), JNull \<notin> set vs)
      | _ \<Rightarrow> ([], False))"

definition item_prop :: "json \<Rightarrow> string \<Rightarrow> js" where
  "item_prop item k = Option.bind (js_member (Some item) k) id"

definition token_row_of :: "script_env \<Rightarrow> json \<Rightarrow> table_row" where
  "token_row_of env token =
     Row [num_text env (item_prop token ''id''), num_text env (item_prop token ''prefix''),
          js_String (be_number env) (js_or (be_number env) (item_prop token ''label'') (JStr ''-'')),
          num_text env (item_prop token ''status'')]
       (if item_prop token ''status'' = Some (JStr ''active'')
        then Some (''Revoke'', ''tokens/'' @ num_text env (item_prop token ''id'')) else None)"

definition loadTokens :: "script_env \<Rightarrow> json \<Rightarrow> admin_page \<Rightarrow> admin_page \<times> bool" where
  "loadTokens env data p =
     (case fill_table (token_row_of env) (js_member (Some data) ''tokens'') of (rows, ok) \<Rightarrow> (p\<lparr>ap_tokens := rows\<rparr>, ok))"

definition or_dash :: "script_env \<Rightarrow> js \<Rightarrow> string" where
  "or_dash env v = (if truthy (be_number env) v then num_text env v else ''-'')"

definition loadDeployStatus :: "script_env \<Rightarrow> json \<Rightarrow> admin_page \<Rightarrow> admin_page \<times> bool" where
  "loadDeployStatus env data p =
     (case data of
        JNull \<Rightarrow> (p, False)
      | _ \<Rightarrow>
          (let state = js_String (be_number env) (js_or (be_number env) (item_prop data ''state'') (JStr ''unknown''));
               ok = (state = ''success'' \<or> state = ''running'');
               run = item_prop data ''run_url'';
               p = p\<lparr>ap_deploy_state := setStatus (''State: '' @ state) ok,
                     ap_deploy_sha := or_dash env (item_prop data ''sha''),
                     ap_deploy_updated := or_dash env (item_prop data ''updated_at''),
                     ap_deploy_message := or_dash env (item_prop data ''message''),
                     ap_deploy_path := or_dash env (item_prop data ''configured_path'')\<rparr>
           in (if truthy (be_number env) run
               then p\<lparr>ap_run_hidden := False, ap_run_href := Some (num_text env run)\<rparr>
               else p\<lparr>ap_run_hidden := True, ap_run_href := None\<rparr>, True)))"

definition subdomain_row_of :: "script_env \<Rightarrow> json \<Rightarrow> table_row" where
  "subdomain_row_of env item =
     Row (map (\<lambda>k. num_text env (item_prop item k)) [''subdomain'', ''token_id'', ''token_prefix''])
       (Some (''Remove'', ''subdomains/'' @ encodeURIComponent (num_text env (item_prop item ''subdomain''))))"

definition loadSubdomains :: "script_env \<Rightarrow> json \<Rightarrow> admin_page \<Rightarrow> admin_page \<times> bool" where
  "loadSubdomains env data p =
     (case fill_table (subdomain_row_of env) (js_member (Some data) ''subdomains'') of
        (rows, ok) \<Rightarrow> (p\<lparr>ap_subdomains := rows\<rparr>, ok))"

definition port_row_of :: "script_env \<Rightarrow> json \<Rightarrow> table_row" where
  "port_row_of env item =
     Row (map (\<lambda>k. num_text env (item_prop item k)) [''port'', ''token_id'', ''token_prefix''])
       (Some (''Remove'', ''tcp-ports/'' @ num_text env (item_prop item ''port'')))"

definition loadPorts :: "script_env \<Rightarrow> json \<Rightarrow> admin_page \<Rightarrow> admin_page \<times> bool" where
  "loadPorts env data p =
     (case fill_table (port_row_of env) (js_member (Some data) ''ports'') of (rows, ok) \<Rightarrow> (p\<lparr>ap_ports := rows\<rparr>, ok))"

subsection \<open>Calls in progress\<close>

text \<open>
  A task is a function of the script that waits for the answer of a call. The five loads of a \<open>refreshAll\<close> share
  a group: how many of them have not succeeded yet, and whether one has failed (\<open>Promise.all\<close> then failed
  with it; the others go on by themselves).
\<close>

datatype load = LoadSummary | LoadDeploy | LoadTokens | LoadSubdomains | LoadPorts

datatype task = Loading load nat | RowAction | Creating | ReservingSubdomain | ReservingPort

definition all_loads :: "load list" where
  "all_loads = [LoadSummary, LoadDeploy, LoadTokens, LoadSubdomains, LoadPorts]"

fun load_resource :: "load \<Rightarrow> string" where
  "load_resource LoadSummary = ''summary''"
| "load_resource LoadDeploy = ''deploy''"
| "load_resource LoadTokens = ''tokens''"
| "load_resource LoadSubdomains = ''subdomains''"
| "load_resource LoadPorts = ''tcp-ports''"

fun show_load :: "script_env \<Rightarrow> load \<Rightarrow> json \<Rightarrow> admin_page \<Rightarrow> admin_page \<times> bool" where
  "show_load env LoadSummary = loadSummary env"
| "show_load env LoadDeploy = loadDeployStatus env"
| "show_load env LoadTokens = loadTokens env"
| "show_load env LoadSubdomains = loadSubdomains env"
| "show_load env LoadPorts = loadPorts env"

record script =
  sc_page :: admin_page
  sc_tasks :: "(task \<times> api_call) list"
  sc_groups :: "nat \<Rightarrow> nat \<times> bool"
  sc_next :: nat
  sc_sent :: "api_call list"

definition call :: "task \<Rightarrow> string \<Rightarrow> string \<Rightarrow> json option \<Rightarrow> script \<Rightarrow> script" where
  "call t method path body sc =
     (let c = api (sc_page sc) method path body
      in sc\<lparr>sc_tasks := sc_tasks sc @ [(t, c)], sc_sent := sc_sent sc @ [c]\<rparr>)"

definition refreshAll :: "script \<Rightarrow> script" where
  "refreshAll sc =
     (if ap_token (sc_page sc) = [] then
        sc\<lparr>sc_page := (setLoggedIn False (sc_page sc))\<lparr>ap_login_status := setStatus ''Enter admin token to continue.'' False\<rparr>\<rparr>
      else
        fold (\<lambda>l. call (Loading l (sc_next sc)) ''GET'' (load_resource l) None) all_loads
          (sc\<lparr>sc_groups := (sc_groups sc)(sc_next sc := (length all_loads, False)), sc_next := sc_next sc + 1\<rparr>))"

definition load_failed :: "nat \<Rightarrow> js_error \<Rightarrow> script \<Rightarrow> script" where
  "load_failed g err sc =
     (case sc_groups sc g of
        (n, failed) \<Rightarrow>
          if failed then sc
          else
            sc\<lparr>sc_groups := (sc_groups sc)(g := (n, True)),
               sc_page :=
                 (if snd err = Some 401
                  then (setLoggedIn False (clearSession (sc_page sc)))
                    \<lparr>ap_login_status := setStatus ''Invalid token. Try again.'' False\<rparr>
                  else (setLoggedIn False (sc_page sc))\<lparr>ap_login_status := setStatus (fst err) False\<rparr>)\<rparr>)"

definition load_done :: "nat \<Rightarrow> script \<Rightarrow> script" where
  "load_done g sc =
     (case sc_groups sc g of
        (n, failed) \<Rightarrow>
          (let sc = sc\<lparr>sc_groups := (sc_groups sc)(g := (n - 1, failed))\<rparr> in
           if n = 1 \<and> \<not> failed
           then sc\<lparr>sc_page := (setLoggedIn True (sc_page sc))\<lparr>ap_dashboard_status := setStatus ''Connected.'' True\<rparr>\<rparr>
           else sc))"

definition created_text :: "script_env \<Rightarrow> json \<Rightarrow> string" where
  "created_text env data =
     ''id: '' @ num_text env (item_prop data ''id'') @ [CHR 0x0A] @ ''prefix: '' @ num_text env (item_prop data ''prefix'')
     @ [CHR 0x0A] @ ''token: '' @ num_text env (item_prop data ''token'')"

definition on_page :: "(admin_page \<Rightarrow> admin_page) \<Rightarrow> script \<Rightarrow> script" where
  "on_page f sc = sc\<lparr>sc_page := f (sc_page sc)\<rparr>"

text \<open>How a task goes on when its call has ended.\<close>

fun end_task :: "script_env \<Rightarrow> task \<Rightarrow> js_error + json \<Rightarrow> script \<Rightarrow> script" where
  "end_task env (Loading l g) (Inl err) sc = load_failed g err sc"
| "end_task env (Loading l g) (Inr data) sc =
     (case show_load env l data (sc_page sc) of
        (p, ok) \<Rightarrow>
          (let sc = sc\<lparr>sc_page := p\<rparr> in if ok then load_done g sc else load_failed g (be_type_error env, None) sc))"
| "end_task env RowAction (Inl err) sc = sc"
| "end_task env RowAction (Inr data) sc = refreshAll sc"
| "end_task env Creating (Inl err) sc = on_page (handleDashboardError err) sc"
| "end_task env Creating (Inr data) sc =
     (let sc = on_page (\<lambda>p. p\<lparr>ap_create_hidden := False\<rparr>) sc in
      if data = JNull then on_page (handleDashboardError (be_type_error env, None)) sc
      else refreshAll (on_page (\<lambda>p. p\<lparr>ap_create_out := created_text env data, ap_token_label := []\<rparr>) sc))"
| "end_task env ReservingSubdomain (Inl err) sc = on_page (handleDashboardError err) sc"
| "end_task env ReservingSubdomain (Inr data) sc = refreshAll (on_page (\<lambda>p. p\<lparr>ap_subdomain_name := []\<rparr>) sc)"
| "end_task env ReservingPort (Inl err) sc = on_page (handleDashboardError err) sc"
| "end_task env ReservingPort (Inr data) sc = refreshAll (on_page (\<lambda>p. p\<lparr>ap_port_number := []\<rparr>) sc)"

subsection \<open>Events\<close>

datatype input_field = TokenInput | LabelInput | SubdomainToken | SubdomainName | PortToken | PortNumber

datatype table = TokensTable | SubdomainsTable | PortsTable

text \<open>What the user does, and the end of a call.\<close>

datatype page_event =
    Type input_field string
  | SubmitLogin
  | ClickRefresh
  | ClickLogout
  | SubmitCreate
  | SubmitSubdomain
  | SubmitPort
  | ClickRow table nat
  | CallEnds task api_call fetch_end

fun type_into :: "input_field \<Rightarrow> string \<Rightarrow> admin_page \<Rightarrow> admin_page" where
  "type_into TokenInput s p = p\<lparr>ap_token_input := s\<rparr>"
| "type_into LabelInput s p = p\<lparr>ap_token_label := s\<rparr>"
| "type_into SubdomainToken s p = p\<lparr>ap_subdomain_token := s\<rparr>"
| "type_into SubdomainName s p = p\<lparr>ap_subdomain_name := s\<rparr>"
| "type_into PortToken s p = p\<lparr>ap_port_token := s\<rparr>"
| "type_into PortNumber s p = p\<lparr>ap_port_number := s\<rparr>"

fun table_rows :: "table \<Rightarrow> admin_page \<Rightarrow> table_row list" where
  "table_rows TokensTable p = ap_tokens p"
| "table_rows SubdomainsTable p = ap_subdomains p"
| "table_rows PortsTable p = ap_ports p"

text \<open>\<open>Number\<close> of what a number field holds.\<close>

definition js_Number :: "script_env \<Rightarrow> string \<Rightarrow> json" where
  "js_Number env s =
     (if list_all is_digit s \<and> safe_integer (int (dec_val s)) then JInt (int (dec_val s)) else be_read_number env s)"

definition login_submit :: "script \<Rightarrow> script" where
  "login_submit sc =
     (let sc = on_page (\<lambda>p. p\<lparr>ap_token := js_trim (ap_token_input p)\<rparr>) sc in
      if ap_token (sc_page sc) = [] then on_page (\<lambda>p. p\<lparr>ap_login_status := setStatus ''Token is required.'' False\<rparr>) sc
      else refreshAll (on_page (\<lambda>p. p\<lparr>ap_storage := Some (ap_token p)\<rparr>) sc))"

definition logout :: "script \<Rightarrow> script" where
  "logout = on_page (\<lambda>p. (setLoggedIn False ((clearSession p)\<lparr>ap_create_hidden := True\<rparr>))
     \<lparr>ap_login_status := setStatus ''Logged out.'' True\<rparr>)"

definition create_submit :: "script \<Rightarrow> script" where
  "create_submit sc =
     call Creating ''POST'' ''tokens'' (Some (JObj [(''label'', JStr (js_trim (ap_token_label (sc_page sc))))])) sc"

definition subdomain_submit :: "script_env \<Rightarrow> script \<Rightarrow> script" where
  "subdomain_submit env sc =
     call ReservingSubdomain ''POST'' ''subdomains''
       (Some (JObj [(''token_id'', js_Number env (ap_subdomain_token (sc_page sc))),
                    (''subdomain'', JStr (js_trim (ap_subdomain_name (sc_page sc))))])) sc"

definition port_submit :: "script_env \<Rightarrow> script \<Rightarrow> script" where
  "port_submit env sc =
     call ReservingPort ''POST'' ''tcp-ports''
       (Some (JObj [(''token_id'', js_Number env (ap_port_token (sc_page sc))),
                    (''port'', js_Number env (ap_port_number (sc_page sc)))])) sc"

fun handle :: "script_env \<Rightarrow> page_event \<Rightarrow> script \<Rightarrow> script" where
  "handle env (Type f s) sc = on_page (type_into f s) sc"
| "handle env SubmitLogin sc = login_submit sc"
| "handle env ClickRefresh sc = refreshAll sc"
| "handle env ClickLogout sc = logout sc"
| "handle env SubmitCreate sc = create_submit sc"
| "handle env SubmitSubdomain sc = subdomain_submit env sc"
| "handle env SubmitPort sc = port_submit env sc"
| "handle env (ClickRow t i) sc =
     (case row_button (table_rows t (sc_page sc) ! i) of
        None \<Rightarrow> sc
      | Some (label, path) \<Rightarrow> call RowAction ''DELETE'' path None sc)"
| "handle env (CallEnds t c res) sc =
     end_task env t (api_result env res) (sc\<lparr>sc_tasks := remove1 (t, c) (sc_tasks sc)\<rparr>)"

text \<open>What can happen: a hidden view cannot be used, and a call that was made ends once.\<close>

fun possible :: "script \<Rightarrow> page_event \<Rightarrow> bool" where
  "possible sc (Type f s) =
     (if f = TokenInput then \<not> ap_login_hidden (sc_page sc) else \<not> ap_dashboard_hidden (sc_page sc))"
| "possible sc SubmitLogin = (\<not> ap_login_hidden (sc_page sc))"
| "possible sc (ClickRow t i) = (\<not> ap_dashboard_hidden (sc_page sc) \<and> i < length (table_rows t (sc_page sc)))"
| "possible sc (CallEnds t c res) = ((t, c) \<in> set (sc_tasks sc))"
| "possible sc e = (\<not> ap_dashboard_hidden (sc_page sc))"

definition page_step :: "script_env \<Rightarrow> script \<Rightarrow> page_event \<Rightarrow> script" where
  "page_step env sc e = (if possible sc e then handle env e sc else sc)"

definition page_run :: "script_env \<Rightarrow> page_event list \<Rightarrow> script \<Rightarrow> script" where
  "page_run env es sc = foldl (page_step env) sc es"

text \<open>The page when it is opened, with what the browser has stored.\<close>

definition opened_page :: "string option \<Rightarrow> admin_page" where
  "opened_page stored =
     (let token = (case stored of None \<Rightarrow> [] | Some t \<Rightarrow> t) in
      \<lparr>ap_token = token, ap_storage = stored, ap_token_input = token, ap_login_hidden = False,
       ap_dashboard_hidden = True, ap_login_status = ([], ''status''), ap_dashboard_status = ([], ''status''),
       ap_active_tokens = ''-'', ap_revoked_tokens = ''-'', ap_subdomain_count = ''-'', ap_tcp_count = ''-'',
       ap_deploy_state = ([], ''status''), ap_deploy_sha = ''-'', ap_deploy_updated = ''-'', ap_deploy_message = ''-'',
       ap_deploy_path = ''-'', ap_run_hidden = True, ap_run_href = Some ''#'', ap_tokens = [], ap_subdomains = [],
       ap_ports = [], ap_create_hidden = True, ap_create_out = [], ap_token_label = [], ap_subdomain_token = [],
       ap_subdomain_name = [], ap_port_token = [], ap_port_number = []\<rparr>)"

definition opened :: "string option \<Rightarrow> script" where
  "opened stored = refreshAll
     \<lparr>sc_page = opened_page stored, sc_tasks = [], sc_groups = (\<lambda>_. (0, False)), sc_next = 0, sc_sent = []\<rparr>"

lemma page_run_simps [simp]:
  "page_run env [] sc = sc" "page_run env (e # es) sc = page_run env es (page_step env sc e)"
  "page_run env (es @ es') sc = page_run env es' (page_run env es sc)"
  by (simp_all add: page_run_def)

subsection \<open>The end of a session\<close>

lemma fold_call_page [simp]: "sc_page (fold (\<lambda>l. call (f l) m (r l) b) ls sc) = sc_page sc"
  by (induction ls arbitrary: sc) (simp_all add: call_def Let_def)

lemma fold_call:
  "fold (\<lambda>l. call (f l) m (r l) b) ls sc =
     sc\<lparr>sc_tasks := sc_tasks sc @ map (\<lambda>l. (f l, api (sc_page sc) m (r l) b)) ls,
        sc_sent := sc_sent sc @ map (\<lambda>l. api (sc_page sc) m (r l) b) ls\<rparr>"
  by (induction ls arbitrary: sc) (simp_all add: call_def Let_def)

lemma show_load_session:
  "show_load env l data p = (p', ok) \<Longrightarrow>
     ap_token p' = ap_token p \<and> ap_storage p' = ap_storage p \<and> ap_login_hidden p' = ap_login_hidden p
     \<and> ap_dashboard_hidden p' = ap_dashboard_hidden p \<and> ap_login_status p' = ap_login_status p"
  by (cases l) (auto simp: loadSummary_def loadTokens_def loadDeployStatus_def loadSubdomains_def loadPorts_def Let_def
      split: json.splits prod.splits if_splits)

lemma refreshAll_idle: "ap_token (sc_page sc) = [] \<Longrightarrow> refreshAll sc =
    sc\<lparr>sc_page := (setLoggedIn False (sc_page sc))\<lparr>ap_login_status := setStatus ''Enter admin token to continue.'' False\<rparr>\<rparr>"
  by (simp add: refreshAll_def)

lemma page_token [simp]:
  "ap_token (setLoggedIn b p) = ap_token p" "ap_storage (setLoggedIn b p) = ap_storage p"
  "ap_token (clearSession p) = []" "ap_storage (clearSession p) = None"
  "ap_login_hidden (setLoggedIn b p) = b" "ap_dashboard_hidden (setLoggedIn b p) = (\<not> b)"
  "ap_login_hidden (clearSession p) = ap_login_hidden p" "ap_dashboard_hidden (clearSession p) = ap_dashboard_hidden p"
  by (simp_all add: setLoggedIn_def clearSession_def)

lemma typed_session [simp]:
  "ap_token (type_into f s p) = ap_token p" "ap_storage (type_into f s p) = ap_storage p"
  "ap_login_hidden (type_into f s p) = ap_login_hidden p" "ap_dashboard_hidden (type_into f s p) = ap_dashboard_hidden p"
  by (cases f; simp)+

text \<open>A state without a session: no token in the script and none in the browser's storage.\<close>

definition no_session :: "script \<Rightarrow> bool" where
  "no_session sc \<longleftrightarrow> ap_token (sc_page sc) = [] \<and> ap_storage (sc_page sc) = None"

text \<open>What was sent later than in \<open>sc\<close> carried no token.\<close>

definition sent_bare :: "script \<Rightarrow> script \<Rightarrow> bool" where
  "sent_bare sc sc' \<longleftrightarrow> (\<exists>cs. sc_sent sc' = sc_sent sc @ cs \<and> (\<forall>c \<in> set cs. ac_authorization c = None))"

lemma sent_bare_trans: "sent_bare a b \<Longrightarrow> sent_bare b c \<Longrightarrow> sent_bare a c"
  unfolding sent_bare_def by (metis Un_iff append.assoc set_append)

lemma sent_bare_same: "sc_sent sc' = sc_sent sc \<Longrightarrow> sent_bare sc sc'"
  by (simp add: sent_bare_def)

lemma call_bare: "no_session sc \<Longrightarrow> no_session (call t m path body sc) \<and> sent_bare sc (call t m path body sc)"
  by (auto simp: no_session_def call_def Let_def sent_bare_def api_def)

lemma refreshAll_bare: "no_session sc \<Longrightarrow> no_session (refreshAll sc) \<and> sc_sent (refreshAll sc) = sc_sent sc"
  by (simp add: no_session_def refreshAll_idle)

lemma handleDashboardError_bare:
  "ap_token p = [] \<Longrightarrow> ap_storage p = None \<Longrightarrow>
     ap_token (handleDashboardError err p) = [] \<and> ap_storage (handleDashboardError err p) = None"
  by (simp add: handleDashboardError_def)

lemma load_end_bare:
  "no_session sc \<Longrightarrow> no_session (load_failed g err sc) \<and> sc_sent (load_failed g err sc) = sc_sent sc"
  "no_session sc \<Longrightarrow> no_session (load_done g sc) \<and> sc_sent (load_done g sc) = sc_sent sc"
  by (auto simp: no_session_def load_failed_def load_done_def Let_def split: prod.split)

lemma end_task_bare: "no_session sc \<Longrightarrow> no_session (end_task env t r sc) \<and> sc_sent (end_task env t r sc) = sc_sent sc"
proof (induction env t r sc rule: end_task.induct)
  case (2 env l g data sc)
  obtain p ok where p: "show_load env l data (sc_page sc) = (p, ok)" by fastforce
  with 2 have "no_session (sc\<lparr>sc_page := p\<rparr>)" using show_load_session [OF p] by (simp add: no_session_def)
  then show ?case using load_end_bare p by (auto simp: Let_def)
qed (use load_end_bare refreshAll_bare in
    \<open>auto simp: no_session_def on_page_def handleDashboardError_bare Let_def refreshAll_idle\<close>)

lemma page_step_bare:
  assumes "no_session sc" "e \<noteq> SubmitLogin"
  shows "no_session (page_step env sc e) \<and> sent_bare sc (page_step env sc e)"
proof (cases "possible sc e")
  case True
  show ?thesis
  proof (cases e)
    case (ClickRow t i)
    then show ?thesis
      using assms True call_bare by (auto simp: page_step_def sent_bare_same split: option.split)
  next
    case (CallEnds t c res)
    have "no_session (sc\<lparr>sc_tasks := remove1 (t, c) (sc_tasks sc)\<rparr>)" using assms(1) by (simp add: no_session_def)
    from end_task_bare [OF this, of env t "api_result env res"] True show ?thesis
      by (simp add: CallEnds page_step_def sent_bare_def)
  qed (use assms True call_bare refreshAll_bare in
      \<open>auto simp: page_step_def sent_bare_same create_submit_def subdomain_submit_def port_submit_def on_page_def
        no_session_def logout_def\<close>)
qed (use assms in \<open>simp add: page_step_def sent_bare_same\<close>)

text \<open>C29: Logging out ends the session. From the click on Log Out until the next login, whatever the user does and
  in whatever order calls end, no token is in the script or in the browser's storage, and no request that
  is made carries one.\<close>

theorem logout_ends_session:
  assumes "\<not> ap_dashboard_hidden (sc_page sc)" and "SubmitLogin \<notin> set es"
  shows "no_session (page_run env (ClickLogout # es) sc) \<and> sent_bare sc (page_run env (ClickLogout # es) sc)"
proof -
  have "no_session (page_step env sc ClickLogout) \<and> sent_bare sc (page_step env sc ClickLogout)"
    using assms(1) by (simp add: page_step_def logout_def on_page_def no_session_def sent_bare_same)
  moreover have "no_session sc' \<Longrightarrow> no_session (page_run env es sc') \<and> sent_bare sc' (page_run env es sc')" for sc'
    using assms(2)
  proof (induction es arbitrary: sc')
    case Nil
    then show ?case by (simp add: sent_bare_same)
  next
    case (Cons e es)
    then have "no_session (page_step env sc' e) \<and> sent_bare sc' (page_step env sc' e)"
      by (intro page_step_bare) auto
    with Cons show ?case using sent_bare_trans by fastforce
  qed
  ultimately show ?thesis using sent_bare_trans by fastforce
qed

subsection \<open>The dashboard and the session\<close>

definition has_session :: "script \<Rightarrow> bool" where
  "has_session sc \<longleftrightarrow> ap_token (sc_page sc) \<noteq> [] \<and> ap_storage (sc_page sc) = Some (ap_token (sc_page sc))"

text \<open>A refresh is in progress that can still succeed; and one in progress without a token.\<close>

definition refreshing :: "script \<Rightarrow> bool" where
  "refreshing sc \<longleftrightarrow> (\<exists>g n. sc_groups sc g = (n, False) \<and> 0 < n)"

definition overtaken :: "script \<Rightarrow> bool" where
  "overtaken sc \<longleftrightarrow> ap_token (sc_page sc) = [] \<and> refreshing sc"

definition stored_token :: "script \<Rightarrow> bool" where
  "stored_token sc \<longleftrightarrow> ap_token (sc_page sc) \<noteq> [] \<longrightarrow> ap_storage (sc_page sc) = Some (ap_token (sc_page sc))"

definition orderly :: "script \<Rightarrow> bool" where
  "orderly sc \<longleftrightarrow> stored_token sc \<and> (ap_login_hidden (sc_page sc) \<longleftrightarrow> \<not> ap_dashboard_hidden (sc_page sc))
     \<and> (\<not> ap_dashboard_hidden (sc_page sc) \<or> refreshing sc \<longrightarrow> ap_token (sc_page sc) \<noteq> [])"

lemmas orderly_simps = orderly_def stored_token_def refreshing_def overtaken_def has_session_def

text \<open>Groups as they change: a count goes down, or a group fails.\<close>

lemma refreshing_down:
  "sc_groups sc g = (n, failed) \<Longrightarrow> sc_groups sc' = (sc_groups sc)(g := (m, failed')) \<Longrightarrow> m \<le> n \<Longrightarrow> failed \<longrightarrow> failed' \<Longrightarrow>
     refreshing sc' \<Longrightarrow> refreshing sc"
proof -
  assume g: "sc_groups sc g = (n, failed)" "sc_groups sc' = (sc_groups sc)(g := (m, failed'))" "m \<le> n" "failed \<longrightarrow> failed'"
    and "refreshing sc'"
  then obtain h k where h: "sc_groups sc' h = (k, False)" "0 < k" by (auto simp: refreshing_def)
  show ?thesis
  proof (cases "h = g")
    case True
    with h g have "sc_groups sc g = (n, False)" "0 < n" by auto
    then show ?thesis by (auto simp: refreshing_def)
  next
    case False
    with h g(2) show ?thesis by (auto simp: refreshing_def)
  qed
qed

lemma orderly_page:
  assumes "orderly sc" "refreshing sc' \<Longrightarrow> refreshing sc" "ap_token (sc_page sc') = ap_token (sc_page sc)"
    "ap_storage (sc_page sc') = ap_storage (sc_page sc)"
    "ap_login_hidden (sc_page sc') \<longleftrightarrow> \<not> ap_dashboard_hidden (sc_page sc')"
    "\<not> ap_dashboard_hidden (sc_page sc') \<Longrightarrow> ap_token (sc_page sc) \<noteq> []"
  shows "orderly sc'"
  using assms unfolding orderly_def stored_token_def by auto

lemma orderly_ended:
  assumes "ap_token (sc_page sc') = []" "ap_dashboard_hidden (sc_page sc')" "\<not> ap_login_hidden (sc_page sc')" "\<not> overtaken sc'"
  shows "orderly sc'"
  using assms unfolding orderly_def stored_token_def overtaken_def by auto

lemma refreshAll_orderly:
  assumes "orderly sc"
  shows "orderly (refreshAll sc)"
proof (cases "ap_token (sc_page sc) = []")
  case True
  with assms show ?thesis by (auto simp: refreshAll_idle orderly_simps)
next
  case False
  then show ?thesis using assms by (auto simp: refreshAll_def fold_call orderly_simps)
qed

lemma call_orderly: "orderly sc \<Longrightarrow> orderly (call t m path body sc)"
  by (simp add: call_def Let_def orderly_simps)

lemma load_failed_orderly:
  assumes "orderly sc" "\<not> overtaken (load_failed g err sc)"
  shows "orderly (load_failed g err sc)"
proof -
  obtain n failed where g: "sc_groups sc g = (n, failed)" by fastforce
  consider "failed" | "\<not> failed" "snd err = Some 401" | "\<not> failed" "snd err \<noteq> Some 401" by blast
  then show ?thesis
  proof cases
    case 1
    with assms(1) show ?thesis by (simp add: load_failed_def g)
  next
    case 2
    then show ?thesis by (intro orderly_ended [OF _ _ _ assms(2)]) (simp_all add: load_failed_def g)
  next
    case 3
    have "refreshing (load_failed g err sc) \<Longrightarrow> refreshing sc"
      by (rule refreshing_down [OF g, of _ n True]) (use 3 in \<open>auto simp: load_failed_def g\<close>)
    then show ?thesis by (rule orderly_page [OF assms(1)]) (use 3 in \<open>auto simp: load_failed_def g\<close>)
  qed
qed

lemma load_done_orderly: "orderly sc \<Longrightarrow> orderly (load_done g sc)"
proof -
  assume sc: "orderly sc"
  obtain n failed where g: "sc_groups sc g = (n, failed)" by fastforce
  have "refreshing (load_done g sc) \<Longrightarrow> refreshing sc"
    by (rule refreshing_down [OF g, of _ "n - 1" failed]) (auto simp: load_done_def g Let_def)
  moreover have "n = 1 \<and> \<not> failed \<Longrightarrow> ap_token (sc_page sc) \<noteq> []"
    using g sc by (auto simp: orderly_def refreshing_def)
  ultimately show ?thesis
    using sc by (cases "n = 1 \<and> \<not> failed"; intro orderly_page [OF sc]) (auto simp: load_done_def g Let_def orderly_def)
qed

lemma handleDashboardError_orderly:
  assumes "orderly sc" "\<not> overtaken (on_page (handleDashboardError err) sc)"
  shows "orderly (on_page (handleDashboardError err) sc)"
proof (cases "snd err = Some 401")
  case True
  then show ?thesis
    by (intro orderly_ended [OF _ _ _ assms(2)]) (simp_all add: on_page_def handleDashboardError_def)
next
  case False
  with assms(1) show ?thesis by (simp add: on_page_def handleDashboardError_def orderly_simps)
qed

lemma end_task_orderly:
  assumes "orderly sc" "\<not> overtaken (end_task env t r sc)"
  shows "orderly (end_task env t r sc)"
  using assms
proof (induction env t r sc rule: end_task.induct)
  case (1 env l g err sc)
  then show ?case by (simp add: load_failed_orderly)
next
  case (2 env l g data sc)
  obtain p ok where p: "show_load env l data (sc_page sc) = (p, ok)" by fastforce
  with 2(1) have "orderly (sc\<lparr>sc_page := p\<rparr>)" using show_load_session [OF p] by (simp add: orderly_simps)
  then show ?case
    using 2(2) p load_done_orderly load_failed_orderly by (auto simp: Let_def split: if_splits)
next
  case (6 env data sc)
  have "orderly (on_page (\<lambda>p. p\<lparr>ap_create_hidden := False\<rparr>) sc)"
    "orderly (on_page (\<lambda>p. p\<lparr>ap_create_out := x, ap_token_label := []\<rparr>) (on_page (\<lambda>p. p\<lparr>ap_create_hidden := False\<rparr>) sc))" for x
    using 6(1) by (simp_all add: on_page_def orderly_simps)
  then show ?case
    using 6(2) handleDashboardError_orderly refreshAll_orderly by (auto simp: Let_def split: if_splits)
next
  case (8 env data sc)
  have "orderly (on_page (\<lambda>p. p\<lparr>ap_subdomain_name := []\<rparr>) sc)" using 8(1) by (simp add: on_page_def orderly_simps)
  then show ?case using refreshAll_orderly by simp
next
  case (10 env data sc)
  have "orderly (on_page (\<lambda>p. p\<lparr>ap_port_number := []\<rparr>) sc)" using 10(1) by (simp add: on_page_def orderly_simps)
  then show ?case using refreshAll_orderly by simp
qed (use handleDashboardError_orderly refreshAll_orderly in \<open>simp_all\<close>)

lemma login_orderly:
  assumes "orderly sc" "\<not> ap_login_hidden (sc_page sc)" "\<not> overtaken (login_submit sc)"
  shows "orderly (login_submit sc)"
proof (cases "js_trim (ap_token_input (sc_page sc)) = []")
  case True
  have "ap_dashboard_hidden (sc_page sc)" using assms(1,2) by (simp add: orderly_def)
  then show ?thesis
    using True assms(2) by (intro orderly_ended [OF _ _ _ assms(3)]) (simp_all add: login_submit_def on_page_def)
next
  case False
  have "orderly (on_page (\<lambda>p. p\<lparr>ap_storage := Some (ap_token p)\<rparr>)
      (on_page (\<lambda>p. p\<lparr>ap_token := js_trim (ap_token_input p)\<rparr>) sc))"
    using assms(1) False by (simp add: on_page_def orderly_simps)
  then show ?thesis
    using False refreshAll_orderly by (simp add: login_submit_def Let_def on_page_def)
qed

lemma page_step_orderly:
  assumes "orderly sc" "\<not> overtaken (page_step env sc e)"
  shows "orderly (page_step env sc e)"
proof (cases "possible sc e")
  case True
  then have step: "page_step env sc e = handle env e sc" by (simp add: page_step_def)
  show ?thesis
  proof (cases e)
    case (Type f s)
    then show ?thesis unfolding step using assms(1) by (simp add: on_page_def orderly_simps)
  next
    case SubmitLogin
    then show ?thesis using login_orderly [OF assms(1)] True assms(2) unfolding step by simp
  next
    case ClickLogout
    then show ?thesis
      using assms(2) unfolding step by (intro orderly_ended) (simp_all add: logout_def on_page_def)
  next
    case (ClickRow t i)
    then show ?thesis
      unfolding step using assms(1) call_orderly by (auto split: option.split)
  next
    case (CallEnds t c res)
    have "orderly (sc\<lparr>sc_tasks := remove1 (t, c) (sc_tasks sc)\<rparr>)" using assms(1) by (simp add: orderly_simps)
    then show ?thesis
      using assms(2) end_task_orderly [of _ env t "api_result env res"] step by (simp add: CallEnds)
  qed (use assms(1) True call_orderly refreshAll_orderly in
      \<open>simp_all add: page_step_def create_submit_def subdomain_submit_def port_submit_def\<close>)
qed (use assms(1) in \<open>simp add: page_step_def\<close>)

lemma opened_orderly: "orderly (opened stored)"
  unfolding opened_def by (rule refreshAll_orderly) (auto simp: orderly_simps opened_page_def Let_def split: option.split)

text \<open>C30: The dashboard is shown to a session. When the dashboard is shown, the script has a token and the
  browser has stored that token, unless at some moment before the session was ended while a refresh was in
  progress.\<close>

theorem dashboard_needs_session:
  assumes "\<not> ap_dashboard_hidden (sc_page (page_run env es (opened stored)))"
  shows "has_session (page_run env es (opened stored))
    \<or> (\<exists>es1 e es2. es = es1 @ e # es2 \<and> overtaken (page_run env (es1 @ [e]) (opened stored)))"
proof -
  have "orderly (page_run env es (opened stored))
      \<or> (\<exists>es1 e es2. es = es1 @ e # es2 \<and> overtaken (page_run env (es1 @ [e]) (opened stored)))"
  proof (induction es rule: rev_induct)
    case Nil
    then show ?case using opened_orderly by simp
  next
    case (snoc e es)
    show ?case
    proof (cases "overtaken (page_run env (es @ [e]) (opened stored))")
      case True
      then show ?thesis by blast
    next
      case False
      with snoc show ?thesis using page_step_orderly by fastforce
    qed
  qed
  with assms show ?thesis by (auto simp: orderly_def has_session_def stored_token_def)
qed

subsection \<open>A refresh that succeeds\<close>

text \<open>The calls of a refresh, by what they load.\<close>

definition load_call :: "admin_page \<Rightarrow> load \<Rightarrow> api_call" where
  "load_call p l = api p ''GET'' (load_resource l) None"

definition load_ends :: "(load \<Rightarrow> fetch_end) \<Rightarrow> nat \<Rightarrow> admin_page \<Rightarrow> load list \<Rightarrow> page_event list" where
  "load_ends r g p ls = map (\<lambda>l. CallEnds (Loading l g) (load_call p l) (r l)) ls"

definition load_ok :: "script_env \<Rightarrow> load \<Rightarrow> fetch_end \<Rightarrow> json \<Rightarrow> bool" where
  "load_ok env l res d \<longleftrightarrow> api_result env res = Inr d \<and> (\<forall>p. snd (show_load env l d p))"

definition show_connected :: "admin_page \<Rightarrow> admin_page" where
  "show_connected p = (setLoggedIn True p)\<lparr>ap_dashboard_status := setStatus ''Connected.'' True\<rparr>"

definition show_loads :: "script_env \<Rightarrow> (load \<Rightarrow> json) \<Rightarrow> load list \<Rightarrow> admin_page \<Rightarrow> admin_page" where
  "show_loads env d ls p = fold (\<lambda>l p. fst (show_load env l (d l) p)) ls p"

lemma run_load_ends:
  assumes "distinct ls" "ls \<noteq> []" "sc_groups sc g = (length ls, False)"
    "\<And>l. l \<in> set ls \<Longrightarrow> (Loading l g, load_call p l) \<in> set (sc_tasks sc)"
    "\<And>l. l \<in> set ls \<Longrightarrow> load_ok env l (r l) (d l)"
  shows "sc_page (page_run env (load_ends r g p ls) sc) = show_connected (show_loads env d ls (sc_page sc))"
  using assms
proof (induction ls arbitrary: sc)
  case Nil
  then show ?case by simp
next
  case (Cons l ls)
  let ?sc = "sc\<lparr>sc_tasks := remove1 (Loading l g, load_call p l) (sc_tasks sc)\<rparr>"
  obtain p' where p': "show_load env l (d l) (sc_page sc) = (p', True)"
    using Cons.prems(5) [of l] unfolding load_ok_def by (metis list.set_intros(1) prod.collapse)
  have "api_result env (r l) = Inr (d l)" using Cons.prems(5) [of l] by (simp add: load_ok_def)
  then have step: "page_step env sc (CallEnds (Loading l g) (load_call p l) (r l)) = load_done g (?sc\<lparr>sc_page := p'\<rparr>)"
    using Cons.prems(4) [of l] p' by (simp add: page_step_def)
  show ?case
  proof (cases "ls = []")
    case True
    then show ?thesis
      using step p' Cons.prems(3) by (simp add: load_ends_def load_done_def show_connected_def show_loads_def Let_def)
  next
    case False
    let ?sc' = "load_done g (?sc\<lparr>sc_page := p'\<rparr>)"
    have "sc_page ?sc' = p'" "sc_groups ?sc' g = (length ls, False)" "sc_tasks ?sc' = sc_tasks ?sc"
      using False Cons.prems(3) by (simp_all add: load_done_def Let_def)
    moreover have "(Loading k g, load_call p k) \<in> set (sc_tasks ?sc)" if "k \<in> set ls" for k
    proof -
      have "k \<noteq> l" using that Cons.prems(1) by auto
      then show ?thesis using Cons.prems(4) [of k] that by simp
    qed
    ultimately have "sc_page (page_run env (load_ends r g p ls) ?sc') = show_connected (show_loads env d ls p')"
      using False Cons.prems(1,5) by (subst Cons.IH) auto
    then show ?thesis using step p' by (simp add: load_ends_def show_loads_def)
  qed
qed

lemma show_load_token [simp]:
  "ap_token (fst (show_load env l d p)) = ap_token p" "ap_storage (fst (show_load env l d p)) = ap_storage p"
  using show_load_session [of env l d p "fst (show_load env l d p)" "snd (show_load env l d p)"] by simp_all

lemma show_loads_session [simp]:
  "ap_token (show_loads env d ls p) = ap_token p" "ap_storage (show_loads env d ls p) = ap_storage p"
  unfolding show_loads_def by (induction ls arbitrary: p) simp_all

lemma refreshAll_calls:
  assumes "ap_token (sc_page sc) \<noteq> []"
  shows "sc_page (refreshAll sc) = sc_page sc" "sc_groups (refreshAll sc) (sc_next sc) = (length all_loads, False)"
    "l \<in> set all_loads \<Longrightarrow> (Loading l (sc_next sc), load_call (sc_page sc) l) \<in> set (sc_tasks (refreshAll sc))"
proof -
  show "sc_page (refreshAll sc) = sc_page sc" "sc_groups (refreshAll sc) (sc_next sc) = (length all_loads, False)"
    using assms by (simp_all add: refreshAll_def fold_call)
  show "(Loading l (sc_next sc), load_call (sc_page sc) l) \<in> set (sc_tasks (refreshAll sc))" if "l \<in> set all_loads"
    using assms that by (simp add: refreshAll_def fold_call load_call_def image_iff)
qed

text \<open>Logging out does not stop a refresh. When the user clicks Refresh and then Log Out before the answers are
  there, and the server answers the calls that were made, in any order, the dashboard is shown again with what the
  server sent, while there is no token any more.\<close>

theorem logout_overtakes_refresh:
  assumes "\<not> ap_dashboard_hidden (sc_page sc)" "ap_token (sc_page sc) \<noteq> []"
    and "distinct ls" "set ls = set all_loads" "\<And>l. load_ok env l (r l) (d l)"
  shows "(let p' = sc_page (page_run env ([ClickRefresh, ClickLogout] @ load_ends r (sc_next sc) (sc_page sc) ls) sc)
    in \<not> ap_dashboard_hidden p' \<and> ap_dashboard_status p' = setStatus ''Connected.'' True
       \<and> ap_token p' = [] \<and> ap_storage p' = None)"
proof -
  let ?sc = "page_run env [ClickRefresh, ClickLogout] sc"
  have step: "?sc = logout (refreshAll sc)"
    using assms(1) refreshAll_calls(1) [OF assms(2)] by (simp add: page_step_def)
  have len: "length ls = length all_loads"
    using assms(3,4) distinct_card [of ls] distinct_card [of all_loads] by (simp add: all_loads_def)
  then have "ls \<noteq> []" by (auto simp: all_loads_def)
  moreover have "sc_groups ?sc (sc_next sc) = (length ls, False)"
    using refreshAll_calls(2) [OF assms(2)] len unfolding step by (simp add: logout_def on_page_def)
  moreover have "(Loading l (sc_next sc), load_call (sc_page sc) l) \<in> set (sc_tasks ?sc)" if "l \<in> set ls" for l
    using refreshAll_calls(3) [OF assms(2)] that assms(4) unfolding step by (simp add: logout_def on_page_def)
  ultimately have "sc_page (page_run env (load_ends r (sc_next sc) (sc_page sc) ls) ?sc)
      = show_connected (show_loads env d ls (sc_page ?sc))"
    using assms(3,5) by (intro run_load_ends) auto
  moreover have "ap_token (sc_page ?sc) = []" "ap_storage (sc_page ?sc) = None"
    unfolding step by (simp_all add: logout_def on_page_def)
  ultimately show ?thesis by (simp add: show_connected_def Let_def)
qed

subsection \<open>Witnesses\<close>

definition demo_script_env :: script_env where
  "demo_script_env = \<lparr>be_number = (\<lambda>_. ''1e21''), be_read_number = (\<lambda>_. JNull), be_type_error = ''type error'',
     be_fetch_error = ''failed to fetch''\<rparr>"

definition demo_data :: json where
  "demo_data = JObj [(''tokens'', JArr []), (''subdomains'', JArr []), (''ports'', JArr [])]"

definition demo_ends :: "load \<Rightarrow> fetch_end" where
  "demo_ends l = FetchEnd 200 (Some demo_data)"

lemma demo_load_ok: "load_ok demo_script_env l (demo_ends l) demo_data"
  by (cases l) (simp_all add: load_ok_def demo_ends_def api_result_def demo_data_def loadSummary_def loadDeployStatus_def
      loadTokens_def loadSubdomains_def loadPorts_def fill_table_def Let_def)

text \<open>A page that was opened with a stored token and has loaded its data.\<close>

definition demo_loads :: "page_event list" where
  "demo_loads = load_ends demo_ends 0 (opened_page (Some ''s3cret'')) all_loads"

definition demo_console :: script where
  "demo_console = page_run demo_script_env demo_loads (opened (Some ''s3cret''))"

lemma demo_opened: "sc_page demo_console = show_connected (show_loads demo_script_env (\<lambda>l. demo_data) all_loads (opened_page (Some ''s3cret'')))"
proof -
  define sc where "sc = \<lparr>sc_page = opened_page (Some ''s3cret''), sc_tasks = [], sc_groups = (\<lambda>_. (0, False)), sc_next = 0, sc_sent = []\<rparr>"
  have tok: "ap_token (sc_page sc) \<noteq> []" and page: "sc_page sc = opened_page (Some ''s3cret'')" "sc_next sc = 0"
    by (simp_all add: sc_def opened_page_def Let_def)
  have "sc_page (page_run demo_script_env (load_ends demo_ends 0 (sc_page sc) all_loads) (refreshAll sc))
      = show_connected (show_loads demo_script_env (\<lambda>l. demo_data) all_loads (sc_page (refreshAll sc)))"
  proof (rule run_load_ends)
    show "sc_groups (refreshAll sc) 0 = (length all_loads, False)" using refreshAll_calls(2) [OF tok] page by simp
    show "(Loading l 0, load_call (sc_page sc) l) \<in> set (sc_tasks (refreshAll sc))" if "l \<in> set all_loads" for l
      using refreshAll_calls(3) [OF tok that] page by simp
  qed (simp_all add: demo_load_ok all_loads_def)
  then show ?thesis
    using refreshAll_calls(1) [OF tok] page by (simp add: demo_console_def demo_loads_def opened_def sc_def)
qed

lemma demo_console_shown: "\<not> ap_dashboard_hidden (sc_page demo_console)" "ap_token (sc_page demo_console) = ''s3cret''"
  unfolding demo_opened by (simp_all add: show_connected_def opened_page_def Let_def)

theorem logout_ends_session_witness:
  "no_session (page_run demo_script_env [ClickLogout, ClickRefresh, Type TokenInput ''x''] demo_console)"
  using logout_ends_session [OF demo_console_shown(1), of "[ClickRefresh, Type TokenInput ''x'']" demo_script_env] by simp

theorem dashboard_needs_session_witness:
  "ap_token (sc_page demo_console) = ''s3cret'' \<and>
   (has_session (page_run demo_script_env demo_loads (opened (Some ''s3cret'')))
    \<or> (\<exists>es1 e es2. demo_loads = es1 @ e # es2
        \<and> overtaken (page_run demo_script_env (es1 @ [e]) (opened (Some ''s3cret'')))))"
  using dashboard_needs_session [of demo_script_env demo_loads "Some ''s3cret''"] demo_console_shown
  unfolding demo_console_def by blast

theorem logout_overtakes_refresh_witness:
  "\<exists>es. (let p' = sc_page (page_run demo_script_env ([ClickRefresh, ClickLogout] @ es) demo_console)
     in \<not> ap_dashboard_hidden p' \<and> ap_token p' = [])"
proof -
  have "ap_token (sc_page demo_console) \<noteq> []" "distinct all_loads"
    using demo_console_shown(2) by (simp_all add: all_loads_def)
  from logout_overtakes_refresh [OF demo_console_shown(1) this refl demo_load_ok] show ?thesis
    by (auto simp: Let_def)
qed

end
