(* ===== verification/AdminConsole.thy ===== *)
theory AdminConsole
  imports AdminScript ServerHandler "HOL-Library.Multiset"
begin

text \<open>
  The dashboard against the server: what a call of the page's script is as a request, how the server of
  \<open>handler.go\<close> answers it, what the page then shows, and what its buttons do to the store.
\<close>

subsection \<open>A call as a request\<close>

definition wire_call :: "string \<Rightarrow> api_call \<Rightarrow> string option \<Rightarrow> http_request" where
  "wire_call host c authz =
     (let path = ''/api/admin/'' @ ac_resource c in
      \<lparr>rq_method = ac_method c, rq_host = host,
       rq_path = (case PathUnescape path of None \<Rightarrow> path | Some p \<Rightarrow> p), rq_escaped_path = path, rq_raw_query = [],
       rq_header = (case authz of None \<Rightarrow> no_header | Some v \<Rightarrow> hdr_Set ''Authorization'' v no_header),
       rq_remote_addr = ''192.0.2.7:50000'', rq_tls = True\<rparr>)"

text \<open>The answer to \<open>fetch\<close>: an error when the header cannot be sent or the connection is dropped.\<close>

definition fetch_answer :: "answer \<Rightarrow> fetch_end" where
  "fetch_answer a =
     (case a of
        Answer resp \<Rightarrow> FetchEnd (rs_status resp) (case rs_body resp of Json j \<Rightarrow> Some j | _ \<Rightarrow> None)
      | _ \<Rightarrow> FetchFails)"

definition serve_call ::
  "config \<Rightarrow> 'db dependencies \<Rightarrow> 'db admin_store \<Rightarrow> 'db http_env \<Rightarrow> string \<Rightarrow> api_call \<Rightarrow> 'db server
    \<Rightarrow> fetch_end \<times> 'db server" where
  "serve_call cfg deps adm he host c sv =
     (let request = (\<lambda>authz. NewHandler cfg deps (Some adm) he (wire_call host c authz)
            (map_option (\<lambda>j. (j, True)) (ac_body c)) sv)
      in case ac_authorization c of
           None \<Rightarrow> (case request None of (a, sv') \<Rightarrow> (fetch_answer a, sv'))
         | Some v \<Rightarrow>
             (case latin1 v of
                None \<Rightarrow> (FetchFails, sv)
              | Some w \<Rightarrow> (case request (Some w) of (a, sv') \<Rightarrow> (fetch_answer a, sv'))))"

subsection \<open>The way to the API\<close>

lemma admin_match:
  assumes "admin_enabled cfg adm" "mux_parts p = ''api'' # ''admin'' # x # xs" "p \<noteq> []"
  shows "mux_match (server_routes cfg adm) p = Some (Subtree [''api'', ''admin''], AdminApi)"
  using assms by (simp add: mux_match_def server_routes_def)

lemma admin_routed:
  assumes "admin_enabled cfg adm" "rq_escaped_path r = path_of (''api'' # ''admin'' # segs)" "segs \<noteq> []"
    and "list_all plain_segment segs"
  shows "mux_handler (server_routes cfg adm) r = MuxHandler AdminApi"
proof -
  let ?segs = "''api'' # ''admin'' # segs"
  have segs: "list_all plain_segment ?segs" using assms(4) by (simp add: plain_segment_def)
  note path = path_of_segments [OF _ segs, simplified]
  have ne: "path_of ?segs \<noteq> []" by (simp add: path_of_def)
  have match: "mux_match (server_routes cfg adm) (path_of ?segs) = Some (Subtree [''api'', ''admin''], AdminApi)"
    "mux_match (server_routes cfg adm) (path_of ?segs @ ''/'') = Some (Subtree [''api'', ''admin''], AdminApi)"
    using admin_match [OF assms(1), of "path_of ?segs"] admin_match [OF assms(1), of "path_of ?segs @ ''/''"] path ne assms(3)
    by (cases segs; simp)+
  have "length (filter (\<lambda>c. c = CHR ''/'') (path_of ?segs)) = length ?segs"
    using length_mux_parts [of "Join_char CHR ''/'' ?segs"] path(2) by (simp add: path_of_def)
  then have "\<not> exact_match (Some (Subtree [''api'', ''admin''], AdminApi)) (path_of ?segs @ ''/'')"
    using assms(3) by (cases segs) simp_all
  then have "\<not> slash_redirect (server_routes cfg adm) (path_of ?segs)"
    unfolding slash_redirect_def match by blast
  then show ?thesis
    using path(1) match(1) assms(2) by (simp add: mux_handler_def Let_def)
qed

text \<open>A token the guard accepts: printable ASCII, as the configuration has it but for spaces around it.\<close>

definition good_token :: "config \<Rightarrow> string \<Rightarrow> bool" where
  "good_token cfg t \<longleftrightarrow> t \<noteq> [] \<and> list_all graphic t \<and> TrimSpace (cfg_admin_token cfg) = t"

lemma good_token_passes:
  assumes "good_token cfg t" "hdr_Get (rq_header r) ''Authorization'' = ''Bearer '' @ t"
  shows "requireAdminAuth (cfg_admin_token cfg) r next s = next ()"
proof -
  have t: "t \<noteq> []" "\<And>c. c \<in> set t \<Longrightarrow> graphic c" "TrimSpace (cfg_admin_token cfg) = t"
    using assms(1) by (auto simp: good_token_def list_all_iff)
  have "TrimSpace (''Bearer '' @ t) = ''Bearer '' @ t"
    by (rule TrimSpace_graphic_ends) (use t in \<open>auto simp: graphic_def\<close>)
  moreover have "HasPrefix (ToLower (''Bearer '' @ t)) ''bearer ''"
    by (simp add: HasPrefix_def ToLower_def lower_byte_def is_upper_def char_of_numeral bit_one_zero)
  moreover have "TrimSpace t = t" using t(2) by (rule TrimSpace_graphic)
  ultimately show ?thesis
    using t(1,3) assms(2) by (simp add: requireAdminAuth_def Let_def)
qed

definition server_ready :: "config \<Rightarrow> string \<Rightarrow> string \<Rightarrow> bool" where
  "server_ready cfg host t \<longleftrightarrow> good_token cfg t \<and> isBaseDomainHost host (cfg_base_domain cfg)"

text \<open>A call with the token, for a resource of plain segments, is answered by the API.\<close>

lemma serve_call_api:
  assumes "server_ready cfg host t" "ac_authorization c = Some (''Bearer '' @ t)"
    and "ac_resource c = Join_char CHR ''/'' segs" "segs \<noteq> []" "list_all plain_segment segs" "TrimSpace (ac_resource c) = ac_resource c"
    and "serveAdminAPI (he_admin he) cfg (Some adm) (wire_call host c (Some (''Bearer '' @ t)))
           (map_option (\<lambda>j. (j, True)) (ac_body c)) (sv_db sv) = (resp, db)"
  shows "serve_call cfg deps adm he host c sv
    = (case resp of None \<Rightarrow> FetchFails | Some r \<Rightarrow> fetch_answer (Answer r), sv\<lparr>sv_db := db\<rparr>)"
proof -
  let ?r = "wire_call host c (Some (''Bearer '' @ t))"
  have t: "good_token cfg t" "isBaseDomainHost host (cfg_base_domain cfg)"
    using assms(1) by (simp_all add: server_ready_def)
  then have "latin1 (''Bearer '' @ t) = Some (''Bearer '' @ t)"
    by (intro latin1_graphic) (auto simp: good_token_def list_all_iff graphic_def)
  moreover have "rq_escaped_path ?r = path_of (''api'' # ''admin'' # segs)"
    using assms(3,4) by (cases segs) (simp_all add: wire_call_def Let_def path_of_def)
  then have "mux_handler (server_routes cfg (Some adm)) ?r = MuxHandler AdminApi"
    using t(1) by (intro admin_routed [OF _ _ assms(4,5)]) (auto simp: admin_enabled_def good_token_def)
  moreover have "requireAdminAuth (cfg_admin_token cfg) ?r next s = next ()" for "next" :: "unit \<Rightarrow> http_response option \<times> 'a" and s
    using t(1) by (intro good_token_passes) (auto simp: wire_call_def Let_def)
  moreover have "on_base cfg ?r" using t(2) by (simp add: on_base_def wire_call_def Let_def)
  ultimately show ?thesis
    using assms(2,7) by (auto simp: serve_call_def Let_def NewHandler_def admin_api_def fetch_answer_def split: option.split)
qed

lemma wire_admin_request:
  assumes "ac_resource c = Join_char CHR ''/'' segs" "segs \<noteq> []" "list_all plain_segment segs"
    and "TrimSpace (ac_resource c) = ac_resource c"
  shows "admin_request (ac_method c) (ac_resource c) (wire_call host c a)"
proof -
  have p: "''/api/admin/'' @ ac_resource c = path_of (''api'' # ''admin'' # segs)"
    using assms(1,2) by (cases segs) (simp_all add: path_of_def)
  have "list_all plain_segment (''api'' # ''admin'' # segs)" using assms(3) by (simp add: plain_segment_def)
  then have "PathUnescape (''/api/admin/'' @ ac_resource c) = Some (''/api/admin/'' @ ac_resource c)"
    unfolding p by (intro path_of_segments(4)) simp_all
  then have "rq_path (wire_call host c a) = ''/api/admin/'' @ ac_resource c" by (simp add: wire_call_def Let_def)
  then show ?thesis
    unfolding admin_request_def using assms(4) by (simp add: wire_call_def Let_def TrimPrefix_append del: append.simps)
qed

subsection \<open>What the dashboard loads\<close>

definition store_summary :: "(token list) \<Rightarrow> 'a list \<Rightarrow> 'b list \<Rightarrow> int \<Rightarrow> json" where
  "store_summary tokens subdomains ports now = JObj
     [(''active_tokens'', JInt (int (length (filter (\<lambda>t. tok_revoked t = None) tokens)))),
      (''reserved_subdomain'', JInt (int (length subdomains))), (''reserved_tcp_ports'', JInt (int (length ports))),
      (''revoked_tokens'', JInt (int (length (filter (\<lambda>t. tok_revoked t \<noteq> None) tokens)))),
      (''time'', JStr (rfc3339 now))]"

text \<open>The store and the deploy status can be read, and nothing else changes the store meanwhile.\<close>

definition readable :: "'db admin_store \<Rightarrow> 'db admin_env \<Rightarrow> config \<Rightarrow> 'db \<Rightarrow> token list
    \<Rightarrow> (string \<times> int \<times> string \<times> int) list \<Rightarrow> (int \<times> int \<times> string \<times> int) list \<Rightarrow> (string \<times> json) list \<Rightarrow> bool" where
  "readable adm env cfg db tokens subdomains ports status \<longleftrightarrow>
     adm_list_tokens adm db = Inr tokens \<and> adm_list_subdomains adm db = Inr subdomains
     \<and> adm_list_ports adm db = Inr ports \<and> readDeployStatus (ae_read_file env) (cfg_deploy_status_path cfg) = Some (Inr status)
     \<and> ae_others env 0 db = db \<and> ae_others env 1 db = db"

fun load_data :: "'db admin_env \<Rightarrow> token list \<Rightarrow> (string \<times> int \<times> string \<times> int) list \<Rightarrow> (int \<times> int \<times> string \<times> int) list
    \<Rightarrow> (string \<times> json) list \<Rightarrow> load \<Rightarrow> json" where
  "load_data env tokens subdomains ports status LoadSummary = store_summary tokens subdomains ports (ae_now env)"
| "load_data env tokens subdomains ports status LoadDeploy = JObj status"
| "load_data env tokens subdomains ports status LoadTokens = JObj [(''tokens'', JArr (map token_item tokens))]"
| "load_data env tokens subdomains ports status LoadSubdomains = JObj [(''subdomains'', JArr (map subdomain_item subdomains))]"
| "load_data env tokens subdomains ports status LoadPorts = JObj [(''ports'', JArr (map port_item ports))]"

lemma load_resource_plain:
  "plain_segment (load_resource l)" "TrimSpace (load_resource l) = load_resource l"
proof -
  show "plain_segment (load_resource l)" by (cases l) (simp_all add: plain_segment_def)
  show "TrimSpace (load_resource l) = load_resource l"
    by (rule TrimSpace_graphic, cases l) (auto simp: graphic_def)
qed

lemma load_served:
  assumes "server_ready cfg host (ap_token p)" "readable adm (he_admin he) cfg (sv_db sv) tokens subdomains ports status"
  shows "serve_call cfg deps adm he host (load_call p l) sv
    = (FetchEnd 200 (Some (load_data (he_admin he) tokens subdomains ports status l)), sv)"
proof -
  let ?c = "load_call p l"
  have t: "ap_token p \<noteq> []" using assms(1) by (simp add: server_ready_def good_token_def)
  then have c: "ac_authorization ?c = Some (''Bearer '' @ ap_token p)" "ac_resource ?c = Join_char CHR ''/'' [load_resource l]"
    "ac_method ?c = ''GET''" "ac_body ?c = None" "ac_resource ?c = load_resource l"
    by (simp_all add: load_call_def api_def)
  have segs: "list_all plain_segment [load_resource l]" "TrimSpace (ac_resource ?c) = ac_resource ?c"
    using load_resource_plain by (simp_all add: c)
  have "admin_request ''GET'' (load_resource l) (wire_call host ?c (Some (''Bearer '' @ ap_token p)))"
    using wire_admin_request [OF c(2) _ segs, of host "Some (''Bearer '' @ ap_token p)"] c by simp
  then have "serveAdminAPI (he_admin he) cfg (Some adm) (wire_call host ?c (Some (''Bearer '' @ ap_token p)))
      (map_option (\<lambda>j. (j, True)) (ac_body ?c)) (sv_db sv)
    = (Some (writeAdminJSON 200 (load_data (he_admin he) tokens subdomains ports status l)), sv_db sv)"
    using assms(2) c(4)
    by (cases l) (auto simp: admin_request_def serveAdminAPI_def Let_def readable_def serveAdminSummary_def
        serveAdminDeployStatus_def serveAdminListTokens_def serveAdminListSubdomains_def serveAdminListTCPPorts_def
        store_summary_def HasPrefix_def)
  from serve_call_api [OF assms(1) c(1,2) _ segs this] show ?thesis
    by (simp add: fetch_answer_def writeAdminJSON_def)
qed

subsection \<open>What the dashboard shows\<close>

definition shown_number :: "script_env \<Rightarrow> int \<Rightarrow> string" where
  "shown_number env i = js_String (be_number env) (JInt i)"

definition token_shown :: "script_env \<Rightarrow> token \<Rightarrow> table_row" where
  "token_shown env t =
     Row [shown_number env (tok_id t), tok_prefix t, if tok_label t = [] then ''-'' else tok_label t,
          if tok_revoked t = None then ''active'' else ''revoked'']
       (if tok_revoked t = None then Some (''Revoke'', ''tokens/'' @ shown_number env (tok_id t)) else None)"

definition subdomain_shown :: "script_env \<Rightarrow> string \<times> int \<times> string \<times> int \<Rightarrow> table_row" where
  "subdomain_shown env = (\<lambda>(sub, tid, pre, created).
     Row [sub, shown_number env tid, pre] (Some (''Remove'', ''subdomains/'' @ encodeURIComponent sub)))"

definition port_shown :: "script_env \<Rightarrow> int \<times> int \<times> string \<times> int \<Rightarrow> table_row" where
  "port_shown env = (\<lambda>(port, tid, pre, created).
     Row [shown_number env port, shown_number env tid, pre] (Some (''Remove'', ''tcp-ports/'' @ shown_number env port)))"

lemma item_prop_obj: "item_prop (JObj kvs) k = map_of (rev kvs) k"
  by (simp add: item_prop_def)

lemma rows_shown:
  "token_row_of env (token_item t) = token_shown env t"
  "subdomain_row_of env (subdomain_item x) = subdomain_shown env x"
  "port_row_of env (port_item y) = port_shown env y"
  by (auto simp: token_row_of_def token_item_def token_shown_def subdomain_row_of_def subdomain_item_def
      subdomain_shown_def port_row_of_def port_item_def port_shown_def item_prop_obj shown_number_def
      split: prod.split)

lemma fill_items:
  "(\<And>x. item x \<noteq> JNull) \<Longrightarrow> fill_table row (Some (Some (JArr (map item xs)))) = (map (\<lambda>x. row (item x)) xs, True)"
  by (auto simp: fill_table_def takeWhile_eq_all_conv [THEN iffD2] comp_def) (metis)

lemma items_not_null: "token_item t \<noteq> JNull" "subdomain_item x \<noteq> JNull" "port_item y \<noteq> JNull"
  by (simp_all add: token_item_def subdomain_item_def port_item_def split: prod.split)

lemma tables_loaded:
  "loadTokens env (JObj [(''tokens'', JArr (map token_item ts))]) p = (p\<lparr>ap_tokens := map (token_shown env) ts\<rparr>, True)"
  "loadSubdomains env (JObj [(''subdomains'', JArr (map subdomain_item xs))]) p
     = (p\<lparr>ap_subdomains := map (subdomain_shown env) xs\<rparr>, True)"
  "loadPorts env (JObj [(''ports'', JArr (map port_item ys))]) p = (p\<lparr>ap_ports := map (port_shown env) ys\<rparr>, True)"
  by (simp_all add: loadTokens_def loadSubdomains_def loadPorts_def fill_items items_not_null rows_shown)

text \<open>Every load succeeds, and the order of the answers does not matter.\<close>

lemma loads_ok: "load_ok env l (FetchEnd 200 (Some (load_data e tokens subdomains ports status l)))
    (load_data e tokens subdomains ports status l)"
  by (cases l) (simp_all add: load_ok_def api_result_def tables_loaded loadSummary_def loadDeployStatus_def
      store_summary_def Let_def)

lemma load_updates:
  "fst (show_load env LoadSummary (store_summary tokens subdomains ports now) p) =
     p\<lparr>ap_active_tokens := shown_number env (int (length (filter (\<lambda>t. tok_revoked t = None) tokens))),
       ap_revoked_tokens := shown_number env (int (length (filter (\<lambda>t. tok_revoked t \<noteq> None) tokens))),
       ap_subdomain_count := shown_number env (int (length subdomains)),
       ap_tcp_count := shown_number env (int (length ports))\<rparr>"
  "fst (show_load env LoadDeploy (JObj status) p) =
     (let q' = fst (show_load env LoadDeploy (JObj status) q) in
      p\<lparr>ap_deploy_state := ap_deploy_state q', ap_deploy_sha := ap_deploy_sha q', ap_deploy_updated := ap_deploy_updated q',
        ap_deploy_message := ap_deploy_message q', ap_deploy_path := ap_deploy_path q', ap_run_hidden := ap_run_hidden q',
        ap_run_href := ap_run_href q'\<rparr>)"
  by (simp_all add: loadSummary_def store_summary_def shown_number_def loadDeployStatus_def Let_def)

lemma loads_commute:
  fixes e and tokens subdomains ports status
  defines "d \<equiv> load_data e tokens subdomains ports status"
  shows "fst (show_load env l (d l) (fst (show_load env k (d k) p))) = fst (show_load env k (d k) (fst (show_load env l (d l) p)))"
proof -
  define q' where "q' = fst (loadDeployStatus env (JObj status) p)"
  have "fst (loadDeployStatus env (JObj status) p) =
     p\<lparr>ap_deploy_state := ap_deploy_state q', ap_deploy_sha := ap_deploy_sha q', ap_deploy_updated := ap_deploy_updated q',
       ap_deploy_message := ap_deploy_message q', ap_deploy_path := ap_deploy_path q', ap_run_hidden := ap_run_hidden q',
       ap_run_href := ap_run_href q'\<rparr>" for p
    using load_updates(2) [of env status p] unfolding q'_def Let_def by simp
  then show ?thesis
    unfolding d_def using load_updates(1) [of env tokens subdomains ports]
    by (cases l; cases k) (simp_all add: tables_loaded)
qed

lemma show_loads_order:
  assumes "distinct ls" "set ls = set all_loads"
  shows "show_loads env (load_data e tokens subdomains ports status) ls p
    = show_loads env (load_data e tokens subdomains ports status) all_loads p"
proof -
  have "distinct all_loads" by (simp add: all_loads_def)
  then have "mset ls = mset all_loads" using assms set_eq_iff_mset_eq_distinct by metis
  then show ?thesis
    unfolding show_loads_def
    by (intro fun_cong [OF fold_multiset_equiv]) (auto simp: comp_def loads_commute)
qed

lemma deploy_keeps:
  "ap_storage (fst (loadDeployStatus env (JObj st) p)) = ap_storage p"
  "ap_active_tokens (fst (loadDeployStatus env (JObj st) p)) = ap_active_tokens p"
  "ap_revoked_tokens (fst (loadDeployStatus env (JObj st) p)) = ap_revoked_tokens p"
  "ap_subdomain_count (fst (loadDeployStatus env (JObj st) p)) = ap_subdomain_count p"
  "ap_tcp_count (fst (loadDeployStatus env (JObj st) p)) = ap_tcp_count p"
  by (simp_all add: loadDeployStatus_def Let_def)

text \<open>C27: The dashboard shows what the store holds. After a login with the server's admin token, when the five
  calls it makes are answered by the server, in any order, the dashboard is shown with a row for each token, each
  reserved subdomain and each reserved port of the store, and the numbers of them; a token's row has a button
  to revoke it exactly when the token is active.\<close>

theorem dashboard_shows_store:
  assumes "server_ready cfg host (js_trim s)"
    and "readable adm (he_admin he) cfg (sv_db sv) tokens subdomains ports status"
    and "\<not> ap_login_hidden (sc_page sc)" and "distinct ls" and "set ls = set all_loads"
    and "p = sc_page (page_run env [Type TokenInput s, SubmitLogin] sc)"
    and "p' = sc_page (page_run env ([Type TokenInput s, SubmitLogin]
           @ load_ends (\<lambda>l. fst (serve_call cfg deps adm he host (load_call p l) sv)) (sc_next sc) p ls) sc)"
  shows "\<not> ap_dashboard_hidden p' \<and> ap_login_hidden p' \<and> ap_dashboard_status p' = setStatus ''Connected.'' True
    \<and> ap_storage p' = Some (js_trim s)
    \<and> ap_tokens p' = map (token_shown env) tokens \<and> ap_subdomains p' = map (subdomain_shown env) subdomains
    \<and> ap_ports p' = map (port_shown env) ports
    \<and> ap_active_tokens p' = shown_number env (int (length (filter (\<lambda>t. tok_revoked t = None) tokens)))
    \<and> ap_revoked_tokens p' = shown_number env (int (length (filter (\<lambda>t. tok_revoked t \<noteq> None) tokens)))
    \<and> ap_subdomain_count p' = shown_number env (int (length subdomains))
    \<and> ap_tcp_count p' = shown_number env (int (length ports))"
proof -
  let ?sc = "on_page (\<lambda>p. p\<lparr>ap_storage := Some (ap_token p)\<rparr>)
    (on_page (\<lambda>p. p\<lparr>ap_token := js_trim (ap_token_input p)\<rparr>) (on_page (type_into TokenInput s) sc))"
  let ?d = "load_data (he_admin he) tokens subdomains ports status"
  let ?r = "\<lambda>l. fst (serve_call cfg deps adm he host (load_call p l) sv)"
  have t: "js_trim s \<noteq> []" using assms(1) by (simp add: server_ready_def good_token_def)
  then have run: "page_run env [Type TokenInput s, SubmitLogin] sc = refreshAll ?sc"
    using assms(3) by (simp add: page_step_def login_submit_def on_page_def Let_def)
  have tok: "ap_token (sc_page ?sc) \<noteq> []" "sc_next ?sc = sc_next sc" using t by (simp_all add: on_page_def)
  have p: "p = sc_page ?sc" using assms(6) refreshAll_calls(1) [OF tok(1)] unfolding run by simp
  then have "ap_token p = js_trim s" "ap_storage p = Some (js_trim s)" by (simp_all add: on_page_def)
  then have r: "?r l = FetchEnd 200 (Some (?d l))" for l
    using load_served [of cfg host p, OF _ assms(2)] assms(1) by simp
  have len: "length ls = length all_loads"
    using assms(4,5) distinct_card [of ls] distinct_card [of all_loads] by (simp add: all_loads_def)
  have "sc_page (page_run env (load_ends ?r (sc_next sc) p ls) (refreshAll ?sc)) = show_connected (show_loads env ?d ls (sc_page (refreshAll ?sc)))"
  proof (rule run_load_ends [OF assms(4)])
    show "ls \<noteq> []" using len by (auto simp: all_loads_def)
    show "sc_groups (refreshAll ?sc) (sc_next sc) = (length ls, False)"
      using refreshAll_calls(2) [OF tok(1)] tok(2) len by simp
    show "(Loading l (sc_next sc), load_call p l) \<in> set (sc_tasks (refreshAll ?sc))" if "l \<in> set ls" for l
      using refreshAll_calls(3) [OF tok(1), of l] tok(2) that assms(5) by (simp add: p)
    show "load_ok env l (?r l) (?d l)" for l
      unfolding r by (rule loads_ok)
  qed
  then have "p' = show_connected (show_loads env ?d all_loads p)"
    using assms(7) refreshAll_calls(1) [OF tok(1)] run p by (simp add: show_loads_order [OF assms(4,5)])
  moreover have "show_loads env ?d all_loads p
      = fst (show_load env LoadPorts (?d LoadPorts) (fst (show_load env LoadSubdomains (?d LoadSubdomains)
          (fst (show_load env LoadTokens (?d LoadTokens) (fst (show_load env LoadDeploy (?d LoadDeploy)
            (fst (show_load env LoadSummary (?d LoadSummary) p)))))))))"
    by (simp add: show_loads_def all_loads_def)
  ultimately show ?thesis
    using load_updates(1) [of env tokens subdomains ports "ae_now (he_admin he)" p] \<open>ap_storage p = Some (js_trim s)\<close>
    by (simp add: tables_loaded deploy_keeps show_connected_def setLoggedIn_def)
qed

subsection \<open>What the buttons do\<close>

lemma dec_digits_segment: "plain_segment (dec_digits n)"
proof -
  have "list_all is_digit (dec_digits n)" using dec_digits_props [of n] by simp
  then have "\<And>c. c \<in> set (dec_digits n) \<Longrightarrow> is_digit c" by (simp add: list_all_iff)
  then have "c \<in> set (dec_digits n) \<Longrightarrow> c \<noteq> CHR ''.'' \<and> c \<noteq> CHR ''/'' \<and> c \<noteq> CHR ''%''" for c
    by (fastforce simp: is_digit_def)
  then show ?thesis by (auto simp: plain_segment_def)
qed

lemma dec_digits_graphic: "c \<in> set (dec_digits n) \<Longrightarrow> graphic c"
  using dec_digits_props [of n] by (auto simp: list_all_iff is_digit_def graphic_def)

lemma label_segment:
  assumes "valid_label k"
  shows "plain_segment k" "list_all uri_plain k" "\<And>c. c \<in> set k \<Longrightarrow> graphic c"
proof -
  have b: "\<And>c. c \<in> set k \<Longrightarrow> subdomain_byte c" using assms by (simp add: valid_label_def list_all_iff)
  then show "\<And>c. c \<in> set k \<Longrightarrow> graphic c" using subdomain_byte_lower by blast
  show "list_all uri_plain k"
    using b by (auto simp: list_all_iff uri_plain_def query_plain_def subdomain_byte_def)
  have "c \<in> set k \<Longrightarrow> c \<noteq> CHR ''.'' \<and> c \<noteq> CHR ''/'' \<and> c \<noteq> CHR ''%''" for c
    using b [of c] by (auto simp: subdomain_byte_def is_lower_def is_digit_def)
  then show "plain_segment k" using assms by (auto simp: plain_segment_def valid_label_def)
qed

lemma ParseInt_dec_digits: "int64_range (int n) \<Longrightarrow> ParseInt (dec_digits n) = Some (int n)"
  using dec_digits_props [of n] by (auto simp: ParseInt_def split_sign_dec_digits)

lemma safe_Itoa: "safe_integer i \<Longrightarrow> 0 \<le> i \<Longrightarrow> shown_number env i = dec_digits (nat i)"
  by (simp add: shown_number_def Itoa_def)

lemma safe_range: "safe_integer i \<Longrightarrow> int64_range i"
  by (auto simp: safe_integer_def int64_range_def abs_le_iff)

text \<open>A DELETE of a resource below one of the three collections.\<close>

lemma delete_served:
  assumes "server_ready cfg host (ap_token p)" "kind \<in> {''tokens'', ''subdomains'', ''tcp-ports''}"
    and "plain_segment x" "\<And>c. c \<in> set x \<Longrightarrow> graphic c"
  shows "snd (serve_call cfg deps adm he host (api p ''DELETE'' (kind @ ''/'' @ x) None) sv)
    = sv\<lparr>sv_db :=
        (if kind = ''tokens'' then snd (serveAdminRevokeToken adm x (sv_db sv))
         else if kind = ''subdomains'' then snd (serveAdminUnreserveSubdomain (ae_quote (he_admin he)) adm x (sv_db sv))
         else snd (serveAdminUnreserveTCPPort (ae_quote (he_admin he)) adm x (sv_db sv)))\<rparr>"
proof -
  let ?c = "api p ''DELETE'' (kind @ ''/'' @ x) None"
  have t: "ap_token p \<noteq> []" using assms(1) by (simp add: server_ready_def good_token_def)
  then have c: "ac_authorization ?c = Some (''Bearer '' @ ap_token p)" "ac_resource ?c = Join_char CHR ''/'' [kind, x]"
    "ac_method ?c = ''DELETE''" "ac_body ?c = None" "ac_resource ?c = kind @ ''/'' @ x"
    by (simp_all add: api_def)
  have segs: "list_all plain_segment [kind, x]" using assms(2,3) by (auto simp: plain_segment_def)
  have "\<And>c. c \<in> set (kind @ ''/'' @ x) \<Longrightarrow> graphic c" using assms(2,4) by (auto simp: graphic_def)
  then have trim: "TrimSpace (ac_resource ?c) = ac_resource ?c" unfolding c(5) by (rule TrimSpace_graphic)
  have req: "admin_request ''DELETE'' (kind @ ''/'' @ x) (wire_call host ?c (Some (''Bearer '' @ ap_token p)))"
    using wire_admin_request [OF c(2) _ segs trim, of host "Some (''Bearer '' @ ap_token p)"] c by simp
  obtain resp db where api: "serveAdminAPI (he_admin he) cfg (Some adm) (wire_call host ?c (Some (''Bearer '' @ ap_token p)))
      (map_option (\<lambda>j. (j, True)) (ac_body ?c)) (sv_db sv) = (resp, db)" by fastforce
  have "db = (if kind = ''tokens'' then snd (serveAdminRevokeToken adm x (sv_db sv))
      else if kind = ''subdomains'' then snd (serveAdminUnreserveSubdomain (ae_quote (he_admin he)) adm x (sv_db sv))
      else snd (serveAdminUnreserveTCPPort (ae_quote (he_admin he)) adm x (sv_db sv)))"
    using arg_cong [OF api, of snd] assms(2)
    unfolding serveAdminAPI_def option.case Let_def req [unfolded admin_request_def, THEN conjunct1]
      req [unfolded admin_request_def, THEN conjunct2]
    by (elim insertE; simp add: HasPrefix_def TrimPrefix_def)
  then show ?thesis using serve_call_api [OF assms(1) c(1,2) _ segs trim api] by (simp split: option.split)
qed

text \<open>What the calls of the buttons do.\<close>

lemma button_calls:
  assumes "server_ready cfg host (ap_token p)" and "auth_inv db" and "sv_db sv = Some db"
    and "adm = auth_admin sha flt now rnd"
    and "\<And>path. after path = snd (serve_call cfg deps adm he host (api p ''DELETE'' path None) sv)"
  shows "(\<forall>t label path. t \<in> set (map row_token (db_tokens db)) \<and> safe_integer (tok_id t)
        \<and> row_button (token_shown env t) = Some (label, path)
        \<longrightarrow> after path = sv\<lparr>sv_db := snd (RevokeToken flt now (Some db) (tok_id t))\<rparr>)
    \<and> (\<forall>x label path. x \<in> set (joined_rows (db_tokens db) (db_subdomains db))
        \<and> row_button (subdomain_shown env x) = Some (label, path)
        \<longrightarrow> after path = sv\<lparr>sv_db := snd (UnreserveSubdomain flt (Some db) (fst x))\<rparr>)
    \<and> (\<forall>x label path. x \<in> set (joined_rows (db_tokens db) (db_ports db))
        \<and> row_button (port_shown env x) = Some (label, path)
        \<longrightarrow> after path = sv\<lparr>sv_db := snd (UnreserveTCPPort flt (Some db) (fst x))\<rparr>)"
proof (intro conjI allI impI; elim conjE)
  fix t label path
  assume t: "t \<in> set (map row_token (db_tokens db))" "safe_integer (tok_id t)"
    and b: "row_button (token_shown env t) = Some (label, path)"
  then have pos: "0 < tok_id t" using assms(2) by (auto simp: auth_inv_def tokens_inv_def row_token_def)
  then have path: "path = ''tokens'' @ ''/'' @ dec_digits (nat (tok_id t))"
    using b safe_Itoa [OF t(2), of env] by (auto simp: token_shown_def split: if_splits)
  have "ParseInt (dec_digits (nat (tok_id t))) = Some (tok_id t)"
    using ParseInt_dec_digits [of "nat (tok_id t)"] safe_range [OF t(2)] pos by simp
  then have "snd (serveAdminRevokeToken adm (dec_digits (nat (tok_id t))) (Some db)) = snd (RevokeToken flt now (Some db) (tok_id t))"
    using pos TrimSpace_graphic [OF dec_digits_graphic] assms(4)
    by (simp add: serveAdminRevokeToken_def auth_admin_def split: prod.split sum.split)
  then show "after path = sv\<lparr>sv_db := snd (RevokeToken flt now (Some db) (tok_id t))\<rparr>"
    unfolding assms(5) path
    using delete_served [where adm = adm and he = he and sv = sv and deps = deps, OF assms(1) _ dec_digits_segment [of "nat (tok_id t)"] dec_digits_graphic [of _ "nat (tok_id t)"], where kind = "''tokens''"] assms(3) by simp
next
  fix x label path
  assume x: "x \<in> set (joined_rows (db_tokens db) (db_subdomains db))"
    and b: "row_button (subdomain_shown env x) = Some (label, path)"
  then have "fst x \<in> rs_key ` set (db_subdomains db)" by (auto simp: joined_rows_def)
  then have k: "valid_label (fst x)" using assms(2) by (auto simp: auth_inv_def)
  note seg = label_segment [OF k]
  have path: "path = ''subdomains'' @ ''/'' @ fst x"
    using b seg(2) by (auto simp: subdomain_shown_def encodeURIComponent_plain split: prod.splits)
  have "PathUnescape (fst x) = Some (fst x)"
    using seg(1) by (simp add: PathUnescape_def pct_decode_plain plain_segment_def)
  then have "snd (serveAdminUnreserveSubdomain q adm (fst x) (Some db)) = snd (UnreserveSubdomain flt (Some db) (fst x))" for q
    using seg(1) TrimSpace_graphic [OF seg(3)] assms(4)
    by (simp add: serveAdminUnreserveSubdomain_def auth_admin_def plain_segment_def split: prod.split sum.split)
  then show "after path = sv\<lparr>sv_db := snd (UnreserveSubdomain flt (Some db) (fst x))\<rparr>"
    unfolding assms(5) path
    using delete_served [where adm = adm and he = he and sv = sv and deps = deps, OF assms(1) _ seg(1,3), where kind = "''subdomains''"] assms(3) by simp
next
  fix x label path
  assume x: "x \<in> set (joined_rows (db_tokens db) (db_ports db))"
    and b: "row_button (port_shown env x) = Some (label, path)"
  then have "fst x \<in> rs_key ` set (db_ports db)" by (auto simp: joined_rows_def)
  then have k: "valid_port (fst x)" using assms(2) by (auto simp: auth_inv_def)
  then have pos: "0 < fst x" "safe_integer (fst x)" by (simp_all add: valid_port_def safe_integer_def)
  then have path: "path = ''tcp-ports'' @ ''/'' @ dec_digits (nat (fst x))"
    using b safe_Itoa [of "fst x" env] by (auto simp: port_shown_def split: prod.splits)
  have "Atoi (dec_digits (nat (fst x))) = Some (fst x)"
    using Atoi_Itoa [OF safe_range [OF pos(2)]] pos(1) by (simp add: Itoa_def)
  then have "snd (serveAdminUnreserveTCPPort q adm (dec_digits (nat (fst x))) (Some db)) = snd (UnreserveTCPPort flt (Some db) (fst x))" for q
    using pos TrimSpace_graphic [OF dec_digits_graphic] assms(4)
    by (simp add: serveAdminUnreserveTCPPort_def auth_admin_def split: prod.split sum.split)
  then show "after path = sv\<lparr>sv_db := snd (UnreserveTCPPort flt (Some db) (fst x))\<rparr>"
    unfolding assms(5) path
    using delete_served [where adm = adm and he = he and sv = sv and deps = deps, OF assms(1) _ dec_digits_segment [of "nat (fst x)"] dec_digits_graphic [of _ "nat (fst x)"], where kind = "''tcp-ports''"] assms(3) by simp
qed

text \<open>C28: The buttons do what the rows say, for a page that is logged in: the token it holds is the server's own
  admin token (printable, with nothing to trim) and the dashboard is shown. Then, on a well-formed auth store that
  is open, a click on a row's button makes a call which the server answers by exactly this: when the row was made for
  a token whose id is a safe integer (one a JavaScript number holds exactly) and has a button, it revokes that
  token; when it was made for a reserved subdomain or for a reserved port, it removes that reservation; and it does
  nothing else. (A page whose variable is empty, as after a logout that a refresh overtakes, is outside the claim: its
  calls carry no token and are refused.)\<close>

theorem row_buttons_act_on_rows:
  assumes "server_ready cfg host (ap_token (sc_page sc))" and "auth_inv db" and "sv_db sv = Some db"
    and "adm = auth_admin sha flt now rnd"
    and "\<not> ap_dashboard_hidden (sc_page sc)" and "i < length (table_rows tbl (sc_page sc))"
    and "row = table_rows tbl (sc_page sc) ! i" and "row_button row \<noteq> None"
    and "sv' = snd (serve_call cfg deps adm he host (List.last (sc_sent (page_step env sc (ClickRow tbl i)))) sv)"
  shows "(\<forall>t \<in> set (map row_token (db_tokens db)). row = token_row_of env (token_item t) \<and> safe_integer (tok_id t)
        \<longrightarrow> sv' = sv\<lparr>sv_db := snd (RevokeToken flt now (Some db) (tok_id t))\<rparr>)
    \<and> (\<forall>x \<in> set (joined_rows (db_tokens db) (db_subdomains db)). row = subdomain_row_of env (subdomain_item x)
        \<longrightarrow> sv' = sv\<lparr>sv_db := snd (UnreserveSubdomain flt (Some db) (fst x))\<rparr>)
    \<and> (\<forall>x \<in> set (joined_rows (db_tokens db) (db_ports db)). row = port_row_of env (port_item x)
        \<longrightarrow> sv' = sv\<lparr>sv_db := snd (UnreserveTCPPort flt (Some db) (fst x))\<rparr>)"
proof -
  obtain label path where b: "row_button row = Some (label, path)" using assms(8) by fastforce
  then have "List.last (sc_sent (page_step env sc (ClickRow tbl i))) = api (sc_page sc) ''DELETE'' path None"
    using assms(5-7) by (simp add: page_step_def call_def Let_def)
  then have sv': "sv' = snd (serve_call cfg deps adm he host (api (sc_page sc) ''DELETE'' path None) sv)"
    using assms(9) by simp
  note calls = button_calls [where env = env and deps = deps and he = he, OF assms(1-4) refl]
  show ?thesis
    using calls b unfolding sv' rows_shown by metis
qed

subsection \<open>Witnesses\<close>

lemma demo_ready: "server_ready admin_cfg ''example.com'' ''s3cret''"
proof -
  have "TrimSpace ''s3cret'' = ''s3cret''" by (simp add: eval_simps)
  moreover have "isBaseDomainHost ''example.com'' ''example.com''" by (simp add: eval_simps)
  ultimately show ?thesis
    by (simp add: server_ready_def good_token_def admin_cfg_def demo_cfg_def graphic_def)
qed

lemma demo_readable:
  "readable demo_admin demo_admin_env admin_cfg (Some demo_db) (map row_token (db_tokens demo_db)) [] []
     [(''enabled'', JBool False), (''state'', JStr ''disabled'')]"
  by (simp add: readable_def demo_admin_def auth_admin_def ListTokens_def ListReservedSubdomains_def
      ListReservedTCPPorts_def with_store_q_def query_sql_def demo_db_def empty_db_def joined_rows_def
      admin_cfg_def demo_cfg_def readDeployStatus_def demo_admin_env_def)

theorem dashboard_shows_store_witness:
  "\<exists>es p'. p' = sc_page (page_run demo_script_env es (opened None)) \<and> \<not> ap_dashboard_hidden p'
     \<and> ap_tokens p' = [Row [''1'', ''eos_ab'', ''ci'', ''active''] (Some (''Revoke'', ''tokens/1''))]"
proof -
  have s: "js_trim ''s3cret'' = ''s3cret''" by (rule js_trim_graphic) (simp_all add: graphic_def)
  have open_page: "\<not> ap_login_hidden (sc_page (opened None))"
    by (simp add: opened_def refreshAll_def opened_page_def)
  have env: "he_admin demo_http_env = demo_admin_env" "sv_db (demo_server demo_db) = Some demo_db"
    by (simp_all add: demo_http_env_def demo_server_def)
  have one: "shown_number demo_script_env 1 = ''1''"
    by (simp add: shown_number_def safe_integer_def eval_simps)
  have "distinct all_loads" by (simp add: all_loads_def)
  from dashboard_shows_store [of admin_cfg "''example.com''" "''s3cret''" demo_admin demo_http_env "demo_server demo_db", unfolded s env,
      OF demo_ready demo_readable open_page this refl refl refl, of demo_script_env demo_deps]
  show ?thesis
    by (intro exI conjI) (rule refl, blast, simp add: token_shown_def row_token_def demo_db_def one)
qed

theorem row_buttons_act_on_rows_witness:
  "\<exists>sc. snd (serve_call admin_cfg demo_deps demo_admin demo_http_env ''example.com''
      (List.last (sc_sent (page_step demo_script_env sc (ClickRow TokensTable 0)))) (demo_server demo_db))
   = (demo_server demo_db)\<lparr>sv_db := snd (RevokeToken NoFault 7 (Some demo_db) 1)\<rparr>"
proof -
  let ?t = "row_token (hd (db_tokens demo_db))"
  let ?sc = "on_page (\<lambda>p. p\<lparr>ap_tokens := [token_row_of demo_script_env (token_item ?t)]\<rparr>) demo_console"
  have one: "shown_number demo_script_env 1 = ''1''"
    by (simp add: shown_number_def safe_integer_def eval_simps)
  have t: "?t \<in> set (map row_token (db_tokens demo_db))" "safe_integer (tok_id ?t)" "tok_id ?t = 1"
    "row_button (token_row_of demo_script_env (token_item ?t)) \<noteq> None"
    by (simp_all add: demo_db_def row_token_def safe_integer_def rows_shown token_shown_def one)
  have "ap_token (sc_page ?sc) = ''s3cret''" "\<not> ap_dashboard_hidden (sc_page ?sc)"
    "table_rows TokensTable (sc_page ?sc) = [token_row_of demo_script_env (token_item ?t)]"
    using demo_console_shown by (simp_all add: on_page_def)
  moreover have "sv_db (demo_server demo_db) = Some demo_db" by (simp add: demo_server_def)
  ultimately show ?thesis
    using row_buttons_act_on_rows [OF _ demo_auth_inv _ demo_admin_def, of admin_cfg "''example.com''" ?sc "demo_server demo_db" 0
        TokensTable "token_row_of demo_script_env (token_item ?t)" _ demo_deps demo_http_env demo_script_env] demo_ready t
    by (intro exI [of _ ?sc]) auto
qed

end
