(* ===== verification/InspectorPage.thy ===== *)
theory InspectorPage
  imports Browser Inspect GoJsonText
begin

text \<open>
  The page of the inspector: the markup and the script of \<open>inspectorIndexHTML\<close> in
  \<open>internal/inspect/http.go\<close>, over the JSON of its API. The page shows what others sent through a
  tunnel, so what matters is that it shows it as text. The body of the API is the JSON text the
  encoder writes, with U+FFFD for every byte that is no UTF-8, and the page reads that text. The formats of the browser's locale and the
  order of \<open>localeCompare\<close> are arguments.
\<close>

subsection \<open>The answers of the API as JSON\<close>

text \<open>\<open>time\<close> is the text of a \<open>time.Time\<close>.\<close>

definition header_json :: "header \<Rightarrow> json" where
  "header_json h = JObj (map (\<lambda>k. (k, JArr (map JStr (the (h k))))) (sorted_list_of_set (dom h)))"

definition omit_empty :: "bool \<Rightarrow> string \<Rightarrow> json \<Rightarrow> (string \<times> json) list" where
  "omit_empty absent k v = (if absent then [] else [(k, v)])"

definition entry_json :: "(int option \<Rightarrow> string) \<Rightarrow> inspect_entry \<Rightarrow> json" where
  "entry_json time e = JObj
     ([(''id'', JStr (en_id e)), (''started_at'', JStr (time (en_started_at e))),
       (''duration_ms'', JInt (en_duration_ms e))]
      @ omit_empty (en_tunnel_id e = []) ''tunnel_id'' (JStr (en_tunnel_id e))
      @ [(''method'', JStr (en_method e)), (''path'', JStr (en_path e))]
      @ omit_empty (en_host e = []) ''host'' (JStr (en_host e))
      @ omit_empty (en_status_code e = 0) ''status_code'' (JInt (en_status_code e))
      @ omit_empty (en_bytes_in e = 0) ''bytes_in'' (JInt (en_bytes_in e))
      @ omit_empty (en_bytes_out e = 0) ''bytes_out'' (JInt (en_bytes_out e))
      @ omit_empty (dom (en_request_headers e) = {}) ''request_headers'' (header_json (en_request_headers e))
      @ omit_empty (dom (en_response_headers e) = {}) ''response_headers'' (header_json (en_response_headers e)))"

definition requests_json :: "(int option \<Rightarrow> string) \<Rightarrow> inspect_entry list \<Rightarrow> json" where
  "requests_json time es = JObj [(''requests'', JArr (map (entry_json time) es))]"

text \<open>The body of the list as the encoder writes it, and what the page's \<open>res.json()\<close> makes of it: every byte of a
  text that is no UTF-8 arrives as U+FFFD.\<close>

definition requests_body :: "(int option \<Rightarrow> string) \<Rightarrow> inspect_entry list \<Rightarrow> string" where
  "requests_body time es = json_render (requests_json time es) @ [CHR 0x0A]"

definition requests_read :: "(int option \<Rightarrow> string) \<Rightarrow> inspect_entry list \<Rightarrow> json option" where
  "requests_read time es = json_unmarshal (requests_body time es)"

definition replay_json :: "int \<Rightarrow> string \<Rightarrow> json" where
  "replay_json status err = JObj (omit_empty (status = 0) ''status_code'' (JInt status) @ omit_empty (err = []) ''error'' (JStr err))"

subsection \<open>Building the markup\<close>

record page_env =
  pe_number :: "json \<Rightarrow> string"
  pe_collate :: "string list \<Rightarrow> string list"
  pe_time :: "string \<Rightarrow> string"

definition replaceAll :: "char \<Rightarrow> string \<Rightarrow> string \<Rightarrow> string" where
  "replaceAll c w s = concat (map (\<lambda>d. if d = c then w else [d]) s)"

definition esc :: "string \<Rightarrow> string" where
  "esc s =
     replaceAll CHR 0x27 ''&#39;'' (replaceAll CHR 0x22 ''&quot;'' (replaceAll CHR ''>'' ''&gt;''
       (replaceAll CHR ''<'' ''&lt;'' (replaceAll CHR ''&'' ''&amp;'' s))))"

text \<open>A status code of the API is an integer.\<close>

definition statusColor :: "(json \<Rightarrow> string) \<Rightarrow> js \<Rightarrow> string" where
  "statusColor num status =
     (if \<not> truthy num status then ''rgba(255,255,255,0.18)''
      else
        (case status of
           Some (JInt i) \<Rightarrow>
             if i \<ge> 200 \<and> i < 300 then ''rgba(16,185,129,0.35)''
             else if i \<ge> 300 \<and> i < 400 then ''rgba(96,165,250,0.35)''
             else if i \<ge> 400 \<and> i < 500 then ''rgba(245,158,11,0.35)''
             else ''rgba(239,68,68,0.35)''
         | _ \<Rightarrow> ''rgba(239,68,68,0.35)''))"

definition formatStartedAt :: "page_env \<Rightarrow> js \<Rightarrow> string" where
  "formatStartedAt env ts = pe_time env (js_text (pe_number env) ts)"

definition header_lines :: "(json \<Rightarrow> string) \<Rightarrow> string \<Rightarrow> js \<Rightarrow> string list" where
  "header_lines num k v =
     (case v of
        Some (JArr vs) \<Rightarrow> map (\<lambda>vv. k @ '': '' @ js_String num vv) vs
      | _ \<Rightarrow> [k @ '': '' @ js_text num v])"

definition toHeadersText :: "page_env \<Rightarrow> js \<Rightarrow> string" where
  "toHeadersText env headers =
     (case headers of
        Some (JObj kvs) \<Rightarrow>
          Join_char CHR 0x0A (concat (map (\<lambda>k. header_lines (pe_number env) k (map_of (rev kvs) k))
            (pe_collate env (remdups (map fst kvs)))))
      | _ \<Rightarrow> [])"

text \<open>Properties of an entry, which is an object.\<close>

definition js_prop :: "json \<Rightarrow> string \<Rightarrow> js" where
  "js_prop r k = (case r of JObj kvs \<Rightarrow> map_of (rev kvs) k | _ \<Rightarrow> None)"

definition or_empty :: "page_env \<Rightarrow> js \<Rightarrow> string" where
  "or_empty env v = js_String (pe_number env) (js_or (pe_number env) v (JStr []))"

definition js_identical :: "js \<Rightarrow> js \<Rightarrow> bool" where
  "js_identical a b \<longleftrightarrow> a = b \<and> (case a of Some (JArr _) \<Rightarrow> False | Some (JObj _) \<Rightarrow> False | _ \<Rightarrow> True)"

abbreviation quoted :: "string \<Rightarrow> string" where
  "quoted s \<equiv> [CHR 0x22] @ s @ [CHR 0x22]"

definition bullet :: string where
  "bullet = [CHR '' '', CHR 0xE2, CHR 0x80, CHR 0xA2, CHR '' '']"

definition started_text :: "page_env \<Rightarrow> json \<Rightarrow> string" where
  "started_text env r =
     (if truthy (pe_number env) (js_prop r ''started_at'') then formatStartedAt env (js_prop r ''started_at'') else [])"

definition row_html :: "page_env \<Rightarrow> js \<Rightarrow> json \<Rightarrow> string" where
  "row_html env selectedId r =
     (let selected = (if js_identical (js_prop r ''id'') selectedId then ''selected'' else []);
          host = or_empty env (js_prop r ''host'');
          status = or_empty env (js_prop r ''status_code'');
          started = started_text env r
      in ''<div class='' @ quoted (''row '' @ selected) @ '' data-id=''
            @ quoted (esc (js_text (pe_number env) (js_prop r ''id''))) @ ''>'' @
           ''<div class='' @ quoted ''method'' @ ''>'' @ esc (or_empty env (js_prop r ''method'')) @ ''</div>'' @
           ''<div class='' @ quoted ''pathwrap'' @ ''>'' @
             ''<div class='' @ quoted ''path'' @ ''>'' @ esc (or_empty env (js_prop r ''path'')) @ ''</div>'' @
             ''<div class='' @ quoted ''meta'' @ ''>'' @ esc host @ bullet @ esc started @ ''</div>'' @
           ''</div>'' @
           ''<div class='' @ quoted ''status'' @ '' style=''
             @ quoted (''background:'' @ statusColor (pe_number env) (js_prop r ''status_code'') @ '';'') @ ''>''
             @ esc status @ ''</div>'' @
         ''</div>'')"

definition renderList :: "page_env \<Rightarrow> json list \<Rightarrow> js \<Rightarrow> string" where
  "renderList env items selectedId =
     (if items = [] then
        ''<div class='' @ quoted ''row'' @ '' style='' @ quoted ''cursor:default;grid-template-columns:1fr;'' @ ''>''
        @ ''<div class='' @ quoted ''hint'' @ ''>No requests yet. Make some traffic through your tunnel.</div></div>''
      else concat (map (row_html env selectedId) items))"

definition detail_html :: "string \<Rightarrow> string \<Rightarrow> string" where
  "detail_html k v =
     ''<div class='' @ quoted ''k'' @ ''>'' @ k @ ''</div><div class='' @ quoted ''v'' @ ''>'' @ v @ ''</div>''"

definition entry_url :: "page_env \<Rightarrow> json \<Rightarrow> string" where
  "entry_url env r =
     (if truthy (pe_number env) (js_prop r ''host'')
      then ''https://'' @ js_text (pe_number env) (js_prop r ''host'') else [])
     @ or_empty env (js_prop r ''path'')"

definition duration_text :: "page_env \<Rightarrow> json \<Rightarrow> string" where
  "duration_text env r =
     (if truthy (pe_number env) (js_prop r ''duration_ms'')
      then js_text (pe_number env) (js_prop r ''duration_ms'') @ ''ms'' else [])"

definition bytes_text :: "page_env \<Rightarrow> json \<Rightarrow> string" where
  "bytes_text env r =
     js_String (pe_number env) (js_or (pe_number env) (js_prop r ''bytes_in'') (JInt 0)) @ '' in / ''
     @ js_String (pe_number env) (js_or (pe_number env) (js_prop r ''bytes_out'') (JInt 0)) @ '' out''"

definition renderDetails :: "page_env \<Rightarrow> json list \<Rightarrow> js \<Rightarrow> string" where
  "renderDetails env requests selectedId =
     (case find (\<lambda>r. js_identical (js_prop r ''id'') selectedId) requests of
        None \<Rightarrow> ''<h2>Request</h2><div class='' @ quoted ''hint'' @ ''>No request selected.</div>''
      | Some entry \<Rightarrow>
          (let url = entry_url env entry in
           ''<h2>Request</h2>'' @
           ''<div class='' @ quoted ''kv'' @ ''>'' @
             detail_html ''Method'' (esc (or_empty env (js_prop entry ''method''))) @
             detail_html ''Status'' (esc (or_empty env (js_prop entry ''status_code''))) @
             detail_html ''URL'' (''<a href='' @ quoted (esc url) @ '' target='' @ quoted ''_blank'' @ '' rel=''
               @ quoted ''noreferrer'' @ ''>'' @ esc url @ ''</a>'') @
             detail_html ''Tunnel'' (esc (or_empty env (js_prop entry ''tunnel_id''))) @
             detail_html ''Started'' (esc (started_text env entry)) @
             detail_html ''Duration'' (esc (duration_text env entry)) @
             detail_html ''Bytes'' (esc (bytes_text env entry)) @
           ''</div>'' @
           ''<div class='' @ quoted ''actions'' @ ''>'' @
             ''<button id='' @ quoted ''replay'' @ ''>Replay</button>'' @
             ''<div class='' @ quoted ''hint'' @ '' id='' @ quoted ''replayResult'' @ ''></div>'' @
           ''</div>'' @
           ''<pre>'' @ esc (toHeadersText env (js_prop entry ''request_headers'')) @ ''</pre>''))"

subsection \<open>The page\<close>

text \<open>
  \<open>ip_card_no\<close> counts the fillings of the card: each makes a new button and a new place for the
  result, and the old ones are not on the page any more. The last two fields are the
  result that is shown and whether the button is disabled. A replay in progress remembers the
  card its button was on.
\<close>

record inspector_page =
  ip_requests :: "json list"
  ip_selected :: js
  ip_error :: bool
  ip_list :: string
  ip_card :: string
  ip_card_no :: nat
  ip_result :: string
  ip_disabled :: bool

definition fresh_page :: inspector_page where
  "fresh_page = \<lparr>ip_requests = [], ip_selected = Some JNull, ip_error = False, ip_list = [],
     ip_card = ''<h2>Request</h2><div class='' @ quoted ''hint'' @ ''>No request selected yet.</div>'',
     ip_card_no = 0, ip_result = [], ip_disabled = False\<rparr>"

definition render :: "page_env \<Rightarrow> inspector_page \<Rightarrow> inspector_page" where
  "render env p = p\<lparr>ip_list := renderList env (ip_requests p) (ip_selected p),
     ip_card := renderDetails env (ip_requests p) (ip_selected p),
     ip_card_no := ip_card_no p + 1, ip_result := [], ip_disabled := False\<rparr>"

text \<open>The answer of the API: nothing when the request failed or its body is no JSON. A list of requests that
  is no array, or holds \<open>null\<close>, is not one of the API's.\<close>

definition requests_of :: "page_env \<Rightarrow> json \<Rightarrow> json list" where
  "requests_of env body =
     (case js_prop body ''requests'' of Some (JArr rs) \<Rightarrow> rs | _ \<Rightarrow> [])"

definition select_entry :: "page_env \<Rightarrow> json list \<Rightarrow> js \<Rightarrow> js" where
  "select_entry env rs sel =
     (let newest = js_prop (hd rs) ''id'';
          sel = (if \<not> truthy (pe_number env) sel \<and> rs \<noteq> [] then newest else sel)
      in if truthy (pe_number env) sel \<and> find (\<lambda>r. js_identical (js_prop r ''id'') sel) rs = None \<and> rs \<noteq> [] then newest
         else sel)"

definition refresh :: "page_env \<Rightarrow> json option \<Rightarrow> inspector_page \<Rightarrow> inspector_page" where
  "refresh env reply p =
     (case reply of
        None \<Rightarrow> render env (p\<lparr>ip_error := True\<rparr>)
      | Some body \<Rightarrow>
          (let rs = requests_of env body in
           render env (p\<lparr>ip_requests := rs, ip_selected := select_entry env rs (ip_selected p)\<rparr>)))"

text \<open>A click on a row selects what its attribute says.\<close>

definition click_row :: "page_env \<Rightarrow> string \<Rightarrow> inspector_page \<Rightarrow> inspector_page" where
  "click_row env i p = render env (p\<lparr>ip_selected := Some (JStr i)\<rparr>)"

definition replay_path :: "page_env \<Rightarrow> json \<Rightarrow> string" where
  "replay_path env entry =
     ''/api/requests/'' @ encodeURIComponent (js_text (pe_number env) (js_prop entry ''id'')) @ ''/replay''"

definition click_replay :: "inspector_page \<Rightarrow> inspector_page \<times> nat" where
  "click_replay p =
     (p\<lparr>ip_disabled := True, ip_result := ''Replaying'' @ [CHR 0xE2, CHR 0x80, CHR 0xA6]\<rparr>, ip_card_no p)"

text \<open>How a replay ended: the request failed, or its status and its body if that is JSON.\<close>

datatype replay_end = ReplayFailed string | ReplayAnswer int "json option"

definition replay_text :: "page_env \<Rightarrow> replay_end \<Rightarrow> string" where
  "replay_text env e =
     (case e of
        ReplayFailed msg \<Rightarrow> ''Error: '' @ msg
      | ReplayAnswer status body \<Rightarrow>
          (let field = (\<lambda>k. Option.bind body (\<lambda>b. js_prop b k)) in
           if \<not> (200 \<le> status \<and> status < 300) then
             (if truthy (pe_number env) (field ''error'')
              then ''Error: '' @ js_text (pe_number env) (field ''error'') else ''Error: HTTP '' @ Itoa status)
           else if truthy (pe_number env) (field ''status_code'')
             then ''Replayed (upstream status '' @ js_text (pe_number env) (field ''status_code'') @ '')''
           else ''Replayed''))"

definition replay_done :: "page_env \<Rightarrow> nat \<Rightarrow> replay_end \<Rightarrow> inspector_page \<Rightarrow> inspector_page" where
  "replay_done env n e p =
     (if ip_card_no p = n then p\<lparr>ip_result := replay_text env e, ip_disabled := False\<rparr> else p)"

subsection \<open>What is built is what it is meant to be\<close>

lemma esc_escape: "esc s = markup_escape s"
  by (induction s) (auto simp: esc_def replaceAll_def escape_char_def)

definition row_dom :: "page_env \<Rightarrow> js \<Rightarrow> json \<Rightarrow> dom" where
  "row_dom env sel r =
     Element ''div'' [(''class'', ''row '' @ (if js_identical (js_prop r ''id'') sel then ''selected'' else [])),
         (''data-id'', js_text (pe_number env) (js_prop r ''id''))]
       [Element ''div'' [(''class'', ''method'')] [TextNode (or_empty env (js_prop r ''method''))],
        Element ''div'' [(''class'', ''pathwrap'')]
          [Element ''div'' [(''class'', ''path'')] [TextNode (or_empty env (js_prop r ''path''))],
           Element ''div'' [(''class'', ''meta'')]
             [TextNode (or_empty env (js_prop r ''host'') @ bullet @ started_text env r)]],
        Element ''div'' [(''class'', ''status''),
            (''style'', ''background:'' @ statusColor (pe_number env) (js_prop r ''status_code'') @ '';'')]
          [TextNode (or_empty env (js_prop r ''status_code''))]]"

definition detail_dom :: "string \<Rightarrow> dom list \<Rightarrow> dom list" where
  "detail_dom k v = [Element ''div'' [(''class'', ''k'')] [TextNode k], Element ''div'' [(''class'', ''v'')] v]"

definition details_dom :: "page_env \<Rightarrow> json \<Rightarrow> dom list" where
  "details_dom env r =
     [Element ''h2'' [] [TextNode ''Request''],
      Element ''div'' [(''class'', ''kv'')]
        (detail_dom ''Method'' [TextNode (or_empty env (js_prop r ''method''))]
         @ detail_dom ''Status'' [TextNode (or_empty env (js_prop r ''status_code''))]
         @ detail_dom ''URL'' [Element ''a''
             [(''href'', entry_url env r), (''target'', ''_blank''), (''rel'', ''noreferrer'')] [TextNode (entry_url env r)]]
         @ detail_dom ''Tunnel'' [TextNode (or_empty env (js_prop r ''tunnel_id''))]
         @ detail_dom ''Started'' [TextNode (started_text env r)]
         @ detail_dom ''Duration'' [TextNode (duration_text env r)]
         @ detail_dom ''Bytes'' [TextNode (bytes_text env r)]),
      Element ''div'' [(''class'', ''actions'')]
        [Element ''button'' [(''id'', ''replay'')] [TextNode ''Replay''],
         Element ''div'' [(''class'', ''hint''), (''id'', ''replayResult'')] []],
      Element ''pre'' [] [TextNode (toHeadersText env (js_prop r ''request_headers''))]]"

lemma literal_escape [simp]: "markup_escape (statusColor num v) = statusColor num v" "markup_escape bullet = bullet"
  by (auto simp: statusColor_def bullet_def escape_char_def split: option.split json.split)

lemmas escape_literals = print_attr_def escape_char_def

lemma row_html_print: "row_html env sel r = html_print (row_dom env sel r)"
  by (simp add: row_html_def row_dom_def Let_def esc_escape escape_literals)

lemma details_html_print:
  assumes "find (\<lambda>r. js_identical (js_prop r ''id'') sel) rs = Some r"
  shows "renderDetails env rs sel = concat (map html_print (details_dom env r))"
  by (simp add: renderDetails_def assms details_dom_def detail_dom_def detail_html_def Let_def esc_escape escape_literals)

lemma list_html_print: "rs \<noteq> [] \<Longrightarrow> renderList env rs sel = concat (map html_print (map (row_dom env sel) rs))"
  by (auto simp: renderList_def row_html_print comp_def intro!: arg_cong [of _ _ concat])

lemmas printable_defs = good_attrs_def name_byte_def is_lower_def is_digit_def may_open_def ordinary_elements_def no_adjacent_def

lemma row_printable: "printable [] (row_dom env sel r)"
  by (simp add: row_dom_def printable_defs)

lemma details_printable: "list_all (printable []) (details_dom env r)"
  by (simp add: details_dom_def detail_dom_def printable_defs)

text \<open>What the page gets of an entry, and the entry with its texts as they arrive (the headers apart).\<close>

definition sent_entry :: "(int option \<Rightarrow> string) \<Rightarrow> inspect_entry \<Rightarrow> json" where
  "sent_entry t e = json_utf8 (entry_json t e)"

definition utf8_entry :: "inspect_entry \<Rightarrow> inspect_entry" where
  "utf8_entry e = e\<lparr>en_id := utf8_text (en_id e), en_tunnel_id := utf8_text (en_tunnel_id e),
     en_method := utf8_text (en_method e), en_path := utf8_text (en_path e), en_host := utf8_text (en_host e)\<rparr>"

lemma utf8_text_Nil [simp]: "utf8_text s = [] \<longleftrightarrow> s = []"
proof (cases s)
  case (Cons c u)
  have "encode_rune r \<noteq> []" for r by (simp add: encode_rune_def)
  then show ?thesis using Cons by (auto split: option.splits)
qed simp

lemma utf8_entry_values [simp]:
  "en_id (utf8_entry e) = utf8_text (en_id e)" "en_tunnel_id (utf8_entry e) = utf8_text (en_tunnel_id e)"
  "en_method (utf8_entry e) = utf8_text (en_method e)" "en_path (utf8_entry e) = utf8_text (en_path e)"
  "en_host (utf8_entry e) = utf8_text (en_host e)" "en_status_code (utf8_entry e) = en_status_code e"
  "en_bytes_in (utf8_entry e) = en_bytes_in e" "en_bytes_out (utf8_entry e) = en_bytes_out e"
  "en_started_at (utf8_entry e) = en_started_at e" "en_duration_ms (utf8_entry e) = en_duration_ms e"
  "en_request_headers (utf8_entry e) = en_request_headers e"
  by (simp_all add: utf8_entry_def)

lemma entry_integral: "integral (entry_json t e)"
  by (simp add: entry_json_def omit_empty_def header_json_def list_all_iff)

lemma requests_read_sent:
  "requests_read t es = Some (JObj [(''requests'', JArr (map (sent_entry t) es))])"
proof -
  have "integral (requests_json t es)"
    using entry_integral by (auto simp: requests_json_def list_all_iff)
  moreover have "utf8_text ''requests'' = ''requests''" by (rule utf8_text_ascii) simp
  ultimately show ?thesis
    by (simp add: requests_read_def requests_body_def json_unmarshal_sent)
      (simp add: requests_json_def sent_entry_def comp_def)
qed

text \<open>The properties of an entry of the API.\<close>

lemma property_names:
  "k \<in> set [''id'', ''started_at'', ''duration_ms'', ''tunnel_id'', ''method'', ''path'', ''host'', ''status_code'', ''bytes_in'',
     ''bytes_out'', ''request_headers'', ''response_headers''] \<Longrightarrow> utf8_text k = k"
  by (rule utf8_text_ascii) auto

lemma entry_props:
  "js_prop (sent_entry t e) ''id'' = Some (JStr (utf8_text (en_id e)))"
  "js_prop (sent_entry t e) ''started_at'' = Some (JStr (utf8_text (t (en_started_at e))))"
  "js_prop (sent_entry t e) ''duration_ms'' = Some (JInt (en_duration_ms e))"
  "js_prop (sent_entry t e) ''tunnel_id'' = (if en_tunnel_id e = [] then None else Some (JStr (utf8_text (en_tunnel_id e))))"
  "js_prop (sent_entry t e) ''method'' = Some (JStr (utf8_text (en_method e)))"
  "js_prop (sent_entry t e) ''path'' = Some (JStr (utf8_text (en_path e)))"
  "js_prop (sent_entry t e) ''host'' = (if en_host e = [] then None else Some (JStr (utf8_text (en_host e))))"
  "js_prop (sent_entry t e) ''status_code'' = (if en_status_code e = 0 then None else Some (JInt (en_status_code e)))"
  "js_prop (sent_entry t e) ''bytes_in'' = (if en_bytes_in e = 0 then None else Some (JInt (en_bytes_in e)))"
  "js_prop (sent_entry t e) ''bytes_out'' = (if en_bytes_out e = 0 then None else Some (JInt (en_bytes_out e)))"
  "js_prop (sent_entry t e) ''request_headers'' =
     (if dom (en_request_headers e) = {} then None else Some (json_utf8 (header_json (en_request_headers e))))"
  using property_names
  by (simp_all add: js_prop_def sent_entry_def entry_json_def omit_empty_def map_add_def del: utf8_text.simps)

text \<open>A number that is no small integer is not printed as zero.\<close>

definition good_numbers :: "(json \<Rightarrow> string) \<Rightarrow> bool" where
  "good_numbers num \<longleftrightarrow> (\<forall>i. \<not> safe_integer i \<longrightarrow> num (JInt i) \<noteq> ''0'')"

definition int_text :: "page_env \<Rightarrow> int \<Rightarrow> string" where
  "int_text env i = js_String (pe_number env) (JInt i)"

text \<open>The order of the locale arranges the names it is given.\<close>

definition good_env :: "page_env \<Rightarrow> bool" where
  "good_env env \<longleftrightarrow> good_numbers (pe_number env) \<and> (\<forall>ks. mset (pe_collate env ks) = mset ks)"

lemma truthy_JInt: "good_numbers num \<Longrightarrow> truthy num (Some (JInt i)) \<longleftrightarrow> i \<noteq> 0"
proof -
  have "safe_integer 0" by (simp add: safe_integer_def)
  then show "good_numbers num \<Longrightarrow> ?thesis"
    by (cases "safe_integer i") (auto simp: truthy_def good_numbers_def Itoa_zero)
qed

definition shown_text :: "string \<Rightarrow> dom list" where
  "shown_text s = text_nodes (page_text s)"

definition optional :: "bool \<Rightarrow> string \<Rightarrow> string" where
  "optional b s = (if b then s else [])"

text \<open>Of several names that arrive as the same one the last is what the page has.\<close>

definition arrived_values :: "header \<Rightarrow> string \<Rightarrow> string list" where
  "arrived_values h k = the (h (List.last (filter (\<lambda>k'. utf8_text k' = k) (sorted_list_of_set (dom h)))))"

definition header_text :: "page_env \<Rightarrow> header \<Rightarrow> string" where
  "header_text env h =
     Join_char CHR 0x0A (concat (map (\<lambda>k. map (\<lambda>v. k @ '': '' @ utf8_text v) (arrived_values h k))
       (pe_collate env (remdups (map utf8_text (sorted_list_of_set (dom h)))))))"

definition row_shown :: "page_env \<Rightarrow> (int option \<Rightarrow> string) \<Rightarrow> js \<Rightarrow> inspect_entry \<Rightarrow> dom" where
  "row_shown env t sel e =
     Element ''div'' [(''class'', ''row '' @ optional (sel = Some (JStr (en_id e))) ''selected''),
         (''data-id'', page_attr (en_id e))]
       [Element ''div'' [(''class'', ''method'')] (shown_text (en_method e)),
        Element ''div'' [(''class'', ''pathwrap'')]
          [Element ''div'' [(''class'', ''path'')] (shown_text (en_path e)),
           Element ''div'' [(''class'', ''meta'')]
             (shown_text (en_host e @ bullet
                @ optional (t (en_started_at e) \<noteq> []) (pe_time env (t (en_started_at e)))))],
        Element ''div'' [(''class'', ''status''),
            (''style'', ''background:'' @ statusColor (pe_number env) (Some (JInt (en_status_code e))) @ '';'')]
          (shown_text (optional (en_status_code e \<noteq> 0) (int_text env (en_status_code e))))]"

definition details_shown :: "page_env \<Rightarrow> (int option \<Rightarrow> string) \<Rightarrow> inspect_entry \<Rightarrow> dom list" where
  "details_shown env t e =
     (let url = optional (en_host e \<noteq> []) (''https://'' @ en_host e) @ en_path e;
          line = (\<lambda>k v. [Element ''div'' [(''class'', ''k'')] [TextNode k], Element ''div'' [(''class'', ''v'')] v])
      in
        [Element ''h2'' [] [TextNode ''Request''],
         Element ''div'' [(''class'', ''kv'')]
           (line ''Method'' (shown_text (en_method e))
            @ line ''Status'' (shown_text (optional (en_status_code e \<noteq> 0) (int_text env (en_status_code e))))
            @ line ''URL'' [Element ''a'' [(''href'', page_attr url), (''target'', ''_blank''), (''rel'', ''noreferrer'')]
                (shown_text url)]
            @ line ''Tunnel'' (shown_text (en_tunnel_id e))
            @ line ''Started'' (shown_text
                (optional (t (en_started_at e) \<noteq> []) (pe_time env (t (en_started_at e)))))
            @ line ''Duration'' (shown_text
                (optional (en_duration_ms e \<noteq> 0) (int_text env (en_duration_ms e) @ ''ms'')))
            @ line ''Bytes'' (shown_text
                (int_text env (en_bytes_in e) @ '' in / '' @ int_text env (en_bytes_out e) @ '' out''))),
         Element ''div'' [(''class'', ''actions'')]
           [Element ''button'' [(''id'', ''replay'')] [TextNode ''Replay''],
            Element ''div'' [(''class'', ''hint''), (''id'', ''replayResult'')] []],
         Element ''pre'' [] (text_nodes (first_text ''pre'' (newlines (header_text env (en_request_headers e)))))])"

lemma or_empty_values:
  "or_empty env (Some (JStr s)) = s" "or_empty env None = []"
  "good_numbers (pe_number env) \<Longrightarrow> or_empty env (Some (JInt i)) = optional (i \<noteq> 0) (int_text env i)"
  using truthy_JInt [of "pe_number env" i]
  by (simp_all add: or_empty_def js_or_def optional_def int_text_def del: js_String.simps(3))

lemma map_of_last:
  "map_of (rev (map (\<lambda>k. (u k, f k)) ks)) k
    = (if k \<in> u ` set ks then Some (f (List.last (filter (\<lambda>k'. u k' = k) ks))) else None)"
  by (induction ks rule: rev_induct) auto

lemma toHeadersText_json:
  assumes "good_env env"
  shows "toHeadersText env (Some (json_utf8 (header_json h))) = header_text env h"
proof -
  let ?ks = "sorted_list_of_set (dom h)"
  let ?kvs = "map (\<lambda>k. (utf8_text k, JArr (map JStr (map utf8_text (the (h k)))))) ?ks"
  have json: "json_utf8 (header_json h) = JObj ?kvs" by (simp add: header_json_def comp_def)
  have names: "map fst ?kvs = map utf8_text ?ks" by simp
  have keys: "set (pe_collate env (remdups (map utf8_text ?ks))) = utf8_text ` set ?ks"
    using assms by (metis good_env_def mset_eq_setD set_remdups list.set_map)
  have "map (\<lambda>k. header_lines (pe_number env) k (map_of (rev ?kvs) k)) (pe_collate env (remdups (map utf8_text ?ks)))
      = map (\<lambda>k. map (\<lambda>v. k @ '': '' @ utf8_text v) (arrived_values h k)) (pe_collate env (remdups (map utf8_text ?ks)))"
    by (rule map_cong [OF refl]) (simp add: map_of_last keys header_lines_def arrived_values_def del: set_sorted_list_of_set)
  then show ?thesis
    unfolding toHeadersText_def json header_text_def by (simp only: option.case json.case names)
qed

lemma toHeadersText_entry:
  "good_env env \<Longrightarrow> toHeadersText env (js_prop (sent_entry t e) ''request_headers'') = header_text env (en_request_headers (utf8_entry e))"
proof -
  assume "good_env env"
  then have "pe_collate env [] = []" by (metis good_env_def mset_zero_iff)
  then show ?thesis
    using toHeadersText_json [OF \<open>good_env env\<close>]
    by (auto simp: entry_props toHeadersText_def header_text_def)
qed

lemma plain_attr:
  "page_attr (''background:'' @ statusColor num v @ '';'') = ''background:'' @ statusColor num v @ '';''"
  "page_attr (''row '' @ (if b then ''selected'' else [])) = ''row '' @ optional b ''selected''"
  by (auto simp: statusColor_def page_attr_def replace_nul_def optional_def split: option.split json.split)

lemma statusColor_json:
  "statusColor num (js_prop (sent_entry t e) ''status_code'') = statusColor num (Some (JInt (en_status_code (utf8_entry e))))"
  by (simp add: entry_props statusColor_def truthy_def safe_integer_def Itoa_zero)

lemma js_identical_str [simp]:
  "js_identical (Some (JStr s)) sel \<longleftrightarrow> sel = Some (JStr s)"
  by (auto simp: js_identical_def)

lemmas shown_simps = shown_text_def text_nodes_def page_text_def page_attr_def replace_nul_def drop_nul_def first_text_def

lemma shown_child: "shown (Element n ats [TextNode s]) =
    [Element n (map (\<lambda>(k, v). (k, page_attr v)) ats) (if n = ''pre'' then text_nodes (first_text n (newlines s)) else shown_text s)]"
  by (simp add: shown_text_def page_text_def first_text_def)

lemma shown_elements:
  "list_all (\<lambda>c. \<not> is_text c) ch \<Longrightarrow>
     shown (Element n ats ch) = [Element n (map (\<lambda>(k, v). (k, page_attr v)) ats) (concat (map shown ch))]"
proof (cases ch)
  case (Cons c cs)
  moreover assume "list_all (\<lambda>c. \<not> is_text c) ch"
  ultimately have "\<not> is_text c" by simp
  then show ?thesis using Cons by (cases c) simp_all
qed simp

lemma selected_json: "js_identical (js_prop (sent_entry t e) ''id'') sel \<longleftrightarrow> sel = Some (JStr (en_id (utf8_entry e)))"
  by (simp add: entry_props)

lemma row_texts:
  assumes "good_env env"
  shows "or_empty env (js_prop (sent_entry t e) ''method'') = en_method (utf8_entry e)"
    "or_empty env (js_prop (sent_entry t e) ''path'') = en_path (utf8_entry e)"
    "or_empty env (js_prop (sent_entry t e) ''host'') = en_host (utf8_entry e)"
    "or_empty env (js_prop (sent_entry t e) ''tunnel_id'') = en_tunnel_id (utf8_entry e)"
    "or_empty env (js_prop (sent_entry t e) ''status_code'') = optional (en_status_code (utf8_entry e) \<noteq> 0) (int_text env (en_status_code (utf8_entry e)))"
    "js_text (pe_number env) (js_prop (sent_entry t e) ''id'') = en_id (utf8_entry e)"
    "started_text env (sent_entry t e) = optional (utf8_text (t (en_started_at (utf8_entry e))) \<noteq> []) (pe_time env (utf8_text (t (en_started_at (utf8_entry e)))))"
    "entry_url env (sent_entry t e) = optional (en_host (utf8_entry e) \<noteq> []) (''https://'' @ en_host (utf8_entry e)) @ en_path (utf8_entry e)"
    "duration_text env (sent_entry t e) = optional (en_duration_ms (utf8_entry e) \<noteq> 0) (int_text env (en_duration_ms (utf8_entry e)) @ ''ms'')"
    "bytes_text env (sent_entry t e) = int_text env (en_bytes_in (utf8_entry e)) @ '' in / '' @ int_text env (en_bytes_out (utf8_entry e)) @ '' out''"
proof -
  have num: "good_numbers (pe_number env)" using assms by (simp add: good_env_def)
  note tr = truthy_JInt [OF num]
  show "or_empty env (js_prop (sent_entry t e) ''method'') = en_method (utf8_entry e)"
    "or_empty env (js_prop (sent_entry t e) ''path'') = en_path (utf8_entry e)"
    "or_empty env (js_prop (sent_entry t e) ''host'') = en_host (utf8_entry e)"
    "or_empty env (js_prop (sent_entry t e) ''tunnel_id'') = en_tunnel_id (utf8_entry e)"
    "js_text (pe_number env) (js_prop (sent_entry t e) ''id'') = en_id (utf8_entry e)"
    "or_empty env (js_prop (sent_entry t e) ''status_code'') = optional (en_status_code (utf8_entry e) \<noteq> 0) (int_text env (en_status_code (utf8_entry e)))"
    using num by (simp_all add: entry_props or_empty_values optional_def)
  show "started_text env (sent_entry t e) = optional (utf8_text (t (en_started_at (utf8_entry e))) \<noteq> []) (pe_time env (utf8_text (t (en_started_at (utf8_entry e)))))"
    by (simp add: started_text_def entry_props formatStartedAt_def optional_def)
  show "entry_url env (sent_entry t e) = optional (en_host (utf8_entry e) \<noteq> []) (''https://'' @ en_host (utf8_entry e)) @ en_path (utf8_entry e)"
    by (simp add: entry_url_def entry_props or_empty_values optional_def)
  show "duration_text env (sent_entry t e) = optional (en_duration_ms (utf8_entry e) \<noteq> 0) (int_text env (en_duration_ms (utf8_entry e)) @ ''ms'')"
    by (simp add: duration_text_def entry_props tr optional_def int_text_def del: js_String.simps(3))
  show "bytes_text env (sent_entry t e) = int_text env (en_bytes_in (utf8_entry e)) @ '' in / '' @ int_text env (en_bytes_out (utf8_entry e)) @ '' out''"
    by (simp add: bytes_text_def entry_props js_or_def tr int_text_def del: js_String.simps(3))
qed

lemma plain_literals:
  "list_all (\<lambda>c. c \<noteq> CHR 0x0D \<and> c \<noteq> CHR 0x00) s \<Longrightarrow> page_attr s = s"
  "list_all (\<lambda>c. c \<noteq> CHR 0x0D \<and> c \<noteq> CHR 0x00) s \<Longrightarrow> shown_text s = text_nodes s"
proof -
  have n: "list_all (\<lambda>c. c \<noteq> CHR 0x0D \<and> c \<noteq> CHR 0x00) s \<Longrightarrow> newlines s = s" by (induction s) auto
  then show "list_all (\<lambda>c. c \<noteq> CHR 0x0D \<and> c \<noteq> CHR 0x00) s \<Longrightarrow> page_attr s = s"
    by (simp add: page_attr_def replace_nul_def list_all_iff map_idI cong: map_cong)
  show "list_all (\<lambda>c. c \<noteq> CHR 0x0D \<and> c \<noteq> CHR 0x00) s \<Longrightarrow> shown_text s = text_nodes s"
    using n by (simp add: shown_text_def page_text_def drop_nul_def list_all_iff)
qed

lemma row_shape:
  "shown (Element ''div'' [(''class'', c), (''data-id'', i)]
       [Element ''div'' [(''class'', ''method'')] [TextNode m],
        Element ''div'' [(''class'', ''pathwrap'')]
          [Element ''div'' [(''class'', ''path'')] [TextNode p], Element ''div'' [(''class'', ''meta'')] [TextNode x]],
        Element ''div'' [(''class'', ''status''), (''style'', s)] [TextNode st]])
   = [Element ''div'' [(''class'', page_attr c), (''data-id'', page_attr i)]
       [Element ''div'' [(''class'', ''method'')] (shown_text m),
        Element ''div'' [(''class'', ''pathwrap'')]
          [Element ''div'' [(''class'', ''path'')] (shown_text p), Element ''div'' [(''class'', ''meta'')] (shown_text x)],
        Element ''div'' [(''class'', ''status''), (''style'', page_attr s)] (shown_text st)]]"
  by (simp add: shown_child shown_elements plain_literals del: shown.simps)

lemma row_dom_shown:
  assumes "good_env env"
  shows "shown (row_dom env sel (sent_entry t e)) = [row_shown env (\<lambda>x. utf8_text (t x)) sel (utf8_entry e)]"
  unfolding row_dom_def row_texts [OF assms] selected_json statusColor_json row_shape plain_attr row_shown_def by (rule refl)

lemma details_shape:
  "concat (map shown
     [Element ''h2'' [] [TextNode ''Request''],
      Element ''div'' [(''class'', ''kv'')]
        (detail_dom ''Method'' [TextNode m] @ detail_dom ''Status'' [TextNode st]
         @ detail_dom ''URL'' [Element ''a'' [(''href'', u), (''target'', ''_blank''), (''rel'', ''noreferrer'')] [TextNode u]]
         @ detail_dom ''Tunnel'' [TextNode i] @ detail_dom ''Started'' [TextNode s]
         @ detail_dom ''Duration'' [TextNode d] @ detail_dom ''Bytes'' [TextNode b]),
      Element ''div'' [(''class'', ''actions'')]
        [Element ''button'' [(''id'', ''replay'')] [TextNode ''Replay''],
         Element ''div'' [(''class'', ''hint''), (''id'', ''replayResult'')] []],
      Element ''pre'' [] [TextNode h]])
   = (let line = (\<lambda>k v. [Element ''div'' [(''class'', ''k'')] [TextNode k], Element ''div'' [(''class'', ''v'')] v]) in
      [Element ''h2'' [] [TextNode ''Request''],
         Element ''div'' [(''class'', ''kv'')]
           (line ''Method'' (shown_text m) @ line ''Status'' (shown_text st)
            @ line ''URL'' [Element ''a'' [(''href'', page_attr u), (''target'', ''_blank''), (''rel'', ''noreferrer'')]
                (shown_text u)]
            @ line ''Tunnel'' (shown_text i) @ line ''Started'' (shown_text s)
            @ line ''Duration'' (shown_text d) @ line ''Bytes'' (shown_text b)),
         Element ''div'' [(''class'', ''actions'')]
           [Element ''button'' [(''id'', ''replay'')] [TextNode ''Replay''],
            Element ''div'' [(''class'', ''hint''), (''id'', ''replayResult'')] []],
         Element ''pre'' [] (text_nodes (first_text ''pre'' (newlines h)))])"
proof -
  have "concat (map shown (detail_dom k [TextNode v]))
      = [Element ''div'' [(''class'', ''k'')] (shown_text k), Element ''div'' [(''class'', ''v'')] (shown_text v)]" for k v
    by (simp add: detail_dom_def shown_child plain_literals del: shown.simps)
  moreover have "concat (map shown (detail_dom k [Element ''a'' as [TextNode v]]))
      = [Element ''div'' [(''class'', ''k'')] (shown_text k), Element ''div'' [(''class'', ''v'')]
          [Element ''a'' (map (\<lambda>(k, v). (k, page_attr v)) as) (shown_text v)]]" for k as v
    by (simp add: detail_dom_def shown_child shown_elements plain_literals del: shown.simps)
  ultimately show ?thesis
    by (simp add: shown_child shown_elements plain_literals text_nodes_def Let_def detail_dom_def del: shown.simps)
qed

lemma details_dom_shown:
  assumes "good_env env"
  shows "concat (map shown (details_dom env (sent_entry t e))) = details_shown env (\<lambda>x. utf8_text (t x)) (utf8_entry e)"
  unfolding details_dom_def row_texts [OF assms] toHeadersText_entry [OF assms] details_shape details_shown_def Let_def
  by (rule refl)

subsection \<open>The page shows what the store holds\<close>

lemma requests_of_sent: "requests_read t es = Some body \<Longrightarrow> requests_of env body = map (sent_entry t) es"
  by (auto simp: requests_read_sent requests_of_def js_prop_def)

lemma find_selected:
  "find (\<lambda>r. js_identical (js_prop r ''id'') sel) (map (sent_entry t) es)
    = map_option (sent_entry t) (find (\<lambda>e. sel = Some (JStr (utf8_text (en_id e)))) es)"
  by (induction es) (simp_all add: selected_json)

lemma select_entry_found:
  assumes "es \<noteq> []"
  shows "\<exists>e. find (\<lambda>e. select_entry env (map (sent_entry t) es) sel = Some (JStr (utf8_text (en_id e)))) es = Some e"
proof -
  have "js_prop (hd (map (sent_entry t) es)) ''id'' = Some (JStr (utf8_text (en_id (hd es))))"
    using assms by (simp add: hd_map entry_props)
  moreover have "find (\<lambda>e. sel = Some (JStr (utf8_text (en_id e)))) es \<noteq> None
      \<or> select_entry env (map (sent_entry t) es) sel = Some (JStr (utf8_text (en_id (hd es))))"
    using assms calculation by (auto simp: select_entry_def Let_def find_selected)
  moreover have "select_entry env (map (sent_entry t) es) sel \<in> {sel, Some (JStr (utf8_text (en_id (hd es))))}"
    using assms calculation(1) by (auto simp: select_entry_def Let_def)
  ultimately show ?thesis
    using assms by (fastforce simp: find_None_iff not_None_eq [symmetric] simp del: not_None_eq dest: hd_in_set)
qed

text \<open>C31: The inspector's page shows what the store holds, as text. After a refresh that is answered with the
  body the API writes for the store's entries (encoded as JSON and read by the page), whatever they hold, the markup of
  the list reads as one row for each entry, newest first, with the entry's texts in it and no other elements; an
  entry is selected, and the card reads as its details, with a link to its URL. The texts are the entry's as
  they arrive: every byte that is no part of a UTF-8 rune, as visitors can send in a query or a header, reads as
  U+FFFD, and a text in UTF-8 is unchanged (\<open>utf8_text_valid\<close>). The browser's own formats are assumed to permute
  the names they order and to print no large number as zero.\<close>

theorem inspector_page_shows_store:
  assumes "good_env env" and "requests_read t (inspect_List s) = Some body"
  shows "(let p' = refresh env (Some body) p; es = inspect_List s; time = (\<lambda>x. utf8_text (t x)) in
      read_html (ip_list p') = Some (if es = []
        then [Element ''div'' [(''class'', ''row''), (''style'', ''cursor:default;grid-template-columns:1fr;'')]
               [Element ''div'' [(''class'', ''hint'')]
                 [TextNode ''No requests yet. Make some traffic through your tunnel.'']]]
        else map (\<lambda>e. row_shown env time (ip_selected p') (utf8_entry e)) es)
      \<and> (es \<noteq> [] \<longrightarrow> (\<exists>e \<in> set es. ip_selected p' = Some (JStr (utf8_text (en_id e)))
            \<and> read_html (ip_card p') = Some (details_shown env time (utf8_entry e)))))
    \<and> (\<exists>body. requests_read t (inspect_List s) = Some body)"
proof -
  define es where "es = inspect_List s"
  define sel where "sel = select_entry env (map (sent_entry t) es) (ip_selected p)"
  define p' where "p' = refresh env (Some body) p"
  note rs = requests_of_sent [OF assms(2) [folded es_def], of env]
  have p': "ip_selected p' = sel" "ip_list p' = renderList env (map (sent_entry t) es) sel"
    "ip_card p' = renderDetails env (map (sent_entry t) es) sel"
    by (simp_all add: p'_def refresh_def render_def rs sel_def Let_def)
  show ?thesis
  proof (cases "es = []")
    case True
    let ?d = "Element ''div'' [(''class'', ''row''), (''style'', ''cursor:default;grid-template-columns:1fr;'')]
      [Element ''div'' [(''class'', ''hint'')] [TextNode ''No requests yet. Make some traffic through your tunnel.'']]"
    have "renderList env [] sel = concat (map html_print [?d])"
      by (simp add: renderList_def escape_literals)
    moreover have "read_html (concat (map html_print [?d])) = Some (concat (map shown [?d]))"
      by (rule read_elements) (simp_all add: printable_defs)
    moreover have "concat (map shown [?d]) = [?d]"
      by (simp add: shown_elements shown_child plain_literals text_nodes_def del: shown.simps)
    ultimately show ?thesis
      using True p'(2) assms(2) unfolding Let_def es_def [symmetric] p'_def [symmetric] by simp
  next
    case False
    have "\<not> is_text (row_dom env sel r)" for r
      by (simp add: row_dom_def)
    then have list: "read_html (ip_list p') = Some (map (\<lambda>e. row_shown env (\<lambda>x. utf8_text (t x)) sel (utf8_entry e)) es)"
      using False read_elements [of "map (row_dom env sel) (map (sent_entry t) es)"]
      by (simp add: p' list_html_print row_printable list_all_iff row_dom_shown [OF assms(1)] comp_def concat_map_singleton)
    obtain e where e: "find (\<lambda>e. sel = Some (JStr (utf8_text (en_id e)))) es = Some e"
      using select_entry_found [OF False, of env t "ip_selected p"] unfolding sel_def by blast
    have "list_all (\<lambda>d. \<not> is_text d) (details_dom env (sent_entry t e))"
      by (simp add: details_dom_def)
    then have "read_html (ip_card p') = Some (details_shown env (\<lambda>x. utf8_text (t x)) (utf8_entry e))"
      using read_elements [OF details_printable] details_html_print [of sel "map (sent_entry t) es" "sent_entry t e" env]
      by (simp add: p' find_selected e details_dom_shown [OF assms(1)])
    moreover have "e \<in> set es" "sel = Some (JStr (utf8_text (en_id e)))" using e by (auto simp: find_Some_iff)
    ultimately show ?thesis
      using list False p'(1) assms(2) unfolding Let_def es_def [symmetric] p'_def [symmetric] by auto
  qed
qed

definition demo_page_env :: page_env where
  "demo_page_env = \<lparr>pe_number = (\<lambda>_. ''1e21''), pe_collate = (\<lambda>ks. ks), pe_time = (\<lambda>s. s)\<rparr>"

theorem inspector_page_shows_store_witness:
  "(let s = add_all [(1, demo_exchange ''/<script>'')] (NewStore 5); body = requests_read (\<lambda>_. ''now'') (inspect_List s);
        p' = refresh demo_page_env body fresh_page in
      (\<exists>row. read_html (ip_list p') = Some [row])
      \<and> (\<exists>e. en_id e = ''1'' \<and> read_html (ip_card p') = Some (details_shown demo_page_env (\<lambda>_. utf8_text ''now'') (utf8_entry e))))"
proof -
  let ?s = "add_all [(1, demo_exchange ''/<script>'')] (NewStore 5)"
  let ?e = "label_entry 1 1 (demo_exchange ''/<script>'')"
  have env: "good_env demo_page_env" by (simp add: good_env_def good_numbers_def demo_page_env_def)
  obtain body where body: "requests_read (\<lambda>_. ''now'') (inspect_List ?s) = Some body"
    using requests_read_sent by blast
  have es: "inspect_List ?s = [?e]"
    by (simp add: add_all_store capacity_def history_def inspect_List_def)
  have "en_id ?e = ''1''"
    by (simp add: entry_id) (subst dec_digits.simps, simp add: char_of_numeral bit_one_zero)
  with es body inspector_page_shows_store [OF env body, of fresh_page] show ?thesis by (auto simp: Let_def)
qed

subsection \<open>Replay\<close>

text \<open>A click on the button asks the API to replay the entry the card shows: the path is the entry's.\<close>

definition page_post :: "string \<Rightarrow> http_request" where
  "page_post path = \<lparr>rq_method = ''POST'', rq_host = ''127.0.0.1:4040'', rq_path = path, rq_escaped_path = path,
     rq_raw_query = [], rq_header = no_header, rq_remote_addr = ''127.0.0.1:5000'', rq_tls = False\<rparr>"

lemma digits_plain: "list_all is_digit s \<Longrightarrow> list_all uri_plain s"
  by (auto simp: list_all_iff uri_plain_def query_plain_def)

lemma replay_path_segments: "''/api/requests/'' @ i @ ''/replay'' = path_of [''api'', ''requests'', i, ''replay'']"
  by (simp add: path_of_def)

lemma replay_routed:
  assumes "list_all is_digit i" "i \<noteq> []"
  shows "mux_handler inspect_routes (page_post (''/api/requests/'' @ i @ ''/replay'')) = MuxHandler ReplayRoute"
proof -
  let ?p = "path_of [''api'', ''requests'', i, ''replay'']"
  have slash: "CHR ''/'' \<notin> set i" and "plain_segment i"
    using assms by (auto simp: list_all_iff is_digit_def plain_segment_def)
  then have segs: "list_all plain_segment [''api'', ''requests'', i, ''replay'']" by (simp add: plain_segment_def)
  note path = path_of_segments [OF _ segs, simplified]
  have match: "mux_match inspect_routes ?p = Some (Subtree [''api'', ''requests''], ReplayRoute)"
    "mux_match inspect_routes (?p @ ''/'') = Some (Subtree [''api'', ''requests''], ReplayRoute)"
    using assms(2) unfolding mux_match_def path inspect_routes_def by (simp_all add: path_of_def)
  have "length (filter (\<lambda>c. c = CHR ''/'') (?p @ ''/'')) = 5"
    using slash by (auto simp: path_of_def filter_empty_conv)
  then have "\<not> slash_redirect inspect_routes ?p"
    by (simp add: slash_redirect_def match del: filter_append)
  then show ?thesis
    unfolding replay_path_segments by (simp add: mux_handler_def page_post_def Let_def path match)
qed

text \<open>C32: The button replays the entry of the card. When a click on it reaches the store while it still holds
  the entry, the API runs the replay of that very entry, whatever number the entry has.\<close>

theorem replay_button_replays_entry:
  assumes "int64_range m" and "e \<in> set (inspect_List (add_all xs (NewStore m)))"
  shows "inspect_Handler (add_all xs (NewStore m)) (Some run) (page_post (replay_path env (sent_entry t e)))
    = Some (case run e of Inl err \<Rightarrow> ReplayError err | Inr status \<Rightarrow> Replayed status, Some e)"
proof -
  let ?s = "add_all xs (NewStore m)"
  have es: "is_entries ?s = drop (length xs - capacity m) (history xs)" by (simp add: add_all_store)
  have "capacity m < 2 ^ 64" using assms(1) by (auto simp: capacity_def int64_range_def)
  then have get: "inspect_Get ?s (en_id e) = Some e"
    using assms(2) find_distinct [OF kept_ids_distinct [of "capacity m" xs], of "en_id e" e]
    by (simp add: inspect_Get_def inspect_List_def es)
  have "e \<in> set (history xs)"
    using assms(2) by (auto simp: inspect_List_def es dest: in_set_dropD)
  then obtain n where "en_id e = dec_digits n" by (auto simp: history_def entry_id)
  then have i: "list_all is_digit (en_id e)" "en_id e \<noteq> []"
    using dec_digits_props [of n] by simp_all
  have "utf8_text (en_id e) = en_id e"
    using i(1) by (intro utf8_text_ascii) (auto simp: list_all_iff is_digit_def)
  then have path: "replay_path env (sent_entry t e) = ''/api/requests/'' @ en_id e @ ''/replay''"
    by (simp add: replay_path_def entry_props encodeURIComponent_plain [OF digits_plain [OF i(1)]])
  have "CHR ''/'' \<notin> set (en_id e)" using i(1) by (auto simp: list_all_iff is_digit_def)
  then have "Split_char CHR ''/'' (TrimPrefix (''/api/requests/'' @ en_id e @ ''/replay'') ''/api/requests/'') = [en_id e, ''replay'']"
    using Split_char_append [of "CHR ''/''" "en_id e" "''replay''"] unfolding TrimPrefix_append by simp
  then have "replay_request ?s (Some run) (page_post (''/api/requests/'' @ en_id e @ ''/replay''))
      = (case run e of Inl err \<Rightarrow> ReplayError err | Inr status \<Rightarrow> Replayed status, Some e)"
    using i(2) get by (simp add: replay_request_def page_post_def split: sum.split)
  then show ?thesis
    using replay_routed [OF i] by (simp add: path inspect_Handler_def)
qed

theorem replay_button_replays_entry_witness:
  "\<exists>e. inspect_Handler (add_all [(1, demo_exchange ''/a'')] (NewStore 5)) (Some (\<lambda>e. Inr 200))
      (page_post (replay_path demo_page_env (sent_entry (\<lambda>_. ''now'') e))) = Some (Replayed 200, Some e)"
proof -
  have "inspect_List (add_all [(1, demo_exchange ''/a'')] (NewStore 5)) = [label_entry 1 1 (demo_exchange ''/a'')]"
    by (simp add: add_all_store capacity_def history_def inspect_List_def)
  moreover have "int64_range 5" by (simp add: int64_range_def)
  ultimately show ?thesis
    using replay_button_replays_entry [of 5 "label_entry 1 1 (demo_exchange ''/a'')" "[(1, demo_exchange ''/a'')]"
        "\<lambda>e. Inr 200"] by auto
qed

text \<open>The result of a replay is written to the card its button was on. The page fills the card again every
  second, and when it does so before the replay is answered the result is not shown, the button of the
  new card is enabled and a second replay of the same entry can be started.\<close>

theorem replay_result_lost:
  assumes "click_replay p = (p1, n)"
  shows "replay_done env n e (refresh env reply p1) = refresh env reply p1
    \<and> ip_result (refresh env reply p1) = [] \<and> \<not> ip_disabled (refresh env reply p1)"
  using assms by (auto simp: click_replay_def replay_done_def refresh_def render_def Let_def split: option.split)

theorem replay_result_lost_witness:
  "ip_result (replay_done demo_page_env 0 (ReplayAnswer 200 None) (refresh demo_page_env None (fst (click_replay fresh_page)))) = []"
  using replay_result_lost [of fresh_page "fst (click_replay fresh_page)" 0 demo_page_env "ReplayAnswer 200 None" None]
  by (simp add: click_replay_def fresh_page_def)

end
