(* ===== verification/Pages.thy ===== *)
theory Pages
  imports AdminConsole InspectorPage
begin

text \<open>
  The pages embedded in the programs as trees of elements: the landing page (\<open>landing.go\<close>), the
  dashboard (\<open>AdminScript\<close>) and the body of the inspector's page (\<open>inspect/http.go\<close>), and what
  their references lead to on the server. Style sheets are not modelled. The white space that only lays out the
  lines of the source is left out, and a run of white space within a text is one blank, as it is shown.
\<close>

subsection \<open>The landing page\<close>

definition landing_head :: dom where
  "landing_head =
   el ''head'' []
    [el ''meta'' [(''charset'', ''UTF-8'')] [],
    el ''meta'' [(''name'', ''viewport''), (''content'', ''width=device-width, initial-scale=1.0'')] [],
    leaf ''title'' [] ''Eosrift - Self-Hosted Tunnel Service'',
    el ''link'' [(''rel'', ''stylesheet''), (''href'', ''style.css'')] [],
    el ''link'' [(''rel'', ''preconnect''), (''href'', ''https://fonts.googleapis.com'')] [],
    el ''link'' [(''rel'', ''preconnect''), (''href'', ''https://fonts.gstatic.com''), (''crossorigin'', [])] [],
    el ''link'' [(''href'', ''https://fonts.googleapis.com/css2?family=Inter:wght@400;500;600;700&family=JetBrains+Mono:wght@400;500&display=swap''), (''rel'', ''stylesheet'')] []]"

definition landing_header :: dom where
  "landing_header =
   el ''header'' [(''class'', ''header'')]
    [el ''div'' [(''class'', ''container'')]
     [el ''div'' [(''class'', ''logo'')]
      [leaf ''span'' [(''class'', ''logo-icon'')] [CHR 0xE2, CHR 0x97, CHR 0x86],
      leaf ''span'' [(''class'', ''logo-text'')] ''Eosrift''],
     el ''nav'' [(''class'', ''nav'')]
      [leaf ''a'' [(''href'', ''#features'')] ''Features'',
      leaf ''a'' [(''href'', ''#quickstart'')] ''Quick Start'',
      leaf ''a'' [(''href'', ''/docs/'')] ''Docs'',
      leaf ''a'' [(''href'', ''https://github.com/lambadalambda/eosrift''), (''class'', ''nav-github'')] ''GitHub'']]]"

definition landing_hero :: dom where
  "landing_hero =
   el ''section'' [(''class'', ''hero'')]
    [el ''div'' [(''class'', ''container'')]
     [el ''div'' [(''class'', ''status-badge'')]
      [el ''span'' [(''class'', ''status-dot'')] [],
      leaf ''span'' [] ''You are running Eosrift''],
     el ''h1'' [(''class'', ''hero-title'')]
      [TextNode ''Your infrastructure.'',
      el ''br'' [] [],
      leaf ''span'' [(''class'', ''gradient-text'')] ''Your tunnels.''],
     leaf ''p'' [(''class'', ''hero-subtitle'')] ''Self-hosted tunnel service with ngrok-like simplicity. Expose local services to the internet without vendor lock-in.'',
     el ''div'' [(''class'', ''hero-actions'')]
      [leaf ''a'' [(''href'', ''#quickstart''), (''class'', ''btn btn-primary'')] ''Get Started'',
      leaf ''a'' [(''href'', ''https://github.com/lambadalambda/eosrift''), (''class'', ''btn btn-secondary'')] ''View Source''],
     el ''div'' [(''class'', ''hero-terminal'')]
      [el ''div'' [(''class'', ''terminal-header'')]
       [el ''div'' [(''class'', ''terminal-dots'')]
        [el ''span'' [] [],
        el ''span'' [] [],
        el ''span'' [] []],
       leaf ''span'' [(''class'', ''terminal-title'')] ''Terminal''],
      el ''div'' [(''class'', ''terminal-body'')]
       [el ''div'' [(''class'', ''terminal-line'')]
        [leaf ''span'' [(''class'', ''terminal-prompt'')] ''$'',
        leaf ''span'' [(''class'', ''terminal-cmd'')] ''eosrift http 3000''],
       el ''div'' [(''class'', ''terminal-output'')]
        [leaf ''span'' [(''class'', ''output-label'')] ''Eosrift'',
        leaf ''span'' [(''class'', ''output-version'')] ''v0.1.1''],
       el ''div'' [(''class'', ''terminal-output'')]
        [leaf ''span'' [(''class'', ''output-dim'')] ''Session Status'',
        leaf ''span'' [(''class'', ''output-success'')] ''online''],
       el ''div'' [(''class'', ''terminal-output'')]
        [leaf ''span'' [(''class'', ''output-dim'')] ''Forwarding'',
        leaf ''span'' [(''class'', ''output-url'')] ''https://abc123.tunnel.eosrift.com'',
        leaf ''span'' [(''class'', ''output-arrow'')] [CHR 0xE2, CHR 0x86, CHR 0x92],
        leaf ''span'' [] ''localhost:3000''],
       el ''div'' [(''class'', ''terminal-output'')]
        [leaf ''span'' [(''class'', ''output-dim'')] ''Inspector'',
        leaf ''span'' [(''class'', ''output-url'')] ''http://localhost:4040'']]]]]"

text \<open>The cards of the features have the same form, and so have the steps of the quick start.\<close>

definition feature_card :: "dom list \<Rightarrow> string \<Rightarrow> string \<Rightarrow> dom" where
  "feature_card shapes title about =
     el ''div'' [(''class'', ''feature-card'')]
      [el ''div'' [(''class'', ''feature-icon'')]
        [el ''svg'' [(''viewBox'', ''0 0 24 24''), (''fill'', ''none''), (''stroke'', ''currentColor''), (''stroke-width'', ''2'')] shapes],
       leaf ''h3'' [] title, leaf ''p'' [] about]"

definition landing_features :: dom where
  "landing_features =
    el ''section'' [(''id'', ''features''), (''class'', ''features'')]
     [el ''div'' [(''class'', ''container'')]
      [leaf ''h2'' [(''class'', ''section-title'')] ''Built for developers who value control'',
       el ''div'' [(''class'', ''features-grid'')]
      [feature_card [el ''path'' [(''d'', ''M12 2L2 7l10 5 10-5-10-5zM2 17l10 5 10-5M2 12l10 5 10-5'')] []]
         ''Self-Hosted''
         ''Deploy on your own infrastructure. Your data never touches third-party servers.'',
       feature_card [el ''polyline'' [(''points'', ''4 17 10 11 4 5'')] [],
           el ''line'' [(''x1'', ''12''), (''y1'', ''19''), (''x2'', ''20''), (''y2'', ''19'')] []]
         ''Familiar CLI''
         ''ngrok-compatible commands and config. Switch without relearning anything.'',
       feature_card [el ''rect'' [(''x'', ''3''), (''y'', ''3''), (''width'', ''18''), (''height'', ''18''), (''rx'', ''2'')] [],
           el ''path'' [(''d'', ''M3 9h18M9 21V9'')] []]
         ''HTTP & TCP Tunnels''
         ''Expose web apps, databases, SSH, or any TCP service through secure tunnels.'',
       feature_card [el ''circle'' [(''cx'', ''12''), (''cy'', ''12''), (''r'', ''10'')] [],
           el ''path'' [(''d'', ''M12 6v6l4 2'')] []]
         ''Request Inspector''
         ''Debug webhooks and API calls with the built-in request inspector at localhost:4040.'',
       feature_card [el ''path'' [(''d'', ''M21 16V8a2 2 0 0 0-1-1.73l-7-4a2 2 0 0 0-2 0l-7 4A2 2 0 0 0 3 8v8a2 2 0 0 0 1 1.73l7 4a2 2 0 0 0 2 0l7-4A2 2 0 0 0 21 16z'')] []]
         ''Docker-First''
         ''Single docker-compose.yml deployment. Production-ready in minutes, not hours.'',
       feature_card [el ''path'' [(''d'', ''M12 22s8-4 8-10V5l-8-3-8 3v7c0 6 8 10 8 10z'')] []]
         ''Automatic TLS''
         (''Let'' @ [CHR 0x27] @ ''s Encrypt certificates managed automatically. HTTPS by default, always.'')]]]"

definition quickstart_step :: "string \<Rightarrow> string \<Rightarrow> dom list \<Rightarrow> string list \<Rightarrow> dom" where
  "quickstart_step number title about commands =
     el ''div'' [(''class'', ''quickstart-step'')]
      ([leaf ''div'' [(''class'', ''step-number'')] number, leaf ''h3'' [] title] @ about
       @ [el ''div'' [(''class'', ''code-block'')] (map (leaf ''code'' []) commands)])"

definition quickstart_group :: "string \<Rightarrow> dom list \<Rightarrow> dom" where
  "quickstart_group title steps =
     el ''div'' [(''class'', ''quickstart-group'')]
      [leaf ''h3'' [(''class'', ''quickstart-group-title'')] title, el ''div'' [(''class'', ''quickstart-grid'')] steps]"

definition landing_quickstart :: dom where
  "landing_quickstart =
    el ''section'' [(''id'', ''quickstart''), (''class'', ''quickstart'')]
     [el ''div'' [(''class'', ''container'')]
      [leaf ''h2'' [(''class'', ''section-title'')] ''Up and running in minutes'',
       quickstart_group ''On your server''
        [quickstart_step ''1'' ''Point your domains'' [leaf ''p'' [(''class'', ''step-desc'')] ''Point your base domain and wildcard tunnel subdomain to your server.'']
           [''eosrift.com '' @ [CHR 0xE2, CHR 0x86, CHR 0x92] @ '' your.server.ip'', ''*.tunnel.eosrift.com '' @ [CHR 0xE2, CHR 0x86, CHR 0x92] @ '' your.server.ip''],
         quickstart_step ''2'' ''Configure and deploy'' [leaf ''p'' [(''class'', ''step-desc'')] ''Set your domain and run the stack.'']
           [''export EOSRIFT_BASE_DOMAIN=eosrift.com'', ''export EOSRIFT_TUNNEL_DOMAIN=tunnel.eosrift.com'', ''docker compose up -d --build'']],
       quickstart_group ''On your client''
        [quickstart_step ''1'' ''Configure your token'' []
           [''eosrift config add-authtoken <your-token>''],
         quickstart_step ''2'' ''Expose your service'' []
           [''eosrift http 8080''],
         quickstart_step ''3'' ''Share your URL'' []
           [''https://abc123.tunnel.eosrift.com'']]]]"

definition landing_footer :: dom where
  "landing_footer =
   el ''footer'' [(''class'', ''footer'')]
    [el ''div'' [(''class'', ''container'')]
     [leaf ''p'' [(''class'', ''footer-text'')] ''Eosrift is open source. Built with love for developers who value control.'',
     el ''div'' [(''class'', ''footer-links'')]
      [leaf ''a'' [(''href'', ''https://github.com/lambadalambda/eosrift'')] ''GitHub'',
      leaf ''a'' [(''href'', ''/docs/'')] ''Docs'']]]"

definition landingIndexHTML :: dom where
  "landingIndexHTML =
    el ''html'' [(''lang'', ''en'')]
     [landing_head,
      el ''body'' []
       [el ''div'' [(''class'', ''grid-bg'')] [], landing_header,
        el ''main'' [] [landing_hero, landing_features, landing_quickstart], landing_footer]]"

subsection \<open>The inspector's page\<close>

definition inspector_body :: dom where
  "inspector_body =
    el ''body'' []
     [el ''header'' []
       [el ''div'' []
         [leaf ''div'' [(''class'', ''title'')] ''EosRift Inspector'',
          leaf ''div'' [(''class'', ''subtitle'')] (''Local request history'' @ bullet @ ''refreshes every second'')],
        el ''div'' [(''class'', ''right'')] [TextNode ''API'', leaf ''code'' [] ''/api/requests'']],
      el ''div'' [(''class'', ''layout'')]
       [el ''div'' [(''class'', ''list''), (''id'', ''list'')] [],
        el ''div'' [(''class'', ''detail'')]
         [el ''div'' [(''class'', ''card''), (''id'', ''card'')]
           [leaf ''h2'' [] ''Request'', leaf ''div'' [(''class'', ''hint'')] ''No request selected yet.'']]]]"

fun elements_with_id :: "string \<Rightarrow> dom \<Rightarrow> dom list" where
  "elements_with_id i (TextNode t) = []"
| "elements_with_id i (Element n ats ch) =
     (if map_of ats ''id'' = Some i then [Element n ats ch] else []) @ concat (map (elements_with_id i) ch)"

text \<open>The elements the script of the page fills are there, and what they hold when the page is opened is
  what the state of the script starts with.\<close>

lemma inspector_page_starts:
  "elements_with_id ''list'' inspector_body = [el ''div'' [(''class'', ''list''), (''id'', ''list'')] []]"
  "\<exists>ats ch. elements_with_id ''card'' inspector_body = [el ''div'' ats ch] \<and> concat (map html_print ch) = ip_card fresh_page"
  by (simp_all add: inspector_body_def leaf_def text_nodes_def fresh_page_def escape_literals)

subsection \<open>References\<close>

definition references :: "dom \<Rightarrow> string list" where
  "references d = concat (map (\<lambda>ats. List.map_filter (map_of ats) [''href'', ''src'']) (elements d))"

definition external :: "string \<Rightarrow> bool" where
  "external ref \<longleftrightarrow> HasPrefix ref ''https://''"

text \<open>A reference without a host, from the page at a path.\<close>

definition resolve_reference :: "string \<Rightarrow> string \<Rightarrow> string" where
  "resolve_reference base ref =
     (if HasPrefix ref ''/'' then ref else rev (dropWhile (\<lambda>c. c \<noteq> CHR ''/'') (rev base)) @ ref)"

definition embedded_pages :: "(string \<times> string \<times> dom) list" where
  "embedded_pages =
     [(''/'', ''landingIndexHTML'', landingIndexHTML), (''/admin'', ''adminIndexHTML'', adminIndexHTML),
      (''/admin/'', ''adminIndexHTML'', adminIndexHTML)]"

definition page_assets :: "(string \<times> string \<times> string) list" where
  "page_assets =
     [(''/style.css'', ''text/css; charset=utf-8'', ''landingStyleCSS''),
      (''/admin/style.css'', ''text/css; charset=utf-8'', ''adminStyleCSS''),
      (''/admin/app.js'', ''application/javascript; charset=utf-8'', ''adminAppJS'')]"

lemmas landing_defs = landing_head_def landing_header_def landing_hero_def landing_features_def feature_card_def
  landing_quickstart_def quickstart_step_def quickstart_group_def landing_footer_def leaf_def text_nodes_def

lemma landing_references:
  "references landingIndexHTML =
     [''style.css'', ''https://fonts.googleapis.com'', ''https://fonts.gstatic.com'',
      ''https://fonts.googleapis.com/css2?family=Inter:wght@400;500;600;700&family=JetBrains+Mono:wght@400;500&display=swap'',
      ''#features'', ''#quickstart'', ''/docs/'', ''https://github.com/lambadalambda/eosrift'', ''#quickstart'',
      ''https://github.com/lambadalambda/eosrift'', ''https://github.com/lambadalambda/eosrift'', ''/docs/'']"
  "ids landingIndexHTML = [''features'', ''quickstart'']"
  by (simp_all add: landingIndexHTML_def references_def ids_def landing_defs List.map_filter_def)

lemma admin_references: "references adminIndexHTML = [''/admin/style.css'', ''#'', ''/admin/app.js'']"
  by (simp add: references_def page_defs List.map_filter_def)

lemma served_paths:
  assumes "admin_enabled cfg adm" "rq_method r = ''GET''" "rq_path r = rq_escaped_path r" "on_base cfg r"
  shows "rq_path r = ''/'' \<Longrightarrow> NewHandler cfg deps adm he r body sv = (Answer (serveLandingIndex r), sv)"
    "rq_path r = ''/style.css'' \<Longrightarrow> NewHandler cfg deps adm he r body sv = (Answer (serveLandingStyle r), sv)"
    "rq_path r = ''/docs/'' \<Longrightarrow> NewHandler cfg deps adm he r body sv = (Answer (he_file_server he r), sv)"
    "rq_path r = ''/admin'' \<Longrightarrow> NewHandler cfg deps adm he r body sv = (Answer (serveAdminIndex r), sv)"
    "rq_path r = ''/admin/'' \<Longrightarrow> NewHandler cfg deps adm he r body sv = (Answer (serveAdminIndex r), sv)"
    "rq_path r = ''/admin/style.css'' \<Longrightarrow> NewHandler cfg deps adm he r body sv = (Answer (serveAdminStyle r), sv)"
    "rq_path r = ''/admin/app.js'' \<Longrightarrow> NewHandler cfg deps adm he r body sv = (Answer (serveAdminApp r), sv)"
proof -
  have clean: "cleanPath ''/'' = ''/''" "cleanPath ''/style.css'' = ''/style.css''" "cleanPath ''/docs/'' = ''/docs/''"
    "cleanPath ''/admin'' = ''/admin''" "cleanPath ''/admin/'' = ''/admin/''"
    "cleanPath ''/admin/style.css'' = ''/admin/style.css''" "cleanPath ''/admin/app.js'' = ''/admin/app.js''"
    by (simp_all add: eval_simps)
  have parts: "mux_parts ''/'' = [[]]" "mux_parts ''/style.css'' = [''style.css'']" "mux_parts ''/docs/'' = [''docs'', []]"
    "mux_parts ''/admin'' = [''admin'']" "mux_parts ''/admin/'' = [''admin'', []]"
    "mux_parts ''/admin/style.css'' = [''admin'', ''style.css'']" "mux_parts ''/admin/app.js'' = [''admin'', ''app.js'']"
    "mux_parts ''/style.css/'' = [''style.css'', []]" "mux_parts ''/admin/style.css/'' = [''admin'', ''style.css'', []]"
    "mux_parts ''/admin/app.js/'' = [''admin'', ''app.js'', []]"
    by (simp_all add: eval_simps)
  note match = mux_match_def server_routes_def parts assms(1)
  have "mux_match (server_routes cfg adm) ''/'' = Some (Subtree [], Everything)"
    "mux_match (server_routes cfg adm) ''/style.css'' = Some (Exact [''style.css''], Stylesheet)"
    "mux_match (server_routes cfg adm) ''/docs/'' = Some (Subtree [''docs''], Docs)"
    "mux_match (server_routes cfg adm) ''/admin'' = Some (Exact [''admin''], AdminPage)"
    "mux_match (server_routes cfg adm) ''/admin/'' = Some (Subtree [''admin''], AdminFiles)"
    "mux_match (server_routes cfg adm) ''/admin/style.css'' = Some (Subtree [''admin''], AdminFiles)"
    "mux_match (server_routes cfg adm) ''/admin/app.js'' = Some (Subtree [''admin''], AdminFiles)"
    "mux_match (server_routes cfg adm) ''/admin/style.css/'' = Some (Subtree [''admin''], AdminFiles)"
    "mux_match (server_routes cfg adm) ''/admin/app.js/'' = Some (Subtree [''admin''], AdminFiles)"
    by (simp_all add: match)
  note route = this
  note simps = NewHandler_def mux_handler_def slash_redirect_def Let_def clean route
  show "rq_path r = ''/'' \<Longrightarrow> NewHandler cfg deps adm he r body sv = (Answer (serveLandingIndex r), sv)"
    "rq_path r = ''/style.css'' \<Longrightarrow> NewHandler cfg deps adm he r body sv = (Answer (serveLandingStyle r), sv)"
    "rq_path r = ''/docs/'' \<Longrightarrow> NewHandler cfg deps adm he r body sv = (Answer (he_file_server he r), sv)"
    "rq_path r = ''/admin'' \<Longrightarrow> NewHandler cfg deps adm he r body sv = (Answer (serveAdminIndex r), sv)"
    "rq_path r = ''/admin/'' \<Longrightarrow> NewHandler cfg deps adm he r body sv = (Answer (serveAdminIndex r), sv)"
    "rq_path r = ''/admin/style.css'' \<Longrightarrow> NewHandler cfg deps adm he r body sv = (Answer (serveAdminStyle r), sv)"
    "rq_path r = ''/admin/app.js'' \<Longrightarrow> NewHandler cfg deps adm he r body sv = (Answer (serveAdminApp r), sv)"
    using assms(2-4) by (simp_all add: simps admin_files_def serveDocs_def TrimPrefix_def HasPrefix_def)
qed

text \<open>A GET request for a path on the base domain is answered so, and changes nothing.\<close>

definition answered :: "config \<Rightarrow> 'db dependencies \<Rightarrow> 'db admin_store option \<Rightarrow> 'db http_env \<Rightarrow> json_body
    \<Rightarrow> 'db server \<Rightarrow> string \<Rightarrow> (http_request \<Rightarrow> http_response) \<Rightarrow> bool" where
  "answered cfg deps adm he body sv p f \<longleftrightarrow>
     (\<forall>r. rq_method r = ''GET'' \<and> on_base cfg r \<and> rq_path r = p \<and> rq_escaped_path r = p
        \<longrightarrow> NewHandler cfg deps adm he r body sv = (Answer (f r), sv))"

lemma pages_answered:
  assumes "admin_enabled cfg adm"
  shows "answered cfg deps adm he body sv ''/'' (serve_asset ''text/html; charset=utf-8'' ''landingIndexHTML'')"
    "answered cfg deps adm he body sv ''/admin'' (serve_asset ''text/html; charset=utf-8'' ''adminIndexHTML'')"
    "answered cfg deps adm he body sv ''/admin/'' (serve_asset ''text/html; charset=utf-8'' ''adminIndexHTML'')"
    "answered cfg deps adm he body sv ''/style.css'' (serve_asset ''text/css; charset=utf-8'' ''landingStyleCSS'')"
    "answered cfg deps adm he body sv ''/admin/style.css'' (serve_asset ''text/css; charset=utf-8'' ''adminStyleCSS'')"
    "answered cfg deps adm he body sv ''/admin/app.js'' (serve_asset ''application/javascript; charset=utf-8'' ''adminAppJS'')"
    "answered cfg deps adm he body sv ''/docs/'' (he_file_server he)"
  using served_paths [OF assms]
  by (simp_all add: answered_def serveLandingIndex_def serveLandingStyle_def serveAdminIndex_def serveAdminStyle_def
      serveAdminApp_def)

lemma resolved:
  "resolve_reference ''/'' ''style.css'' = ''/style.css''"
  "HasPrefix ref ''/'' \<Longrightarrow> resolve_reference b ref = ref"
  by (simp_all add: resolve_reference_def HasPrefix_def)

lemma slash: "HasPrefix (CHR ''/'' # s) ''/''"
  by (simp add: HasPrefix_def)

text \<open>The references of the pages lead somewhere. On the base domain of a server with the admin API, the
  landing page and the dashboard are served at their paths, and each of their references is one to another
  site, to an element of the page itself, to a style sheet or script, which is served with its type at the
  path the reference has from the page's path, or to the documentation.\<close>

theorem page_references_served:
  assumes "admin_enabled cfg adm" and "(path, name, page) \<in> set embedded_pages" and "ref \<in> set (references page)"
  shows "answered cfg deps adm he body sv path (serve_asset ''text/html; charset=utf-8'' name)
    \<and> (external ref
       \<or> (\<exists>i. ref = CHR ''#'' # i \<and> (i = [] \<or> i \<in> set (ids page)))
       \<or> (\<exists>ctype asset. (resolve_reference path ref, ctype, asset) \<in> set page_assets
            \<and> answered cfg deps adm he body sv (resolve_reference path ref) (serve_asset ctype asset))
       \<or> resolve_reference path ref = ''/docs/''
            \<and> answered cfg deps adm he body sv (resolve_reference path ref) (he_file_server he))"
proof -
  note answers = pages_answered [OF assms(1), of deps he body sv]
  have "(path, name, page) \<in> {(''/'', ''landingIndexHTML'', landingIndexHTML), (''/admin'', ''adminIndexHTML'', adminIndexHTML),
      (''/admin/'', ''adminIndexHTML'', adminIndexHTML)}"
    using assms(2) by (simp add: embedded_pages_def)
  then consider "path = ''/''" "name = ''landingIndexHTML''" "page = landingIndexHTML"
    | "path = ''/admin'' \<or> path = ''/admin/''" "name = ''adminIndexHTML''" "page = adminIndexHTML" by blast
  then show ?thesis
  proof cases
    case 1
    have https: "external (''https://'' @ s)" for s by (simp add: external_def HasPrefix_def)
    consider "external ref" | "ref = ''style.css''" | "ref = ''#features''" | "ref = ''#quickstart''" | "ref = ''/docs/''"
      using assms(3) https [simplified] unfolding 1 landing_references by (elim list_memberE) auto
    then show ?thesis
      unfolding 1 landing_references
      by cases (simp_all add: answers resolved slash page_assets_def)
  next
    case 2
    consider "ref = ''/admin/style.css''" | "ref = ''#''" | "ref = ''/admin/app.js''"
      using assms(3) unfolding 2 admin_references by (elim list_memberE) auto
    moreover have "answered cfg deps adm he body sv path (serve_asset ''text/html; charset=utf-8'' name)"
      using 2(1) answers(2,3) unfolding 2(2) by (elim disjE) (simp_all only: )
    ultimately show ?thesis
      by cases (simp_all add: answers resolved slash page_assets_def)
  qed
qed

theorem page_references_served_witness:
  "answered admin_cfg demo_deps (Some demo_admin) demo_http_env None (demo_server demo_db) ''/admin/''
     (serve_asset ''text/html; charset=utf-8'' ''adminIndexHTML'')"
proof -
  have "admin_enabled admin_cfg (Some demo_admin)"
    using demo_ready by (auto simp: server_ready_def good_token_def admin_enabled_def)
  moreover have "(''/admin/'', ''adminIndexHTML'', adminIndexHTML) \<in> set embedded_pages" by (simp add: embedded_pages_def)
  moreover have "''#'' \<in> set (references adminIndexHTML)" by (simp add: admin_references)
  ultimately show ?thesis using page_references_served by blast
qed

end
