(* ===== verification/Usage.thy ===== *)
theory Usage
  imports ClientCommands ServerCommands
begin

text \<open>
  The usage texts of the programs (\<open>usage\<close> in \<open>internal/cli/run.go\<close>; \<open>tokenUsage\<close>,
  \<open>reserveUsage\<close> and \<open>tcpReserveUsage\<close> in \<open>cmd/server/main.go\<close>) as the lines they print,
  against the commands that print them: what they list is what there is, and their examples are accepted.
\<close>

subsection \<open>The texts\<close>

definition usage :: "string list" where
  "usage =
     [''usage: eosrift [--config <path>] <command> [args]'',
      [],
      ''commands:'',
      ''  http      start an HTTP tunnel'',
      ''  tcp       start a TCP tunnel'',
      ''  tls       start a TLS tunnel'',
      ''  start     start tunnels from config'',
      ''  config    manage client config'',
      ''  version   print version information'',
      ''  help      show help'',
      [],
      ''environment:'',
      ''  EOSRIFT_CONFIG        config path override'',
      ''  EOSRIFT_SERVER_ADDR   server base address (recommended)'',
      ''  EOSRIFT_CONTROL_URL   legacy: full ws(s) control URL'',
      ''  EOSRIFT_AUTHTOKEN     client auth token'',
      ''  EOSRIFT_INSPECT_ADDR  local inspector listen address'',
      [],
      ''examples:'',
      ''  eosrift config add-authtoken <token>'',
      ''  eosrift config set-server https://eosrift.com'',
      ''  eosrift config set-host-header rewrite'',
      ''  eosrift start --all'',
      ''  eosrift http 8080 --server https://eosrift.com'',
      ''  eosrift http 3000 --domain demo.tunnel.eosrift.com'',
      ''  eosrift http 3000 --subdomain demo'',
      ''  eosrift tcp  5432 --server https://eosrift.com'',
      ''  eosrift tls  443  --server https://eosrift.com'']"

definition tokenUsage :: "string list" where
  "tokenUsage =
     [''usage: eosrift-server token <command> [args]'',
      [],
      ''commands:'',
      ''  create   create a new authtoken'',
      ''  list     list authtokens'',
      ''  revoke   revoke an authtoken by id'',
      [],
      ''env:'',
      ''  EOSRIFT_DB_PATH  sqlite db path (default: /data/eosrift.db)'']"

definition reserveUsage :: "string list" where
  "reserveUsage =
     [''usage: eosrift-server reserve <command> [args]'',
      [],
      ''commands:'',
      ''  add      reserve a subdomain for a token id'',
      ''  list     list reserved subdomains'',
      ''  remove   remove a reserved subdomain'',
      [],
      ''env:'',
      ''  EOSRIFT_DB_PATH  sqlite db path (default: /data/eosrift.db)'']"

definition tcpReserveUsage :: "string list" where
  "tcpReserveUsage =
     [''usage: eosrift-server tcp-reserve <command> [args]'',
      [],
      ''commands:'',
      ''  add      reserve a TCP port for a token id'',
      ''  list     list reserved TCP ports'',
      ''  remove   remove a reserved TCP port'',
      [],
      ''env:'',
      ''  EOSRIFT_DB_PATH  sqlite db path (default: /data/eosrift.db)'']"

subsection \<open>Reading them\<close>

definition section_of :: "string \<Rightarrow> string list \<Rightarrow> string list" where
  "section_of title ls = takeWhile (\<lambda>l. l \<noteq> []) (drop 1 (dropWhile (\<lambda>l. l \<noteq> title) ls))"

definition words_of :: "string \<Rightarrow> string list" where
  "words_of l = filter (\<lambda>x. x \<noteq> []) (Split_char CHR '' '' l)"

definition listed :: "string list \<Rightarrow> string list" where
  "listed ls = map (hd \<circ> words_of) (section_of ''commands:'' ls)"

definition examples :: "string list list" where
  "examples = map words_of (section_of ''examples:'' usage)"

lemmas reading = listed_def examples_def section_of_def words_of_def usage_def tokenUsage_def reserveUsage_def
  tcpReserveUsage_def

lemma listed_commands:
  "listed usage = [''http'', ''tcp'', ''tls'', ''start'', ''config'', ''version'', ''help'']"
  "listed tokenUsage = [''create'', ''list'', ''revoke'']"
  "listed reserveUsage = [''add'', ''list'', ''remove'']"
  "listed tcpReserveUsage = [''add'', ''list'', ''remove'']"
  by code_simp+

lemma examples_read:
  "examples =
     [[''eosrift'', ''config'', ''add-authtoken'', ''<token>''],
      [''eosrift'', ''config'', ''set-server'', ''https://eosrift.com''],
      [''eosrift'', ''config'', ''set-host-header'', ''rewrite''],
      [''eosrift'', ''start'', ''--all''],
      [''eosrift'', ''http'', ''8080'', ''--server'', ''https://eosrift.com''],
      [''eosrift'', ''http'', ''3000'', ''--domain'', ''demo.tunnel.eosrift.com''],
      [''eosrift'', ''http'', ''3000'', ''--subdomain'', ''demo''],
      [''eosrift'', ''tcp'', ''5432'', ''--server'', ''https://eosrift.com''],
      [''eosrift'', ''tls'', ''443'', ''--server'', ''https://eosrift.com'']]"
  by code_simp

subsection \<open>The lists of commands are exact\<close>

text \<open>Which commands print the usage text of the whole program.\<close>

definition prints_usage :: "outcome option \<Rightarrow> bool" where
  "prints_usage r \<longleftrightarrow> (case r of None \<Rightarrow> False | Some r \<Rightarrow> Usage False ''eosrift'' \<in> set (oc_printed r))"

lemma prints_usage_simps [simp]:
  "\<not> prints_usage None" "prints_usage (Some (stop c ps)) \<longleftrightarrow> Usage False ''eosrift'' \<in> set ps"
  by (simp_all add: prints_usage_def)

lemma prints_usage_split:
  "(\<And>e. \<not> prints_usage (f e)) \<Longrightarrow> (\<And>v. \<not> prints_usage (g v)) \<Longrightarrow> \<not> prints_usage (case s of Inl e \<Rightarrow> f e | Inr v \<Rightarrow> g v)"
  "(\<And>a b. \<not> prints_usage (h a b)) \<Longrightarrow> \<not> prints_usage (case p of (a, b) \<Rightarrow> h a b)"
  "(c \<Longrightarrow> \<not> prints_usage x) \<Longrightarrow> (\<not> c \<Longrightarrow> \<not> prints_usage y) \<Longrightarrow> \<not> prints_usage (if c then x else y)"
  "\<not> prints_usage x \<Longrightarrow> (\<And>a as. \<not> prints_usage (k a as)) \<Longrightarrow> \<not> prints_usage (case xs of [] \<Rightarrow> x | a # as \<Rightarrow> k a as)"
  by (simp_all split: sum.splits prod.splits list.splits)

lemma after_wait_no_usage: "Usage b n \<notin> set (snd (after_wait w err))"
  by (auto simp: after_wait_def split: option.splits)

lemma open_inspector_no_usage: "Usage b n \<notin> set (snd (open_inspector w e a))"
  by (auto simp: open_inspector_def split: sum.splits)

lemma serve_no_usage: "\<not> prints_usage (Some (serve_http_tunnel w f a tun))"
  using after_wait_no_usage [of False "''eosrift''" w "cw_waited w"]
    open_inspector_no_usage [of False "''eosrift''" w "hf_inspect f" "hf_inspect_addr f"]
  by (simp add: serve_http_tunnel_def prints_usage_def case_prod_beta)

lemma commands_no_usage:
  "\<not> prints_usage (Some (runHTTP w args path))"
  "name \<noteq> ''eosrift'' \<Longrightarrow> \<not> prints_usage (Some (run_port_command name w args path))"
  "\<not> prints_usage (runStart w args path)"
  "\<not> prints_usage (Some (runConfig w args path))"
proof -
  show "\<not> prints_usage (Some (runHTTP w args path))"
    unfolding runHTTP_def push_Some by (intro prints_usage_split) (simp_all add: serve_no_usage)
  show "name \<noteq> ''eosrift'' \<Longrightarrow> \<not> prints_usage (Some (run_port_command name w args path))"
    unfolding run_port_command_def Let_def push_Some case_prod_beta
    using after_wait_no_usage [of False "''eosrift''" w "cw_waited w"]
    by (intro prints_usage_split) (simp_all add: prints_usage_def)
  have "\<not> prints_usage (start_selected w cfg f sel)" for cfg f sel
    unfolding start_selected_def Let_def case_prod_beta
    using after_wait_no_usage [of False "''eosrift''" w]
      open_inspector_no_usage [of False "''eosrift''" w "needsInspector sel (sa_inspect f)" "sa_inspect_addr f"]
    by (intro prints_usage_split) (auto simp: prints_usage_def split: option.splits prod.splits)
  then show "\<not> prints_usage (runStart w args path)"
    unfolding runStart_def by (intro prints_usage_split) simp_all
  have "name \<noteq> ''eosrift'' \<Longrightarrow> \<not> prints_usage (Some (config_set name check put msg w args path))" for name check put msg args
    unfolding config_set_def push_Some by (intro prints_usage_split) (simp_all add: prints_usage_def)
  then show "\<not> prints_usage (Some (runConfig w args path))"
    unfolding runConfig_def runConfigAddAuthtoken_def runConfigSetServer_def runConfigSetHostHeader_def
      runConfigCheck_def Let_def push_Some
    by (intro prints_usage_split) simp_all
qed

lemma global_flags_stop: "\<not> isFlagToken cmd \<Longrightarrow> flag_Parse fs (cmd # args) r = Inr (r, cmd # args)"
  by (cases cmd) (auto simp: isFlagToken_def HasPrefix_def flag_Parse.simps(2))

text \<open>The commands of the server print the usage of their group only when it does not know them.\<close>

lemma not_usage:
  "adminError m e so \<noteq> usage_error l" "done_with ls s \<noteq> usage_error l" "report m l' r \<noteq> usage_error l"
  "(\<And>s. run s \<noteq> usage_error l) \<Longrightarrow> with_db w path run \<noteq> usage_error l"
  "(\<And>p. next p \<noteq> usage_error l) \<Longrightarrow> with_port arg next \<noteq> usage_error l"
  "(\<And>f rest. k f rest \<noteq> usage_error (CmdUsage n)) \<Longrightarrow> parse_db w fs args k \<noteq> usage_error (CmdUsage n)"
  by (auto simp: adminError_def done_with_def usage_error_def report_def with_db_def with_port_def parse_db_def
      split: sum.splits option.splits prod.splits)

lemma usage_error_eq: "usage_error (CmdUsage m) = usage_error (CmdUsage n) \<longleftrightarrow> m = n"
  by (simp add: usage_error_def)

lemma server_subcommands:
  "runTokenCreateCmd sw args \<noteq> usage_error (CmdUsage ''token'')"
  "runTokenListCmd sw args \<noteq> usage_error (CmdUsage ''token'')"
  "runTokenRevokeCmd sw args \<noteq> usage_error (CmdUsage ''token'')"
  "runReserveAddCmd sw args \<noteq> usage_error (CmdUsage ''reserve'')"
  "runReserveListCmd sw args \<noteq> usage_error (CmdUsage ''reserve'')"
  "runReserveRemoveCmd sw args \<noteq> usage_error (CmdUsage ''reserve'')"
  "runTCPReserveAddCmd sw args \<noteq> usage_error (CmdUsage ''tcp-reserve'')"
  "runTCPReserveListCmd sw args \<noteq> usage_error (CmdUsage ''tcp-reserve'')"
  "runTCPReserveRemoveCmd sw args \<noteq> usage_error (CmdUsage ''tcp-reserve'')"
proof -
  have bad: "\<lparr>vo_code = 1, vo_lines = ls, vo_store = s\<rparr> \<noteq> usage_error l" for ls s l by (simp add: usage_error_def)
  note rules = not_usage bad
  show "runTokenCreateCmd sw args \<noteq> usage_error (CmdUsage ''token'')"
    unfolding runTokenCreateCmd_def by (intro rules(4,6)) (auto simp: rules split: sum.split prod.split)
  show "runTokenListCmd sw args \<noteq> usage_error (CmdUsage ''token'')"
    unfolding runTokenListCmd_def by (intro rules(4,6)) (auto simp: rules split: sum.split)
  show "runTokenRevokeCmd sw args \<noteq> usage_error (CmdUsage ''token'')"
    unfolding runTokenRevokeCmd_def
    by (intro rules(6)) (auto simp: rules usage_error_eq split: list.split option.split)
  show "runReserveAddCmd sw args \<noteq> usage_error (CmdUsage ''reserve'')"
    "runReserveRemoveCmd sw args \<noteq> usage_error (CmdUsage ''reserve'')"
    "runTCPReserveAddCmd sw args \<noteq> usage_error (CmdUsage ''tcp-reserve'')"
    "runTCPReserveRemoveCmd sw args \<noteq> usage_error (CmdUsage ''tcp-reserve'')"
    unfolding runReserveAddCmd_def runReserveRemoveCmd_def runTCPReserveAddCmd_def runTCPReserveRemoveCmd_def
    by (rule rules(6); simp add: rules usage_error_eq)+
  show "runReserveListCmd sw args \<noteq> usage_error (CmdUsage ''reserve'')"
    "runTCPReserveListCmd sw args \<noteq> usage_error (CmdUsage ''tcp-reserve'')"
    unfolding runReserveListCmd_def runTCPReserveListCmd_def
    by (intro rules(4,6); auto simp: rules split: sum.split)+
qed

text \<open>C39: The usage texts list the commands there are. A first argument that is no flag is answered as unknown, with
  the usage text, exactly when the text does not list it; for the server's commands \<open>rm\<close> and
  \<open>delete\<close>, which stand for \<open>remove\<close>, are known but not listed.\<close>

theorem usage_lists_commands:
  "(\<not> isFlagToken cmd \<longrightarrow>
      (cli_Run w (cmd # args) = Some (stop 2 [ErrOut (''unknown command: '' @ cmd), Usage False ''eosrift''])
        \<longleftrightarrow> cmd \<notin> set (listed usage)))
    \<and> (runTokenCmd sw (cmd # args) = usage_error (CmdUsage ''token'') \<longleftrightarrow> cmd \<notin> set (listed tokenUsage))
    \<and> (runReserveCmd sw (cmd # args) = usage_error (CmdUsage ''reserve'')
        \<longleftrightarrow> cmd \<notin> set (listed reserveUsage) \<union> {''rm'', ''delete''})
    \<and> (runTCPReserveCmd sw (cmd # args) = usage_error (CmdUsage ''tcp-reserve'')
        \<longleftrightarrow> cmd \<notin> set (listed tcpReserveUsage) \<union> {''rm'', ''delete''})"
proof (intro conjI impI)
  assume c: "\<not> isFlagToken cmd"
  let ?bad = "stop 2 [ErrOut (''unknown command: '' @ cmd), Usage False ''eosrift'']"
  show "cli_Run w (cmd # args) = Some ?bad \<longleftrightarrow> cmd \<notin> set (listed usage)"
  proof
    show "cli_Run w (cmd # args) = Some ?bad" if "cmd \<notin> set (listed usage)"
      using that unfolding listed_commands cli_Run_def global_flags_stop [OF c] by simp
    assume run: "cli_Run w (cmd # args) = Some ?bad"
    have "\<not> prints_usage (cli_Run w (cmd # args))" if "cmd \<in> set (listed usage)"
      using that commands_no_usage unfolding listed_commands cli_Run_def global_flags_stop [OF c] runTCP_def runTLS_def
      by auto
    then show "cmd \<notin> set (listed usage)" unfolding run by auto
  qed
next
  show "runTokenCmd sw (cmd # args) = usage_error (CmdUsage ''token'') \<longleftrightarrow> cmd \<notin> set (listed tokenUsage)"
    unfolding listed_commands runTokenCmd_def using server_subcommands by auto
  show "runReserveCmd sw (cmd # args) = usage_error (CmdUsage ''reserve'')
      \<longleftrightarrow> cmd \<notin> set (listed reserveUsage) \<union> {''rm'', ''delete''}"
    unfolding listed_commands runReserveCmd_def using server_subcommands by auto
  show "runTCPReserveCmd sw (cmd # args) = usage_error (CmdUsage ''tcp-reserve'')
      \<longleftrightarrow> cmd \<notin> set (listed tcpReserveUsage) \<union> {''rm'', ''delete''}"
    unfolding listed_commands runTCPReserveCmd_def using server_subcommands by auto
qed

subsection \<open>The examples are accepted\<close>

text \<open>A command that gets as far as its checked options does not end with a usage error.\<close>

lemma runHTTP_runs:
  assumes "\<And>d. parseInterspersedFlags http_flag_set args d = Inr (upd d, [target])"
    and "\<And>env cfg. \<not> hf_help (upd (http_defaults env cfg))"
    and "\<And>env cfg e. http_command_options (upd (http_defaults env cfg)) target \<noteq> Inl e"
  shows "oc_code (runHTTP w args path) \<noteq> 2"
  unfolding runHTTP_def assms(1)
  using assms(2,3) by (auto simp: serve_http_tunnel_code split: sum.split prod.split)

lemma run_port_runs:
  assumes "\<And>d. parseInterspersedFlags port_flag_set args d = Inr (upd d, [target])" and "\<And>d. pf_help (upd d) = pf_help d"
  shows "oc_code (run_port_command name w args path) \<noteq> 2"
  unfolding run_port_command_def assms(1)
  using after_wait_code [of w "cw_waited w"] assms(2)
  by (auto simp: Let_def case_prod_beta split: sum.split)

lemma config_set_runs:
  assumes "\<not> isFlagToken v" and "check v = Inr ()"
  shows "oc_code (config_set name check put msg w [v] path) \<noteq> 2"
  by (auto simp: config_set_def parse_positional [OF assms(1)] assms(2) split: sum.split prod.split)

lemma start_all_runs:
  assumes "runStart w [''--all''] path = Some r"
  shows "oc_code r \<noteq> 2"
proof -
  have "parseInterspersedFlags start_flag_set (concat (map render_item [Switch True ''all''])) d
      = Inr (d\<lparr>sa_all := True\<rparr>, positionals_of [Switch True ''all''])" for d
    by (rule interspersed_flags) (simp_all add: start_flag_set_def flag_name_def eval_simps)
  then have parse: "parseInterspersedFlags start_flag_set [''--all''] d = Inr (d\<lparr>sa_all := True\<rparr>, [])" for d
    by (simp add: dashes_def)
  have names: "\<forall>m \<in> set ns. cf_tunnels cfg m \<noteq> None \<Longrightarrow> map_res (select_tunnel cfg) ns \<noteq> Inl n" for cfg ns n
    by (induction ns arbitrary: n) (auto simp: select_tunnel_def result_simps split: option.splits)
  have sel: "start_selected w cfg f sel = Some r \<Longrightarrow> oc_code r \<noteq> 2" for cfg f sel
    unfolding start_selected_def Let_def
    using after_wait_code [of w] by (auto simp: case_prod_beta split: sum.splits)
  have all: "\<forall>m \<in> set (sorted_list_of_set (dom (cf_tunnels cfg))). cf_tunnels cfg m \<noteq> None" for cfg
    by (cases "finite (dom (cf_tunnels cfg))") auto
  show ?thesis
    using assms names [OF all] sel
    by (auto simp: runStart_def parse start_names_def start_defaults_def split: sum.splits prod.splits if_splits)
qed

lemma target_and_flag:
  assumes "items_ok fs [Positional x, Spaced True n v]" "apply_items fs [Positional x, Spaced True n v] r = Some r'"
  shows "parseInterspersedFlags fs [x, ''--'' @ n, v] r = Inr (r', [x])"
  using interspersed_flags [OF assms] by (simp add: dashes_def)

lemma example_lookups:
  "Lookup http_flag_set ''server'' = Some (string_flag (\<lambda>v f. f\<lparr>hf_server := v\<rparr>))"
  "Lookup http_flag_set ''domain'' = Some (string_flag (\<lambda>v f. f\<lparr>hf_domain := v\<rparr>))"
  "Lookup http_flag_set ''subdomain'' = Some (string_flag (\<lambda>v f. f\<lparr>hf_subdomain := v\<rparr>))"
  "Lookup port_flag_set ''server'' = Some (string_flag (\<lambda>v f. f\<lparr>pf_server := v\<rparr>))"
  by (simp_all add: Lookup_def http_flag_set_def port_flag_set_def)

lemma example_words: "\<not> isFlagToken ''8080''" "\<not> isFlagToken ''3000''" "\<not> isFlagToken ''5432''" "\<not> isFlagToken ''443''"
  "flag_name ''server''" "flag_name ''domain''" "flag_name ''subdomain''"
  by (simp_all add: isFlagToken_def HasPrefix_def flag_name_def)

lemma example_flags:
  "parseInterspersedFlags http_flag_set [''8080'', ''--server'', v] d = Inr (d\<lparr>hf_server := v\<rparr>, [''8080''])"
  "parseInterspersedFlags http_flag_set [''3000'', ''--domain'', v] d = Inr (d\<lparr>hf_domain := v\<rparr>, [''3000''])"
  "parseInterspersedFlags http_flag_set [''3000'', ''--subdomain'', v] d = Inr (d\<lparr>hf_subdomain := v\<rparr>, [''3000''])"
  "parseInterspersedFlags port_flag_set [''5432'', ''--server'', v] p = Inr (p\<lparr>pf_server := v\<rparr>, [''5432''])"
  "parseInterspersedFlags port_flag_set [''443'', ''--server'', v] p = Inr (p\<lparr>pf_server := v\<rparr>, [''443''])"
proof -
  show "parseInterspersedFlags http_flag_set [''8080'', ''--server'', v] d = Inr (d\<lparr>hf_server := v\<rparr>, [''8080''])"
    using target_and_flag [of http_flag_set "''8080''" "''server''"] by (simp add: example_lookups example_words string_flag_def)
  show "parseInterspersedFlags http_flag_set [''3000'', ''--domain'', v] d = Inr (d\<lparr>hf_domain := v\<rparr>, [''3000''])"
    using target_and_flag [of http_flag_set "''3000''" "''domain''"] by (simp add: example_lookups example_words string_flag_def)
  show "parseInterspersedFlags http_flag_set [''3000'', ''--subdomain'', v] d = Inr (d\<lparr>hf_subdomain := v\<rparr>, [''3000''])"
    using target_and_flag [of http_flag_set "''3000''" "''subdomain''"] by (simp add: example_lookups example_words string_flag_def)
  show "parseInterspersedFlags port_flag_set [''5432'', ''--server'', v] p = Inr (p\<lparr>pf_server := v\<rparr>, [''5432''])"
    using target_and_flag [of port_flag_set "''5432''" "''server''"] by (simp add: example_lookups example_words string_flag_def)
  show "parseInterspersedFlags port_flag_set [''443'', ''--server'', v] p = Inr (p\<lparr>pf_server := v\<rparr>, [''443''])"
    using target_and_flag [of port_flag_set "''443''" "''server''"] by (simp add: example_lookups example_words string_flag_def)
qed

lemma example_target: "parseHTTPUpstreamTarget ''3000'' = Inr (''http'', ''127.0.0.1:3000'')"
proof -
  have "JoinHostPort ''127.0.0.1'' ''3000'' = ''127.0.0.1:3000''" "\<not> Contains ''3000'' ''://''" "TrimSpace ''3000'' = ''3000''"
    "isPortLiteral ''3000''"
    by (simp_all add: eval_simps)
  then show ?thesis by (simp add: parseHTTPUpstreamTarget_def upstream_host_port_def)
qed

lemma example_options:
  "http_command_options ((http_defaults env cfg)\<lparr>hf_server := v\<rparr>) ''8080'' \<noteq> Inl e"
  "http_command_options ((http_defaults env cfg)\<lparr>hf_domain := v\<rparr>) ''3000'' \<noteq> Inl e"
  "http_command_options ((http_defaults env cfg)\<lparr>hf_subdomain := v\<rparr>) ''3000'' \<noteq> Inl e"
  by (simp_all add: http_command_options_def http_defaults_def complain_def map_err_def empty_lists demo_target example_target)

text \<open>The examples of the client's usage text are accepted: on any machine, a command line that the text gives as an
  example does not end with a usage error, whatever the configuration file holds and the server answers.\<close>

theorem usage_examples_accepted:
  assumes "example \<in> set examples" and "client_main w example = Some r"
  shows "oc_code r \<noteq> 2"
proof -
  have word: "\<not> isFlagToken ''<token>''" "\<not> isFlagToken ''https://eosrift.com''" "\<not> isFlagToken ''rewrite''"
    "\<not> isFlagToken ''config''" "\<not> isFlagToken ''start''" "\<not> isFlagToken ''http''" "\<not> isFlagToken ''tcp''" "\<not> isFlagToken ''tls''"
    by (simp_all add: isFlagToken_def HasPrefix_def)
  have "ValidateHostHeaderMode ''rewrite'' = Inr ()" by (simp add: eval_simps)
  note config = config_set_runs [OF word(1)] config_set_runs [OF word(2)] config_set_runs [where check = ValidateHostHeaderMode, OF word(3) this]
  note runs = runConfig_def runConfigAddAuthtoken_def runConfigSetServer_def runConfigSetHostHeader_def runTCP_def runTLS_def
  have http: "oc_code (runHTTP w [''8080'', ''--server'', v] path) \<noteq> 2"
    "oc_code (runHTTP w [''3000'', ''--domain'', v] path) \<noteq> 2"
    "oc_code (runHTTP w [''3000'', ''--subdomain'', v] path) \<noteq> 2" for v path
    by (rule runHTTP_runs [OF example_flags(1)] runHTTP_runs [OF example_flags(2)] runHTTP_runs [OF example_flags(3)];
        simp add: example_options; simp add: http_defaults_def)+
  have port: "oc_code (run_port_command name w [''5432'', ''--server'', v] path) \<noteq> 2"
    "oc_code (run_port_command name w [''443'', ''--server'', v] path) \<noteq> 2" for name v path
    by (rule run_port_runs [OF example_flags(4)] run_port_runs [OF example_flags(5)]; simp)+
  show ?thesis
    using assms config http port start_all_runs
    unfolding examples_read client_main_def cli_Run_def
    by (elim list_memberE) (auto simp: global_flags_stop [OF word(4)] global_flags_stop [OF word(5)] global_flags_stop [OF word(6)]
      global_flags_stop [OF word(7)] global_flags_stop [OF word(8)] runs)
qed

subsection \<open>Witnesses\<close>

theorem usage_lists_commands_witness:
  "cli_Run demo_world [''serve''] = Some (stop 2 [ErrOut ''unknown command: serve'', Usage False ''eosrift''])
    \<and> runReserveCmd demo_server_world [''list''] \<noteq> usage_error (CmdUsage ''reserve'')"
proof -
  have "\<not> isFlagToken ''serve''" by (simp add: isFlagToken_def HasPrefix_def)
  moreover have "''serve'' \<notin> set (listed usage)" "''list'' \<in> set (listed reserveUsage)" by (simp_all add: listed_commands)
  ultimately show ?thesis
    using usage_lists_commands [of "''serve''" demo_world "[]" demo_server_world]
      usage_lists_commands [of "''list''" demo_world "[]" demo_server_world] by simp
qed

theorem usage_examples_accepted_witness:
  "\<exists>r. client_main demo_world [''eosrift'', ''config'', ''set-server'', ''https://eosrift.com''] = Some r \<and> oc_code r \<noteq> 2"
proof -
  have "\<not> isFlagToken ''config''" by (simp add: isFlagToken_def HasPrefix_def)
  then obtain r where "client_main demo_world [''eosrift'', ''config'', ''set-server'', ''https://eosrift.com''] = Some r"
    by (simp add: client_main_def cli_Run_def global_flags_stop)
  moreover have "[''eosrift'', ''config'', ''set-server'', ''https://eosrift.com''] \<in> set examples" by (simp add: examples_read)
  ultimately show ?thesis using usage_examples_accepted by blast
qed

end
