(* ===== verification/Spec2Isabelle.thy ===== *)
theory Spec2Isabelle
  imports Sessions Resume Deployhook ClientCommands ServerCommands Streams Logging DeployMain WellTyped EndToEnd Drain Wire LoadTest Pages Usage
begin

text \<open>
  EosRift is a self-hosted tunnel service written in Go. A client (\<open>cmd/client\<close>,
  \<open>internal/cli\<close>, \<open>internal/client\<close>) opens a control connection to a server
  (\<open>cmd/server\<close>, \<open>internal/server\<close>): a websocket that carries a yamux session. On the
  first stream of the session it sends a request for a tunnel as JSON (\<open>internal/control\<close>) and
  reads a reply; after that the server opens a stream for every public connection, and the client
  copies its bytes to a local service, if asked through an inspector (\<open>internal/inspect\<close>). The
  server keeps tokens and reservations in SQLite (\<open>internal/auth\<close>), the live HTTP tunnels in a
  registry, routes public requests to them by host, and has an admin API. A webhook
  (\<open>cmd/deployhook\<close>) deploys new versions.

  \<^bold>\<open>The model\<close>. Every theory translates the named source files; a definition has the name of the
  function it translates (with a prefix where two packages share one, or where a name is taken), and a
  part of a long function has a name of its own. Structs are records, errors are values
  (\<open>go_error + 'a\<close>, every early return is a branch), Go strings are lists of bytes, \<open>int\<close> and
  \<open>int64\<close> are integers with their range written out where the code converts or overflows, addresses
  are words. State is passed explicitly. What is outside of the repository is an argument: the
  outcomes of system calls and of statements of the store (each may fail before or after it took
  effect), clocks, random bytes, hashes (SHA-256, HMAC), YAML, the rounding of floating-point operations,
  the readers of \<open>net/http\<close>, the transport over a session, and what other users of the store do between
  two statements. Loops over outside events take the list of what they meet, so that
  \<open>None\<close> is a loop that has not returned after these events; a theorem that a loop returns says so.

  \<^bold>\<open>Library\<close>. \<open>Prelude\<close> has errors, results and the collections of rewrite rules.
  The theories whose names start with \<open>Go\<close>, and \<open>Netip\<close>, are the parts of Go's standard
  library the program uses: \<open>GoStrings\<close> (\<open>strings\<close>; case mapping on ASCII letters),
  \<open>GoStrconv\<close> and \<open>GoQuote\<close> (\<open>strconv\<close>, hexadecimal and base32, UTF-8, quoting), \<open>GoNet\<close>
  (host and port, canonical header names, basic credentials), \<open>GoHttp\<close> (requests, responses,
  the multiplexer), \<open>GoUrl\<close>, \<open>GoQuery\<close> and \<open>UrlHosts\<close> (\<open>net/url\<close>), \<open>GoTime\<close>,
  \<open>GoDuration\<close>, \<open>GoJson\<close> and \<open>GoJsonText\<close> (values into structs, and the text of JSON),
  \<open>GoFlag\<close>. Their main lemmas are round trips: numbers, quoting, escaping, JSON text, base64.
  \<open>Browser\<close> is what the embedded pages need of a browser: JSON values as a script sees them, \<open>String\<close>,
  \<open>trim\<close>, \<open>encodeURIComponent\<close>, and a reader of HTML, with the lemma that a printed tree reads back.

  \<^bold>\<open>Server\<close>.
  \<^item> \<open>Control\<close>: \<open>internal/control\<close>, the messages, the validation of lists and headers (locale
    \<open>list_parser\<close>, interpreted for methods, paths and prefixes) and the write loop. \<open>Wire\<close>: the messages
    as bytes, the bounded \<open>decodeBaseRequest\<close>, the reading of replies; requests and replies
    cross the wire unchanged.
  \<^item> \<open>Auth\<close>: \<open>internal/auth\<close>, the tables as lists of rows with their constraints; locale
    \<open>reservation_table\<close> for the two kinds of reservations; the invariant of the store and the life of
    tokens and reservations under any run of operations and faults.
  \<^item> \<open>Registry\<close>, \<open>TunnelLimits\<close>, \<open>RateLimit\<close>, \<open>Metrics\<close>: \<open>registry.go\<close> (locale
    \<open>tunnel_table\<close>), \<open>limits.go\<close>, \<open>rate_limit.go\<close>, \<open>metrics.go\<close>.
  \<^item> \<open>ControlHandler\<close>: one connection of \<open>control.go\<close>, cut into the stages between which it
    waits (locale \<open>owned_keys\<close> for claims against the store). \<open>Sessions\<close>: any number of
    connections in any order as an inductive step relation; its invariant makes registry, ports,
    counters and slots exact (a slot is held until the handler returns, also by a connection the rate
    limit refused). \<open>WellTyped\<close>: the form of every registered tunnel, and where the URL of a
    tunnel leads. \<open>EndToEnd\<close>: every entry is traced, in the run that led to it, to the request
    its session was admitted with. \<open>Drain\<close>: what happens without new connections.
  \<^item> \<open>TunnelProxy\<close>: \<open>http_tunnel.go\<close>, routing by host, access rules, headers, and the
    hooks of the reverse proxy with its check of an upgrade's answer. \<open>Admin\<close>:
    \<open>admin.go\<close> and the deploy status (locale \<open>kept_store\<close>: the API only runs operations of
    the store; \<open>admin_asks\<close> says which a request asks for). \<open>ServerHandler\<close>: \<open>handler.go\<close>, \<open>docs.go\<close>, \<open>landing.go\<close>, the routes.
    \<open>AdminScript\<close>: the dashboard of \<open>admin.go\<close>, its elements and its script as steps of clicks and
    answers in any order, with the invariant of its session. \<open>AdminConsole\<close>: the script against
    \<open>NewHandler\<close>, what the dashboard shows of the store and what its buttons do to it. \<open>Pages\<close>: the
    landing page, and what the references of the pages lead to.
    \<open>ServerCommands\<close>: \<open>cmd/server/main.go\<close>, with what each command line does to the
    store. \<open>Logging\<close>: \<open>internal/logging\<close>.
  \<^item> \<open>Deployhook\<close>, \<open>DeployMain\<close>: \<open>internal/deployhook\<close> and \<open>cmd/deployhook\<close>,
    deliveries and ends of runs in any order.

  \<^bold>\<open>Client\<close>.
  \<^item> \<open>ClientProxy\<close>: \<open>http_hostheader.go\<close>, \<open>http_capture.go\<close>, copying in arbitrary chunks.
    \<open>ClientTunnel\<close>: \<open>control.go\<close>, \<open>control_response.go\<close>, \<open>http.go\<close>, \<open>tcp.go\<close>, dialling,
    creating and reconnecting, and the configuration of \<open>internal/mux\<close> (locale \<open>tunnel_client\<close>, interpreted for both kinds). \<open>Resume\<close>: a
    reconnect against the server's handler, and \<open>Close\<close> racing with it. \<open>Streams\<close>: one stream
    from the server's inbound connection to the upstream and the inspector's entry (\<open>http_inspect.go\<close>).
  \<^item> \<open>Inspect\<close>: \<open>internal/inspect\<close>. \<open>InspectorPage\<close>: its page, whose markup shows what was
    sent through a tunnel as text (the JSON of the API as bytes, the encoder's U+FFFD for invalid
    UTF-8 included), and whose button replays the entry it shows. \<open>Config\<close>: \<open>internal/config\<close>, with the file system of
    \<open>Save\<close>, files and directories, as the list of its states. \<open>CliFlags\<close>, \<open>CliOptions\<close>, \<open>StartCmd\<close>,
    \<open>ClientCommands\<close>: \<open>internal/cli\<close>.
  \<^item> \<open>Usage\<close>: the usage texts of both programs against their commands.
  \<^item> \<open>LoadTest\<close>: \<open>test/loadtest\<close>, the settings, the workers and the summary.

  \<^bold>\<open>Bounds and fuel\<close>. The only fuel is that of the JSON reader (\<open>GoJsonText\<close>) and of the reader
  of log lines (\<open>Logging\<close>): the length of the text, which the theorems about them show to be enough.
  Loops that end by the data (ports, headers, rewriting, durations) are total functions with measures. In
  \<open>LoadTest\<close> every worker ends after \<open>4 * requests + 1\<close> of its turns.

  \<^bold>\<open>Not modelled\<close>. The style sheets of the pages (in \<open>landing.go\<close>, \<open>admin.go\<close> and
  \<open>inspect/http.go\<close>, about 1,020 lines) have no behaviour. The usage texts of single commands, which the
  flag package prints, are named, not spelled out. Of a
  browser the layout, focus and the check of number fields are left out, and text is bytes: what a browser makes of
  invalid UTF-8 is not modelled. Sockets, signals, TLS, the websocket
  and yamux protocols and the driver of the store are libraries. Letters outside ASCII are not mapped by
  the case functions; slices that alias after a JSON array was decoded twice into one field, and the
  nesting limit of the JSON scanner, are left out.
\<close>

end
